(* ===== verification/Go_Prelude.thy ===== *)
theory Go_Prelude
  imports "HOL-Library.Word" "HOL-Library.AList"
begin

text \<open>
  What the sources use of the Go language and of its standard library, shared by every
  component: machine integers, \<open>math/big\<close> integers, big-endian byte strings, numerals as text,
  and maps.

  \<^item> \<open>uint64\<close>, \<open>uint32\<close>, \<open>uint16\<close>, \<open>byte\<close> are words of their width, so \<open>+\<close> and \<open>*\<close> wrap;
    \<open>int\<close> and \<open>int64\<close> are HOL integers kept in range by \<open>wrap64\<close>.
  \<^item> A \<open>*big.Int\<close> is an unbounded \<open>int\<close>. The conversions that read the magnitude only
    (\<open>Uint64\<close>, \<open>Int64\<close>, \<open>Bytes\<close>, \<open>FillBytes\<close>) do so here too.
  \<^item> A Go \<open>string\<close> is a sequence of bytes: Isabelle's \<open>string\<close>, whose characters are bytes.
  \<^item> A Go map that is only looked up and stored to is a partial function; a map that the code
    ranges over is an association list with distinct keys, whose order stands for the
    unspecified order of \<open>range\<close>.
\<close>

section \<open>Types\<close>

type_synonym byte = "8 word"
type_synonym u16 = "16 word"
type_synonym u32 = "32 word"
type_synonym u64 = "64 word"
type_synonym ('k, 'v) gomap = "('k \<times> 'v) list"

named_theorems go_defs \<open>the definitions of the Go primitives, for unfolding\<close>

section \<open>Machine integers\<close>

definition wrap64 :: "int \<Rightarrow> int" where
  "wrap64 x = signed_take_bit 63 x"

lemma wrap64_id [simp]: "- (2 ^ 63) \<le> x \<Longrightarrow> x < 2 ^ 63 \<Longrightarrow> wrap64 x = x"
  by (simp add: wrap64_def signed_take_bit_int_eq_self)

lemma wrap64_bounds: "- (2 ^ 63) \<le> wrap64 x \<and> wrap64 x < 2 ^ 63"
  unfolding wrap64_def
  using signed_take_bit_int_greater_eq_minus_exp [of 63 x] signed_take_bit_int_less_exp [of 63 x]
  by simp

lemma wrap64_sint: "wrap64 (sint (w :: u64)) = sint w"
  using sint_ge [of w] sint_lt [of w] by simp

lemma sint_nonneg_unat: "0 \<le> sint (w :: u64) \<Longrightarrow> sint w = int (unat w)"
proof -
  assume "0 \<le> sint w"
  moreover have "sint w < 2 ^ 64" using sint_lt [of w] by simp
  ultimately have "take_bit 64 (sint w) = sint w" by (simp add: take_bit_int_eq_self)
  moreover have "uint w = take_bit 64 (sint w)" using uint_sint [of w] by simp
  ultimately show ?thesis by simp
qed

section \<open>Allocation\<close>

text \<open>
  The largest allocation of the Go runtime on a 64-bit platform, in bytes, and the longest slice of
  pointers that fits into it. A \<open>make\<close> beyond the first panics; a loop that appends pointers one by
  one cannot pass the second, since the allocation of the longer slice fails and the program
  crashes. That a machine has less memory than that is not modelled.
\<close>

definition maxAlloc :: u64 where
  "maxAlloc = 281474976710656"

definition maxSlots :: int where
  "maxSlots = uint maxAlloc div 8"

lemma maxSlots_eq: "maxSlots = 2 ^ 45"
  by (simp add: maxSlots_def maxAlloc_def)

section \<open>Big-endian numerals\<close>

text \<open>
  \<open>pos_digits b n\<close> are the digits of \<open>n\<close> in base \<open>b\<close>, most significant first and without
  leading zeros; \<open>pos_value b ds\<close> reads them back.
\<close>

function pos_digits :: "int \<Rightarrow> int \<Rightarrow> int list" where
  "pos_digits b n = (if b < 2 \<or> n \<le> 0 then [] else pos_digits b (n div b) @ [n mod b])"
  by pat_completeness auto
termination
  by (relation "measure (\<lambda>(b, n). nat n)") (auto simp: int_div_less_self)

definition pos_value :: "int \<Rightarrow> int list \<Rightarrow> int" where
  "pos_value b ds = foldl (\<lambda>a d. a * b + d) 0 ds"

declare pos_digits.simps [simp del]

lemma pos_digits_0 [simp]: "n \<le> 0 \<Longrightarrow> pos_digits b n = []"
  by (simp add: pos_digits.simps)

lemma pos_digits_rec: "2 \<le> b \<Longrightarrow> 0 < n \<Longrightarrow> pos_digits b n = pos_digits b (n div b) @ [n mod b]"
  by (simp add: pos_digits.simps [of b n])

lemma pos_value_Nil [simp]: "pos_value b [] = 0"
  by (simp add: pos_value_def)

lemma pos_value_snoc [simp]: "pos_value b (ds @ [d]) = pos_value b ds * b + d"
  by (simp add: pos_value_def)

lemma pos_value_digits: "2 \<le> b \<Longrightarrow> 0 \<le> n \<Longrightarrow> pos_value b (pos_digits b n) = n"
proof (induction b n rule: pos_digits.induct)
  case (1 b n)
  show ?case
  proof (cases "n = 0")
    case False
    with 1 have "pos_value b (pos_digits b (n div b)) = n div b"
      by (simp add: pos_imp_zdiv_nonneg_iff)
    with 1 False show ?thesis by (simp add: pos_digits_rec)
  qed simp
qed

lemma pos_digits_range: "2 \<le> b \<Longrightarrow> d \<in> set (pos_digits b n) \<Longrightarrow> 0 \<le> d \<and> d < b"
proof (induction b n rule: pos_digits.induct)
  case (1 b n)
  show ?case
  proof (cases "n \<le> 0")
    case True
    with 1 show ?thesis by simp
  next
    case False
    with 1 show ?thesis by (auto simp: pos_digits_rec)
  qed
qed

lemma pos_digits_nonempty: "2 \<le> b \<Longrightarrow> 0 < n \<Longrightarrow> pos_digits b n \<noteq> []"
  by (simp add: pos_digits_rec)

lemma pos_value_bound:
  "(\<And>d. d \<in> set ds \<Longrightarrow> 0 \<le> d \<and> d < b) \<Longrightarrow> 0 \<le> pos_value b ds \<and> pos_value b ds < b ^ length ds"
proof (induction ds rule: rev_induct)
  case (snoc d ds)
  then have ds: "0 \<le> pos_value b ds" "pos_value b ds + 1 \<le> b ^ length ds" and d: "0 \<le> d" "d < b"
    by fastforce+
  then have "(pos_value b ds + 1) * b \<le> b ^ length ds * b" by (intro mult_right_mono) auto
  with ds d show ?case by (simp add: algebra_simps)
qed simp

subsection \<open>Byte strings\<close>

text \<open>\<open>binary.BigEndian.PutUint64\<close>, \<open>big.Int.FillBytes\<close> and \<open>big.Int.SetBytes\<close> on magnitudes.\<close>

fun be_bytes :: "nat \<Rightarrow> int \<Rightarrow> byte list" where
  "be_bytes 0 n = []"
| "be_bytes (Suc k) n = be_bytes k (n div 256) @ [word_of_int n]"

definition big_Bytes :: "int \<Rightarrow> byte list" where
  "big_Bytes x = map word_of_int (pos_digits 256 \<bar>x\<bar>)"

definition big_SetBytes :: "byte list \<Rightarrow> int" where
  "big_SetBytes bs = pos_value 256 (map uint bs)"

text \<open>\<open>x.FillBytes(make([]byte, n))\<close>: \<open>None\<close> is the panic of a magnitude that does not fit.\<close>

definition big_FillBytes :: "int \<Rightarrow> nat \<Rightarrow> byte list option" where
  "big_FillBytes x n = (if \<bar>x\<bar> < 256 ^ n then Some (be_bytes n \<bar>x\<bar>) else None)"

definition big_Uint64 :: "int \<Rightarrow> u64" where
  "big_Uint64 x = word_of_int \<bar>x\<bar>"

definition big_Int64 :: "int \<Rightarrow> int" where
  "big_Int64 x = (let v = sint (word_of_int \<bar>x\<bar> :: u64) in if x < 0 then wrap64 (- v) else v)"

lemma length_be_bytes [simp]: "length (be_bytes k n) = k"
  by (induction k arbitrary: n) auto

lemma big_SetBytes_Nil [simp]: "big_SetBytes [] = 0"
  by (simp add: big_SetBytes_def)

lemma big_SetBytes_snoc [simp]: "big_SetBytes (bs @ [b]) = big_SetBytes bs * 256 + uint b"
  by (simp add: big_SetBytes_def)

lemma uint_byte_range: "0 \<le> uint (b :: byte) \<and> uint b < 256"
  using unsigned_less [of b, where ?'a = int] by simp

lemma big_SetBytes_range: "0 \<le> big_SetBytes bs \<and> big_SetBytes bs < 256 ^ length bs"
proof -
  have "0 \<le> d \<and> d < 256" if "d \<in> set (map uint bs)" for d
    using that uint_byte_range by auto
  then show ?thesis using pos_value_bound [of "map uint bs" 256] by (simp add: big_SetBytes_def)
qed

lemma big_SetBytes_nonneg [simp]: "0 \<le> big_SetBytes bs"
  using big_SetBytes_range [of bs] by simp

lemma big_SetBytes_be_bytes: "big_SetBytes (be_bytes k n) = n mod 256 ^ k"
proof (induction k arbitrary: n)
  case (Suc k)
  have "n mod (256 * 256 ^ k) = 256 * (n div 256 mod 256 ^ k) + n mod 256"
    by (rule zmod_zmult2_eq) simp
  with Suc show ?case by (simp add: uint_word_of_int)
qed simp

lemma byte_256: "(256 :: byte) = 0"
  by transfer simp

lemma be_bytes_SetBytes: "be_bytes (length bs) (big_SetBytes bs) = bs"
proof (induction bs rule: rev_induct)
  case (snoc b bs)
  have "(big_SetBytes bs * 256 + uint b) div 256 = big_SetBytes bs"
    using uint_byte_range [of b] by simp
  moreover have "(word_of_int (big_SetBytes bs * 256 + uint b) :: byte) = b"
    by (simp add: byte_256)
  ultimately show ?case using snoc by simp
qed simp

lemma be_bytes_inject:
  "be_bytes k m = be_bytes k n \<Longrightarrow> 0 \<le> m \<Longrightarrow> m < 256 ^ k \<Longrightarrow> 0 \<le> n \<Longrightarrow> n < 256 ^ k \<Longrightarrow> m = n"
  by (metis big_SetBytes_be_bytes mod_pos_pos_trivial)

lemma big_FillBytes_SetBytes: "length bs = n \<Longrightarrow> big_FillBytes (big_SetBytes bs) n = Some bs"
  using big_SetBytes_range [of bs] be_bytes_SetBytes [of bs] by (auto simp: big_FillBytes_def)

lemma big_SetBytes_Bytes: "0 \<le> x \<Longrightarrow> big_SetBytes (big_Bytes x) = x"
proof -
  assume x: "0 \<le> x"
  have "map (\<lambda>d. uint (word_of_int d :: byte)) (pos_digits 256 x) = pos_digits 256 x"
    using pos_digits_range [of 256 _ x] by (intro map_idI) (auto simp: uint_word_of_int)
  with x show ?thesis by (simp add: big_SetBytes_def big_Bytes_def comp_def pos_value_digits)
qed

lemma big_SetBytes_bound: "length bs = 32 \<Longrightarrow> big_SetBytes bs < 2 ^ 256"
  using big_SetBytes_range [of bs] by simp

lemma big_Uint64_of_nonneg: "0 \<le> x \<Longrightarrow> x < 2 ^ 64 \<Longrightarrow> uint (big_Uint64 x) = x"
  by (simp add: big_Uint64_def uint_word_of_int)

lemma big_Uint64_uint [simp]: "big_Uint64 (uint (w :: u64)) = w"
  by (simp add: big_Uint64_def)

section \<open>Numerals as text\<close>

text \<open>
  \<open>digit_char\<close> and \<open>digit_val\<close> are the digit alphabet of \<open>math/big\<close> and \<open>fmt\<close>: printing is in
  lower case, reading takes both cases.
\<close>

definition digit_char :: "int \<Rightarrow> char" where
  "digit_char d = (if d < 10 then char_of (48 + d) else char_of (87 + d))"

definition digit_val :: "char \<Rightarrow> int option" where
  "digit_val c = (let n = of_char c :: int in
     if 48 \<le> n \<and> n \<le> 57 then Some (n - 48)
     else if 97 \<le> n \<and> n \<le> 122 then Some (n - 87)
     else if 65 \<le> n \<and> n \<le> 90 then Some (n - 55)
     else None)"

text \<open>\<open>big.Int.Text(base)\<close>, \<open>big.Int.String()\<close> and the verbs \<open>%d\<close> and \<open>%x\<close>.\<close>

definition nat_text :: "int \<Rightarrow> int \<Rightarrow> string" where
  "nat_text b n = (if n = 0 then ''0'' else map digit_char (pos_digits b n))"

definition big_Text :: "int \<Rightarrow> int \<Rightarrow> string" where
  "big_Text b x = (if x < 0 then CHR ''-'' # nat_text b (- x) else nat_text b x)"

abbreviation big_String :: "int \<Rightarrow> string" where
  "big_String \<equiv> big_Text 10"

text \<open>
  \<open>big.Int.SetString(s, base)\<close> for a base other than 0: an optional sign, at least one digit,
  nothing after the digits; \<open>None\<close> is \<open>ok = false\<close>.
\<close>

fun read_digits :: "int \<Rightarrow> string \<Rightarrow> int list option" where
  "read_digits b [] = Some []"
| "read_digits b (c # cs) =
     (case digit_val c of
        None \<Rightarrow> None
      | Some d \<Rightarrow> if d < b then map_option (Cons d) (read_digits b cs) else None)"

definition read_nat :: "int \<Rightarrow> string \<Rightarrow> int option" where
  "read_nat b s = (if s = [] then None else map_option (pos_value b) (read_digits b s))"

fun big_SetString :: "string \<Rightarrow> int \<Rightarrow> int option" where
  "big_SetString [] b = None"
| "big_SetString (c # cs) b =
     (if c = CHR ''-'' then map_option uminus (read_nat b cs)
      else if c = CHR ''+'' then read_nat b cs
      else read_nat b (c # cs))"

text \<open>
  The value that \<open>z.SetString(s, base)\<close> leaves in \<open>z\<close> when its result is ignored: the scanner stores the
  digits it has read before it finds that something is left over.
\<close>

definition digits_prefix :: "int \<Rightarrow> string \<Rightarrow> int" where
  "digits_prefix b s =
     pos_value b (the (read_digits b (takeWhile (\<lambda>c. case digit_val c of None \<Rightarrow> False | Some d \<Rightarrow> d < b) s)))"

fun big_SetString_value :: "string \<Rightarrow> int \<Rightarrow> int" where
  "big_SetString_value [] b = 0"
| "big_SetString_value (c # cs) b =
     (if c = CHR ''-'' then - digits_prefix b cs
      else if c = CHR ''+'' then digits_prefix b cs
      else digits_prefix b (c # cs))"

lemma read_digits_prefix:
  "read_digits b s = Some ds \<Longrightarrow> takeWhile (\<lambda>c. case digit_val c of None \<Rightarrow> False | Some d \<Rightarrow> d < b) s = s"
  by (induction s arbitrary: ds) (auto split: option.splits if_splits)

lemma digits_prefix_read: "read_digits b s = Some ds \<Longrightarrow> digits_prefix b s = pos_value b ds"
  by (simp only: digits_prefix_def read_digits_prefix option.sel)

lemma big_SetString_value: "big_SetString s b = Some x \<Longrightarrow> big_SetString_value s b = x"
  by (cases s) (auto simp: read_nat_def simp del: read_digits.simps split: if_splits dest: digits_prefix_read)

text \<open>
  What every radix in use promises: a digit that is printed reads back as itself. The round
  trips of numerals are proved once from it, for the decimal and the hexadecimal notation.
\<close>

locale radix =
  fixes b :: int
  assumes base_ge: "2 \<le> b"
    and digit_round: "0 \<le> d \<Longrightarrow> d < b \<Longrightarrow> digit_val (digit_char d) = Some d"
begin

lemma read_digits_print:
  "(\<And>d. d \<in> set ds \<Longrightarrow> 0 \<le> d \<and> d < b) \<Longrightarrow> read_digits b (map digit_char ds) = Some ds"
  by (induction ds) (auto simp: digit_round)

lemma digit_char_0: "digit_char 0 = CHR ''0''"
  by code_simp

lemma read_nat_text: "0 \<le> n \<Longrightarrow> read_nat b (nat_text b n) = Some n"
proof (cases "n = 0")
  case True
  have "digit_val (CHR ''0'') = Some 0" using digit_round [of 0] base_ge by (simp add: digit_char_0)
  with True base_ge show ?thesis by (simp add: read_nat_def nat_text_def pos_value_def)
next
  case False
  assume "0 \<le> n"
  have "read_digits b (map digit_char (pos_digits b n)) = Some (pos_digits b n)"
    using base_ge by (intro read_digits_print) (rule pos_digits_range)
  with False \<open>0 \<le> n\<close> base_ge show ?thesis
    by (simp add: read_nat_def nat_text_def pos_digits_nonempty pos_value_digits)
qed

lemma nat_text_nonempty: "0 \<le> n \<Longrightarrow> nat_text b n \<noteq> []"
  using base_ge by (simp add: nat_text_def pos_digits_nonempty)

lemma nat_text_head: "0 \<le> n \<Longrightarrow> nat_text b n = c # cs \<Longrightarrow> \<exists>d. digit_val c = Some d"
  using read_nat_text [of n] by (auto simp: read_nat_def split: option.splits)

lemma SetString_Text: "big_SetString (big_Text b x) b = Some x"
proof (cases "x < 0")
  case True
  then show ?thesis by (simp add: big_Text_def read_nat_text)
next
  case False
  then obtain c cs where *: "nat_text b x = c # cs"
    using nat_text_nonempty [of x] by (cases "nat_text b x") auto
  then have "c \<noteq> CHR ''-''" and "c \<noteq> CHR ''+''"
    using nat_text_head [OF _ *] False by (auto simp: digit_val_def)
  moreover have "read_nat b (c # cs) = Some x" using read_nat_text [of x] * False by simp
  ultimately show ?thesis using False * by (simp add: big_Text_def)
qed

lemma Text_inject: "big_Text b x = big_Text b y \<longleftrightarrow> x = y"
  by (metis SetString_Text option.inject)

lemma Text_nonempty: "big_Text b x \<noteq> []"
  by (simp add: big_Text_def nat_text_nonempty)

end

lemma digit_val_char: "0 \<le> d \<Longrightarrow> d < 36 \<Longrightarrow> digit_val (digit_char d) = Some d"
  by (auto simp: digit_val_def digit_char_def Let_def)

interpretation dec: radix 10
  by unfold_locales (simp_all add: digit_val_char)

interpretation hex: radix 16
  by unfold_locales (simp_all add: digit_val_char)

section \<open>Strings and bytes\<close>

definition bytes_of_string :: "string \<Rightarrow> byte list" where
  "bytes_of_string s = map of_char s"

definition string_of_bytes :: "byte list \<Rightarrow> string" where
  "string_of_bytes bs = map (\<lambda>b. char_of (uint b)) bs"

lemma uint_of_char: "uint (of_char c :: byte) = of_char c"
proof -
  have "uint (of_int (of_char c) :: byte) = of_char c mod 256"
    by (simp only: uint_word_of_int) simp
  then show ?thesis by (simp only: of_int_of_char of_char_mod_256)
qed

lemma string_of_bytes_of_string [simp]: "string_of_bytes (bytes_of_string s) = s"
  by (simp add: string_of_bytes_def bytes_of_string_def comp_def uint_of_char)

lemma length_bytes_of_string [simp]: "length (bytes_of_string s) = length s"
  by (simp add: bytes_of_string_def)

lemma length_string_of_bytes [simp]: "length (string_of_bytes bs) = length bs"
  by (simp add: string_of_bytes_def)

text \<open>\<open>strings.Contains\<close> and \<open>strings.HasPrefix\<close>.\<close>

fun has_prefix :: "string \<Rightarrow> string \<Rightarrow> bool" where
  "has_prefix s [] = True"
| "has_prefix [] (p # ps) = False"
| "has_prefix (c # cs) (p # ps) = (c = p \<and> has_prefix cs ps)"

fun str_contains :: "string \<Rightarrow> string \<Rightarrow> bool" where
  "str_contains [] p = (p = [])"
| "str_contains (c # cs) p = (has_prefix (c # cs) p \<or> str_contains cs p)"

text \<open>
  \<open>string(b)\<close> for a \<open>byte\<close> \<open>b\<close> is the UTF-8 encoding of the code point \<open>b\<close>, two bytes from
  128 on.
\<close>

definition string_of_rune :: "char \<Rightarrow> string" where
  "string_of_rune c = (let n = of_char c :: int in
     if n < 128 then [c] else [char_of (192 + n div 64), char_of (128 + n mod 64)])"

section \<open>Maps that are ranged over\<close>

abbreviation go_keys :: "('k, 'v) gomap \<Rightarrow> 'k list" where
  "go_keys m \<equiv> map fst m"

abbreviation go_store :: "'k \<Rightarrow> 'v \<Rightarrow> ('k, 'v) gomap \<Rightarrow> ('k, 'v) gomap" where
  "go_store \<equiv> AList.update"

abbreviation go_delete :: "'k \<Rightarrow> ('k, 'v) gomap \<Rightarrow> ('k, 'v) gomap" where
  "go_delete \<equiv> AList.delete"

text \<open>The sum of a measure over the values of a map: what a ledger holds in total.\<close>

definition map_sum :: "('v \<Rightarrow> nat) \<Rightarrow> ('k, 'v) gomap \<Rightarrow> nat" where
  "map_sum f m = (\<Sum>(k, v)\<leftarrow>m. f v)"

lemma map_sum_Nil [simp]: "map_sum f [] = 0"
  by (simp add: map_sum_def)

lemma map_sum_Cons [simp]: "map_sum f ((k, v) # m) = f v + map_sum f m"
  by (simp add: map_sum_def)

lemma map_of_go_store [simp]: "map_of (go_store k v m) = (map_of m)(k \<mapsto> v)"
  by (simp add: update_conv')

lemma go_store_new: "k \<notin> fst ` set m \<Longrightarrow> go_store k v m = m @ [(k, v)]"
  by (induction m) auto

lemma go_delete_new: "k \<notin> fst ` set m \<Longrightarrow> go_delete k m = m"
  by (induction m) auto

lemma map_sum_store_new: "map_of m k = None \<Longrightarrow> map_sum f (go_store k v m) = map_sum f m + f v"
  by (induction m) (auto split: if_splits)

lemma map_sum_store_old:
  "map_of m k = Some w \<Longrightarrow> map_sum f (go_store k v m) + f w = map_sum f m + f v"
  by (induction m) (auto split: if_splits)

lemma map_sum_member: "map_of m k = Some v \<Longrightarrow> f v \<le> map_sum f m"
  by (induction m) (auto split: if_splits)

lemma map_sum_member2:
  "map_of m k = Some v \<Longrightarrow> map_of m l = Some w \<Longrightarrow> k \<noteq> l \<Longrightarrow> f v + f w \<le> map_sum f m"
  by (induction m) (auto split: if_splits dest: map_sum_member [where f = f])

end
