(* ===== verification/Marigold_Syntax.thy ===== *)
theory Marigold_Syntax
  imports Go_Prelude
begin

text \<open>
  The data of the Marigold compiler: the tokens of \<open>src/marigold/tokens.go\<close>, the types of \<open>types.go\<close>,
  the syntax trees of \<open>ast.go\<close> and the context variables of \<open>chainidents.go\<close>. A tagged struct is a
  datatype with one constructor per tag that holds the fields the tag uses; a field that may be nil
  is an option. Token positions inside trees serve error messages only and are left out.
\<close>

section \<open>Tokens\<close>

datatype TokenType =
    TLParen | TRParen | TLSquare | TRSquare | TLBrace | TRBrace | TComma | TDot | TPipe | TColon
  | TSemicolon | TAssign | TEqual | TNotEqual | TNot | TLessThan | TLessEqual | TGreaterThan
  | TGreaterEqual | TDivide | TModulo | TPlus | TMinus | TMultiply | TExponent | TLogicalAnd
  | TLogicalOr | TIdentifier | TStringLiteral | TIntLiteral | TFloatLiteral | TBoolLiteral
  | TString | TInt | TFloat | TBool | TWhile | TReturn | TDefine | TBreak | TContinue | TIf | TElse
  | TLen | TEmit | TStop | TAssert | TMap | TFunction | TEof

definition token_table :: "(string \<times> TokenType) list" where
  "token_table =
     [(''('', TLParen), ('')'', TRParen), (''['', TLSquare), ('']'', TRSquare), (''{'', TLBrace),
      (''}'', TRBrace), ('','', TComma), (''.'', TDot), (''|'', TPipe), ('':'', TColon),
      ('';'', TSemicolon), (''='', TAssign), (''=='', TEqual), (''!='', TNotEqual), (''!'', TNot),
      (''<'', TLessThan), (''<='', TLessEqual), (''>'', TGreaterThan), (''>='', TGreaterEqual),
      (''/'', TDivide), (''%'', TModulo), (''+'', TPlus), (''-'', TMinus), (''*'', TMultiply),
      (''^'', TExponent), (''&&'', TLogicalAnd), (''||'', TLogicalOr), (''string'', TString),
      (''int'', TInt), (''float'', TFloat), (''bool'', TBool), (''while'', TWhile),
      (''return'', TReturn), (''define'', TDefine), (''break'', TBreak), (''continue'', TContinue),
      (''if'', TIf), (''else'', TElse), (''len'', TLen), (''emit'', TEmit), (''stop'', TStop),
      (''assert'', TAssert), (''map'', TMap), (''true'', TBoolLiteral), (''false'', TBoolLiteral)]"

definition TokenTypeMap :: "string \<Rightarrow> TokenType option" where
  "TokenTypeMap = map_of token_table"

text \<open>\<open>None\<close> is the nil pointer.\<close>

definition IsValidReturnType :: "TokenType option \<Rightarrow> bool" where
  "IsValidReturnType tt = (case tt of None \<Rightarrow> False | Some t \<Rightarrow> t = TString \<or> t = TInt \<or> t = TFloat \<or> t = TBool)"

record Token =
  tok_Type :: TokenType
  tok_Value :: string
  tok_Col :: u64
  tok_Row :: u64
  tok_Filename :: string

definition NewToken :: "string \<Rightarrow> TokenType \<Rightarrow> u64 \<Rightarrow> u64 \<Rightarrow> string \<Rightarrow> Token" where
  "NewToken value tokenType col row filename =
     \<lparr>tok_Type = tokenType, tok_Value = value, tok_Col = col, tok_Row = row, tok_Filename = filename\<rparr>"

section \<open>Types\<close>

text \<open>The element type of an array literal whose elements have no type is nil.\<close>

datatype Type =
    SimpleType string
  | ArrayType int "Type option"
  | MapType Type Type

definition IntType :: Type where "IntType = SimpleType ''int''"
definition FloatType :: Type where "FloatType = SimpleType ''float''"
definition StringType :: Type where "StringType = SimpleType ''string''"
definition BoolType :: Type where "BoolType = SimpleType ''bool''"
definition AnyType :: Type where "AnyType = SimpleType ''any''"

lemmas simple_types = IntType_def FloatType_def StringType_def BoolType_def AnyType_def

definition NewArrayType :: "int \<Rightarrow> Type option \<Rightarrow> Type" where
  "NewArrayType n elementType = ArrayType n elementType"

definition NewMapType :: "Type \<Rightarrow> Type \<Rightarrow> Type" where
  "NewMapType keyType valueType = MapType keyType valueType"

text \<open>
  \<open>t.Equals(other)\<close>; the outer \<open>None\<close> is the panic of a method call on a nil element type, and
  \<open>other\<close> is \<open>None\<close> when it is nil.
\<close>

fun Type_Equals :: "Type \<Rightarrow> Type option \<Rightarrow> bool option" where
  "Type_Equals t None = Some False"
| "Type_Equals (SimpleType k) (Some o') = Some (case o' of SimpleType k' \<Rightarrow> k = k' | _ \<Rightarrow> False)"
| "Type_Equals (ArrayType n e) (Some o') =
     (case o' of
        ArrayType n' e' \<Rightarrow> if n = n' then (case e of None \<Rightarrow> None | Some t \<Rightarrow> Type_Equals t e') else Some False
      | _ \<Rightarrow> Some False)"
| "Type_Equals (MapType k v) (Some o') =
     (case o' of
        MapType k' v' \<Rightarrow>
          (case Type_Equals k (Some k') of
             None \<Rightarrow> None
           | Some b \<Rightarrow> if b then Type_Equals v (Some v') else Some False)
      | _ \<Rightarrow> Some False)"

definition IsNumeric :: "Type \<Rightarrow> bool" where
  "IsNumeric t = (case t of SimpleType k \<Rightarrow> k = ''int'' \<or> k = ''float'' | _ \<Rightarrow> False)"

definition IsAssignableTo :: "Type \<Rightarrow> Type option \<Rightarrow> bool option" where
  "IsAssignableTo t other =
     (case t of
        SimpleType k \<Rightarrow>
          (case Type_Equals t other of
             None \<Rightarrow> None
           | Some b \<Rightarrow>
               if b then Some True
               else Some (case other of
                  Some (SimpleType k') \<Rightarrow> IsNumeric t \<and> IsNumeric (SimpleType k')
                | _ \<Rightarrow> False))
      | _ \<Rightarrow> Type_Equals t other)"

definition TypeFromTokenType :: "TokenType \<Rightarrow> Type option" where
  "TypeFromTokenType tt = (case tt of
      TInt \<Rightarrow> Some IntType | TFloat \<Rightarrow> Some FloatType | TString \<Rightarrow> Some StringType | TBool \<Rightarrow> Some BoolType
    | _ \<Rightarrow> None)"

text \<open>\<open>t.String()\<close>; a nil element type panics.\<close>

fun Type_String :: "Type \<Rightarrow> string option" where
  "Type_String (SimpleType k) = Some k"
| "Type_String (ArrayType n e) =
     (case e of None \<Rightarrow> None
      | Some t \<Rightarrow> map_option (\<lambda>s. ''['' @ (if n \<ge> 0 then big_String n else []) @ '']'' @ s) (Type_String t))"
| "Type_String (MapType k v) =
     (case Type_String k of None \<Rightarrow> None
      | Some ks \<Rightarrow> map_option (\<lambda>vs. ''map['' @ ks @ '']'' @ vs) (Type_String v))"

section \<open>Trees\<close>

text \<open>The right operand of an operator is nil when the parser found none.\<close>

datatype Expression =
    BinaryExpr TokenType Expression "Expression option"
  | UnaryExpr TokenType "Expression option"
  | CallExpr string "Expression list"
  | IdentifierExpr string
  | LiteralExpr TokenType string
  | ArrayLiteral "Expression list"
  | MapLiteral
  | IndexExpr Expression Expression
  | SliceExpr Expression "Expression option" "Expression option"

text \<open>A block with the variables of its own scope; the parent of a scope is the enclosing one.\<close>

type_synonym Variables = "(string, Type) gomap"

datatype Statement =
    AssignmentStmt "Type option" Expression "Expression option"
  | ReturnStmt "Expression option"
  | IfStmt Expression Block "Block option"
  | WhileStmt Expression Block
  | BreakStmt
  | ContinueStmt
  | ExpressionStmt Expression
and Block = Block "Statement list" Variables

primrec Statements :: "Block \<Rightarrow> Statement list" where
  "Statements (Block ss vars) = ss"

primrec Scope_Variables :: "Block \<Rightarrow> Variables" where
  "Scope_Variables (Block ss vars) = vars"

record Function =
  fn_Name :: string
  fn_Parameters :: "string list"
  fn_ParameterTypes :: "Type list"
  fn_ReturnType :: Type
  fn_Block :: Block

record Ast =
  ast_Functions :: "(string, Function) gomap"
  ast_Scope :: Variables

text \<open>The global scope starts with the two built-in storage variables.\<close>

definition NewAst :: Ast where
  "NewAst = \<lparr>ast_Functions = [],
     ast_Scope = [(''memory'', NewArrayType (- 1) (Some StringType)),
                  (''persistent'', NewMapType StringType StringType)]\<rparr>"

section \<open>Context variables\<close>

definition GetBlockchainContextVariable :: "string \<Rightarrow> Type option" where
  "GetBlockchainContextVariable = map_of
     [(''@caller'', StringType), (''@address'', StringType), (''@balance'', IntType), (''@origin'', StringType),
      (''@gasprice'', IntType), (''@callvalue'', IntType), (''@timestamp'', IntType), (''@difficulty'', IntType),
      (''@coinbase'', StringType), (''@height'', IntType), (''@gaslimit'', IntType), (''@tsxdata'', StringType)]"

section \<open>Equality of types\<close>

text \<open>A type all of whose element types are there.\<close>

fun complete :: "Type \<Rightarrow> bool" where
  "complete (SimpleType k) = True"
| "complete (ArrayType n e) = (case e of None \<Rightarrow> False | Some t \<Rightarrow> complete t)"
| "complete (MapType k v) = (complete k \<and> complete v)"

lemma Type_Equals_iff: "complete t \<Longrightarrow> Type_Equals t u = Some (u = Some t)"
proof (induction t arbitrary: u)
  case (SimpleType k)
  then show ?case by (cases u) (auto split: Type.splits)
next
  case (ArrayType n e)
  show ?case
  proof (cases u)
    case (Some v)
    then show ?thesis using ArrayType by (cases v) (auto split: option.splits)
  qed simp
next
  case (MapType k v)
  show ?case
  proof (cases u)
    case (Some w)
    then show ?thesis using MapType by (cases w) (auto split: option.splits)
  qed simp
qed

lemma complete_simple [simp]: "complete IntType" "complete FloatType" "complete StringType" "complete BoolType" "complete AnyType"
  by (simp_all add: simple_types)

lemma IsAssignableTo_iff:
  "complete t \<Longrightarrow> IsAssignableTo t u = Some (u = Some t \<or> (\<exists>v. u = Some v \<and> IsNumeric t \<and> IsNumeric v))"
proof (cases t)
  case (SimpleType k)
  then show ?thesis
    by (cases u; cases "the u") (auto simp: IsAssignableTo_def Type_Equals_iff[of "SimpleType k"] IsNumeric_def split: Type.splits)
qed (auto simp: IsAssignableTo_def Type_Equals_iff IsNumeric_def)

end
