(* ===== verification/Config.thy ===== *)
theory Config
  imports Go_Prelude
begin

text \<open>
  The constants of \<open>src/config/config.go\<close> that the modelled code reads, under their names, and the
  32-byte identifiers. A public key and a hash are byte strings of length 32; the zero values
  \<open>PublicKey{}\<close> and \<open>Hash32{}\<close> are 32 zero bytes.
\<close>

type_synonym PublicKey = "byte list"
type_synonym Hash32 = "byte list"
type_synonym Signature = "byte list"

definition zero32 :: "byte list" where
  "zero32 = replicate 32 0"

section \<open>Difficulty adjustment\<close>

definition RecalculationFrequency :: nat where
  "RecalculationFrequency = 2016"

definition TargetTimespan :: int where
  "TargetTimespan = 1209600"

definition MaxAdjustmentFactor :: int where
  "MaxAdjustmentFactor = 4"

definition MaxTargetCompact :: u32 where
  "MaxTargetCompact = 0x1d00ffff"

definition TestTargetCompact :: u32 where
  "TestTargetCompact = 0x1f00ffff"

definition IsTestMode :: bool where
  "IsTestMode = True"

definition GetTargetCompact :: u32 where
  "GetTargetCompact = (if IsTestMode then TestTargetCompact else MaxTargetCompact)"

section \<open>Currency, gas and limits\<close>

definition Leaf :: u64 where
  "Leaf = 1"

definition AUG :: u64 where
  "AUG = 1000000 * Leaf"

definition BlockReward :: u64 where
  "BlockReward = 50 * AUG"

definition ContractDeploymentFee :: u64 where
  "ContractDeploymentFee = 1 * AUG"

definition GasTransfer :: u64 where
  "GasTransfer = 21000"

definition GasContractDeploy :: u64 where
  "GasContractDeploy = 21000"

definition GasDataPerByte :: u64 where
  "GasDataPerByte = 68"

definition AVMMaxStackSize :: u64 where
  "AVMMaxStackSize = 10000"

definition AVMMaxMemorySize :: u64 where
  "AVMMaxMemorySize = 10000"

definition MaxCandidateChainDepthGap :: u64 where
  "MaxCandidateChainDepthGap = 6"

definition MempoolMaxSize :: nat where
  "MempoolMaxSize = 1000"

text \<open>Seven days, as a \<open>time.Duration\<close> in nanoseconds.\<close>

definition MempoolMaxExpiry :: int where
  "MempoolMaxExpiry = 7 * 24 * 3600 * 1000000000"

definition FirstUser :: PublicKey where
  "FirstUser =
    [0x99, 0x3f, 0xe6, 0xa3, 0x6d, 0x19, 0xed, 0x52,
     0x78, 0x90, 0xa7, 0x69, 0x8e, 0x94, 0x0c, 0x3c,
     0x1c, 0x62, 0x9c, 0xa0, 0x64, 0x43, 0x83, 0x78,
     0x71, 0xcb, 0x0e, 0xd1, 0x94, 0x35, 0x22, 0x9b]"

lemmas money_defs = Leaf_def AUG_def BlockReward_def ContractDeploymentFee_def
lemmas gas_defs = GasTransfer_def GasContractDeploy_def GasDataPerByte_def

lemma length_zero32 [simp]: "length zero32 = 32"
  by (simp add: zero32_def)

lemma length_FirstUser [simp]: "length FirstUser = 32"
  by (simp add: FirstUser_def)

lemma FirstUser_not_zero: "FirstUser \<noteq> zero32"
  by code_simp

end
