(* ===== verification/Encoding.thy ===== *)
theory Encoding
  imports Config
begin

text \<open>
  The textual encodings of hashes and keys: what the sources use of \<open>encoding/hex\<close>,
  \<open>encoding/base64\<close> and \<open>strconv\<close>, the JSON forms of \<open>Hash32\<close> (\<open>src/types/types.go\<close>) and \<open>PublicKey\<close>
  (\<open>src/config/config.go\<close>), and the conversions of \<open>src/libnet/utils.go\<close>. An error of a decoder is \<open>None\<close>.
  A pair of an encoder and a decoder is the locale \<open>text_code\<close>, whose lemmas give the round trips of the
  quoted forms.
\<close>

section \<open>Decimal numbers\<close>

text \<open>\<open>strconv.Atoi\<close>.\<close>

definition Atoi :: "string \<Rightarrow> int option" where
  "Atoi s = (case big_SetString s 10 of
      Some n \<Rightarrow> if - (2 ^ 63) \<le> n \<and> n < 2 ^ 63 then Some n else None
    | None \<Rightarrow> None)"

section \<open>Hexadecimal\<close>

definition hex_value :: "char \<Rightarrow> int option" where
  "hex_value c = (case digit_val c of Some d \<Rightarrow> if d < 16 then Some d else None | None \<Rightarrow> None)"

definition hex_EncodeToString :: "byte list \<Rightarrow> string" where
  "hex_EncodeToString bs = concat (map (\<lambda>b. [digit_char (uint b div 16), digit_char (uint b mod 16)]) bs)"

fun hex_DecodeString :: "string \<Rightarrow> byte list option" where
  "hex_DecodeString [] = Some []"
| "hex_DecodeString [c] = None"
| "hex_DecodeString (a # b # cs) =
     (case (hex_value a, hex_value b) of
        (Some x, Some y) \<Rightarrow> map_option (\<lambda>bs. word_of_int (16 * x + y) # bs) (hex_DecodeString cs)
      | _ \<Rightarrow> None)"

section \<open>Base64\<close>

definition base64_alphabet :: string where
  "base64_alphabet = ''ABCDEFGHIJKLMNOPQRSTUVWXYZabcdefghijklmnopqrstuvwxyz0123456789+/''"

definition base64_char :: "int \<Rightarrow> char" where
  "base64_char v = base64_alphabet ! nat v"

definition base64_value :: "char \<Rightarrow> int option" where
  "base64_value c = map_of (zip base64_alphabet [0..63]) c"

fun base64_EncodeToString :: "byte list \<Rightarrow> string" where
  "base64_EncodeToString [] = []"
| "base64_EncodeToString [a] =
     (let v = uint a * 65536 in [base64_char (v div 262144), base64_char (v div 4096 mod 64), CHR ''='', CHR ''=''])"
| "base64_EncodeToString [a, b] =
     (let v = uint a * 65536 + uint b * 256
      in [base64_char (v div 262144), base64_char (v div 4096 mod 64), base64_char (v div 64 mod 64), CHR ''=''])"
| "base64_EncodeToString (a # b # c # bs) =
     (let v = uint a * 65536 + uint b * 256 + uint c
      in [base64_char (v div 262144), base64_char (v div 4096 mod 64), base64_char (v div 64 mod 64), base64_char (v mod 64)]
         @ base64_EncodeToString bs)"

text \<open>
  The decoder reads groups of four characters; padding ends the text, and the bits behind the last byte
  are not looked at. Line breaks are skipped wherever they stand.
\<close>

fun decode_quanta :: "string \<Rightarrow> byte list option" where
  "decode_quanta [] = Some []"
| "decode_quanta (a # b # c # d # cs) =
     (case (base64_value a, base64_value b) of
        (Some x, Some y) \<Rightarrow>
          if c = CHR ''='' then
            if d = CHR ''='' \<and> cs = [] then Some [word_of_int (x * 4 + y div 16)] else None
          else (case base64_value c of
             Some z \<Rightarrow>
               let v = x * 262144 + y * 4096 + z * 64 in
               if d = CHR ''='' then
                 if cs = [] then Some [word_of_int (v div 65536), word_of_int (v div 256)] else None
               else (case base64_value d of
                  Some w \<Rightarrow> map_option (\<lambda>bs. word_of_int (v div 65536) # word_of_int (v div 256) # word_of_int (v + w) # bs) (decode_quanta cs)
                | None \<Rightarrow> None)
           | None \<Rightarrow> None)
      | _ \<Rightarrow> None)"
| "decode_quanta _ = None"

definition base64_DecodeString :: "string \<Rightarrow> byte list option" where
  "base64_DecodeString s = decode_quanta (filter (\<lambda>c. c \<noteq> CHR 0x0A \<and> c \<noteq> CHR 0x0D) s)"

section \<open>Hashes and keys\<close>

definition Hash32_String :: "Hash32 \<Rightarrow> string" where
  "Hash32_String h = hex_EncodeToString h"

definition Hash32_MarshalJSON :: "Hash32 \<Rightarrow> string" where
  "Hash32_MarshalJSON h = [CHR 0x22] @ Hash32_String h @ [CHR 0x22]"

definition quoted :: "string \<Rightarrow> bool" where
  "quoted data \<longleftrightarrow> \<not> (length data < 2 \<or> hd data \<noteq> CHR 0x22 \<or> last data \<noteq> CHR 0x22)"

definition Hash32_UnmarshalJSON :: "string \<Rightarrow> Hash32 option" where
  "Hash32_UnmarshalJSON data =
     (if \<not> quoted data then None
      else case hex_DecodeString (butlast (tl data)) of
          None \<Rightarrow> None
        | Some bytes \<Rightarrow> if length bytes \<noteq> 32 then None else Some bytes)"

definition PublicKey_MarshalJSON :: "PublicKey \<Rightarrow> string" where
  "PublicKey_MarshalJSON pk = [CHR 0x22] @ base64_EncodeToString pk @ [CHR 0x22]"

definition PublicKey_UnmarshalJSON :: "string \<Rightarrow> PublicKey option" where
  "PublicKey_UnmarshalJSON data =
     (if \<not> quoted data then None
      else case base64_DecodeString (butlast (tl data)) of
          None \<Rightarrow> None
        | Some decoded \<Rightarrow> if length decoded \<noteq> 32 then None else Some decoded)"

definition StringToHash32 :: "string \<Rightarrow> Hash32 option" where
  "StringToHash32 hashStr =
     (case hex_DecodeString hashStr of
        None \<Rightarrow> None
      | Some hashBytes \<Rightarrow> if length hashBytes \<noteq> 32 then None else Some hashBytes)"

definition Hash32ToString :: "Hash32 \<Rightarrow> string" where
  "Hash32ToString hash = base64_EncodeToString hash"

section \<open>Encoders and decoders\<close>

text \<open>What is encoded is decoded again, and the text of a nonempty value is not empty.\<close>

locale text_code =
  fixes encode :: "byte list \<Rightarrow> string" and decode :: "string \<Rightarrow> byte list option"
  assumes decode_encode: "decode (encode bs) = Some bs"
begin

lemma encode_inject: "encode bs = encode cs \<longleftrightarrow> bs = cs"
  by (metis decode_encode option.inject)

lemma decode_quoted: "decode (butlast (tl ([CHR 0x22] @ encode bs @ [CHR 0x22]))) = Some bs"
  by (simp add: decode_encode)

end

lemma quoted_quotes [simp]: "quoted ([CHR 0x22] @ s @ [CHR 0x22])"
  by (simp add: quoted_def)

lemma hex_value_digit: "0 \<le> d \<Longrightarrow> d < 16 \<Longrightarrow> hex_value (digit_char d) = Some d"
  by (simp add: hex_value_def digit_val_char)

lemma byte_halves: "word_of_int (16 * (uint b div 16) + uint b mod 16) = (b :: byte)"
  by simp

lemma hex_decode_encode: "hex_DecodeString (hex_EncodeToString bs) = Some bs"
proof (induction bs)
  case (Cons b bs)
  have "0 \<le> uint b div 16" "uint b div 16 < 16" using uint_byte_range[of b] by (simp_all add: pos_imp_zdiv_nonneg_iff)
  then show ?case using Cons by (simp add: hex_EncodeToString_def hex_value_digit)
qed (simp add: hex_EncodeToString_def)

interpretation hex: text_code hex_EncodeToString hex_DecodeString
  by unfold_locales (rule hex_decode_encode)

text \<open>The 64 digits, and a number of 24 bits written in four of them.\<close>

lemma base64_digits:
  assumes "0 \<le> v" "v < 64"
  shows "base64_value (base64_char v) = Some v" "base64_char v \<noteq> CHR ''=''" "base64_char v \<noteq> CHR 0x0A" "base64_char v \<noteq> CHR 0x0D"
proof -
  have "\<forall>v\<in>set [0..63]. base64_value (base64_char v) = Some v \<and> base64_char v \<noteq> CHR ''='' \<and>
    base64_char v \<noteq> CHR 0x0A \<and> base64_char v \<noteq> CHR 0x0D" by code_simp
  with assms show "base64_value (base64_char v) = Some v" "base64_char v \<noteq> CHR ''=''" "base64_char v \<noteq> CHR 0x0A" "base64_char v \<noteq> CHR 0x0D"
    by simp_all
qed

definition sextets :: "int \<Rightarrow> int list" where
  "sextets v = [v div 262144, v div 4096 mod 64, v div 64 mod 64, v mod 64]"

lemma sextets_range: "0 \<le> v \<Longrightarrow> v < 16777216 \<Longrightarrow> list_all (\<lambda>d. 0 \<le> d \<and> d < 64) (sextets v)"
  by (auto simp: sextets_def pos_imp_zdiv_nonneg_iff)

lemma sextets_value: "v div 262144 * 262144 + v div 4096 mod 64 * 4096 + v div 64 mod 64 * 64 + v mod 64 = (v :: int)"
proof -
  have "v div 4096 = v div 64 div 64" "v div 262144 = v div 64 div 64 div 64" by (simp_all flip: zdiv_zmult2_eq)
  moreover have "c * 262144 + r2 * 4096 + r1 * 64 + r0 = x" if "64 * a + r0 = x" "64 * b + r1 = a" "64 * c + r2 = b" for a b c r0 r1 r2 x :: int
    using that by simp
  ultimately show ?thesis using mult_div_mod_eq by metis
qed

lemma byte_of_int_drop: "word_of_int (256 * x + uint b) = (b :: byte)"
proof -
  have "word_of_int (256 * x + uint b) = (256 :: byte) * word_of_int x + word_of_int (uint b)" by simp
  then show ?thesis by (simp add: byte_256)
qed

lemma bytes_value:
  fixes a b r :: int
  assumes "0 \<le> b" "b < 256" "0 \<le> r" "r < 256"
  shows "(a * 65536 + b * 256 + r) div 65536 = a" "(a * 65536 + b * 256 + r) div 256 = 256 * a + b"
proof -
  have "(a * 65536 + b * 256 + r) div 65536 = a + (b * 256 + r) div 65536" using div_mult_self1[of 65536 "b * 256 + r" a] by (simp add: ac_simps)
  moreover have "(b * 256 + r) div 65536 = 0" using assms by (intro div_pos_pos_trivial) simp_all
  ultimately show "(a * 65536 + b * 256 + r) div 65536 = a" by simp
  have "(a * 65536 + b * 256 + r) div 256 = 256 * a + b + r div 256" using div_mult_self1[of 256 r "256 * a + b"] by (simp add: algebra_simps)
  then show "(a * 65536 + b * 256 + r) div 256 = 256 * a + b" using assms by simp
qed

text \<open>The quantum of three bytes and the two shorter ones at the end.\<close>

lemma quantum_value:
  fixes a b c :: byte
  defines "v \<equiv> uint a * 65536 + uint b * 256 + uint c"
  defines "u \<equiv> v div 262144 * 262144 + v div 4096 mod 64 * 4096 + v div 64 mod 64 * 64"
  shows "word_of_int (u div 65536) = a" "word_of_int (u div 256) = b" "u + v mod 64 = v" "word_of_int v = c"
    "list_all (\<lambda>d. 0 \<le> d \<and> d < 64) (sextets v)"
proof -
  show sum: "u + v mod 64 = v" unfolding u_def by (rule sextets_value)
  have "v mod 64 = uint c mod 64"
    unfolding v_def using mod_mult_self1[of "uint c" "uint a * 1024 + uint b * 4" 64] by (simp add: algebra_simps)
  with sum have u: "u = uint a * 65536 + uint b * 256 + (uint c - uint c mod 64)" unfolding v_def by linarith
  have r: "0 \<le> uint c - uint c mod 64" "uint c - uint c mod 64 < 256"
    using uint_byte_range[of c] zmod_le_nonneg_dividend[of "uint c" 64] pos_mod_sign[of 64 "uint c"] by linarith+
  note q = bytes_value[OF _ _ r, of "uint b" "uint a", folded u]
  show "word_of_int (u div 65536) = a" "word_of_int (u div 256) = b" using q uint_byte_range[of b] by (simp_all add: byte_256)
  show "word_of_int v = c" unfolding v_def using byte_of_int_drop[of "256 * uint a + uint b" c] by (simp add: algebra_simps)
  show "list_all (\<lambda>d. 0 \<le> d \<and> d < 64) (sextets v)"
    using uint_byte_range[of a] uint_byte_range[of b] uint_byte_range[of c] by (intro sextets_range) (auto simp: v_def)
qed

lemma last_quantum_value: "word_of_int (uint a * 65536 div 262144 * 4 + uint a * 65536 div 4096 mod 64 div 16) = (a :: byte)"
proof -
  let ?x = "uint a"
  have "?x * 65536 div 262144 = ?x div 4" using div_mult_mult2[of 65536 ?x 4] by simp
  moreover have "?x * 65536 div 4096 mod 64 div 16 = ?x mod 4"
    using div_mult_mult2[of 4096 "?x * 16" 1] mult_mod_right[of 16 ?x 4] by (simp add: mult.commute)
  ultimately show ?thesis by simp
qed

lemma encode_quantum:
  fixes a b c :: byte
  obtains x y z w where "list_all (\<lambda>d. 0 \<le> d \<and> d < 64) [x, y, z, w]"
    "base64_EncodeToString (a # b # c # bs) = map base64_char [x, y, z, w] @ base64_EncodeToString bs"
    "c = 0 \<Longrightarrow> base64_EncodeToString [a, b] = map base64_char [x, y, z] @ ''=''"
    "word_of_int ((x * 262144 + y * 4096 + z * 64) div 65536) = a" "word_of_int ((x * 262144 + y * 4096 + z * 64) div 256) = b"
    "word_of_int (x * 262144 + y * 4096 + z * 64 + w) = c"
proof (rule that)
  let ?v = "uint a * 65536 + uint b * 256 + uint c"
  note q = quantum_value[of a b c]
  show "list_all (\<lambda>d. 0 \<le> d \<and> d < 64) [?v div 262144, ?v div 4096 mod 64, ?v div 64 mod 64, ?v mod 64]" using q(5) unfolding sextets_def .
  show "base64_EncodeToString (a # b # c # bs) =
      map base64_char [?v div 262144, ?v div 4096 mod 64, ?v div 64 mod 64, ?v mod 64] @ base64_EncodeToString bs"
    unfolding base64_EncodeToString.simps Let_def list.map ..
  show "base64_EncodeToString [a, b] = map base64_char [?v div 262144, ?v div 4096 mod 64, ?v div 64 mod 64] @ ''=''" if "c = 0"
    unfolding base64_EncodeToString.simps Let_def list.map that unsigned_0 add_0_right by simp
qed (use quantum_value[of a b c] in \<open>simp_all only:\<close>)

lemma decode_digits:
  assumes "list_all (\<lambda>d. 0 \<le> d \<and> d < 64) [x, y, z, w]"
  shows "decode_quanta (map base64_char [x, y, z] @ ''='') =
      Some [word_of_int ((x * 262144 + y * 4096 + z * 64) div 65536), word_of_int ((x * 262144 + y * 4096 + z * 64) div 256)]"
    "decode_quanta (map base64_char [x, y, z, w] @ cs) = map_option (\<lambda>bs. word_of_int ((x * 262144 + y * 4096 + z * 64) div 65536) #
      word_of_int ((x * 262144 + y * 4096 + z * 64) div 256) # word_of_int (x * 262144 + y * 4096 + z * 64 + w) # bs) (decode_quanta cs)"
    "list_all (\<lambda>c. c \<noteq> CHR 0x0A \<and> c \<noteq> CHR 0x0D) (map base64_char [x, y, z, w])"
  using assms by (simp_all add: base64_digits Let_def)

lemma base64_decode_quanta:
  "decode_quanta (base64_EncodeToString bs) = Some bs \<and> list_all (\<lambda>c. c \<noteq> CHR 0x0A \<and> c \<noteq> CHR 0x0D) (base64_EncodeToString bs)"
proof (induction bs rule: base64_EncodeToString.induct)
  case (2 a)
  note v = quantum_value(5)[of a 0 0]
  with last_quantum_value[of a] show ?case by (simp add: sextets_def base64_digits)
next
  case (3 a b)
  obtain x y z w where d: "list_all (\<lambda>d. 0 \<le> d \<and> d < 64) [x, y, z, w]"
    and e: "base64_EncodeToString [a, b] = map base64_char [x, y, z] @ ''=''"
    and v: "word_of_int ((x * 262144 + y * 4096 + z * 64) div 65536) = a" "word_of_int ((x * 262144 + y * 4096 + z * 64) div 256) = b"
    by (rule encode_quantum[of a b 0 "[]"]) (rule that, assumption, drule meta_mp[OF _ refl], assumption+)
  show ?case using decode_digits(3)[OF d] unfolding e decode_digits(1)[OF d] v by simp
next
  case (4 a b c bs)
  obtain x y z w where d: "list_all (\<lambda>d. 0 \<le> d \<and> d < 64) [x, y, z, w]"
    and e: "base64_EncodeToString (a # b # c # bs) = map base64_char [x, y, z, w] @ base64_EncodeToString bs"
    and v: "word_of_int ((x * 262144 + y * 4096 + z * 64) div 65536) = a" "word_of_int ((x * 262144 + y * 4096 + z * 64) div 256) = b"
      "word_of_int (x * 262144 + y * 4096 + z * 64 + w) = c"
    by (rule encode_quantum[of a b c bs]) (rule that, assumption+)
  show ?case using decode_digits(3)[OF d] 4 unfolding e decode_digits(2)[OF d] v by simp
qed simp

lemma base64_decode_encode: "base64_DecodeString (base64_EncodeToString bs) = Some bs"
proof -
  have "filter (\<lambda>c. c \<noteq> CHR 0x0A \<and> c \<noteq> CHR 0x0D) (base64_EncodeToString bs) = base64_EncodeToString bs"
    using base64_decode_quanta[of bs] by (simp add: filter_id_conv list_all_iff)
  then show ?thesis using base64_decode_quanta[of bs] by (simp add: base64_DecodeString_def)
qed

interpretation base64: text_code base64_EncodeToString base64_DecodeString
  by unfold_locales (rule base64_decode_encode)

section \<open>Texts of hashes\<close>

lemma hex_decode_digits: "hex_DecodeString s = Some bs \<Longrightarrow> c \<in> set s \<Longrightarrow> hex_value c \<noteq> None"
  by (induction s arbitrary: bs rule: hex_DecodeString.induct) (auto split: option.splits)

lemma base64_padding: "length bs mod 3 \<noteq> 0 \<Longrightarrow> CHR ''='' \<in> set (base64_EncodeToString bs)"
proof (induction bs rule: base64_EncodeToString.induct)
  case (4 a b c bs)
  have "Suc (Suc (Suc n)) mod 3 = n mod 3" for n :: nat by presburger
  then have "length (a # b # c # bs) mod 3 = length bs mod 3" by (simp only: list.size add_Suc_right add_0_right)
  with 4 have "CHR ''='' \<in> set (base64_EncodeToString bs)" by metis
  then show ?case unfolding base64_EncodeToString.simps Let_def set_append by (rule UnI2)
qed (simp_all only: base64_EncodeToString.simps Let_def list.set insert_iff, simp_all)

text \<open>The base64 text of a hash ends in a padding character and is never read as hexadecimal.\<close>

lemma base64_not_hex:
  assumes "length bs = 32"
  shows "hex_DecodeString (base64_EncodeToString bs) = None"
proof -
  have "CHR ''='' \<in> set (base64_EncodeToString bs)" using assms by (intro base64_padding) simp
  moreover have "hex_value CHR ''='' = None" by code_simp
  ultimately show ?thesis using hex_decode_digits not_Some_eq by metis
qed

text \<open>
  C38. The texts of hashes and keys are read back as the value they were written from: hashes and keys in JSON,
  the first in hexadecimal and the second in base64, and the hexadecimal text of a hash by \<open>StringToHash32\<close>.
  The text that \<open>Hash32ToString\<close> gives is base64, and \<open>StringToHash32\<close> refuses it for every hash.
\<close>

theorem hash_texts:
  assumes "length h = 32"
  shows "Hash32_UnmarshalJSON (Hash32_MarshalJSON h) = Some h \<and> PublicKey_UnmarshalJSON (PublicKey_MarshalJSON h) = Some h \<and>
    StringToHash32 (Hash32_String h) = Some h \<and> StringToHash32 (Hash32ToString h) = None"
  using assms hex.decode_quoted[of h] base64.decode_quoted[of h]
  by (simp add: Hash32_UnmarshalJSON_def Hash32_MarshalJSON_def Hash32_String_def PublicKey_UnmarshalJSON_def PublicKey_MarshalJSON_def
      StringToHash32_def Hash32ToString_def hex_decode_encode base64_not_hex quoted_quotes del: append_Cons append_Nil)

theorem hash_texts_witness: "StringToHash32 (Hash32_String FirstUser) = Some FirstUser \<and> StringToHash32 (Hash32ToString FirstUser) = None"
  using hash_texts[of FirstUser] by (simp add: length_FirstUser)

end
