(* ===== verification/Marigold_Parser.thy ===== *)
theory Marigold_Parser
  imports Marigold_Syntax Encoding
begin

text \<open>
  The parser of the Marigold compiler, \<open>src/marigold/parser.go\<close>, a recursive descent over the tokens. The
  cursor is represented by the list of the tokens from it on. A nil result is \<open>None\<close> inside \<open>Parsed\<close>; a
  reported fatal error and a nil dereference are \<open>Panic\<close>. A function that calls itself, directly or
  through others, takes a bound on the depth of the recursion, which its caller sets to one more than
  the number of tokens left; that these bounds are never reached is proved in \<open>Marigold_Parsing\<close>. The
  functions for parts of an expression take the parser of the enclosed expressions as an argument.
  Variables are entered into the scopes by the type checker, so the parser leaves them empty.
\<close>

section \<open>Results and tokens\<close>

datatype 'a parsed = OutOfFuel | Panic | Parsed 'a "Token list"

fun and_then :: "'a parsed \<Rightarrow> ('a \<Rightarrow> Token list \<Rightarrow> 'b parsed) \<Rightarrow> 'b parsed" where
  "and_then OutOfFuel f = OutOfFuel"
| "and_then Panic f = Panic"
| "and_then (Parsed x ts) f = f x ts"

text \<open>To go on with a result that is not nil; a nil result is returned as it is.\<close>

definition if_some :: "'a option parsed \<Rightarrow> ('a \<Rightarrow> Token list \<Rightarrow> 'b option parsed) \<Rightarrow> 'b option parsed" where
  "if_some p f = and_then p (\<lambda>r ts. case r of None \<Rightarrow> Parsed None ts | Some x \<Rightarrow> f x ts)"

text \<open>To go on with a result that must not be nil.\<close>

definition must :: "'a option parsed \<Rightarrow> ('a \<Rightarrow> Token list \<Rightarrow> 'b parsed) \<Rightarrow> 'b parsed" where
  "must p f = and_then p (\<lambda>r ts. case r of None \<Rightarrow> Panic | Some x \<Rightarrow> f x ts)"

definition consumeAssert :: "TokenType \<Rightarrow> Token list \<Rightarrow> Token parsed" where
  "consumeAssert toktype ts = (case ts of
      token # ts \<Rightarrow> if tok_Type token = toktype then Parsed token ts else Panic
    | [] \<Rightarrow> Panic)"

definition consumeIf :: "TokenType \<Rightarrow> Token list \<Rightarrow> Token list" where
  "consumeIf toktype ts = (case ts of token # ts' \<Rightarrow> if tok_Type token = toktype then ts' else ts | [] \<Rightarrow> [])"

text \<open>Consuming a token for its place only.\<close>

abbreviation expect :: "TokenType \<Rightarrow> Token list \<Rightarrow> (Token list \<Rightarrow> 'b parsed) \<Rightarrow> 'b parsed" where
  "expect toktype ts f \<equiv> and_then (consumeAssert toktype ts) (\<lambda>_. f)"

section \<open>Types\<close>

definition parseArrayType :: "(Token list \<Rightarrow> Type option parsed) \<Rightarrow> Token list \<Rightarrow> Type option parsed" where
  "parseArrayType elementParser ts =
     expect TLSquare ts (\<lambda>ts.
       let close = (\<lambda>arraySize ts. expect TRSquare ts (\<lambda>ts.
             if_some (elementParser ts) (\<lambda>elementType ts. Parsed (Some (NewArrayType arraySize (Some elementType))) ts)))
       in case ts of
            sizeToken # ts' \<Rightarrow>
              if tok_Type sizeToken = TIntLiteral
              then (case Atoi (tok_Value sizeToken) of Some arraySize \<Rightarrow> close arraySize ts' | None \<Rightarrow> Parsed None ts')
              else close (- 1) ts
          | [] \<Rightarrow> close (- 1) [])"

definition parseMapType :: "(Token list \<Rightarrow> Type option parsed) \<Rightarrow> Token list \<Rightarrow> Type option parsed" where
  "parseMapType valueParser ts =
     expect TMap ts (\<lambda>ts. expect TLSquare ts (\<lambda>ts. case ts of
         [] \<Rightarrow> Panic
       | keyTypeToken # ts \<Rightarrow>
           if tok_Type keyTypeToken \<noteq> TString then Parsed None ts
           else expect TRSquare ts (\<lambda>ts.
             if_some (valueParser ts) (\<lambda>valueType ts. Parsed (Some (NewMapType StringType valueType)) ts))))"

fun parse_type :: "nat \<Rightarrow> Token list \<Rightarrow> Type option parsed" where
  "parse_type 0 ts = OutOfFuel"
| "parse_type (Suc n) ts = (case ts of
      [] \<Rightarrow> Parsed None []
    | token # ts' \<Rightarrow>
        (case tok_Type token of
           TInt \<Rightarrow> Parsed (Some IntType) ts'
         | TFloat \<Rightarrow> Parsed (Some FloatType) ts'
         | TString \<Rightarrow> Parsed (Some StringType) ts'
         | TBool \<Rightarrow> Parsed (Some BoolType) ts'
         | TLSquare \<Rightarrow> parseArrayType (parse_type n) ts
         | TMap \<Rightarrow> parseMapType (parse_type n) ts
         | _ \<Rightarrow> Parsed None ts))"

definition parseType :: "Token list \<Rightarrow> Type option parsed" where
  "parseType ts = parse_type (Suc (length ts)) ts"

section \<open>Expressions\<close>

definition isRelationalOp :: "TokenType \<Rightarrow> bool" where
  "isRelationalOp t \<longleftrightarrow> t = TEqual \<or> t = TNotEqual \<or> t = TLessThan \<or> t = TLessEqual \<or> t = TGreaterThan \<or> t = TGreaterEqual"

definition literal_type :: "TokenType \<Rightarrow> TokenType option" where
  "literal_type t = (case t of
      TIntLiteral \<Rightarrow> Some TInt | TFloatLiteral \<Rightarrow> Some TFloat | TStringLiteral \<Rightarrow> Some TString | TBoolLiteral \<Rightarrow> Some TBool
    | _ \<Rightarrow> None)"

definition call_name :: "Token \<Rightarrow> string option" where
  "call_name token = (case tok_Type token of
      TIdentifier \<Rightarrow> Some (tok_Value token) | TLen \<Rightarrow> Some ''len'' | TEmit \<Rightarrow> Some ''emit''
    | TStop \<Rightarrow> Some ''stop'' | TAssert \<Rightarrow> Some ''assert'' | _ \<Rightarrow> None)"

definition next_is :: "TokenType \<Rightarrow> Token list \<Rightarrow> bool" where
  "next_is toktype ts \<longleftrightarrow> ts \<noteq> [] \<and> tok_Type (hd ts) = toktype"

definition parseMapLiteral :: "Token list \<Rightarrow> Expression option parsed" where
  "parseMapLiteral ts = expect TLBrace ts (\<lambda>ts.
     if ts = [] then Panic
     else if \<not> next_is TRBrace ts then Parsed None ts
     else expect TRBrace ts (\<lambda>ts. Parsed (Some MapLiteral) ts))"

text \<open>Arguments and elements of lists; \<open>expr\<close> parses an expression.\<close>

fun parse_arguments :: "(Token list \<Rightarrow> Expression option parsed) \<Rightarrow> nat \<Rightarrow> string \<Rightarrow> Expression list \<Rightarrow> Token list \<Rightarrow>
    Expression option parsed" where
  "parse_arguments expr 0 name args ts = OutOfFuel"
| "parse_arguments expr (Suc n) name args ts =
     (if ts = [] then Panic
      else if next_is TRParen ts then expect TRParen ts (\<lambda>ts. Parsed (Some (CallExpr name args)) ts)
      else if_some (expr ts) (\<lambda>paramExpr ts. parse_arguments expr n name (args @ [paramExpr]) (consumeIf TComma ts)))"

definition parseFunctionCall :: "(Token list \<Rightarrow> Expression option parsed) \<Rightarrow> Token list \<Rightarrow> Expression option parsed" where
  "parseFunctionCall expr ts = (case ts of
      [] \<Rightarrow> Panic
    | token # ts' \<Rightarrow>
        (case call_name token of
           Some name \<Rightarrow> expect TLParen ts' (\<lambda>ts. parse_arguments expr (Suc (length ts)) name [] ts)
         | None \<Rightarrow> Parsed None ts))"

fun parse_elements :: "(Token list \<Rightarrow> Expression option parsed) \<Rightarrow> nat \<Rightarrow> Expression list \<Rightarrow> Token list \<Rightarrow>
    Expression option parsed" where
  "parse_elements expr 0 elements ts = OutOfFuel"
| "parse_elements expr (Suc n) elements ts = if_some (expr ts) (\<lambda>element ts.
     if ts = [] then Parsed None []
     else if next_is TRSquare ts then expect TRSquare ts (\<lambda>ts. Parsed (Some (ArrayLiteral (elements @ [element]))) ts)
     else if next_is TComma ts then parse_elements expr n (elements @ [element]) (tl ts)
     else Parsed None ts)"

definition parseArrayLiteral :: "(Token list \<Rightarrow> Expression option parsed) \<Rightarrow> Token list \<Rightarrow> Expression option parsed" where
  "parseArrayLiteral expr ts = expect TLSquare ts (\<lambda>ts.
     if next_is TRSquare ts then Parsed (Some (ArrayLiteral [])) (tl ts) else parse_elements expr (Suc (length ts)) [] ts)"

definition parseIndexOrSlice :: "(Token list \<Rightarrow> Expression option parsed) \<Rightarrow> Expression \<Rightarrow> Token list \<Rightarrow> Expression option parsed" where
  "parseIndexOrSlice expr arrayExpr ts = expect TLSquare ts (\<lambda>ts.
     if ts = [] then Panic
     else if next_is TColon ts then
       if_some (expr (tl ts)) (\<lambda>endExpr ts.
         expect TRSquare ts (\<lambda>ts. Parsed (Some (SliceExpr arrayExpr None (Some endExpr))) ts))
     else
       if_some (expr ts) (\<lambda>firstExpr ts.
         if ts = [] then Panic
         else if next_is TColon ts then
           (if tl ts = [] then Panic
            else if next_is TRSquare (tl ts)
            then expect TRSquare (tl ts) (\<lambda>ts. Parsed (Some (SliceExpr arrayExpr (Some firstExpr) None)) ts)
            else if_some (expr (tl ts)) (\<lambda>endExpr ts.
              expect TRSquare ts (\<lambda>ts. Parsed (Some (SliceExpr arrayExpr (Some firstExpr) (Some endExpr))) ts)))
         else expect TRSquare ts (\<lambda>ts. Parsed (Some (IndexExpr arrayExpr firstExpr)) ts)))"

definition parseAtom :: "(Token list \<Rightarrow> Expression option parsed) \<Rightarrow> Token list \<Rightarrow> Expression option parsed" where
  "parseAtom expr ts = (case ts of
      [] \<Rightarrow> Parsed None []
    | token # ts' \<Rightarrow>
        (case literal_type (tok_Type token) of
           Some valueType \<Rightarrow> Parsed (Some (LiteralExpr valueType (tok_Value token))) ts'
         | None \<Rightarrow>
             if tok_Type token = TIdentifier then
               (if next_is TLParen ts' then parseFunctionCall expr ts
                else let e = IdentifierExpr (tok_Value token)
                     in if next_is TLSquare ts' then parseIndexOrSlice expr e ts' else Parsed (Some e) ts')
             else if tok_Type token \<in> {TLen, TEmit, TStop, TAssert} then
               (if next_is TLParen ts' then parseFunctionCall expr ts else Panic)
             else if tok_Type token = TLParen then
               and_then (expr ts') (\<lambda>e ts. expect TRParen ts (\<lambda>ts. Parsed e ts))
             else if tok_Type token = TLSquare then parseArrayLiteral expr ts
             else if tok_Type token = TLBrace then parseMapLiteral ts
             else Parsed None ts))"

fun parse_factor :: "(Token list \<Rightarrow> Expression option parsed) \<Rightarrow> nat \<Rightarrow> Token list \<Rightarrow> Expression option parsed" where
  "parse_factor expr 0 ts = OutOfFuel"
| "parse_factor expr (Suc n) ts = (case ts of
      op # ts' \<Rightarrow>
        if tok_Type op = TMinus \<or> tok_Type op = TNot
        then and_then (parse_factor expr n ts') (\<lambda>rhs ts. Parsed (Some (UnaryExpr (tok_Type op) rhs)) ts)
        else parseAtom expr ts
    | [] \<Rightarrow> parseAtom expr [])"

definition parseFactor :: "(Token list \<Rightarrow> Expression option parsed) \<Rightarrow> Token list \<Rightarrow> Expression option parsed" where
  "parseFactor expr ts = parse_factor expr (Suc (length ts)) ts"

fun parse_power :: "(Token list \<Rightarrow> Expression option parsed) \<Rightarrow> nat \<Rightarrow> Token list \<Rightarrow> Expression option parsed" where
  "parse_power expr 0 ts = OutOfFuel"
| "parse_power expr (Suc n) ts = if_some (parseFactor expr ts) (\<lambda>left ts. case ts of
      op # ts' \<Rightarrow>
        if tok_Type op = TExponent
        then and_then (parse_power expr n ts') (\<lambda>right ts. Parsed (Some (BinaryExpr (tok_Type op) left right)) ts)
        else Parsed (Some left) ts
    | [] \<Rightarrow> Parsed (Some left) [])"

definition parsePower :: "(Token list \<Rightarrow> Expression option parsed) \<Rightarrow> Token list \<Rightarrow> Expression option parsed" where
  "parsePower expr ts = parse_power expr (Suc (length ts)) ts"

text \<open>
  The loop that the next five functions share: operands parsed by \<open>operand\<close>, joined to the left by the
  operators of which \<open>ops\<close> holds.
\<close>

fun parse_operators :: "(Token list \<Rightarrow> Expression option parsed) \<Rightarrow> (TokenType \<Rightarrow> bool) \<Rightarrow> nat \<Rightarrow> Expression \<Rightarrow> Token list \<Rightarrow>
    Expression option parsed" where
  "parse_operators operand ops 0 left ts = OutOfFuel"
| "parse_operators operand ops (Suc n) left ts = (case ts of
      op # ts' \<Rightarrow>
        if ops (tok_Type op)
        then and_then (operand ts') (\<lambda>right ts. parse_operators operand ops n (BinaryExpr (tok_Type op) left right) ts)
        else Parsed (Some left) ts
    | [] \<Rightarrow> Parsed (Some left) [])"

definition parse_left :: "(Token list \<Rightarrow> Expression option parsed) \<Rightarrow> (TokenType \<Rightarrow> bool) \<Rightarrow> Token list \<Rightarrow> Expression option parsed" where
  "parse_left operand ops ts = if_some (operand ts) (\<lambda>left ts. parse_operators operand ops (Suc (length ts)) left ts)"

definition parseTerm :: "(Token list \<Rightarrow> Expression option parsed) \<Rightarrow> Token list \<Rightarrow> Expression option parsed" where
  "parseTerm expr ts = parse_left (parsePower expr) (\<lambda>t. t = TMultiply \<or> t = TDivide \<or> t = TModulo) ts"

definition parseAdditive :: "(Token list \<Rightarrow> Expression option parsed) \<Rightarrow> Token list \<Rightarrow> Expression option parsed" where
  "parseAdditive expr ts = parse_left (parseTerm expr) (\<lambda>t. t = TPlus \<or> t = TMinus) ts"

definition parseRelational :: "(Token list \<Rightarrow> Expression option parsed) \<Rightarrow> Token list \<Rightarrow> Expression option parsed" where
  "parseRelational expr ts = parse_left (parseAdditive expr) isRelationalOp ts"

definition parseLogicalAnd :: "(Token list \<Rightarrow> Expression option parsed) \<Rightarrow> Token list \<Rightarrow> Expression option parsed" where
  "parseLogicalAnd expr ts = parse_left (parseRelational expr) (\<lambda>t. t = TLogicalAnd) ts"

definition parseLogicalOr :: "(Token list \<Rightarrow> Expression option parsed) \<Rightarrow> Token list \<Rightarrow> Expression option parsed" where
  "parseLogicalOr expr ts = parse_left (parseLogicalAnd expr) (\<lambda>t. t = TLogicalOr) ts"

fun parse_expression :: "nat \<Rightarrow> Token list \<Rightarrow> Expression option parsed" where
  "parse_expression 0 ts = OutOfFuel"
| "parse_expression (Suc n) ts = parseLogicalOr (parse_expression n) ts"

definition parseExpression :: "Token list \<Rightarrow> Expression option parsed" where
  "parseExpression ts = parse_expression (Suc (length ts)) ts"

section \<open>Statements\<close>

definition parseAssignment :: "Token list \<Rightarrow> Statement option parsed" where
  "parseAssignment ts =
     and_then (consumeAssert TIdentifier ts) (\<lambda>ident ts.
       if ts = [] then Parsed None []
       else
         let assign = (\<lambda>varType ts.
               if ts = [] then Panic
               else if next_is TAssign ts
               then expect TAssign ts (\<lambda>ts. if_some (parseExpression ts) (\<lambda>rhs ts.
                      Parsed (Some (AssignmentStmt varType (IdentifierExpr (tok_Value ident)) (Some rhs))) ts))
               else Parsed (Some (AssignmentStmt varType (IdentifierExpr (tok_Value ident)) None)) ts)
         in if next_is TColon ts
            then expect TColon ts (\<lambda>ts. if_some (parseType ts) (\<lambda>varType ts. assign (Some varType) ts))
            else assign None ts)"

definition parseIndexedAssignment :: "Token list \<Rightarrow> Statement option parsed" where
  "parseIndexedAssignment ts =
     and_then (consumeAssert TIdentifier ts) (\<lambda>ident ts.
       if_some (parseIndexOrSlice parseExpression (IdentifierExpr (tok_Value ident)) ts) (\<lambda>indexExpr ts.
         expect TAssign ts (\<lambda>ts. if_some (parseExpression ts) (\<lambda>rhs ts.
           Parsed (Some (AssignmentStmt None indexExpr (Some rhs))) ts))))"

text \<open>The case of a statement that starts with an identifier.\<close>

definition parse_identifier :: "Token list \<Rightarrow> Statement option parsed" where
  "parse_identifier ts =
     (if length ts < 2 then Parsed None ts
      else
        let t = tok_Type (ts ! 1) in
        if t = TAssign \<or> t = TColon then parseAssignment ts
        else if t = TLSquare then parseIndexedAssignment ts
        else if t = TLParen then if_some (parseFunctionCall parseExpression ts) (\<lambda>functionCall ts. Parsed (Some (ExpressionStmt functionCall)) ts)
        else if_some (parseExpression ts) (\<lambda>expr ts. Parsed (Some (ExpressionStmt expr)) ts))"

text \<open>The statements of a block up to the first that is nil; \<open>stmt\<close> parses a statement.\<close>

fun parse_statements :: "(Token list \<Rightarrow> Statement option parsed) \<Rightarrow> nat \<Rightarrow> Statement list \<Rightarrow> Token list \<Rightarrow> Statement list parsed" where
  "parse_statements stmt 0 statements ts = OutOfFuel"
| "parse_statements stmt (Suc n) statements ts = and_then (stmt ts) (\<lambda>s ts. case s of
      None \<Rightarrow> Parsed statements ts
    | Some s \<Rightarrow> parse_statements stmt n (statements @ [s]) ts)"

definition parseBlock :: "(Token list \<Rightarrow> Statement option parsed) \<Rightarrow> Token list \<Rightarrow> Block parsed" where
  "parseBlock stmt ts = and_then (parse_statements stmt (Suc (length ts)) [] ts) (\<lambda>statements ts. Parsed (Block statements []) ts)"

definition parse_body :: "(Token list \<Rightarrow> Statement option parsed) \<Rightarrow> Token list \<Rightarrow> Block parsed" where
  "parse_body stmt ts = expect TLBrace ts (\<lambda>ts. and_then (parseBlock stmt ts) (\<lambda>block ts. expect TRBrace ts (\<lambda>ts. Parsed block ts)))"

text \<open>One statement; \<open>stmt\<close> parses the statements of the blocks in it.\<close>

definition statement_with :: "(Token list \<Rightarrow> Statement option parsed) \<Rightarrow> Token list \<Rightarrow> Statement option parsed" where
  "statement_with stmt ts = (case ts of
      [] \<Rightarrow> Parsed None []
    | currentToken # ts' \<Rightarrow>
        (case tok_Type currentToken of
           TIf \<Rightarrow> must (parseExpression ts') (\<lambda>conditional ts. and_then (parse_body stmt ts) (\<lambda>block ts.
             if next_is TElse ts
             then expect TElse ts (\<lambda>ts. and_then (parse_body stmt ts) (\<lambda>elseblock ts.
                    Parsed (Some (IfStmt conditional block (Some elseblock))) ts))
             else Parsed (Some (IfStmt conditional block None)) ts))
         | TWhile \<Rightarrow> must (parseExpression ts') (\<lambda>conditional ts. and_then (parse_body stmt ts) (\<lambda>block ts.
             Parsed (Some (WhileStmt conditional block)) ts))
         | TReturn \<Rightarrow> must (parseExpression ts') (\<lambda>rhs ts. Parsed (Some (ReturnStmt (Some rhs))) ts)
         | TBreak \<Rightarrow> Parsed (Some BreakStmt) ts'
         | TContinue \<Rightarrow> Parsed (Some ContinueStmt) ts'
         | TIdentifier \<Rightarrow> parse_identifier ts
         | TRBrace \<Rightarrow> Parsed None ts
         | _ \<Rightarrow> must (parseExpression ts) (\<lambda>expr ts. Parsed (Some (ExpressionStmt expr)) ts)))"

fun parse_statement :: "nat \<Rightarrow> Token list \<Rightarrow> Statement option parsed" where
  "parse_statement 0 ts = OutOfFuel"
| "parse_statement (Suc n) ts = statement_with (parse_statement n) ts"

definition parseStatement :: "Token list \<Rightarrow> Statement option parsed" where
  "parseStatement ts = parse_statement (Suc (length ts)) ts"

section \<open>Functions and programs\<close>

fun parse_parameters :: "nat \<Rightarrow> string list \<Rightarrow> Type list \<Rightarrow> Token list \<Rightarrow> (string list \<times> Type list) option parsed" where
  "parse_parameters 0 params types ts = OutOfFuel"
| "parse_parameters (Suc n) params types ts =
     (if ts = [] then Panic
      else if next_is TRParen ts then Parsed (Some (params, types)) ts
      else and_then (consumeAssert TIdentifier ts) (\<lambda>paramIdent ts. expect TColon ts (\<lambda>ts.
        if_some (parseType ts) (\<lambda>paramType ts.
          parse_parameters n (params @ [tok_Value paramIdent]) (types @ [paramType]) (consumeIf TComma ts)))))"

definition parseFunctionDefinition :: "Token list \<Rightarrow> Function option parsed" where
  "parseFunctionDefinition ts =
     expect TDefine ts (\<lambda>ts. and_then (consumeAssert TIdentifier ts) (\<lambda>functionIdent ts.
       if TokenTypeMap (tok_Value functionIdent) \<noteq> None then Parsed None ts
       else expect TLParen ts (\<lambda>ts. if_some (parse_parameters (Suc (length ts)) [] [] ts) (\<lambda>(params, types) ts.
         expect TRParen ts (\<lambda>ts. expect TColon ts (\<lambda>ts. if_some (parseType ts) (\<lambda>returnType ts.
           and_then (parse_body parseStatement ts) (\<lambda>block ts.
             Parsed (Some \<lparr>fn_Name = tok_Value functionIdent, fn_Parameters = params, fn_ParameterTypes = types,
                           fn_ReturnType = returnType, fn_Block = block\<rparr>) ts))))))))"

fun parse_functions :: "nat \<Rightarrow> Ast \<Rightarrow> Token list \<Rightarrow> Ast parsed" where
  "parse_functions 0 ast ts = OutOfFuel"
| "parse_functions (Suc n) ast ts =
     (if ts = [] then Parsed ast []
      else if \<not> next_is TDefine ts then Panic
      else must (parseFunctionDefinition ts) (\<lambda>fd ts.
        parse_functions n (ast\<lparr>ast_Functions := go_store (fn_Name fd) fd (ast_Functions ast)\<rparr>) ts))"

definition Parse :: "Token list \<Rightarrow> Ast parsed" where
  "Parse tokens = parse_functions (Suc (length tokens)) NewAst tokens"

end
