(* ===== verification/Marigold_Parsing.thy ===== *)
theory Marigold_Parsing
  imports Marigold_Parser
begin

text \<open>
  The parser always ends: every function leaves no more tokens than it was given, one that returns
  something leaves fewer, and the bounds on the depth of the recursion are never reached. So the
  functions satisfy the equations of the source, in which they call each other without a bound.
\<close>

section \<open>Progress\<close>

text \<open>A result with at most \<open>k\<close> tokens left, and with fewer when something was parsed.\<close>

definition ok :: "nat \<Rightarrow> 'a parsed \<Rightarrow> bool" where
  "ok k p = (case p of OutOfFuel \<Rightarrow> False | Panic \<Rightarrow> True | Parsed x r \<Rightarrow> length r \<le> k)"

definition eats :: "nat \<Rightarrow> 'a option parsed \<Rightarrow> bool" where
  "eats k p = (case p of OutOfFuel \<Rightarrow> False | Panic \<Rightarrow> True | Parsed x r \<Rightarrow> if x = None then length r \<le> k else length r < k)"

lemma ok_simps [simp]: "\<not> ok k OutOfFuel" "ok k Panic" "ok k (Parsed x r) \<longleftrightarrow> length r \<le> k"
  by (simp_all add: ok_def)

lemma eats_simps [simp]: "\<not> eats k OutOfFuel" "eats k Panic" "eats k (Parsed None r) \<longleftrightarrow> length r \<le> k"
    "eats k (Parsed (Some x) r) \<longleftrightarrow> length r < k"
  by (simp_all add: eats_def)

lemma eats_cases:
  obtains "p = OutOfFuel" | "p = Panic" | r where "p = Parsed None r" | x r where "p = Parsed (Some x) r"
proof (cases p)
  case (Parsed y r)
  then show ?thesis using that by (cases y) auto
qed (use that in auto)

lemma eats_ok: "eats k p \<Longrightarrow> ok k p"
  by (cases p) (auto simp: eats_def split: if_splits)

lemma eats_Parsed: "length r < k \<Longrightarrow> eats k (Parsed x r)"
  by (simp add: eats_def)

lemma eats_mono: "eats j p \<Longrightarrow> j \<le> k \<Longrightarrow> eats k p"
  by (cases p) (auto simp: eats_def split: if_splits)

lemma ok_mono: "ok j p \<Longrightarrow> j \<le> k \<Longrightarrow> ok k p"
  by (cases p) auto

lemma ok_and_then: "ok j p \<Longrightarrow> (\<And>x r. length r \<le> j \<Longrightarrow> ok k (f x r)) \<Longrightarrow> ok k (and_then p f)"
  by (cases p) auto

lemma eats_and_then: "ok j p \<Longrightarrow> (\<And>x r. length r \<le> j \<Longrightarrow> eats k (f x r)) \<Longrightarrow> eats k (and_then p f)"
  by (cases p) auto

lemma eats_if_some: "eats j p \<Longrightarrow> j \<le> k \<Longrightarrow> (\<And>x r. length r < j \<Longrightarrow> eats k (f x r)) \<Longrightarrow> eats k (if_some p f)"
  by (cases p rule: eats_cases) (auto simp: if_some_def)

lemma ok_if_some: "eats j p \<Longrightarrow> j \<le> k \<Longrightarrow> (\<And>x r. length r < j \<Longrightarrow> ok k (f x r)) \<Longrightarrow> ok k (if_some p f)"
  by (cases p rule: eats_cases) (auto simp: if_some_def)

lemma eats_some_if_ok: "ok j p \<Longrightarrow> j \<le> k \<Longrightarrow> (\<And>x r. length r \<le> j \<Longrightarrow> eats k (f x r)) \<Longrightarrow> eats k (if_some p f)"
  by (cases p rule: eats_cases) (auto simp: if_some_def)

lemma eats_must: "eats j p \<Longrightarrow> (\<And>x r. length r < j \<Longrightarrow> eats k (f x r)) \<Longrightarrow> eats k (must p f)"
  by (cases p rule: eats_cases) (auto simp: must_def)

lemma ok_must: "eats j p \<Longrightarrow> (\<And>x r. length r < j \<Longrightarrow> ok k (f x r)) \<Longrightarrow> ok k (must p f)"
  by (cases p rule: eats_cases) (auto simp: must_def)

lemma eats_consume: "(\<And>x r. Suc (length r) = length ts \<Longrightarrow> eats k (f x r)) \<Longrightarrow> eats k (and_then (consumeAssert t ts) f)"
  by (cases ts) (auto simp: consumeAssert_def)

lemma ok_consume: "(\<And>x r. Suc (length r) = length ts \<Longrightarrow> ok k (f x r)) \<Longrightarrow> ok k (and_then (consumeAssert t ts) f)"
  by (cases ts) (auto simp: consumeAssert_def)

lemma length_consumeIf: "length (consumeIf t ts) \<le> length ts"
  by (cases ts) (auto simp: consumeIf_def)

lemma next_is_nonempty: "next_is t ts \<Longrightarrow> ts \<noteq> []"
  by (simp add: next_is_def)

section \<open>Types\<close>

lemma parse_type_eats: "length ts < n \<Longrightarrow> eats (length ts) (parse_type n ts)"
proof (induction n arbitrary: ts)
  case (Suc n)
  have array: "eats (length ts) (parseArrayType (parse_type n) ts)"
    unfolding parseArrayType_def Let_def
    by (rule eats_consume) (insert Suc.prems, auto split: list.splits option.splits intro!: eats_consume eats_if_some[OF Suc.IH])
  have map: "eats (length ts) (parseMapType (parse_type n) ts)"
    unfolding parseMapType_def
    by (intro eats_consume) (insert Suc.prems, auto split: list.splits intro!: eats_consume eats_if_some[OF Suc.IH])
  show ?case using array map by (auto split: list.splits TokenType.splits)
qed simp

lemma parseType_eats: "eats (length ts) (parseType ts)"
  by (simp add: parseType_def parse_type_eats del: parse_type.simps)

section \<open>Expressions\<close>

text \<open>
  A parser of enclosed expressions that makes progress on less than \<open>L\<close> tokens. The parsers of parts of
  an expression then do so on up to \<open>L\<close> tokens, since they enclose an expression only after a token.
\<close>

locale enclosed =
  fixes expr :: "Token list \<Rightarrow> Expression option parsed" and L :: nat
  assumes expr: "length ts < L \<Longrightarrow> eats (length ts) (expr ts)"
begin

lemma arguments_eats: "length ts < n \<Longrightarrow> length ts < L \<Longrightarrow> eats (length ts) (parse_arguments expr n name args ts)"
proof (induction n arbitrary: args ts)
  case (Suc n)
  have "eats (length ts) (parse_arguments expr n name args' (consumeIf TComma r))" if "length r < length ts" for args' r
    using Suc.IH[of "consumeIf TComma r" args'] length_consumeIf[of TComma r] that Suc.prems eats_mono by fastforce
  then show ?case using Suc.prems by (auto intro!: eats_consume eats_if_some[OF expr])
qed simp

lemma call_eats: "length ts \<le> L \<Longrightarrow> eats (length ts) (parseFunctionCall expr ts)"
  unfolding parseFunctionCall_def
  by (auto simp del: parse_arguments.simps split: list.splits option.splits intro!: eats_consume intro: eats_mono[OF arguments_eats])

lemma elements_eats: "length ts < n \<Longrightarrow> length ts < L \<Longrightarrow> eats (length ts) (parse_elements expr n elements ts)"
proof (induction n arbitrary: elements ts)
  case (Suc n)
  have "eats (length ts) (parse_elements expr n elements' (tl r))" if "length r < length ts" for elements' r
    using Suc.IH[of "tl r" elements'] that Suc.prems eats_mono by fastforce
  then show ?case using Suc.prems by (auto intro!: eats_consume eats_if_some[OF expr])
qed simp

lemma array_eats: "length ts \<le> L \<Longrightarrow> eats (length ts) (parseArrayLiteral expr ts)"
  unfolding parseArrayLiteral_def
  by (rule eats_consume) (auto simp del: parse_elements.simps intro!: eats_Parsed eats_mono[OF elements_eats])

lemma index_eats: "length ts \<le> L \<Longrightarrow> eats (length ts) (parseIndexOrSlice expr e ts)"
  unfolding parseIndexOrSlice_def
  by (intro eats_consume) (auto intro!: eats_consume eats_if_some[OF expr])

lemma map_literal_eats: "eats (length ts) (parseMapLiteral ts)"
  unfolding parseMapLiteral_def by (auto intro!: eats_consume)

lemma atom_eats: "length ts \<le> L \<Longrightarrow> eats (length ts) (parseAtom expr ts)"
proof -
  assume L: "length ts \<le> L"
  have "eats (length ts) (parseIndexOrSlice expr e ts')" if "ts = t # ts'" for t ts' e
    using index_eats[of ts' e] that L eats_mono by fastforce
  moreover have "eats (length ts) (and_then (expr ts') (\<lambda>e ts. expect TRParen ts (\<lambda>ts. Parsed e ts)))" if "ts = t # ts'" for t ts'
    using that L by (auto intro!: eats_and_then[OF eats_ok[OF expr]] eats_consume eats_Parsed)
  ultimately show ?thesis
    using call_eats[OF L] array_eats[OF L] map_literal_eats[of ts]
    by (auto simp: parseAtom_def Let_def split: list.splits option.splits)
qed

lemma factor_eats: "length ts < n \<Longrightarrow> length ts \<le> L \<Longrightarrow> eats (length ts) (parse_factor expr n ts)"
proof (induction n arbitrary: ts)
  case (Suc n)
  then show ?case using atom_eats[of ts]
    by (auto split: list.splits intro!: eats_and_then[OF eats_ok[OF Suc.IH]])
qed simp

lemma parseFactor_eats: "length ts \<le> L \<Longrightarrow> eats (length ts) (parseFactor expr ts)"
  by (simp add: parseFactor_def factor_eats del: parse_factor.simps)

lemma power_eats: "length ts < n \<Longrightarrow> length ts \<le> L \<Longrightarrow> eats (length ts) (parse_power expr n ts)"
proof (induction n arbitrary: ts)
  case (Suc n)
  then show ?case
    by (auto split: list.splits intro!: eats_if_some[OF parseFactor_eats] eats_and_then[OF eats_ok[OF Suc.IH]])
qed simp

lemma parsePower_eats: "length ts \<le> L \<Longrightarrow> eats (length ts) (parsePower expr ts)"
  by (simp add: parsePower_def power_eats del: parse_power.simps)

end

lemma operators_eats:
  assumes "\<And>ts. length ts \<le> L \<Longrightarrow> eats (length ts) (operand ts)"
  shows "length ts < n \<Longrightarrow> length ts \<le> L \<Longrightarrow> length ts < k \<Longrightarrow> eats k (parse_operators operand ops n left ts)"
proof (induction n arbitrary: left ts)
  case (Suc n)
  then show ?case by (auto split: list.splits intro!: eats_and_then[OF eats_ok[OF assms]])
qed simp

lemma left_eats:
  assumes "\<And>ts. length ts \<le> L \<Longrightarrow> eats (length ts) (operand ts)"
  shows "length ts \<le> L \<Longrightarrow> eats (length ts) (parse_left operand ops ts)"
  unfolding parse_left_def by (rule eats_if_some[OF assms]) (auto simp del: parse_operators.simps intro!: operators_eats[OF assms])

context enclosed
begin

lemma parseTerm_eats: "length ts \<le> L \<Longrightarrow> eats (length ts) (parseTerm expr ts)"
  unfolding parseTerm_def by (rule left_eats[OF parsePower_eats])

lemma parseAdditive_eats: "length ts \<le> L \<Longrightarrow> eats (length ts) (parseAdditive expr ts)"
  unfolding parseAdditive_def by (rule left_eats[OF parseTerm_eats])

lemma parseRelational_eats: "length ts \<le> L \<Longrightarrow> eats (length ts) (parseRelational expr ts)"
  unfolding parseRelational_def by (rule left_eats[OF parseAdditive_eats])

lemma parseLogicalAnd_eats: "length ts \<le> L \<Longrightarrow> eats (length ts) (parseLogicalAnd expr ts)"
  unfolding parseLogicalAnd_def by (rule left_eats[OF parseRelational_eats])

lemma parseLogicalOr_eats: "length ts \<le> L \<Longrightarrow> eats (length ts) (parseLogicalOr expr ts)"
  unfolding parseLogicalOr_def by (rule left_eats[OF parseLogicalAnd_eats])

end

lemma parse_expression_eats: "length ts < n \<Longrightarrow> eats (length ts) (parse_expression n ts)"
proof (induction n arbitrary: ts)
  case (Suc n)
  then have "enclosed (parse_expression n) n" by (simp add: enclosed_def)
  from enclosed.parseLogicalOr_eats[OF this] Suc.prems show ?case by simp
qed simp

lemma parseExpression_eats: "eats (length ts) (parseExpression ts)"
  by (simp add: parseExpression_def parse_expression_eats del: parse_expression.simps)

interpretation expressions: enclosed parseExpression L for L
  by unfold_locales (rule parseExpression_eats)

section \<open>Statements, functions and programs\<close>

lemma assignment_eats: "eats (length ts) (parseAssignment ts)"
proof -
  have assign: "eats (length ts) (if_some (parseExpression r) (\<lambda>rhs ts. Parsed (Some (f rhs)) ts))" if "length r < length ts"
    for r and f :: "Expression \<Rightarrow> Statement"
    using that by (intro eats_if_some[OF parseExpression_eats]) auto
  show ?thesis
    unfolding parseAssignment_def Let_def
    by (rule eats_consume) (auto intro!: assign eats_consume eats_if_some[OF parseType_eats])
qed

lemma indexed_assignment_eats: "eats (length ts) (parseIndexedAssignment ts)"
  unfolding parseIndexedAssignment_def
  by (rule eats_consume) (auto intro!: eats_if_some[OF expressions.index_eats] eats_consume eats_if_some[OF parseExpression_eats])

lemma identifier_eats: "eats (length ts) (parse_identifier ts)"
  unfolding parse_identifier_def Let_def
  using assignment_eats[of ts] indexed_assignment_eats[of ts]
  by (auto intro!: eats_if_some[OF expressions.call_eats] eats_if_some[OF parseExpression_eats])

lemma statements_ok:
  assumes "\<And>ts. length ts < L \<Longrightarrow> eats (length ts) (stmt ts)"
  shows "length ts < n \<Longrightarrow> length ts < L \<Longrightarrow> ok (length ts) (parse_statements stmt n statements ts)"
proof (induction n arbitrary: statements ts)
  case (Suc n)
  show ?case
  proof (cases "stmt ts" rule: eats_cases)
    case (4 s r)
    then have "length r < length ts" using assms[OF Suc.prems(2)] by simp
    with Suc.IH[of r "statements @ [s]"] Suc.prems 4 show ?thesis by (cases "parse_statements stmt n (statements @ [s]) r") auto
  qed (use assms[OF Suc.prems(2)] in auto)
qed simp

lemma body_ok:
  assumes "\<And>ts. length ts < L \<Longrightarrow> eats (length ts) (stmt ts)" "length ts \<le> L"
  shows "ok (length ts) (parse_body stmt ts)"
  unfolding parse_body_def parseBlock_def
  using assms(2) by (intro ok_consume ok_and_then[OF ok_and_then[OF statements_ok[OF assms(1)]]]) (auto simp: consumeAssert_def split: list.splits)

lemma parse_statement_eats: "length ts < n \<Longrightarrow> eats (length ts) (parse_statement n ts)"
proof (induction n arbitrary: ts)
  case (Suc n)
  note body = body_ok[where stmt = "parse_statement n" and L = n, OF Suc.IH]
  show ?case
  proof (cases ts)
    case (Cons t ts')
    have expr: "eats (Suc (length ts')) (must (parseExpression (t # ts')) (\<lambda>expr ts. Parsed (Some (ExpressionStmt expr)) ts))"
      by (rule eats_must[OF parseExpression_eats]) simp
    have cond: "eats (Suc (length ts')) (must (parseExpression ts') (\<lambda>x r. and_then (parse_body (parse_statement n) r) (f x)))"
      if "\<And>x b r. length r < length ts' \<Longrightarrow> eats (Suc (length ts')) (f x b r)"
      for f :: "Expression \<Rightarrow> Block \<Rightarrow> Token list \<Rightarrow> Statement option parsed"
    proof (rule eats_must[OF parseExpression_eats])
      fix x r assume "length (r :: Token list) < length ts'"
      then show "eats (Suc (length ts')) (and_then (parse_body (parse_statement n) r) (f x))"
        using Suc.prems Cons by (intro eats_and_then[OF body]) (auto intro: that)
    qed
    show ?thesis
      using Suc.prems expr identifier_eats[of "t # ts'"] unfolding Cons parse_statement.simps statement_with_def list.case
      by (auto split: TokenType.splits intro!: cond eats_must[OF parseExpression_eats] eats_consume eats_and_then[OF body])
  qed (simp add: statement_with_def)
qed simp

lemma parseStatement_eats: "eats (length ts) (parseStatement ts)"
  by (simp add: parseStatement_def parse_statement_eats del: parse_statement.simps)

lemma parameters_eats: "length ts < n \<Longrightarrow> ok (length ts) (parse_parameters n params types ts)"
proof (induction n arbitrary: params types ts)
  case (Suc n)
  have rest: "ok (length ts) (parse_parameters n ps qs (consumeIf TComma r))" if "length r < length ts" for ps qs r
    using Suc.IH[of "consumeIf TComma r" ps qs] length_consumeIf[of TComma r] that Suc.prems ok_mono by fastforce
  have "ok (length ts) (if_some (parseType r) (\<lambda>x r. parse_parameters n ps (qs x) (consumeIf TComma r)))"
    if "length r < length ts" for ps qs r
    using that by (intro ok_if_some[OF parseType_eats]) (auto intro: rest)
  then show ?case by (auto intro!: ok_consume)
qed simp

lemma parseFunctionDefinition_eats: "eats (length ts) (parseFunctionDefinition ts)"
proof -
  have body: "ok (length r) (parse_body parseStatement r)" for r
    by (rule body_ok[OF parseStatement_eats order_refl])
  have "eats (length ts) (if_some (parseType r) (\<lambda>rt ts. and_then (parse_body parseStatement ts) (\<lambda>b r. Parsed (Some (f rt b)) r)))"
    if "length r < length ts" for r and f :: "Type \<Rightarrow> Block \<Rightarrow> Function"
    using that by (intro eats_if_some[OF parseType_eats] eats_and_then[OF body]) auto
  then show ?thesis
    unfolding parseFunctionDefinition_def
    by (intro eats_consume) (auto simp del: parse_parameters.simps intro!: eats_consume eats_some_if_ok[OF parameters_eats])
qed

lemma functions_end: "length ts < n \<Longrightarrow> ok (length ts) (parse_functions n ast ts)"
proof (induction n arbitrary: ast ts)
  case (Suc n)
  have "ok (length ts) (parse_functions n ast' r)" if "length r < length ts" for ast' r
    using Suc.IH[of r ast'] that Suc.prems ok_mono by fastforce
  then show ?case by (auto intro!: ok_must[OF parseFunctionDefinition_eats])
qed simp

lemma functions_all: "parse_functions n ast ts = Parsed ast' r \<Longrightarrow> r = []"
proof (induction n arbitrary: ast ts)
  case (Suc n)
  then show ?case
    by (cases "parseFunctionDefinition ts" rule: eats_cases) (auto simp: must_def split: if_splits)
qed simp

section \<open>The equations of the source\<close>

text \<open>
  A bound that is reached is the only way in which a smaller bound can give another result: a parser is
  below another when they agree wherever the first does not reach its bound. The combinators are
  monotone in this order, so a parser that never reaches its bound is not changed by a larger one.
\<close>

definition below :: "'a parsed \<Rightarrow> 'a parsed \<Rightarrow> bool" where
  "below p q \<longleftrightarrow> p = OutOfFuel \<or> p = q"

lemma below_refl [simp, intro]: "below p p"
  by (simp add: below_def)

lemma below_OutOfFuel [simp]: "below OutOfFuel p"
  by (simp add: below_def)

lemma below_trans: "below p q \<Longrightarrow> below q r \<Longrightarrow> below p r"
  by (auto simp: below_def)

lemma below_eq: "below p q \<Longrightarrow> p \<noteq> OutOfFuel \<Longrightarrow> p = q"
  by (auto simp: below_def)

named_theorems below_intros

lemma below_and_then [below_intros]: "below p q \<Longrightarrow> (\<And>x r. below (f x r) (g x r)) \<Longrightarrow> below (and_then p f) (and_then q g)"
  by (cases p; cases q) (auto simp: below_def)

lemma below_if_some [below_intros]: "below p q \<Longrightarrow> (\<And>x r. below (f x r) (g x r)) \<Longrightarrow> below (if_some p f) (if_some q g)"
  unfolding if_some_def by (auto intro!: below_and_then split: option.splits)

lemma below_must [below_intros]: "below p q \<Longrightarrow> (\<And>x r. below (f x r) (g x r)) \<Longrightarrow> below (must p f) (must q g)"
  unfolding must_def by (auto intro!: below_and_then split: option.splits)

text \<open>A function whose bound only matters when it is reached.\<close>

lemma below_le:
  assumes "\<And>n. below (f n) (f (Suc n))" "m \<le> n"
  shows "below (f m) (f n)"
  using assms(2) by (induction rule: dec_induct) (auto intro: below_trans assms(1))

lemma bound_irrelevant:
  assumes "\<And>n. below (f n) (f (Suc n))" "\<And>n. k < n \<Longrightarrow> f n \<noteq> OutOfFuel"
  shows "below (f m) (f (Suc k))"
proof (cases "m \<le> Suc k")
  case False
  then have "f (Suc k) = f m" using below_eq[OF below_le[where f = f, OF assms(1)]] assms(2) by simp
  then show ?thesis by simp
qed (rule below_le[where f = f, OF assms(1)])

locale larger_bound =
  fixes expr expr' :: "Token list \<Rightarrow> Expression option parsed"
  assumes expr: "below (expr ts) (expr' ts)"
begin

lemma arguments_below: "n \<le> m \<Longrightarrow> below (parse_arguments expr n name args ts) (parse_arguments expr' m name args ts)"
proof (induction n arbitrary: m args ts)
  case (Suc n)
  then show ?case by (cases m) (auto intro!: below_intros expr)
qed simp

lemma elements_below: "n \<le> m \<Longrightarrow> below (parse_elements expr n elements ts) (parse_elements expr' m elements ts)"
proof (induction n arbitrary: m elements ts)
  case (Suc n)
  then show ?case by (cases m) (auto intro!: below_intros expr)
qed simp

lemma call_below: "below (parseFunctionCall expr ts) (parseFunctionCall expr' ts)"
  unfolding parseFunctionCall_def by (auto simp del: parse_arguments.simps split: list.splits option.splits intro!: below_intros arguments_below)

lemma array_below: "below (parseArrayLiteral expr ts) (parseArrayLiteral expr' ts)"
  unfolding parseArrayLiteral_def by (auto simp del: parse_elements.simps intro!: below_intros elements_below)

lemma index_below: "below (parseIndexOrSlice expr e ts) (parseIndexOrSlice expr' e ts)"
  unfolding parseIndexOrSlice_def by (auto intro!: below_intros expr)

lemma atom_below: "below (parseAtom expr ts) (parseAtom expr' ts)"
  unfolding parseAtom_def Let_def
  by (auto split: list.splits option.splits intro!: below_intros expr call_below array_below index_below)

lemma factor_below: "n \<le> m \<Longrightarrow> below (parse_factor expr n ts) (parse_factor expr' m ts)"
proof (induction n arbitrary: m ts)
  case (Suc n)
  then show ?case by (cases m) (auto split: list.splits intro!: below_intros atom_below)
qed simp

lemma parseFactor_below: "below (parseFactor expr ts) (parseFactor expr' ts)"
  by (simp add: parseFactor_def factor_below del: parse_factor.simps)

lemma power_below: "n \<le> m \<Longrightarrow> below (parse_power expr n ts) (parse_power expr' m ts)"
proof (induction n arbitrary: m ts)
  case (Suc n)
  then show ?case by (cases m) (auto split: list.splits intro!: below_intros parseFactor_below)
qed simp

lemma parsePower_below: "below (parsePower expr ts) (parsePower expr' ts)"
  by (simp add: parsePower_def power_below del: parse_power.simps)

end

lemma operators_below:
  assumes "\<And>ts. below (operand ts) (operand' ts)"
  shows "n \<le> m \<Longrightarrow> below (parse_operators operand ops n left ts) (parse_operators operand' ops m left ts)"
proof (induction n arbitrary: m left ts)
  case (Suc n)
  then show ?case by (cases m) (auto split: list.splits intro!: below_intros assms)
qed simp

lemma left_below:
  assumes "\<And>ts. below (operand ts) (operand' ts)"
  shows "below (parse_left operand ops ts) (parse_left operand' ops ts)"
  unfolding parse_left_def by (intro below_intros assms operators_below[OF assms]) simp

context larger_bound
begin

lemma parseLogicalOr_below: "below (parseLogicalOr expr ts) (parseLogicalOr expr' ts)"
  unfolding parseLogicalOr_def parseLogicalAnd_def parseRelational_def parseAdditive_def parseTerm_def
  by (intro left_below parsePower_below)

end

lemma parse_expression_below: "below (parse_expression n ts) (parse_expression (Suc n) ts)"
proof (induction n arbitrary: ts)
  case (Suc n)
  then have "larger_bound (parse_expression n) (parse_expression (Suc n))" by (simp add: larger_bound_def)
  from larger_bound.parseLogicalOr_below[OF this] show ?case by simp
qed simp

lemma eats_not_OutOfFuel: "eats k p \<Longrightarrow> p \<noteq> OutOfFuel"
  by auto

interpretation expression_bound: larger_bound "parse_expression n" parseExpression for n
proof
  fix ts
  show "below (parse_expression n ts) (parseExpression ts)"
    unfolding parseExpression_def
    by (rule bound_irrelevant[where f = "\<lambda>n. parse_expression n ts", OF parse_expression_below])
      (rule eats_not_OutOfFuel[OF parse_expression_eats])
qed

lemma parseExpression_eq: "parseExpression ts = parseLogicalOr parseExpression ts"
  using below_eq[OF expression_bound.parseLogicalOr_below[of "length ts" ts]] eats_not_OutOfFuel[OF parseExpression_eats[of ts]]
  by (simp add: parseExpression_def)

text \<open>The same for the functions that call themselves, and for the loops.\<close>

lemma parse_type_below: "n \<le> m \<Longrightarrow> below (parse_type n ts) (parse_type m ts)"
proof (induction n arbitrary: m ts)
  case (Suc n)
  then obtain k where k: "m = Suc k" "n \<le> k" by (cases m) auto
  have "below (parseArrayType (parse_type n) ts) (parseArrayType (parse_type k) ts)" for ts
    unfolding parseArrayType_def Let_def
    by (auto split: list.splits option.splits intro!: below_intros Suc.IH k)
  moreover have "below (parseMapType (parse_type n) ts) (parseMapType (parse_type k) ts)" for ts
    unfolding parseMapType_def by (auto split: list.splits intro!: below_intros Suc.IH k)
  ultimately show ?case using k by (auto split: list.splits TokenType.splits)
qed simp

lemma parse_type_enough: "length ts < n \<Longrightarrow> parse_type n ts = parseType ts"
  using below_eq[OF parse_type_below[of "Suc (length ts)" n ts]] eats_not_OutOfFuel[OF parseType_eats[of ts]]
  by (simp add: parseType_def del: parse_type.simps)

lemma parseArrayType_cong: "(\<And>r. length r < length ts \<Longrightarrow> p r = q r) \<Longrightarrow> parseArrayType p ts = parseArrayType q ts"
  by (cases ts) (auto simp: parseArrayType_def consumeAssert_def Let_def split: list.splits option.splits)

lemma parseMapType_cong: "(\<And>r. length r < length ts \<Longrightarrow> p r = q r) \<Longrightarrow> parseMapType p ts = parseMapType q ts"
  by (cases ts) (auto simp: parseMapType_def consumeAssert_def split: list.splits)

lemma parseType_eq: "parseType ts = (case ts of
      [] \<Rightarrow> Parsed None []
    | token # ts' \<Rightarrow>
        (case tok_Type token of
           TInt \<Rightarrow> Parsed (Some IntType) ts'
         | TFloat \<Rightarrow> Parsed (Some FloatType) ts'
         | TString \<Rightarrow> Parsed (Some StringType) ts'
         | TBool \<Rightarrow> Parsed (Some BoolType) ts'
         | TLSquare \<Rightarrow> parseArrayType parseType ts
         | TMap \<Rightarrow> parseMapType parseType ts
         | _ \<Rightarrow> Parsed None ts))"
  unfolding parseType_def[of ts] parse_type.simps
  by (auto split: list.splits TokenType.splits intro!: parseArrayType_cong parseMapType_cong parse_type_enough)

lemma parseFactor_eq: "parseFactor parseExpression ts = (case ts of
      op # ts' \<Rightarrow>
        if tok_Type op = TMinus \<or> tok_Type op = TNot
        then and_then (parseFactor parseExpression ts') (\<lambda>rhs ts. Parsed (Some (UnaryExpr (tok_Type op) rhs)) ts)
        else parseAtom parseExpression ts
    | [] \<Rightarrow> parseAtom parseExpression [])"
  unfolding parseFactor_def parse_factor.simps by (auto split: list.splits)

interpretation same_bound: larger_bound parseExpression parseExpression
  by unfold_locales simp

lemma parse_power_enough: "length ts < n \<Longrightarrow> parse_power parseExpression n ts = parsePower parseExpression ts"
  using below_eq[OF same_bound.power_below[of "Suc (length ts)" n ts]] eats_not_OutOfFuel[OF expressions.parsePower_eats[of ts "length ts"]]
  by (simp add: parsePower_def del: parse_power.simps)

lemma parsePower_eq: "parsePower parseExpression ts = if_some (parseFactor parseExpression ts) (\<lambda>left ts. case ts of
      op # ts' \<Rightarrow>
        if tok_Type op = TExponent
        then and_then (parsePower parseExpression ts') (\<lambda>right ts. Parsed (Some (BinaryExpr (tok_Type op) left right)) ts)
        else Parsed (Some left) ts
    | [] \<Rightarrow> Parsed (Some left) [])"
proof (cases "parseFactor parseExpression ts" rule: eats_cases)
  case (4 e r)
  then have "length r < length ts" using expressions.parseFactor_eats[of ts "length ts"] by simp
  with 4 show ?thesis
    by (auto simp: parsePower_def[of _ ts] if_some_def parse_power_enough split: list.splits)
qed (simp_all add: parsePower_def[of _ ts] if_some_def)

text \<open>The loop over operators, from a given left operand on.\<close>

definition operators :: "(Token list \<Rightarrow> Expression option parsed) \<Rightarrow> (TokenType \<Rightarrow> bool) \<Rightarrow> Expression \<Rightarrow> Token list \<Rightarrow>
    Expression option parsed" where
  "operators operand ops left ts = parse_operators operand ops (Suc (length ts)) left ts"

lemma operators_enough:
  assumes "\<And>ts. eats (length ts) (operand ts)" "length ts < n"
  shows "parse_operators operand ops n left ts = operators operand ops left ts"
proof -
  have "below (parse_operators operand ops (Suc (length ts)) left ts) (parse_operators operand ops n left ts)"
    using assms(2) by (intro operators_below) auto
  moreover have "eats (Suc (length ts)) (parse_operators operand ops (Suc (length ts)) left ts)"
    by (rule operators_eats[where L = "length ts", OF assms(1)]) simp_all
  ultimately show ?thesis using below_eq eats_not_OutOfFuel unfolding operators_def by metis
qed

lemma operators_eq:
  assumes "\<And>ts. eats (length ts) (operand ts)"
  shows "operators operand ops left ts = (case ts of
      op # ts' \<Rightarrow>
        if ops (tok_Type op)
        then and_then (operand ts') (\<lambda>right ts. operators operand ops (BinaryExpr (tok_Type op) left right) ts)
        else Parsed (Some left) ts
    | [] \<Rightarrow> Parsed (Some left) [])"
proof (cases ts)
  case (Cons op ts')
  show ?thesis
  proof (cases "operand ts'")
    case (Parsed x r)
    then have "length r \<le> length ts'" using eats_ok[OF assms(1)[of ts']] by simp
    then have "parse_operators operand ops (length ts) e r = operators operand ops e r" for e
      using Cons by (intro operators_enough[OF assms(1)]) simp
    then show ?thesis unfolding operators_def[of _ _ _ ts] by (subst parse_operators.simps) (simp add: Cons Parsed del: parse_operators.simps)
  qed (simp_all add: Cons operators_def)
qed (simp add: operators_def)

text \<open>The loops over arguments and elements.\<close>

lemma arguments_eq:
  "parse_arguments parseExpression (Suc (length ts)) name args ts =
     (if ts = [] then Panic
      else if next_is TRParen ts then expect TRParen ts (\<lambda>ts. Parsed (Some (CallExpr name args)) ts)
      else if_some (parseExpression ts) (\<lambda>paramExpr ts.
        parse_arguments parseExpression (Suc (length (consumeIf TComma ts))) name (args @ [paramExpr]) (consumeIf TComma ts)))"
proof (cases "parseExpression ts" rule: eats_cases)
  case (4 e r)
  let ?r = "consumeIf TComma r"
  have "length ?r < length ts" using 4 parseExpression_eats[of ts] length_consumeIf[of TComma r] by simp
  moreover from this have "parse_arguments parseExpression (Suc (length ?r)) name as ?r = parse_arguments parseExpression (length ts) name as ?r" for as
    using below_eq[OF same_bound.arguments_below[of "Suc (length ?r)" "length ts" name as ?r]]
      eats_not_OutOfFuel[OF expressions.arguments_eats[of ?r "Suc (length ?r)" "Suc (length ?r)" name as]]
    by (simp del: parse_arguments.simps)
  ultimately show ?thesis by (subst parse_arguments.simps) (simp add: 4 if_some_def del: parse_arguments.simps)
qed (simp_all add: if_some_def)

lemma elements_eq:
  "parse_elements parseExpression (Suc (length ts)) elements ts = if_some (parseExpression ts) (\<lambda>element ts.
     if ts = [] then Parsed None []
     else if next_is TRSquare ts then expect TRSquare ts (\<lambda>ts. Parsed (Some (ArrayLiteral (elements @ [element]))) ts)
     else if next_is TComma ts then parse_elements parseExpression (Suc (length (tl ts))) (elements @ [element]) (tl ts)
     else Parsed None ts)"
proof (cases "parseExpression ts" rule: eats_cases)
  case (4 e r)
  have "length (tl r) < length ts" using 4 parseExpression_eats[of ts] by simp
  moreover from this have "parse_elements parseExpression (Suc (length (tl r))) es (tl r) = parse_elements parseExpression (length ts) es (tl r)" for es
    using below_eq[OF same_bound.elements_below[of "Suc (length (tl r))" "length ts" es "tl r"]]
      eats_not_OutOfFuel[OF expressions.elements_eats[of "tl r" "Suc (length (tl r))" "Suc (length (tl r))" es]]
    by (simp del: parse_elements.simps)
  ultimately show ?thesis by (subst parse_elements.simps) (simp add: 4 if_some_def del: parse_elements.simps length_tl)
qed (simp_all add: if_some_def)

text \<open>Statements, parameters and functions.\<close>

lemma statements_below:
  assumes "\<And>ts. below (stmt ts) (stmt' ts)"
  shows "n \<le> m \<Longrightarrow> below (parse_statements stmt n ss ts) (parse_statements stmt' m ss ts)"
proof (induction n arbitrary: m ss ts)
  case (Suc n)
  then show ?case by (cases m) (auto split: option.splits intro!: below_intros assms)
qed simp

lemma body_below: "(\<And>ts. below (stmt ts) (stmt' ts)) \<Longrightarrow> below (parse_body stmt ts) (parse_body stmt' ts)"
  unfolding parse_body_def parseBlock_def by (intro below_intros below_refl statements_below) auto

lemma statement_with_below: "(\<And>ts. below (stmt ts) (stmt' ts)) \<Longrightarrow> below (statement_with stmt ts) (statement_with stmt' ts)"
  unfolding statement_with_def by (auto split: list.splits TokenType.splits intro!: below_intros body_below)

lemma parse_statement_below: "below (parse_statement n ts) (parse_statement (Suc n) ts)"
  by (induction n arbitrary: ts) (auto intro: statement_with_below)

lemma parseStatement_eq: "parseStatement ts = statement_with parseStatement ts"
proof -
  have "below (parse_statement n r) (parseStatement r)" for n r
    unfolding parseStatement_def
    by (rule bound_irrelevant[where f = "\<lambda>n. parse_statement n r", OF parse_statement_below])
      (rule eats_not_OutOfFuel[OF parse_statement_eats])
  then have "below (statement_with (parse_statement (length ts)) ts) (statement_with parseStatement ts)" by (rule statement_with_below)
  then show ?thesis using below_eq eats_not_OutOfFuel[OF parseStatement_eats[of ts]] by (simp add: parseStatement_def)
qed

lemma statements_eq:
  "parse_statements parseStatement (Suc (length ts)) statements ts = and_then (parseStatement ts) (\<lambda>s ts. case s of
      None \<Rightarrow> Parsed statements ts
    | Some s \<Rightarrow> parse_statements parseStatement (Suc (length ts)) (statements @ [s]) ts)"
proof (cases "parseStatement ts" rule: eats_cases)
  case (4 s r)
  then have r: "length r < length ts" using parseStatement_eats[of ts] by simp
  have "parse_statements parseStatement (Suc (length r)) ss r = parse_statements parseStatement (length ts) ss r" for ss
  proof (rule below_eq[OF statements_below])
    have "ok (length r) (parse_statements parseStatement (Suc (length r)) ss r)"
      by (rule statements_ok[where L = "Suc (length r)", OF parseStatement_eats]) simp_all
    then show "parse_statements parseStatement (Suc (length r)) ss r \<noteq> OutOfFuel" by auto
  qed (use r in auto)
  then show ?thesis by (subst parse_statements.simps) (simp add: 4 del: parse_statements.simps)
qed simp_all

lemma parameters_below: "n \<le> m \<Longrightarrow> below (parse_parameters n params types ts) (parse_parameters m params types ts)"
proof (induction n arbitrary: m params types ts)
  case (Suc n)
  then show ?case by (cases m) (auto intro!: below_intros)
qed simp

lemma parameters_enough:
  "length ts < n \<Longrightarrow> parse_parameters n params types ts = parse_parameters (Suc (length ts)) params types ts"
proof -
  assume n: "length ts < n"
  have "ok (length ts) (parse_parameters (Suc (length ts)) params types ts)" by (rule parameters_eats) simp
  then have "parse_parameters (Suc (length ts)) params types ts \<noteq> OutOfFuel" by auto
  from below_eq[OF parameters_below this, of n] n show ?thesis by simp
qed

lemma functions_below: "n \<le> m \<Longrightarrow> below (parse_functions n ast ts) (parse_functions m ast ts)"
proof (induction n arbitrary: m ast ts)
  case (Suc n)
  then show ?case by (cases m) (auto intro!: below_intros)
qed simp

lemma functions_enough: "length ts < n \<Longrightarrow> parse_functions n ast ts = parse_functions (Suc (length ts)) ast ts"
proof -
  assume n: "length ts < n"
  have "ok (length ts) (parse_functions (Suc (length ts)) ast ts)" by (rule functions_end) simp
  then have "parse_functions (Suc (length ts)) ast ts \<noteq> OutOfFuel" by auto
  from below_eq[OF functions_below this, of n] n show ?thesis by simp
qed

text \<open>
  C22. The parser ends on every list of tokens: it stops the program with an error, or it returns a syntax
  tree and has read all the tokens. The bound on the depth of the recursion is never what ends it, so the
  parsers of expressions and of statements satisfy the equations of the source, in which the enclosed
  expressions and the statements of nested blocks are parsed by the same functions.
\<close>

theorem Parse_terminates:
  "(Parse tokens = Panic \<or> (\<exists>ast. Parse tokens = Parsed ast [])) \<and>
   parseExpression tokens = parseLogicalOr parseExpression tokens \<and> parseExpression tokens \<noteq> OutOfFuel \<and>
   parseStatement tokens = statement_with parseStatement tokens \<and> parseStatement tokens \<noteq> OutOfFuel"
proof -
  have "ok (length tokens) (Parse tokens)" by (simp add: Parse_def functions_end del: parse_functions.simps)
  then have "Parse tokens = Panic \<or> (\<exists>ast. Parse tokens = Parsed ast [])"
    using functions_all[of "Suc (length tokens)" NewAst tokens]
    by (cases "Parse tokens") (auto simp: Parse_def simp del: parse_functions.simps)
  then show ?thesis
    using parseExpression_eq parseStatement_eq eats_not_OutOfFuel[OF parseExpression_eats] eats_not_OutOfFuel[OF parseStatement_eats] by blast
qed

end
