(* ===== verification/Marigold_Lexer.thy ===== *)
theory Marigold_Lexer
  imports Marigold_Syntax
begin

text \<open>
  \<open>src/marigold/lexer.go\<close>. The cursor is the text that is left; a position is a row and a column.
  \<open>None\<close> is a panic; otherwise the tokens read and the error.
\<close>

section \<open>Characters and positions\<close>

abbreviation newline :: char where "newline \<equiv> CHR 0x0A"
abbreviation tab :: char where "tab \<equiv> CHR 0x09"
abbreviation carriage_return :: char where "carriage_return \<equiv> CHR 0x0D"
abbreviation quote :: char where "quote \<equiv> CHR 0x22"
abbreviation backslash :: char where "backslash \<equiv> CHR 0x5C"

definition is_blank :: "char \<Rightarrow> bool" where
  "is_blank c \<longleftrightarrow> c \<in> {CHR '' '', tab, carriage_return, newline}"

definition is_single :: "char \<Rightarrow> bool" where
  "is_single c \<longleftrightarrow> c \<in> set ''()[]{},.:;+-*%^''"

definition is_digit :: "char \<Rightarrow> bool" where
  "is_digit c \<longleftrightarrow> c \<in> set ''0123456789''"

definition is_letter :: "char \<Rightarrow> bool" where
  "is_letter c \<longleftrightarrow> c \<in> set ''abcdefghijklmnopqrstuvwxyzABCDEFGHIJKLMNOPQRSTUVWXYZ_@''"

definition is_ident :: "char \<Rightarrow> bool" where
  "is_ident c \<longleftrightarrow> is_letter c \<or> is_digit c"

type_synonym position = "u64 \<times> u64"

definition increment :: "char \<Rightarrow> position \<Rightarrow> position" where
  "increment c p = (if c = newline then (fst p + 1, 0) else (fst p, snd p + 1))"

definition advance :: "string \<Rightarrow> position \<Rightarrow> position" where
  "advance cs p = fold increment cs p"

definition token_at :: "position \<Rightarrow> string \<Rightarrow> TokenType \<Rightarrow> Token" where
  "token_at p value tokenType = NewToken value tokenType (snd p) (fst p) ''dummy''"

section \<open>The lexer\<close>

datatype lex_error = ErrInvalidSourceCode | ErrUnterminatedStringLiteral

definition escape :: "char \<Rightarrow> string" where
  "escape c =
     (if c = quote then [quote] else if c = backslash then [backslash]
      else if c = CHR ''n'' then [newline] else if c = CHR ''t'' then [tab]
      else if c = CHR ''r'' then [carriage_return] else [backslash, c])"

text \<open>
  The content of a string literal up to its closing quote, with the text and the position after the
  content; \<open>None\<close> when the text ends first.
\<close>

fun read_string :: "string \<Rightarrow> position \<Rightarrow> string \<Rightarrow> (string \<times> string \<times> position) option" where
  "read_string [] p content = None"
| "read_string (c # cs) p content =
     (if c = quote then Some (content, c # cs, p)
      else if c = backslash \<and> cs \<noteq> [] then
        (case cs of
           [] \<Rightarrow> None
         | d # ds \<Rightarrow> read_string ds (increment d (increment c p)) (content @ escape d))
      else read_string cs (increment c p) (content @ [c]))"

lemma read_string_length: "read_string cs p content = Some (s, rest, p') \<Longrightarrow> rest \<noteq> [] \<and> length rest \<le> length cs"
  by (induction cs p content rule: read_string.induct) (fastforce split: if_splits list.splits)+

text \<open>The type of a word: \<open>string\<close>, \<open>int\<close> and \<open>float\<close> before a parenthesis name functions.\<close>

definition word_type :: "string \<Rightarrow> string \<Rightarrow> TokenType" where
  "word_type buffer rest =
     (if buffer \<in> {''string'', ''int'', ''float''} then
        (case dropWhile (\<lambda>c. c = CHR '' '' \<or> c = tab) rest of
           c # _ \<Rightarrow> if c = CHR ''('' then TIdentifier else the (TokenTypeMap buffer)
         | [] \<Rightarrow> the (TokenTypeMap buffer))
      else case TokenTypeMap buffer of Some toktype \<Rightarrow> toktype | None \<Rightarrow> TIdentifier)"

text \<open>A number: its text, whether it is a floating-point number, and the text after it.\<close>

definition read_number :: "string \<Rightarrow> string \<times> bool \<times> string" where
  "read_number text =
     (let whole = takeWhile is_digit text; rest = dropWhile is_digit text in
      case rest of
        c # d # ds \<Rightarrow>
          if c = CHR ''.'' \<and> is_digit d
          then (whole @ [c] @ takeWhile is_digit (d # ds), True, dropWhile is_digit (d # ds))
          else (whole, False, rest)
      | _ \<Rightarrow> (whole, False, rest))"

lemma read_number_length:
  "is_digit c \<Longrightarrow> read_number (c # cs) = (v, f, rest) \<Longrightarrow> length rest < length (c # cs)"
proof -
  have d: "length (dropWhile is_digit xs) \<le> length xs" for xs by (simp add: length_dropWhile_le)
  assume c: "is_digit c" and r: "read_number (c # cs) = (v, f, rest)"
  let ?r = "dropWhile is_digit cs"
  have "rest = ?r \<or> (\<exists>x y ys. ?r = x # y # ys \<and> rest = dropWhile is_digit (y # ys))"
    using c r by (auto simp: read_number_def Let_def split: list.splits if_splits)
  then show ?thesis
  proof
    assume "rest = ?r"
    then show ?thesis using d[of cs] by simp
  next
    assume "\<exists>x y ys. ?r = x # y # ys \<and> rest = dropWhile is_digit (y # ys)"
    then obtain x y ys where *: "?r = x # y # ys" "rest = dropWhile is_digit (y # ys)" by blast
    have "length rest \<le> length (y # ys)" using d[of "y # ys"] *(2) by simp
    also have "\<dots> < length ?r" using *(1) by simp
    also have "\<dots> \<le> length cs" by (rule d)
    finally show ?thesis by simp
  qed
qed

lemma read_number_shorter: "(v, f, rest) = read_number (c # cs) \<Longrightarrow> is_digit c \<Longrightarrow> length rest \<le> length cs"
  using read_number_length[of c cs v f rest] by simp

function lex_loop :: "string \<Rightarrow> position \<Rightarrow> Token list \<Rightarrow> (Token list \<times> lex_error option) option" where
  "lex_loop [] p tokens = Some (tokens, None)"
| "lex_loop (c # cs) p tokens =
     (if is_blank c then lex_loop cs (increment c p) tokens
      else if is_single c then lex_loop cs (increment c p) (tokens @ [token_at p [c] (the (TokenTypeMap [c]))])
      else if c \<in> set ''=!<>'' then
        (case cs of
           d # ds \<Rightarrow>
             if d = CHR ''='' then lex_loop ds (increment c p) (tokens @ [token_at p [c, d] (the (TokenTypeMap [c, d]))])
             else lex_loop cs (increment c p) (tokens @ [token_at p [c] (the (TokenTypeMap [c]))])
         | [] \<Rightarrow> lex_loop cs (increment c p) (tokens @ [token_at p [c] (the (TokenTypeMap [c]))]))
      else if c = CHR ''&'' then
        (case cs of
           d # ds \<Rightarrow> if d = CHR ''&'' then lex_loop ds (increment c p) (tokens @ [token_at p ''&&'' TLogicalAnd]) else None
         | [] \<Rightarrow> None)
      else if c = CHR ''|'' then
        (case cs of
           d # ds \<Rightarrow>
             if d = CHR ''|'' then lex_loop ds (increment c p) (tokens @ [token_at p ''||'' TLogicalOr])
             else lex_loop cs (increment c p) (tokens @ [token_at p [c] TPipe])
         | [] \<Rightarrow> lex_loop cs (increment c p) (tokens @ [token_at p [c] TPipe]))
      else if c = CHR ''/'' then
        (if cs \<noteq> [] \<and> hd cs = CHR ''/'' then
           lex_loop (dropWhile (\<lambda>d. d \<noteq> newline) (c # cs)) (advance (takeWhile (\<lambda>d. d \<noteq> newline) (c # cs)) p) tokens
         else lex_loop cs (increment c p) (tokens @ [token_at p [c] TDivide]))
      else if c = quote then
        (case read_string cs (increment c p) [] of
           None \<Rightarrow> Some (tokens, Some ErrUnterminatedStringLiteral)
         | Some (content, rest, p') \<Rightarrow>
             lex_loop (tl rest) (increment quote p') (tokens @ [token_at p content TStringLiteral]))
      else if is_digit c then
        (case read_number (c # cs) of
           (value, is_float, rest) \<Rightarrow>
             lex_loop rest (advance value p) (tokens @ [token_at p value (if is_float then TFloatLiteral else TIntLiteral)]))
      else if is_letter c then
        (let buffer = takeWhile is_ident (c # cs); rest = dropWhile is_ident (c # cs)
         in lex_loop rest (advance buffer p) (tokens @ [token_at p buffer (word_type buffer rest)]))
      else None)"
  by pat_completeness auto
termination
  by (relation "measure (\<lambda>(text, p, tokens). length text)")
    (auto simp: is_ident_def length_dropWhile_le less_Suc_eq_le
      dest: read_string_length read_number_shorter split: if_splits)

definition Lex :: "string \<Rightarrow> (Token list \<times> lex_error option) option" where
  "Lex text = (if text = [] then Some ([], Some ErrInvalidSourceCode) else lex_loop text (0, 0) [])"

declare lex_loop.simps [simp del]

section \<open>Printing tokens\<close>

text \<open>Quotes and backslashes of a string literal are escaped; everything else is printed as it is.\<close>

fun escaped :: "string \<Rightarrow> string" where
  "escaped [] = []"
| "escaped (c # cs) = (if c = quote \<or> c = backslash then [backslash, c] else [c]) @ escaped cs"

definition token_text :: "TokenType \<Rightarrow> string \<Rightarrow> string" where
  "token_text ty v = (if ty = TStringLiteral then quote # escaped v @ [quote] else v)"

definition print_tokens :: "(TokenType \<times> string) list \<Rightarrow> string" where
  "print_tokens ts = concat (map (\<lambda>(ty, v). token_text ty v @ '' '') ts)"

definition symbols :: "(string \<times> TokenType) list" where
  "symbols = filter (\<lambda>(v, ty). \<not> is_letter (hd v)) token_table"

definition number_ok :: "string \<Rightarrow> bool" where
  "number_ok v \<longleftrightarrow> v \<noteq> [] \<and> list_all is_digit v"

text \<open>
  Which pairs of a type and a value the lexer can produce, given the pairs after it: a word has the
  type of its keyword, and \<open>string\<close>, \<open>int\<close> and \<open>float\<close> are identifiers just before a parenthesis.
\<close>

definition token_ok :: "TokenType \<Rightarrow> string \<Rightarrow> (TokenType \<times> string) list \<Rightarrow> bool" where
  "token_ok ty v ts =
     (if ty = TStringLiteral then True
      else if ty = TIntLiteral then number_ok v
      else if ty = TFloatLiteral then
        number_ok (takeWhile is_digit v) \<and> (case dropWhile is_digit v of [] \<Rightarrow> False | c # ds \<Rightarrow> c = CHR ''.'' \<and> number_ok ds)
      else if v \<noteq> [] \<and> is_letter (hd v) then
        list_all is_ident v \<and>
        ty = (if v \<in> {''string'', ''int'', ''float''} \<and> ts \<noteq> [] \<and> fst (hd ts) = TLParen then TIdentifier
              else case TokenTypeMap v of Some t \<Rightarrow> t | None \<Rightarrow> TIdentifier)
      else (v, ty) \<in> set symbols)"

fun lexable :: "(TokenType \<times> string) list \<Rightarrow> bool" where
  "lexable [] = True"
| "lexable ((ty, v) # ts) = (token_ok ty v ts \<and> lexable ts)"

definition token_pair :: "Token \<Rightarrow> TokenType \<times> string" where
  "token_pair t = (tok_Type t, tok_Value t)"

lemma token_pair_at [simp]: "token_pair (token_at p v ty) = (ty, v)"
  by (simp add: token_pair_def token_at_def NewToken_def)

lemma read_string_escaped:
  "\<exists>p'. read_string (escaped s @ quote # rest) p acc = Some (acc @ s, quote # rest, p')"
proof (induction s arbitrary: p acc)
  case (Cons c s)
  consider "c = quote" | "c = backslash" | "c \<noteq> quote" "c \<noteq> backslash" by blast
  then show ?case
  proof cases
    case 1
    with Cons[of "increment quote (increment backslash p)" "acc @ [quote]"] show ?thesis by (simp add: escape_def)
  next
    case 2
    with Cons[of "increment backslash (increment backslash p)" "acc @ [backslash]"] show ?thesis by (simp add: escape_def)
  next
    case 3
    with Cons[of "increment c p" "acc @ [c]"] show ?thesis by simp
  qed
qed simp

lemma takeWhile_run: "list_all P v \<Longrightarrow> \<not> P c \<Longrightarrow> takeWhile P (v @ c # rest) = v \<and> dropWhile P (v @ c # rest) = c # rest"
  by (induction v) auto

lemma not_ident_space [simp]: "\<not> is_ident CHR '' ''" "\<not> is_digit CHR '' ''" "\<not> is_digit CHR ''.''"
  by (simp_all add: is_ident_def is_letter_def is_digit_def)

lemma letter_classes:
  "is_letter c \<Longrightarrow> \<not> is_blank c \<and> \<not> is_single c \<and> c \<notin> set ''=!<>&|/'' \<and> c \<noteq> quote \<and> \<not> is_digit c \<and> is_ident c"
  unfolding is_letter_def is_ident_def is_digit_def is_single_def is_blank_def by auto

lemma digit_classes:
  "is_digit c \<Longrightarrow> \<not> is_blank c \<and> \<not> is_single c \<and> c \<notin> set ''=!<>&|/'' \<and> c \<noteq> quote"
  unfolding is_digit_def is_single_def is_blank_def by auto

lemma symbols_unfold:
  "symbols = [(''('', TLParen), ('')'', TRParen), (''['', TLSquare), ('']'', TRSquare), (''{'', TLBrace),
      (''}'', TRBrace), ('','', TComma), (''.'', TDot), (''|'', TPipe), ('':'', TColon),
      ('';'', TSemicolon), (''='', TAssign), (''=='', TEqual), (''!='', TNotEqual), (''!'', TNot),
      (''<'', TLessThan), (''<='', TLessEqual), (''>'', TGreaterThan), (''>='', TGreaterEqual),
      (''/'', TDivide), (''%'', TModulo), (''+'', TPlus), (''-'', TMinus), (''*'', TMultiply),
      (''^'', TExponent), (''&&'', TLogicalAnd), (''||'', TLogicalOr)]"
  by (simp add: symbols_def token_table_def is_letter_def)

text \<open>What it means that the lexer reads a token and the blank after it.\<close>

definition lexes :: "string \<Rightarrow> TokenType \<Rightarrow> string \<Rightarrow> string \<Rightarrow> bool" where
  "lexes text ty v rest \<longleftrightarrow>
     (\<forall>p acc. \<exists>p'. lex_loop (text @ CHR '' '' # rest) p acc = lex_loop rest p' (acc @ [token_at p v ty]))"

lemma lexesI:
  "(\<And>p acc. lex_loop (text @ CHR '' '' # rest) p acc = lex_loop rest (f p) (acc @ [token_at p v ty])) \<Longrightarrow> lexes text ty v rest"
  unfolding lexes_def by blast

lemma lex_blank [simp]: "lex_loop (CHR '' '' # rest) p acc = lex_loop rest (increment (CHR '' '') p) acc"
  by (subst lex_loop.simps(2)) (simp add: is_blank_def)

lemma lexes_single: "is_single c \<Longrightarrow> TokenTypeMap [c] = Some ty \<Longrightarrow> lexes [c] ty [c] rest"
proof -
  assume "is_single c" "TokenTypeMap [c] = Some ty"
  moreover from this have "\<not> is_blank c" by (auto simp: is_single_def is_blank_def)
  ultimately show ?thesis
    by (intro lexesI[where f = "\<lambda>p. increment (CHR '' '') (increment c p)"]) (simp add: lex_loop.simps(2)[of c])
qed

lemma lexes_compare:
  assumes "c \<in> set ''=!<>''"
  shows "TokenTypeMap [c] = Some ty \<Longrightarrow> lexes [c] ty [c] rest"
    and "TokenTypeMap [c, CHR ''=''] = Some ty \<Longrightarrow> lexes [c, CHR ''=''] ty [c, CHR ''=''] rest"
proof -
  have c: "\<not> is_blank c" "\<not> is_single c" using assms by (auto simp: is_blank_def is_single_def)
  note step = lex_loop.simps(2)[of c, unfolded if_not_P[OF c(1)] if_not_P[OF c(2)] if_P[OF assms]]
  show "TokenTypeMap [c] = Some ty \<Longrightarrow> lexes [c] ty [c] rest"
    "TokenTypeMap [c, CHR ''=''] = Some ty \<Longrightarrow> lexes [c, CHR ''=''] ty [c, CHR ''=''] rest"
    by (rule lexesI[where f = "\<lambda>p. increment (CHR '' '') (increment c p)"], simp add: step)+
qed

lemma lexes_others:
  "lexes ''&&'' TLogicalAnd ''&&'' rest" "lexes ''||'' TLogicalOr ''||'' rest" "lexes ''|'' TPipe ''|'' rest"
  "lexes ''/'' TDivide ''/'' rest"
proof -
  note steps = lex_loop.simps(2)[of "CHR ''&''"] lex_loop.simps(2)[of "CHR ''|''"] lex_loop.simps(2)[of "CHR ''/''"]
  show "lexes ''&&'' TLogicalAnd ''&&'' rest"
    by (rule lexesI[where f = "\<lambda>p. increment (CHR '' '') (increment (CHR ''&'') p)"]) (simp add: steps is_blank_def is_single_def)
  show "lexes ''||'' TLogicalOr ''||'' rest" "lexes ''|'' TPipe ''|'' rest"
    by (rule lexesI[where f = "\<lambda>p. increment (CHR '' '') (increment (CHR ''|'') p)"], simp add: steps is_blank_def is_single_def)+
  show "lexes ''/'' TDivide ''/'' rest"
    by (rule lexesI[where f = "\<lambda>p. increment (CHR '' '') (increment (CHR ''/'') p)"]) (simp add: steps is_blank_def is_single_def)
qed

lemma symbols_cases:
  assumes "(v, ty) \<in> set symbols"
  shows "TokenTypeMap v = Some ty"
    and "length v = 1 \<and> is_single (hd v) \<or> length v = 1 \<and> hd v \<in> set ''=!<>'' \<or>
      length v = 2 \<and> v ! 1 = CHR ''='' \<and> hd v \<in> set ''=!<>'' \<or>
      (v, ty) \<in> set [(''&&'', TLogicalAnd), (''||'', TLogicalOr), (''|'', TPipe), (''/'', TDivide)]"
    and "v \<noteq> [] \<and> \<not> is_letter (hd v) \<and> \<not> is_digit (hd v) \<and> hd v \<noteq> CHR '' '' \<and> hd v \<noteq> tab \<and> (hd v = CHR ''('' \<longleftrightarrow> ty = TLParen)"
proof -
  have "\<forall>(v, ty)\<in>set symbols. TokenTypeMap v = Some ty \<and>
     (length v = 1 \<and> is_single (hd v) \<or> length v = 1 \<and> hd v \<in> set ''=!<>'' \<or>
      length v = 2 \<and> v ! 1 = CHR ''='' \<and> hd v \<in> set ''=!<>'' \<or>
      (v, ty) \<in> set [(''&&'', TLogicalAnd), (''||'', TLogicalOr), (''|'', TPipe), (''/'', TDivide)]) \<and>
     v \<noteq> [] \<and> \<not> is_letter (hd v) \<and> \<not> is_digit (hd v) \<and> hd v \<noteq> CHR '' '' \<and> hd v \<noteq> tab \<and> (hd v = CHR ''('' \<longleftrightarrow> ty = TLParen)"
    by code_simp
  from bspec[OF this assms, unfolded prod.case] show "TokenTypeMap v = Some ty"
    "length v = 1 \<and> is_single (hd v) \<or> length v = 1 \<and> hd v \<in> set ''=!<>'' \<or>
      length v = 2 \<and> v ! 1 = CHR ''='' \<and> hd v \<in> set ''=!<>'' \<or>
      (v, ty) \<in> set [(''&&'', TLogicalAnd), (''||'', TLogicalOr), (''|'', TPipe), (''/'', TDivide)]"
    "v \<noteq> [] \<and> \<not> is_letter (hd v) \<and> \<not> is_digit (hd v) \<and> hd v \<noteq> CHR '' '' \<and> hd v \<noteq> tab \<and> (hd v = CHR ''('' \<longleftrightarrow> ty = TLParen)"
    by (rule conjunct1, rule conjunct1[OF conjunct2], rule conjunct2[OF conjunct2])
qed

lemma lexes_symbol: "(v, ty) \<in> set symbols \<Longrightarrow> lexes v ty v rest"
proof -
  assume m: "(v, ty) \<in> set symbols"
  note t = symbols_cases(1)[OF m]
  from symbols_cases(2)[OF m] consider c where "v = [c]" "is_single c" | c where "v = [c]" "c \<in> set ''=!<>''"
    | c where "v = [c, CHR ''='']" "c \<in> set ''=!<>''"
    | "(v, ty) \<in> set [(''&&'', TLogicalAnd), (''||'', TLogicalOr), (''|'', TPipe), (''/'', TDivide)]"
    by (cases v; cases "tl v"; cases "tl (tl v)") auto
  then show ?thesis
  proof cases
    case (1 c)
    with t lexes_single show ?thesis by simp
  next
    case (2 c)
    with t lexes_compare(1)[of c] show ?thesis by blast
  next
    case (3 c)
    with t lexes_compare(2)[of c] show ?thesis by blast
  next
    case 4
    with lexes_others show ?thesis by auto
  qed
qed

lemma lexes_string: "lexes (token_text TStringLiteral v) TStringLiteral v rest"
  unfolding lexes_def
proof (intro allI)
  fix p acc
  obtain q where "read_string (escaped v @ quote # CHR '' '' # rest) (increment quote p) [] = Some (v, quote # CHR '' '' # rest, q)"
    using read_string_escaped[of v "CHR '' '' # rest" "increment quote p" "[]"] by auto
  then show "\<exists>p'. lex_loop (token_text TStringLiteral v @ CHR '' '' # rest) p acc = lex_loop rest p' (acc @ [token_at p v TStringLiteral])"
    by (intro exI[of _ "increment (CHR '' '') (increment quote q)"])
      (simp add: token_text_def lex_loop.simps(2)[of quote] is_blank_def is_single_def is_digit_def)
qed

lemma lexes_number:
  assumes "v \<noteq> []" "is_digit (hd v)" "read_number (v @ CHR '' '' # rest) = (v, f, CHR '' '' # rest)"
  shows "lexes v (if f then TFloatLiteral else TIntLiteral) v rest"
proof -
  obtain c cs where v: "v = c # cs" using assms(1) by (cases v) auto
  show ?thesis using assms digit_classes[of c] unfolding v
    by (intro lexesI[where f = "\<lambda>p. increment (CHR '' '') (advance (c # cs) p)"]) (simp add: lex_loop.simps(2)[of c])
qed

lemma lexes_word:
  assumes "v \<noteq> []" "is_letter (hd v)" "list_all is_ident v"
  shows "lexes v (word_type v (CHR '' '' # rest)) v rest"
proof -
  obtain c cs where v: "v = c # cs" using assms(1) by (cases v) auto
  then have "takeWhile is_ident (c # cs @ CHR '' '' # rest) = c # cs" "dropWhile is_ident (c # cs @ CHR '' '' # rest) = CHR '' '' # rest"
    using takeWhile_run[OF assms(3), of "CHR '' ''" rest] by auto
  then show ?thesis using assms letter_classes[of c] unfolding v
    by (intro lexesI[where f = "\<lambda>p. increment (CHR '' '') (advance (c # cs) p)"]) (simp add: lex_loop.simps(2)[of c] Let_def)
qed

lemma read_number_int: "number_ok v \<Longrightarrow> read_number (v @ CHR '' '' # rest) = (v, False, CHR '' '' # rest)"
  using takeWhile_run[of is_digit v "CHR '' ''" rest]
  by (simp add: number_ok_def read_number_def Let_def split: list.splits)

lemma read_number_float:
  assumes "number_ok w" "number_ok ds"
  shows "read_number ((w @ CHR ''.'' # ds) @ CHR '' '' # rest) = (w @ CHR ''.'' # ds, True, CHR '' '' # rest)"
proof -
  obtain d ds' where ds: "ds = d # ds'" "is_digit d" using assms(2) by (cases ds) (auto simp: number_ok_def)
  have "takeWhile is_digit (w @ CHR ''.'' # ds @ CHR '' '' # rest) = w"
    "dropWhile is_digit (w @ CHR ''.'' # ds @ CHR '' '' # rest) = CHR ''.'' # ds @ CHR '' '' # rest"
    using takeWhile_run[of is_digit w "CHR ''.''" "ds @ CHR '' '' # rest"] assms(1) by (simp_all add: number_ok_def)
  moreover have "takeWhile is_digit (ds @ CHR '' '' # rest) = ds" "dropWhile is_digit (ds @ CHR '' '' # rest) = CHR '' '' # rest"
    using takeWhile_run[of is_digit ds "CHR '' ''" rest] assms(2) by (simp_all add: number_ok_def)
  ultimately show ?thesis using ds by (simp add: read_number_def Let_def)
qed

lemma token_okE:
  assumes "token_ok ty v ts"
  obtains (str) "ty = TStringLiteral" | (int) "ty = TIntLiteral" "number_ok v"
  | (float) w ds where "ty = TFloatLiteral" "v = w @ CHR ''.'' # ds" "number_ok w" "number_ok ds"
  | (word) "ty \<noteq> TStringLiteral" "v \<noteq> []" "is_letter (hd v)" "list_all is_ident v"
      "ty = (if v \<in> {''string'', ''int'', ''float''} \<and> ts \<noteq> [] \<and> fst (hd ts) = TLParen then TIdentifier
              else case TokenTypeMap v of Some t \<Rightarrow> t | None \<Rightarrow> TIdentifier)"
  | (symbol) "ty \<noteq> TStringLiteral" "(v, ty) \<in> set symbols"
proof -
  consider "ty = TStringLiteral" | "ty = TIntLiteral" | "ty = TFloatLiteral"
    | "ty \<noteq> TStringLiteral" "ty \<noteq> TIntLiteral" "ty \<noteq> TFloatLiteral" "v \<noteq> [] \<and> is_letter (hd v)"
    | "ty \<noteq> TStringLiteral" "ty \<noteq> TIntLiteral" "ty \<noteq> TFloatLiteral" "\<not> (v \<noteq> [] \<and> is_letter (hd v))" by blast
  then show thesis
  proof cases
    case 3
    then obtain ds where "number_ok (takeWhile is_digit v)" "dropWhile is_digit v = CHR ''.'' # ds" "number_ok ds"
      using assms by (auto simp: token_ok_def split: list.splits)
    moreover from this have "v = takeWhile is_digit v @ CHR ''.'' # ds" by (metis takeWhile_dropWhile_id)
    ultimately show thesis using 3 float by blast
  qed (use assms str int word symbol in \<open>simp_all add: token_ok_def\<close>)
qed

lemma keyword_types: "TokenTypeMap v = Some ty \<Longrightarrow> is_letter (hd v) \<Longrightarrow> ty \<noteq> TLParen"
proof -
  assume "TokenTypeMap v = Some ty"
  then have m: "(v, ty) \<in> set token_table" by (auto simp: TokenTypeMap_def dest: map_of_SomeD)
  have "\<forall>(v, ty)\<in>set token_table. is_letter (hd v) \<longrightarrow> ty \<noteq> TLParen" by code_simp
  from bspec[OF this m] show "is_letter (hd v) \<Longrightarrow> ty \<noteq> TLParen" by simp
qed

text \<open>The character a printed token starts with tells whether the token is an opening parenthesis.\<close>

lemma token_text_hd:
  assumes "token_ok ty v ts"
  shows "token_text ty v \<noteq> [] \<and> hd (token_text ty v) \<noteq> CHR '' '' \<and> hd (token_text ty v) \<noteq> tab \<and>
    (hd (token_text ty v) = CHR ''('' \<longleftrightarrow> ty = TLParen)"
  using assms
proof (cases rule: token_okE)
  case int
  then show ?thesis by (cases v) (auto simp: token_text_def number_ok_def is_digit_def)
next
  case (float w ds)
  then show ?thesis by (cases w) (auto simp: token_text_def number_ok_def is_digit_def)
next
  case word
  then have "ty \<noteq> TLParen" using keyword_types[of v] by (auto split: if_splits option.splits)
  moreover have "hd v \<noteq> CHR '' ''" "hd v \<noteq> tab" "hd v \<noteq> CHR ''(''"
    using letter_classes[OF word(3)] by (auto simp: is_blank_def is_single_def)
  ultimately show ?thesis using word(1,2) by (simp add: token_text_def)
next
  case symbol
  then show ?thesis using symbols_cases(3)[OF symbol(2)] by (simp add: token_text_def)
qed (simp add: token_text_def)

lemma word_type_token:
  assumes "lexable ts"
  shows "word_type v (CHR '' '' # print_tokens ts) =
    (if v \<in> {''string'', ''int'', ''float''} \<and> ts \<noteq> [] \<and> fst (hd ts) = TLParen then TIdentifier
     else case TokenTypeMap v of Some t \<Rightarrow> t | None \<Rightarrow> TIdentifier)"
proof (cases "v \<in> {''string'', ''int'', ''float''}")
  case True
  then obtain t where t: "TokenTypeMap v = Some t" by (auto simp: TokenTypeMap_def token_table_def)
  show ?thesis
  proof (cases ts)
    case Nil
    then show ?thesis using True t by (simp add: word_type_def print_tokens_def)
  next
    case (Cons u us)
    obtain ty w where u: "u = (ty, w)" by (cases u)
    with Cons assms have hd: "token_text ty w \<noteq> []" "hd (token_text ty w) \<noteq> CHR '' ''" "hd (token_text ty w) \<noteq> tab"
      "hd (token_text ty w) = CHR ''('' \<longleftrightarrow> ty = TLParen"
      using token_text_hd[of ty w us] by auto
    then obtain c cs where c: "token_text ty w = c # cs" by (cases "token_text ty w") auto
    then have "print_tokens ts = c # (cs @ CHR '' '' # print_tokens us)" using Cons u by (simp add: print_tokens_def)
    moreover have "c \<noteq> CHR '' ''" "c \<noteq> tab" "c = CHR ''('' \<longleftrightarrow> ty = TLParen" using hd c by simp_all
    ultimately show ?thesis using True t Cons u by (simp add: word_type_def)
  qed
qed (simp add: word_type_def)

lemma lexes_token:
  assumes "token_ok ty v ts" "lexable ts"
  shows "lexes (token_text ty v) ty v (print_tokens ts)"
  using assms(1)
proof (cases rule: token_okE)
  case str
  then show ?thesis by (simp add: lexes_string)
next
  case int
  then have "v \<noteq> []" "is_digit (hd v)" by (cases v; auto simp: number_ok_def)+
  from lexes_number[OF this read_number_int[OF int(2)]] int(1) show ?thesis by (simp add: token_text_def)
next
  case (float w ds)
  then have "v \<noteq> []" "is_digit (hd v)" by (cases w; auto simp: number_ok_def)+
  from lexes_number[OF this read_number_float[OF float(3,4), folded float(2)]] float(1)
  show ?thesis by (simp add: token_text_def)
next
  case word
  from lexes_word[OF word(2-4), of "print_tokens ts"] word(1,5) show ?thesis
    unfolding word_type_token[OF assms(2)] by (simp add: token_text_def)
next
  case symbol
  then show ?thesis using lexes_symbol by (simp add: token_text_def)
qed

lemma lex_loop_print:
  "lexable ts \<Longrightarrow> \<exists>toks. lex_loop (print_tokens ts) p acc = Some (acc @ toks, None) \<and> map token_pair toks = ts"
proof (induction ts arbitrary: p acc)
  case (Cons t ts)
  obtain ty v where t: "t = (ty, v)" by (cases t)
  have ok: "token_ok ty v ts" "lexable ts" using Cons.prems t by simp_all
  then obtain p' where "lex_loop (token_text ty v @ CHR '' '' # print_tokens ts) p acc = lex_loop (print_tokens ts) p' (acc @ [token_at p v ty])"
    using lexes_token[OF ok] unfolding lexes_def by blast
  moreover obtain toks where "lex_loop (print_tokens ts) p' (acc @ [token_at p v ty]) = Some ((acc @ [token_at p v ty]) @ toks, None)"
    "map token_pair toks = ts"
    using Cons.IH[OF ok(2)] by blast
  ultimately show ?case using t
    by (intro exI[of _ "token_at p v ty # toks"]) (simp add: print_tokens_def)
qed (simp add: print_tokens_def lex_loop.simps(1))

text \<open>
  Lexing is the inverse of printing: the types and values of any list of tokens that the lexer
  can produce at all are read back, without an error, from the text that prints them one after the
  other, whatever strings (quotes, backslashes and newlines included) the literals hold.
\<close>

theorem Lex_print:
  assumes "lexable ts" "ts \<noteq> []"
  shows "\<exists>toks. Lex (print_tokens ts) = Some (toks, None) \<and> map token_pair toks = ts"
proof -
  obtain t us where ts: "ts = t # us" using assms(2) by (cases ts) auto
  have "print_tokens ts \<noteq> []" by (cases t) (simp add: ts print_tokens_def)
  then show ?thesis using lex_loop_print[OF assms(1), of "(0, 0)" "[]"] by (simp add: Lex_def)
qed

theorem Lex_print_witness:
  "\<exists>toks. Lex (print_tokens [(TInt, ''int''), (TIdentifier, ''x''), (TAssign, ''=''), (TIdentifier, ''int''), (TLParen, ''(''),
       (TStringLiteral, ''a\"b''), (TRParen, '')''), (TSemicolon, '';'')]) = Some (toks, None) \<and>
     map token_pair toks = [(TInt, ''int''), (TIdentifier, ''x''), (TAssign, ''=''), (TIdentifier, ''int''), (TLParen, ''(''),
       (TStringLiteral, ''a\"b''), (TRParen, '')''), (TSemicolon, '';'')]"
proof (rule Lex_print)
  show "lexable [(TInt, ''int''), (TIdentifier, ''x''), (TAssign, ''=''), (TIdentifier, ''int''), (TLParen, ''(''),
       (TStringLiteral, ''a\"b''), (TRParen, '')''), (TSemicolon, '';'')]"
    by code_simp
qed simp

end
