(* ===== verification/Marigold_Printer.thy ===== *)
theory Marigold_Printer
  imports Marigold_Parsing Marigold_Lexer
begin

text \<open>
  Printing syntax trees as Marigold source, with parentheses only where the precedence of the operators
  asks for them, and the round trip: the parser reads the printed tokens back as the same tree, and with
  the lexer in front, the printed text.
\<close>

section \<open>Printing\<close>

definition symbol :: "TokenType \<Rightarrow> TokenType \<times> string" where
  "symbol t = (t, case find (\<lambda>(v, t'). t' = t) token_table of Some (v, _) \<Rightarrow> v | None \<Rightarrow> [])"

text \<open>
  The levels of the grammar, from the loosest binding on: the operators of level \<open>0\<close> to \<open>4\<close> associate
  to the left, the one of level \<open>5\<close> to the right; level \<open>6\<close> are the prefix operators and \<open>7\<close> the rest.
\<close>

definition op_level :: "TokenType \<Rightarrow> nat option" where
  "op_level t = (case t of
      TLogicalOr \<Rightarrow> Some 0 | TLogicalAnd \<Rightarrow> Some 1
    | TEqual \<Rightarrow> Some 2 | TNotEqual \<Rightarrow> Some 2 | TLessThan \<Rightarrow> Some 2 | TLessEqual \<Rightarrow> Some 2 | TGreaterThan \<Rightarrow> Some 2 | TGreaterEqual \<Rightarrow> Some 2
    | TPlus \<Rightarrow> Some 3 | TMinus \<Rightarrow> Some 3
    | TMultiply \<Rightarrow> Some 4 | TDivide \<Rightarrow> Some 4 | TModulo \<Rightarrow> Some 4
    | TExponent \<Rightarrow> Some 5
    | _ \<Rightarrow> None)"

definition parens :: "bool \<Rightarrow> (TokenType \<times> string) list \<Rightarrow> (TokenType \<times> string) list" where
  "parens b ts = (if b then symbol TLParen # ts @ [symbol TRParen] else ts)"

definition call_token :: "string \<Rightarrow> TokenType \<times> string" where
  "call_token name =
     (if name = ''len'' then TLen else if name = ''emit'' then TEmit else if name = ''stop'' then TStop
      else if name = ''assert'' then TAssert else TIdentifier, name)"

definition literal_token :: "TokenType \<Rightarrow> TokenType" where
  "literal_token t = (case t of TInt \<Rightarrow> TIntLiteral | TFloat \<Rightarrow> TFloatLiteral | TString \<Rightarrow> TStringLiteral | _ \<Rightarrow> TBoolLiteral)"

fun commas :: "(TokenType \<times> string) list list \<Rightarrow> (TokenType \<times> string) list" where
  "commas [] = []"
| "commas [x] = x"
| "commas (x # xs) = x @ symbol TComma # commas xs"

fun print_expr :: "nat \<Rightarrow> Expression \<Rightarrow> (TokenType \<times> string) list" where
  "print_expr l (BinaryExpr op a b) =
     (let k = (case op_level op of Some k \<Rightarrow> k | None \<Rightarrow> 0) in
      parens (k < l) (print_expr (if k = 5 then 6 else k) a @ symbol op #
        (case b of Some b \<Rightarrow> print_expr (if k = 5 then 5 else Suc k) b | None \<Rightarrow> [])))"
| "print_expr l (UnaryExpr op a) = parens (6 < l) (symbol op # (case a of Some a \<Rightarrow> print_expr 6 a | None \<Rightarrow> []))"
| "print_expr l (CallExpr name args) = call_token name # symbol TLParen # commas (map (print_expr 0) args) @ [symbol TRParen]"
| "print_expr l (IdentifierExpr x) = [(TIdentifier, x)]"
| "print_expr l (LiteralExpr t v) = [(literal_token t, v)]"
| "print_expr l (ArrayLiteral es) = symbol TLSquare # commas (map (print_expr 0) es) @ [symbol TRSquare]"
| "print_expr l MapLiteral = [symbol TLBrace, symbol TRBrace]"
| "print_expr l (IndexExpr e i) = print_expr 7 e @ symbol TLSquare # print_expr 0 i @ [symbol TRSquare]"
| "print_expr l (SliceExpr e i j) = print_expr 7 e @ symbol TLSquare #
     (case i of Some i \<Rightarrow> print_expr 0 i | None \<Rightarrow> []) @ symbol TColon # (case j of Some j \<Rightarrow> print_expr 0 j | None \<Rightarrow> []) @ [symbol TRSquare]"

text \<open>The trees that the parser can return.\<close>

fun is_name :: "Expression \<Rightarrow> bool" where
  "is_name (IdentifierExpr x) = True"
| "is_name _ = False"

fun printable :: "Expression \<Rightarrow> bool" where
  "printable (BinaryExpr op a b) \<longleftrightarrow> op_level op \<noteq> None \<and> printable a \<and> (case b of Some b \<Rightarrow> printable b | None \<Rightarrow> False)"
| "printable (UnaryExpr op a) \<longleftrightarrow> (op = TMinus \<or> op = TNot) \<and> (case a of Some a \<Rightarrow> printable a | None \<Rightarrow> False)"
| "printable (CallExpr name args) \<longleftrightarrow> list_all printable args"
| "printable (IdentifierExpr x) \<longleftrightarrow> True"
| "printable (LiteralExpr t v) \<longleftrightarrow> t = TInt \<or> t = TFloat \<or> t = TString \<or> t = TBool"
| "printable (ArrayLiteral es) \<longleftrightarrow> list_all printable es"
| "printable MapLiteral \<longleftrightarrow> True"
| "printable (IndexExpr e i) \<longleftrightarrow> is_name e \<and> printable i"
| "printable (SliceExpr e i j) \<longleftrightarrow> is_name e \<and> (i \<noteq> None \<or> j \<noteq> None) \<and>
     (case i of Some i \<Rightarrow> printable i | None \<Rightarrow> True) \<and> (case j of Some j \<Rightarrow> printable j | None \<Rightarrow> True)"

section \<open>Reading expressions back\<close>

text \<open>The parser of a level, and its operators.\<close>

fun parse_level :: "nat \<Rightarrow> Token list \<Rightarrow> Expression option parsed" where
  "parse_level l ts =
     (if l = 0 then parseLogicalOr parseExpression ts else if l = 1 then parseLogicalAnd parseExpression ts
      else if l = 2 then parseRelational parseExpression ts else if l = 3 then parseAdditive parseExpression ts
      else if l = 4 then parseTerm parseExpression ts else if l = 5 then parsePower parseExpression ts
      else if l = 6 then parseFactor parseExpression ts else parseAtom parseExpression ts)"

declare parse_level.simps [simp del]

definition ops_at :: "nat \<Rightarrow> TokenType \<Rightarrow> bool" where
  "ops_at l t \<longleftrightarrow> op_level t = Some l"

lemma ops_at_eq:
  "(\<lambda>t. t = TLogicalOr) = ops_at 0" "(\<lambda>t. t = TLogicalAnd) = ops_at 1" "isRelationalOp = ops_at 2"
  "(\<lambda>t. t = TPlus \<or> t = TMinus) = ops_at 3" "(\<lambda>t. t = TMultiply \<or> t = TDivide \<or> t = TModulo) = ops_at 4"
  by (auto simp: fun_eq_iff ops_at_def op_level_def isRelationalOp_def split: TokenType.splits)

lemma parse_level_left: "l < 5 \<Longrightarrow> parse_level l ts = parse_left (parse_level (Suc l)) (ops_at l) ts"
proof -
  assume "l < 5"
  then consider "l = 0" | "l = 1" | "l = 2" | "l = 3" | "l = 4" by linarith
  moreover have "parse_level 1 = parseLogicalAnd parseExpression" "parse_level 2 = parseRelational parseExpression"
    "parse_level 3 = parseAdditive parseExpression" "parse_level 4 = parseTerm parseExpression" "parse_level 5 = parsePower parseExpression"
    by (simp_all add: fun_eq_iff parse_level.simps)
  ultimately show ?thesis
    by cases (simp_all add: parse_level.simps[of _ ts] parseLogicalOr_def parseLogicalAnd_def parseRelational_def parseAdditive_def
      parseTerm_def ops_at_eq numeral_eq_Suc)
qed

lemma parse_level_eats: "eats (length ts) (parse_level l ts)"
  using expressions.parseLogicalOr_eats[of ts "length ts"] expressions.parseLogicalAnd_eats[of ts "length ts"]
    expressions.parseRelational_eats[of ts "length ts"] expressions.parseAdditive_eats[of ts "length ts"]
    expressions.parseTerm_eats[of ts "length ts"] expressions.parsePower_eats[of ts "length ts"]
    expressions.parseFactor_eats[of ts "length ts"] expressions.atom_eats[of ts "length ts"]
  by (simp add: parse_level.simps)

text \<open>What may follow an expression of a level: nothing that the parser would take for a part of it.\<close>

definition follow :: "nat \<Rightarrow> Token list \<Rightarrow> bool" where
  "follow l ts \<longleftrightarrow> (case ts of [] \<Rightarrow> True
     | t # _ \<Rightarrow> tok_Type t \<noteq> TLParen \<and> tok_Type t \<noteq> TLSquare \<and> (\<forall>k. op_level (tok_Type t) = Some k \<longrightarrow> k < l))"

lemma follow_mono: "follow l ts \<Longrightarrow> l \<le> m \<Longrightarrow> follow m ts"
  by (fastforce simp: follow_def split: list.splits)

lemma follow_simps [simp]: "follow l []"
  "follow l (t # ts) \<longleftrightarrow> tok_Type t \<noteq> TLParen \<and> tok_Type t \<noteq> TLSquare \<and> (\<forall>k. op_level (tok_Type t) = Some k \<longrightarrow> k < l)"
  by (simp_all add: follow_def)

definition loop :: "nat \<Rightarrow> Expression \<Rightarrow> Token list \<Rightarrow> Expression option parsed" where
  "loop l = operators (parse_level (Suc l)) (ops_at l)"

lemma loop_eq: "loop l left ts = (case ts of
      op # ts' \<Rightarrow>
        if ops_at l (tok_Type op)
        then and_then (parse_level (Suc l) ts') (\<lambda>right ts. loop l (BinaryExpr (tok_Type op) left right) ts)
        else Parsed (Some left) ts
    | [] \<Rightarrow> Parsed (Some left) [])"
  unfolding loop_def by (rule operators_eq[OF parse_level_eats])

lemma loop_stops: "follow l ts \<Longrightarrow> loop l e ts = Parsed (Some e) ts"
  by (auto simp: loop_eq[of _ _ ts] ops_at_def split: list.splits)

text \<open>From the atoms up to a level: an operand followed by what may follow at the level.\<close>

lemma level_up: "l < 5 \<Longrightarrow> parse_level (Suc l) ts = Parsed (Some e) r \<Longrightarrow> parse_level l ts = loop l e r"
  by (simp add: parse_level_left parse_left_def if_some_def loop_def operators_def del: parse_operators.simps)

lemma level_5: "parse_level 6 ts = Parsed (Some e) r \<Longrightarrow> follow 5 r \<Longrightarrow> parse_level 5 ts = Parsed (Some e) r"
  using parsePower_eq[of ts] by (auto simp: parse_level.simps if_some_def op_level_def split: list.splits)

lemma level_6: "parse_level 7 ts = Parsed (Some e) r \<Longrightarrow> \<not> next_is TMinus ts \<Longrightarrow> \<not> next_is TNot ts \<Longrightarrow> parse_level 6 ts = Parsed (Some e) r"
  using parseFactor_eq[of ts] by (auto simp: parse_level.simps next_is_def split: list.splits)

lemma levels_up: "parse_level m ts = Parsed (Some e) r \<Longrightarrow> l < m \<Longrightarrow> m \<le> 5 \<Longrightarrow> follow (Suc l) r \<Longrightarrow> parse_level l ts = loop l e r"
proof (induction m)
  case (Suc m)
  show ?case
  proof (cases "l = m")
    case False
    have "parse_level m ts = loop m e r" using Suc.prems by (intro level_up) simp_all
    also have "\<dots> = Parsed (Some e) r" using Suc.prems False by (intro loop_stops) (auto intro: follow_mono)
    finally show ?thesis using Suc False by simp
  qed (use Suc.prems in \<open>simp add: level_up\<close>)
qed simp

text \<open>The tokens \<open>ts\<close> are read at level \<open>l\<close> as \<open>e\<close> up to \<open>rest\<close>.\<close>

definition reads :: "nat \<Rightarrow> Expression \<Rightarrow> Token list \<Rightarrow> Token list \<Rightarrow> bool" where
  "reads l e ts rest \<longleftrightarrow> (l < 5 \<longrightarrow> follow (Suc l) rest \<longrightarrow> parse_level l ts = loop l e rest) \<and>
     (follow l rest \<longrightarrow> parse_level l ts = Parsed (Some e) rest)"

lemma reads_Parsed: "reads l e ts rest \<Longrightarrow> follow l rest \<Longrightarrow> parse_level l ts = Parsed (Some e) rest"
  by (simp add: reads_def)

lemma reads_5: "reads 6 e ts rest \<Longrightarrow> reads 5 e ts rest"
  using level_5[of ts e rest] follow_mono[of 5 rest 6] by (simp add: reads_def)

lemma reads_below: "reads m e ts rest \<Longrightarrow> l \<le> m \<Longrightarrow> m \<le> 5 \<Longrightarrow> reads l e ts rest"
proof (cases "l = m")
  case False
  assume m: "reads m e ts rest" "l \<le> m" "m \<le> 5"
  then have "parse_level l ts = loop l e rest" if "follow (Suc l) rest"
    using False that reads_Parsed[OF m(1) follow_mono[OF that]] by (intro levels_up) auto
  then show ?thesis using False m follow_mono[of l rest "Suc l"] by (auto simp: reads_def loop_stops)
qed simp

lemma reads_down: "reads m e ts rest \<Longrightarrow> l \<le> m \<Longrightarrow> m \<le> 6 \<Longrightarrow> reads l e ts rest"
  using reads_5[of e ts rest] reads_below[of m e ts rest l] reads_below[of 5 e ts rest l]
  by (cases "m = 6"; cases "l = 6") auto

lemma reads_atom: "parse_level 7 ts = Parsed (Some e) rest \<Longrightarrow> \<not> next_is TMinus ts \<Longrightarrow> \<not> next_is TNot ts \<Longrightarrow> l \<le> 7 \<Longrightarrow> reads l e ts rest"
proof (cases "l = 7")
  case False
  assume "parse_level 7 ts = Parsed (Some e) rest" "\<not> next_is TMinus ts" "\<not> next_is TNot ts" "l \<le> 7"
  moreover from this have "reads 6 e ts rest" using level_6 by (simp add: reads_def)
  ultimately show ?thesis using False reads_down[of 6 e ts rest l] by simp
qed (simp add: reads_def)

lemma parseExpression_reads: "reads 0 e ts rest \<Longrightarrow> follow 0 rest \<Longrightarrow> parseExpression ts = Parsed (Some e) rest"
  using reads_Parsed[of 0 e ts rest] parseExpression_eq[of ts] by (simp add: parse_level.simps)

text \<open>The tokens that print an expression are read as that expression.\<close>

definition reads_back :: "Expression \<Rightarrow> bool" where
  "reads_back e \<longleftrightarrow> (\<forall>l ts rest. l \<le> 7 \<longrightarrow> map token_pair ts = print_expr l e \<longrightarrow> follow 7 rest \<longrightarrow> reads l e (ts @ rest) rest)"

lemma reads_backD: "reads_back e \<Longrightarrow> map token_pair ts = print_expr l e \<Longrightarrow> l \<le> 7 \<Longrightarrow> follow 7 rest \<Longrightarrow> reads l e (ts @ rest) rest"
  by (simp add: reads_back_def)

lemma parseExpression_back:
  "reads_back e \<Longrightarrow> map token_pair ts = print_expr 0 e \<Longrightarrow> follow 0 rest \<Longrightarrow> parseExpression (ts @ rest) = Parsed (Some e) rest"
  using reads_backD[of e ts 0 rest] follow_mono[of 0 rest 7] by (simp add: parseExpression_reads)

text \<open>Tokens by their pairs.\<close>

lemma token_pair_iff: "token_pair t = (ty, v) \<longleftrightarrow> tok_Type t = ty \<and> tok_Value t = v"
  by (auto simp: token_pair_def)

lemma token_pair_symbol: "token_pair t = symbol ty \<Longrightarrow> tok_Type t = ty"
  by (auto simp: token_pair_def symbol_def)

lemma pairs_Cons: "map token_pair ts = p # ps \<longleftrightarrow> (\<exists>t ts'. ts = t # ts' \<and> token_pair t = p \<and> map token_pair ts' = ps)"
  by (cases ts) auto

lemma pairs_append: "map token_pair ts = ps @ qs \<longleftrightarrow> (\<exists>us vs. ts = us @ vs \<and> map token_pair us = ps \<and> map token_pair vs = qs)"
  by (auto simp: map_eq_append_conv)

lemma consumeAssert_hit [simp]: "tok_Type t = ty \<Longrightarrow> consumeAssert ty (t # ts) = Parsed t ts"
  by (simp add: consumeAssert_def)

lemma next_is_simps [simp]: "next_is ty (t # ts) \<longleftrightarrow> tok_Type t = ty" "\<not> next_is ty []"
  by (simp_all add: next_is_def)

lemma consumeIf_simps [simp]: "consumeIf ty [] = []" "consumeIf ty (t # ts) = (if tok_Type t = ty then ts else t # ts)"
  by (simp_all add: consumeIf_def)

lemma if_some_simps [simp]: "if_some (Parsed None r) f = Parsed None r" "if_some (Parsed (Some x) r) f = f x r"
  by (simp_all add: if_some_def)

lemma must_simps [simp]: "must (Parsed (Some x) r) f = f x r"
  by (simp add: must_def)

lemma op_level_le: "op_level t = Some k \<Longrightarrow> k \<le> 5"
  by (auto simp: op_level_def split: TokenType.splits)

lemma op_level_none [simp]: "op_level TRParen = None" "op_level TRSquare = None" "op_level TComma = None" "op_level TColon = None"
    "op_level TLParen = None" "op_level TLSquare = None" "op_level TLBrace = None" "op_level TRBrace = None"
  by (simp_all add: op_level_def)

lemma reads_parens:
  assumes raw: "\<And>us rest. map token_pair us = ps \<Longrightarrow> follow 7 rest \<Longrightarrow> reads 0 e (us @ rest) rest"
    and ts: "map token_pair ts = symbol TLParen # ps @ [symbol TRParen]" and l: "l \<le> 7"
  shows "reads l e (ts @ rest) rest"
proof -
  obtain t1 us t2 where split: "ts = t1 # us @ [t2]" "token_pair t1 = symbol TLParen" "map token_pair us = ps" "token_pair t2 = symbol TRParen"
    using ts by (auto simp: pairs_Cons pairs_append)
  then have ty: "tok_Type t1 = TLParen" "tok_Type t2 = TRParen" by (auto dest: token_pair_symbol)
  have "parseExpression (us @ t2 # rest) = Parsed (Some e) (t2 # rest)"
    using parseExpression_reads[OF raw[OF split(3), of "t2 # rest"]] ty by simp
  then show ?thesis using split(1) ty l
    by (intro reads_atom) (simp_all add: parse_level.simps parseAtom_def literal_type_def)
qed

lemma reads_parenthesised:
  assumes raw: "\<And>us rest. map token_pair us = ps \<Longrightarrow> follow 7 rest \<Longrightarrow> reads k e (us @ rest) rest" and k: "k \<le> 6"
    and ts: "map token_pair ts = parens (k < l) ps" and l: "l \<le> 7" and rest: "follow 7 rest"
  shows "reads l e (ts @ rest) rest"
proof (cases "k < l")
  case True
  then have p: "map token_pair ts = symbol TLParen # ps @ [symbol TRParen]" using ts by (simp add: parens_def)
  have "reads 0 e (us @ r) r" if "map token_pair us = ps" "follow 7 r" for us r
    using reads_down[OF raw[OF that]] k by simp
  then show ?thesis using p l by (rule reads_parens)
next
  case False
  then show ?thesis using reads_down[OF raw[of ts rest], of l] ts rest k by (simp add: parens_def)
qed

lemma reads_binary:
  assumes a: "reads_back a" and b: "reads_back b" and op: "op_level op = Some k"
  shows "reads_back (BinaryExpr op a (Some b))"
  unfolding reads_back_def
proof (intro allI impI)
  fix l ts rest assume l: "l \<le> 7" and ts: "map token_pair ts = print_expr l (BinaryExpr op a (Some b))" and rest: "follow 7 rest"
  let ?raw = "print_expr (if k = 5 then 6 else k) a @ symbol op # print_expr (if k = 5 then 5 else Suc k) b"
  have k: "k \<le> 5" using op_level_le[OF op] .
  have o_ok: "op \<noteq> TLParen" "op \<noteq> TLSquare" using op by auto
  show "reads l (BinaryExpr op a (Some b)) (ts @ rest) rest"
  proof (rule reads_parenthesised[where k = k and ps = ?raw])
    fix us r assume us: "map token_pair us = ?raw" and r: "follow 7 r"
    then obtain xs t ys where split: "us = xs @ t # ys" "map token_pair xs = print_expr (if k = 5 then 6 else k) a"
      "token_pair t = symbol op" "map token_pair ys = print_expr (if k = 5 then 5 else Suc k) b"
      by (auto simp: pairs_append pairs_Cons)
    have t: "tok_Type t = op" using token_pair_symbol[OF split(3)] .
    have after: "follow 7 (t # ys @ r)" using t op o_ok k by simp
    have ra: "reads (if k = 5 then 6 else k) a (xs @ t # ys @ r) (t # ys @ r)" using k after by (intro reads_backD[OF a split(2)]) auto
    have rb: "reads (if k = 5 then 5 else Suc k) b (ys @ r) r" using k r by (intro reads_backD[OF b split(4)]) auto
    show "reads k (BinaryExpr op a (Some b)) (us @ r) r"
    proof (cases "k = 5")
      case True
      have "parse_level 6 (xs @ t # ys @ r) = Parsed (Some a) (t # ys @ r)" using ra True t op o_ok by (intro reads_Parsed) auto
      moreover have "op = TExponent" using op True by (auto simp: op_level_def split: TokenType.splits)
      ultimately show ?thesis using True t split(1) reads_Parsed[OF rb] parsePower_eq[of "xs @ t # ys @ r"]
        by (auto simp: reads_def parse_level.simps)
    next
      case False
      have "parse_level k (xs @ t # ys @ r) = loop k a (t # ys @ r)" using ra False t op o_ok k by (auto simp: reads_def)
      also have "\<dots> = loop k (BinaryExpr op a (Some b)) r" if "follow (Suc k) r"
        using reads_Parsed[OF rb] that False t op by (simp add: loop_eq[of k a] ops_at_def)
      finally show ?thesis using False k split(1) follow_mono[of k r "Suc k"] by (auto simp: reads_def loop_stops)
    qed
  qed (use k l rest ts op in \<open>simp_all add: Let_def\<close>)
qed

lemma reads_unary:
  assumes a: "reads_back a" and op: "op = TMinus \<or> op = TNot"
  shows "reads_back (UnaryExpr op (Some a))"
  unfolding reads_back_def
proof (intro allI impI)
  fix l ts rest assume l: "l \<le> 7" and ts: "map token_pair ts = print_expr l (UnaryExpr op (Some a))" and rest: "follow 7 rest"
  show "reads l (UnaryExpr op (Some a)) (ts @ rest) rest"
  proof (rule reads_parenthesised[where k = 6 and ps = "symbol op # print_expr 6 a"])
    fix us r assume "map token_pair us = symbol op # print_expr 6 a" and r: "follow 7 r"
    then obtain t ys where split: "us = t # ys" "token_pair t = symbol op" "map token_pair ys = print_expr 6 a" by (auto simp: pairs_Cons)
    have "parse_level 6 (ys @ r) = Parsed (Some a) r" if "follow 6 r"
      using reads_Parsed[OF reads_backD[OF a split(3) _ r]] that by simp
    then show "reads 6 (UnaryExpr op (Some a)) (us @ r) r"
      using op split(1) token_pair_symbol[OF split(2)] parseFactor_eq[of "t # ys @ r"] by (auto simp: reads_def parse_level.simps)
  qed (use l rest ts in simp_all)
qed

text \<open>The tokens an expression starts with.\<close>

definition starters :: "TokenType set" where
  "starters = {TLParen, TMinus, TNot, TIdentifier, TLen, TEmit, TStop, TAssert, TIntLiteral, TFloatLiteral, TStringLiteral, TBoolLiteral,
     TLSquare, TLBrace}"

lemma fst_symbol [simp]: "fst (symbol t) = t"
  by (simp add: symbol_def)

lemma print_expr_start: "printable e \<Longrightarrow> print_expr l e \<noteq> [] \<and> fst (hd (print_expr l e)) \<in> starters"
proof (induction e arbitrary: l)
  case (BinaryExpr op a b)
  then show ?case by (auto simp: parens_def Let_def starters_def)
next
  case (IndexExpr e i)
  then show ?case by (cases e) (auto simp: starters_def)
next
  case (SliceExpr e i j)
  then show ?case by (cases e) (auto simp: starters_def)
qed (auto simp: parens_def starters_def call_token_def literal_token_def split: TokenType.splits)

lemma tokens_start:
  assumes "map token_pair ts = print_expr l e" "printable e"
  obtains t ts' where "ts = t # ts'" "tok_Type t \<in> starters"
proof -
  obtain t ts' where "ts = t # ts'" using print_expr_start[OF assms(2), of l] assms(1) by (cases ts) auto
  then show thesis using that print_expr_start[OF assms(2), of l] unfolding assms(1)[symmetric] by (simp add: token_pair_def)
qed

lemma commas_tokens:
  assumes "map token_pair ts = commas (p # ps) @ [symbol close]"
  obtains xs t ys where "ts = xs @ t # ys" "map token_pair xs = p"
    "ps = [] \<and> ys = [] \<and> tok_Type t = close \<or> ps \<noteq> [] \<and> tok_Type t = TComma \<and> map token_pair ys = commas ps @ [symbol close]"
proof (cases ps)
  case Nil
  then obtain xs t where "ts = xs @ [t]" "map token_pair xs = p" "token_pair t = symbol close"
    using assms by (auto simp: pairs_append pairs_Cons)
  then show thesis using that[of xs t "[]"] Nil token_pair_symbol by simp
next
  case (Cons q qs)
  then have "map token_pair ts = p @ symbol TComma # (commas ps @ [symbol close])" using assms by simp
  then obtain xs t ys where "ts = xs @ t # ys" "map token_pair xs = p" "token_pair t = symbol TComma" "map token_pair ys = commas ps @ [symbol close]"
    unfolding pairs_append pairs_Cons by blast
  then show thesis using that[of xs t ys] Cons token_pair_symbol[of t TComma] by simp
qed

lemma arguments_back:
  assumes "\<forall>e\<in>set es. reads_back e \<and> printable e" "map token_pair ts = commas (map (print_expr 0) es) @ [symbol TRParen]"
  shows "parse_arguments parseExpression (Suc (length (ts @ rest))) name args (ts @ rest) = Parsed (Some (CallExpr name (args @ es))) rest"
  using assms
proof (induction es arbitrary: ts args)
  case Nil
  then obtain t where "ts = [t]" "tok_Type t = TRParen" by (auto simp: pairs_Cons dest: token_pair_symbol)
  then show ?case by simp
next
  case (Cons e es)
  obtain xs t ys where split: "ts = xs @ t # ys" "map token_pair xs = print_expr 0 e"
    "es = [] \<and> ys = [] \<and> tok_Type t = TRParen \<or>
     es \<noteq> [] \<and> tok_Type t = TComma \<and> map token_pair ys = commas (map (print_expr 0) es) @ [symbol TRParen]"
    using commas_tokens[OF Cons.prems(2)[unfolded list.map]] by (metis map_is_Nil_conv)
  have e: "reads_back e" "printable e" using Cons.prems by simp_all
  have parse: "parseExpression (xs @ t # ys @ rest) = Parsed (Some e) (t # ys @ rest)"
    using split(3) by (intro parseExpression_back[OF e(1) split(2)]) auto
  obtain x xs' where x: "xs = x # xs'" "tok_Type x \<in> starters" using tokens_start[OF split(2) e(2)] .
  then have first: "\<not> next_is TRParen (xs @ t # ys @ rest)" by (auto simp: starters_def)
  show ?case
  proof (cases es)
    case Nil
    then show ?thesis using parse first split by (subst arguments_eq) (simp del: parse_arguments.simps, simp)
  next
    case Cons': (Cons e' es')
    have "parse_arguments parseExpression (Suc (length (ys @ rest))) name (args @ [e]) (ys @ rest) = Parsed (Some (CallExpr name ((args @ [e]) @ es))) rest"
      using Cons.prems split(3) Cons' by (intro Cons.IH) auto
    then show ?thesis using parse first split Cons' by (subst arguments_eq) (simp del: parse_arguments.simps)
  qed
qed

lemma elements_back:
  assumes "\<forall>e\<in>set es. reads_back e" "map token_pair ts = commas (map (print_expr 0) es) @ [symbol TRSquare]" "es \<noteq> []"
  shows "parse_elements parseExpression (Suc (length (ts @ rest))) elements (ts @ rest) = Parsed (Some (ArrayLiteral (elements @ es))) rest"
  using assms
proof (induction es arbitrary: ts elements)
  case (Cons e es)
  obtain xs t ys where split: "ts = xs @ t # ys" "map token_pair xs = print_expr 0 e"
    "es = [] \<and> ys = [] \<and> tok_Type t = TRSquare \<or>
     es \<noteq> [] \<and> tok_Type t = TComma \<and> map token_pair ys = commas (map (print_expr 0) es) @ [symbol TRSquare]"
    using commas_tokens[OF Cons.prems(2)[unfolded list.map]] by (metis map_is_Nil_conv)
  have parse: "parseExpression (xs @ t # ys @ rest) = Parsed (Some e) (t # ys @ rest)"
    using split(3) Cons.prems(1) by (intro parseExpression_back[OF _ split(2)]) auto
  show ?case
  proof (cases es)
    case Nil
    then show ?thesis using parse split by (subst elements_eq) (simp del: parse_elements.simps)
  next
    case Cons': (Cons e' es')
    have "parse_elements parseExpression (Suc (length (ys @ rest))) (elements @ [e]) (ys @ rest) = Parsed (Some (ArrayLiteral ((elements @ [e]) @ es))) rest"
      using Cons.prems split(3) Cons' by (intro Cons.IH) auto
    then show ?thesis using parse split Cons' by (subst elements_eq) (simp del: parse_elements.simps)
  qed
qed simp

lemma reads_back_atom:
  assumes "\<And>l. print_expr l e = p # ps" "fst p \<noteq> TMinus" "fst p \<noteq> TNot"
    and atom: "\<And>ts rest. map token_pair ts = p # ps \<Longrightarrow> follow 7 rest \<Longrightarrow> parseAtom parseExpression (ts @ rest) = Parsed (Some e) rest"
  shows "reads_back e"
  unfolding reads_back_def
proof (intro allI impI)
  fix l ts rest assume l: "l \<le> 7" and ts: "map token_pair ts = print_expr l e" and rest: "follow 7 rest"
  have ts': "map token_pair ts = p # ps" using ts assms(1) by simp
  then obtain t us where "ts = t # us" "token_pair t = p" by (auto simp: pairs_Cons)
  then show "reads l e (ts @ rest) rest"
    using atom[OF ts' rest] l assms(2,3) by (intro reads_atom) (auto simp: parse_level.simps token_pair_def)
qed

lemma call_back:
  assumes "\<forall>e\<in>set args. reads_back e \<and> printable e" "map token_pair ts = print_expr l (CallExpr name args)"
  shows "parseFunctionCall parseExpression (ts @ rest) = Parsed (Some (CallExpr name args)) rest"
proof -
  obtain t lp us where split: "ts = t # lp # us" "token_pair t = call_token name" "token_pair lp = symbol TLParen"
    "map token_pair us = commas (map (print_expr 0) args) @ [symbol TRParen]"
    using assms(2) by (auto simp: pairs_Cons)
  have "call_name t = Some name" using split(2) by (auto simp: call_token_def call_name_def token_pair_def split: if_splits)
  then show ?thesis using split(1) token_pair_symbol[OF split(3)] arguments_back[OF assms(1) split(4), of rest name "[]"]
    by (simp add: parseFunctionCall_def del: parse_arguments.simps)
qed

lemma reads_call:
  assumes "\<forall>e\<in>set args. reads_back e \<and> printable e"
  shows "reads_back (CallExpr name args)"
proof (rule reads_back_atom)
  fix ts rest assume ts: "map token_pair ts = call_token name # symbol TLParen # commas (map (print_expr 0) args) @ [symbol TRParen]"
  then obtain t lp us where split: "ts = t # lp # us" "token_pair t = call_token name" "token_pair lp = symbol TLParen" by (auto simp: pairs_Cons)
  have "tok_Type t \<in> {TIdentifier, TLen, TEmit, TStop, TAssert}" using split(2) by (auto simp: call_token_def token_pair_def split: if_splits)
  then show "parseAtom parseExpression (ts @ rest) = Parsed (Some (CallExpr name args)) rest"
    using call_back[OF assms, of ts 0 name rest] ts split(1) token_pair_symbol[OF split(3)]
    by (auto simp: parseAtom_def literal_type_def)
qed (auto simp: call_token_def)

lemma reads_identifier: "reads_back (IdentifierExpr x)"
proof (rule reads_back_atom)
  fix ts rest assume "map token_pair ts = [(TIdentifier, x)]" "follow 7 rest"
  then show "parseAtom parseExpression (ts @ rest) = Parsed (Some (IdentifierExpr x)) rest"
    by (cases rest) (auto simp: pairs_Cons token_pair_iff parseAtom_def literal_type_def)
qed auto

lemma reads_literal: "t = TInt \<or> t = TFloat \<or> t = TString \<or> t = TBool \<Longrightarrow> reads_back (LiteralExpr t v)"
proof (rule reads_back_atom)
  fix ts rest assume "t = TInt \<or> t = TFloat \<or> t = TString \<or> t = TBool" "map token_pair ts = [(literal_token t, v)]"
  then show "parseAtom parseExpression (ts @ rest) = Parsed (Some (LiteralExpr t v)) rest"
    by (auto simp: pairs_Cons token_pair_iff parseAtom_def literal_type_def literal_token_def)
qed (auto simp: literal_token_def)

lemma reads_map_literal: "reads_back MapLiteral"
proof (rule reads_back_atom)
  fix ts rest assume "map token_pair ts = [symbol TLBrace, symbol TRBrace]"
  then obtain t u where "ts = [t, u]" "tok_Type t = TLBrace" "tok_Type u = TRBrace" by (auto simp: pairs_Cons dest: token_pair_symbol)
  then show "parseAtom parseExpression (ts @ rest) = Parsed (Some MapLiteral) rest"
    by (simp add: parseAtom_def literal_type_def parseMapLiteral_def)
qed auto

lemma reads_array:
  assumes "\<forall>e\<in>set es. reads_back e \<and> printable e"
  shows "reads_back (ArrayLiteral es)"
proof (rule reads_back_atom)
  fix ts rest assume "map token_pair ts = symbol TLSquare # commas (map (print_expr 0) es) @ [symbol TRSquare]"
  then obtain t us where split: "ts = t # us" "token_pair t = symbol TLSquare" "map token_pair us = commas (map (print_expr 0) es) @ [symbol TRSquare]"
    by (auto simp: pairs_Cons)
  have t: "tok_Type t = TLSquare" using token_pair_symbol[OF split(2)] .
  have "parseArrayLiteral parseExpression (ts @ rest) = Parsed (Some (ArrayLiteral es)) rest"
  proof (cases es)
    case Nil
    then obtain u where "us = [u]" "tok_Type u = TRSquare" using split(3) by (auto simp: pairs_Cons dest: token_pair_symbol)
    then show ?thesis using split(1) t Nil by (simp add: parseArrayLiteral_def)
  next
    case (Cons e es')
    obtain xs y ys where us: "us = xs @ y # ys" "map token_pair xs = print_expr 0 e"
      using commas_tokens[OF split(3)[unfolded Cons list.map]] by metis
    obtain x xs' where "xs = x # xs'" "tok_Type x \<in> starters" using tokens_start[OF us(2)] assms Cons by auto
    then have "\<not> next_is TRSquare (us @ rest)" using us(1) by (auto simp: starters_def)
    then show ?thesis using split(1) t elements_back[OF _ split(3), of rest "[]"] assms Cons
      by (simp add: parseArrayLiteral_def del: parse_elements.simps)
  qed
  then show "parseAtom parseExpression (ts @ rest) = Parsed (Some (ArrayLiteral es)) rest"
    using split(1) t by (simp add: parseAtom_def literal_type_def)
qed auto

text \<open>Indexed and sliced variables, which are also what an indexed assignment assigns to.\<close>

fun accesses :: "string \<Rightarrow> Expression \<Rightarrow> bool" where
  "accesses x (IndexExpr e i) \<longleftrightarrow> e = IdentifierExpr x"
| "accesses x (SliceExpr e i j) \<longleftrightarrow> e = IdentifierExpr x"
| "accesses x _ \<longleftrightarrow> False"

fun parts :: "Expression \<Rightarrow> Expression list" where
  "parts (IndexExpr e i) = [i]"
| "parts (SliceExpr e i j) = (case i of Some i \<Rightarrow> [i] | None \<Rightarrow> []) @ (case j of Some j \<Rightarrow> [j] | None \<Rightarrow> [])"
| "parts _ = []"

text \<open>The start of an index or slice is not taken for the colon of a slice without a start.\<close>

lemma first_part:
  assumes "map token_pair xs = print_expr 0 i" "reads_back i" "printable i" "follow 0 rest"
  shows "parseExpression (xs @ rest) = Parsed (Some i) rest" "\<not> next_is TColon (xs @ rest)" "\<not> next_is TRSquare (xs @ rest)" "xs \<noteq> []"
proof -
  obtain t us where "xs = t # us" "tok_Type t \<in> starters" using tokens_start[OF assms(1,3)] .
  then show "\<not> next_is TColon (xs @ rest)" "\<not> next_is TRSquare (xs @ rest)" "xs \<noteq> []" by (auto simp: starters_def)
qed (rule parseExpression_back[OF assms(2,1,4)])

lemma access_back:
  assumes "\<forall>i\<in>set (parts e). reads_back i" "printable e" "accesses x e" "map token_pair ts = print_expr l e"
  obtains t us where "ts = t # us" "tok_Type t = TIdentifier" "tok_Value t = x" "next_is TLSquare us"
    "\<And>rest. parseIndexOrSlice parseExpression (IdentifierExpr x) (us @ rest) = Parsed (Some e) rest"
proof (cases e)
  case (IndexExpr n i)
  then have n: "n = IdentifierExpr x" using assms(3) by simp
  obtain t sq xs sq' where split: "ts = t # sq # xs @ [sq']" "tok_Type t = TIdentifier" "tok_Value t = x" "tok_Type sq = TLSquare"
    "tok_Type sq' = TRSquare" "map token_pair xs = print_expr 0 i"
    using assms(4) IndexExpr n by (auto simp: pairs_append pairs_Cons token_pair_iff dest!: token_pair_symbol)
  have "parseIndexOrSlice parseExpression (IdentifierExpr x) (sq # xs @ sq' # rest) = Parsed (Some e) rest" for rest
    using first_part[OF split(6), of "sq' # rest"] split(4,5) assms(1,2) IndexExpr n by (simp add: parseIndexOrSlice_def)
  then show thesis using that[of t "sq # xs @ [sq']"] split by simp
next
  case (SliceExpr n i j)
  then have n: "n = IdentifierExpr x" using assms(3) by simp
  have ok: "\<And>y. i = Some y \<Longrightarrow> reads_back y \<and> printable y" "\<And>y. j = Some y \<Longrightarrow> reads_back y \<and> printable y" "i \<noteq> None \<or> j \<noteq> None"
    using assms(1,2) SliceExpr by auto
  obtain t sq xs col ys sq' where split: "ts = t # sq # xs @ col # ys @ [sq']" "tok_Type t = TIdentifier" "tok_Value t = x" "tok_Type sq = TLSquare"
    "tok_Type sq' = TRSquare" "tok_Type col = TColon"
    "map token_pair xs = (case i of Some i \<Rightarrow> print_expr 0 i | None \<Rightarrow> [])" "map token_pair ys = (case j of Some j \<Rightarrow> print_expr 0 j | None \<Rightarrow> [])"
    using assms(4) SliceExpr n by (auto simp: pairs_append pairs_Cons token_pair_iff dest!: token_pair_symbol)
  have start: "parseExpression (xs @ r) = Parsed (Some y) r" "\<not> next_is TColon (xs @ r)" "xs \<noteq> []" if "i = Some y" "follow 0 r" for y r
    using first_part[of xs y r] split(7) ok(1)[OF that(1)] that by simp_all
  have end': "parseExpression (ys @ r) = Parsed (Some y) r" "\<not> next_is TRSquare (ys @ r)" "ys \<noteq> []" if "j = Some y" "follow 0 r" for y r
    using first_part[of ys y r] split(8) ok(2)[OF that(1)] that by simp_all
  have "parseIndexOrSlice parseExpression (IdentifierExpr x) (sq # xs @ col # ys @ sq' # rest) = Parsed (Some e) rest" for rest
    using start[of _ "col # ys @ sq' # rest"] end'[of _ "sq' # rest"] split(4-8) ok(3) SliceExpr n
    by (cases i; cases j) (simp_all add: parseIndexOrSlice_def)
  then show thesis using that[of t "sq # xs @ col # ys @ [sq']"] split by simp
qed (use assms(3) in auto)

lemma reads_access:
  assumes "\<forall>i\<in>set (parts e). reads_back i" "printable e" "accesses x e"
  shows "reads_back e"
proof -
  obtain ps where ps: "\<And>l. print_expr l e = (TIdentifier, x) # ps" using assms(3) by (cases e) auto
  show ?thesis
  proof (rule reads_back_atom[OF ps])
    fix ts rest assume ts: "map token_pair ts = (TIdentifier, x) # ps"
    obtain t us where "ts = t # us" "tok_Type t = TIdentifier" "tok_Value t = x" "next_is TLSquare us"
      "\<And>rest. parseIndexOrSlice parseExpression (IdentifierExpr x) (us @ rest) = Parsed (Some e) rest"
      using access_back[OF assms ts[folded ps[of 0]]] by metis
    then show "parseAtom parseExpression (ts @ rest) = Parsed (Some e) rest"
      by (cases us) (auto simp: parseAtom_def literal_type_def)
  qed auto
qed

theorem printed_expression_back: "printable e \<Longrightarrow> reads_back e"
proof (induction e)
  case (BinaryExpr op a b)
  then show ?case by (cases b) (auto intro: reads_binary)
next
  case (UnaryExpr op a)
  then show ?case by (cases a) (auto intro: reads_unary)
next
  case (CallExpr name args)
  then show ?case by (intro reads_call) (auto simp: list_all_iff)
next
  case (ArrayLiteral es)
  then show ?case by (intro reads_array) (auto simp: list_all_iff)
next
  case (IndexExpr e i)
  then obtain x where "e = IdentifierExpr x" by (cases e) auto
  then show ?case using IndexExpr by (intro reads_access[where x = x]) simp_all
next
  case (SliceExpr e i j)
  then obtain x where "e = IdentifierExpr x" by (cases e) auto
  then show ?case using SliceExpr by (intro reads_access[where x = x]) (auto split: option.splits)
qed (simp_all add: reads_identifier reads_literal reads_map_literal)

end
