(* ===== verification/Marigold_Roundtrip.thy ===== *)
theory Marigold_Roundtrip
  imports Marigold_Printer
begin

text \<open>
  Printing types, statements, functions and whole programs as Marigold source, and the round trip through
  the lexer and the parser.
\<close>

section \<open>Types\<close>

fun print_type :: "Type \<Rightarrow> (TokenType \<times> string) list" where
  "print_type (SimpleType k) = [(if k = ''int'' then TInt else if k = ''float'' then TFloat else if k = ''string'' then TString else TBool, k)]"
| "print_type (ArrayType n t) = symbol TLSquare # (if n < 0 then [] else [(TIntLiteral, big_String n)]) @ symbol TRSquare #
     (case t of Some t \<Rightarrow> print_type t | None \<Rightarrow> [])"
| "print_type (MapType k v) = symbol TMap # symbol TLSquare # symbol TString # symbol TRSquare # print_type v"

text \<open>The types that can be written: the length of an array is an \<open>int\<close> of Go, or \<open>-1\<close> when it is left out.\<close>

fun printable_type :: "Type \<Rightarrow> bool" where
  "printable_type (SimpleType k) \<longleftrightarrow> k = ''int'' \<or> k = ''float'' \<or> k = ''string'' \<or> k = ''bool''"
| "printable_type (ArrayType n t) \<longleftrightarrow> - 1 \<le> n \<and> n < 2 ^ 63 \<and> (case t of Some t \<Rightarrow> printable_type t | None \<Rightarrow> False)"
| "printable_type (MapType k v) \<longleftrightarrow> k = StringType \<and> printable_type v"

lemma pairs_split:
  "map token_pair ts = ps @ q # qs \<Longrightarrow> \<exists>us t vs. ts = us @ t # vs \<and> map token_pair us = ps \<and> token_pair t = q \<and> map token_pair vs = qs"
  unfolding pairs_append pairs_Cons by blast

lemma Atoi_String: "- 1 \<le> n \<Longrightarrow> n < 2 ^ 63 \<Longrightarrow> Atoi (big_String n) = Some n"
  by (simp add: Atoi_def dec.SetString_Text)

lemma type_back: "printable_type t \<Longrightarrow> map token_pair ts = print_type t \<Longrightarrow> parseType (ts @ rest) = Parsed (Some t) rest"
proof (induction t arbitrary: ts rest)
  case (SimpleType k)
  then show ?case by (subst parseType_eq) (auto simp: pairs_Cons token_pair_iff simple_types)
next
  case (ArrayType n t)
  then obtain u where u: "t = Some u" "printable_type u" "- 1 \<le> n" "n < 2 ^ 63" by (auto split: option.splits)
  have "map token_pair ts = symbol TLSquare # (if n < 0 then [] else [(TIntLiteral, big_String n)]) @ symbol TRSquare # print_type u"
    using ArrayType.prems(2) u(1) by simp
  then obtain a ts' where a: "ts = a # ts'" "token_pair a = symbol TLSquare"
    "map token_pair ts' = (if n < 0 then [] else [(TIntLiteral, big_String n)]) @ symbol TRSquare # print_type u"
    unfolding pairs_Cons by blast
  obtain ns b us where split: "ts = a # ns @ b # us" "token_pair a = symbol TLSquare" "token_pair b = symbol TRSquare"
    "map token_pair ns = (if n < 0 then [] else [(TIntLiteral, big_String n)])" "map token_pair us = print_type u"
    using pairs_split[OF a(3)] a(1,2) by blast
  have ty: "tok_Type a = TLSquare" "tok_Type b = TRSquare" using token_pair_symbol split(2,3) by blast+
  have el: "parseType (us @ rest) = Parsed (Some u) rest" using ArrayType.IH[of u us rest] u split(5) by simp
  have "parseArrayType parseType (ts @ rest) = Parsed (Some (ArrayType n t)) rest"
  proof (cases "n < 0")
    case True
    then have "n = - 1" "ns = []" using u(3) split(4) by auto
    then show ?thesis using split(1) ty el u(1) by (simp add: parseArrayType_def NewArrayType_def)
  next
    case False
    then obtain m where "ns = [m]" "tok_Type m = TIntLiteral" "tok_Value m = big_String n" using split(4) by (auto simp: pairs_Cons token_pair_iff)
    then show ?thesis using split(1) ty el u Atoi_String[OF u(3,4)] by (simp add: parseArrayType_def NewArrayType_def)
  qed
  then show ?case using split(1) ty by (subst parseType_eq) simp
next
  case (MapType k v)
  then obtain a b c d us where split: "ts = a # b # c # d # us" "tok_Type a = TMap" "tok_Type b = TLSquare" "tok_Type c = TString"
    "tok_Type d = TRSquare" "map token_pair us = print_type v"
    by (auto simp: pairs_Cons dest!: token_pair_symbol)
  then have "parseType (us @ rest) = Parsed (Some v) rest" using MapType by simp
  then show ?case using split MapType.prems(1) by (subst parseType_eq) (simp add: parseMapType_def NewMapType_def)
qed

section \<open>Statements\<close>

fun print_stmt :: "Statement \<Rightarrow> (TokenType \<times> string) list"
  and print_block :: "Block \<Rightarrow> (TokenType \<times> string) list" where
  "print_stmt (AssignmentStmt t lhs rhs) = print_expr 7 lhs @ (case t of Some t \<Rightarrow> symbol TColon # print_type t | None \<Rightarrow> []) @
     (case rhs of Some e \<Rightarrow> symbol TAssign # print_expr 0 e | None \<Rightarrow> [])"
| "print_stmt (ReturnStmt e) = symbol TReturn # (case e of Some e \<Rightarrow> print_expr 0 e | None \<Rightarrow> [])"
| "print_stmt (IfStmt c b b') = symbol TIf # print_expr 0 c @ print_block b @ (case b' of Some b \<Rightarrow> symbol TElse # print_block b | None \<Rightarrow> [])"
| "print_stmt (WhileStmt c b) = symbol TWhile # print_expr 0 c @ print_block b"
| "print_stmt BreakStmt = [symbol TBreak]"
| "print_stmt ContinueStmt = [symbol TContinue]"
| "print_stmt (ExpressionStmt e) = print_expr 0 e"
| "print_block (Block ss vars) = symbol TLBrace # concat (map print_stmt ss) @ [symbol TRBrace]"

fun is_call :: "Expression \<Rightarrow> bool" where
  "is_call (CallExpr name args) = True"
| "is_call _ = False"

fun is_access :: "Expression \<Rightarrow> bool" where
  "is_access (IndexExpr e i) = True"
| "is_access (SliceExpr e i j) = True"
| "is_access _ = False"

text \<open>
  Statements stand next to each other without a separator, so an expression on its own is read back when
  it cannot be taken for the rest of the statement before it: a call.
\<close>

fun printable_stmt :: "Statement \<Rightarrow> bool" and printable_block :: "Block \<Rightarrow> bool" where
  "printable_stmt (AssignmentStmt t lhs rhs) \<longleftrightarrow>
     (is_name lhs \<and> (t \<noteq> None \<or> rhs \<noteq> None) \<or> is_access lhs \<and> t = None \<and> rhs \<noteq> None) \<and> printable lhs \<and>
     (case t of Some t \<Rightarrow> printable_type t | None \<Rightarrow> True) \<and> (case rhs of Some e \<Rightarrow> printable e | None \<Rightarrow> True)"
| "printable_stmt (ReturnStmt e) \<longleftrightarrow> (case e of Some e \<Rightarrow> printable e | None \<Rightarrow> False)"
| "printable_stmt (IfStmt c b b') \<longleftrightarrow> printable c \<and> printable_block b \<and> (case b' of Some b \<Rightarrow> printable_block b | None \<Rightarrow> True)"
| "printable_stmt (WhileStmt c b) \<longleftrightarrow> printable c \<and> printable_block b"
| "printable_stmt BreakStmt \<longleftrightarrow> True"
| "printable_stmt ContinueStmt \<longleftrightarrow> True"
| "printable_stmt (ExpressionStmt e) \<longleftrightarrow> is_call e \<and> printable e"
| "printable_block (Block ss vars) \<longleftrightarrow> vars = [] \<and> list_all printable_stmt ss"

definition stmt_starters :: "TokenType set" where
  "stmt_starters = {TIf, TWhile, TReturn, TBreak, TContinue, TIdentifier, TLen, TEmit, TStop, TAssert}"

text \<open>What follows a statement in a block.\<close>

definition ends :: "Token list \<Rightarrow> bool" where
  "ends ts \<longleftrightarrow> ts \<noteq> [] \<and> (tok_Type (hd ts) = TRBrace \<or> tok_Type (hd ts) \<in> stmt_starters)"

lemma ends_follow: "ends ts \<Longrightarrow> follow l ts"
  by (cases ts) (auto simp: ends_def stmt_starters_def op_level_def)

lemma ends_next: "ends ts \<Longrightarrow> ts \<noteq> [] \<and> \<not> next_is TAssign ts \<and> \<not> next_is TElse ts"
  by (cases ts) (auto simp: ends_def stmt_starters_def)

lemma ends_brace: "tok_Type t = TRBrace \<Longrightarrow> ends (t # ts)"
  by (simp add: ends_def)

lemma expression_back: "printable e \<Longrightarrow> map token_pair ts = print_expr 0 e \<Longrightarrow> follow 0 rest \<Longrightarrow> parseExpression (ts @ rest) = Parsed (Some e) rest"
  using parseExpression_back printed_expression_back by blast

text \<open>The first token decides how a statement is parsed.\<close>

lemma print_stmt_start: "printable_stmt s \<Longrightarrow> print_stmt s \<noteq> [] \<and> fst (hd (print_stmt s)) \<in> stmt_starters"
proof (cases s)
  case (AssignmentStmt t lhs rhs)
  moreover assume "printable_stmt s"
  ultimately have "is_name lhs \<or> (\<exists>e i. is_name e \<and> lhs = IndexExpr e i) \<or> (\<exists>e i j. is_name e \<and> lhs = SliceExpr e i j)"
    by (cases lhs) auto
  then obtain x ps where "print_expr 7 lhs = (TIdentifier, x) # ps" by (auto elim!: is_name.elims)
  then show ?thesis using AssignmentStmt by (simp add: stmt_starters_def)
next
  case (ExpressionStmt e)
  moreover assume "printable_stmt s"
  ultimately show ?thesis by (cases e) (auto simp: stmt_starters_def call_token_def)
qed (simp_all add: stmt_starters_def)

lemma stmt_tokens_end:
  assumes "printable_stmt s" "map token_pair ts = print_stmt s"
  shows "ends (ts @ rest)"
proof -
  obtain t us where "ts = t # us" using print_stmt_start[OF assms(1)] assms(2) by (cases ts) auto
  then show ?thesis using print_stmt_start[OF assms(1)] unfolding assms(2)[symmetric] by (simp add: ends_def token_pair_def)
qed

text \<open>Each kind of statement is read back, given that its blocks are.\<close>

definition stmt_back :: "Statement \<Rightarrow> bool" where
  "stmt_back s \<longleftrightarrow> (\<forall>ts rest. map token_pair ts = print_stmt s \<longrightarrow> ends rest \<longrightarrow> parseStatement (ts @ rest) = Parsed (Some s) rest)"

definition body_back :: "Block \<Rightarrow> bool" where
  "body_back b \<longleftrightarrow> (\<forall>ts rest. map token_pair ts = print_block b \<longrightarrow> parse_body parseStatement (ts @ rest) = Parsed b rest)"

lemma statement_identifier: "tok_Type t = TIdentifier \<Longrightarrow> parseStatement (t # ts) = parse_identifier (t # ts)"
  by (subst parseStatement_eq) (simp add: statement_with_def)

lemma rhs_back:
  assumes "map token_pair us = (case rhs of Some e \<Rightarrow> symbol TAssign # print_expr 0 e | None \<Rightarrow> [])"
    "case rhs of Some e \<Rightarrow> printable e | None \<Rightarrow> True" "ends rest"
  obtains (none) "rhs = None" "us = []" | (some) e a vs where "rhs = Some e" "us = a # vs" "tok_Type a = TAssign" "parseExpression (vs @ rest) = Parsed (Some e) rest"
proof (cases rhs)
  case (Some e)
  then obtain a vs where "us = a # vs" "token_pair a = symbol TAssign" "map token_pair vs = print_expr 0 e" using assms(1) by (auto simp: pairs_Cons)
  then show thesis using some Some token_pair_symbol expression_back[of e vs rest] assms(2,3) ends_follow by simp
qed (use assms(1) none in simp)

lemma assign_name:
  assumes "printable_stmt (AssignmentStmt t (IdentifierExpr x) rhs)"
  shows "stmt_back (AssignmentStmt t (IdentifierExpr x) rhs)"
  unfolding stmt_back_def
proof (intro allI impI)
  fix ts rest assume ts: "map token_pair ts = print_stmt (AssignmentStmt t (IdentifierExpr x) rhs)" and rest: "ends rest"
  let ?rhs = "case rhs of Some e \<Rightarrow> symbol TAssign # print_expr 0 e | None \<Rightarrow> []"
  have ok: "case rhs of Some e \<Rightarrow> printable e | None \<Rightarrow> True" "t \<noteq> None \<or> rhs \<noteq> None" using assms by auto
  obtain i us where i: "ts = i # us" "tok_Type i = TIdentifier" "tok_Value i = x"
    "map token_pair us = (case t of Some t \<Rightarrow> symbol TColon # print_type t | None \<Rightarrow> []) @ ?rhs"
    using ts by (auto simp: pairs_Cons token_pair_iff)
  have "parse_identifier (i # us @ rest) = Parsed (Some (AssignmentStmt t (IdentifierExpr x) rhs)) rest"
  proof (cases t)
    case None
    then have us: "map token_pair us = ?rhs" using i(4) by simp
    show ?thesis
    proof (rule rhs_back[OF us ok(1) rest])
      assume "rhs = None" "us = []"
      then show ?thesis using ok(2) None by simp
    next
      fix e a vs assume "rhs = Some e" "us = a # vs" "tok_Type a = TAssign" "parseExpression (vs @ rest) = Parsed (Some e) rest"
      then show ?thesis using i(2,3) None by (simp add: parse_identifier_def parseAssignment_def)
    qed
  next
    case (Some u)
    have "map token_pair us = symbol TColon # print_type u @ ?rhs" using i(4) Some by simp
    then obtain c ys vs where us: "us = c # ys @ vs" "token_pair c = symbol TColon" "map token_pair ys = print_type u" "map token_pair vs = ?rhs"
      unfolding pairs_Cons pairs_append by blast
    have c: "tok_Type c = TColon" using token_pair_symbol us(2) .
    have ty: "parseType (ys @ r) = Parsed (Some u) r" for r using type_back us(3) assms Some by simp
    show ?thesis
    proof (rule rhs_back[OF us(4) ok(1) rest])
      assume "rhs = None" "vs = []"
      then show ?thesis using i(2,3) Some us(1) c ty ends_next[OF rest] by (simp add: parse_identifier_def parseAssignment_def)
    next
      fix e a ws assume "rhs = Some e" "vs = a # ws" "tok_Type a = TAssign" "parseExpression (ws @ rest) = Parsed (Some e) rest"
      then show ?thesis using i(2,3) Some us(1) c ty by (simp add: parse_identifier_def parseAssignment_def)
    qed
  qed
  then show "parseStatement (ts @ rest) = Parsed (Some (AssignmentStmt t (IdentifierExpr x) rhs)) rest"
    using i by (simp add: statement_identifier)
qed

lemma assign_access:
  assumes "printable lhs" "accesses x lhs" "printable e"
  shows "stmt_back (AssignmentStmt None lhs (Some e))"
  unfolding stmt_back_def
proof (intro allI impI)
  fix ts rest assume ts: "map token_pair ts = print_stmt (AssignmentStmt None lhs (Some e))" and rest: "ends rest"
  then obtain xs a ys where split: "ts = xs @ a # ys" "map token_pair xs = print_expr 7 lhs" "token_pair a = symbol TAssign" "map token_pair ys = print_expr 0 e"
    using pairs_split[of ts "print_expr 7 lhs" "symbol TAssign" "print_expr 0 e"] by auto
  have "\<forall>i\<in>set (parts lhs). reads_back i"
    using assms(1,2) printed_expression_back by (cases lhs) (auto split: option.splits)
  then obtain i us where i: "xs = i # us" "tok_Type i = TIdentifier" "tok_Value i = x" "next_is TLSquare us"
      "\<And>rest. parseIndexOrSlice parseExpression (IdentifierExpr x) (us @ rest) = Parsed (Some lhs) rest"
    using access_back[OF _ assms(1,2) split(2)] by metis
  moreover have "parseExpression (ys @ rest) = Parsed (Some e) rest" using expression_back[OF assms(3) split(4)] ends_follow[OF rest] by simp
  ultimately show "parseStatement (ts @ rest) = Parsed (Some (AssignmentStmt None lhs (Some e))) rest"
    using split(1) token_pair_symbol[OF split(3)]
    by (cases us) (simp_all add: statement_identifier parse_identifier_def parseIndexedAssignment_def)
qed

lemma assign_back: "printable_stmt (AssignmentStmt t lhs rhs) \<Longrightarrow> stmt_back (AssignmentStmt t lhs rhs)"
proof (cases "is_name lhs")
  case True
  assume "printable_stmt (AssignmentStmt t lhs rhs)"
  then show ?thesis using True assign_name by (cases lhs) auto
next
  case False
  assume p: "printable_stmt (AssignmentStmt t lhs rhs)"
  then have l: "is_access lhs" "t = None" "printable lhs" using False by auto
  obtain e where e: "rhs = Some e" "printable e" using p False by (cases rhs) auto
  obtain n where n: "is_name n" "(\<exists>i. lhs = IndexExpr n i) \<or> (\<exists>i j. lhs = SliceExpr n i j)" using l by (cases lhs) auto
  then obtain x where "n = IdentifierExpr x" by (cases n) auto
  then have "accesses x lhs" using n(2) by auto
  from assign_access[OF l(3) this e(2)] show ?thesis using l(2) e(1) by simp
qed

lemma return_back: "printable e \<Longrightarrow> stmt_back (ReturnStmt (Some e))"
  unfolding stmt_back_def
proof (intro allI impI)
  fix ts rest assume e: "printable e" and "map token_pair ts = print_stmt (ReturnStmt (Some e))" and rest: "ends rest"
  then obtain t us where t: "ts = t # us" "tok_Type t = TReturn" "map token_pair us = print_expr 0 e" by (auto simp: pairs_Cons dest!: token_pair_symbol)
  then show "parseStatement (ts @ rest) = Parsed (Some (ReturnStmt (Some e))) rest"
    using expression_back[OF e t(3)] ends_follow[OF rest] by (subst parseStatement_eq) (simp add: statement_with_def)
qed

lemma call_statement_back:
  assumes "printable (CallExpr name args)"
  shows "stmt_back (ExpressionStmt (CallExpr name args))"
  unfolding stmt_back_def
proof (intro allI impI)
  fix ts rest assume ts: "map token_pair ts = print_stmt (ExpressionStmt (CallExpr name args))" and rest: "ends rest"
  then have ts': "map token_pair ts = print_expr 0 (CallExpr name args)" by simp
  then obtain t lp us where split: "ts = t # lp # us" "token_pair t = call_token name" "token_pair lp = symbol TLParen" by (auto simp: pairs_Cons)
  have t: "tok_Type t \<in> {TIdentifier, TLen, TEmit, TStop, TAssert}" using split(2) by (auto simp: call_token_def token_pair_def split: if_splits)
  have "\<forall>e\<in>set args. reads_back e \<and> printable e" using assms printed_expression_back by (auto simp: list_all_iff)
  from call_back[OF this ts'] have "parse_identifier (ts @ rest) = Parsed (Some (ExpressionStmt (CallExpr name args))) rest"
    using split(1) token_pair_symbol[OF split(3)] by (simp add: parse_identifier_def)
  moreover have "parseExpression (ts @ rest) = Parsed (Some (CallExpr name args)) rest"
    using expression_back[OF assms ts'] ends_follow[OF rest] by simp
  ultimately show "parseStatement (ts @ rest) = Parsed (Some (ExpressionStmt (CallExpr name args))) rest"
    using split(1) t by (subst parseStatement_eq) (auto simp: statement_with_def)
qed

lemma if_back:
  assumes "printable c" "body_back b" "case b' of Some b \<Rightarrow> body_back b | None \<Rightarrow> True"
  shows "stmt_back (IfStmt c b b')"
  unfolding stmt_back_def
proof (intro allI impI)
  fix ts rest assume ts: "map token_pair ts = print_stmt (IfStmt c b b')" and rest: "ends rest"
  let ?else = "case b' of Some b \<Rightarrow> symbol TElse # print_block b | None \<Rightarrow> []"
  obtain t cs bs es where split: "ts = t # cs @ bs @ es" "token_pair t = symbol TIf" "map token_pair cs = print_expr 0 c"
    "map token_pair bs = print_block b" "map token_pair es = ?else"
    using ts unfolding print_stmt.simps pairs_Cons pairs_append by blast
  obtain lb bs' where lb: "bs = lb # bs'" "tok_Type lb = TLBrace" using split(4) by (cases b) (auto simp: pairs_Cons dest!: token_pair_symbol)
  have c: "parseExpression (cs @ bs @ r) = Parsed (Some c) (bs @ r)" for r
    using expression_back[OF assms(1) split(3), of "bs @ r"] lb by simp
  have b: "parse_body parseStatement (bs @ r) = Parsed b r" for r using assms(2) split(4) by (simp add: body_back_def)
  have else': "(if next_is TElse (es @ rest)
     then expect TElse (es @ rest) (\<lambda>ts. and_then (parse_body parseStatement ts) (\<lambda>b'' ts. Parsed (Some (IfStmt c b (Some b''))) ts))
     else Parsed (Some (IfStmt c b None)) (es @ rest)) = Parsed (Some (IfStmt c b b')) rest"
  proof (cases b')
    case (Some b'')
    then obtain e ys where "es = e # ys" "tok_Type e = TElse" "map token_pair ys = print_block b''"
      using split(5) by (auto simp: pairs_Cons dest!: token_pair_symbol)
    then show ?thesis using Some assms(3) by (simp add: body_back_def)
  qed (use split(5) ends_next[OF rest] in simp)
  show "parseStatement (ts @ rest) = Parsed (Some (IfStmt c b b')) rest"
    using split(1) token_pair_symbol[OF split(2)] c b else' by (subst parseStatement_eq) (simp add: statement_with_def)
qed

lemma while_back:
  assumes "printable c" "body_back b"
  shows "stmt_back (WhileStmt c b)"
  unfolding stmt_back_def
proof (intro allI impI)
  fix ts rest assume ts: "map token_pair ts = print_stmt (WhileStmt c b)"
  obtain t cs bs where split: "ts = t # cs @ bs" "token_pair t = symbol TWhile" "map token_pair cs = print_expr 0 c" "map token_pair bs = print_block b"
    using ts unfolding print_stmt.simps pairs_Cons pairs_append by blast
  obtain lb bs' where "bs = lb # bs'" "tok_Type lb = TLBrace" using split(4) by (cases b) (auto simp: pairs_Cons dest!: token_pair_symbol)
  then have "parseExpression (cs @ bs @ rest) = Parsed (Some c) (bs @ rest)" using expression_back[OF assms(1) split(3), of "bs @ rest"] by simp
  then show "parseStatement (ts @ rest) = Parsed (Some (WhileStmt c b)) rest"
    using split(1,4) assms(2) token_pair_symbol[OF split(2)] by (subst parseStatement_eq) (simp add: statement_with_def body_back_def)
qed

lemma statements_back:
  assumes "\<forall>s\<in>set ss. stmt_back s \<and> printable_stmt s" "map token_pair ts = concat (map print_stmt ss)" "tok_Type rb = TRBrace"
  shows "parse_statements parseStatement (Suc (length (ts @ rb # rest))) acc (ts @ rb # rest) = Parsed (acc @ ss) (rb # rest)"
  using assms(1,2)
proof (induction ss arbitrary: ts acc)
  case Nil
  have "parseStatement (rb # rest) = Parsed None (rb # rest)" using assms(3) by (subst parseStatement_eq) (simp add: statement_with_def)
  then show ?case using Nil by (subst statements_eq) simp
next
  case (Cons s ss)
  obtain xs ys where split: "ts = xs @ ys" "map token_pair xs = print_stmt s" "map token_pair ys = concat (map print_stmt ss)"
    using Cons.prems(2) by (auto simp: pairs_append)
  have "ends (ys @ rb # rest)"
  proof (cases ss)
    case (Cons s' ss')
    then obtain zs where "\<exists>zs'. ys = zs @ zs' \<and> map token_pair zs = print_stmt s'" using split(3) by (auto simp: pairs_append)
    then show ?thesis using stmt_tokens_end[of s' zs] Cons.prems(1) Cons by auto
  qed (use split(3) assms(3) ends_brace in simp)
  then have "parseStatement (ts @ rb # rest) = Parsed (Some s) (ys @ rb # rest)"
    using Cons.prems(1) split(1,2) by (simp add: stmt_back_def)
  then show ?case using Cons.IH[of ys "acc @ [s]"] Cons.prems(1) split(3) by (subst statements_eq) (simp del: parse_statements.simps)
qed

lemma body_back_Block:
  assumes "\<forall>s\<in>set ss. stmt_back s \<and> printable_stmt s"
  shows "body_back (Block ss [])"
  unfolding body_back_def
proof (intro allI impI)
  fix ts rest assume ts: "map token_pair ts = print_block (Block ss [])"
  obtain lb us rb where split: "ts = lb # us @ [rb]" "tok_Type lb = TLBrace" "map token_pair us = concat (map print_stmt ss)" "tok_Type rb = TRBrace"
    using ts by (auto simp: pairs_Cons pairs_append dest!: token_pair_symbol)
  show "parse_body parseStatement (ts @ rest) = Parsed (Block ss []) rest"
    using statements_back[OF assms split(3,4), of rest "[]"] split
    by (simp add: parse_body_def parseBlock_def del: parse_statements.simps)
qed

lemma printed_statement_back: "printable_stmt s \<Longrightarrow> stmt_back s"
  and printed_block_back: "printable_block b \<Longrightarrow> body_back b"
proof (induction s and b rule: Statement.induct Block.induct)
  case (AssignmentStmt t lhs rhs)
  then show ?case by (rule assign_back)
next
  case (ReturnStmt e)
  then show ?case by (cases e) (auto intro: return_back)
next
  case (IfStmt c b b')
  then show ?case by (intro if_back) (auto split: option.splits)
next
  case (WhileStmt c b)
  then show ?case by (intro while_back) auto
next
  case BreakStmt
  show ?case unfolding stmt_back_def
    by (auto simp: pairs_Cons parseStatement_eq[of "_ # _"] statement_with_def dest!: token_pair_symbol)
next
  case ContinueStmt
  show ?case unfolding stmt_back_def
    by (auto simp: pairs_Cons parseStatement_eq[of "_ # _"] statement_with_def dest!: token_pair_symbol)
next
  case (ExpressionStmt e)
  then show ?case by (cases e) (auto intro!: call_statement_back)
next
  case (Block ss vars)
  then show ?case by (auto simp: list_all_iff intro!: body_back_Block)
qed

section \<open>Functions and programs\<close>

definition print_parameter :: "string \<times> Type \<Rightarrow> (TokenType \<times> string) list" where
  "print_parameter p = (TIdentifier, fst p) # symbol TColon # print_type (snd p)"

definition print_function :: "Function \<Rightarrow> (TokenType \<times> string) list" where
  "print_function f = symbol TDefine # (TIdentifier, fn_Name f) # symbol TLParen #
     (commas (map print_parameter (zip (fn_Parameters f) (fn_ParameterTypes f))) @ [symbol TRParen]) @ symbol TColon #
     print_type (fn_ReturnType f) @ print_block (fn_Block f)"

definition printable_function :: "Function \<Rightarrow> bool" where
  "printable_function f \<longleftrightarrow> TokenTypeMap (fn_Name f) = None \<and> length (fn_Parameters f) = length (fn_ParameterTypes f) \<and>
     list_all printable_type (fn_ParameterTypes f) \<and> printable_type (fn_ReturnType f) \<and> printable_block (fn_Block f)"

definition print_ast :: "Ast \<Rightarrow> (TokenType \<times> string) list" where
  "print_ast ast = concat (map (\<lambda>(name, f). print_function f) (ast_Functions ast))"

text \<open>A program as the parser returns it: the scope is the initial one, and every function is stored under its own name.\<close>

definition printable_ast :: "Ast \<Rightarrow> bool" where
  "printable_ast ast \<longleftrightarrow> ast_Scope ast = ast_Scope NewAst \<and> distinct (map fst (ast_Functions ast)) \<and>
     list_all (\<lambda>(name, f). name = fn_Name f \<and> printable_function f) (ast_Functions ast)"

lemma and_then_cong: "(\<And>x r. p = Parsed x r \<Longrightarrow> f x r = g x r) \<Longrightarrow> and_then p f = and_then p g"
  by (cases p) auto

lemma parameters_eq:
  "parse_parameters (Suc (length ts)) params types ts =
     (if ts = [] then Panic
      else if next_is TRParen ts then Parsed (Some (params, types)) ts
      else and_then (consumeAssert TIdentifier ts) (\<lambda>paramIdent ts. expect TColon ts (\<lambda>ts.
        if_some (parseType ts) (\<lambda>paramType ts.
          parse_parameters (Suc (length (consumeIf TComma ts))) (params @ [tok_Value paramIdent]) (types @ [paramType]) (consumeIf TComma ts)))))"
proof -
  have "parse_parameters (length ts) ps qs (consumeIf TComma r) = parse_parameters (Suc (length (consumeIf TComma r))) ps qs (consumeIf TComma r)"
    if "ts = i # c # us" "parseType us = Parsed (Some t) r" for ps qs i c us t r
  proof (rule parameters_enough)
    have "length r < length us" using that(2) parseType_eats[of us] by simp
    then show "length (consumeIf TComma r) < length ts" using that(1) length_consumeIf[of TComma r] by simp
  qed
  then show ?thesis
    by (subst parse_parameters.simps)
      (auto simp: consumeAssert_def if_some_def simp del: parse_parameters.simps split: list.splits option.splits intro!: and_then_cong)
qed

lemma parameters_back:
  assumes "length params = length types" "list_all printable_type types"
    "map token_pair ts = commas (map print_parameter (zip params types)) @ [symbol TRParen]"
  shows "\<exists>rp. tok_Type rp = TRParen \<and>
    (\<forall>rest. parse_parameters (Suc (length (ts @ rest))) ps qs (ts @ rest) = Parsed (Some (ps @ params, qs @ types)) (rp # rest))"
  using assms
proof (induction params types arbitrary: ts ps qs rule: list_induct2)
  case Nil
  then obtain t where "ts = [t]" "tok_Type t = TRParen" by (auto simp: pairs_Cons dest: token_pair_symbol)
  then show ?case by simp
next
  case (Cons x params u types)
  let ?rest = "map print_parameter (zip params types)"
  have "map token_pair ts = commas (print_parameter (x, u) # ?rest) @ [symbol TRParen]" using Cons.prems(2) by simp
  then obtain xs t ys where split: "ts = xs @ t # ys" "map token_pair xs = print_parameter (x, u)"
    "?rest = [] \<and> ys = [] \<and> tok_Type t = TRParen \<or> ?rest \<noteq> [] \<and> tok_Type t = TComma \<and> map token_pair ys = commas ?rest @ [symbol TRParen]"
    using commas_tokens by metis
  obtain i c us where i: "xs = i # c # us" "tok_Type i = TIdentifier" "tok_Value i = x" "tok_Type c = TColon" "map token_pair us = print_type u"
    using split(2) by (auto simp: print_parameter_def pairs_Cons token_pair_iff dest!: token_pair_symbol)
  have ty: "parseType (us @ r) = Parsed (Some u) r" for r using type_back[OF _ i(5)] Cons.prems(1) by simp
  have step: "parse_parameters (Suc (length (ts @ rest))) ps qs (ts @ rest) =
      parse_parameters (Suc (length (consumeIf TComma (t # ys @ rest)))) (ps @ [x]) (qs @ [u]) (consumeIf TComma (t # ys @ rest))" for rest
    by (subst parameters_eq) (simp add: split(1) i ty del: parse_parameters.simps consumeIf_simps)
  show ?case
  proof (cases "?rest = []")
    case True
    then have e: "params = []" "types = []" using Cons.hyps by auto
    have t: "tok_Type t = TRParen" "ys = []" using split(3) True by auto
    show ?thesis
    proof (intro exI[of _ t] conjI allI)
      fix rest
      show "parse_parameters (Suc (length (ts @ rest))) ps qs (ts @ rest) = Parsed (Some (ps @ x # params, qs @ u # types)) (t # rest)"
        unfolding step by (subst parameters_eq) (simp add: t e)
    qed (rule t)
  next
    case False
    then have t: "tok_Type t = TComma" "map token_pair ys = commas ?rest @ [symbol TRParen]" using split(3) by auto
    show ?thesis using Cons.IH[OF _ t(2), of "ps @ [x]" "qs @ [u]"] Cons.prems(1) unfolding step by (simp add: t(1) del: parse_parameters.simps)
  qed
qed

lemma function_back:
  assumes "printable_function f" "map token_pair ts = print_function f"
  shows "parseFunctionDefinition (ts @ rest) = Parsed (Some f) rest"
proof -
  let ?ps = "commas (map print_parameter (zip (fn_Parameters f) (fn_ParameterTypes f))) @ [symbol TRParen]"
  obtain d i lp qs c us bs where split: "ts = d # i # lp # qs @ c # us @ bs" "token_pair d = symbol TDefine" "token_pair i = (TIdentifier, fn_Name f)"
    "token_pair lp = symbol TLParen" "map token_pair qs = ?ps" "token_pair c = symbol TColon" "map token_pair us = print_type (fn_ReturnType f)"
    "map token_pair bs = print_block (fn_Block f)"
    using assms(2) unfolding print_function_def pairs_Cons pairs_append by blast
  note f = assms(1)[unfolded printable_function_def]
  have ty: "tok_Type d = TDefine" "tok_Type i = TIdentifier" "tok_Value i = fn_Name f" "tok_Type lp = TLParen" "tok_Type c = TColon"
    using split token_pair_symbol by (auto simp: token_pair_iff)
  obtain rp where rp: "tok_Type rp = TRParen" "\<And>r. parse_parameters (Suc (length (qs @ r))) [] [] (qs @ r) = Parsed (Some (fn_Parameters f, fn_ParameterTypes f)) (rp # r)"
    using parameters_back[OF _ _ split(5), of "[]" "[]"] f by auto
  have rt: "parseType (us @ r) = Parsed (Some (fn_ReturnType f)) r" for r using type_back[OF _ split(7)] f by simp
  have b: "parse_body parseStatement (bs @ r) = Parsed (fn_Block f) r" for r using printed_block_back f split(8) by (simp add: body_back_def)
  show ?thesis
    unfolding parseFunctionDefinition_def using rp(2)[of "c # us @ bs @ rest"] rp(1) ty f
    by (simp add: split(1) rt b del: parse_parameters.simps)
qed

lemma functions_back:
  assumes "list_all (\<lambda>(name, f). name = fn_Name f \<and> printable_function f) fs" "distinct (map fst (ast_Functions ast @ fs))"
    "map token_pair ts = concat (map (\<lambda>(name, f). print_function f) fs)"
  shows "parse_functions (Suc (length ts)) ast ts = Parsed (ast\<lparr>ast_Functions := ast_Functions ast @ fs\<rparr>) []"
  using assms
proof (induction fs arbitrary: ast ts)
  case (Cons nf fs)
  obtain f where f: "nf = (fn_Name f, f)" "printable_function f" using Cons.prems(1) by (cases nf) auto
  obtain xs ys where split: "ts = xs @ ys" "map token_pair xs = print_function f" "map token_pair ys = concat (map (\<lambda>(name, f). print_function f) fs)"
    using Cons.prems(3) f(1) by (auto simp: pairs_append)
  obtain d xs' where d: "xs = d # xs'" "tok_Type d = TDefine" using split(2) by (auto simp: print_function_def pairs_Cons dest!: token_pair_symbol)
  let ?ast = "ast\<lparr>ast_Functions := go_store (fn_Name f) f (ast_Functions ast)\<rparr>"
  have new: "go_store (fn_Name f) f (ast_Functions ast) = ast_Functions ast @ [nf]" using Cons.prems(2) f(1) by (intro trans[OF go_store_new]) auto
  have "parse_functions (Suc (length ts)) ast ts = parse_functions (length ts) ?ast ys"
    using function_back[OF f(2) split(2), of ys] split(1) d by simp
  also have "\<dots> = parse_functions (Suc (length ys)) ?ast ys" using split(1) d(1) by (intro functions_enough) simp
  also have "\<dots> = Parsed (?ast\<lparr>ast_Functions := ast_Functions ?ast @ fs\<rparr>) []"
    using Cons.prems(1,2) split(3) new by (intro Cons.IH) auto
  finally show ?case using new by simp
qed simp

lemma Parse_print: "printable_ast ast \<Longrightarrow> map token_pair ts = print_ast ast \<Longrightarrow> Parse ts = Parsed ast []"
  using functions_back[of "ast_Functions ast" NewAst ts]
  by (simp add: Parse_def printable_ast_def print_ast_def NewAst_def del: parse_functions.simps)

end
