(* ===== verification/Marigold_Source.thy ===== *)
theory Marigold_Source
  imports Marigold_Roundtrip
begin

text \<open>
  Source text: which programs have a printed form that the lexer reads back token by token, and the round
  trip of whole programs from their text.
\<close>

section \<open>Lists of tokens that can be put together\<close>

text \<open>
  The words \<open>string\<close>, \<open>int\<close> and \<open>float\<close> are types or, before a parenthesis, names of functions, so a list
  that ends in such a type must not be followed by a parenthesis. A closed list does not end in one.
\<close>

definition casts :: "TokenType set" where
  "casts = {TString, TInt, TFloat}"

definition closed :: "(TokenType \<times> string) list \<Rightarrow> bool" where
  "closed ps \<longleftrightarrow> lexable ps \<and> (ps = [] \<or> fst (last ps) \<notin> casts)"

lemma token_ok_context: "token_ok ty v [] \<Longrightarrow> ty \<notin> casts \<or> fst q \<noteq> TLParen \<Longrightarrow> token_ok ty v (q # qs)"
proof -
  have "TokenTypeMap ''string'' = Some TString" "TokenTypeMap ''int'' = Some TInt" "TokenTypeMap ''float'' = Some TFloat" by code_simp+
  then show "token_ok ty v [] \<Longrightarrow> ty \<notin> casts \<or> fst q \<noteq> TLParen \<Longrightarrow> token_ok ty v (q # qs)"
    by (auto simp: token_ok_def casts_def split: if_splits)
qed

lemma lexable_append: "lexable ps \<Longrightarrow> lexable qs \<Longrightarrow> ps = [] \<or> fst (last ps) \<notin> casts \<or> qs = [] \<or> fst (hd qs) \<noteq> TLParen \<Longrightarrow> lexable (ps @ qs)"
proof (induction ps)
  case (Cons p ps)
  obtain ty v where p: "p = (ty, v)" by (cases p)
  have ps: "lexable (ps @ qs)" using Cons p by (auto split: if_splits)
  have "token_ok ty v (ps @ qs)"
  proof (cases ps)
    case Nil
    then show ?thesis using Cons.prems p token_ok_context by (cases qs) auto
  next
    case (Cons q qs')
    moreover have "token_ok ty v (q # a) \<longleftrightarrow> token_ok ty v (q # b)" for a b by (simp add: token_ok_def)
    ultimately show ?thesis using Cons.prems(1) p by (metis append_Cons lexable.simps(2))
  qed
  then show ?case using ps p by simp
qed simp

lemma closed_append: "closed ps \<Longrightarrow> closed qs \<Longrightarrow> closed (ps @ qs)"
  by (auto simp: closed_def last_append intro: lexable_append)

definition closed_token :: "TokenType \<times> string \<Rightarrow> bool" where
  "closed_token p \<longleftrightarrow> closed [p]"

lemma closed_Cons: "closed_token p \<Longrightarrow> closed ps \<Longrightarrow> closed (p # ps)"
  using closed_append[of "[p]" ps] by (simp add: closed_token_def)

lemma closed_after: "lexable ps \<Longrightarrow> closed (q # qs) \<Longrightarrow> fst q \<noteq> TLParen \<Longrightarrow> closed (ps @ q # qs)"
  by (auto simp: closed_def intro: lexable_append)

lemma lexable_Cons: "closed_token p \<Longrightarrow> lexable ps \<Longrightarrow> lexable (p # ps)"
  using lexable_append[of "[p]" ps] by (simp add: closed_token_def closed_def)

lemma closed_Nil [simp]: "closed []"
  by (simp add: closed_def)

lemmas token_eval = closed_token_def closed_def casts_def token_ok_def symbol_def token_table_def symbols_unfold is_letter_def is_ident_def
  TokenTypeMap_def

lemma closed_symbols [simp]:
  "closed_token (symbol TLParen)" "closed_token (symbol TRParen)" "closed_token (symbol TLSquare)" "closed_token (symbol TRSquare)" "closed_token (symbol TLBrace)"
  "closed_token (symbol TRBrace)" "closed_token (symbol TComma)" "closed_token (symbol TColon)" "closed_token (symbol TAssign)" "closed_token (symbol TNot)" "closed_token (symbol TMinus)"
  "closed_token (symbol TReturn)" "closed_token (symbol TIf)" "closed_token (symbol TElse)" "closed_token (symbol TWhile)" "closed_token (symbol TBreak)"
  "closed_token (symbol TContinue)" "closed_token (symbol TDefine)" "closed_token (symbol TMap)"
  by (simp_all add: token_eval)

lemma closed_op: "op_level op = Some k \<Longrightarrow> closed_token (symbol op)"
  by (cases op) (simp_all add: op_level_def token_eval)

lemma closed_commas: "\<forall>p\<in>set ps. closed p \<Longrightarrow> closed (commas ps)"
  by (induction ps rule: commas.induct) (auto intro!: closed_append closed_Cons)

lemma closed_parens: "closed ps \<Longrightarrow> closed (parens b ps)"
  by (auto simp: parens_def intro!: closed_append closed_Cons)

section \<open>Words of a program\<close>

definition word_ok :: "string \<Rightarrow> bool" where
  "word_ok x \<longleftrightarrow> x \<noteq> [] \<and> is_letter (hd x) \<and> list_all is_ident x \<and> TokenTypeMap x = None"

definition call_ok :: "string \<Rightarrow> bool" where
  "call_ok x \<longleftrightarrow> word_ok x \<or> x \<in> {''len'', ''emit'', ''stop'', ''assert'', ''string'', ''int'', ''float''}"

definition float_ok :: "string \<Rightarrow> bool" where
  "float_ok v \<longleftrightarrow> number_ok (takeWhile is_digit v) \<and> (case dropWhile is_digit v of [] \<Rightarrow> False | c # ds \<Rightarrow> c = CHR ''.'' \<and> number_ok ds)"

fun lexical :: "Expression \<Rightarrow> bool" where
  "lexical (BinaryExpr op a b) \<longleftrightarrow> lexical a \<and> (case b of Some b \<Rightarrow> lexical b | None \<Rightarrow> True)"
| "lexical (UnaryExpr op a) \<longleftrightarrow> (case a of Some a \<Rightarrow> lexical a | None \<Rightarrow> True)"
| "lexical (CallExpr name args) \<longleftrightarrow> call_ok name \<and> list_all lexical args"
| "lexical (IdentifierExpr x) \<longleftrightarrow> word_ok x"
| "lexical (LiteralExpr t v) \<longleftrightarrow>
     (if t = TInt then number_ok v else if t = TFloat then float_ok v else if t = TString then True else v = ''true'' \<or> v = ''false'')"
| "lexical (ArrayLiteral es) \<longleftrightarrow> list_all lexical es"
| "lexical MapLiteral \<longleftrightarrow> True"
| "lexical (IndexExpr e i) \<longleftrightarrow> lexical e \<and> lexical i"
| "lexical (SliceExpr e i j) \<longleftrightarrow> lexical e \<and> (case i of Some i \<Rightarrow> lexical i | None \<Rightarrow> True) \<and> (case j of Some j \<Rightarrow> lexical j | None \<Rightarrow> True)"

lemma word_not_cast: "word_ok x \<Longrightarrow> x \<notin> {''string'', ''int'', ''float'', ''len'', ''emit'', ''stop'', ''assert''}"
  by (auto simp: word_ok_def TokenTypeMap_def token_table_def)

lemma word_token_ok: "word_ok x \<Longrightarrow> token_ok TIdentifier x ts"
  using word_not_cast[of x] by (auto simp: word_ok_def token_ok_def)

lemma closed_word: "word_ok x \<Longrightarrow> closed_token (TIdentifier, x)"
  by (simp add: closed_token_def closed_def casts_def word_token_ok)

lemma closed_builtin_calls:
  "closed [call_token ''len'', symbol TLParen]" "closed [call_token ''emit'', symbol TLParen]" "closed [call_token ''stop'', symbol TLParen]"
  "closed [call_token ''assert'', symbol TLParen]" "closed [call_token ''string'', symbol TLParen]" "closed [call_token ''int'', symbol TLParen]"
  "closed [call_token ''float'', symbol TLParen]"
  by (simp_all add: call_token_def token_eval)

lemma closed_call: "call_ok x \<Longrightarrow> closed ps \<Longrightarrow> closed (call_token x # symbol TLParen # ps)"
proof -
  assume x: "call_ok x" and ps: "closed ps"
  have "closed [call_token x, symbol TLParen]"
  proof (cases "word_ok x")
    case True
    then have "call_token x = (TIdentifier, x)" using word_not_cast[of x] by (simp add: call_token_def)
    then show ?thesis using True closed_word by (simp add: closed_Cons)
  next
    case False
    then have "x \<in> {''len'', ''emit'', ''stop'', ''assert'', ''string'', ''int'', ''float''}" using x by (simp only: call_ok_def simp_thms)
    then show ?thesis using closed_builtin_calls by (elim insertE emptyE) (simp_all only:)
  qed
  then show ?thesis using closed_append[of "[call_token x, symbol TLParen]" ps] ps by simp
qed

lemma closed_literal: "lexical (LiteralExpr t v) \<Longrightarrow> closed_token (literal_token t, v)"
proof -
  have "closed_token (TBoolLiteral, ''true'')" "closed_token (TBoolLiteral, ''false'')" by (simp_all add: token_eval)
  then show "lexical (LiteralExpr t v) \<Longrightarrow> closed_token (literal_token t, v)"
    by (cases t) (auto simp: closed_token_def closed_def casts_def literal_token_def token_ok_def float_ok_def)
qed

lemma closed_expr: "printable e \<Longrightarrow> lexical e \<Longrightarrow> closed (print_expr l e)"
proof (induction e arbitrary: l)
  case (BinaryExpr op a b)
  then obtain k c where "op_level op = Some k" "b = Some c" by (cases b) auto
  then show ?case using BinaryExpr closed_op[of op k] by (auto simp: Let_def intro!: closed_parens closed_append closed_Cons)
next
  case (UnaryExpr op a)
  then show ?case by (cases a) (auto intro!: closed_parens closed_Cons)
next
  case (CallExpr name args)
  then have "closed (commas (map (print_expr 0) args))" by (intro closed_commas) (auto simp: list_all_iff)
  then show ?case using CallExpr.prems(2) by (simp add: closed_call closed_append closed_Cons)
next
  case (ArrayLiteral es)
  then have "closed (commas (map (print_expr 0) es))" by (intro closed_commas) (auto simp: list_all_iff)
  then show ?case by (auto intro!: closed_append closed_Cons)
next
  case (IndexExpr e i)
  then show ?case by (cases e) (auto intro!: closed_append closed_Cons closed_word)
next
  case (SliceExpr e i j)
  then have "closed (print_expr 7 e)" by (cases e) (auto intro!: closed_Cons closed_word)
  then show ?case using SliceExpr by (auto split: option.splits intro!: closed_append closed_Cons)
next
  case (LiteralExpr t v)
  then show ?case using closed_literal[of t v] by (simp add: closed_Cons)
qed (auto intro!: closed_Cons closed_word)

lemma number_ok_String: "0 \<le> n \<Longrightarrow> number_ok (big_String n)"
proof -
  have "is_digit (digit_char d)" if "0 \<le> d" "d < 10" for d
  proof -
    have "d = 0 \<or> d = 1 \<or> d = 2 \<or> d = 3 \<or> d = 4 \<or> d = 5 \<or> d = 6 \<or> d = 7 \<or> d = 8 \<or> d = 9" using that by presburger
    moreover have "\<forall>d\<in>set [0, 1, 2, 3, 4, 5, 6, 7, 8, 9]. is_digit (digit_char d)" by code_simp
    ultimately show ?thesis by auto
  qed
  moreover have "is_digit (CHR ''0'')" by code_simp
  ultimately show "0 \<le> n \<Longrightarrow> number_ok (big_String n)"
    using pos_digits_range[of 10] pos_digits_nonempty[of 10 n] by (auto simp: number_ok_def big_Text_def nat_text_def list_all_iff)
qed

lemma lexable_type: "printable_type t \<Longrightarrow> lexable (print_type t)"
proof (induction t)
  case (SimpleType k)
  have "lexable [(TInt, ''int'')]" "lexable [(TFloat, ''float'')]" "lexable [(TString, ''string'')]" "lexable [(TBool, ''bool'')]" by (simp_all add: token_eval)
  then show ?case using SimpleType by auto
next
  case (ArrayType n t)
  then obtain u where u: "t = Some u" "lexable (print_type u)" by (cases t) auto
  have "closed_token (TIntLiteral, big_String n)" if "0 \<le> n"
    using number_ok_String[OF that] by (simp add: closed_token_def closed_def casts_def token_ok_def)
  then show ?case using u by (auto intro!: lexable_Cons)
next
  case (MapType k v)
  have "lexable [symbol TString]" by (simp add: token_eval)
  then have "lexable ([symbol TString] @ symbol TRSquare # print_type v)" using MapType lexable_append[of "[symbol TString]" "symbol TRSquare # print_type v"] by (simp add: lexable_Cons del: lexable.simps)
  then have "lexable (symbol TString # symbol TRSquare # print_type v)" by (simp only: append.simps)
  from lexable_Cons[OF closed_symbols(19) lexable_Cons[OF closed_symbols(3) this]] show ?case by simp
qed

section \<open>Programs\<close>

fun lexical_stmt :: "Statement \<Rightarrow> bool" and lexical_block :: "Block \<Rightarrow> bool" where
  "lexical_stmt (AssignmentStmt t lhs rhs) \<longleftrightarrow> lexical lhs \<and> (case rhs of Some e \<Rightarrow> lexical e | None \<Rightarrow> True)"
| "lexical_stmt (ReturnStmt e) \<longleftrightarrow> (case e of Some e \<Rightarrow> lexical e | None \<Rightarrow> True)"
| "lexical_stmt (IfStmt c b b') \<longleftrightarrow> lexical c \<and> lexical_block b \<and> (case b' of Some b \<Rightarrow> lexical_block b | None \<Rightarrow> True)"
| "lexical_stmt (WhileStmt c b) \<longleftrightarrow> lexical c \<and> lexical_block b"
| "lexical_stmt BreakStmt \<longleftrightarrow> True"
| "lexical_stmt ContinueStmt \<longleftrightarrow> True"
| "lexical_stmt (ExpressionStmt e) \<longleftrightarrow> lexical e"
| "lexical_block (Block ss vars) \<longleftrightarrow> list_all lexical_stmt ss"

definition lexical_function :: "Function \<Rightarrow> bool" where
  "lexical_function f \<longleftrightarrow> word_ok (fn_Name f) \<and> list_all word_ok (fn_Parameters f) \<and> lexical_block (fn_Block f)"

definition lexical_ast :: "Ast \<Rightarrow> bool" where
  "lexical_ast ast \<longleftrightarrow> list_all (\<lambda>(name, f). lexical_function f) (ast_Functions ast)"

text \<open>A statement may end in a type, but none starts with a parenthesis.\<close>

lemma start_not_paren: "printable_stmt s \<Longrightarrow> fst (hd (print_stmt s @ qs)) \<noteq> TLParen"
  using print_stmt_start[of s] by (auto simp: stmt_starters_def)

lemma closed_statements:
  assumes "\<forall>s\<in>set ss. printable_stmt s \<and> lexable (print_stmt s)" "closed (q # qs)" "fst q \<noteq> TLParen"
  shows "closed (concat (map print_stmt ss) @ q # qs) \<and> fst (hd (concat (map print_stmt ss) @ q # qs)) \<noteq> TLParen"
  using assms(1)
proof (induction ss)
  case (Cons s ss)
  obtain p ps where p: "concat (map print_stmt ss) @ q # qs = p # ps" by (cases "concat (map print_stmt ss) @ q # qs") auto
  have "closed (print_stmt s @ p # ps)" using Cons p by (intro closed_after) auto
  then show ?case using p start_not_paren[of s "p # ps"] Cons.prems by simp
qed (use assms(2,3) in simp)

lemma lexable_statement: "printable_stmt s \<Longrightarrow> lexical_stmt s \<Longrightarrow> lexable (print_stmt s)"
  and closed_block: "printable_block b \<Longrightarrow> lexical_block b \<Longrightarrow> closed (print_block b)"
proof (induction s and b rule: Statement.induct Block.induct)
  case (AssignmentStmt t lhs rhs)
  have l: "closed (print_expr 7 lhs)" using AssignmentStmt by (intro closed_expr) auto
  have r: "rhs = Some e \<Longrightarrow> closed (symbol TAssign # print_expr 0 e)" for e using AssignmentStmt by (auto intro!: closed_Cons closed_expr)
  have t: "t = Some u \<Longrightarrow> lexable (symbol TColon # print_type u)" for u using AssignmentStmt by (auto intro!: lexable_Cons lexable_type)
  have tr: "lexable ((case t of Some t \<Rightarrow> symbol TColon # print_type t | None \<Rightarrow> []) @ (case rhs of Some e \<Rightarrow> symbol TAssign # print_expr 0 e | None \<Rightarrow> []))"
    using r t by (cases t; cases rhs) (auto simp: closed_def intro!: lexable_append simp del: lexable.simps(2) append.simps(2))
  show ?case using l tr by (auto simp: closed_def intro!: lexable_append)
next
  case (ReturnStmt e)
  then show ?case using closed_expr by (cases e) (auto simp: closed_def intro!: lexable_Cons simp del: lexable.simps)
next
  case (IfStmt c b b')
  then have "closed (print_stmt (IfStmt c b b'))"
    by (auto split: option.splits intro!: closed_Cons closed_append closed_expr)
  then show ?case by (simp add: closed_def)
next
  case (WhileStmt c b)
  then have "closed (print_stmt (WhileStmt c b))" by (auto intro!: closed_Cons closed_append closed_expr)
  then show ?case by (simp add: closed_def)
next
  case BreakStmt
  show ?case using closed_symbols by (simp add: closed_token_def closed_def)
next
  case ContinueStmt
  show ?case using closed_symbols by (simp add: closed_token_def closed_def)
next
  case (ExpressionStmt e)
  then show ?case using closed_expr[of e 0] by (simp add: closed_def)
next
  case (Block ss vars)
  then have "closed (concat (map print_stmt ss) @ [symbol TRBrace])"
    using closed_statements[of ss "symbol TRBrace" "[]"] by (auto simp: list_all_iff closed_Cons)
  then show ?case by (simp add: closed_Cons)
qed

lemma closed_parameters:
  assumes "\<forall>(x, t)\<in>set ps. word_ok x \<and> printable_type t" "closed (q # qs)" "fst q \<noteq> TLParen"
  shows "closed (commas (map print_parameter ps) @ q # qs)"
proof -
  have param: "closed (print_parameter p @ q # qs)" if "p \<in> set ps" "closed (q # qs)" "fst q \<noteq> TLParen" for p q qs
  proof -
    have "closed (print_type (snd p) @ q # qs)" using assms(1) that by (intro closed_after lexable_type) auto
    then show ?thesis using assms(1) that(1) by (auto simp: print_parameter_def intro!: closed_Cons closed_word)
  qed
  have "set xs \<subseteq> set ps \<Longrightarrow> closed (commas (map print_parameter xs) @ q # qs)" for xs
  proof (induction xs rule: induct_list012)
    case (3 x y xs)
    then have "closed (symbol TComma # commas (map print_parameter (y # xs)) @ q # qs)" by (intro closed_Cons) auto
    then show ?case using param[of x "symbol TComma"] 3 by simp
  qed (use param assms(2,3) in auto)
  then show ?thesis by simp
qed

lemma closed_function: "printable_function f \<Longrightarrow> lexical_function f \<Longrightarrow> closed (print_function f)"
proof -
  assume p: "printable_function f" and l: "lexical_function f"
  note defs = printable_function_def lexical_function_def
  have b: "closed (print_block (fn_Block f))" using p l closed_block by (simp add: defs)
  moreover obtain q qs where q: "print_block (fn_Block f) = q # qs" "fst q = TLBrace" by (cases "fn_Block f") simp
  ultimately have "closed (print_type (fn_ReturnType f) @ print_block (fn_Block f))" using p by (auto simp: defs intro!: closed_after lexable_type)
  then have "closed (symbol TRParen # symbol TColon # print_type (fn_ReturnType f) @ print_block (fn_Block f))" by (intro closed_Cons) auto
  moreover have "\<forall>(x, t)\<in>set (zip (fn_Parameters f) (fn_ParameterTypes f)). word_ok x \<and> printable_type t"
    using p l by (auto simp: defs list_all_iff dest: set_zip_leftD set_zip_rightD)
  ultimately have "closed (commas (map print_parameter (zip (fn_Parameters f) (fn_ParameterTypes f))) @
      symbol TRParen # symbol TColon # print_type (fn_ReturnType f) @ print_block (fn_Block f))" by (intro closed_parameters) simp_all
  then show "closed (print_function f)"
    using l by (auto simp: print_function_def defs intro!: closed_Cons closed_word)
qed

lemma closed_ast: "printable_ast ast \<Longrightarrow> lexical_ast ast \<Longrightarrow> closed (print_ast ast)"
proof -
  have "list_all (\<lambda>(name, f). printable_function f) fs \<Longrightarrow> list_all (\<lambda>(name, f). lexical_function f) fs \<Longrightarrow>
    closed (concat (map (\<lambda>(name, f). print_function f) fs))" for fs :: "(string \<times> Function) list"
    by (induction fs) (auto intro!: closed_append closed_function)
  then show "printable_ast ast \<Longrightarrow> lexical_ast ast \<Longrightarrow> closed (print_ast ast)"
    unfolding printable_ast_def lexical_ast_def print_ast_def by (metis (mono_tags, lifting) case_prod_beta list.pred_mono_strong)
qed

text \<open>The source text of a program is read back; what a program must satisfy is explained below.\<close>

lemma source_parsed:
  assumes "printable_ast ast" "lexical_ast ast" "ast_Functions ast \<noteq> []"
  shows "\<exists>toks. Lex (print_tokens (print_ast ast)) = Some (toks, None) \<and> Parse toks = Parsed ast []"
proof -
  have "lexable (print_ast ast)" using closed_ast[OF assms(1,2)] by (simp add: closed_def)
  then obtain toks where "lex_loop (print_tokens (print_ast ast)) (0, 0) [] = Some (toks, None)" "map token_pair toks = print_ast ast"
    using lex_loop_print[of "print_ast ast" "(0, 0)" "[]"] by auto
  moreover have "print_tokens (print_ast ast) \<noteq> []"
    using assms(3) by (cases "ast_Functions ast") (auto simp: print_ast_def print_function_def print_tokens_def symbol_def)
  ultimately have "Lex (print_tokens (print_ast ast)) = Some (toks, None)" "map token_pair toks = print_ast ast" by (simp_all add: Lex_def)
  then show ?thesis using Parse_print[OF assms(1)] by blast
qed

text \<open>
  C7. Parsing is the inverse of printing: the source text that prints a program with at least one function,
  with parentheses only where the precedence and the associativity of the operators ask for them, is lexed
  without an error, and the parser builds the same program from its tokens. What a program must satisfy:
  its operators are there with both operands, its words and numbers can be written, and an expression
  that stands as a statement is a call.
\<close>

theorem Parse_Lex_print:
  assumes "printable_ast ast" "lexical_ast ast" "ast_Functions ast \<noteq> []"
  shows "\<exists>toks. Lex (print_tokens (print_ast ast)) = Some (toks, None) \<and> Parse toks = Parsed ast []"
  using assms by (rule source_parsed)

text \<open>
  A program with nested operators of all levels, whose text is
  \<open>define f ( n : int , xs : [ ] string ) : int { x : int = - ( 1 + 2 ) * n while x < n && ! ( len ( xs ) == 0 ) \<dots>\<close>.
\<close>

definition sample_ast :: Ast where
  "sample_ast = NewAst\<lparr>ast_Functions := [(''f'', \<lparr>fn_Name = ''f'', fn_Parameters = [''n'', ''xs''],
     fn_ParameterTypes = [IntType, ArrayType (- 1) (Some StringType)], fn_ReturnType = IntType,
     fn_Block = Block
       [AssignmentStmt (Some IntType) (IdentifierExpr ''x'')
          (Some (BinaryExpr TMultiply (UnaryExpr TMinus (Some (BinaryExpr TPlus (LiteralExpr TInt ''1'') (Some (LiteralExpr TInt ''2'')))))
            (Some (IdentifierExpr ''n'')))),
        WhileStmt (BinaryExpr TLogicalAnd (BinaryExpr TLessThan (IdentifierExpr ''x'') (Some (IdentifierExpr ''n'')))
            (Some (UnaryExpr TNot (Some (BinaryExpr TEqual (CallExpr ''len'' [IdentifierExpr ''xs'']) (Some (LiteralExpr TInt ''0'')))))))
          (Block
             [AssignmentStmt None (IndexExpr (IdentifierExpr ''xs'') (LiteralExpr TInt ''0'')) (Some (LiteralExpr TString ''a b'')),
              IfStmt (BinaryExpr TEqual (IdentifierExpr ''x'')
                  (Some (BinaryExpr TExponent (LiteralExpr TInt ''2'') (Some (BinaryExpr TExponent (LiteralExpr TInt ''3'') (Some (LiteralExpr TInt ''2'')))))))
                (Block [BreakStmt] [])
                (Some (Block [AssignmentStmt None (IdentifierExpr ''x'')
                   (Some (BinaryExpr TMinus (IdentifierExpr ''x'') (Some (BinaryExpr TMinus (LiteralExpr TInt ''1'') (Some (LiteralExpr TInt ''2''))))))] []))] []),
        ExpressionStmt (CallExpr ''emit'' [CallExpr ''string'' [IdentifierExpr ''x'']]),
        ReturnStmt (Some (IdentifierExpr ''x''))] []\<rparr>)]\<rparr>"

theorem Parse_Lex_print_witness:
  "\<exists>toks. Lex (print_tokens (print_ast sample_ast)) = Some (toks, None) \<and> Parse toks = Parsed sample_ast []"
proof (rule Parse_Lex_print)
  show "printable_ast sample_ast" by code_simp
  show "lexical_ast sample_ast" by code_simp
  show "ast_Functions sample_ast \<noteq> []" by (simp add: sample_ast_def)
qed

end
