(* ===== verification/Marigold_Typechecker.thy ===== *)
theory Marigold_Typechecker
  imports Marigold_Syntax "HOL-Library.Monad_Syntax"
begin

text \<open>
  The type checker of the Marigold compiler, \<open>src/marigold/typechecker.go\<close>. It enters the variables of a
  program into the scopes of its blocks, loads context variables into the global scope and completes
  the sizes of declared arrays, so it returns the program with its scopes filled. \<open>None\<close> is a panic: a
  reported type error or a method call on a nil type. A nil type is \<open>None\<close> inside the result.
\<close>

section \<open>The context\<close>

text \<open>
  The current scope is the list of the variables of the current block and of the enclosing blocks; the
  last one is the global scope, which all functions share.
\<close>

record TypeCheckContext =
  tc_Functions :: "(string, Function) gomap"
  tc_currentFunction :: "Function option"
  tc_currentScope :: "Variables list"
  tc_inLoop :: bool

fun findVariable :: "Variables list \<Rightarrow> string \<Rightarrow> Type option" where
  "findVariable [] name = None"
| "findVariable (vars # parents) name = (case map_of vars name of Some t \<Rightarrow> Some t | None \<Rightarrow> findVariable parents name)"

text \<open>The assignments \<open>ctx.ast.Scope.Variables[name] = ...\<close> and \<open>ctx.currentScope.Variables[name] = ...\<close>.\<close>

definition add_global :: "string \<Rightarrow> Type \<Rightarrow> TypeCheckContext \<Rightarrow> TypeCheckContext" where
  "add_global name t ctx =
     (let scopes = tc_currentScope ctx
      in ctx\<lparr>tc_currentScope := butlast scopes @ [go_store name t (last scopes)]\<rparr>)"

definition add_local :: "string \<Rightarrow> Type \<Rightarrow> TypeCheckContext \<Rightarrow> TypeCheckContext" where
  "add_local name t ctx =
     (let scopes = tc_currentScope ctx
      in ctx\<lparr>tc_currentScope := go_store name t (hd scopes) # tl scopes\<rparr>)"

section \<open>Operators\<close>

text \<open>\<open>t.Equals(u)\<close> for a simple type \<open>u\<close>, which never panics.\<close>

abbreviation equals :: "Type \<Rightarrow> Type \<Rightarrow> bool" where
  "equals t u \<equiv> Type_Equals t (Some u) = Some True"

definition isValidUnaryOperatorUse :: "TokenType \<Rightarrow> Type \<Rightarrow> bool" where
  "isValidUnaryOperatorUse op operandType = (case op of TMinus \<Rightarrow> IsNumeric operandType | _ \<Rightarrow> False)"

definition isValidBinaryOperatorUse :: "TokenType \<Rightarrow> Type \<Rightarrow> Type \<Rightarrow> bool option" where
  "isValidBinaryOperatorUse op lhs rhs =
     (if op \<in> {TPlus, TLessThan, TLessEqual, TGreaterThan, TGreaterEqual} then
        Some (equals lhs StringType \<and> equals rhs StringType \<or> IsNumeric lhs \<and> IsNumeric rhs)
      else if op \<in> {TMinus, TMultiply, TDivide, TModulo, TExponent} then Some (IsNumeric lhs \<and> IsNumeric rhs)
      else if op \<in> {TEqual, TNotEqual} then do {
        forth \<leftarrow> IsAssignableTo lhs (Some rhs);
        if forth then Some True else IsAssignableTo rhs (Some lhs)
      }
      else if op \<in> {TLogicalAnd, TLogicalOr} then Some (equals lhs BoolType \<and> equals rhs BoolType)
      else Some False)"

definition binary_type :: "TokenType \<Rightarrow> Type \<Rightarrow> Type \<Rightarrow> Type" where
  "binary_type op lhs rhs =
     (if op \<in> {TLessThan, TLessEqual, TGreaterThan, TGreaterEqual, TEqual, TNotEqual} then BoolType
      else if op \<in> {TLogicalAnd, TLogicalOr} then BoolType
      else if op = TPlus \<and> equals lhs StringType \<and> equals rhs StringType then StringType
      else if op \<in> {TPlus, TMinus, TMultiply, TModulo} then
        (if equals lhs FloatType \<or> equals rhs FloatType then FloatType else IntType)
      else if op \<in> {TDivide, TExponent} then FloatType
      else lhs)"

text \<open>The type of a call of a built-in function of one argument, from the type of the argument.\<close>

definition builtin_type :: "string \<Rightarrow> (Type \<Rightarrow> Type option) option" where
  "builtin_type funcName =
     (let one_of = (\<lambda>us t. \<exists>u\<in>set us. equals t u) in
      if funcName = ''len'' then Some (\<lambda>t.
        if equals t StringType then Some IntType
        else case t of ArrayType n e \<Rightarrow> Some IntType | MapType k v \<Rightarrow> Some IntType | SimpleType k \<Rightarrow> None)
      else if funcName = ''string'' then Some (\<lambda>t. if one_of [IntType, FloatType, StringType] t then Some StringType else None)
      else if funcName = ''int'' then Some (\<lambda>t. if one_of [IntType, FloatType, StringType] t then Some IntType else None)
      else if funcName = ''float'' then Some (\<lambda>t. if one_of [IntType, FloatType, StringType] t then Some FloatType else None)
      else if funcName = ''emit'' then Some (\<lambda>t. if one_of [IntType, FloatType, StringType, BoolType] t then Some AnyType else None)
      else if funcName = ''assert'' then Some (\<lambda>t. if equals t BoolType then Some BoolType else None)
      else None)"

section \<open>Expressions\<close>

definition identifier_type :: "string \<Rightarrow> TypeCheckContext \<Rightarrow> (Type option \<times> TypeCheckContext) option" where
  "identifier_type varName ctx =
     (case findVariable (tc_currentScope ctx) varName of
        Some t \<Rightarrow> Some (Some t, ctx)
      | None \<Rightarrow>
          (case GetBlockchainContextVariable varName of
             Some t \<Rightarrow> Some (Some t, add_global varName t ctx)
           | None \<Rightarrow> if map_of (tc_Functions ctx) varName \<noteq> None then Some (TypeFromTokenType TFunction, ctx) else None))"

text \<open>The type of an indexed value; the inner \<open>None\<close> is the nil element type of an array.\<close>

definition index_type :: "Type \<Rightarrow> Type option \<Rightarrow> Type option option" where
  "index_type lhsType indexType = do {
     i \<leftarrow> indexType;
     if equals lhsType StringType then do {
       ok \<leftarrow> IsAssignableTo i (Some IntType);
       if ok then Some (Some StringType) else None
     }
     else case lhsType of
       ArrayType n e \<Rightarrow> do { ok \<leftarrow> IsAssignableTo i (Some IntType); if ok then Some e else None }
     | MapType k v \<Rightarrow> if equals i StringType then Some (Some v) else None
     | SimpleType k \<Rightarrow> None
   }"

fun typecheckExpression :: "TypeCheckContext \<Rightarrow> Expression \<Rightarrow> (Type option \<times> TypeCheckContext) option"
  and typecheck_operand :: "TypeCheckContext \<Rightarrow> Expression option \<Rightarrow> (Type option \<times> TypeCheckContext) option"
  and typecheck_arguments :: "TypeCheckContext \<Rightarrow> Expression list \<Rightarrow> Type list \<Rightarrow> TypeCheckContext option"
  and typecheck_elements :: "TypeCheckContext \<Rightarrow> Type option \<Rightarrow> Expression list \<Rightarrow> TypeCheckContext option"
  and typecheck_bound :: "TypeCheckContext \<Rightarrow> Expression option \<Rightarrow> TypeCheckContext option" where
  "typecheckExpression ctx (UnaryExpr op rhs) = do {
     (rhsType, ctx) \<leftarrow> typecheck_operand ctx rhs;
     t \<leftarrow> rhsType;
     if isValidUnaryOperatorUse op t then Some (Some t, ctx) else None
   }"
| "typecheckExpression ctx (LiteralExpr valueType value) = Some (TypeFromTokenType valueType, ctx)"
| "typecheckExpression ctx (IdentifierExpr varName) = identifier_type varName ctx"
| "typecheckExpression ctx (BinaryExpr op lhs rhs) = do {
     (lhsType, ctx) \<leftarrow> typecheckExpression ctx lhs;
     (rhsType, ctx) \<leftarrow> typecheck_operand ctx rhs;
     l \<leftarrow> lhsType;
     r \<leftarrow> rhsType;
     ok \<leftarrow> isValidBinaryOperatorUse op l r;
     if ok then Some (Some (binary_type op l r), ctx) else None
   }"
| "typecheckExpression ctx (CallExpr funcName args) =
     (case builtin_type funcName of
        Some result \<Rightarrow>
          (case args of
             [arg] \<Rightarrow> do {
               (argType, ctx) \<leftarrow> typecheckExpression ctx arg;
               t \<leftarrow> argType;
               r \<leftarrow> result t;
               Some (Some r, ctx)
             }
           | _ \<Rightarrow> None)
      | None \<Rightarrow>
          if funcName = ''stop'' then (if args = [] then Some (Some AnyType, ctx) else None)
          else do {
            fd \<leftarrow> map_of (tc_Functions ctx) funcName;
            ctx \<leftarrow> (if length args = length (fn_ParameterTypes fd) then typecheck_arguments ctx args (fn_ParameterTypes fd) else None);
            Some (Some (fn_ReturnType fd), ctx)
          })"
| "typecheckExpression ctx (ArrayLiteral args) =
     (case args of
        [] \<Rightarrow> Some (None, ctx)
      | arg # elements \<Rightarrow> do {
          (firstType, ctx) \<leftarrow> typecheckExpression ctx arg;
          ctx \<leftarrow> typecheck_elements ctx firstType elements;
          Some (Some (NewArrayType (- 1) firstType), ctx)
        })"
| "typecheckExpression ctx MapLiteral = Some (None, ctx)"
| "typecheckExpression ctx (IndexExpr lhs rhs) = do {
     (lhsType, ctx) \<leftarrow> typecheckExpression ctx lhs;
     (indexType, ctx) \<leftarrow> typecheckExpression ctx rhs;
     l \<leftarrow> lhsType;
     t \<leftarrow> index_type l indexType;
     Some (t, ctx)
   }"
| "typecheckExpression ctx (SliceExpr lhs sliceStart sliceEnd) = do {
     (lhsType, ctx) \<leftarrow> typecheckExpression ctx lhs;
     l \<leftarrow> lhsType;
     if \<not> equals l StringType then None
     else do {
       ctx \<leftarrow> typecheck_bound ctx sliceStart;
       ctx \<leftarrow> typecheck_bound ctx sliceEnd;
       Some (Some StringType, ctx)
     }
   }"
| "typecheck_operand ctx None = None"
| "typecheck_operand ctx (Some e) = typecheckExpression ctx e"
| "typecheck_arguments ctx [] params = Some ctx"
| "typecheck_arguments ctx (arg # args) [] = None"
| "typecheck_arguments ctx (arg # args) (paramType # params) = do {
     (argType, ctx) \<leftarrow> typecheckExpression ctx arg;
     t \<leftarrow> argType;
     ok \<leftarrow> IsAssignableTo t (Some paramType);
     if ok then typecheck_arguments ctx args params else None
   }"
| "typecheck_elements ctx firstType [] = Some ctx"
| "typecheck_elements ctx firstType (element # elements) = do {
     (elementType, ctx) \<leftarrow> typecheckExpression ctx element;
     t \<leftarrow> elementType;
     ok \<leftarrow> Type_Equals t firstType;
     if ok then typecheck_elements ctx firstType elements else None
   }"
| "typecheck_bound ctx None = Some ctx"
| "typecheck_bound ctx (Some e) = do {
     (boundType, ctx) \<leftarrow> typecheckExpression ctx e;
     t \<leftarrow> boundType;
     ok \<leftarrow> IsAssignableTo t (Some IntType);
     if ok then Some ctx else None
   }"

section \<open>Statements\<close>

text \<open>The value of a node that is a string: the name or the text it holds.\<close>

fun node_value :: "Expression \<Rightarrow> string option" where
  "node_value (IdentifierExpr x) = Some x"
| "node_value (LiteralExpr vt v) = Some v"
| "node_value (CallExpr f args) = Some f"
| "node_value _ = None"

text \<open>
  The declared type and the type of the value of a declaration after the sizes of arrays have been
  completed. An empty literal has the declared type itself, which both variables then point to.
\<close>

definition declaration_types :: "Type \<Rightarrow> Type option \<Rightarrow> Expression \<Rightarrow> (Type \<times> Type) option" where
  "declaration_types varType rhsType rhs =
     (let valueType = (case rhsType of Some t \<Rightarrow> t | None \<Rightarrow> varType) in
      case (varType, valueType, rhs) of
        (ArrayType declSize d, ArrayType rhsSize r, ArrayLiteral args) \<Rightarrow>
          (let literalSize = int (length args) in
           if declSize = - 1 then Some (ArrayType literalSize d, ArrayType literalSize r)
           else if rhsSize = - 1 then
             (if declSize \<noteq> literalSize then None else Some (varType, ArrayType literalSize r))
           else Some (varType, valueType))
      | _ \<Rightarrow> Some (varType, valueType))"

definition typecheck_declaration :: "TypeCheckContext \<Rightarrow> Type \<Rightarrow> Expression \<Rightarrow> Expression option \<Rightarrow>
    (TypeCheckContext \<times> Type) option" where
  "typecheck_declaration ctx varType lhs rhs = do {
     varName \<leftarrow> node_value lhs;
     if map_of (hd (tc_currentScope ctx)) varName \<noteq> None then None
     else do {
       (ctx, varType) \<leftarrow> (case rhs of
           None \<Rightarrow> Some (ctx, varType)
         | Some e \<Rightarrow> do {
             (rhsType, ctx) \<leftarrow> typecheckExpression ctx e;
             (varType, valueType) \<leftarrow> declaration_types varType rhsType e;
             ok \<leftarrow> IsAssignableTo valueType (Some varType);
             if ok then Some (ctx, varType) else None
           });
       Some (add_local varName varType ctx, varType)
     }
   }"

definition typecheck_reassignment :: "TypeCheckContext \<Rightarrow> Expression \<Rightarrow> Expression option \<Rightarrow> TypeCheckContext option" where
  "typecheck_reassignment ctx lhs rhs = do {
     (lhsType, ctx) \<leftarrow> (case lhs of
         IdentifierExpr varName \<Rightarrow>
           (case findVariable (tc_currentScope ctx) varName of Some t \<Rightarrow> Some (Some t, ctx) | None \<Rightarrow> None)
       | IndexExpr base key \<Rightarrow> typecheckExpression ctx lhs
       | _ \<Rightarrow> None);
     (rhsType, ctx) \<leftarrow> typecheck_operand ctx rhs;
     t \<leftarrow> rhsType;
     ok \<leftarrow> IsAssignableTo t lhsType;
     if ok then Some ctx else None
   }"

definition typecheck_return :: "TypeCheckContext \<Rightarrow> Expression option \<Rightarrow> TypeCheckContext option" where
  "typecheck_return ctx rhs = do {
     (actualType, ctx) \<leftarrow> typecheck_operand ctx rhs;
     f \<leftarrow> tc_currentFunction ctx;
     let expectedType = fn_ReturnType f;
     t \<leftarrow> (case (actualType, expectedType) of
         (Some t, _) \<Rightarrow> Some t
       | (None, SimpleType k) \<Rightarrow> None
       | (None, _) \<Rightarrow> Some expectedType);
     ok \<leftarrow> IsAssignableTo t (Some expectedType);
     if ok then Some ctx else None
   }"

definition typecheck_condition :: "TypeCheckContext \<Rightarrow> Expression \<Rightarrow> TypeCheckContext option" where
  "typecheck_condition ctx cond = do {
     (conditionType, ctx) \<leftarrow> typecheckExpression ctx cond;
     t \<leftarrow> conditionType;
     if equals t BoolType then Some ctx else None
   }"

text \<open>
  A block is checked in its own scope, which is pushed and popped with the block; the variables entered
  meanwhile stay in the scope of the block and in the global scope.
\<close>

fun typecheck_statement :: "TypeCheckContext \<Rightarrow> Statement \<Rightarrow> (TypeCheckContext \<times> Statement) option"
  and typecheck_nested :: "TypeCheckContext \<Rightarrow> bool \<Rightarrow> Block \<Rightarrow> (TypeCheckContext \<times> Block) option"
  and typecheck_statements :: "TypeCheckContext \<Rightarrow> Statement list \<Rightarrow> (TypeCheckContext \<times> Statement list) option" where
  "typecheck_statement ctx (AssignmentStmt varType lhs rhs) =
     (case varType of
        Some t \<Rightarrow> do {
          (ctx, t) \<leftarrow> typecheck_declaration ctx t lhs rhs;
          Some (ctx, AssignmentStmt (Some t) lhs rhs)
        }
      | None \<Rightarrow> do {
          ctx \<leftarrow> typecheck_reassignment ctx lhs rhs;
          Some (ctx, AssignmentStmt None lhs rhs)
        })"
| "typecheck_statement ctx (ReturnStmt rhs) = do {
     ctx \<leftarrow> typecheck_return ctx rhs;
     Some (ctx, ReturnStmt rhs)
   }"
| "typecheck_statement ctx (IfStmt cond block elseBlock) = do {
     ctx \<leftarrow> typecheck_condition ctx cond;
     (ctx, block) \<leftarrow> typecheck_nested ctx (tc_inLoop ctx) block;
     (case elseBlock of
        None \<Rightarrow> Some (ctx, IfStmt cond block None)
      | Some b \<Rightarrow> do {
          (ctx, b) \<leftarrow> typecheck_nested ctx (tc_inLoop ctx) b;
          Some (ctx, IfStmt cond block (Some b))
        })
   }"
| "typecheck_statement ctx (WhileStmt cond block) = do {
     ctx \<leftarrow> typecheck_condition ctx cond;
     (ctx, block) \<leftarrow> typecheck_nested ctx True block;
     Some (ctx, WhileStmt cond block)
   }"
| "typecheck_statement ctx BreakStmt = (if tc_inLoop ctx then Some (ctx, BreakStmt) else None)"
| "typecheck_statement ctx ContinueStmt = (if tc_inLoop ctx then Some (ctx, ContinueStmt) else None)"
| "typecheck_statement ctx (ExpressionStmt rhs) = do {
     (t, ctx) \<leftarrow> typecheckExpression ctx rhs;
     Some (ctx, ExpressionStmt rhs)
   }"
| "typecheck_nested ctx inLoop (Block stmts vars) = do {
     (ctx', stmts) \<leftarrow> typecheck_statements (ctx\<lparr>tc_currentScope := vars # tc_currentScope ctx, tc_inLoop := inLoop\<rparr>) stmts;
     Some (ctx'\<lparr>tc_currentScope := tl (tc_currentScope ctx'), tc_inLoop := tc_inLoop ctx\<rparr>,
           Block stmts (hd (tc_currentScope ctx')))
   }"
| "typecheck_statements ctx [] = Some (ctx, [])"
| "typecheck_statements ctx (stmt # stmts) = do {
     (ctx, stmt) \<leftarrow> typecheck_statement ctx stmt;
     (ctx, stmts) \<leftarrow> typecheck_statements ctx stmts;
     Some (ctx, stmt # stmts)
   }"

section \<open>Functions and programs\<close>

fun inject_parameters :: "string list \<Rightarrow> Type list \<Rightarrow> Variables \<Rightarrow> Variables option" where
  "inject_parameters [] types scope = Some scope"
| "inject_parameters (paramName # params) types scope =
     (if map_of scope paramName \<noteq> None then None
      else case types of
        [] \<Rightarrow> None
      | paramType # types \<Rightarrow> inject_parameters params types (go_store paramName paramType scope))"

text \<open>The block of a function is checked in its scope, whose parent is the global one.\<close>

definition typecheckFunctionDefinition :: "TypeCheckContext \<Rightarrow> Function \<Rightarrow> (TypeCheckContext \<times> Function) option" where
  "typecheckFunctionDefinition ctx fd = do {
     vars \<leftarrow> inject_parameters (fn_Parameters fd) (fn_ParameterTypes fd) (Scope_Variables (fn_Block fd));
     (ctx, block) \<leftarrow> typecheck_nested (ctx\<lparr>tc_currentFunction := Some fd, tc_currentScope := [last (tc_currentScope ctx)]\<rparr>)
        (tc_inLoop ctx) (Block (Statements (fn_Block fd)) vars);
     Some (ctx, fd\<lparr>fn_Block := block\<rparr>)
   }"

fun typecheck_functions :: "TypeCheckContext \<Rightarrow> (string, Function) gomap \<Rightarrow>
    (TypeCheckContext \<times> (string, Function) gomap) option" where
  "typecheck_functions ctx [] = Some (ctx, [])"
| "typecheck_functions ctx ((name, fd) # fds) = do {
     (ctx, fd) \<leftarrow> typecheckFunctionDefinition ctx fd;
     (ctx, fds) \<leftarrow> typecheck_functions ctx fds;
     Some (ctx, (name, fd) # fds)
   }"

text \<open>The signature that \<open>init\<close> and \<open>call\<close> must have.\<close>

definition entry_signature :: "Ast \<Rightarrow> string \<Rightarrow> bool" where
  "entry_signature ast name = (case map_of (ast_Functions ast) name of
      None \<Rightarrow> False
    | Some f \<Rightarrow> length (fn_Parameters f) = 0 \<and> equals (fn_ReturnType f) IntType)"

definition Typecheck :: "Ast \<Rightarrow> Ast option" where
  "Typecheck ast =
     (if \<not> entry_signature ast ''init'' \<or> \<not> entry_signature ast ''call'' then None
      else do {
        (ctx, fds) \<leftarrow> typecheck_functions
          \<lparr>tc_Functions = ast_Functions ast, tc_currentFunction = None, tc_currentScope = [ast_Scope ast], tc_inLoop = False\<rparr>
          (ast_Functions ast);
        Some \<lparr>ast_Functions = fds, ast_Scope = last (tc_currentScope ctx)\<rparr>
      })"

end
