(* ===== verification/Marigold_Typing.thy ===== *)
theory Marigold_Typing
  imports Marigold_Typechecker
begin

text \<open>
  What the type checker establishes about expressions: a typing relation in rules, without a state,
  that \<open>typecheckExpression\<close> decides. The only trace that checking leaves is that context variables are
  entered into the global scope with their own type.
\<close>

section \<open>Context variables in the global scope\<close>

definition loads :: "TypeCheckContext \<Rightarrow> TypeCheckContext \<Rightarrow> bool" where
  "loads ctx ctx' \<longleftrightarrow>
     (\<exists>vars. ctx' = ctx\<lparr>tc_currentScope := butlast (tc_currentScope ctx) @ [vars]\<rparr> \<and>
        (\<forall>x. map_of vars x = map_of (last (tc_currentScope ctx)) x \<or>
             map_of (last (tc_currentScope ctx)) x = None \<and> map_of vars x = GetBlockchainContextVariable x)) \<and>
     tc_currentScope ctx \<noteq> []"

lemma loads_refl [simp]: "tc_currentScope ctx \<noteq> [] \<Longrightarrow> loads ctx ctx"
  unfolding loads_def by (intro conjI exI[of _ "last (tc_currentScope ctx)"]) simp_all

lemma loads_trans: "loads c1 c2 \<Longrightarrow> loads c2 c3 \<Longrightarrow> loads c1 c3"
  unfolding loads_def by clarsimp metis

lemma loads_simps:
  assumes "loads ctx ctx'"
  shows "tc_Functions ctx' = tc_Functions ctx" "tc_currentFunction ctx' = tc_currentFunction ctx"
    "tc_inLoop ctx' = tc_inLoop ctx" "tc_currentScope ctx' \<noteq> []" "tc_currentScope ctx \<noteq> []"
    "length (tc_currentScope ctx') = length (tc_currentScope ctx)"
  using assms by (auto simp: loads_def)

lemma findVariable_append: "findVariable (ss @ [vars]) x = (case findVariable ss x of Some t \<Rightarrow> Some t | None \<Rightarrow> map_of vars x)"
  by (induction ss) (auto split: option.splits)

lemma findVariable_last: "ss \<noteq> [] \<Longrightarrow> findVariable ss x =
    (case findVariable (butlast ss) x of Some t \<Rightarrow> Some t | None \<Rightarrow> map_of (last ss) x)"
  using findVariable_append[of "butlast ss" "last ss" x] by simp

text \<open>The type of a name as an expression sees it.\<close>

definition env :: "TypeCheckContext \<Rightarrow> string \<Rightarrow> Type option" where
  "env ctx x = (case findVariable (tc_currentScope ctx) x of Some t \<Rightarrow> Some t | None \<Rightarrow> GetBlockchainContextVariable x)"

lemma loads_env: "loads ctx ctx' \<Longrightarrow> env ctx' = env ctx"
proof
  fix x assume "loads ctx ctx'"
  then obtain vars where v: "tc_currentScope ctx' = butlast (tc_currentScope ctx) @ [vars]" "tc_currentScope ctx \<noteq> []"
    "map_of vars x = map_of (last (tc_currentScope ctx)) x \<or>
     map_of (last (tc_currentScope ctx)) x = None \<and> map_of vars x = GetBlockchainContextVariable x"
    unfolding loads_def by auto
  then show "env ctx' x = env ctx x"
    by (auto simp: env_def findVariable_append findVariable_last[OF v(2)] split: option.splits)
qed

lemma loads_find: "loads ctx ctx' \<Longrightarrow> GetBlockchainContextVariable x = None \<Longrightarrow>
    findVariable (tc_currentScope ctx') x = findVariable (tc_currentScope ctx) x"
  using fun_cong[OF loads_env[of ctx ctx'], of x] by (auto simp: env_def split: option.splits)

lemma loads_add_global:
  assumes "tc_currentScope ctx \<noteq> []" "findVariable (tc_currentScope ctx) x = None" "GetBlockchainContextVariable x = Some t"
  shows "loads ctx (add_global x t ctx)"
proof -
  have "map_of (last (tc_currentScope ctx)) x = None"
    using assms(2) by (simp add: findVariable_last[OF assms(1)] split: option.splits)
  with assms show ?thesis
    unfolding loads_def add_global_def Let_def by (intro conjI exI) (auto split: if_splits)
qed

lemma typecheckExpression_loads:
  "typecheckExpression ctx e = Some (t, ctx') \<Longrightarrow> tc_currentScope ctx \<noteq> [] \<Longrightarrow> loads ctx ctx'"
  "typecheck_operand ctx oe = Some (t, ctx') \<Longrightarrow> tc_currentScope ctx \<noteq> [] \<Longrightarrow> loads ctx ctx'"
  "typecheck_arguments ctx es params = Some ctx' \<Longrightarrow> tc_currentScope ctx \<noteq> [] \<Longrightarrow> loads ctx ctx'"
  "typecheck_elements ctx ft es = Some ctx' \<Longrightarrow> tc_currentScope ctx \<noteq> [] \<Longrightarrow> loads ctx ctx'"
  "typecheck_bound ctx oe = Some ctx' \<Longrightarrow> tc_currentScope ctx \<noteq> [] \<Longrightarrow> loads ctx ctx'"
proof (induction ctx e and ctx oe and ctx es params and ctx ft es and ctx oe
    arbitrary: t ctx' and t ctx' and ctx' and ctx' and ctx'
    rule: typecheckExpression_typecheck_operand_typecheck_arguments_typecheck_elements_typecheck_bound.induct)
  case (3 ctx varName)
  then show ?case by (auto simp: identifier_type_def loads_add_global split: option.splits if_splits)
next
  case (4 ctx op lhs rhs)
  then obtain l c1 r where c: "typecheckExpression ctx lhs = Some (l, c1)" "typecheck_operand c1 rhs = Some (r, ctx')"
    by (auto simp: bind_eq_Some_conv split: if_splits)
  show ?case using 4(1)[OF c(1) 4(4)] 4(2)[OF c(1) refl c(2)] loads_trans loads_simps(4) by blast
next
  case (5 ctx funcName args)
  then show ?case
    by (auto simp: bind_eq_Some_conv split: option.splits if_splits list.splits)
next
  case (6 ctx args)
  show ?case
  proof (cases args)
    case (Cons arg es)
    then obtain ft c1 where c: "typecheckExpression ctx arg = Some (ft, c1)" "typecheck_elements c1 ft es = Some ctx'"
      using 6(3) by (auto simp: bind_eq_Some_conv)
    show ?thesis using 6(1)[OF Cons c(1) 6(4)] 6(2)[OF Cons c(1) refl c(2)] loads_trans loads_simps(4) by blast
  qed (use 6 in simp)
next
  case (8 ctx lhs rhs)
  then obtain l c1 r where c: "typecheckExpression ctx lhs = Some (l, c1)" "typecheckExpression c1 rhs = Some (r, ctx')"
    by (auto simp: bind_eq_Some_conv)
  show ?case using 8(1)[OF c(1) 8(4)] 8(2)[OF c(1) refl c(2)] loads_trans loads_simps(4) by blast
next
  case (9 ctx lhs sliceStart sliceEnd)
  then obtain l c1 c2 where c: "typecheckExpression ctx lhs = Some (Some l, c1)" "equals l StringType"
    "typecheck_bound c1 sliceStart = Some c2" "typecheck_bound c2 sliceEnd = Some ctx'"
    by (auto simp: bind_eq_Some_conv split: if_splits)
  have 1: "loads ctx c1" using 9(1)[OF c(1) 9(5)] .
  have 2: "loads c1 c2" using 9(2)[OF c(1) refl refl _ c(3)] c(2) loads_simps(4)[OF 1] by simp
  have 3: "loads c2 ctx'" using 9(3)[OF c(1) refl refl _ c(3) c(4)] c(2) loads_simps(4)[OF 2] by simp
  show ?case using 1 2 3 loads_trans by blast
next
  case (14 ctx arg args paramType params)
  then obtain t c1 where c: "typecheckExpression ctx arg = Some (Some t, c1)" "IsAssignableTo t (Some paramType) = Some True"
    "typecheck_arguments c1 args params = Some ctx'"
    by (auto simp: bind_eq_Some_conv split: if_splits)
  show ?case using 14(1)[OF c(1) 14(4)] 14(2)[OF c(1) refl refl c(2) _ c(3)] loads_trans loads_simps(4) by blast
next
  case (16 ctx firstType element elements)
  then obtain t c1 where c: "typecheckExpression ctx element = Some (Some t, c1)" "Type_Equals t firstType = Some True"
    "typecheck_elements c1 firstType elements = Some ctx'"
    by (auto simp: bind_eq_Some_conv split: if_splits)
  show ?case using 16(1)[OF c(1) 16(4)] 16(2)[OF c(1) refl refl c(2) _ c(3)] loads_trans loads_simps(4) by blast
qed (auto simp: bind_eq_Some_conv split: if_splits)

section \<open>The typing relation\<close>

lemma equals_simple: "Type_Equals t (Some (SimpleType k)) = Some (t = SimpleType k)"
  by (cases t) simp_all

lemma equals_iff:
  "equals t IntType \<longleftrightarrow> t = IntType" "equals t FloatType \<longleftrightarrow> t = FloatType"
  "equals t StringType \<longleftrightarrow> t = StringType" "equals t BoolType \<longleftrightarrow> t = BoolType"
  by (simp_all add: simple_types equals_simple)

lemma IsNumeric_iff: "IsNumeric t \<longleftrightarrow> t = IntType \<or> t = FloatType"
  by (cases t) (auto simp: IsNumeric_def simple_types)

text \<open>
  Two types are compatible when they are the same, with no element type left open, or both numeric.
  This is what \<open>IsAssignableTo\<close> decides, and it is symmetric.
\<close>

definition compatible :: "Type \<Rightarrow> Type \<Rightarrow> bool" where
  "compatible t u \<longleftrightarrow> t = u \<and> complete t \<or> {t, u} \<subseteq> {IntType, FloatType}"

lemma Type_Equals_True: "Type_Equals t u = Some True \<longleftrightarrow> u = Some t \<and> complete t"
proof (induction t arbitrary: u)
  case (SimpleType k)
  then show ?case by (cases u) (auto split: Type.splits)
next
  case (ArrayType n e)
  show ?case
  proof (cases u)
    case (Some v)
    then show ?thesis using ArrayType by (cases v) (auto split: option.splits)
  qed simp
next
  case (MapType k v)
  show ?case
  proof (cases u)
    case (Some w)
    show ?thesis
    proof (cases w)
      case m: (MapType k' v')
      then show ?thesis using Some MapType.IH(1)[of "Some k'"] MapType.IH(2)[of "Some v'"] by (cases "Type_Equals k (Some k')") auto
    qed (use Some in simp_all)
  qed simp
qed

lemma assignable_iff: "IsAssignableTo t (Some u) = Some True \<longleftrightarrow> compatible t u"
proof (cases "\<exists>k. t = SimpleType k")
  case True
  then show ?thesis using IsAssignableTo_iff[of t "Some u"] by (auto simp: compatible_def IsNumeric_iff)
next
  case False
  then have "IsAssignableTo t (Some u) = Type_Equals t (Some u)" "t \<notin> {IntType, FloatType}"
    by (cases t; simp add: IsAssignableTo_def simple_types)+
  then show ?thesis by (auto simp: Type_Equals_True compatible_def)
qed

lemma compatible_sym: "compatible t u \<Longrightarrow> compatible u t"
  by (auto simp: compatible_def)

lemma compatible_int: "compatible t IntType \<longleftrightarrow> t \<in> {IntType, FloatType}"
  by (auto simp: compatible_def)

lemma assignable_int: "t \<in> {IntType, FloatType} \<Longrightarrow> IsAssignableTo t (Some IntType) = Some True"
  by (simp add: assignable_iff compatible_int)

text \<open>
  The typing rules, on their own: none of them refers to a function of the checker. \<open>F\<close> are the functions
  of the program and \<open>\<Gamma>\<close> the types of the names in scope. Only the empty array, the empty map, the name of
  a function, an element of an array of those and a literal that is no value have no type of their own.
\<close>

inductive has_type :: "(string, Function) gomap \<Rightarrow> (string \<rightharpoonup> Type) \<Rightarrow> Expression \<Rightarrow> Type option \<Rightarrow> bool"
  for F \<Gamma> where
  literal: "map_of [(TInt, IntType), (TFloat, FloatType), (TString, StringType), (TBool, BoolType)] vt = T \<Longrightarrow>
    has_type F \<Gamma> (LiteralExpr vt v) T"
| variable: "\<Gamma> x = Some t \<Longrightarrow> has_type F \<Gamma> (IdentifierExpr x) (Some t)"
| function_name: "\<Gamma> x = None \<Longrightarrow> map_of F x \<noteq> None \<Longrightarrow> has_type F \<Gamma> (IdentifierExpr x) None"
| minus: "has_type F \<Gamma> e (Some t) \<Longrightarrow> t \<in> {IntType, FloatType} \<Longrightarrow> has_type F \<Gamma> (UnaryExpr TMinus (Some e)) (Some t)"
| arithmetic: "has_type F \<Gamma> l (Some a) \<Longrightarrow> has_type F \<Gamma> r (Some b) \<Longrightarrow> {a, b} \<subseteq> {IntType, FloatType} \<Longrightarrow>
    op \<in> {TPlus, TMinus, TMultiply, TModulo} \<Longrightarrow>
    has_type F \<Gamma> (BinaryExpr op l (Some r)) (Some (if FloatType \<in> {a, b} then FloatType else IntType))"
| quotient: "has_type F \<Gamma> l (Some a) \<Longrightarrow> has_type F \<Gamma> r (Some b) \<Longrightarrow> {a, b} \<subseteq> {IntType, FloatType} \<Longrightarrow>
    op \<in> {TDivide, TExponent} \<Longrightarrow> has_type F \<Gamma> (BinaryExpr op l (Some r)) (Some FloatType)"
| concatenation: "has_type F \<Gamma> l (Some StringType) \<Longrightarrow> has_type F \<Gamma> r (Some StringType) \<Longrightarrow>
    has_type F \<Gamma> (BinaryExpr TPlus l (Some r)) (Some StringType)"
| comparison: "has_type F \<Gamma> l (Some a) \<Longrightarrow> has_type F \<Gamma> r (Some b) \<Longrightarrow>
    {a, b} \<subseteq> {IntType, FloatType} \<or> {a, b} = {StringType} \<Longrightarrow>
    op \<in> {TLessThan, TLessEqual, TGreaterThan, TGreaterEqual} \<Longrightarrow> has_type F \<Gamma> (BinaryExpr op l (Some r)) (Some BoolType)"
| equality: "has_type F \<Gamma> l (Some a) \<Longrightarrow> has_type F \<Gamma> r (Some b) \<Longrightarrow>
    compatible a b \<Longrightarrow>
    op \<in> {TEqual, TNotEqual} \<Longrightarrow> has_type F \<Gamma> (BinaryExpr op l (Some r)) (Some BoolType)"
| logic: "has_type F \<Gamma> l (Some BoolType) \<Longrightarrow> has_type F \<Gamma> r (Some BoolType) \<Longrightarrow>
    op \<in> {TLogicalAnd, TLogicalOr} \<Longrightarrow> has_type F \<Gamma> (BinaryExpr op l (Some r)) (Some BoolType)"
| call_len: "has_type F \<Gamma> e (Some t) \<Longrightarrow> t = StringType \<or> (\<exists>n u. t = ArrayType n u) \<or> (\<exists>k v. t = MapType k v) \<Longrightarrow>
    has_type F \<Gamma> (CallExpr ''len'' [e]) (Some IntType)"
| conversion: "has_type F \<Gamma> e (Some t) \<Longrightarrow> t \<in> {IntType, FloatType, StringType} \<Longrightarrow>
    (f, u) \<in> {(''string'', StringType), (''int'', IntType), (''float'', FloatType)} \<Longrightarrow> has_type F \<Gamma> (CallExpr f [e]) (Some u)"
| call_emit: "has_type F \<Gamma> e (Some t) \<Longrightarrow> t \<in> {IntType, FloatType, StringType, BoolType} \<Longrightarrow>
    has_type F \<Gamma> (CallExpr ''emit'' [e]) (Some AnyType)"
| call_assert: "has_type F \<Gamma> e (Some BoolType) \<Longrightarrow> has_type F \<Gamma> (CallExpr ''assert'' [e]) (Some BoolType)"
| stop: "has_type F \<Gamma> (CallExpr ''stop'' []) (Some AnyType)"
| call: "f \<notin> {''len'', ''string'', ''int'', ''float'', ''emit'', ''assert'', ''stop''} \<Longrightarrow> map_of F f = Some fd \<Longrightarrow>
    list_all2 (\<lambda>e p. \<exists>t. has_type F \<Gamma> e (Some t) \<and> compatible t p) args (fn_ParameterTypes fd) \<Longrightarrow>
    has_type F \<Gamma> (CallExpr f args) (Some (fn_ReturnType fd))"
| no_elements: "has_type F \<Gamma> (ArrayLiteral []) None"
| elements: "has_type F \<Gamma> e T \<Longrightarrow> list_all (\<lambda>e'. \<exists>t. has_type F \<Gamma> e' (Some t) \<and> T = Some t \<and> complete t) es \<Longrightarrow>
    has_type F \<Gamma> (ArrayLiteral (e # es)) (Some (ArrayType (- 1) T))"
| no_entries: "has_type F \<Gamma> MapLiteral None"
| character: "has_type F \<Gamma> l (Some StringType) \<Longrightarrow> has_type F \<Gamma> i (Some b) \<Longrightarrow> b \<in> {IntType, FloatType} \<Longrightarrow>
    has_type F \<Gamma> (IndexExpr l i) (Some StringType)"
| element: "has_type F \<Gamma> l (Some (ArrayType n T)) \<Longrightarrow> has_type F \<Gamma> i (Some b) \<Longrightarrow> b \<in> {IntType, FloatType} \<Longrightarrow>
    has_type F \<Gamma> (IndexExpr l i) T"
| entry: "has_type F \<Gamma> l (Some (MapType k v)) \<Longrightarrow> has_type F \<Gamma> i (Some StringType) \<Longrightarrow>
    has_type F \<Gamma> (IndexExpr l i) (Some v)"
| slice: "has_type F \<Gamma> l (Some StringType) \<Longrightarrow>
    pred_option (\<lambda>e. \<exists>t. has_type F \<Gamma> e (Some t) \<and> t \<in> {IntType, FloatType}) lower \<Longrightarrow>
    pred_option (\<lambda>e. \<exists>t. has_type F \<Gamma> e (Some t) \<and> t \<in> {IntType, FloatType}) upper \<Longrightarrow>
    has_type F \<Gamma> (SliceExpr l lower upper) (Some StringType)"

lemma simple_distinct [simp]:
  "IntType \<noteq> FloatType" "IntType \<noteq> StringType" "IntType \<noteq> BoolType" "FloatType \<noteq> IntType" "FloatType \<noteq> StringType"
  "FloatType \<noteq> BoolType" "StringType \<noteq> IntType" "StringType \<noteq> FloatType" "StringType \<noteq> BoolType"
  "BoolType \<noteq> IntType" "BoolType \<noteq> FloatType" "BoolType \<noteq> StringType"
  by (simp_all add: simple_types)

lemma has_type_binary:
  assumes "has_type F \<Gamma> l (Some a)" "has_type F \<Gamma> r (Some b)" "isValidBinaryOperatorUse op a b = Some True"
  shows "has_type F \<Gamma> (BinaryExpr op l (Some r)) (Some (binary_type op a b))"
proof -
  consider "op = TPlus" "a = StringType" "b = StringType"
    | "op \<in> {TPlus, TMinus, TMultiply, TModulo}" "{a, b} \<subseteq> {IntType, FloatType}"
    | "op \<in> {TDivide, TExponent}" "{a, b} \<subseteq> {IntType, FloatType}"
    | "op \<in> {TLessThan, TLessEqual, TGreaterThan, TGreaterEqual}" "{a, b} \<subseteq> {IntType, FloatType} \<or> {a, b} = {StringType}"
    | "op \<in> {TEqual, TNotEqual}" "compatible a b"
    | "op \<in> {TLogicalAnd, TLogicalOr}" "a = BoolType" "b = BoolType"
    using assms(3) compatible_sym by (auto simp: isValidBinaryOperatorUse_def equals_iff IsNumeric_iff bind_eq_Some_conv assignable_iff split: if_splits)
  then show ?thesis
  proof cases
    case 1
    with concatenation assms show ?thesis by (simp add: binary_type_def equals_iff)
  next
    case 2
    have "binary_type op a b = (if FloatType \<in> {a, b} then FloatType else IntType)"
      using 2 by (auto simp: binary_type_def equals_iff)
    with arithmetic[OF assms(1,2) 2(2,1)] show ?thesis by simp
  next
    case 3
    have "binary_type op a b = FloatType" using 3 by (auto simp: binary_type_def)
    with quotient[OF assms(1,2) 3(2,1)] show ?thesis by simp
  next
    case 4
    with comparison[OF assms(1,2) 4(2,1)] show ?thesis by (auto simp: binary_type_def)
  next
    case 5
    with equality[OF assms(1,2) 5(2,1)] show ?thesis by (auto simp: binary_type_def)
  next
    case 6
    with logic assms show ?thesis by (auto simp: binary_type_def)
  qed
qed

text \<open>The checker's tables for built-in functions and for indexing, in terms of the rules.\<close>

lemma has_type_builtin:
  assumes "builtin_type f = Some result" "has_type F \<Gamma> e (Some t)" "result t = Some u"
  shows "has_type F \<Gamma> (CallExpr f [e]) (Some u)"
proof -
  consider "f = ''len''" "u = IntType" "t = StringType \<or> (\<exists>n u. t = ArrayType n u) \<or> (\<exists>k v. t = MapType k v)"
    | "(f, u) \<in> {(''string'', StringType), (''int'', IntType), (''float'', FloatType)}" "t \<in> {IntType, FloatType, StringType}"
    | "f = ''emit''" "u = AnyType" "t \<in> {IntType, FloatType, StringType, BoolType}" | "f = ''assert''" "u = BoolType" "t = BoolType"
    using assms(1,3) by (auto simp: builtin_type_def Let_def equals_iff split: if_splits Type.splits)
  then show ?thesis using assms(2) by cases (auto intro: call_len conversion call_emit call_assert)
qed

lemma has_type_index:
  assumes "index_type a b = Some T" "has_type F \<Gamma> l (Some a)" "has_type F \<Gamma> i b"
  shows "has_type F \<Gamma> (IndexExpr l i) T"
proof -
  obtain t where b: "b = Some t" using assms(1) by (cases b) (auto simp: index_type_def)
  consider "a = StringType" "T = Some StringType" "t \<in> {IntType, FloatType}" | n where "a = ArrayType n T" "t \<in> {IntType, FloatType}"
    | k v where "a = MapType k v" "T = Some v" "t = StringType"
    using assms(1) unfolding b
    by (auto simp: index_type_def equals_iff bind_eq_Some_conv assignable_iff compatible_int split: if_splits Type.splits)
  then show ?thesis using assms(2,3) unfolding b by cases (auto intro: character element entry)
qed

lemma builtin_None: "builtin_type f = None \<longleftrightarrow> f \<notin> {''len'', ''string'', ''int'', ''float'', ''emit'', ''assert''}"
  by (auto simp: builtin_type_def Let_def)

lemma typecheckExpression_sound:
  "typecheckExpression ctx e = Some (T, ctx') \<Longrightarrow> tc_currentScope ctx \<noteq> [] \<Longrightarrow> has_type (tc_Functions ctx) (env ctx) e T"
  "typecheck_operand ctx oe = Some (T, ctx') \<Longrightarrow> tc_currentScope ctx \<noteq> [] \<Longrightarrow>
     \<exists>e. oe = Some e \<and> has_type (tc_Functions ctx) (env ctx) e T"
  "typecheck_arguments ctx es params = Some ctx' \<Longrightarrow> length es = length params \<Longrightarrow> tc_currentScope ctx \<noteq> [] \<Longrightarrow>
     list_all2 (\<lambda>e p. \<exists>t. has_type (tc_Functions ctx) (env ctx) e (Some t) \<and> compatible t p) es params"
  "typecheck_elements ctx ft es = Some ctx' \<Longrightarrow> tc_currentScope ctx \<noteq> [] \<Longrightarrow>
     list_all (\<lambda>e. \<exists>t. has_type (tc_Functions ctx) (env ctx) e (Some t) \<and> ft = Some t \<and> complete t) es"
  "typecheck_bound ctx oe = Some ctx' \<Longrightarrow> tc_currentScope ctx \<noteq> [] \<Longrightarrow>
     pred_option (\<lambda>e. \<exists>t. has_type (tc_Functions ctx) (env ctx) e (Some t) \<and> t \<in> {IntType, FloatType}) oe"
proof (induction ctx e and ctx oe and ctx es params and ctx ft es and ctx oe
    arbitrary: T ctx' and T ctx' and ctx' and ctx' and ctx'
    rule: typecheckExpression_typecheck_operand_typecheck_arguments_typecheck_elements_typecheck_bound.induct)
  case (1 ctx op rhs)
  then obtain e t where "rhs = Some e" "T = Some t" "has_type (tc_Functions ctx) (env ctx) e (Some t)" "isValidUnaryOperatorUse op t"
    by (fastforce simp: bind_eq_Some_conv split: if_splits)
  then show ?case by (auto simp: isValidUnaryOperatorUse_def IsNumeric_iff intro: minus split: TokenType.splits)
next
  case (2 ctx valueType v)
  then show ?case by (auto simp: TypeFromTokenType_def intro!: literal split: TokenType.splits)
next
  case (3 ctx varName)
  show ?case
  proof (cases "env ctx varName")
    case None
    with 3 have "T = None" "map_of (tc_Functions ctx) varName \<noteq> None"
      by (auto simp: identifier_type_def env_def TypeFromTokenType_def split: option.splits if_splits)
    with None function_name show ?thesis by metis
  next
    case (Some t)
    with 3 have "T = Some t" by (auto simp: identifier_type_def env_def split: option.splits)
    with Some variable show ?thesis by metis
  qed
next
  case (4 ctx op lhs rhs)
  then obtain a c1 b where c: "typecheckExpression ctx lhs = Some (Some a, c1)" "typecheck_operand c1 rhs = Some (Some b, ctx')"
    "isValidBinaryOperatorUse op a b = Some True" "T = Some (binary_type op a b)"
    by (auto simp: bind_eq_Some_conv split: if_splits)
  note l = typecheckExpression_loads(1)[OF c(1) 4(4)]
  obtain r where r: "rhs = Some r" "has_type (tc_Functions c1) (env c1) r (Some b)"
    using 4(2)[OF c(1) refl c(2) loads_simps(4)[OF l]] by blast
  show ?case using has_type_binary[OF 4(1)[OF c(1) 4(4)] _ c(3)] r c(4) by (simp add: loads_simps[OF l] loads_env[OF l])
next
  case (5 ctx funcName args)
  show ?case
  proof (cases "builtin_type funcName")
    case (Some result)
    then obtain arg t r where c: "args = [arg]" "typecheckExpression ctx arg = Some (Some t, ctx')" "result t = Some r" "T = Some r"
      using 5(3) by (auto simp: bind_eq_Some_conv split: list.splits)
    have "has_type (tc_Functions ctx) (env ctx) arg (Some t)" by (rule 5(2)[OF Some c(1) _ c(2) 5(4)]) simp
    from has_type_builtin[OF Some this c(3)] c(1,4) show ?thesis by simp
  next
    case None
    show ?thesis
    proof (cases "funcName = ''stop''")
      case True
      with 5(3) None show ?thesis by (auto intro: stop split: if_splits)
    next
      case False
      with 5(3) None obtain fd c where fd: "map_of (tc_Functions ctx) funcName = Some fd" "length args = length (fn_ParameterTypes fd)"
          "typecheck_arguments ctx args (fn_ParameterTypes fd) = Some c" "T = Some (fn_ReturnType fd)"
        by (auto simp: bind_eq_Some_conv split: if_splits)
      then have "list_all2 (\<lambda>e p. \<exists>t. has_type (tc_Functions ctx) (env ctx) e (Some t) \<and> compatible t p) args (fn_ParameterTypes fd)"
        using 5(1)[OF None False fd(1)] 5(4) by simp
      moreover have "funcName \<notin> {''len'', ''string'', ''int'', ''float'', ''emit'', ''assert'', ''stop''}"
        using None False by (simp add: builtin_None)
      ultimately show ?thesis using call fd(1,4) by simp
    qed
  qed
next
  case (6 ctx args)
  show ?case
  proof (cases args)
    case Nil
    with 6 show ?thesis by (auto intro: no_elements)
  next
    case (Cons arg es)
    then obtain ft c1 where c: "typecheckExpression ctx arg = Some (ft, c1)" "typecheck_elements c1 ft es = Some ctx'" "T = Some (ArrayType (- 1) ft)"
      using 6(3) by (auto simp: bind_eq_Some_conv NewArrayType_def)
    note l = typecheckExpression_loads(1)[OF c(1) 6(4)]
    show ?thesis using elements[OF 6(1)[OF Cons c(1) 6(4)]] 6(2)[OF Cons c(1) refl c(2) loads_simps(4)[OF l]]
      by (simp add: Cons c(3) loads_simps[OF l] loads_env[OF l])
  qed
next
  case (7 ctx)
  then show ?case by (auto intro: no_entries)
next
  case (8 ctx lhs rhs)
  then obtain a c1 b where c: "typecheckExpression ctx lhs = Some (Some a, c1)" "typecheckExpression c1 rhs = Some (b, ctx')"
    "index_type a b = Some T"
    by (auto simp: bind_eq_Some_conv)
  note l = typecheckExpression_loads(1)[OF c(1) 8(4)]
  show ?case using has_type_index[OF c(3) 8(1)[OF c(1) 8(4)]] 8(2)[OF c(1) refl c(2) loads_simps(4)[OF l]]
    by (simp add: loads_simps[OF l] loads_env[OF l])
next
  case (9 ctx lhs sliceStart sliceEnd)
  then obtain l c1 c2 where c: "typecheckExpression ctx lhs = Some (Some l, c1)" "equals l StringType"
    "typecheck_bound c1 sliceStart = Some c2" "typecheck_bound c2 sliceEnd = Some ctx'" "T = Some StringType"
    by (auto simp: bind_eq_Some_conv split: if_splits)
  note l1 = typecheckExpression_loads(1)[OF c(1) 9(5)]
  note l2 = typecheckExpression_loads(5)[OF c(3) loads_simps(4)[OF l1]]
  note b1 = 9(2)[OF c(1) refl refl _ c(3) loads_simps(4)[OF l1]] and b2 = 9(3)[OF c(1) refl refl _ c(3) c(4) loads_simps(4)[OF l2]]
  show ?case using 9(1)[OF c(1) 9(5)] b1 b2 c(2,5)
    by (auto simp: equals_iff loads_simps[OF l1] loads_env[OF l1] loads_simps[OF l2] loads_env[OF l2] intro!: slice)
next
  case (14 ctx arg args paramType params)
  then obtain t c1 where c: "typecheckExpression ctx arg = Some (Some t, c1)" "IsAssignableTo t (Some paramType) = Some True"
    "typecheck_arguments c1 args params = Some ctx'"
    by (auto simp: bind_eq_Some_conv split: if_splits)
  note l = typecheckExpression_loads(1)[OF c(1) 14(5)]
  show ?case using 14(1)[OF c(1) 14(5)] 14(2)[OF c(1) refl refl c(2) _ c(3) _ loads_simps(4)[OF l]] c(2) 14(4)
    by (auto simp: loads_simps[OF l] loads_env[OF l] assignable_iff)
next
  case (16 ctx firstType element elements)
  then obtain t c1 where c: "typecheckExpression ctx element = Some (Some t, c1)" "Type_Equals t firstType = Some True"
    "typecheck_elements c1 firstType elements = Some ctx'"
    by (auto simp: bind_eq_Some_conv split: if_splits)
  note l = typecheckExpression_loads(1)[OF c(1) 16(4)]
  show ?case using 16(1)[OF c(1) 16(4)] 16(2)[OF c(1) refl refl c(2) _ c(3) loads_simps(4)[OF l]] c(2)
    by (auto simp: loads_simps[OF l] loads_env[OF l] Type_Equals_True)
qed (auto simp: bind_eq_Some_conv assignable_iff compatible_int split: if_splits)

lemma list_all2_arguments:
  assumes "list_all2 (\<lambda>e p. \<exists>t. (has_type F \<Gamma> e (Some t) \<and>
      (\<forall>ctx. tc_currentScope ctx \<noteq> [] \<longrightarrow> tc_Functions ctx = F \<longrightarrow> env ctx = \<Gamma> \<longrightarrow>
        (\<exists>ctx'. typecheckExpression ctx e = Some (Some t, ctx')))) \<and> compatible t p) es params"
    and "tc_currentScope ctx \<noteq> []" "tc_Functions ctx = F" "env ctx = \<Gamma>"
  shows "\<exists>ctx'. typecheck_arguments ctx es params = Some ctx'"
  using assms
proof (induction es params arbitrary: ctx rule: list_all2_induct)
  case (Cons e es p ps)
  then obtain t c1 where c: "typecheckExpression ctx e = Some (Some t, c1)" "IsAssignableTo t (Some p) = Some True" by (auto simp: assignable_iff)
  note l = typecheckExpression_loads(1)[OF c(1) Cons.prems(1)]
  from Cons.IH[of c1] Cons.prems loads_simps[OF l] loads_env[OF l] c show ?case by auto
qed simp

lemma list_all_elements:
  assumes "list_all (\<lambda>e. \<exists>t. (has_type F \<Gamma> e (Some t) \<and>
      (\<forall>ctx. tc_currentScope ctx \<noteq> [] \<longrightarrow> tc_Functions ctx = F \<longrightarrow> env ctx = \<Gamma> \<longrightarrow>
        (\<exists>ctx'. typecheckExpression ctx e = Some (Some t, ctx')))) \<and> T = Some t \<and> complete t) es"
    and "tc_currentScope ctx \<noteq> []" "tc_Functions ctx = F" "env ctx = \<Gamma>"
  shows "\<exists>ctx'. typecheck_elements ctx T es = Some ctx'"
  using assms
proof (induction es arbitrary: ctx)
  case (Cons e es)
  then obtain t c1 where c: "typecheckExpression ctx e = Some (Some t, c1)" "Type_Equals t T = Some True" by (auto simp: Type_Equals_True)
  note l = typecheckExpression_loads(1)[OF c(1) Cons.prems(2)]
  from Cons.IH[of c1] Cons.prems loads_simps[OF l] loads_env[OF l] c show ?case by auto
qed simp

lemma pred_option_bound:
  assumes "pred_option (\<lambda>e. \<exists>t. (has_type F \<Gamma> e (Some t) \<and>
      (\<forall>ctx. tc_currentScope ctx \<noteq> [] \<longrightarrow> tc_Functions ctx = F \<longrightarrow> env ctx = \<Gamma> \<longrightarrow>
        (\<exists>ctx'. typecheckExpression ctx e = Some (Some t, ctx')))) \<and> t \<in> {IntType, FloatType}) oe"
    and "tc_currentScope ctx \<noteq> []" "tc_Functions ctx = F" "env ctx = \<Gamma>"
  shows "\<exists>ctx'. typecheck_bound ctx oe = Some ctx'"
proof (cases oe)
  case (Some e)
  with assms obtain t c where "typecheckExpression ctx e = Some (Some t, c)" "compatible t IntType" by (auto simp: compatible_int)
  then show ?thesis using Some by (simp add: assignable_iff[symmetric])
qed simp

lemma binary_complete:
  assumes "\<And>ctx. tc_currentScope ctx \<noteq> [] \<Longrightarrow> tc_Functions ctx = F \<Longrightarrow> env ctx = \<Gamma> \<Longrightarrow> \<exists>ctx'. typecheckExpression ctx l = Some (Some a, ctx')"
    and "\<And>ctx. tc_currentScope ctx \<noteq> [] \<Longrightarrow> tc_Functions ctx = F \<Longrightarrow> env ctx = \<Gamma> \<Longrightarrow> \<exists>ctx'. typecheckExpression ctx r = Some (Some b, ctx')"
    and "isValidBinaryOperatorUse op a b = Some True" "t = binary_type op a b"
    and ctx: "tc_currentScope ctx \<noteq> []" "tc_Functions ctx = F" "env ctx = \<Gamma>"
  shows "\<exists>ctx'. typecheckExpression ctx (BinaryExpr op l (Some r)) = Some (Some t, ctx')"
proof -
  obtain c1 where c: "typecheckExpression ctx l = Some (Some a, c1)" using assms(1)[OF ctx] by blast
  note l = typecheckExpression_loads(1)[OF c ctx(1)]
  obtain c2 where "typecheckExpression c1 r = Some (Some b, c2)"
    using assms(2)[of c1] loads_simps[OF l] loads_env[OF l] ctx by auto
  with c assms(3,4) show ?thesis by simp
qed

lemmas operator_defs = isValidBinaryOperatorUse_def binary_type_def equals_iff IsNumeric_iff assignable_iff

lemma index_complete:
  assumes "\<And>ctx. tc_currentScope ctx \<noteq> [] \<Longrightarrow> tc_Functions ctx = F \<Longrightarrow> env ctx = \<Gamma> \<Longrightarrow> \<exists>ctx'. typecheckExpression ctx l = Some (Some a, ctx')"
    and "\<And>ctx. tc_currentScope ctx \<noteq> [] \<Longrightarrow> tc_Functions ctx = F \<Longrightarrow> env ctx = \<Gamma> \<Longrightarrow> \<exists>ctx'. typecheckExpression ctx i = Some (Some b, ctx')"
    and "index_type a (Some b) = Some T" and ctx: "tc_currentScope ctx \<noteq> []" "tc_Functions ctx = F" "env ctx = \<Gamma>"
  shows "\<exists>ctx'. typecheckExpression ctx (IndexExpr l i) = Some (T, ctx')"
proof -
  obtain c1 where c: "typecheckExpression ctx l = Some (Some a, c1)" using assms(1)[OF ctx] by blast
  note l = typecheckExpression_loads(1)[OF c ctx(1)]
  obtain c2 where "typecheckExpression c1 i = Some (Some b, c2)"
    using assms(2)[of c1] loads_simps[OF l] loads_env[OF l] ctx by auto
  with c assms(3) show ?thesis by simp
qed

lemma builtin_complete:
  assumes "\<exists>ctx'. typecheckExpression ctx e = Some (Some t, ctx')" "builtin_type f = Some result" "result t = Some u"
  shows "\<exists>ctx'. typecheckExpression ctx (CallExpr f [e]) = Some (Some u, ctx')"
  using assms by auto

lemma index_types:
  assumes "b \<in> {IntType, FloatType}"
  shows "index_type StringType (Some b) = Some (Some StringType)" "index_type (ArrayType n T) (Some b) = Some T"
    and "index_type (MapType k v) (Some StringType) = Some (Some v)"
  using assignable_int[OF assms] by (simp_all add: index_type_def equals_iff) (simp_all add: simple_types)

lemma builtin_types:
  "\<exists>result. builtin_type ''len'' = Some result \<and> (\<forall>t. t = StringType \<or> (\<exists>n u. t = ArrayType n u) \<or> (\<exists>k v. t = MapType k v) \<longrightarrow> result t = Some IntType)"
  "(f, u) \<in> {(''string'', StringType), (''int'', IntType), (''float'', FloatType)} \<Longrightarrow>
     \<exists>result. builtin_type f = Some result \<and> (\<forall>t\<in>{IntType, FloatType, StringType}. result t = Some u)"
  "\<exists>result. builtin_type ''emit'' = Some result \<and> (\<forall>t\<in>{IntType, FloatType, StringType, BoolType}. result t = Some AnyType)"
  "\<exists>result. builtin_type ''assert'' = Some result \<and> result BoolType = Some BoolType"
  by (auto simp: builtin_type_def Let_def equals_iff split: Type.splits)

lemma typecheckExpression_complete:
  "has_type F \<Gamma> e T \<Longrightarrow> tc_currentScope ctx \<noteq> [] \<Longrightarrow> tc_Functions ctx = F \<Longrightarrow> env ctx = \<Gamma> \<Longrightarrow>
    \<exists>ctx'. typecheckExpression ctx e = Some (T, ctx')"
proof (induction arbitrary: ctx rule: has_type.induct)
  case (literal vt T v)
  then show ?case by (auto simp: TypeFromTokenType_def split: TokenType.splits if_splits)
next
  case (variable x t)
  then show ?case by (auto simp: env_def identifier_type_def split: option.splits)
next
  case (function_name x)
  then show ?case by (auto simp: env_def identifier_type_def TypeFromTokenType_def split: option.splits)
next
  case (minus e t)
  from minus.IH[OF minus.prems] minus.hyps show ?case by (fastforce simp: isValidUnaryOperatorUse_def IsNumeric_iff)
next
  case (arithmetic l a r b op)
  from arithmetic.hyps show ?case
    by (intro binary_complete[OF arithmetic.IH _ _ arithmetic.prems]) (auto simp: operator_defs)
next
  case (quotient l a r b op)
  from quotient.hyps show ?case
    by (intro binary_complete[OF quotient.IH _ _ quotient.prems]) (auto simp: operator_defs)
next
  case (concatenation l r)
  show ?case by (intro binary_complete[OF concatenation.IH _ _ concatenation.prems]) (auto simp: operator_defs)
next
  case (comparison l a r b op)
  from comparison.hyps show ?case
    by (intro binary_complete[OF comparison.IH _ _ comparison.prems]) (auto simp: operator_defs)
next
  case (equality l a r b op)
  from equality.hyps show ?case
    by (intro binary_complete[OF equality.IH _ _ equality.prems]) (auto simp: operator_defs assignable_iff[THEN iffD2])
next
  case (logic l r op)
  from logic.hyps show ?case
    by (intro binary_complete[OF logic.IH _ _ logic.prems]) (auto simp: operator_defs)
next
  case (call_len e t)
  from builtin_complete[OF call_len.IH[OF call_len.prems]] builtin_types(1) call_len.hyps show ?case by blast
next
  case (conversion e t f u)
  from builtin_complete[OF conversion.IH[OF conversion.prems]] builtin_types(2)[OF conversion.hyps(3)] conversion.hyps(2) show ?case by blast
next
  case (call_emit e t)
  from builtin_complete[OF call_emit.IH[OF call_emit.prems]] builtin_types(3) call_emit.hyps show ?case by blast
next
  case (call_assert e)
  from builtin_complete[OF call_assert.IH[OF call_assert.prems]] builtin_types(4) show ?case by blast
next
  case stop
  then show ?case by (simp add: builtin_type_def Let_def)
next
  case (call f fd args)
  have "length args = length (fn_ParameterTypes fd)" using call.IH by (rule list_all2_lengthD)
  moreover obtain ctx' where "typecheck_arguments ctx args (fn_ParameterTypes fd) = Some ctx'"
    using list_all2_arguments[OF _ call.prems] call.IH by blast
  moreover have "builtin_type f = None" "f \<noteq> ''stop''" using call.hyps(1) by (simp_all add: builtin_None)
  ultimately show ?case using call.hyps(2) call.prems by simp
next
  case (elements e T es)
  obtain c1 where c: "typecheckExpression ctx e = Some (T, c1)" using elements.IH(1)[OF elements.prems] by blast
  note l = typecheckExpression_loads(1)[OF c elements.prems(1)]
  obtain c2 where "typecheck_elements c1 T es = Some c2"
    using list_all_elements[of F \<Gamma> T es c1] elements.IH(2) elements.prems loads_simps[OF l] loads_env[OF l] by auto
  with c show ?case by (simp add: NewArrayType_def)
next
  case (character l i b)
  from character.hyps show ?case
    by (intro index_complete[OF character.IH _ character.prems]) (auto simp: index_types)
next
  case (element l n T i b)
  from element.hyps show ?case
    by (intro index_complete[OF element.IH _ element.prems]) (auto simp: index_types)
next
  case (entry l k v i)
  show ?case by (intro index_complete[OF entry.IH _ entry.prems]) (auto simp: index_types(3)[of IntType])
next
  case (slice l lower upper)
  obtain c1 where c1: "typecheckExpression ctx l = Some (Some StringType, c1)" using slice.IH(1)[OF slice.prems] by blast
  note l1 = typecheckExpression_loads(1)[OF c1 slice.prems(1)]
  obtain c2 where c2: "typecheck_bound c1 lower = Some c2"
    using pred_option_bound[of F \<Gamma> lower c1] slice.IH(2) slice.prems loads_simps[OF l1] loads_env[OF l1] by auto
  note l2 = typecheckExpression_loads(5)[OF c2 loads_simps(4)[OF l1]]
  obtain c3 where "typecheck_bound c2 upper = Some c3"
    using pred_option_bound[of F \<Gamma> upper c2] slice.IH(3) slice.prems loads_simps[OF l1] loads_env[OF l1] loads_simps[OF l2] loads_env[OF l2] by auto
  with c1 c2 show ?case by (simp add: equals_iff)
qed simp_all

text \<open>
  C21. The type checker decides the typing rules: on an expression, in any scope, it returns a type
  exactly when the rules give the expression that type, and otherwise panics with a type error; it
  never changes the type of a name.
\<close>

theorem typecheckExpression_decides:
  assumes "tc_currentScope ctx \<noteq> []"
  shows "((\<exists>ctx'. typecheckExpression ctx e = Some (T, ctx')) \<longleftrightarrow> has_type (tc_Functions ctx) (env ctx) e T) \<and>
    (\<forall>T' ctx'. typecheckExpression ctx e = Some (T', ctx') \<longrightarrow> env ctx' = env ctx)"
  using typecheckExpression_sound(1)[OF _ assms] typecheckExpression_complete[OF _ assms]
    loads_env[OF typecheckExpression_loads(1)[OF _ assms]] by blast

theorem typecheckExpression_decides_witness:
  "has_type [] (env \<lparr>tc_Functions = [], tc_currentFunction = None, tc_currentScope = [[(''x'', IntType)], []], tc_inLoop = False\<rparr>)
     (BinaryExpr TPlus (IdentifierExpr ''x'') (Some (BinaryExpr TDivide (IdentifierExpr ''@height'') (Some (LiteralExpr TInt ''2''))))) (Some FloatType)"
proof -
  let ?ctx = "\<lparr>tc_Functions = [], tc_currentFunction = None, tc_currentScope = [[(''x'', IntType)], []], tc_inLoop = False\<rparr>"
  let ?e = "BinaryExpr TPlus (IdentifierExpr ''x'') (Some (BinaryExpr TDivide (IdentifierExpr ''@height'') (Some (LiteralExpr TInt ''2''))))"
  have "map_option fst (typecheckExpression ?ctx ?e) = Some (Some FloatType)" by code_simp
  then have "\<exists>ctx'. typecheckExpression ?ctx ?e = Some (Some FloatType, ctx')" by auto
  with typecheckExpression_decides[of ?ctx ?e "Some FloatType"] show ?thesis by (simp del: typecheckExpression.simps)
qed

end
