(* ===== verification/Bytecode.thy ===== *)
theory Bytecode
  imports Config
begin

text \<open>
  \<open>src/types/bytecode.go\<close>, re-exported by \<open>src/avm/bytecode.go\<close>: the opcodes of the virtual
  machine with their byte codes, names and gas prices, and the instructions with their
  validation. An \<open>OPCODE\<close> is a byte in the source; here it is a datatype with one constructor per
  constant of the \<open>iota\<close> block, and \<open>UNKNOWN b\<close> for a byte \<open>b\<close> from \<open>LAST\<close> on (\<open>wf_opcode\<close>).
\<close>

section \<open>Opcodes\<close>

datatype OPCODE =
    NOOP | PC | PUSH | POP | DUP | SWAP | ADD | SUB | MUL | DIV | MOD | AND | OR | EQ | LT
  | GT | ISZERO | JUMP | JUMPC | MSTORE | MLOAD | PSTORE | PLOAD | LOAD_LOCAL
  | STORE_LOCAL | CALL | RETURN | STOP | EMIT | STRCONCAT | STRLEN | EMITSTR | STRINDEX
  | STRSLICE | STRTOINT | INTTOSTR | CALLER | ADDRESS | BALANCE | ORIGIN | GASPRICE
  | CALLVALUE | TIMESTAMP | DIFFICULTY | BLOCKHASH | LASTBLOCKHASH | COINBASE | HEIGHT
  | GASLIMIT | TSXDATA
  | UNKNOWN byte

text \<open>The value of the constant: the position in the \<open>iota\<close> block.\<close>

primrec opcode_byte :: "OPCODE \<Rightarrow> byte" where
  "opcode_byte NOOP = 0"
| "opcode_byte PC = 1"
| "opcode_byte PUSH = 2"
| "opcode_byte POP = 3"
| "opcode_byte DUP = 4"
| "opcode_byte SWAP = 5"
| "opcode_byte ADD = 6"
| "opcode_byte SUB = 7"
| "opcode_byte MUL = 8"
| "opcode_byte DIV = 9"
| "opcode_byte MOD = 10"
| "opcode_byte AND = 11"
| "opcode_byte OR = 12"
| "opcode_byte EQ = 13"
| "opcode_byte LT = 14"
| "opcode_byte GT = 15"
| "opcode_byte ISZERO = 16"
| "opcode_byte JUMP = 17"
| "opcode_byte JUMPC = 18"
| "opcode_byte MSTORE = 19"
| "opcode_byte MLOAD = 20"
| "opcode_byte PSTORE = 21"
| "opcode_byte PLOAD = 22"
| "opcode_byte LOAD_LOCAL = 23"
| "opcode_byte STORE_LOCAL = 24"
| "opcode_byte CALL = 25"
| "opcode_byte RETURN = 26"
| "opcode_byte STOP = 27"
| "opcode_byte EMIT = 28"
| "opcode_byte STRCONCAT = 29"
| "opcode_byte STRLEN = 30"
| "opcode_byte EMITSTR = 31"
| "opcode_byte STRINDEX = 32"
| "opcode_byte STRSLICE = 33"
| "opcode_byte STRTOINT = 34"
| "opcode_byte INTTOSTR = 35"
| "opcode_byte CALLER = 36"
| "opcode_byte ADDRESS = 37"
| "opcode_byte BALANCE = 38"
| "opcode_byte ORIGIN = 39"
| "opcode_byte GASPRICE = 40"
| "opcode_byte CALLVALUE = 41"
| "opcode_byte TIMESTAMP = 42"
| "opcode_byte DIFFICULTY = 43"
| "opcode_byte BLOCKHASH = 44"
| "opcode_byte LASTBLOCKHASH = 45"
| "opcode_byte COINBASE = 46"
| "opcode_byte HEIGHT = 47"
| "opcode_byte GASLIMIT = 48"
| "opcode_byte TSXDATA = 49"
| "opcode_byte (UNKNOWN b) = b"

definition LAST :: byte where
  "LAST = 50"

definition all_opcodes :: "OPCODE list" where
  "all_opcodes =
    [NOOP, PC, PUSH, POP, DUP, SWAP, ADD, SUB, MUL, DIV, MOD, AND, OR, EQ, LT, GT, ISZERO,
     JUMP, JUMPC, MSTORE, MLOAD, PSTORE, PLOAD, LOAD_LOCAL, STORE_LOCAL, CALL, RETURN, STOP,
     EMIT, STRCONCAT, STRLEN, EMITSTR, STRINDEX, STRSLICE, STRTOINT, INTTOSTR, CALLER,
     ADDRESS, BALANCE, ORIGIN, GASPRICE, CALLVALUE, TIMESTAMP, DIFFICULTY, BLOCKHASH,
     LASTBLOCKHASH, COINBASE, HEIGHT, GASLIMIT, TSXDATA]"

text \<open>The conversion \<open>types.OPCODE(b)\<close>.\<close>

definition opcode_of_byte :: "byte \<Rightarrow> OPCODE" where
  "opcode_of_byte b = (if b < LAST then all_opcodes ! nat (uint b) else UNKNOWN b)"

definition wf_opcode :: "OPCODE \<Rightarrow> bool" where
  "wf_opcode op = (case op of UNKNOWN b \<Rightarrow> LAST \<le> b | _ \<Rightarrow> True)"

definition Valid :: "OPCODE \<Rightarrow> bool" where
  "Valid op = (opcode_byte op < LAST)"

text \<open>The table \<open>opcodeNames\<close>; \<open>PC\<close> has no entry, which leaves the empty string there.\<close>

primrec opcodeName :: "OPCODE \<Rightarrow> string" where
  "opcodeName NOOP = ''NOOP''"
| "opcodeName PC = []"
| "opcodeName PUSH = ''PUSH''"
| "opcodeName POP = ''POP''"
| "opcodeName DUP = ''DUP''"
| "opcodeName SWAP = ''SWAP''"
| "opcodeName ADD = ''ADD''"
| "opcodeName SUB = ''SUB''"
| "opcodeName MUL = ''MUL''"
| "opcodeName DIV = ''DIV''"
| "opcodeName MOD = ''MOD''"
| "opcodeName AND = ''AND''"
| "opcodeName OR = ''OR''"
| "opcodeName EQ = ''EQ''"
| "opcodeName LT = ''LT''"
| "opcodeName GT = ''GT''"
| "opcodeName ISZERO = ''ISZERO''"
| "opcodeName JUMP = ''JUMP''"
| "opcodeName JUMPC = ''JUMPC''"
| "opcodeName MSTORE = ''MSTORE''"
| "opcodeName MLOAD = ''MLOAD''"
| "opcodeName PSTORE = ''PSTORE''"
| "opcodeName PLOAD = ''PLOAD''"
| "opcodeName LOAD_LOCAL = ''LOAD_LOCAL''"
| "opcodeName STORE_LOCAL = ''STORE_LOCAL''"
| "opcodeName CALL = ''CALL''"
| "opcodeName RETURN = ''RETURN''"
| "opcodeName STOP = ''STOP''"
| "opcodeName EMIT = ''EMIT''"
| "opcodeName STRCONCAT = ''STRCONCAT''"
| "opcodeName STRLEN = ''STRLEN''"
| "opcodeName EMITSTR = ''EMITSTR''"
| "opcodeName STRINDEX = ''STRINDEX''"
| "opcodeName STRSLICE = ''STRSLICE''"
| "opcodeName STRTOINT = ''STRTOINT''"
| "opcodeName INTTOSTR = ''INTTOSTR''"
| "opcodeName CALLER = ''CALLER''"
| "opcodeName ADDRESS = ''ADDRESS''"
| "opcodeName BALANCE = ''BALANCE''"
| "opcodeName ORIGIN = ''ORIGIN''"
| "opcodeName GASPRICE = ''GASPRICE''"
| "opcodeName CALLVALUE = ''CALLVALUE''"
| "opcodeName TIMESTAMP = ''TIMESTAMP''"
| "opcodeName DIFFICULTY = ''DIFFICULTY''"
| "opcodeName BLOCKHASH = ''BLOCKHASH''"
| "opcodeName LASTBLOCKHASH = ''LASTBLOCKHASH''"
| "opcodeName COINBASE = ''COINBASE''"
| "opcodeName HEIGHT = ''HEIGHT''"
| "opcodeName GASLIMIT = ''GASLIMIT''"
| "opcodeName TSXDATA = ''TSXDATA''"
| "opcodeName (UNKNOWN b) = []"

definition OPCODE_String :: "OPCODE \<Rightarrow> string" where
  "OPCODE_String op =
     (if opcodeName op \<noteq> [] then opcodeName op
      else ''UNKNOWN_OPCODE('' @ big_String (uint (opcode_byte op)) @ '')'')"

text \<open>The table \<open>opcodeGasPrices\<close>; the missing entry of \<open>PC\<close> is 0.\<close>

primrec Price :: "OPCODE \<Rightarrow> u16" where
  "Price NOOP = 1"
| "Price PC = 0"
| "Price PUSH = 3"
| "Price POP = 2"
| "Price DUP = 3"
| "Price SWAP = 3"
| "Price ADD = 3"
| "Price SUB = 3"
| "Price MUL = 5"
| "Price DIV = 5"
| "Price MOD = 5"
| "Price AND = 3"
| "Price OR = 3"
| "Price EQ = 3"
| "Price LT = 3"
| "Price GT = 3"
| "Price ISZERO = 3"
| "Price JUMP = 8"
| "Price JUMPC = 10"
| "Price MSTORE = 20"
| "Price MLOAD = 15"
| "Price PSTORE = 1000"
| "Price PLOAD = 1000"
| "Price LOAD_LOCAL = 3"
| "Price STORE_LOCAL = 3"
| "Price CALL = 10"
| "Price RETURN = 8"
| "Price STOP = 0"
| "Price EMIT = 100"
| "Price STRCONCAT = 50"
| "Price STRLEN = 10"
| "Price EMITSTR = 150"
| "Price STRINDEX = 20"
| "Price STRSLICE = 30"
| "Price STRTOINT = 25"
| "Price INTTOSTR = 25"
| "Price CALLER = 2"
| "Price ADDRESS = 2"
| "Price BALANCE = 400"
| "Price ORIGIN = 2"
| "Price GASPRICE = 2"
| "Price CALLVALUE = 2"
| "Price TIMESTAMP = 2"
| "Price DIFFICULTY = 2"
| "Price BLOCKHASH = 20"
| "Price LASTBLOCKHASH = 20"
| "Price COINBASE = 2"
| "Price HEIGHT = 2"
| "Price GASLIMIT = 2"
| "Price TSXDATA = 2"
| "Price (UNKNOWN b) = 65535"

definition opcode_table :: "(string \<times> OPCODE) list" where
  "opcode_table =
    [(''NOOP'', NOOP), (''PUSH'', PUSH), (''POP'', POP), (''DUP'', DUP), (''SWAP'', SWAP),
     (''ADD'', ADD), (''SUB'', SUB), (''MUL'', MUL), (''DIV'', DIV), (''MOD'', MOD), (''AND'',
     AND), (''OR'', OR), (''EQ'', EQ), (''LT'', LT), (''GT'', GT), (''ISZERO'', ISZERO),
     (''JUMP'', JUMP), (''JUMPC'', JUMPC), (''MSTORE'', MSTORE), (''MLOAD'', MLOAD), (''PLOAD'',
     PLOAD), (''PSTORE'', PSTORE), (''LOAD_LOCAL'', LOAD_LOCAL), (''STORE_LOCAL'', STORE_LOCAL),
     (''CALL'', CALL), (''RETURN'', RETURN), (''STOP'', STOP), (''EMIT'', EMIT), (''STRCONCAT'',
     STRCONCAT), (''STRLEN'', STRLEN), (''EMITSTR'', EMITSTR), (''STRINDEX'', STRINDEX),
     (''STRSLICE'', STRSLICE), (''STRTOINT'', STRTOINT), (''INTTOSTR'', INTTOSTR), (''CALLER'',
     CALLER), (''ADDRESS'', ADDRESS), (''BALANCE'', BALANCE), (''ORIGIN'', ORIGIN),
     (''GASPRICE'', GASPRICE), (''CALLVALUE'', CALLVALUE), (''TIMESTAMP'', TIMESTAMP),
     (''DIFFICULTY'', DIFFICULTY), (''BLOCKHASH'', BLOCKHASH), (''LASTBLOCKHASH'',
     LASTBLOCKHASH), (''COINBASE'', COINBASE), (''HEIGHT'', HEIGHT), (''GASLIMIT'', GASLIMIT),
     (''TSXDATA'', TSXDATA)]"

definition OpcodeMap :: "string \<Rightarrow> OPCODE option" where
  "OpcodeMap = map_of opcode_table"

section \<open>Instructions\<close>

record Instruction =
  Opcode :: OPCODE
  Value :: "string option"

datatype instr_error =
    InvalidOpcode
  | ErrInvalidPush
  | ErrNegativeValue
  | ErrUnexpectedInstructionParameter
  | InvalidHexValue string
  | InvalidValue string

definition GetValueAsBigInt :: "Instruction \<Rightarrow> instr_error + int" where
  "GetValueAsBigInt ins = (case Value ins of
     None \<Rightarrow> Inr 0
   | Some v \<Rightarrow>
       if v = [] then Inr 0
       else if has_prefix v ''0x'' then
         (case big_SetString (drop 2 v) 16 of None \<Rightarrow> Inl (InvalidHexValue v) | Some x \<Rightarrow> Inr x)
       else
         (case big_SetString v 10 of None \<Rightarrow> Inl (InvalidValue v) | Some x \<Rightarrow> Inr x))"

text \<open>\<open>None\<close> is the nil error: the instruction is accepted.\<close>

definition ValidateInstruction :: "Instruction \<Rightarrow> instr_error option" where
  "ValidateInstruction ins =
     (if \<not> Valid (Opcode ins) then Some InvalidOpcode
      else if Opcode ins = PUSH then
        (case Value ins of
           None \<Rightarrow> Some ErrInvalidPush
         | Some v \<Rightarrow>
             if str_contains v '',param='' then Some ErrUnexpectedInstructionParameter
             else (case GetValueAsBigInt ins of
                 Inl e \<Rightarrow> Some ErrInvalidPush
               | Inr val \<Rightarrow> if val < 0 then Some ErrNegativeValue else None))
      else if Value ins \<noteq> None then Some ErrUnexpectedInstructionParameter
      else None)"

definition MakeInstruction :: "OPCODE \<Rightarrow> Instruction" where
  "MakeInstruction opcode = \<lparr>Opcode = opcode, Value = None\<rparr>"

definition MakePushInstruction :: "string \<Rightarrow> Instruction" where
  "MakePushInstruction value = \<lparr>Opcode = PUSH, Value = Some value\<rparr>"

text \<open>
  The dynamic types that \<open>MakeInstructionWithValue\<close> distinguishes in its \<open>interface{}\<close>
  argument; \<open>VBig None\<close> is a nil \<open>*big.Int\<close>.
\<close>

datatype iface = VString string | VBig "int option" | VInt int | VInt64 int | VUint64 u64 | VOther

definition signed_text :: "int \<Rightarrow> string" where
  "signed_text v = (if v < 0 then big_String v else ''0x'' @ big_Text 16 v)"

fun value_text :: "iface \<Rightarrow> string" where
  "value_text (VString s) = s"
| "value_text (VBig None) = []"
| "value_text (VBig (Some v)) = signed_text v"
| "value_text (VInt v) = signed_text v"
| "value_text (VInt64 v) = signed_text v"
| "value_text (VUint64 v) = ''0x'' @ big_Text 16 (sint v)"
| "value_text VOther = []"

definition MakeInstructionWithValue :: "OPCODE \<Rightarrow> iface \<Rightarrow> Instruction" where
  "MakeInstructionWithValue opcode value =
     (let valueStr = value_text value
      in \<lparr>Opcode = opcode, Value = (if valueStr = [] then None else Some valueStr)\<rparr>)"

text \<open>For the tests of the source; \<open>param\<close> is the parameter as \<open>%v\<close> prints it.\<close>

definition MakeInstructionWithValueAndParam :: "OPCODE \<Rightarrow> iface \<Rightarrow> string \<Rightarrow> Instruction" where
  "MakeInstructionWithValueAndParam opcode value param =
     (let valueStr = (case value of
            VString s \<Rightarrow> s
          | VBig (Some v) \<Rightarrow> signed_text v
          | _ \<Rightarrow> [])
      in \<lparr>Opcode = opcode, Value = Some (valueStr @ '',param='' @ param)\<rparr>)"

section \<open>Properties of the tables\<close>

lemma all_opcodes_nth: "i < 50 \<Longrightarrow> opcode_byte (all_opcodes ! i) = of_nat i"
proof -
  have "\<forall>i\<in>set [0..<50]. opcode_byte (all_opcodes ! i) = of_nat i" by code_simp
  then show "i < 50 \<Longrightarrow> ?thesis" by simp
qed

lemma opcode_of_byte_byte: "wf_opcode op \<Longrightarrow> opcode_of_byte (opcode_byte op) = op"
  by (cases op) (simp_all add: opcode_of_byte_def wf_opcode_def LAST_def all_opcodes_def not_less)

lemma opcode_byte_of_byte: "opcode_byte (opcode_of_byte b) = b"
proof (cases "b < LAST")
  case True
  then have "unat b < 50" by (simp add: LAST_def word_less_nat_alt)
  then have "opcode_byte (all_opcodes ! unat b) = of_nat (unat b)" by (rule all_opcodes_nth)
  with True show ?thesis by (simp add: opcode_of_byte_def)
qed (simp add: opcode_of_byte_def)

lemma Valid_iff: "wf_opcode op \<Longrightarrow> Valid op \<longleftrightarrow> (\<forall>b. op \<noteq> UNKNOWN b)"
  by (cases op) (simp_all add: Valid_def LAST_def wf_opcode_def not_less)

end
