(* ===== verification/Marigold_Codegen.thy ===== *)
theory Marigold_Codegen
  imports Marigold_Syntax Bytecode "HOL-Library.Monad_Syntax"
begin

text \<open>
  The code generator of the Marigold compiler, \<open>src/marigold/codegen.go\<close>. The context is passed and
  returned; \<open>None\<close> is a panic, either a fatal error the code reports or a nil dereference.
\<close>

section \<open>The context\<close>

record LoopContext =
  ContinueAddr :: nat
  BreakPatches :: "nat list"

text \<open>
  The scope chain is the list of the variables of the current scope and of its parents. The
  innermost loop is the head of the loop stack.
\<close>

record CodegenContext =
  cg_Ast :: Ast
  cg_CurrentFunction :: "Function option"
  cg_CurrentScope :: "Variables list"
  cg_Instructions :: "Instruction list"
  cg_FunctionIndex :: "string \<rightharpoonup> nat"
  cg_LocalOffsets :: "string \<rightharpoonup> nat"
  cg_NextLocalOffset :: nat
  cg_LoopStack :: "LoopContext list"
  cg_NextMemoryAddr :: u64
  cg_StringTable :: "string \<rightharpoonup> u64"
  cg_StringLiterals :: "string list"

definition Emit :: "OPCODE \<Rightarrow> CodegenContext \<Rightarrow> CodegenContext" where
  "Emit opcode ctx = ctx\<lparr>cg_Instructions := cg_Instructions ctx @ [MakeInstruction opcode]\<rparr>"

definition EmitPush :: "iface \<Rightarrow> CodegenContext \<Rightarrow> CodegenContext" where
  "EmitPush value ctx = ctx\<lparr>cg_Instructions := cg_Instructions ctx @ [MakeInstructionWithValue PUSH value]\<rparr>"

text \<open>\<open>fmt.Sprintf("0x%x", n)\<close> of an \<open>int\<close> and of a byte slice.\<close>

definition hex_int :: "nat \<Rightarrow> string" where
  "hex_int n = ''0x'' @ big_Text 16 (int n)"

definition hex_bytes :: "byte list \<Rightarrow> string" where
  "hex_bytes bs = ''0x'' @ concat (map (\<lambda>b. [digit_char (uint b div 16), digit_char (uint b mod 16)]) bs)"

text \<open>The assignment of a jump target to the instruction at an index.\<close>

definition patch :: "nat \<Rightarrow> nat \<Rightarrow> CodegenContext \<Rightarrow> CodegenContext" where
  "patch i target ctx =
     (let is = cg_Instructions ctx
      in ctx\<lparr>cg_Instructions := is[i := (is ! i)\<lparr>Value := Some (hex_int target)\<rparr>]\<rparr>)"

abbreviation here :: "CodegenContext \<Rightarrow> nat" where
  "here ctx \<equiv> length (cg_Instructions ctx)"

section \<open>String literals\<close>

definition RegisterStringLiteral :: "string \<Rightarrow> CodegenContext \<Rightarrow> u64 \<times> CodegenContext" where
  "RegisterStringLiteral stringValue ctx =
     (case cg_StringTable ctx stringValue of
        Some addr \<Rightarrow> (addr, ctx)
      | None \<Rightarrow>
          (let byteLength = of_nat (length (bytes_of_string stringValue)) :: u64;
               chunksNeeded = (byteLength + 31) div 32;
               stringAddr = cg_NextMemoryAddr ctx
           in (stringAddr,
               ctx\<lparr>cg_NextMemoryAddr := stringAddr + (1 + chunksNeeded),
                   cg_StringTable := (cg_StringTable ctx)(stringValue \<mapsto> stringAddr),
                   cg_StringLiterals := cg_StringLiterals ctx @ [stringValue]\<rparr>)))"

fun collectStringLiteralsFromExpression :: "Expression \<Rightarrow> CodegenContext \<Rightarrow> CodegenContext"
  and collect_option :: "Expression option \<Rightarrow> CodegenContext \<Rightarrow> CodegenContext"
  and collect_list :: "Expression list \<Rightarrow> CodegenContext \<Rightarrow> CodegenContext" where
  "collectStringLiteralsFromExpression (LiteralExpr vt value) ctx =
     (if vt = TString then snd (RegisterStringLiteral value ctx) else ctx)"
| "collectStringLiteralsFromExpression (BinaryExpr op lhs rhs) ctx =
     collect_option rhs (collectStringLiteralsFromExpression lhs ctx)"
| "collectStringLiteralsFromExpression (UnaryExpr op rhs) ctx = collect_option rhs ctx"
| "collectStringLiteralsFromExpression (CallExpr f args) ctx = collect_list args ctx"
| "collectStringLiteralsFromExpression (ArrayLiteral args) ctx = collect_list args ctx"
| "collectStringLiteralsFromExpression (IndexExpr lhs rhs) ctx =
     collectStringLiteralsFromExpression rhs (collectStringLiteralsFromExpression lhs ctx)"
| "collectStringLiteralsFromExpression (IdentifierExpr x) ctx = ctx"
| "collectStringLiteralsFromExpression MapLiteral ctx = ctx"
| "collectStringLiteralsFromExpression (SliceExpr lhs start end') ctx = ctx"
| "collect_option None ctx = ctx"
| "collect_option (Some e) ctx = collectStringLiteralsFromExpression e ctx"
| "collect_list [] ctx = ctx"
| "collect_list (e # es) ctx = collect_list es (collectStringLiteralsFromExpression e ctx)"

fun collectStringLiteralsFromStatement :: "Statement \<Rightarrow> CodegenContext \<Rightarrow> CodegenContext"
  and collectStringLiteralsFromBlock :: "Block \<Rightarrow> CodegenContext \<Rightarrow> CodegenContext"
  and collect_statements :: "Statement list \<Rightarrow> CodegenContext \<Rightarrow> CodegenContext" where
  "collectStringLiteralsFromStatement (ExpressionStmt rhs) ctx = collectStringLiteralsFromExpression rhs ctx"
| "collectStringLiteralsFromStatement (AssignmentStmt vt lhs rhs) ctx = collect_option rhs ctx"
| "collectStringLiteralsFromStatement (ReturnStmt rhs) ctx = collect_option rhs ctx"
| "collectStringLiteralsFromStatement (IfStmt cond block elseBlock) ctx =
     (let ctx = collectStringLiteralsFromBlock block (collectStringLiteralsFromExpression cond ctx)
      in case elseBlock of None \<Rightarrow> ctx | Some b \<Rightarrow> collectStringLiteralsFromBlock b ctx)"
| "collectStringLiteralsFromStatement (WhileStmt cond block) ctx =
     collectStringLiteralsFromBlock block (collectStringLiteralsFromExpression cond ctx)"
| "collectStringLiteralsFromStatement BreakStmt ctx = ctx"
| "collectStringLiteralsFromStatement ContinueStmt ctx = ctx"
| "collectStringLiteralsFromBlock (Block stmts vars) ctx = collect_statements stmts ctx"
| "collect_statements [] ctx = ctx"
| "collect_statements (s # ss) ctx = collect_statements ss (collectStringLiteralsFromStatement s ctx)"

definition collectStringLiteralsFromFunction :: "Function \<Rightarrow> CodegenContext \<Rightarrow> CodegenContext" where
  "collectStringLiteralsFromFunction f ctx = collectStringLiteralsFromBlock (fn_Block f) ctx"

definition CollectStringLiterals :: "Ast \<Rightarrow> CodegenContext \<Rightarrow> CodegenContext" where
  "CollectStringLiterals ast ctx = fold (\<lambda>(name, f). collectStringLiteralsFromFunction f) (ast_Functions ast) ctx"

text \<open>The loop over the chunks of a literal, from the chunk \<open>i\<close> on, with \<open>n\<close> chunks left.\<close>

fun emit_chunks :: "byte list \<Rightarrow> u64 \<Rightarrow> nat \<Rightarrow> nat \<Rightarrow> CodegenContext \<Rightarrow> CodegenContext" where
  "emit_chunks bs stringAddr i 0 ctx = ctx"
| "emit_chunks bs stringAddr i (Suc n) ctx =
     (let chunkStart = i * 32;
          chunkEnd = min (chunkStart + 32) (length bs);
          chunk = take (chunkEnd - chunkStart) (drop chunkStart bs);
          chunk = chunk @ replicate (32 - length chunk) 0
      in emit_chunks bs stringAddr (Suc i) n
           (Emit MSTORE (EmitPush (VUint64 (stringAddr + 1 + of_nat i)) (EmitPush (VString (hex_bytes chunk)) ctx))))"

definition emit_literal :: "string \<Rightarrow> CodegenContext \<Rightarrow> CodegenContext" where
  "emit_literal stringValue ctx =
     (let stringAddr = (case cg_StringTable ctx stringValue of Some a \<Rightarrow> a | None \<Rightarrow> 0);
          stringBytes = bytes_of_string stringValue;
          byteLength = of_nat (length stringBytes) :: u64;
          chunksNeeded = (byteLength + 31) div 32
      in emit_chunks stringBytes stringAddr 0 (unat chunksNeeded)
           (Emit MSTORE (EmitPush (VUint64 stringAddr) (EmitPush (VUint64 byteLength) ctx))))"

definition GenerateStringInitialization :: "CodegenContext \<Rightarrow> CodegenContext" where
  "GenerateStringInitialization ctx = fold emit_literal (cg_StringLiterals ctx) ctx"

section \<open>Expressions\<close>

definition generateLiteral :: "TokenType \<Rightarrow> string \<Rightarrow> CodegenContext \<Rightarrow> CodegenContext option" where
  "generateLiteral valueType value ctx =
     (if valueType = TInt then Some (EmitPush (VString value) ctx)
      else if valueType = TString then
        (case RegisterStringLiteral value ctx of (stringAddr, ctx) \<Rightarrow> Some (EmitPush (VUint64 stringAddr) ctx))
      else None)"

definition context_opcode :: "string \<Rightarrow> OPCODE option" where
  "context_opcode = map_of
     [(''@caller'', CALLER), (''@address'', ADDRESS), (''@balance'', BALANCE), (''@origin'', ORIGIN),
      (''@gasprice'', GASPRICE), (''@callvalue'', CALLVALUE), (''@timestamp'', TIMESTAMP),
      (''@difficulty'', DIFFICULTY), (''@coinbase'', COINBASE), (''@height'', HEIGHT),
      (''@gaslimit'', GASLIMIT), (''@tsxdata'', TSXDATA)]"

definition generateIdentifier :: "string \<Rightarrow> CodegenContext \<Rightarrow> CodegenContext option" where
  "generateIdentifier varName ctx =
     (if GetBlockchainContextVariable varName \<noteq> None then
        (case context_opcode varName of Some op \<Rightarrow> Some (Emit op ctx) | None \<Rightarrow> None)
      else if cg_CurrentFunction ctx \<noteq> None then
        (case cg_LocalOffsets ctx varName of
           Some offset \<Rightarrow> Some (Emit LOAD_LOCAL (EmitPush (VInt (int offset)) ctx))
         | None \<Rightarrow> None)
      else None)"

text \<open>The variable that a name denotes: the first in the chain of scopes.\<close>

fun scope_lookup :: "Variables list \<Rightarrow> string \<Rightarrow> Type option" where
  "scope_lookup [] x = None"
| "scope_lookup (vars # scopes) x = (case map_of vars x of Some t \<Rightarrow> Some t | None \<Rightarrow> scope_lookup scopes x)"

definition isStringExpression :: "CodegenContext \<Rightarrow> Expression \<Rightarrow> bool" where
  "isStringExpression ctx expr =
     (case expr of
        LiteralExpr vt value \<Rightarrow> vt = TString
      | IdentifierExpr x \<Rightarrow>
          (case scope_lookup (cg_CurrentScope ctx) x of
             Some t \<Rightarrow> Type_Equals t (Some StringType) = Some True
           | None \<Rightarrow> False)
      | _ \<Rightarrow> False)"

text \<open>The operation after the operands of a binary and of a unary operator.\<close>

definition emit_binary :: "TokenType \<Rightarrow> bool \<Rightarrow> CodegenContext \<Rightarrow> CodegenContext option" where
  "emit_binary operator isStringConcat ctx = (case operator of
      TPlus \<Rightarrow> Some (Emit (if isStringConcat then STRCONCAT else ADD) ctx)
    | TMinus \<Rightarrow> Some (Emit SUB ctx)
    | TMultiply \<Rightarrow> Some (Emit MUL ctx)
    | TDivide \<Rightarrow> Some (Emit DIV ctx)
    | TEqual \<Rightarrow> Some (Emit EQ ctx)
    | TNotEqual \<Rightarrow> Some (Emit ISZERO (Emit EQ ctx))
    | TLessThan \<Rightarrow> Some (Emit LT ctx)
    | TGreaterThan \<Rightarrow> Some (Emit GT ctx)
    | TLessEqual \<Rightarrow> Some (Emit ISZERO (Emit GT ctx))
    | TGreaterEqual \<Rightarrow> Some (Emit ISZERO (Emit LT ctx))
    | TModulo \<Rightarrow> Some (Emit MOD ctx)
    | _ \<Rightarrow> None)"

definition emit_unary :: "TokenType \<Rightarrow> CodegenContext \<Rightarrow> CodegenContext option" where
  "emit_unary operator ctx = (case operator of
      TMinus \<Rightarrow> Some (Emit SUB (Emit SWAP (EmitPush (VInt 1) (EmitPush (VInt 0) ctx))))
    | TNot \<Rightarrow> Some (Emit ISZERO ctx)
    | _ \<Rightarrow> None)"

text \<open>
  What a built-in function emits after its single argument, given whether the argument is a string;
  the inner \<open>None\<close> is a fatal error, the outer one a function that is not built in with one argument.
\<close>

definition builtin :: "string \<Rightarrow> (bool \<Rightarrow> OPCODE list option) option" where
  "builtin funcName =
     (if funcName = ''emit'' then Some (\<lambda>str. Some [if str then EMITSTR else EMIT])
      else if funcName = ''len'' then Some (\<lambda>str. if str then Some [STRLEN] else None)
      else if funcName = ''int'' then Some (\<lambda>str. if str then Some [STRTOINT] else None)
      else if funcName = ''string'' then Some (\<lambda>str. if \<not> str then Some [INTTOSTR] else None)
      else if funcName = ''emit_str'' then Some (\<lambda>str. Some [EMITSTR])
      else if funcName = ''str_len'' then Some (\<lambda>str. Some [STRLEN])
      else if funcName = ''float'' then Some (\<lambda>str. Some [])
      else None)"

text \<open>The functions take the expression whole, as in the code; on a node of another type they fail.\<close>

fun GenerateExpression :: "CodegenContext \<Rightarrow> Expression \<Rightarrow> CodegenContext option"
  and generateBinaryExpression :: "CodegenContext \<Rightarrow> Expression \<Rightarrow> CodegenContext option"
  and generateUnaryExpression :: "CodegenContext \<Rightarrow> Expression \<Rightarrow> CodegenContext option"
  and generateCall :: "CodegenContext \<Rightarrow> Expression \<Rightarrow> CodegenContext option"
  and generateIndexExpr :: "CodegenContext \<Rightarrow> Expression \<Rightarrow> CodegenContext option"
  and generateSliceExpr :: "CodegenContext \<Rightarrow> Expression \<Rightarrow> CodegenContext option"
  and generate_arguments :: "CodegenContext \<Rightarrow> Expression list \<Rightarrow> CodegenContext option" where
  "GenerateExpression ctx (LiteralExpr vt value) = generateLiteral vt value ctx"
| "GenerateExpression ctx (BinaryExpr op lhs rhs) = generateBinaryExpression ctx (BinaryExpr op lhs rhs)"
| "GenerateExpression ctx (UnaryExpr op rhs) = generateUnaryExpression ctx (UnaryExpr op rhs)"
| "GenerateExpression ctx (IdentifierExpr x) = generateIdentifier x ctx"
| "GenerateExpression ctx (CallExpr funcName args) = generateCall ctx (CallExpr funcName args)"
| "GenerateExpression ctx (ArrayLiteral args) = None"
| "GenerateExpression ctx MapLiteral = None"
| "GenerateExpression ctx (IndexExpr lhs rhs) = generateIndexExpr ctx (IndexExpr lhs rhs)"
| "GenerateExpression ctx (SliceExpr lhs sliceStart sliceEnd) = generateSliceExpr ctx (SliceExpr lhs sliceStart sliceEnd)"
| "generateBinaryExpression ctx (BinaryExpr op lhs (Some rhs)) = do {
     ctx \<leftarrow> GenerateExpression ctx lhs;
     ctx \<leftarrow> GenerateExpression ctx rhs;
     emit_binary op (isStringExpression ctx lhs \<and> isStringExpression ctx rhs) ctx
   }"
| "generateBinaryExpression ctx expr = None"
| "generateUnaryExpression ctx (UnaryExpr op (Some rhs)) = do {
     ctx \<leftarrow> GenerateExpression ctx rhs;
     emit_unary op ctx
   }"
| "generateUnaryExpression ctx expr = None"
| "generateCall ctx (CallExpr funcName args) =
     (case builtin funcName of
        Some after \<Rightarrow>
          (case args of
             [arg] \<Rightarrow> do {
               ctx \<leftarrow> GenerateExpression ctx arg;
               ops \<leftarrow> after (isStringExpression ctx arg);
               Some (fold Emit ops ctx)
             }
           | _ \<Rightarrow> None)
      | None \<Rightarrow>
          if funcName = ''str_concat'' then
            (case args of
               [arg0, arg1] \<Rightarrow> do {
                 ctx \<leftarrow> GenerateExpression ctx arg0;
                 ctx \<leftarrow> GenerateExpression ctx arg1;
                 Some (Emit STRCONCAT ctx)
               }
             | _ \<Rightarrow> None)
          else do {
            funcAddr \<leftarrow> cg_FunctionIndex ctx funcName;
            ctx \<leftarrow> generate_arguments ctx args;
            Some (Emit CALL (EmitPush (VInt (int funcAddr)) ctx))
          })"
| "generateCall ctx expr = None"
| "generateIndexExpr ctx (IndexExpr lhs rhs) =
     (if lhs = IdentifierExpr ''persistent'' then map_option (Emit PLOAD) (GenerateExpression ctx rhs)
      else if lhs = IdentifierExpr ''memory'' then map_option (Emit MLOAD) (GenerateExpression ctx rhs)
      else if isStringExpression ctx lhs then do {
        ctx \<leftarrow> GenerateExpression ctx lhs;
        ctx \<leftarrow> GenerateExpression ctx rhs;
        Some (Emit STRINDEX ctx)
      }
      else None)"
| "generateIndexExpr ctx expr = None"
| "generateSliceExpr ctx (SliceExpr lhs sliceStart sliceEnd) =
     (if isStringExpression ctx lhs then do {
        ctx \<leftarrow> GenerateExpression ctx lhs;
        ctx \<leftarrow> (case sliceStart of Some e \<Rightarrow> GenerateExpression ctx e | None \<Rightarrow> Some (EmitPush (VInt 0) ctx));
        ctx \<leftarrow> (case sliceEnd of Some e \<Rightarrow> GenerateExpression ctx e | None \<Rightarrow> Some (EmitPush (VInt 999999) ctx));
        Some (Emit STRSLICE ctx)
      }
      else None)"
| "generateSliceExpr ctx expr = None"
| "generate_arguments ctx [] = Some ctx"
| "generate_arguments ctx (arg # args) = do {
     ctx \<leftarrow> GenerateExpression ctx arg;
     generate_arguments ctx args
   }"

section \<open>Statements\<close>

definition store_local :: "string \<Rightarrow> CodegenContext \<Rightarrow> CodegenContext" where
  "store_local varName ctx =
     (case cg_LocalOffsets ctx varName of
        Some offset \<Rightarrow> Emit STORE_LOCAL (EmitPush (VInt (int offset)) ctx)
      | None \<Rightarrow>
          (let offset = cg_NextLocalOffset ctx
           in Emit STORE_LOCAL (EmitPush (VInt (int offset))
                (ctx\<lparr>cg_LocalOffsets := (cg_LocalOffsets ctx)(varName \<mapsto> offset), cg_NextLocalOffset := offset + 1\<rparr>))))"

text \<open>An assignment without a right-hand side passes nil on; only names can be assigned otherwise.\<close>

definition generateAssignment :: "CodegenContext \<Rightarrow> Expression \<Rightarrow> Expression option \<Rightarrow> CodegenContext option" where
  "generateAssignment ctx lhs rhs = do {
     rhs \<leftarrow> rhs;
     ctx \<leftarrow> GenerateExpression ctx rhs;
     (case lhs of
        IndexExpr base key \<Rightarrow>
          if base = IdentifierExpr ''persistent'' then map_option (Emit PSTORE) (GenerateExpression ctx key)
          else if base = IdentifierExpr ''memory'' then map_option (Emit MSTORE) (GenerateExpression ctx key)
          else None
      | IdentifierExpr varName \<Rightarrow> Some (store_local varName ctx)
      | LiteralExpr vt varName \<Rightarrow> Some (store_local varName ctx)
      | CallExpr varName args \<Rightarrow> Some (store_local varName ctx)
      | _ \<Rightarrow> None)
   }"

definition generateReturn :: "CodegenContext \<Rightarrow> Expression option \<Rightarrow> CodegenContext option" where
  "generateReturn ctx rhs = do {
     ctx \<leftarrow> (case rhs of Some e \<Rightarrow> GenerateExpression ctx e | None \<Rightarrow> Some (EmitPush (VInt 0) ctx));
     Some (Emit RETURN ctx)
   }"

definition generateBreak :: "CodegenContext \<Rightarrow> CodegenContext option" where
  "generateBreak ctx = (case cg_LoopStack ctx of
      [] \<Rightarrow> None
    | loop # loops \<Rightarrow>
        (let jumpIndex = here ctx; ctx = Emit JUMP (EmitPush (VInt 0) ctx)
         in Some (ctx\<lparr>cg_LoopStack := loop\<lparr>BreakPatches := BreakPatches loop @ [jumpIndex]\<rparr> # loops\<rparr>)))"

definition generateContinue :: "CodegenContext \<Rightarrow> CodegenContext option" where
  "generateContinue ctx = (case cg_LoopStack ctx of
      [] \<Rightarrow> None
    | loop # loops \<Rightarrow> Some (Emit JUMP (EmitPush (VInt (int (ContinueAddr loop))) ctx)))"

text \<open>The end of a loop: its context is popped, the jump back emitted and the exits patched.\<close>

definition finish_while :: "nat \<Rightarrow> nat \<Rightarrow> CodegenContext \<Rightarrow> CodegenContext option" where
  "finish_while loopStart jumpcIndex ctx = (case cg_LoopStack ctx of
      [] \<Rightarrow> None
    | loopCtx # loops \<Rightarrow>
        (let ctx = Emit JUMP (EmitPush (VInt (int loopStart)) (ctx\<lparr>cg_LoopStack := loops\<rparr>));
             loopEnd = here ctx;
             ctx = patch jumpcIndex loopEnd ctx
         in Some (fold (\<lambda>breakIdx. patch breakIdx loopEnd) (BreakPatches loopCtx) ctx)))"

fun generateStatement :: "CodegenContext \<Rightarrow> Statement \<Rightarrow> CodegenContext option"
  and generateIf :: "CodegenContext \<Rightarrow> Statement \<Rightarrow> CodegenContext option"
  and generateWhile :: "CodegenContext \<Rightarrow> Statement \<Rightarrow> CodegenContext option"
  and generateBlock :: "CodegenContext \<Rightarrow> Block \<Rightarrow> CodegenContext option"
  and generate_statements :: "CodegenContext \<Rightarrow> Statement list \<Rightarrow> CodegenContext option" where
  "generateStatement ctx (AssignmentStmt vt lhs rhs) = generateAssignment ctx lhs rhs"
| "generateStatement ctx (ReturnStmt rhs) = generateReturn ctx rhs"
| "generateStatement ctx (IfStmt cond block elseBlock) = generateIf ctx (IfStmt cond block elseBlock)"
| "generateStatement ctx (WhileStmt cond block) = generateWhile ctx (WhileStmt cond block)"
| "generateStatement ctx BreakStmt = generateBreak ctx"
| "generateStatement ctx ContinueStmt = generateContinue ctx"
| "generateStatement ctx (ExpressionStmt rhs) = map_option (Emit POP) (GenerateExpression ctx rhs)"
| "generateIf ctx (IfStmt cond block elseBlock) = do {
     ctx \<leftarrow> GenerateExpression ctx cond;
     let ctx = Emit ISZERO ctx;
     let jumpcIndex = here ctx;
     let ctx = Emit JUMPC (EmitPush (VInt 0) ctx);
     ctx \<leftarrow> generateBlock ctx block;
     (case elseBlock of
        None \<Rightarrow> Some (patch jumpcIndex (here ctx) ctx)
      | Some block' \<Rightarrow> do {
          let jumpIndex = here ctx;
          let ctx = Emit JUMP (EmitPush (VInt 0) ctx);
          ctx \<leftarrow> generateBlock (patch jumpcIndex (here ctx) ctx) block';
          Some (patch jumpIndex (here ctx) ctx)
        })
   }"
| "generateIf ctx stmt = None"
| "generateWhile ctx (WhileStmt cond block) = do {
     let loopStart = here ctx;
     ctx \<leftarrow> GenerateExpression ctx cond;
     let ctx = Emit ISZERO ctx;
     let jumpcIndex = here ctx;
     let ctx = Emit JUMPC (EmitPush (VInt 0) ctx);
     let loopCtx = \<lparr>ContinueAddr = loopStart, BreakPatches = []\<rparr>;
     ctx \<leftarrow> generateBlock (ctx\<lparr>cg_LoopStack := loopCtx # cg_LoopStack ctx\<rparr>) block;
     finish_while loopStart jumpcIndex ctx
   }"
| "generateWhile ctx stmt = None"
| "generateBlock ctx (Block stmts vars) = do {
     let backScope = cg_CurrentScope ctx;
     ctx \<leftarrow> generate_statements (ctx\<lparr>cg_CurrentScope := vars # backScope\<rparr>) stmts;
     Some (ctx\<lparr>cg_CurrentScope := backScope\<rparr>)
   }"
| "generate_statements ctx [] = Some ctx"
| "generate_statements ctx (stmt # stmts) = do {
     ctx \<leftarrow> generateStatement ctx stmt;
     generate_statements ctx stmts
   }"

section \<open>Functions and programs\<close>

text \<open>
  A body is generated in the scope of its block, whose parent is the global scope. The parameters
  take the offsets \<open>0\<close>, \<open>1\<close>, and so on; of a repeated name the last offset counts.
\<close>

definition parameter_offsets :: "string list \<Rightarrow> string \<rightharpoonup> nat" where
  "parameter_offsets params = map_of (rev (zip params [0..<length params]))"

definition GenerateFunctionDefinition :: "CodegenContext \<Rightarrow> Function \<Rightarrow> CodegenContext option" where
  "GenerateFunctionDefinition ctx f =
     (if cg_FunctionIndex ctx (fn_Name f) \<noteq> None then Some ctx
      else do {
        let ctx0 = ctx\<lparr>cg_FunctionIndex := (cg_FunctionIndex ctx)(fn_Name f \<mapsto> here ctx)\<rparr>;
        ctx \<leftarrow> generateBlock (ctx0\<lparr>cg_CurrentFunction := Some f, cg_CurrentScope := [ast_Scope (cg_Ast ctx0)],
            cg_LocalOffsets := parameter_offsets (fn_Parameters f),
            cg_NextLocalOffset := length (fn_Parameters f)\<rparr>) (fn_Block f);
        let ctx = (if cg_Instructions ctx = [] \<or> Opcode (last (cg_Instructions ctx)) \<noteq> RETURN
                   then Emit RETURN (EmitPush (VInt 0) ctx) else ctx);
        Some (ctx\<lparr>cg_CurrentFunction := cg_CurrentFunction ctx0, cg_CurrentScope := cg_CurrentScope ctx0,
            cg_LocalOffsets := cg_LocalOffsets ctx0, cg_NextLocalOffset := cg_NextLocalOffset ctx0\<rparr>)
      })"

fun generate_functions :: "CodegenContext \<Rightarrow> Function list \<Rightarrow> CodegenContext option" where
  "generate_functions ctx [] = Some ctx"
| "generate_functions ctx (f # fs) = do {
     ctx \<leftarrow> GenerateFunctionDefinition ctx f;
     generate_functions ctx fs
   }"

definition new_context :: "Ast \<Rightarrow> CodegenContext" where
  "new_context ast =
     \<lparr>cg_Ast = ast, cg_CurrentFunction = None, cg_CurrentScope = [], cg_Instructions = [],
      cg_FunctionIndex = Map.empty, cg_LocalOffsets = Map.empty, cg_NextLocalOffset = 0, cg_LoopStack = [],
      cg_NextMemoryAddr = 0, cg_StringTable = Map.empty, cg_StringLiterals = []\<rparr>"

text \<open>The entry points: two jumps, then the two paths that set up the strings and jump on.\<close>

definition emit_entries :: "CodegenContext \<Rightarrow> CodegenContext \<times> nat \<times> nat \<times> nat \<times> nat" where
  "emit_entries ctx =
     (let ctx = Emit JUMP (EmitPush (VInt 0) ctx);
          ctx = Emit JUMP (EmitPush (VInt 0) ctx);
          initPathStart = here ctx;
          ctx = GenerateStringInitialization ctx;
          initJumpPlaceholder = here ctx;
          ctx = Emit JUMP (EmitPush (VInt 0) ctx);
          callPathStart = here ctx;
          ctx = GenerateStringInitialization ctx;
          callJumpPlaceholder = here ctx;
          ctx = Emit JUMP (EmitPush (VInt 0) ctx)
      in (ctx, initPathStart, initJumpPlaceholder, callPathStart, callJumpPlaceholder))"

text \<open>The functions in the order in which they are generated: \<open>init\<close>, the others, \<open>call\<close>.\<close>

definition generation_order :: "(string, Function) gomap \<Rightarrow> Function list" where
  "generation_order fs =
     (case map_of fs ''init'' of Some f \<Rightarrow> [f] | None \<Rightarrow> []) @
     map snd (filter (\<lambda>(name, f). name \<noteq> ''init'' \<and> name \<noteq> ''call'') fs) @
     (case map_of fs ''call'' of Some f \<Rightarrow> [f] | None \<Rightarrow> [])"

definition CodegenWithContext :: "Ast \<Rightarrow> CodegenContext option" where
  "CodegenWithContext ast =
     (case emit_entries (CollectStringLiterals ast (new_context ast)) of
        (ctx, initPathStart, initJumpPlaceholder, callPathStart, callJumpPlaceholder) \<Rightarrow> do {
          ctx \<leftarrow> generate_functions ctx (generation_order (ast_Functions ast));
          initAddr \<leftarrow> cg_FunctionIndex ctx ''init'';
          let ctx = patch initJumpPlaceholder initAddr (patch 0 initPathStart ctx);
          callAddr \<leftarrow> cg_FunctionIndex ctx ''call'';
          Some (patch callJumpPlaceholder callAddr (patch 2 callPathStart ctx))
        })"

definition instruction_text :: "Instruction \<Rightarrow> string" where
  "instruction_text inst = (case Value inst of
      Some v \<Rightarrow> if Opcode inst = PUSH then ''PUSH '' @ v @ '' '' else OPCODE_String (Opcode inst) @ '' ''
    | None \<Rightarrow> OPCODE_String (Opcode inst) @ '' '')"

definition Codegen :: "Ast \<Rightarrow> string option" where
  "Codegen ast = map_option (\<lambda>ctx. concat (map instruction_text (cg_Instructions ctx))) (CodegenWithContext ast)"

end
