(* ===== verification/AVM_Arith.thy ===== *)
theory AVM_Arith
  imports Go_Prelude
begin

text \<open>
  The signed 256-bit arithmetic of \<open>src/avm/runtime.go\<close> on \<open>big.Int\<close> values. The functions are
  compared with the two's complement arithmetic of 256-bit words, read with \<open>W\<close>: addition,
  subtraction, comparison and (after truncation towards minus infinity of the Euclidean
  quotient) division agree with it on every pair of words; multiplication agrees exactly where the
  product does not fall below \<open>- 2 ^ 256\<close>, and leaves the 256-bit range below that.
\<close>

section \<open>The operations\<close>

definition mod256 :: int where
  "mod256 = push_bit 256 1"

definition sign256 :: int where
  "sign256 = push_bit 255 1"

definition toSigned256 :: "int \<Rightarrow> int" where
  "toSigned256 n = (if n \<ge> sign256 then - (mod256 - n) else n)"

definition toUnsigned256 :: "int \<Rightarrow> int" where
  "toUnsigned256 n = (if n < 0 then mod256 + n else n mod mod256)"

definition signedAdd :: "int \<Rightarrow> int \<Rightarrow> int" where
  "signedAdd a b = toUnsigned256 (toSigned256 a + toSigned256 b)"

definition signedSub :: "int \<Rightarrow> int \<Rightarrow> int" where
  "signedSub a b = toUnsigned256 (toSigned256 a - toSigned256 b)"

definition signedMul :: "int \<Rightarrow> int \<Rightarrow> int" where
  "signedMul a b = toUnsigned256 (toSigned256 a * toSigned256 b)"

text \<open>
  \<open>big.Int.Div\<close> and \<open>big.Int.Mod\<close> are Euclidean: the remainder is never negative. Both panic on a
  zero divisor, which the callers exclude.
\<close>

definition big_Div :: "int \<Rightarrow> int \<Rightarrow> int" where
  "big_Div x y = (if y > 0 then x div y else - (x div (- y)))"

definition big_Mod :: "int \<Rightarrow> int \<Rightarrow> int" where
  "big_Mod x y = x mod \<bar>y\<bar>"

definition signedDiv :: "int \<Rightarrow> int \<Rightarrow> int" where
  "signedDiv a b =
     (let signedA = toSigned256 a; signedB = toSigned256 b
      in if signedB = 0 then 0 else toUnsigned256 (big_Div signedA signedB))"

definition signedCmp :: "int \<Rightarrow> int \<Rightarrow> int" where
  "signedCmp a b =
     (let signedA = toSigned256 a; signedB = toSigned256 b
      in if signedA < signedB then - 1 else if signedA = signedB then 0 else 1)"

section \<open>Words as the reference\<close>

definition word256 :: "int \<Rightarrow> bool" where
  "word256 x \<longleftrightarrow> 0 \<le> x \<and> x < 2 ^ 256"

abbreviation W :: "int \<Rightarrow> 256 word" where
  "W x \<equiv> word_of_int x"

lemma mod256_eq: "mod256 = 2 ^ 256"
  by (simp add: mod256_def push_bit_eq_mult)

lemma sign256_eq: "sign256 = 2 ^ 255"
  by (simp add: sign256_def push_bit_eq_mult)

lemma uint_W: "uint (W x) = x mod 2 ^ 256"
  by (simp add: uint_word_of_int)

lemma toUnsigned256_in_range: "- (2 ^ 256) \<le> n \<Longrightarrow> toUnsigned256 n = uint (W n)"
proof (cases "n < 0")
  case True
  assume "- (2 ^ 256) \<le> n"
  then have "(2 ^ 256 + n) mod 2 ^ 256 = 2 ^ 256 + n" using True by (intro mod_pos_pos_trivial) simp_all
  then have "n mod 2 ^ 256 = 2 ^ 256 + n" by simp
  then show ?thesis using True by (simp only: toUnsigned256_def mod256_eq uint_W) simp
qed (simp add: toUnsigned256_def mod256_eq uint_W)

lemma toUnsigned256_below: "n < - (2 ^ 256) \<Longrightarrow> toUnsigned256 n < 0"
  by (simp add: toUnsigned256_def mod256_eq)

lemma toSigned256_sint: "word256 x \<Longrightarrow> toSigned256 x = sint (W x)"
proof -
  assume x: "word256 x"
  then have "sint (W x) = signed_take_bit 255 x" by (simp add: sint_uint uint_W word256_def)
  also have "\<dots> = toSigned256 x"
  proof (cases "x < 2 ^ 255")
    case True
    with x show ?thesis by (simp add: signed_take_bit_int_eq_self word256_def toSigned256_def sign256_eq)
  next
    case False
    then have "signed_take_bit 255 x = signed_take_bit 255 (x - 2 ^ 256)"
      by (intro signed_take_bit_eq_iff_take_bit_eq [THEN iffD2]) (simp add: take_bit_eq_mod)
    also have "\<dots> = x - 2 ^ 256" using False x by (intro signed_take_bit_int_eq_self) (simp_all add: word256_def)
    finally show ?thesis using False by (simp add: toSigned256_def sign256_eq mod256_eq)
  qed
  finally show ?thesis by simp
qed

lemma sint_range256: "- (2 ^ 255) \<le> sint (w :: 256 word) \<and> sint w < 2 ^ 255"
  using sint_ge [of w] sint_lt [of w] by simp

lemma W_sint: "W (sint (w :: 256 word)) = w"
  by simp

lemma signedAdd_word: "word256 a \<Longrightarrow> word256 b \<Longrightarrow> signedAdd a b = uint (W a + W b)"
  using sint_range256 [of "W a"] sint_range256 [of "W b"]
  by (simp add: signedAdd_def toSigned256_sint toUnsigned256_in_range)

lemma signedSub_word: "word256 a \<Longrightarrow> word256 b \<Longrightarrow> signedSub a b = uint (W a - W b)"
  using sint_range256 [of "W a"] sint_range256 [of "W b"]
  by (simp add: signedSub_def toSigned256_sint toUnsigned256_in_range)

lemma signedMul_word:
  "word256 a \<Longrightarrow> word256 b \<Longrightarrow> - (2 ^ 256) \<le> sint (W a) * sint (W b) \<Longrightarrow> signedMul a b = uint (W a * W b)"
  by (simp add: signedMul_def toSigned256_sint toUnsigned256_in_range)

lemma signedMul_range:
  assumes "word256 a" "word256 b"
  shows "word256 (signedMul a b) \<longleftrightarrow> - (2 ^ 256) \<le> sint (W a) * sint (W b)"
proof (cases "- (2 ^ 256) \<le> sint (W a) * sint (W b)")
  case True
  with assms show ?thesis
    using unsigned_less [of "W a * W b", where ?'a = int] by (simp add: signedMul_word word256_def)
next
  case False
  with assms show ?thesis
    using toUnsigned256_below [of "sint (W a) * sint (W b)"]
    by (simp add: signedMul_def toSigned256_sint word256_def)
qed

lemma sint_W_inject: "word256 a \<Longrightarrow> word256 b \<Longrightarrow> sint (W a) = sint (W b) \<longleftrightarrow> a = b"
proof
  assume "word256 a" "word256 b" "sint (W a) = sint (W b)"
  then have "uint (W a) = uint (W b)" by (metis W_sint)
  with \<open>word256 a\<close> \<open>word256 b\<close> show "a = b" by (simp add: uint_W word256_def)
qed simp

lemma signedCmp_word:
  assumes "word256 a" "word256 b"
  shows "signedCmp a b = (if sint (W a) < sint (W b) then - 1 else if a = b then 0 else 1)"
  using assms by (simp add: signedCmp_def Let_def toSigned256_sint sint_W_inject)

lemma big_Div_Mod: "y \<noteq> 0 \<Longrightarrow> x = y * big_Div x y + big_Mod x y \<and> 0 \<le> big_Mod x y \<and> big_Mod x y < \<bar>y\<bar>"
  using mult_div_mod_eq [of "- y" x] by (auto simp: big_Div_def big_Mod_def not_less)

lemma big_Div_abs: "y \<noteq> 0 \<Longrightarrow> \<bar>big_Div x y\<bar> \<le> \<bar>x\<bar>"
proof -
  have *: "\<bar>x div z\<bar> \<le> \<bar>x\<bar>" if "0 < z" for z :: int
  proof (cases "0 \<le> x")
    case True
    then have "0 \<le> x div z" using that by (simp add: pos_imp_zdiv_nonneg_iff)
    moreover have "x div z \<le> x" using True that zdiv_mono2 [of x 1 z] by simp
    ultimately show ?thesis using True by simp
  next
    case False
    then have "x div z < 0" using that by (simp add: div_neg_pos_less0)
    moreover have "x div 1 \<le> x div z" using False that by (intro zdiv_mono2_neg) auto
    ultimately show ?thesis using False by simp
  qed
  assume "y \<noteq> 0"
  then show ?thesis using *[of y] *[of "-y"] by (auto simp: big_Div_def not_less)
qed

lemma signedDiv_word:
  assumes "word256 a" "word256 b" "b \<noteq> 0"
  shows "signedDiv a b = uint (W (big_Div (sint (W a)) (sint (W b))))"
proof -
  have "word256 0" by (simp add: word256_def)
  then have "sint (W b) \<noteq> 0" using sint_W_inject [of b 0] assms by simp
  moreover from this have "\<bar>big_Div (sint (W a)) (sint (W b))\<bar> \<le> 2 ^ 255"
    using sint_range256 [of "W a"] by (intro order_trans [OF big_Div_abs]) (auto simp: abs_le_iff)
  ultimately show ?thesis
    using assms by (simp add: signedDiv_def Let_def toSigned256_sint toUnsigned256_in_range)
qed
lemma signedDiv_zero: "signedDiv a 0 = 0"
  by (simp add: signedDiv_def toSigned256_def sign256_eq)

end
