(* ===== verification/AVM_State.thy ===== *)
theory AVM_State
  imports AVM_Arith Bytecode
begin

text \<open>
  The state of the virtual machine (\<open>src/avm/runtime.go\<close>, \<open>src/avm/errors.go\<close>): the operand stack,
  the word-addressed memory, the strings laid out in it, and the \<open>Runtime\<close> with its constructors.
  A method that mutates its receiver returns the new one. A Go panic (an index out of range, a
  \<open>FillBytes\<close> that does not fit, an allocation beyond the address space) is the outcome
  \<open>Panic\<close>, distinct from a returned error.
\<close>

section \<open>Outcomes\<close>

datatype avm_error =
    ErrOutOfGas | ErrStackUnderflow | ErrInvalidInstructionNoRhs | ErrStackOverflow
  | ErrInvalidJump | ErrInvalidOpcode | ErrMemoryOutOfBounds | ErrDivisionByZero
  | ErrExecutionReverted | ErrProgramStopped | ErrInvalidSwapParameter | ErrValueTooLarge
  | ErrKeyNotInStorage
  | EmptyStack
  | InstrError instr_error
  | LoadLocalInvalidOffset
  | StoreLocalInvalidOffset
  | InvalidStringPointer
  | MissingStringChunk
  | StringIndexOutOfRange
  | SliceStartOutOfRange
  | SliceEndOutOfRange
  | EmptyStringToInt
  | DashToInt
  | InvalidCharacter char
  | RuntimeNotClean

datatype 'a outcome = Ret 'a | Err avm_error | Panic

section \<open>The stack\<close>

text \<open>The slice \<open>s\<close> grows at its end: the top of the stack is the last element.\<close>

record stack =
  stk_s :: "int list"
  stk_maxSize :: u64

definition NewStack :: "u64 \<Rightarrow> stack" where
  "NewStack maxSize = \<lparr>stk_s = [], stk_maxSize = maxSize\<rparr>"

definition stack_Push :: "stack \<Rightarrow> int \<Rightarrow> stack outcome" where
  "stack_Push st v =
     (if stk_maxSize st > 0 \<and> int (length (stk_s st)) \<ge> uint (stk_maxSize st) then Err ErrStackOverflow
      else Ret (st\<lparr>stk_s := stk_s st @ [v]\<rparr>))"

definition stack_Pop :: "stack \<Rightarrow> (int \<times> stack) outcome" where
  "stack_Pop st =
     (if stk_s st = [] then Err EmptyStack
      else Ret (last (stk_s st), st\<lparr>stk_s := butlast (stk_s st)\<rparr>))"

definition stack_Top :: "stack \<Rightarrow> int outcome" where
  "stack_Top st = (if stk_s st = [] then Err EmptyStack else Ret (last (stk_s st)))"

text \<open>A negative \<open>down\<close> passes the guard and indexes past the end of the slice.\<close>

definition stack_Swap :: "stack \<Rightarrow> int \<Rightarrow> stack outcome" where
  "stack_Swap st down =
     (let l = int (length (stk_s st)) in
      if l \<le> down then Err ErrStackUnderflow
      else case stack_Top st of
          Err e \<Rightarrow> Err e
        | Panic \<Rightarrow> Panic
        | Ret cpy \<Rightarrow>
            (let i = l - 1 - down
             in if i < 0 \<or> i \<ge> l then Panic
                else Ret (st\<lparr>stk_s := ((stk_s st)[nat (l - 1) := stk_s st ! nat i])[nat i := cpy]\<rparr>)))"

definition stack_Size :: "stack \<Rightarrow> nat" where
  "stack_Size st = length (stk_s st)"

section \<open>The memory\<close>

record memory =
  mem_m :: "u64 \<rightharpoonup> int"
  mem_maxSize :: u64

definition NewMemory :: "u64 \<Rightarrow> memory" where
  "NewMemory maxSize = \<lparr>mem_m = Map.empty, mem_maxSize = maxSize\<rparr>"

definition mem_Store :: "memory \<Rightarrow> u64 \<Rightarrow> int \<Rightarrow> memory outcome" where
  "mem_Store m address value =
     (if mem_maxSize m > 0 \<and> address \<ge> mem_maxSize m then Err ErrMemoryOutOfBounds
      else Ret (m\<lparr>mem_m := (mem_m m)(address \<mapsto> value)\<rparr>))"

definition mem_Load :: "memory \<Rightarrow> u64 \<Rightarrow> int outcome" where
  "mem_Load m address =
     (if mem_maxSize m > 0 \<and> address \<ge> mem_maxSize m then Err ErrMemoryOutOfBounds
      else case mem_m m address of Some value \<Rightarrow> Ret value | None \<Rightarrow> Ret 0)"

section \<open>The runtime\<close>

record BlockchainContext =
  BlockNumber :: u64
  BlockHash :: Hash32
  LastBlockHash :: Hash32
  ctx_Timestamp :: u64
  Difficulty :: u64
  ctx_GasLimit :: u64
  Coinbase :: PublicKey
  ctx_ChainID :: u64
  Caller :: PublicKey
  Origin :: PublicKey
  ctx_GasPrice :: u64
  CallValue :: u64
  ContractAddress :: PublicKey
  TsxData :: "byte list"
  Deployer :: PublicKey
  DeploymentTime :: u64
  DeploymentGas :: u64

record Runtime =
  Stack :: stack
  Memory :: memory
  FramePointer :: int
  IC :: int
  StartIC :: int
  GasAvailable :: u64
  GasUsed :: u64
  Instructions :: "Instruction list"
  Persistent :: "(string, string) gomap"
  Context :: BlockchainContext
  ReturnStack :: "int list"
  FrameStack :: "int list"
  NextMemoryAddr :: u64

definition MockBlockchainContext :: BlockchainContext where
  "MockBlockchainContext =
     \<lparr>BlockNumber = 1, BlockHash = zero32, LastBlockHash = zero32, ctx_Timestamp = 1640995200,
      Difficulty = 1000, ctx_GasLimit = 1000000, Coinbase = zero32, ctx_ChainID = 1,
      Caller = zero32, Origin = zero32, ctx_GasPrice = 1, CallValue = 0, ContractAddress = zero32,
      TsxData = [], Deployer = zero32, DeploymentTime = 1640995200, DeploymentGas = 1\<rparr>"

definition NewRuntimeWithIC :: "u64 \<Rightarrow> Instruction list \<Rightarrow> BlockchainContext \<Rightarrow> int \<Rightarrow> Runtime" where
  "NewRuntimeWithIC gasAvailable instructions context startIC =
     \<lparr>Stack = NewStack AVMMaxStackSize, Memory = NewMemory AVMMaxMemorySize, FramePointer = 0,
      IC = startIC, StartIC = startIC, GasAvailable = gasAvailable, GasUsed = 0,
      Instructions = instructions, Persistent = [], Context = context, ReturnStack = [],
      FrameStack = [], NextMemoryAddr = 100\<rparr>"

definition NewRuntime :: "u64 \<Rightarrow> Instruction list \<Rightarrow> BlockchainContext \<Rightarrow> Runtime" where
  "NewRuntime gasAvailable instructions context = NewRuntimeWithIC gasAvailable instructions context 0"

definition NewTestRuntime :: "u64 \<Rightarrow> Instruction list \<Rightarrow> Runtime" where
  "NewTestRuntime gasAvailable instructions = NewRuntime gasAvailable instructions MockBlockchainContext"

definition NewTestRuntimeWithLimits :: "u64 \<Rightarrow> Instruction list \<Rightarrow> u64 \<Rightarrow> u64 \<Rightarrow> Runtime" where
  "NewTestRuntimeWithLimits gasAvailable instructions stackSize memorySize =
     \<lparr>Stack = NewStack stackSize, Memory = NewMemory memorySize, FramePointer = 0, IC = 0, StartIC = 0,
      GasAvailable = gasAvailable, GasUsed = 0, Instructions = instructions, Persistent = [],
      Context = MockBlockchainContext, ReturnStack = [], FrameStack = [], NextMemoryAddr = 0\<rparr>"

section \<open>Strings in memory\<close>

text \<open>
  A string at address \<open>a\<close> is its length at \<open>a\<close> and its bytes in 32-byte chunks, padded with zeros,
  from \<open>a + 1\<close> on. \<open>read_chunks m a len n i acc\<close> is the loop that reads the chunks \<open>i\<close>, \<open>i + 1\<close>, ... of
  the string at \<open>a\<close>, with \<open>n\<close> chunks left to read.
\<close>

fun read_chunks :: "memory \<Rightarrow> u64 \<Rightarrow> u64 \<Rightarrow> nat \<Rightarrow> u64 \<Rightarrow> byte list \<Rightarrow> byte list outcome" where
  "read_chunks m addr len 0 i acc = Ret acc"
| "read_chunks m addr len (Suc n) i acc =
     (case mem_Load m (addr + 1 + i) of
        Err e \<Rightarrow> Err MissingStringChunk
      | Panic \<Rightarrow> Panic
      | Ret chunkVal \<Rightarrow>
          (case big_FillBytes chunkVal 32 of
             None \<Rightarrow> Panic
           | Some chunk \<Rightarrow>
               (let remaining = len - of_nat (length acc)
                in read_chunks m addr len n (i + 1)
                     (acc @ (if remaining > 32 then chunk else take (unat remaining) chunk)))))"

definition chunk_count :: "u64 \<Rightarrow> u64" where
  "chunk_count len = (len + 31) div 32"

text \<open>The empty string stands for "no valid string here"; \<open>None\<close> is the panic of \<open>FillBytes\<close>.\<close>

definition readStringFromMemory :: "Runtime \<Rightarrow> u64 \<Rightarrow> string option" where
  "readStringFromMemory r addr =
     (case mem_Load (Memory r) addr of
        Ret lenVal \<Rightarrow>
          (let len = big_Uint64 lenVal in
           if len = 0 then Some []
           else if len > 1000000 then Some []
           else case read_chunks (Memory r) addr len (unat (chunk_count len)) 0 [] of
               Ret bs \<Rightarrow> Some (string_of_bytes bs)
             | Err e \<Rightarrow> Some []
             | Panic \<Rightarrow> None)
      | _ \<Rightarrow> Some [])"

definition pad32 :: "byte list \<Rightarrow> byte list" where
  "pad32 bs = bs @ replicate (32 - length bs) 0"

text \<open>\<open>storeStringInMemory\<close> ignores the errors of \<open>Memory.Store\<close>.\<close>

definition store_ignore :: "memory \<Rightarrow> u64 \<Rightarrow> int \<Rightarrow> memory" where
  "store_ignore m a v = (case mem_Store m a v of Ret m' \<Rightarrow> m' | _ \<Rightarrow> m)"

function write_chunks :: "memory \<Rightarrow> u64 \<Rightarrow> byte list \<Rightarrow> memory" where
  "write_chunks m a bs =
     (if bs = [] then m
      else write_chunks (store_ignore m a (big_SetBytes (pad32 (take 32 bs)))) (a + 1) (drop 32 bs))"
  by pat_completeness auto
termination
  by (relation "measure (\<lambda>(m, a, bs). length bs)") auto

declare write_chunks.simps [simp del]

definition storeStringInMemory :: "Runtime \<Rightarrow> string \<Rightarrow> u64 \<times> Runtime" where
  "storeStringInMemory r s =
     (let stringBytes = bytes_of_string s;
          byteLength = of_nat (length stringBytes) :: u64;
          addr = NextMemoryAddr r;
          m = store_ignore (Memory r) addr (sint byteLength);
          m = write_chunks m (addr + 1) stringBytes
      in (addr, r\<lparr>Memory := m, NextMemoryAddr := addr + 1 + chunk_count byteLength\<rparr>))"

end
