(* ===== verification/AVM_Runtime.thy ===== *)
theory AVM_Runtime
  imports AVM_State
begin

text \<open>
  The interpreter of \<open>src/avm/runtime.go\<close>: one definition per case of the switch of
  \<open>ExecuteInstruction\<close>, the dispatch over the opcodes, the charging of gas and the loop of
  \<open>StartExecution\<close>. What a case prints is not part of the model.
\<close>

section \<open>The cases of the switch\<close>

text \<open>
  \<open>Done r e\<close>: control reaches the end of the switch with \<open>err = e\<close>. \<open>Returned r e\<close>: the case
  returns \<open>e\<close> from \<open>ExecuteInstruction\<close>, so that no gas is charged. \<open>Panicked\<close>: the case panics.
\<close>

datatype op_result = Done Runtime "avm_error option" | Returned Runtime avm_error | Panicked

definition push :: "Runtime \<Rightarrow> int \<Rightarrow> op_result" where
  "push r v = (case stack_Push (Stack r) v of
      Ret st \<Rightarrow> Done (r\<lparr>Stack := st\<rparr>) None
    | Err e \<Rightarrow> Done r (Some e)
    | Panic \<Rightarrow> Panicked)"

definition with_pop :: "Runtime \<Rightarrow> (int \<Rightarrow> Runtime \<Rightarrow> op_result) \<Rightarrow> op_result" where
  "with_pop r k = (case stack_Pop (Stack r) of
      Ret (v, st) \<Rightarrow> k v (r\<lparr>Stack := st\<rparr>)
    | Err e \<Rightarrow> Done r (Some e)
    | Panic \<Rightarrow> Panicked)"

text \<open>\<open>Pop2\<close> hands over the top first; when the second pop fails the first is already gone.\<close>

definition with_pop2 :: "Runtime \<Rightarrow> (int \<Rightarrow> int \<Rightarrow> Runtime \<Rightarrow> op_result) \<Rightarrow> op_result" where
  "with_pop2 r k = with_pop r (\<lambda>v1 r. with_pop r (\<lambda>v2 r. k v1 v2 r))"

definition flag :: "bool \<Rightarrow> int" where
  "flag b = (if b then 1 else 0)"

subsection \<open>Stack and arithmetic\<close>

definition op_PUSH :: "Instruction \<Rightarrow> Runtime \<Rightarrow> op_result" where
  "op_PUSH ins r = (case GetValueAsBigInt ins of
      Inl e \<Rightarrow> Done r (Some (InstrError e))
    | Inr value \<Rightarrow> push r value)"

definition op_POP :: "Runtime \<Rightarrow> op_result" where
  "op_POP r = with_pop r (\<lambda>_ r. Done r None)"

definition op_DUP :: "Runtime \<Rightarrow> op_result" where
  "op_DUP r = (case stack_Top (Stack r) of
      Ret val \<Rightarrow> push r val
    | Err e \<Rightarrow> Done r (Some e)
    | Panic \<Rightarrow> Panicked)"

definition op_SWAP :: "Runtime \<Rightarrow> op_result" where
  "op_SWAP r = with_pop r (\<lambda>swapIndexVal r.
     let swapIndex = sint (big_Uint64 swapIndexVal) in
     if swapIndex \<ge> int (length (stk_s (Stack r))) then Done r (Some ErrInvalidSwapParameter)
     else case stack_Swap (Stack r) swapIndex of
         Ret st \<Rightarrow> Done (r\<lparr>Stack := st\<rparr>) None
       | Err e \<Rightarrow> Done r (Some e)
       | Panic \<Rightarrow> Panicked)"

definition op_ADD :: "Runtime \<Rightarrow> op_result" where
  "op_ADD r = with_pop2 r (\<lambda>v1 v2 r. push r (signedAdd v2 v1))"

definition op_SUB :: "Runtime \<Rightarrow> op_result" where
  "op_SUB r = with_pop2 r (\<lambda>v1 v2 r. push r (signedSub v2 v1))"

definition op_MUL :: "Runtime \<Rightarrow> op_result" where
  "op_MUL r = with_pop2 r (\<lambda>v1 v2 r. push r (signedMul v2 v1))"

definition op_DIV :: "Runtime \<Rightarrow> op_result" where
  "op_DIV r = with_pop2 r (\<lambda>v1 v2 r. push r (signedDiv v2 v1))"

definition op_MOD :: "Runtime \<Rightarrow> op_result" where
  "op_MOD r = with_pop2 r (\<lambda>v1 v2 r. if v1 = 0 then push r 0 else push r (big_Mod v2 v1))"

definition op_AND :: "Runtime \<Rightarrow> op_result" where
  "op_AND r = with_pop2 r (\<lambda>v1 v2 r. push r (big_Mod (and v2 v1) mod256))"

definition op_OR :: "Runtime \<Rightarrow> op_result" where
  "op_OR r = with_pop2 r (\<lambda>v1 v2 r. push r (big_Mod (or v2 v1) mod256))"

text \<open>Small numbers are tried as addresses of strings before they are compared as numbers.\<close>

definition op_EQ :: "Runtime \<Rightarrow> op_result" where
  "op_EQ r = with_pop2 r (\<lambda>v1 v2 r.
     let addr1 = big_Uint64 v1; addr2 = big_Uint64 v2 in
     case (if addr1 < 1000000 then readStringFromMemory r addr1 else Some []) of
       None \<Rightarrow> Panicked
     | Some str1 \<Rightarrow>
         (case (if addr2 < 1000000 then readStringFromMemory r addr2 else Some []) of
            None \<Rightarrow> Panicked
          | Some str2 \<Rightarrow>
              if str1 \<noteq> [] \<and> str2 \<noteq> [] then push r (flag (str1 = str2))
              else push r (flag (v2 = v1))))"

definition op_LT :: "Runtime \<Rightarrow> op_result" where
  "op_LT r = with_pop2 r (\<lambda>v1 v2 r. push r (flag (signedCmp v2 v1 < 0)))"

definition op_GT :: "Runtime \<Rightarrow> op_result" where
  "op_GT r = with_pop2 r (\<lambda>v1 v2 r. push r (flag (signedCmp v2 v1 > 0)))"

definition op_ISZERO :: "Runtime \<Rightarrow> op_result" where
  "op_ISZERO r = with_pop r (\<lambda>val r. push r (flag (val = 0)))"

subsection \<open>Control flow\<close>

definition op_JUMP :: "Runtime \<Rightarrow> op_result" where
  "op_JUMP r = with_pop r (\<lambda>jumpTarget r.
     let target = sint (big_Uint64 jumpTarget) in
     if target < 0 \<or> target \<ge> int (length (Instructions r)) then Done r (Some ErrInvalidJump)
     else Done (r\<lparr>IC := target\<rparr>) None)"

definition op_JUMPC :: "Runtime \<Rightarrow> op_result" where
  "op_JUMPC r = with_pop2 r (\<lambda>jumpTarget condition r.
     let target = sint (big_Uint64 jumpTarget) in
     if target < 0 \<or> target \<ge> int (length (Instructions r)) then Done r (Some ErrInvalidJump)
     else if condition = 1 then Done (r\<lparr>IC := target\<rparr>) None
     else Done (r\<lparr>IC := wrap64 (IC r + 1)\<rparr>) None)"

text \<open>The number of parameters of every function is taken to be 2.\<close>

definition op_CALL :: "Runtime \<Rightarrow> op_result" where
  "op_CALL r = with_pop r (\<lambda>functionAddr r.
     Done (r\<lparr>FrameStack := FrameStack r @ [FramePointer r],
             FramePointer := int (length (stk_s (Stack r))) - 2,
             ReturnStack := ReturnStack r @ [wrap64 (IC r + 1)],
             IC := wrap64 (sint (big_Uint64 functionAddr) - 1)\<rparr>) None)"

definition restore_frame :: "Runtime \<Rightarrow> Runtime" where
  "restore_frame r =
     (if FrameStack r = [] then r
      else r\<lparr>FramePointer := last (FrameStack r), FrameStack := butlast (FrameStack r)\<rparr>)"

definition op_RETURN :: "Runtime \<Rightarrow> op_result" where
  "op_RETURN r =
     (if ReturnStack r = [] then Returned r ErrProgramStopped
      else with_pop r (\<lambda>returnValue r.
        let r = restore_frame r;
            r = r\<lparr>Stack := (Stack r)\<lparr>stk_s := butlast (butlast (stk_s (Stack r)))\<rparr>\<rparr>
        in case push r returnValue of
             Done r None \<Rightarrow>
               Done (r\<lparr>IC := wrap64 (last (ReturnStack r) - 1),
                       ReturnStack := butlast (ReturnStack r)\<rparr>) None
           | res \<Rightarrow> res))"

definition op_STOP :: "Runtime \<Rightarrow> op_result" where
  "op_STOP r = Returned r ErrProgramStopped"

subsection \<open>Memory, storage and locals\<close>

definition op_MSTORE :: "Runtime \<Rightarrow> op_result" where
  "op_MSTORE r = with_pop2 r (\<lambda>address value r.
     case mem_Store (Memory r) (big_Uint64 address) value of
       Ret m \<Rightarrow> Done (r\<lparr>Memory := m\<rparr>) None
     | Err e \<Rightarrow> Done r (Some e)
     | Panic \<Rightarrow> Panicked)"

definition op_MLOAD :: "Runtime \<Rightarrow> op_result" where
  "op_MLOAD r = with_pop r (\<lambda>address r.
     case mem_Load (Memory r) (big_Uint64 address) of
       Ret value \<Rightarrow> push r value
     | Err e \<Rightarrow> Done r (Some e)
     | Panic \<Rightarrow> Panicked)"

text \<open>The string at an address, or the given text where there is none.\<close>

definition text_at :: "Runtime \<Rightarrow> u64 \<Rightarrow> string \<Rightarrow> string option" where
  "text_at r a fallback = (case readStringFromMemory r a of
      None \<Rightarrow> None
    | Some s \<Rightarrow> Some (if s \<noteq> [] then s else fallback))"

definition op_PSTORE :: "Runtime \<Rightarrow> op_result" where
  "op_PSTORE r = with_pop2 r (\<lambda>address value r.
     case text_at r (big_Uint64 address) (big_String (uint (big_Uint64 address))) of
       None \<Rightarrow> Panicked
     | Some key \<Rightarrow>
         (case text_at r (big_Uint64 value) (big_String value) of
            None \<Rightarrow> Panicked
          | Some valueStr \<Rightarrow> Done (r\<lparr>Persistent := go_store key valueStr (Persistent r)\<rparr>) None))"

definition push_string :: "Runtime \<Rightarrow> string \<Rightarrow> op_result" where
  "push_string r s = (case storeStringInMemory r s of (a, r) \<Rightarrow> push r (sint a))"

definition op_PLOAD :: "Runtime \<Rightarrow> op_result" where
  "op_PLOAD r = with_pop r (\<lambda>address r.
     case text_at r (big_Uint64 address) (big_String (uint (big_Uint64 address))) of
       None \<Rightarrow> Panicked
     | Some key \<Rightarrow>
         (case map_of (Persistent r) key of
            None \<Rightarrow> push_string r []
          | Some valueStr \<Rightarrow> push_string r valueStr))"

text \<open>
  The stack is extended with zeros up to the index, whatever its limit. The loop appends one pointer
  at a time, so that it crashes for an index from \<open>maxSlots\<close> on.
\<close>

definition expand :: "int list \<Rightarrow> int \<Rightarrow> int list" where
  "expand s stackIndex = s @ replicate (nat (stackIndex + 1) - length s) 0"

definition op_LOAD_LOCAL :: "Runtime \<Rightarrow> op_result" where
  "op_LOAD_LOCAL r = with_pop r (\<lambda>offsetBig r.
     let stackIndex = wrap64 (FramePointer r + sint (big_Uint64 offsetBig)) in
     if stackIndex < 0 then Done r (Some LoadLocalInvalidOffset)
     else if maxSlots \<le> stackIndex then Panicked
     else let s = expand (stk_s (Stack r)) stackIndex
          in push (r\<lparr>Stack := (Stack r)\<lparr>stk_s := s\<rparr>\<rparr>) (s ! nat stackIndex))"

definition op_STORE_LOCAL :: "Runtime \<Rightarrow> op_result" where
  "op_STORE_LOCAL r = with_pop2 r (\<lambda>offsetBig value r.
     let stackIndex = wrap64 (FramePointer r + sint (big_Uint64 offsetBig)) in
     if stackIndex < 0 then Done r (Some StoreLocalInvalidOffset)
     else if maxSlots \<le> stackIndex then Panicked
     else let s = expand (stk_s (Stack r)) stackIndex
          in Done (r\<lparr>Stack := (Stack r)\<lparr>stk_s := s[nat stackIndex := value]\<rparr>\<rparr>) None)"

definition op_EMIT :: "Runtime \<Rightarrow> op_result" where
  "op_EMIT r = (case stack_Top (Stack r) of
      Ret val \<Rightarrow> (case big_FillBytes val 32 of None \<Rightarrow> Panicked | Some b \<Rightarrow> Done r None)
    | Err e \<Rightarrow> Done r (Some e)
    | Panic \<Rightarrow> Panicked)"

subsection \<open>Strings\<close>

definition read_bytes :: "memory \<Rightarrow> u64 \<Rightarrow> u64 \<Rightarrow> byte list outcome" where
  "read_bytes m addr len =
     (if len > maxAlloc then Panic else read_chunks m addr len (unat (chunk_count len)) 0 [])"

text \<open>The loop that stores the chunks of the result and stops at the first error.\<close>

function put_chunks :: "memory \<Rightarrow> u64 \<Rightarrow> byte list \<Rightarrow> memory \<times> avm_error option" where
  "put_chunks m a bs =
     (if bs = [] then (m, None)
      else case mem_Store m a (big_SetBytes (pad32 (take 32 bs))) of
          Ret m' \<Rightarrow> put_chunks m' (a + 1) (drop 32 bs)
        | Err e \<Rightarrow> (m, Some e)
        | Panic \<Rightarrow> (m, None))"
  by pat_completeness auto
termination
  by (relation "measure (\<lambda>(m, a, bs). length bs)") auto

declare put_chunks.simps [simp del]

text \<open>
  In this case \<open>err\<close> is declared anew by \<open>len1Val, err := ...\<close>, so that from there on no error
  reaches the variable that \<open>ExecuteInstruction\<close> returns.
\<close>

definition concat_store :: "Runtime \<Rightarrow> byte list \<Rightarrow> op_result" where
  "concat_store r resultBytes =
     (let resultLen = of_nat (length resultBytes) :: u64;
          resultAddr = NextMemoryAddr r
      in case mem_Store (Memory r) resultAddr (sint resultLen) of
           Ret m \<Rightarrow>
             (case put_chunks m (resultAddr + 1) resultBytes of
                (m, Some e) \<Rightarrow> Done (r\<lparr>Memory := m\<rparr>) None
              | (m, None) \<Rightarrow>
                  (case push (r\<lparr>Memory := m, NextMemoryAddr := resultAddr + (1 + chunk_count resultLen)\<rparr>)
                          (sint resultAddr) of
                     Done r e \<Rightarrow> Done r None
                   | res \<Rightarrow> res))
         | Err e \<Rightarrow> Done r None
         | Panic \<Rightarrow> Panicked)"

definition op_STRCONCAT :: "Runtime \<Rightarrow> op_result" where
  "op_STRCONCAT r = with_pop2 r (\<lambda>ptr2 ptr1 r.
     let addr1 = big_Uint64 ptr1; addr2 = big_Uint64 ptr2 in
     case (mem_Load (Memory r) addr1, mem_Load (Memory r) addr2) of
       (Ret len1Val, Ret len2Val) \<Rightarrow>
         (case read_bytes (Memory r) addr1 (big_Uint64 len1Val) of
            Panic \<Rightarrow> Panicked
          | str1 \<Rightarrow>
              (case read_bytes (Memory r) addr2 (big_Uint64 len2Val) of
                 Panic \<Rightarrow> Panicked
               | str2 \<Rightarrow>
                   (case (str1, str2) of
                      (Ret str1Bytes, Ret str2Bytes) \<Rightarrow> concat_store r (str1Bytes @ str2Bytes)
                    | _ \<Rightarrow> Done r None)))
     | _ \<Rightarrow> Done r None)"

definition op_STRLEN :: "Runtime \<Rightarrow> op_result" where
  "op_STRLEN r = with_pop r (\<lambda>ptr r.
     case mem_Load (Memory r) (big_Uint64 ptr) of
       Ret lenVal \<Rightarrow> push r lenVal
     | Err e \<Rightarrow> Done r (Some InvalidStringPointer)
     | Panic \<Rightarrow> Panicked)"

definition op_EMITSTR :: "Runtime \<Rightarrow> op_result" where
  "op_EMITSTR r = with_pop r (\<lambda>ptr r.
     case mem_Load (Memory r) (big_Uint64 ptr) of
       Ret lenVal \<Rightarrow>
         (case read_bytes (Memory r) (big_Uint64 ptr) (big_Uint64 lenVal) of
            Ret strBytes \<Rightarrow> Done r None
          | Err e \<Rightarrow> Done r (Some e)
          | Panic \<Rightarrow> Panicked)
     | Err e \<Rightarrow> Done r (Some InvalidStringPointer)
     | Panic \<Rightarrow> Panicked)"

definition op_STRINDEX :: "Runtime \<Rightarrow> op_result" where
  "op_STRINDEX r = with_pop2 r (\<lambda>index stringAddr r.
     case readStringFromMemory r (big_Uint64 stringAddr) of
       None \<Rightarrow> Panicked
     | Some stringContent \<Rightarrow>
         (let indexInt = big_Int64 index in
          if indexInt < 0 \<or> indexInt \<ge> int (length stringContent)
          then Done r (Some StringIndexOutOfRange)
          else push_string r (string_of_rune (stringContent ! nat indexInt))))"

definition op_STRSLICE :: "Runtime \<Rightarrow> op_result" where
  "op_STRSLICE r = with_pop r (\<lambda>endIndex r. with_pop2 r (\<lambda>startIndex stringAddr r.
     case readStringFromMemory r (big_Uint64 stringAddr) of
       None \<Rightarrow> Panicked
     | Some stringContent \<Rightarrow>
         (let startInt = big_Int64 startIndex;
              endInt = big_Int64 endIndex;
              endInt = (if endInt = 999999 then int (length stringContent) else endInt) in
          if startInt < 0 \<or> startInt > int (length stringContent)
          then Done r (Some SliceStartOutOfRange)
          else if endInt < startInt \<or> endInt > int (length stringContent)
          then Done r (Some SliceEndOutOfRange)
          else push_string r (drop (nat startInt) (take (nat endInt) stringContent)))))"

text \<open>The digit loop on \<open>int64\<close>, with wrap-around.\<close>

fun strtoint_loop :: "string \<Rightarrow> int \<Rightarrow> avm_error + int" where
  "strtoint_loop [] result = Inr result"
| "strtoint_loop (c # cs) result =
     (let x = of_char c :: int in
      if x < 48 \<or> x > 57 then Inl (InvalidCharacter c)
      else strtoint_loop cs (wrap64 (wrap64 (result * 10) + (x - 48))))"

definition strtoint :: "string \<Rightarrow> avm_error + int" where
  "strtoint s = (case s of
      [] \<Rightarrow> Inl EmptyStringToInt
    | c # cs \<Rightarrow>
        if c = CHR ''-'' then
          (if cs = [] then Inl DashToInt
           else case strtoint_loop cs 0 of Inl e \<Rightarrow> Inl e | Inr result \<Rightarrow> Inr (wrap64 (- result)))
        else strtoint_loop s 0)"

definition op_STRTOINT :: "Runtime \<Rightarrow> op_result" where
  "op_STRTOINT r = with_pop r (\<lambda>stringAddr r.
     case readStringFromMemory r (big_Uint64 stringAddr) of
       None \<Rightarrow> Panicked
     | Some stringContent \<Rightarrow>
         (case strtoint stringContent of
            Inl e \<Rightarrow> Done r (Some e)
          | Inr result \<Rightarrow> push r result))"

definition op_INTTOSTR :: "Runtime \<Rightarrow> op_result" where
  "op_INTTOSTR r = with_pop r (\<lambda>intValue r. push_string r (big_String (big_Int64 intValue)))"

definition op_BALANCE :: "Runtime \<Rightarrow> op_result" where
  "op_BALANCE r = with_pop r (\<lambda>_ r. push r 0)"

section \<open>One instruction\<close>

primrec exec_op :: "OPCODE \<Rightarrow> Instruction \<Rightarrow> Runtime \<Rightarrow> op_result" where
  "exec_op NOOP ins r = Done r None"
| "exec_op PC ins r = Done r (Some ErrInvalidOpcode)"
| "exec_op PUSH ins r = op_PUSH ins r"
| "exec_op POP ins r = op_POP r"
| "exec_op DUP ins r = op_DUP r"
| "exec_op SWAP ins r = op_SWAP r"
| "exec_op ADD ins r = op_ADD r"
| "exec_op SUB ins r = op_SUB r"
| "exec_op MUL ins r = op_MUL r"
| "exec_op DIV ins r = op_DIV r"
| "exec_op MOD ins r = op_MOD r"
| "exec_op AND ins r = op_AND r"
| "exec_op OR ins r = op_OR r"
| "exec_op EQ ins r = op_EQ r"
| "exec_op LT ins r = op_LT r"
| "exec_op GT ins r = op_GT r"
| "exec_op ISZERO ins r = op_ISZERO r"
| "exec_op JUMP ins r = op_JUMP r"
| "exec_op JUMPC ins r = op_JUMPC r"
| "exec_op MSTORE ins r = op_MSTORE r"
| "exec_op MLOAD ins r = op_MLOAD r"
| "exec_op PSTORE ins r = op_PSTORE r"
| "exec_op PLOAD ins r = op_PLOAD r"
| "exec_op LOAD_LOCAL ins r = op_LOAD_LOCAL r"
| "exec_op STORE_LOCAL ins r = op_STORE_LOCAL r"
| "exec_op CALL ins r = op_CALL r"
| "exec_op RETURN ins r = op_RETURN r"
| "exec_op STOP ins r = op_STOP r"
| "exec_op EMIT ins r = op_EMIT r"
| "exec_op STRCONCAT ins r = op_STRCONCAT r"
| "exec_op STRLEN ins r = op_STRLEN r"
| "exec_op EMITSTR ins r = op_EMITSTR r"
| "exec_op STRINDEX ins r = op_STRINDEX r"
| "exec_op STRSLICE ins r = op_STRSLICE r"
| "exec_op STRTOINT ins r = op_STRTOINT r"
| "exec_op INTTOSTR ins r = op_INTTOSTR r"
| "exec_op CALLER ins r = push r (big_SetBytes (Caller (Context r)))"
| "exec_op ADDRESS ins r = push r (big_SetBytes (ContractAddress (Context r)))"
| "exec_op BALANCE ins r = op_BALANCE r"
| "exec_op ORIGIN ins r = push r (big_SetBytes (Origin (Context r)))"
| "exec_op GASPRICE ins r = push r (sint (ctx_GasPrice (Context r)))"
| "exec_op CALLVALUE ins r = push r (sint (CallValue (Context r)))"
| "exec_op TIMESTAMP ins r = push r (sint (ctx_Timestamp (Context r)))"
| "exec_op DIFFICULTY ins r = push r (sint (Difficulty (Context r)))"
| "exec_op BLOCKHASH ins r = push r (big_SetBytes (BlockHash (Context r)))"
| "exec_op LASTBLOCKHASH ins r = push r (big_SetBytes (LastBlockHash (Context r)))"
| "exec_op COINBASE ins r = push r (big_SetBytes (Coinbase (Context r)))"
| "exec_op HEIGHT ins r = push r (sint (BlockNumber (Context r)))"
| "exec_op GASLIMIT ins r = push r (sint (ctx_GasLimit (Context r)))"
| "exec_op TSXDATA ins r = push_string r (string_of_bytes (TsxData (Context r)))"
| "exec_op (UNKNOWN b) ins r = Done r (Some ErrInvalidOpcode)"

text \<open>The price of an opcode as the \<open>uint64\<close> that is charged.\<close>

definition gas_price :: "OPCODE \<Rightarrow> u64" where
  "gas_price op = ucast (Price op)"

text \<open>\<open>None\<close> is a panic; otherwise the new runtime and the returned error.\<close>

definition finish_op :: "OPCODE \<Rightarrow> op_result \<Rightarrow> (Runtime \<times> avm_error option) option" where
  "finish_op op res = (case res of
      Panicked \<Rightarrow> None
    | Returned r e \<Rightarrow> Some (r, Some e)
    | Done r e \<Rightarrow>
        (let r = r\<lparr>GasUsed := GasUsed r + gas_price op, GasAvailable := GasAvailable r - gas_price op\<rparr>
         in Some (if op \<noteq> JUMP \<and> op \<noteq> JUMPC then r\<lparr>IC := wrap64 (IC r + 1)\<rparr> else r, e)))"

definition ExecuteInstruction :: "Runtime \<Rightarrow> (Runtime \<times> avm_error option) option" where
  "ExecuteInstruction r =
     (if IC r < 0 \<or> IC r \<ge> int (length (Instructions r)) then None
      else let ins = Instructions r ! nat (IC r); oc = Opcode ins in
        case ValidateInstruction ins of
          Some e \<Rightarrow> Some (r, Some (InstrError e))
        | None \<Rightarrow>
            if GasAvailable r < gas_price oc then Some (r, Some ErrOutOfGas)
            else finish_op oc (exec_op oc ins r))"

end
