(* ===== verification/AVM_Execution.thy ===== *)
theory AVM_Execution
  imports AVM_Runtime
begin

text \<open>
  What the cases of the interpreter keep, proved once in the locale \<open>runtime_invariant\<close> for any
  predicate on runtimes that the primitive updates keep; the loop of \<open>StartExecution\<close>, whose
  termination rests on the gas that every instruction consumes; and the accounting of gas.
\<close>

section \<open>Invariants of the cases\<close>

definition op_all :: "(Runtime \<Rightarrow> bool) \<Rightarrow> op_result \<Rightarrow> bool" where
  "op_all P res = (case res of Done r e \<Rightarrow> P r | Returned r e \<Rightarrow> P r | Panicked \<Rightarrow> True)"

lemma op_all_simps [simp]:
  "op_all P (Done r e) = P r" "op_all P (Returned r x) = P r" "op_all P Panicked"
  by (simp_all add: op_all_def)

named_theorems op_defs \<open>the cases of the switch\<close>

lemmas op_case_defs [op_defs] =
  op_POP_def op_ADD_def op_SUB_def op_MUL_def op_DIV_def op_MOD_def op_AND_def op_OR_def
  op_LT_def op_GT_def op_ISZERO_def op_BALANCE_def op_STOP_def

text \<open>
  \<open>I\<close> is the invariant, \<open>V\<close> what it promises of every value on the stack and in memory, and \<open>ok\<close>
  the opcodes for which it is kept. The laws say that the primitive updates of the runtime keep
  \<open>I\<close>, and that the values the opcodes in \<open>ok\<close> compute satisfy \<open>V\<close>.
\<close>

locale runtime_invariant =
  fixes I :: "Runtime \<Rightarrow> bool" and V :: "int \<Rightarrow> bool" and ok :: "OPCODE \<Rightarrow> bool"
  assumes stack_value: "I r \<Longrightarrow> v \<in> set (stk_s (Stack r)) \<Longrightarrow> V v"
    and stack_shrink:
      "I r \<Longrightarrow> length s \<le> length (stk_s (Stack r)) \<Longrightarrow> set s \<subseteq> set (stk_s (Stack r)) \<Longrightarrow>
       I (r\<lparr>Stack := (Stack r)\<lparr>stk_s := s\<rparr>\<rparr>)"
    and stack_push: "I r \<Longrightarrow> V v \<Longrightarrow> stack_Push (Stack r) v = Ret st \<Longrightarrow> I (r\<lparr>Stack := st\<rparr>)"
    and stack_expand:
      "I r \<Longrightarrow> ok LOAD_LOCAL \<or> ok STORE_LOCAL \<Longrightarrow> V v \<Longrightarrow>
       set s \<subseteq> insert v (insert 0 (set (stk_s (Stack r)))) \<Longrightarrow> I (r\<lparr>Stack := (Stack r)\<lparr>stk_s := s\<rparr>\<rparr>)"
    and load_value: "I r \<Longrightarrow> mem_Load (Memory r) adr = Ret v \<Longrightarrow> V v"
    and mem_store: "I r \<Longrightarrow> V v \<Longrightarrow> mem_Store (Memory r) adr v = Ret m \<Longrightarrow> I (r\<lparr>Memory := m\<rparr>)"
    and next_addr: "I r \<Longrightarrow> I (r\<lparr>NextMemoryAddr := adr\<rparr>)"
    and control: "I r \<Longrightarrow> ok JUMP \<or> ok JUMPC \<or> ok CALL \<or> ok RETURN \<Longrightarrow>
       I (r\<lparr>IC := ic, FramePointer := fp, FrameStack := fs, ReturnStack := rs\<rparr>)"
    and persistent: "I r \<Longrightarrow> I (r\<lparr>Persistent := p\<rparr>)"
    and context_value: "I r \<Longrightarrow> field \<in> {Caller, ContractAddress, Origin, BlockHash, LastBlockHash, Coinbase} \<Longrightarrow>
       V (big_SetBytes (field (Context r)))"
    and small: "\<bar>v\<bar> < 2 ^ 256 \<Longrightarrow> V v"
    and add: "V a \<Longrightarrow> V b \<Longrightarrow> V (signedAdd a b)"
    and sub: "V a \<Longrightarrow> V b \<Longrightarrow> V (signedSub a b)"
    and mul: "ok MUL \<Longrightarrow> V a \<Longrightarrow> V b \<Longrightarrow> V (signedMul a b)"
    and div: "V a \<Longrightarrow> V b \<Longrightarrow> V (signedDiv a b)"
    and mod: "V a \<Longrightarrow> V b \<Longrightarrow> b \<noteq> 0 \<Longrightarrow> V (big_Mod a b)"
begin

lemma push_keeps: "I r \<Longrightarrow> V v \<Longrightarrow> op_all I (push r v)"
  by (auto simp: push_def split: outcome.split intro: stack_push)

lemma with_pop_keeps:
  assumes "I r" and "\<And>v r. I r \<Longrightarrow> V v \<Longrightarrow> op_all I (k v r)"
  shows "op_all I (with_pop r k)"
proof (cases "stk_s (Stack r) = []")
  case True
  with assms show ?thesis by (simp add: with_pop_def stack_Pop_def)
next
  case False
  then have "I (r\<lparr>Stack := (Stack r)\<lparr>stk_s := butlast (stk_s (Stack r))\<rparr>\<rparr>)"
    by (intro stack_shrink[OF \<open>I r\<close>]) (auto dest: in_set_butlastD)
  moreover have "V (last (stk_s (Stack r)))"
    using stack_value[OF \<open>I r\<close>] False by simp
  ultimately show ?thesis
    using False assms(2) by (simp add: with_pop_def stack_Pop_def)
qed

lemma with_pop2_keeps:
  "I r \<Longrightarrow> (\<And>v1 v2 r. I r \<Longrightarrow> V v1 \<Longrightarrow> V v2 \<Longrightarrow> op_all I (k v1 v2 r)) \<Longrightarrow> op_all I (with_pop2 r k)"
  unfolding with_pop2_def by (intro with_pop_keeps)

lemma V_flag: "V (flag b)"
  by (rule small) (simp add: flag_def)

lemma V_sint: "V (sint (w :: u64))"
proof (rule small)
  have "- (2 ^ 63) \<le> sint w" "sint w < 2 ^ 63"
    using sint_ge[of w] sint_lt[of w] by simp_all
  then show "\<bar>sint w\<bar> < 2 ^ 256" by simp
qed

lemma V_bytes: "length bs \<le> 32 \<Longrightarrow> V (big_SetBytes bs)"
proof (rule small)
  assume "length bs \<le> 32"
  then have "(256 :: int) ^ length bs \<le> 256 ^ 32" by (intro power_increasing) auto
  with big_SetBytes_range[of bs] show "\<bar>big_SetBytes bs\<bar> < 2 ^ 256" by simp
qed

lemma V_big_Mod_256: "V (big_Mod x mod256)"
  by (rule small) (use big_Div_Mod[of mod256 x] in \<open>simp add: mod256_eq\<close>)

lemma store_ignore_keeps: "I r \<Longrightarrow> V v \<Longrightarrow> I (r\<lparr>Memory := store_ignore (Memory r) a v\<rparr>)"
  by (cases "mem_Store (Memory r) a v") (auto simp: store_ignore_def intro: mem_store)

lemma V_chunk: "V (big_SetBytes (pad32 (take 32 bs)))"
  by (rule V_bytes) (simp add: pad32_def)

lemma write_chunks_keeps: "I (r\<lparr>Memory := m\<rparr>) \<Longrightarrow> I (r\<lparr>Memory := write_chunks m a bs\<rparr>)"
proof (induction m a bs rule: write_chunks.induct)
  case (1 m a bs)
  have "I (r\<lparr>Memory := store_ignore m a (big_SetBytes (pad32 (take 32 bs)))\<rparr>)"
    using store_ignore_keeps[OF 1(2) V_chunk] by simp
  with 1 show ?case by (subst write_chunks.simps) simp
qed

lemma storeString_keeps: "I r \<Longrightarrow> storeStringInMemory r s = (a, r') \<Longrightarrow> I r'"
proof -
  assume r: "I r" and st: "storeStringInMemory r s = (a, r')"
  have "I (r\<lparr>Memory := store_ignore (Memory r) (NextMemoryAddr r) (sint (of_nat (length s) :: u64))\<rparr>)"
    by (rule store_ignore_keeps[OF r V_sint])
  from next_addr[OF write_chunks_keeps[OF this]] st show "I r'"
    by (auto simp: storeStringInMemory_def Let_def)
qed

lemma push_string_keeps: "I r \<Longrightarrow> op_all I (push_string r s)"
  by (cases "storeStringInMemory r s") (simp add: push_string_def push_keeps[OF storeString_keeps V_sint])

lemma put_chunks_keeps:
  "I (r\<lparr>Memory := m\<rparr>) \<Longrightarrow> put_chunks m a bs = (m', e) \<Longrightarrow> I (r\<lparr>Memory := m'\<rparr>)"
proof (induction m a bs rule: put_chunks.induct)
  case (1 m a bs)
  have st: "I (r\<lparr>Memory := m1\<rparr>)" if "mem_Store m a (big_SetBytes (pad32 (take 32 bs))) = Ret m1" for m1
    using mem_store[OF 1(2) V_chunk] that by simp
  show ?case
    using 1 st by (subst (asm) put_chunks.simps) (auto split: if_splits outcome.splits)
qed

lemma op_all_swallow:
  "op_all I res \<Longrightarrow> op_all I (case res of Done r e \<Rightarrow> Done r None | Returned r x \<Rightarrow> Returned r x | Panicked \<Rightarrow> Panicked)"
  by (cases res) auto

lemma concat_store_keeps: "I r \<Longrightarrow> op_all I (concat_store r bs)"
proof -
  assume r: "I r"
  let ?n = "of_nat (length bs) :: u64" and ?a = "NextMemoryAddr r"
  show ?thesis
  proof (cases "mem_Store (Memory r) ?a (sint ?n)")
    case (Ret m)
    obtain m' e where put: "put_chunks m (?a + 1) bs = (m', e)" by fastforce
    from mem_store[OF r V_sint Ret] have m': "I (r\<lparr>Memory := m'\<rparr>)"
      by (rule put_chunks_keeps[OF _ put])
    then have "op_all I (push (r\<lparr>Memory := m', NextMemoryAddr := ?a + (1 + chunk_count ?n)\<rparr>) (sint ?a))"
      by (intro push_keeps V_sint) (drule next_addr, simp)
    with m' Ret put show ?thesis
      by (cases e) (simp_all add: concat_store_def Let_def op_all_swallow)
  qed (simp_all add: concat_store_def Let_def r)
qed

lemma swap_keeps: "I r \<Longrightarrow> stack_Swap (Stack r) d = Ret st \<Longrightarrow> I (r\<lparr>Stack := st\<rparr>)"
proof -
  assume r: "I r" and sw: "stack_Swap (Stack r) d = Ret st"
  let ?s = "stk_s (Stack r)" and ?l = "int (length (stk_s (Stack r)))"
  from sw have nz: "?s \<noteq> []"
    by (auto simp: stack_Swap_def stack_Top_def Let_def split: if_splits)
  with sw have st: "st = (Stack r)\<lparr>stk_s := (?s[nat (?l - 1) := ?s ! nat (?l - 1 - d)])[nat (?l - 1 - d) := last ?s]\<rparr>"
      and i: "0 \<le> ?l - 1 - d" "?l - 1 - d < ?l"
    by (auto simp: stack_Swap_def stack_Top_def Let_def split: if_splits)
  have mem: "?s ! nat (?l - 1 - d) \<in> set ?s" "last ?s \<in> set ?s"
    using i nz by (auto intro!: nth_mem)
  have "set ((?s[nat (?l - 1) := ?s ! nat (?l - 1 - d)])[nat (?l - 1 - d) := last ?s]) \<subseteq> set ?s"
    by (meson mem set_update_subsetI subset_refl)
  then show ?thesis unfolding st by (intro stack_shrink[OF r]) auto
qed

lemma set_IC: "I r \<Longrightarrow> ok JUMP \<or> ok JUMPC \<or> ok CALL \<or> ok RETURN \<Longrightarrow> I (r\<lparr>IC := ic\<rparr>)"
  using control[where r = r and ic = ic and fp = "FramePointer r" and fs = "FrameStack r" and rs = "ReturnStack r"] by simp

lemma frame_keeps: "I r \<Longrightarrow> ok RETURN \<Longrightarrow> I (restore_frame r)"
  using control[where r = r and ic = "IC r" and rs = "ReturnStack r"] by (auto simp: restore_frame_def)

lemma return_keeps: "I r \<Longrightarrow> ok RETURN \<Longrightarrow> op_all I (op_RETURN r)"
proof -
  assume r: "I r" and ok: "ok RETURN"
  have leave: "I (q\<lparr>IC := ic, ReturnStack := rs\<rparr>)" if "I q" for q ic rs
    using control[OF that, where ic = ic and fp = "FramePointer q" and fs = "FrameStack q" and rs = rs] ok by simp
  have "op_all I (case push (r'\<lparr>Stack := (Stack r')\<lparr>stk_s := butlast (butlast (stk_s (Stack r')))\<rparr>\<rparr>) v of
           Done r None \<Rightarrow>
             Done (r\<lparr>IC := wrap64 (last (ReturnStack r) - 1), ReturnStack := butlast (ReturnStack r)\<rparr>) None
         | res \<Rightarrow> res)" (is "op_all I (case ?p of Done r None \<Rightarrow> _ | res \<Rightarrow> res)")
    if "I r'" "V v" for r' v
  proof -
    have "op_all I ?p"
      by (intro push_keeps stack_shrink that) (auto dest!: in_set_butlastD)
    then show ?thesis
      using leave by (auto split: op_result.split option.split)
  qed
  with r ok show ?thesis
    unfolding op_RETURN_def Let_def by (auto intro!: with_pop_keeps frame_keeps)
qed

lemma locals_keep:
  assumes r: "I r" and V: "V v" and ok: "ok LOAD_LOCAL \<or> ok STORE_LOCAL"
  shows "I (r\<lparr>Stack := (Stack r)\<lparr>stk_s := (expand (stk_s (Stack r)) i)[j := v]\<rparr>\<rparr>)"
    and "I (r\<lparr>Stack := (Stack r)\<lparr>stk_s := expand (stk_s (Stack r)) i\<rparr>\<rparr>)"
proof -
  have e: "set (expand (stk_s (Stack r)) i) \<subseteq> insert v (insert 0 (set (stk_s (Stack r))))"
    by (auto simp: expand_def)
  then have "set ((expand (stk_s (Stack r)) i)[j := v]) \<subseteq> insert v (insert 0 (set (stk_s (Stack r))))"
    using set_update_subset_insert by fastforce
  then show "I (r\<lparr>Stack := (Stack r)\<lparr>stk_s := (expand (stk_s (Stack r)) i)[j := v]\<rparr>\<rparr>)"
    by (rule stack_expand[OF r ok V])
  from e show "I (r\<lparr>Stack := (Stack r)\<lparr>stk_s := expand (stk_s (Stack r)) i\<rparr>\<rparr>)"
    by (rule stack_expand[OF r ok V])
qed

lemma V_expand:
  assumes r: "I r" and i: "0 \<le> i"
  shows "V (expand (stk_s (Stack r)) i ! nat i)"
proof -
  have "nat i < length (expand (stk_s (Stack r)) i)" using i by (simp add: expand_def)
  then have "expand (stk_s (Stack r)) i ! nat i \<in> set (expand (stk_s (Stack r)) i)" by (rule nth_mem)
  then have "expand (stk_s (Stack r)) i ! nat i \<in> insert 0 (set (stk_s (Stack r)))"
    by (auto simp: expand_def)
  then show ?thesis using stack_value[OF r] small[of 0] by auto
qed

lemma load_local_keeps: "I r \<Longrightarrow> ok LOAD_LOCAL \<Longrightarrow> op_all I (op_LOAD_LOCAL r)"
  unfolding op_LOAD_LOCAL_def Let_def
  by (intro with_pop_keeps) (auto intro!: push_keeps V_expand locals_keep(2)[where v = 0] small[of 0])

lemma store_local_keeps: "I r \<Longrightarrow> ok STORE_LOCAL \<Longrightarrow> op_all I (op_STORE_LOCAL r)"
  unfolding op_STORE_LOCAL_def Let_def
  by (intro with_pop2_keeps) (auto intro!: locals_keep(1))

lemma arith_keep:
  assumes "I r"
  shows "op_all I (op_ADD r)" "op_all I (op_SUB r)" "ok MUL \<Longrightarrow> op_all I (op_MUL r)" "op_all I (op_DIV r)"
    "op_all I (op_MOD r)" "op_all I (op_AND r)" "op_all I (op_OR r)" "op_all I (op_LT r)" "op_all I (op_GT r)"
    "op_all I (op_ISZERO r)" "op_all I (op_POP r)" "op_all I (op_BALANCE r)" "op_all I (op_STOP r)"
  unfolding op_case_defs
  by (auto intro!: with_pop_keeps with_pop2_keeps push_keeps assms add sub mul div mod V_big_Mod_256 V_flag small[of 0])

lemma stack_keep:
  assumes "I r"
  shows "op_all I (op_DUP r)" "op_all I (op_SWAP r)" "op_all I (op_EQ r)" "op_all I (op_EMIT r)"
proof -
  show "op_all I (op_DUP r)"
    using assms by (auto simp: op_DUP_def stack_Top_def intro!: push_keeps stack_value[of r])
  show "op_all I (op_SWAP r)"
    unfolding op_SWAP_def Let_def
    by (rule with_pop_keeps[OF assms]) (auto split: outcome.split intro: swap_keeps)
  show "op_all I (op_EQ r)"
    unfolding op_EQ_def Let_def
    by (rule with_pop2_keeps[OF assms]) (auto split: option.split intro!: push_keeps V_flag)
  show "op_all I (op_EMIT r)"
    using assms by (simp add: op_EMIT_def split: outcome.split option.split)
qed

lemma jump_keep:
  assumes "I r"
  shows "ok JUMP \<Longrightarrow> op_all I (op_JUMP r)" "ok JUMPC \<Longrightarrow> op_all I (op_JUMPC r)" "ok CALL \<Longrightarrow> op_all I (op_CALL r)"
proof -
  show "op_all I (op_JUMP r)" if "ok JUMP"
    unfolding op_JUMP_def Let_def by (rule with_pop_keeps[OF assms]) (simp add: set_IC that)
  show "op_all I (op_JUMPC r)" if "ok JUMPC"
    unfolding op_JUMPC_def Let_def by (rule with_pop2_keeps[OF assms]) (simp add: set_IC that)
  show "op_all I (op_CALL r)" if ok: "ok CALL"
  proof -
    have "I (q\<lparr>FrameStack := fs, FramePointer := fp, ReturnStack := rs, IC := ic\<rparr>)" if "I q" for q fs fp rs ic
      using control[OF that, where ic = ic and fp = fp and fs = fs and rs = rs] ok by (cases q) simp
    then show ?thesis
      unfolding op_CALL_def by (intro with_pop_keeps[OF assms]) simp
  qed
qed

lemma memory_keep:
  assumes "I r"
  shows "op_all I (op_MSTORE r)" "op_all I (op_MLOAD r)" "op_all I (op_PSTORE r)" "op_all I (op_PLOAD r)"
proof -
  show "op_all I (op_MSTORE r)"
    unfolding op_MSTORE_def by (rule with_pop2_keeps[OF assms]) (auto split: outcome.split intro: mem_store)
  show "op_all I (op_MLOAD r)"
    unfolding op_MLOAD_def
    by (rule with_pop_keeps[OF assms]) (auto split: outcome.split intro: push_keeps load_value)
  show "op_all I (op_PSTORE r)"
    unfolding op_PSTORE_def
    by (rule with_pop2_keeps[OF assms]) (auto split: option.split intro: persistent)
  show "op_all I (op_PLOAD r)"
    unfolding op_PLOAD_def
    by (rule with_pop_keeps[OF assms]) (auto split: option.split intro: push_string_keeps)
qed

lemma strings_keep:
  assumes "I r"
  shows "op_all I (op_STRCONCAT r)" "op_all I (op_STRLEN r)" "op_all I (op_EMITSTR r)" "op_all I (op_STRINDEX r)"
    "op_all I (op_STRSLICE r)" "op_all I (op_INTTOSTR r)"
proof -
  show "op_all I (op_STRCONCAT r)"
    unfolding op_STRCONCAT_def Let_def
    by (rule with_pop2_keeps[OF assms]) (simp add: concat_store_keeps split: outcome.split)
  show "op_all I (op_STRLEN r)"
    unfolding op_STRLEN_def
    by (rule with_pop_keeps[OF assms]) (auto split: outcome.split intro: push_keeps load_value)
  show "op_all I (op_EMITSTR r)"
    unfolding op_EMITSTR_def by (rule with_pop_keeps[OF assms]) (simp split: outcome.split)
  show "op_all I (op_STRINDEX r)"
    unfolding op_STRINDEX_def Let_def
    by (rule with_pop2_keeps[OF assms]) (simp add: push_string_keeps split: option.split)
  show "op_all I (op_STRSLICE r)"
    unfolding op_STRSLICE_def Let_def
    by (rule with_pop_keeps[OF assms], rule with_pop2_keeps) (simp_all add: push_string_keeps split: option.split)
  show "op_all I (op_INTTOSTR r)"
    unfolding op_INTTOSTR_def by (rule with_pop_keeps[OF assms]) (rule push_string_keeps)
qed

lemma V_wrap64: "V (wrap64 x)"
proof (rule small)
  have "\<bar>wrap64 x\<bar> \<le> 2 ^ 63" using wrap64_bounds[of x] by (auto simp: abs_le_iff)
  then show "\<bar>wrap64 x\<bar> < 2 ^ 256" by simp
qed

lemma V_strtoint_loop: "strtoint_loop cs x = Inr y \<Longrightarrow> V x \<Longrightarrow> V y"
  by (induction cs x rule: strtoint_loop.induct) (auto simp: Let_def V_wrap64 split: if_splits)

lemma V_strtoint: "strtoint s = Inr y \<Longrightarrow> V y"
  using V_strtoint_loop[OF _ small[of 0]]
  by (auto simp: strtoint_def V_wrap64 simp del: strtoint_loop.simps split: list.splits if_splits sum.splits)

lemma strtoint_keeps: "I r \<Longrightarrow> op_all I (op_STRTOINT r)"
  unfolding op_STRTOINT_def
  by (rule with_pop_keeps) (auto split: option.split sum.split intro!: push_keeps dest: V_strtoint)

lemma push_op_keeps:
  "I r \<Longrightarrow> (\<And>v. GetValueAsBigInt ins = Inr v \<Longrightarrow> V v) \<Longrightarrow> op_all I (op_PUSH ins r)"
  by (auto simp: op_PUSH_def split: sum.split intro: push_keeps)

theorem exec_op_keeps:
  assumes "I r" "ok op" and "\<And>v. op = PUSH \<Longrightarrow> GetValueAsBigInt ins = Inr v \<Longrightarrow> V v"
  shows "op_all I (exec_op op ins r)"
  using assms context_value[OF \<open>I r\<close>] push_keeps[OF \<open>I r\<close>]
  by (cases op)
    (simp_all add: arith_keep stack_keep jump_keep memory_keep strings_keep strtoint_keeps return_keeps
      load_local_keeps store_local_keeps push_op_keeps push_string_keeps V_sint)

end

section \<open>What no case touches\<close>

text \<open>The gas counters, the program, the context and the two limits.\<close>

definition env :: "Runtime \<Rightarrow> _" where
  "env r = (GasAvailable r, GasUsed r, Instructions r, Context r, StartIC r,
            stk_maxSize (Stack r), mem_maxSize (Memory r))"

interpretation env: runtime_invariant "\<lambda>r. env r = e" "\<lambda>v. True" "\<lambda>op. True"
  by unfold_locales (auto simp: env_def stack_Push_def mem_Store_def split: if_splits)

lemma exec_op_env: "op_all (\<lambda>r'. env r' = env r) (exec_op op ins r)"
  by (rule env.exec_op_keeps) simp_all

text \<open>Only \<open>STOP\<close> and \<open>PC\<close> are free, and neither completes.\<close>

lemma gas_price_le: "unat (gas_price op) \<le> 65535"
  by (cases op) (simp_all add: gas_price_def)

lemma exec_op_priced: "exec_op op ins r = Done r' None \<Longrightarrow> 0 < gas_price op"
  by (cases op) (simp_all add: gas_price_def op_STOP_def)

lemma ExecuteInstruction_cases:
  assumes "ExecuteInstruction r = Some (r', e)"
  obtains (rejected) ie where "r' = r" "e = Some (InstrError ie)"
  | (out_of_gas) "r' = r" "e = Some ErrOutOfGas"
  | (returned) "env r' = env r" "e \<noteq> None"
  | (charged) op where "op = Opcode (Instructions r ! nat (IC r))" "gas_price op \<le> GasAvailable r"
      "e = None \<Longrightarrow> 0 < gas_price op"
      "env r' = (case env r of (a, u, rest) \<Rightarrow> (a - gas_price op, u + gas_price op, rest))"
proof -
  let ?ins = "Instructions r ! nat (IC r)"
  let ?op = "Opcode ?ins"
  have env: "op_all (\<lambda>r'. env r' = env r) (exec_op ?op ?ins r)" by (rule exec_op_env)
  consider ie where "r' = r" "e = Some (InstrError ie)" | "r' = r" "e = Some ErrOutOfGas"
    | "gas_price ?op \<le> GasAvailable r" "finish_op ?op (exec_op ?op ?ins r) = Some (r', e)"
    using assms by (auto simp: ExecuteInstruction_def Let_def not_less split: if_splits option.splits)
  then show thesis
  proof cases
    case 3
    show thesis
    proof (cases "exec_op ?op ?ins r")
      case (Done r1 e1)
      with 3 env exec_op_priced[of ?op ?ins r r1] show thesis
        by (intro charged[of ?op]) (auto simp: finish_op_def Let_def env_def split: if_splits)
    next
      case (Returned r1 x)
      with 3 env show thesis by (intro returned) (auto simp: finish_op_def)
    qed (use 3 in \<open>simp add: finish_op_def\<close>)
  qed (fact rejected out_of_gas)+
qed

section \<open>The loop\<close>

lemma ExecuteInstruction_gas_less:
  "ExecuteInstruction r = Some (r', None) \<Longrightarrow> unat (GasAvailable r') < unat (GasAvailable r)"
  by (erule ExecuteInstruction_cases)
     (auto simp: env_def unat_sub word_le_nat_alt word_less_nat_alt)

function run :: "Runtime \<Rightarrow> (Runtime \<times> avm_error option) option" where
  "run r =
     (if IC r < int (length (Instructions r)) then
        (case ExecuteInstruction r of
           None \<Rightarrow> None
         | Some (r', Some e) \<Rightarrow> Some (r', Some e)
         | Some (r', None) \<Rightarrow> run r')
      else Some (r, None))"
  by pat_completeness auto
termination
  by (relation "measure (\<lambda>r. unat (GasAvailable r))") (auto intro: ExecuteInstruction_gas_less)

declare run.simps [simp del]

text \<open>\<open>None\<close> is a panic; otherwise the final runtime, the gas used and the returned error.\<close>

definition StartExecution :: "Runtime \<Rightarrow> (Runtime \<times> u64 \<times> avm_error option) option" where
  "StartExecution r =
     (if IC r \<noteq> StartIC r then Some (r, 0, Some RuntimeNotClean)
      else if stk_s (Stack r) \<noteq> [] then Some (r, 0, Some RuntimeNotClean)
      else case run r of
          None \<Rightarrow> None
        | Some (r', e) \<Rightarrow> Some (r', GasUsed r', e))"

section \<open>Sequences of instructions\<close>

text \<open>One instruction that completes.\<close>

inductive avm_step :: "Runtime \<Rightarrow> Runtime \<Rightarrow> bool" where
  instruction: "IC r < int (length (Instructions r)) \<Longrightarrow> ExecuteInstruction r = Some (r', None) \<Longrightarrow> avm_step r r'"

inductive_cases avm_stepE: "avm_step r r'"

text \<open>
  A machine whose every step consumes gas: the number of its steps is bounded by the gas it
  starts with, and what a step keeps is kept by every run.
\<close>

locale gas_machine =
  fixes step :: "'s \<Rightarrow> 's \<Rightarrow> bool" and gas :: "'s \<Rightarrow> nat" and total :: "'s \<Rightarrow> 't"
  assumes consumes: "step s s' \<Longrightarrow> gas s' < gas s"
    and conserves: "step s s' \<Longrightarrow> total s' = total s"
begin

lemma steps_gas: "(step ^^ n) s s' \<Longrightarrow> n + gas s' \<le> gas s"
proof (induction n arbitrary: s')
  case (Suc n)
  then obtain t where "(step ^^ n) s t" "step t s'" by auto
  with Suc.IH[of t] consumes[of t s'] show ?case by simp
qed simp

lemma steps_bounded: "(step ^^ n) s s' \<Longrightarrow> n \<le> gas s"
  using steps_gas by fastforce

lemma steps_total: "(step ^^ n) s s' \<Longrightarrow> total s' = total s"
  by (induction n arbitrary: s') (auto dest: conserves)

lemma no_infinite_run: "\<not> (\<forall>i. step (f i) (f (Suc i)))"
proof
  assume run: "\<forall>i. step (f i) (f (Suc i))"
  have "(step ^^ n) (f 0) (f n)" for n
    using run by (induction n) (auto intro: relcomppI)
  from steps_bounded[OF this[of "Suc (gas (f 0))"]] show False by simp
qed

end

lemma ExecuteInstruction_conserves:
  assumes "ExecuteInstruction r = Some (r', e)"
  shows "GasUsed r' + GasAvailable r' = GasUsed r + GasAvailable r" and "GasAvailable r' \<le> GasAvailable r"
  using assms by (auto elim!: ExecuteInstruction_cases simp: env_def word_sub_le)

interpretation avm: gas_machine avm_step "\<lambda>r. unat (GasAvailable r)" "\<lambda>r. GasUsed r + GasAvailable r"
  by unfold_locales (auto elim!: avm_stepE dest: ExecuteInstruction_gas_less ExecuteInstruction_conserves(1))

text \<open>How a run ends, in the state \<open>r1\<close> that its completed instructions reach.\<close>

definition run_end :: "Runtime \<Rightarrow> (Runtime \<times> avm_error option) option" where
  "run_end r1 = (if IC r1 < int (length (Instructions r1)) then ExecuteInstruction r1 else Some (r1, None))"

lemma run_steps: "\<exists>n r1. (avm_step ^^ n) r r1 \<and> run r = run_end r1 \<and> \<not> (\<exists>r2. avm_step r1 r2)"
proof (induction r rule: run.induct)
  case (1 r)
  show ?case
  proof (cases "\<exists>r'. avm_step r r'")
    case True
    then obtain r' where s: "avm_step r r'" ..
    then have "run r = run r'" by (subst run.simps) (auto elim!: avm_stepE)
    moreover obtain n r1 where "(avm_step ^^ n) r' r1" "run r' = run_end r1" "\<not> (\<exists>r2. avm_step r1 r2)"
      using 1[of "(r', None)" r' None] s by (auto elim!: avm_stepE)
    ultimately show ?thesis
      using relpowp_Suc_I2[where P = avm_step, OF s] by metis
  next
    case False
    then have "run r = run_end r"
      by (subst run.simps) (auto simp: run_end_def avm_step.simps split: option.split)
    with False show ?thesis by (metis relpowp_0_I)
  qed
qed

lemma run_gas:
  assumes "run r = Some (r', e)"
  shows "GasUsed r' + GasAvailable r' = GasUsed r + GasAvailable r" and "GasAvailable r' \<le> GasAvailable r"
proof -
  obtain n r1 where s: "(avm_step ^^ n) r r1" and "run_end r1 = Some (r', e)"
    using run_steps[of r] assms by auto
  then have "GasUsed r' + GasAvailable r' = GasUsed r1 + GasAvailable r1" "GasAvailable r' \<le> GasAvailable r1"
    using ExecuteInstruction_conserves by (auto simp: run_end_def split: if_splits)
  moreover have "GasAvailable r1 \<le> GasAvailable r"
    using avm.steps_gas[OF s] by (simp add: word_le_nat_alt)
  ultimately show "GasUsed r' + GasAvailable r' = GasUsed r + GasAvailable r" "GasAvailable r' \<le> GasAvailable r"
    using avm.steps_total[OF s] by auto
qed

section \<open>Invariants of whole runs\<close>

text \<open>
  An invariant of the cases that the accounting keeps too, and that only holds of programs
  whose opcodes and pushed literals are admitted, holds in every state a run reaches.
\<close>

locale program_invariant = runtime_invariant +
  assumes gas_keeps: "I r \<Longrightarrow> I (r\<lparr>GasUsed := u, GasAvailable := g\<rparr>)"
    and next_keeps: "I r \<Longrightarrow> I (r\<lparr>IC := i\<rparr>)"
    and admitted: "I r \<Longrightarrow> ins \<in> set (Instructions r) \<Longrightarrow>
       ok (Opcode ins) \<and> (\<forall>v. Opcode ins = PUSH \<longrightarrow> GetValueAsBigInt ins = Inr v \<longrightarrow> V v)"
begin

lemma finish_op_keeps: "op_all I res \<Longrightarrow> finish_op op res = Some (r', e) \<Longrightarrow> I r'"
  using gas_keeps next_keeps by (cases res) (auto simp: finish_op_def Let_def split: if_splits)

lemma instruction_keeps: "I r \<Longrightarrow> ExecuteInstruction r = Some (r', e) \<Longrightarrow> I r'"
proof -
  assume r: "I r" and ex: "ExecuteInstruction r = Some (r', e)"
  let ?ins = "Instructions r ! nat (IC r)"
  from ex have "nat (IC r) < length (Instructions r)"
    by (auto simp: ExecuteInstruction_def split: if_splits)
  then have "?ins \<in> set (Instructions r)" by (rule nth_mem)
  with admitted[OF r] have "op_all I (exec_op (Opcode ?ins) ?ins r)"
    by (intro exec_op_keeps[OF r]) auto
  with ex r show "I r'"
    by (auto simp: ExecuteInstruction_def Let_def split: if_splits option.splits intro: finish_op_keeps)
qed

lemma steps_keep: "(avm_step ^^ n) r r' \<Longrightarrow> I r \<Longrightarrow> I r'"
  by (induction n arbitrary: r') (auto elim!: avm_stepE intro: instruction_keeps)

lemma run_keeps: "run r = Some (r', e) \<Longrightarrow> I r \<Longrightarrow> I r'"
proof -
  assume run: "run r = Some (r', e)" and r: "I r"
  obtain n r1 where s: "(avm_step ^^ n) r r1" and e: "run_end r1 = Some (r', e)"
    using run_steps[of r] run by auto
  from steps_keep[OF s r] e instruction_keeps[of r1 r' e] show "I r'"
    by (auto simp: run_end_def split: if_splits)
qed

end

end
