(* ===== verification/AVM_Safety.thy ===== *)
theory AVM_Safety
  imports AVM_Execution
begin

text \<open>
  Invariants of every state that a run of the virtual machine reaches, as interpretations of the
  locale \<open>program_invariant\<close>: the limits of the stack and of the memory and the width of the values;
  and the programs that never panic.
\<close>

section \<open>The stack limit\<close>

definition stack_limited :: "Runtime \<Rightarrow> bool" where
  "stack_limited r \<longleftrightarrow> (stk_maxSize (Stack r) > 0 \<longrightarrow> length (stk_s (Stack r)) \<le> unat (stk_maxSize (Stack r)))"

definition no_locals :: "Instruction list \<Rightarrow> bool" where
  "no_locals is \<longleftrightarrow> (\<forall>ins\<in>set is. Opcode ins \<noteq> LOAD_LOCAL \<and> Opcode ins \<noteq> STORE_LOCAL)"

lemma below_limit: "\<not> uint (m :: u64) \<le> int l \<Longrightarrow> Suc l \<le> unat m"
  using uint_nat[of m] by linarith

lemma stack_Push_room:
  "stack_Push st v = Ret st' \<Longrightarrow> stk_maxSize st' = stk_maxSize st \<and>
     (0 < stk_maxSize st \<longrightarrow> length (stk_s st') \<le> unat (stk_maxSize st))"
  by (auto simp: stack_Push_def below_limit split: if_splits)

interpretation limit: program_invariant
    "\<lambda>r. stack_limited r \<and> stk_maxSize (Stack r) = m \<and> no_locals (Instructions r)" "\<lambda>v. True"
    "\<lambda>op. op \<noteq> LOAD_LOCAL \<and> op \<noteq> STORE_LOCAL"
  by unfold_locales
    (auto simp: stack_limited_def no_locals_def mem_Store_def split: if_splits dest: stack_Push_room)

section \<open>The memory limit\<close>

definition memory_limited :: "Runtime \<Rightarrow> bool" where
  "memory_limited r \<longleftrightarrow>
     (mem_maxSize (Memory r) > 0 \<longrightarrow> (\<forall>a. mem_m (Memory r) a \<noteq> None \<longrightarrow> a < mem_maxSize (Memory r)))"

interpretation mlimit: program_invariant memory_limited "\<lambda>v. True" "\<lambda>op. True"
  by unfold_locales
    (auto simp: memory_limited_def stack_Push_def mem_Store_def split: if_splits)

section \<open>The width of the values\<close>

definition narrow :: "int \<Rightarrow> bool" where
  "narrow v \<longleftrightarrow> \<bar>v\<bar> < 2 ^ 256"

definition narrow_program :: "Instruction list \<Rightarrow> bool" where
  "narrow_program is \<longleftrightarrow>
     (\<forall>ins\<in>set is. Opcode ins \<noteq> MUL \<and> (Opcode ins = PUSH \<longrightarrow>
        (case GetValueAsBigInt ins of Inl e \<Rightarrow> True | Inr v \<Rightarrow> narrow v)))"

definition context_sized :: "BlockchainContext \<Rightarrow> bool" where
  "context_sized c \<longleftrightarrow> length (Caller c) = 32 \<and> length (ContractAddress c) = 32 \<and> length (Origin c) = 32 \<and>
     length (BlockHash c) = 32 \<and> length (LastBlockHash c) = 32 \<and> length (Coinbase c) = 32"

definition values_narrow :: "Runtime \<Rightarrow> bool" where
  "values_narrow r \<longleftrightarrow> (\<forall>v\<in>set (stk_s (Stack r)). narrow v) \<and> (\<forall>a v. mem_m (Memory r) a = Some v \<longrightarrow> narrow v)"

lemma narrow_arith:
  assumes "narrow a" "narrow b"
  shows "narrow (signedAdd a b)" "narrow (signedSub a b)" "narrow (signedDiv a b)" "b \<noteq> 0 \<Longrightarrow> narrow (big_Mod a b)"
proof -
  have unsigned: "narrow (toUnsigned256 x)" if "- (2 ^ 257) < x" for x
    using that pos_mod_bound[of "2 ^ 256" x] pos_mod_sign[of "2 ^ 256" x]
    by (auto simp: narrow_def toUnsigned256_def mod256_eq big_Mod_def)
  have s: "- (2 ^ 256) < toSigned256 x \<and> toSigned256 x < 2 ^ 255" if "narrow x" for x
    using that by (auto simp: narrow_def toSigned256_def mod256_eq sign256_eq abs_less_iff)
  show "narrow (signedAdd a b)" "narrow (signedSub a b)"
    using s[OF assms(1)] s[OF assms(2)] by (auto simp: signedAdd_def signedSub_def Let_def intro!: unsigned)
  show "narrow (signedDiv a b)"
    using s[OF assms(1)] big_Div_abs[of "toSigned256 b" "toSigned256 a"]
    by (auto simp: signedDiv_def Let_def narrow_def[of 0] intro!: unsigned)
  show "narrow (big_Mod a b)" if "b \<noteq> 0"
    using big_Div_Mod[OF that, of a] assms by (simp add: narrow_def)
qed

interpretation width: program_invariant
    "\<lambda>r. values_narrow r \<and> context_sized (Context r) \<and> narrow_program (Instructions r)" narrow "\<lambda>op. op \<noteq> MUL"
proof unfold_locales
  fix r :: Runtime and field :: "BlockchainContext \<Rightarrow> byte list"
  assume "values_narrow r \<and> context_sized (Context r) \<and> narrow_program (Instructions r)"
    and "field \<in> {Caller, ContractAddress, Origin, BlockHash, LastBlockHash, Coinbase}"
  then have "length (field (Context r)) = 32" by (auto simp: context_sized_def)
  then show "narrow (big_SetBytes (field (Context r)))"
    using big_SetBytes_bound[of "field (Context r)"] by (simp add: narrow_def)
next
  show "narrow v" if "\<bar>v\<bar> < 2 ^ 256" for v
    using that by (simp add: narrow_def)
next
  fix r :: Runtime and v s
  assume "values_narrow r \<and> context_sized (Context r) \<and> narrow_program (Instructions r)" "narrow v"
    "set s \<subseteq> insert v (insert 0 (set (stk_s (Stack r))))"
  then show "values_narrow (r\<lparr>Stack := Stack r\<lparr>stk_s := s\<rparr>\<rparr>) \<and>
       context_sized (Context (r\<lparr>Stack := Stack r\<lparr>stk_s := s\<rparr>\<rparr>)) \<and>
       narrow_program (Instructions (r\<lparr>Stack := Stack r\<lparr>stk_s := s\<rparr>\<rparr>))"
    using narrow_def[of 0] by (auto simp: values_narrow_def subset_iff)
qed (auto simp: values_narrow_def narrow_program_def stack_Push_def mem_Store_def mem_Load_def narrow_arith
      narrow_def[of 0] subset_iff
      split: if_splits option.splits sum.splits)

section \<open>Panics\<close>

text \<open>
  The cases that panic on an operand of their own choosing: \<open>SWAP\<close> and \<open>CALL\<close> with an operand
  from \<open>2 ^ 63\<close> on, \<open>STRCONCAT\<close> and \<open>EMITSTR\<close> with a length beyond what \<open>make\<close> accepts, \<open>LOAD_LOCAL\<close>
  and \<open>STORE_LOCAL\<close> with an index beyond what the stack can be extended to.
\<close>

definition panic_free_op :: "OPCODE \<Rightarrow> bool" where
  "panic_free_op op \<longleftrightarrow> op \<notin> {SWAP, CALL, STRCONCAT, EMITSTR, LOAD_LOCAL, STORE_LOCAL}"

lemma narrow_FillBytes: "narrow v \<Longrightarrow> big_FillBytes v 32 \<noteq> None"
  by (auto simp: narrow_def big_FillBytes_def)

lemma read_chunks_no_panic:
  "(\<forall>a v. mem_m m a = Some v \<longrightarrow> narrow v) \<Longrightarrow> read_chunks m addr len n i acc \<noteq> Panic"
proof (induction n arbitrary: i acc)
  case (Suc n)
  have "narrow v" if "mem_Load m (addr + 1 + i) = Ret v" for v
    using that Suc.prems narrow_def[of 0] by (auto simp: mem_Load_def split: if_splits option.splits)
  moreover have "mem_Load m (addr + 1 + i) \<noteq> Panic"
    by (auto simp: mem_Load_def split: option.split)
  ultimately show ?case
    using Suc by (auto simp: Let_def split: outcome.split option.split simp: narrow_FillBytes)
qed simp

lemma readString_no_panic: "values_narrow r \<Longrightarrow> readStringFromMemory r a \<noteq> None"
  using read_chunks_no_panic[of "Memory r" a]
  by (auto simp: readStringFromMemory_def values_narrow_def Let_def split: outcome.splits)

lemma push_no_panic [simp]: "push r v \<noteq> Panicked"
  by (simp add: push_def stack_Push_def)

lemma push_string_no_panic [simp]: "push_string r s \<noteq> Panicked"
  by (simp add: push_string_def split: prod.split)

lemma with_pop_no_panic:
  assumes r: "values_narrow r" and k: "\<And>v r. values_narrow r \<Longrightarrow> k v r \<noteq> Panicked"
  shows "with_pop r k \<noteq> Panicked"
proof -
  have "values_narrow (r\<lparr>Stack := (Stack r)\<lparr>stk_s := butlast (stk_s (Stack r))\<rparr>\<rparr>)"
    using r by (auto simp: values_narrow_def dest: in_set_butlastD)
  then show ?thesis using k by (simp add: with_pop_def stack_Pop_def)
qed

lemma with_pop2_no_panic:
  "values_narrow r \<Longrightarrow> (\<And>v1 v2 r. values_narrow r \<Longrightarrow> k v1 v2 r \<noteq> Panicked) \<Longrightarrow> with_pop2 r k \<noteq> Panicked"
  unfolding with_pop2_def by (intro with_pop_no_panic)

lemma mem_no_panic [simp]: "mem_Load m a \<noteq> Panic" "mem_Store m a v \<noteq> Panic"
  by (auto simp: mem_Load_def mem_Store_def split: option.split)

lemma text_at_no_panic: "values_narrow r \<Longrightarrow> text_at r a s \<noteq> None"
  using readString_no_panic[of r a] by (auto simp: text_at_def)

lemmas no_panic_rules = with_pop_no_panic with_pop2_no_panic

lemma memory_no_panic:
  assumes "values_narrow r"
  shows "op_EQ r \<noteq> Panicked" "op_MSTORE r \<noteq> Panicked" "op_MLOAD r \<noteq> Panicked" "op_PSTORE r \<noteq> Panicked"
    "op_PLOAD r \<noteq> Panicked" "op_EMIT r \<noteq> Panicked" "op_DUP r \<noteq> Panicked"
proof -
  show "op_EQ r \<noteq> Panicked"
    unfolding op_EQ_def Let_def
    by (rule no_panic_rules[OF assms]) (auto simp: readString_no_panic split: option.split)
  show "op_MSTORE r \<noteq> Panicked"
    unfolding op_MSTORE_def by (rule no_panic_rules[OF assms]) (auto split: outcome.split)
  show "op_MLOAD r \<noteq> Panicked"
    unfolding op_MLOAD_def by (rule no_panic_rules[OF assms]) (auto split: outcome.split)
  show "op_PSTORE r \<noteq> Panicked"
    unfolding op_PSTORE_def by (rule no_panic_rules[OF assms]) (auto simp: text_at_no_panic split: option.split)
  show "op_PLOAD r \<noteq> Panicked"
    unfolding op_PLOAD_def by (rule no_panic_rules[OF assms]) (auto simp: text_at_no_panic split: option.split)
  show "op_EMIT r \<noteq> Panicked"
    using assms narrow_FillBytes[of "last (stk_s (Stack r))"]
    by (cases "stk_s (Stack r) = []") (simp_all add: op_EMIT_def stack_Top_def values_narrow_def split: option.split)
  show "op_DUP r \<noteq> Panicked"
    by (simp add: op_DUP_def stack_Top_def)
qed

lemma string_no_panic:
  assumes "values_narrow r"
  shows "op_STRLEN r \<noteq> Panicked" "op_STRINDEX r \<noteq> Panicked" "op_STRSLICE r \<noteq> Panicked"
    "op_STRTOINT r \<noteq> Panicked" "op_INTTOSTR r \<noteq> Panicked"
proof -
  show "op_STRLEN r \<noteq> Panicked"
    unfolding op_STRLEN_def by (rule no_panic_rules[OF assms]) (auto split: outcome.split)
  show "op_STRINDEX r \<noteq> Panicked"
    unfolding op_STRINDEX_def Let_def
    by (rule no_panic_rules[OF assms]) (auto simp: readString_no_panic split: option.split)
  show "op_STRSLICE r \<noteq> Panicked"
    unfolding op_STRSLICE_def Let_def
    by (rule no_panic_rules[OF assms], rule no_panic_rules) (auto simp: readString_no_panic split: option.split)
  show "op_STRTOINT r \<noteq> Panicked"
    unfolding op_STRTOINT_def
    by (rule no_panic_rules[OF assms]) (auto simp: readString_no_panic split: option.split sum.split)
  show "op_INTTOSTR r \<noteq> Panicked"
    unfolding op_INTTOSTR_def by (rule no_panic_rules[OF assms]) simp
qed

lemma control_no_panic:
  assumes "values_narrow r"
  shows "op_JUMP r \<noteq> Panicked" "op_JUMPC r \<noteq> Panicked" "op_RETURN r \<noteq> Panicked" "op_PUSH ins r \<noteq> Panicked"
proof -
  show "op_JUMP r \<noteq> Panicked" unfolding op_JUMP_def Let_def by (rule no_panic_rules[OF assms]) simp
  show "op_JUMPC r \<noteq> Panicked" unfolding op_JUMPC_def Let_def by (rule no_panic_rules[OF assms]) simp
  show "op_PUSH ins r \<noteq> Panicked" by (simp add: op_PUSH_def split: sum.split)
  have "with_pop r (\<lambda>v r. case push (f r) v of Done r None \<Rightarrow> Done (g r) None | res \<Rightarrow> res) \<noteq> Panicked" for f g
    by (rule no_panic_rules[OF assms]) (auto split: op_result.split option.split)
  then show "op_RETURN r \<noteq> Panicked" unfolding op_RETURN_def Let_def by auto
qed

lemma arith_no_panic:
  assumes "values_narrow r"
  shows "op_ADD r \<noteq> Panicked" "op_SUB r \<noteq> Panicked" "op_MUL r \<noteq> Panicked" "op_DIV r \<noteq> Panicked"
    "op_MOD r \<noteq> Panicked" "op_AND r \<noteq> Panicked" "op_OR r \<noteq> Panicked" "op_LT r \<noteq> Panicked" "op_GT r \<noteq> Panicked"
    "op_ISZERO r \<noteq> Panicked" "op_POP r \<noteq> Panicked" "op_BALANCE r \<noteq> Panicked" "op_STOP r \<noteq> Panicked"
  unfolding op_case_defs by (simp_all add: no_panic_rules assms)

lemma exec_op_no_panic: "values_narrow r \<Longrightarrow> panic_free_op op \<Longrightarrow> exec_op op ins r \<noteq> Panicked"
  by (cases op)
    (simp_all add: panic_free_op_def arith_no_panic control_no_panic string_no_panic memory_no_panic)

text \<open>Without calls the instruction counter stays in the program.\<close>

interpretation ctl: runtime_invariant "\<lambda>r. (IC r, ReturnStack r, Instructions r) = c" "\<lambda>v. True"
    "\<lambda>op. op \<notin> {JUMP, JUMPC, CALL, RETURN}"
  by unfold_locales auto

definition ic_ok :: "Runtime \<Rightarrow> bool" where
  "ic_ok r \<longleftrightarrow> 0 \<le> IC r \<and> ReturnStack r = [] \<and> length (Instructions r) < 2 ^ 63"

lemma op_all_mono: "op_all P res \<Longrightarrow> (\<And>r. P r \<Longrightarrow> Q r) \<Longrightarrow> op_all Q res"
  by (auto simp: op_all_def split: op_result.splits)

lemma with_pop_all:
  "P r \<Longrightarrow> (\<And>v st. op_all P (k v (r\<lparr>Stack := st\<rparr>))) \<Longrightarrow> op_all P (with_pop r k)"
  by (simp add: with_pop_def split: outcome.split prod.split)

lemma finish_op_ic:
  assumes r: "ic_ok r" "IC r < int (length (Instructions r))" and op: "op \<noteq> CALL"
    and f: "finish_op op (exec_op op ins r) = Some (r', e)"
  shows "ic_ok r'"
proof -
  consider "op = JUMP" | "op = JUMPC" | "op = RETURN" | "op \<notin> {JUMP, JUMPC, CALL, RETURN}"
    using op by blast
  then show ?thesis
  proof cases
    case 1
    have "op_all ic_ok (op_JUMP r)"
      unfolding op_JUMP_def Let_def by (rule with_pop_all) (use r in \<open>auto simp: ic_ok_def\<close>)
    with f 1 show ?thesis by (auto simp: finish_op_def Let_def ic_ok_def split: op_result.splits)
  next
    case 2
    have "op_all ic_ok (op_JUMPC r)"
      unfolding op_JUMPC_def with_pop2_def Let_def
      by (intro with_pop_all) (use r in \<open>auto simp: ic_ok_def\<close>)
    with f 2 show ?thesis by (auto simp: finish_op_def Let_def ic_ok_def split: op_result.splits)
  next
    case 3
    with f r show ?thesis by (auto simp: finish_op_def op_RETURN_def ic_ok_def)
  next
    case 4
    then have "op_all (\<lambda>q. (IC q, ReturnStack q, Instructions q) = (IC r, ReturnStack r, Instructions r)) (exec_op op ins r)"
      by (intro ctl.exec_op_keeps) auto
    with f r show ?thesis
      by (auto simp: finish_op_def Let_def ic_ok_def split: op_result.splits if_splits)
  qed
qed

definition safe_program :: "Instruction list \<Rightarrow> bool" where
  "safe_program is \<longleftrightarrow> narrow_program is \<and> (\<forall>ins\<in>set is. panic_free_op (Opcode ins)) \<and> length is < 2 ^ 63"

definition panic_safe :: "Runtime \<Rightarrow> bool" where
  "panic_safe r \<longleftrightarrow> values_narrow r \<and> context_sized (Context r) \<and> safe_program (Instructions r) \<and> ic_ok r"

lemma ExecuteInstruction_safe:
  assumes r: "panic_safe r" and ic: "IC r < int (length (Instructions r))"
  shows "\<exists>r' e. ExecuteInstruction r = Some (r', e) \<and> panic_safe r'"
proof -
  let ?ins = "Instructions r ! nat (IC r)"
  let ?op = "Opcode ?ins"
  have "?ins \<in> set (Instructions r)" using r ic by (auto simp: panic_safe_def ic_ok_def intro!: nth_mem)
  then have op: "panic_free_op ?op" "?op \<noteq> CALL" using r by (auto simp: panic_safe_def safe_program_def panic_free_op_def)
  then have "exec_op ?op ?ins r \<noteq> Panicked" using r by (simp add: exec_op_no_panic panic_safe_def)
  then have "\<exists>r' e. finish_op ?op (exec_op ?op ?ins r) = Some (r', e)"
    by (cases "exec_op ?op ?ins r") (auto simp: finish_op_def Let_def)
  then have "ExecuteInstruction r \<noteq> None"
    using r ic by (auto simp: ExecuteInstruction_def Let_def panic_safe_def ic_ok_def split: option.split)
  then obtain r' e where ex: "ExecuteInstruction r = Some (r', e)" by auto
  have "values_narrow r' \<and> context_sized (Context r') \<and> narrow_program (Instructions r')"
    by (rule width.instruction_keeps[OF _ ex]) (use r in \<open>auto simp: panic_safe_def safe_program_def\<close>)
  moreover have "Instructions r' = Instructions r"
    using ex by (auto elim!: ExecuteInstruction_cases simp: env_def)
  moreover have "ic_ok r'"
    using ex r ic finish_op_ic[OF _ ic op(2)]
    by (auto simp: ExecuteInstruction_def Let_def panic_safe_def split: if_splits option.splits)
  ultimately show ?thesis
    using ex r by (auto simp: panic_safe_def safe_program_def)
qed

lemma run_safe: "panic_safe r \<Longrightarrow> run r \<noteq> None"
proof (induction r rule: run.induct)
  case (1 r)
  then show ?case
    using ExecuteInstruction_safe[of r] by (subst run.simps) (auto split: option.split)
qed

section \<open>Properties\<close>

text \<open>
  C1. Whatever the program, \<open>StartExecution\<close> of a new runtime returns as the gas used the gas that
  has left the runtime: at most the gas it was given, and the rest is still available. This holds
  on success and on every error.
\<close>

theorem StartExecution_gas:
  assumes "StartExecution (NewRuntimeWithIC gas is ctx ic) = Some (r', gasUsed, e)"
  shows "gasUsed \<le> gas \<and> GasAvailable r' = gas - gasUsed \<and> GasUsed r' = gasUsed"
proof -
  let ?r = "NewRuntimeWithIC gas is ctx ic"
  have "run ?r = Some (r', e)" and u: "gasUsed = GasUsed r'"
    using assms by (auto simp: StartExecution_def NewRuntimeWithIC_def NewStack_def split: option.splits)
  from run_gas[OF this(1)] have "GasUsed r' + GasAvailable r' = gas" "GasAvailable r' \<le> gas"
    by (auto simp: NewRuntimeWithIC_def)
  then have "gasUsed = gas - GasAvailable r'" "GasAvailable r' \<le> gas" using u by (auto simp: algebra_simps)
  then show ?thesis using u by (auto simp: word_sub_le)
qed

text \<open>A program that adds two numbers and stops on an empty stack.\<close>

definition add_program :: "Instruction list" where
  "add_program = [MakePushInstruction ''2'', MakePushInstruction ''0x3'', MakeInstruction ADD,
                  MakeInstruction POP, MakeInstruction POP]"

theorem StartExecution_gas_witness:
  "(13 :: u64) \<le> 20 \<and> GasAvailable (fst (the (StartExecution (NewRuntimeWithIC 20 add_program MockBlockchainContext 0)))) = 20 - 13"
proof -
  have "map_option (\<lambda>(r, g, e). g) (StartExecution (NewRuntimeWithIC 20 add_program MockBlockchainContext 0)) = Some 13"
    by code_simp
  then obtain r' e where "StartExecution (NewRuntimeWithIC 20 add_program MockBlockchainContext 0) = Some (r', 13, e)"
    by auto
  from StartExecution_gas[OF this] this show ?thesis by simp
qed

text \<open>
  C2. The loop of \<open>StartExecution\<close> ends whatever the program: some number of instructions, at most
  the gas available, completes, and then either the counter has left the program, or the next
  instruction reports an error or panics; \<open>run\<close> is that end. No infinite sequence of completed
  instructions exists.
\<close>

theorem execution_terminates:
  "(\<exists>n r1. n \<le> unat (GasAvailable r) \<and> (avm_step ^^ n) r r1 \<and> \<not> (\<exists>r2. avm_step r1 r2) \<and>
      run r = (if IC r1 < int (length (Instructions r1)) then ExecuteInstruction r1 else Some (r1, None)))
   \<and> \<not> (\<exists>f. f 0 = r \<and> (\<forall>i. avm_step (f i) (f (Suc i))))"
  using run_steps[of r] avm.steps_bounded avm.no_infinite_run unfolding run_end_def by metis

text \<open>
  C24. A program without \<open>LOAD_LOCAL\<close> and \<open>STORE_LOCAL\<close> never holds more than \<open>AVMMaxStackSize\<close> values
  on the stack, in any state it reaches and in the one it ends in.
\<close>

theorem stack_stays_below_limit:
  assumes "no_locals is"
    and "(avm_step ^^ n) (NewRuntimeWithIC gas is ctx ic) r \<or> run (NewRuntimeWithIC gas is ctx ic) = Some (r, e)"
  shows "length (stk_s (Stack r)) \<le> unat AVMMaxStackSize"
proof -
  let ?r = "NewRuntimeWithIC gas is ctx ic"
  have "stack_limited ?r \<and> stk_maxSize (Stack ?r) = AVMMaxStackSize \<and> no_locals (Instructions ?r)"
    using assms(1) by (simp add: stack_limited_def NewRuntimeWithIC_def NewStack_def)
  with assms(2) have "stack_limited r \<and> stk_maxSize (Stack r) = AVMMaxStackSize \<and> no_locals (Instructions r)"
    using limit.steps_keep[of n ?r r AVMMaxStackSize] limit.run_keeps[of ?r r e AVMMaxStackSize] by blast
  then show ?thesis by (auto simp: stack_limited_def AVMMaxStackSize_def)
qed

theorem stack_stays_below_limit_witness:
  "length (stk_s (Stack (fst (the (run (NewRuntimeWithIC 20 add_program MockBlockchainContext 0)))))) \<le> unat AVMMaxStackSize"
proof -
  let ?r = "NewRuntimeWithIC 20 add_program MockBlockchainContext 0"
  have "map_option (\<lambda>(r, e). e) (run ?r) = Some (Some EmptyStack)" by code_simp
  then obtain r where "run ?r = Some (r, Some EmptyStack)" by auto
  moreover have "no_locals add_program"
    by (simp add: add_program_def no_locals_def MakePushInstruction_def MakeInstruction_def)
  ultimately show ?thesis using stack_stays_below_limit[of add_program 0 20 MockBlockchainContext 0 r] by auto
qed

text \<open>
  C23. A program whose pushed literals are below \<open>2 ^ 256\<close> and that uses none of \<open>MUL\<close>, \<open>SWAP\<close>, \<open>CALL\<close>,
  \<open>STRCONCAT\<close>, \<open>EMITSTR\<close>, \<open>LOAD_LOCAL\<close> and \<open>STORE_LOCAL\<close> never panics: \<open>StartExecution\<close> returns, in a context whose keys and
  hashes have their 32 bytes.
\<close>

theorem safe_program_never_panics:
  assumes "safe_program is" and "context_sized ctx" and "0 \<le> ic"
  shows "\<exists>r' gasUsed e. StartExecution (NewRuntimeWithIC gas is ctx ic) = Some (r', gasUsed, e)"
proof -
  have "panic_safe (NewRuntimeWithIC gas is ctx ic)"
    using assms by (simp add: panic_safe_def values_narrow_def ic_ok_def NewRuntimeWithIC_def NewStack_def
        NewMemory_def safe_program_def)
  from run_safe[OF this] show ?thesis
    by (auto simp: StartExecution_def split: option.splits)
qed

theorem safe_program_never_panics_witness:
  "\<exists>r' gasUsed e. StartExecution (NewRuntimeWithIC 20 add_program MockBlockchainContext 0) = Some (r', gasUsed, e)"
proof (rule safe_program_never_panics)
  show "safe_program add_program"
    unfolding safe_program_def
  proof (intro conjI)
    show "narrow_program add_program" by code_simp
    show "\<forall>ins\<in>set add_program. panic_free_op (Opcode ins)" by code_simp
  qed (simp add: add_program_def)
  show "context_sized MockBlockchainContext" by code_simp
qed simp

text \<open>
  \<open>SWAP\<close> with an index from \<open>2 ^ 63\<close> on, above a stack that is not empty, panics: the index
  is negative as an \<open>int\<close>, passes both guards and indexes behind the end of the slice.
\<close>

theorem SWAP_panics:
  assumes "stk_s (Stack r) = s @ [v]" and "s \<noteq> []" and "2 ^ 63 \<le> v" and "v < 2 ^ 64"
  shows "exec_op SWAP ins r = Panicked"
proof -
  have u: "uint (big_Uint64 v) = v" using assms by (simp add: big_Uint64_of_nonneg)
  have "sint (big_Uint64 v) < 0"
  proof (rule ccontr)
    assume "\<not> sint (big_Uint64 v) < 0"
    then have "sint (big_Uint64 v) = int (unat (big_Uint64 v))" by (intro sint_nonneg_unat) simp
    then have "sint (big_Uint64 v) = v" using u by simp
    moreover have "sint (big_Uint64 v) < 2 ^ 63" using sint_lt[of "big_Uint64 v"] by simp
    ultimately show False using assms by simp
  qed
  then show ?thesis
    using assms(1,2) by (simp add: op_SWAP_def with_pop_def stack_Pop_def stack_Swap_def stack_Top_def Let_def)
qed

theorem SWAP_panics_witness:
  "exec_op SWAP (MakeInstruction SWAP)
     ((NewTestRuntime 10 [])\<lparr>Stack := \<lparr>stk_s = [7, 2 ^ 63], stk_maxSize = 1024\<rparr>\<rparr>) = Panicked"
  by (rule SWAP_panics[where s = "[7]" and v = "2 ^ 63"]) simp_all

text \<open>
  \<open>LOAD_LOCAL\<close> outside of calls with an index from \<open>2 ^ 45\<close> on crashes: the loop that extends the stack
  up to the index runs out of memory, whatever the limit of the stack.
\<close>

theorem LOAD_LOCAL_panics:
  assumes "stk_s (Stack r) = s @ [v]" and "FramePointer r = 0" and "2 ^ 45 \<le> v" and "v < 2 ^ 63"
  shows "exec_op LOAD_LOCAL ins r = Panicked"
proof -
  have "uint (big_Uint64 v) = v" using assms(3,4) by (simp add: big_Uint64_of_nonneg)
  then have "sint (big_Uint64 v) = v" using assms(3,4) by (simp add: sint_uint signed_take_bit_int_eq_self)
  then show ?thesis using assms by (simp add: op_LOAD_LOCAL_def with_pop_def stack_Pop_def maxSlots_eq Let_def)
qed

theorem LOAD_LOCAL_panics_witness:
  "exec_op LOAD_LOCAL (MakeInstruction LOAD_LOCAL)
     ((NewTestRuntime 10 [])\<lparr>Stack := \<lparr>stk_s = [2 ^ 62], stk_maxSize = 1024\<rparr>\<rparr>) = Panicked"
  by (rule LOAD_LOCAL_panics[where s = "[]" and v = "2 ^ 62"]) (simp_all add: NewTestRuntime_def NewRuntime_def NewRuntimeWithIC_def)

end
