(* ===== verification/AVM_Strings.thy ===== *)
theory AVM_Strings
  imports AVM_Safety
begin

text \<open>
  Strings in the memory of the virtual machine: what \<open>storeStringInMemory\<close> lays out is what
  \<open>readStringFromMemory\<close> and the loops of the string opcodes read back, and storing a string leaves
  everything below the allocation pointer alone.
\<close>

section \<open>Layout\<close>

definition chunks :: "nat \<Rightarrow> nat" where
  "chunks n = (n + 31) div 32"

definition chunk_val :: "byte list \<Rightarrow> nat \<Rightarrow> int" where
  "chunk_val bs i = big_SetBytes (pad32 (take 32 (drop (32 * i) bs)))"

text \<open>The addresses from \<open>a\<close> to \<open>a + n - 1\<close> exist.\<close>

definition room :: "memory \<Rightarrow> u64 \<Rightarrow> nat \<Rightarrow> bool" where
  "room m a n \<longleftrightarrow> unat a + n < 2 ^ 64 \<and> (0 < mem_maxSize m \<longrightarrow> unat a + n \<le> unat (mem_maxSize m))"

lemma chunks_Cons: "bs \<noteq> [] \<Longrightarrow> chunks (length bs) = Suc (chunks (length (drop 32 bs)))"
proof -
  assume "bs \<noteq> []"
  then have "length bs \<ge> 1" by (simp add: Suc_le_eq)
  then have "length bs + 31 = (length bs - 32 + 31) + 32 \<or> (length bs \<le> 32 \<and> 32 \<le> length bs + 31)" by linarith
  moreover have "(length bs + 31) div 32 = Suc ((length bs - 32 + 31) div 32)" if "length bs \<le> 32" "1 \<le> length bs"
  proof -
    have "(length bs + 31) div 32 = 1" using that by (intro div_nat_eqI) auto
    moreover have "(length bs - 32 + 31) div 32 = 0" using that by simp
    ultimately show ?thesis by simp
  qed
  ultimately show ?thesis using \<open>length bs \<ge> 1\<close> by (auto simp: chunks_def)
qed

lemma unat_of_nat64: "n < 2 ^ 64 \<Longrightarrow> unat (of_nat n :: u64) = n"
  by (simp add: unat_of_nat take_bit_nat_eq_self)

lemma unat_plus_small: "unat (a :: u64) + n < 2 ^ 64 \<Longrightarrow> unat (a + of_nat n) = unat a + n"
  using unat_of_nat64[of "unat a + n"] by simp

lemma chunk_count_of_nat: "n + 31 < 2 ^ 64 \<Longrightarrow> unat (chunk_count (of_nat n)) = chunks n"
  using unat_of_nat64[of "n + 31"] by (simp add: chunk_count_def chunks_def unat_div)

lemma mem_Store_room: "room m a (Suc n) \<Longrightarrow> mem_Store m a v = Ret (m\<lparr>mem_m := (mem_m m)(a \<mapsto> v)\<rparr>)"
  by (auto simp: mem_Store_def room_def word_le_nat_alt)

lemma room_Suc: "room m a (Suc n) \<Longrightarrow> room (m\<lparr>mem_m := f\<rparr>) (a + 1) n"
  using unat_plus_small[of a 1] by (auto simp: room_def)

text \<open>The two loops that write chunks agree when there is room, and this is what they write.\<close>

lemma write_chunks_mem:
  "room m a (chunks (length bs)) \<Longrightarrow>
     write_chunks m a bs = m\<lparr>mem_m := \<lambda>x. if unat a \<le> unat x \<and> unat x < unat a + chunks (length bs)
                                        then Some (chunk_val bs (unat x - unat a)) else mem_m m x\<rparr>
     \<and> put_chunks m a bs = (write_chunks m a bs, None)"
proof (induction m a bs rule: write_chunks.induct)
  case (1 m a bs)
  show ?case
  proof (cases "bs = []")
    case True
    moreover have "(\<lambda>x. if unat a \<le> unat x \<and> unat x < unat a then Some (chunk_val bs (unat x - unat a))
        else mem_m m x) = mem_m m" by (rule ext) auto
    ultimately show ?thesis by (simp add: write_chunks.simps put_chunks.simps chunks_def)
  next
    case False
    let ?v = "chunk_val bs 0" and ?n = "chunks (length (drop 32 bs))"
    have room: "room m a (Suc ?n)" using 1 chunks_Cons[OF False] by simp
    let ?m = "m\<lparr>mem_m := (mem_m m)(a \<mapsto> ?v)\<rparr>"
    have st: "mem_Store m a (big_SetBytes (pad32 (take 32 bs))) = Ret ?m"
      using mem_Store_room[OF room] by (simp add: chunk_val_def)
    then have si: "store_ignore m a (big_SetBytes (pad32 (take 32 bs))) = ?m" by (simp add: store_ignore_def)
    have IH: "write_chunks ?m (a + 1) (drop 32 bs) = ?m\<lparr>mem_m :=
            \<lambda>x. if unat (a + 1) \<le> unat x \<and> unat x < unat (a + 1) + ?n
                 then Some (chunk_val (drop 32 bs) (unat x - unat (a + 1))) else mem_m ?m x\<rparr>
          \<and> put_chunks ?m (a + 1) (drop 32 bs) = (write_chunks ?m (a + 1) (drop 32 bs), None)"
      using 1(1)[OF False, unfolded si] room_Suc[OF room] by blast
    have a1: "unat (a + 1) = Suc (unat a)"
      using unat_plus_small[of a 1] room by (simp add: room_def)
    have cv: "chunk_val (drop 32 bs) j = chunk_val bs (Suc j)" for j
      by (simp add: chunk_val_def add.commute)
    have x: "x = a \<longleftrightarrow> unat x = unat a" for x :: u64 by (rule word_unat_eq_iff)
    have "write_chunks m a bs = write_chunks ?m (a + 1) (drop 32 bs)"
      using False st by (subst write_chunks.simps) (simp add: store_ignore_def)
    moreover have "put_chunks m a bs = put_chunks ?m (a + 1) (drop 32 bs)"
      using False st by (subst put_chunks.simps) simp
    moreover have "(\<lambda>x. if unat (a + 1) \<le> unat x \<and> unat x < unat (a + 1) + ?n
                 then Some (chunk_val (drop 32 bs) (unat x - unat (a + 1))) else mem_m ?m x) =
       (\<lambda>x. if unat a \<le> unat x \<and> unat x < unat a + chunks (length bs)
                 then Some (chunk_val bs (unat x - unat a)) else mem_m m x)"
      unfolding a1 chunks_Cons[OF False] cv
      by (rule ext) (auto simp: x Suc_le_eq Suc_diff_Suc)
    ultimately show ?thesis using IH by simp
  qed
qed

lemma write_chunks_room:
  assumes "room m a (chunks (length bs))"
  shows "mem_maxSize (write_chunks m a bs) = mem_maxSize m"
    and "unat x < unat a \<Longrightarrow> mem_m (write_chunks m a bs) x = mem_m m x"
    and "i < chunks (length bs) \<Longrightarrow> mem_m (write_chunks m a bs) (a + of_nat i) = Some (chunk_val bs i)"
    and "put_chunks m a bs = (write_chunks m a bs, None)"
  using write_chunks_mem[OF assms] unat_plus_small[of a i] assms by (auto simp: room_def)

section \<open>Reading back\<close>

definition string_at :: "memory \<Rightarrow> u64 \<Rightarrow> byte list \<Rightarrow> bool" where
  "string_at m a bs \<longleftrightarrow> length bs < 2 ^ 63 \<and> room m a (Suc (chunks (length bs))) \<and>
     mem_m m a = Some (int (length bs)) \<and>
     (\<forall>i<chunks (length bs). mem_m m (a + 1 + of_nat i) = Some (chunk_val bs i))"

lemma pad32_take: "length bs \<le> 32 \<Longrightarrow> take (length bs) (pad32 bs) = bs" "length (pad32 (take 32 bs)) = 32"
  by (simp_all add: pad32_def)

lemma in_chunks: "i < chunks n \<longleftrightarrow> 32 * i < n"
  unfolding chunks_def by linarith

lemma read_chunk_step:
  assumes "32 * i < length bs" "length bs < 2 ^ 63"
  shows "take (32 * i) bs @ (if of_nat (length bs) - of_nat (length (take (32 * i) bs)) > (32 :: u64)
           then pad32 (take 32 (drop (32 * i) bs))
           else take (unat (of_nat (length bs) - of_nat (length (take (32 * i) bs)) :: u64)) (pad32 (take 32 (drop (32 * i) bs))))
         = take (32 * Suc i) bs"
proof -
  let ?r = "length bs - 32 * i" and ?d = "drop (32 * i) bs"
  have l: "length (take (32 * i) bs) = 32 * i" using assms by simp
  have r: "of_nat (length bs) - of_nat (32 * i) = (of_nat ?r :: u64)" using assms by (simp add: of_nat_diff)
  have u: "unat (of_nat ?r :: u64) = ?r" using assms by (intro unat_of_nat64) simp
  have gt: "of_nat ?r > (32 :: u64) \<longleftrightarrow> ?r > 32" using u by (simp add: word_less_nat_alt)
  have "take 32 ?d = (if ?r > 32 then pad32 (take 32 ?d) else take ?r (pad32 (take 32 ?d)))"
    using pad32_take(1)[of "take 32 ?d"] by (auto simp: pad32_def)
  moreover have "take (32 * Suc i) bs = take (32 * i) bs @ take 32 ?d"
    using take_add[of "32 * i" 32 bs] by (simp add: add.commute)
  ultimately show ?thesis unfolding l r u gt by simp
qed

lemma read_chunks_string:
  assumes "string_at m a bs"
  shows "i + n = chunks (length bs) \<Longrightarrow>
    read_chunks m a (of_nat (length bs)) n (of_nat i) (take (32 * i) bs) = Ret bs"
proof (induction n arbitrary: i)
  case 0
  then have "length bs \<le> 32 * i" using in_chunks[of i "length bs"] by simp
  then show ?case by simp
next
  case (Suc n)
  then have i: "i < chunks (length bs)" by simp
  have "unat (a + 1 + of_nat i) = unat a + 1 + i"
    using unat_plus_small[of a "1 + i"] assms i by (simp add: string_at_def room_def add.assoc)
  then have "mem_Load m (a + 1 + of_nat i) = Ret (chunk_val bs i)"
    using assms i by (auto simp: mem_Load_def string_at_def room_def word_le_nat_alt)
  moreover have "big_FillBytes (chunk_val bs i) 32 = Some (pad32 (take 32 (drop (32 * i) bs)))"
    unfolding chunk_val_def by (rule big_FillBytes_SetBytes) (rule pad32_take)
  moreover have "take (32 * i) bs @ (if of_nat (length bs) - of_nat (length (take (32 * i) bs)) > (32 :: u64)
           then pad32 (take 32 (drop (32 * i) bs))
           else take (unat (of_nat (length bs) - of_nat (length (take (32 * i) bs)) :: u64)) (pad32 (take 32 (drop (32 * i) bs))))
         = take (32 * Suc i) bs"
    using i assms by (intro read_chunk_step) (auto simp: in_chunks string_at_def)
  ultimately show ?case
    using Suc.IH[of "Suc i"] Suc.prems by (simp only: read_chunks.simps outcome.case option.case Let_def of_nat_Suc add.commute)
qed

lemma readString_at:
  assumes "string_at (Memory r) a (bytes_of_string s)" "length s \<le> 1000000"
  shows "readStringFromMemory r a = Some s"
proof -
  let ?bs = "bytes_of_string s"
  have n: "unat (of_nat (length s) :: u64) = length s" using assms(2) by (intro unat_of_nat64) simp
  have load: "mem_Load (Memory r) a = Ret (int (length s))"
    using assms(1) by (auto simp: mem_Load_def string_at_def room_def word_le_nat_alt)
  have len: "big_Uint64 (int (length s)) = of_nat (length s)"
    by (simp add: big_Uint64_def)
  have le: "\<not> (of_nat (length s) :: u64) > 1000000" using assms(2) n by (simp add: word_less_nat_alt)
  have cc: "unat (chunk_count (of_nat (length s))) = chunks (length ?bs)"
    using assms(2) by (simp add: chunk_count_of_nat)
  have "read_chunks (Memory r) a (of_nat (length s)) (chunks (length ?bs)) 0 [] = Ret ?bs"
    using read_chunks_string[OF assms(1), of 0] by simp
  moreover have "(of_nat (length s) :: u64) = 0 \<Longrightarrow> s = []" using n by auto
  ultimately show ?thesis
    unfolding readStringFromMemory_def load outcome.case Let_def len cc using le
    by auto
qed

lemma read_bytes_at:
  assumes "string_at m a bs" "length bs \<le> 2 ^ 48"
  shows "mem_Load m a = Ret (int (length bs))" and "read_bytes m a (big_Uint64 (int (length bs))) = Ret bs"
proof -
  show "mem_Load m a = Ret (int (length bs))"
    using assms(1) by (auto simp: mem_Load_def string_at_def room_def word_le_nat_alt)
  have n: "unat (of_nat (length bs) :: u64) = length bs" using assms(2) by (intro unat_of_nat64) simp
  have cc: "unat (chunk_count (of_nat (length bs))) = chunks (length bs)"
    using assms(2) by (simp add: chunk_count_of_nat)
  have "\<not> (of_nat (length bs) :: u64) > maxAlloc" using assms(2) n by (simp add: word_less_nat_alt maxAlloc_def)
  with read_chunks_string[OF assms(1), of 0] cc
  show "read_bytes m a (big_Uint64 (int (length bs))) = Ret bs"
    by (simp add: read_bytes_def big_Uint64_def)
qed

section \<open>Storing\<close>

definition fresh_room :: "Runtime \<Rightarrow> nat \<Rightarrow> bool" where
  "fresh_room r n \<longleftrightarrow> room (Memory r) (NextMemoryAddr r) (Suc (chunks n))"

lemma write_string:
  assumes room: "room m a (Suc (chunks (length bs)))" and len: "length bs < 2 ^ 63"
  defines "m1 \<equiv> m\<lparr>mem_m := (mem_m m)(a \<mapsto> int (length bs))\<rparr>"
  defines "m2 \<equiv> write_chunks m1 (a + 1) bs"
  shows "mem_Store m a (sint (of_nat (length bs) :: u64)) = Ret m1" "put_chunks m1 (a + 1) bs = (m2, None)"
    and "string_at m2 a bs" "mem_maxSize m2 = mem_maxSize m" "\<And>x. x < a \<Longrightarrow> mem_m m2 x = mem_m m x"
proof -
  have s: "sint (of_nat (length bs) :: u64) = int (length bs)"
    using len by (simp add: signed_of_nat signed_take_bit_int_eq_self)
  show "mem_Store m a (sint (of_nat (length bs) :: u64)) = Ret m1"
    unfolding s m1_def by (rule mem_Store_room[OF room])
  have room1: "room m1 (a + 1) (chunks (length bs))" unfolding m1_def by (rule room_Suc[OF room])
  note w = write_chunks_room[OF room1, folded m2_def]
  have a1: "unat (a + 1) = unat a + 1" using unat_plus_small[of a 1] room by (simp add: room_def)
  show "put_chunks m1 (a + 1) bs = (m2, None)" by (fact w)
  show max: "mem_maxSize m2 = mem_maxSize m" using w(1) by (simp add: m1_def)
  show "mem_m m2 x = mem_m m x" if "x < a" for x
    using w(2)[of x] a1 that by (auto simp: m1_def word_less_nat_alt)
  have "mem_m m2 a = Some (int (length bs))" using w(2)[of a] a1 by (simp add: m1_def)
  with w(3) max room len show "string_at m2 a bs" by (simp add: string_at_def room_def)
qed

lemma storeString_spec:
  assumes "fresh_room r (length s)" "length s < 2 ^ 63" "storeStringInMemory r s = (a, r')"
  shows "a = NextMemoryAddr r" "string_at (Memory r') a (bytes_of_string s)"
    "unat (NextMemoryAddr r') = unat a + 1 + chunks (length s)"
    "\<And>x. x < a \<Longrightarrow> mem_m (Memory r') x = mem_m (Memory r) x"
    "r' = r\<lparr>Memory := Memory r', NextMemoryAddr := NextMemoryAddr r'\<rparr>"
    "mem_maxSize (Memory r') = mem_maxSize (Memory r)"
proof -
  let ?bs = "bytes_of_string s" and ?a = "NextMemoryAddr r"
  let ?m1 = "(Memory r)\<lparr>mem_m := (mem_m (Memory r))(?a \<mapsto> int (length ?bs))\<rparr>"
  have room: "room (Memory r) ?a (Suc (chunks (length ?bs)))" using assms(1) by (simp add: fresh_room_def)
  note w = write_string[OF room]
  have cc: "unat (chunk_count (of_nat (length s))) = chunks (length s)" using assms(2) by (intro chunk_count_of_nat) simp
  have "unat (?a + of_nat (1 + chunks (length s))) = unat ?a + (1 + chunks (length s))"
    using room by (intro unat_plus_small) (simp add: room_def)
  moreover have "chunk_count (of_nat (length s)) = of_nat (chunks (length s))" 
    using cc room by (simp add: word_unat_eq_iff unat_of_nat64 room_def)
  ultimately have nx: "unat (?a + 1 + chunk_count (of_nat (length s))) = unat ?a + 1 + chunks (length s)"
    by (simp add: add.assoc)
  have r': "a = ?a" "r' = r\<lparr>Memory := write_chunks ?m1 (?a + 1) ?bs, NextMemoryAddr := ?a + 1 + chunk_count (of_nat (length s))\<rparr>"
    using assms w(1) by (auto simp: storeStringInMemory_def Let_def store_ignore_def)
  from r' w assms(2) nx show "a = NextMemoryAddr r" "string_at (Memory r') a (bytes_of_string s)"
    "unat (NextMemoryAddr r') = unat a + 1 + chunks (length s)"
    "\<And>x. x < a \<Longrightarrow> mem_m (Memory r') x = mem_m (Memory r) x"
    "r' = r\<lparr>Memory := Memory r', NextMemoryAddr := NextMemoryAddr r'\<rparr>"
    "mem_maxSize (Memory r') = mem_maxSize (Memory r)" by simp_all
qed

section \<open>The string store as an interface\<close>

fun store_all :: "('s \<Rightarrow> string \<Rightarrow> 'a \<times> 's) \<Rightarrow> 's \<Rightarrow> string list \<Rightarrow> 'a list \<times> 's" where
  "store_all store s [] = ([], s)"
| "store_all store s (x # xs) =
     (case store s x of (a, s) \<Rightarrow> (case store_all store s xs of (as, s) \<Rightarrow> (a # as, s)))"

fun fits_all :: "('s \<Rightarrow> string \<Rightarrow> 'a \<times> 's) \<Rightarrow> ('s \<Rightarrow> string \<Rightarrow> bool) \<Rightarrow> 's \<Rightarrow> string list \<Rightarrow> bool" where
  "fits_all store fits s [] = True"
| "fits_all store fits s (x # xs) = (fits s x \<and> fits_all store fits (snd (store s x)) xs)"

text \<open>
  \<open>live s a x\<close>: the string \<open>x\<close> is allocated at \<open>a\<close>. A store that fits allocates its string and
  keeps every allocated string, and an allocated string is what \<open>read\<close> returns.
\<close>

locale string_store =
  fixes store :: "'s \<Rightarrow> string \<Rightarrow> 'a \<times> 's" and read :: "'s \<Rightarrow> 'a \<Rightarrow> string option"
    and fits :: "'s \<Rightarrow> string \<Rightarrow> bool" and live :: "'s \<Rightarrow> 'a \<Rightarrow> string \<Rightarrow> bool"
  assumes stored: "fits s x \<Longrightarrow> store s x = (a, s') \<Longrightarrow> live s' a x"
    and kept: "live s b y \<Longrightarrow> fits s x \<Longrightarrow> store s x = (a, s') \<Longrightarrow> live s' b y"
    and read_live: "live s a x \<Longrightarrow> read s a = Some x"
begin

lemma store_all_keeps:
  "fits_all store fits s xs \<Longrightarrow> live s b y \<Longrightarrow> store_all store s xs = (as, s') \<Longrightarrow> live s' b y"
proof (induction xs arbitrary: s as)
  case (Cons x xs)
  then show ?case using kept by (fastforce split: prod.splits)
qed simp

lemma store_all_live:
  "fits_all store fits s xs \<Longrightarrow> store_all store s xs = (as, s') \<Longrightarrow> list_all2 (live s') as xs"
proof (induction xs arbitrary: s as)
  case (Cons x xs)
  obtain a s1 bs where s1: "store s x = (a, s1)" "store_all store s1 xs = (bs, s')" "as = a # bs"
    using Cons.prems by (auto split: prod.splits)
  then have "live s1 a x" using Cons.prems stored[of s x a s1] by simp
  then have "live s' a x" using store_all_keeps[of s1 xs a x bs s'] s1 Cons.prems by simp
  with Cons.IH[of s1 bs] s1 Cons.prems show ?case by simp
qed simp

lemma store_all_read:
  "fits_all store fits s xs \<Longrightarrow> store_all store s xs = (as, s') \<Longrightarrow> map (read s') as = map Some xs"
proof -
  assume "fits_all store fits s xs" "store_all store s xs = (as, s')"
  then have "list_all2 (live s') as xs" by (rule store_all_live)
  then show ?thesis by (induction rule: list_all2_induct) (simp_all add: read_live)
qed

end

definition string_fits :: "Runtime \<Rightarrow> string \<Rightarrow> bool" where
  "string_fits r s \<longleftrightarrow> fresh_room r (length s) \<and> length s \<le> 1000000"

definition string_live :: "Runtime \<Rightarrow> u64 \<Rightarrow> string \<Rightarrow> bool" where
  "string_live r a s \<longleftrightarrow> string_at (Memory r) a (bytes_of_string s) \<and> length s \<le> 1000000 \<and>
     unat a + 1 + chunks (length s) \<le> unat (NextMemoryAddr r)"

lemma string_at_below:
  assumes "string_at m b bs" "unat b + 1 + chunks (length bs) \<le> unat a"
    and same: "\<And>x. x < a \<Longrightarrow> mem_m m' x = mem_m m x" and max: "mem_maxSize m' = mem_maxSize m"
  shows "string_at m' b bs"
proof -
  have "b + 1 + of_nat i < a" if "i < chunks (length bs)" for i
    using unat_plus_small[of b "1 + i"] that assms(1,2)
    by (simp add: string_at_def room_def word_less_nat_alt add.assoc)
  moreover have "b < a" using assms(2) by (simp add: word_less_nat_alt)
  ultimately show ?thesis
    using assms(1) same max by (simp add: string_at_def room_def)
qed

interpretation heap: string_store storeStringInMemory readStringFromMemory string_fits string_live
proof
  fix s x a s'
  assume f: "string_fits s x" and st: "storeStringInMemory s x = (a, s')"
  note spec = storeString_spec[OF _ _ st]
  show "string_live s' a x"
    using spec f by (simp add: string_live_def string_fits_def)
  show "string_live s' b y" if l: "string_live s b y" for b y
  proof -
    have "string_at (Memory s') b (bytes_of_string y)"
      using l f spec by (intro string_at_below[of "Memory s" b _ a "Memory s'"]) (auto simp: string_live_def string_fits_def)
    then show ?thesis
      using l f spec(1,3) by (simp add: string_live_def string_fits_def)
  qed
next
  show "readStringFromMemory s a = Some x" if "string_live s a x" for s a x
    using that by (simp add: string_live_def readString_at)
qed

text \<open>A list of strings fits when the cells it takes are there.\<close>

definition cells :: "string list \<Rightarrow> nat" where
  "cells xs = sum_list (map (\<lambda>x. Suc (chunks (length x))) xs)"

lemma strings_fit:
  "room (Memory r) (NextMemoryAddr r) (cells xs) \<Longrightarrow> \<forall>x\<in>set xs. length x \<le> 1000000 \<Longrightarrow>
     fits_all storeStringInMemory string_fits r xs"
proof (induction xs arbitrary: r)
  case (Cons x xs)
  obtain a r' where st: "storeStringInMemory r x = (a, r')" by fastforce
  have f: "fresh_room r (length x)" "length x < 2 ^ 63"
    using Cons.prems by (auto simp: fresh_room_def cells_def room_def)
  note spec = storeString_spec[OF f st]
  have "room (Memory r') (NextMemoryAddr r') (cells xs)"
    using Cons.prems(1) spec(1,3,6) by (auto simp: room_def cells_def)
  with Cons f st show ?case by (simp add: string_fits_def)
qed simp

section \<open>Concatenation\<close>

lemma with_pop_Cons: "stk_s (Stack r) = s @ [v] \<Longrightarrow> with_pop r k = k v (r\<lparr>Stack := (Stack r)\<lparr>stk_s := s\<rparr>\<rparr>)"
  by (simp add: with_pop_def stack_Pop_def)

lemma with_pop2_Cons:
  "stk_s (Stack r) = s @ [v2, v1] \<Longrightarrow> with_pop2 r k = k v1 v2 (r\<lparr>Stack := (Stack r)\<lparr>stk_s := s\<rparr>\<rparr>)"
  using with_pop_Cons[of r "s @ [v2]" v1] by (simp add: with_pop2_def with_pop_Cons)

definition stack_room :: "Runtime \<Rightarrow> bool" where
  "stack_room r \<longleftrightarrow> (stk_maxSize (Stack r) > 0 \<longrightarrow> int (length (stk_s (Stack r))) < uint (stk_maxSize (Stack r)))"

lemma int_less_uint: "Suc (Suc l) \<le> unat (m :: u64) \<Longrightarrow> int l < uint m"
  using uint_nat[of m] by linarith

lemma push_room: "stack_room r \<Longrightarrow> push r v = Done (r\<lparr>Stack := (Stack r)\<lparr>stk_s := stk_s (Stack r) @ [v]\<rparr>\<rparr>) None"
  by (auto simp: push_def stack_Push_def stack_room_def)

lemma concat_store_spec:
  assumes room: "room (Memory r) (NextMemoryAddr r) (Suc (chunks (length bs)))" and len: "length bs < 2 ^ 63"
    and stack: "stack_room r"
  obtains m where "concat_store r bs = Done (r\<lparr>Memory := m,
          NextMemoryAddr := NextMemoryAddr r + (1 + chunk_count (of_nat (length bs))),
          Stack := (Stack r)\<lparr>stk_s := stk_s (Stack r) @ [sint (NextMemoryAddr r)]\<rparr>\<rparr>) None"
    and "string_at m (NextMemoryAddr r) bs" "mem_maxSize m = mem_maxSize (Memory r)"
    and "\<And>x. x < NextMemoryAddr r \<Longrightarrow> mem_m m x = mem_m (Memory r) x"
proof -
  note w = write_string[OF room len]
  show thesis
    by (rule that[OF _ w(3-5)])
      (use stack in \<open>simp add: concat_store_def Let_def w(1,2) push_room stack_room_def\<close>)
qed

lemma op_STRCONCAT_spec:
  assumes stk: "stk_s (Stack r) = s @ [p1, p2]" and lim: "stack_limited r"
    and s1: "string_live r (big_Uint64 p1) s1" and s2: "string_live r (big_Uint64 p2) s2"
    and fits: "string_fits r (s1 @ s2)"
  shows "\<exists>r'. op_STRCONCAT r = Done r' None \<and>
    stk_s (Stack r') = s @ [sint (NextMemoryAddr r)] \<and>
    string_at (Memory r') (NextMemoryAddr r) (bytes_of_string (s1 @ s2)) \<and>
    (\<forall>x. x < NextMemoryAddr r \<longrightarrow> mem_m (Memory r') x = mem_m (Memory r) x)"
proof -
  let ?bs = "bytes_of_string s1 @ bytes_of_string s2" and ?r = "r\<lparr>Stack := (Stack r)\<lparr>stk_s := s\<rparr>\<rparr>"
  have bs: "?bs = bytes_of_string (s1 @ s2)" by (simp add: bytes_of_string_def)
  have b1: "mem_Load (Memory r) (big_Uint64 p1) = Ret (int (length s1))"
      "read_bytes (Memory r) (big_Uint64 p1) (big_Uint64 (int (length s1))) = Ret (bytes_of_string s1)"
    using read_bytes_at[of "Memory r" "big_Uint64 p1" "bytes_of_string s1"] s1 by (simp_all add: string_live_def)
  have b2: "mem_Load (Memory r) (big_Uint64 p2) = Ret (int (length s2))"
      "read_bytes (Memory r) (big_Uint64 p2) (big_Uint64 (int (length s2))) = Ret (bytes_of_string s2)"
    using read_bytes_at[of "Memory r" "big_Uint64 p2" "bytes_of_string s2"] s2 by (simp_all add: string_live_def)
  have eq: "op_STRCONCAT r = concat_store ?r ?bs"
    by (simp add: op_STRCONCAT_def with_pop2_Cons[OF stk] Let_def b1 b2)
  have sr: "stack_room ?r"
    using lim stk by (auto simp: stack_room_def stack_limited_def intro: int_less_uint)
  have room: "room (Memory ?r) (NextMemoryAddr ?r) (Suc (chunks (length ?bs)))" "length ?bs < 2 ^ 63"
    using fits by (simp_all add: string_fits_def fresh_room_def)
  obtain m where "concat_store ?r ?bs = Done (?r\<lparr>Memory := m,
          NextMemoryAddr := NextMemoryAddr ?r + (1 + chunk_count (of_nat (length ?bs))),
          Stack := (Stack ?r)\<lparr>stk_s := stk_s (Stack ?r) @ [sint (NextMemoryAddr ?r)]\<rparr>\<rparr>) None"
      "string_at m (NextMemoryAddr ?r) ?bs" "mem_maxSize m = mem_maxSize (Memory ?r)"
      "\<And>x. x < NextMemoryAddr ?r \<Longrightarrow> mem_m m x = mem_m (Memory ?r) x"
    using concat_store_spec[OF room sr] by metis
  with eq bs show ?thesis by simp
qed

section \<open>Properties\<close>

text \<open>
  C36. Strings allocated one after the other by \<open>storeStringInMemory\<close> are all read back by
  \<open>readStringFromMemory\<close> at the addresses it returned, as long as they fit in the memory from the
  allocation pointer on and none is longer than the limit of the reader.
\<close>

theorem stored_strings_readable:
  assumes "room (Memory r) (NextMemoryAddr r) (cells xs)" and "\<forall>x\<in>set xs. length x \<le> 1000000"
    and "store_all storeStringInMemory r xs = (as, r')"
  shows "map (readStringFromMemory r') as = map Some xs"
  using heap.store_all_read[OF strings_fit[OF assms(1,2)] assms(3)] .

theorem stored_strings_readable_witness:
  "map (readStringFromMemory (snd (store_all storeStringInMemory (NewTestRuntime 10 []) [''ab'', ''c''])))
     (fst (store_all storeStringInMemory (NewTestRuntime 10 []) [''ab'', ''c''])) = [Some ''ab'', Some ''c'']"
  using stored_strings_readable[of "NewTestRuntime 10 []" "[''ab'', ''c'']"
      "fst (store_all storeStringInMemory (NewTestRuntime 10 []) [''ab'', ''c''])"
      "snd (store_all storeStringInMemory (NewTestRuntime 10 []) [''ab'', ''c''])"]
  by (simp add: NewTestRuntime_def NewRuntime_def NewRuntimeWithIC_def room_def cells_def chunks_def
      NewMemory_def AVMMaxMemorySize_def)

text \<open>
  \<open>STRCONCAT\<close> of two strings that are allocated replaces their addresses on the stack by the
  address of a new string, which reads as the concatenation; the error it reports is nil and no
  cell below the allocation pointer changes.
\<close>

theorem STRCONCAT_concatenates:
  assumes "stk_s (Stack r) = s @ [p1, p2]" and "stack_limited r"
    and "string_live r (big_Uint64 p1) s1" and "string_live r (big_Uint64 p2) s2"
    and "string_fits r (s1 @ s2)"
  shows "\<exists>r'. exec_op STRCONCAT ins r = Done r' None \<and>
      stk_s (Stack r') = s @ [sint (NextMemoryAddr r)] \<and>
      readStringFromMemory r' (NextMemoryAddr r) = Some (s1 @ s2) \<and>
      (\<forall>x. x < NextMemoryAddr r \<longrightarrow> mem_m (Memory r') x = mem_m (Memory r) x)"
proof -
  obtain r' where "op_STRCONCAT r = Done r' None" "stk_s (Stack r') = s @ [sint (NextMemoryAddr r)]"
    and "string_at (Memory r') (NextMemoryAddr r) (bytes_of_string (s1 @ s2))"
    and "\<forall>x. x < NextMemoryAddr r \<longrightarrow> mem_m (Memory r') x = mem_m (Memory r) x"
    using op_STRCONCAT_spec[OF assms] by blast
  with readString_at[of r' "NextMemoryAddr r" "s1 @ s2"] assms(5) show ?thesis
    by (simp add: string_fits_def)
qed

definition two_strings :: Runtime where
  "two_strings = (snd (store_all storeStringInMemory (NewTestRuntime 10 []) [''ab'', ''c'']))
     \<lparr>Stack := \<lparr>stk_s = [100, 102], stk_maxSize = 1024\<rparr>\<rparr>"

lemma two_strings_live: "string_live two_strings 100 ''ab''" "string_live two_strings 102 ''c''"
proof -
  let ?r = "NewTestRuntime 10 []" and ?xs = "[''ab'', ''c'']"
  have as: "fst (store_all storeStringInMemory ?r ?xs) = [100, 102]" by code_simp
  have "room (Memory ?r) (NextMemoryAddr ?r) (cells ?xs)"
    by (simp add: NewTestRuntime_def NewRuntime_def NewRuntimeWithIC_def room_def cells_def chunks_def
        NewMemory_def AVMMaxMemorySize_def)
  then have "fits_all storeStringInMemory string_fits ?r ?xs" by (rule strings_fit) simp
  from heap.store_all_live[OF this, of "[100, 102]"] as
  show "string_live two_strings 100 ''ab''" "string_live two_strings 102 ''c''"
    by (auto simp: two_strings_def string_live_def prod_eq_iff)
qed

theorem STRCONCAT_concatenates_witness:
  "\<exists>r'. exec_op STRCONCAT (MakeInstruction STRCONCAT) two_strings = Done r' None \<and>
      stk_s (Stack r') = [104] \<and> readStringFromMemory r' 104 = Some ''abc''"
proof -
  have n: "NextMemoryAddr two_strings = 104" by code_simp
  have st: "stk_s (Stack two_strings) = [] @ [100, 102]" by (simp add: two_strings_def)
  have a: "big_Uint64 100 = 100" "big_Uint64 102 = 102" by code_simp+
  have "mem_maxSize (Memory two_strings) = AVMMaxMemorySize" by code_simp
  then have f: "string_fits two_strings (''ab'' @ ''c'')"
    by (simp add: string_fits_def fresh_room_def room_def n chunks_def AVMMaxMemorySize_def)
  have "stack_limited two_strings" by (simp add: two_strings_def stack_limited_def)
  from STRCONCAT_concatenates[OF st this two_strings_live[folded a] f, of "MakeInstruction STRCONCAT"] show ?thesis
    by (auto simp: n)
qed

end
