(* ===== verification/AVM_Runs.thy ===== *)
theory AVM_Runs
  imports AVM_Strings
begin

text \<open>
  Runs of the virtual machine through straight pieces of code and jumps: what generated code does
  is proved with the relation \<open>goes\<close>, which abstracts a runtime to its instruction counter, stack and
  memory, and counts the gas.
\<close>

section \<open>Configurations\<close>

text \<open>
  The runtime \<open>r\<close> at instruction \<open>i\<close>, with the stack \<open>s\<close>, the memory \<open>m\<close>, and a meter that holds the gas left
  and the gas used.
\<close>

type_synonym conf = "nat \<times> int list \<times> memory"

definition at :: "Runtime \<Rightarrow> conf \<Rightarrow> nat \<times> u64 \<Rightarrow> Runtime" where
  "at r c g = (case c of (i, s, m) \<Rightarrow>
     r\<lparr>IC := int i, Stack := (Stack r)\<lparr>stk_s := s\<rparr>, Memory := m, GasAvailable := of_nat (fst g), GasUsed := snd g\<rparr>)"

text \<open>
  With at least \<open>n\<close> units of gas the machine comes from one configuration to the other and spends \<open>n\<close>;
  with less it runs out of gas on the way.
\<close>

definition out_of_gas :: "Runtime \<Rightarrow> bool" where
  "out_of_gas r \<longleftrightarrow> (\<exists>r'. run r = Some (r', Some ErrOutOfGas))"

definition goes :: "Runtime \<Rightarrow> conf \<Rightarrow> nat \<Rightarrow> conf \<Rightarrow> bool" where
  "goes r c n c' \<longleftrightarrow> (\<forall>g u. n + g < 2 ^ 64 \<longrightarrow> run (at r c (n + g, u)) = run (at r c' (g, u + of_nat n))) \<and>
     (\<forall>g u. g < n \<longrightarrow> g < 2 ^ 64 \<longrightarrow> out_of_gas (at r c (g, u)))"

text \<open>A program that fits the instruction counter.\<close>

definition machine :: "Runtime \<Rightarrow> bool" where
  "machine r \<longleftrightarrow> length (Instructions r) < 2 ^ 63"

definition stack_fits :: "Runtime \<Rightarrow> nat \<Rightarrow> bool" where
  "stack_fits r n \<longleftrightarrow> (stk_maxSize (Stack r) > 0 \<longrightarrow> n \<le> unat (stk_maxSize (Stack r)))"

lemma at_simps [simp]:
  "IC (at r (i, s, m) g) = int i" "stk_s (Stack (at r (i, s, m) g)) = s" "Memory (at r (i, s, m) g) = m"
  "Stack (at r (i, s, m) g) = (Stack r)\<lparr>stk_s := s\<rparr>"
  "GasAvailable (at r c g) = of_nat (fst g)" "GasUsed (at r c g) = snd g" "Instructions (at r c g) = Instructions r"
  "FramePointer (at r c g) = FramePointer r" "ReturnStack (at r c g) = ReturnStack r"
  by (simp_all add: at_def split: prod.splits)

lemma at_update [simp]:
  "(at r (i, s, m) g)\<lparr>Stack := (Stack r)\<lparr>stk_s := t\<rparr>\<rparr> = at r (i, t, m) g"
  "(at r (i, s, m) g)\<lparr>IC := int j\<rparr> = at r (j, s, m) g"
  "(at r (i, s, m) g)\<lparr>Memory := m'\<rparr> = at r (i, s, m') g"
  by (simp_all add: at_def)

lemma goes_refl [simp]: "goes r c 0 c"
  by (simp add: goes_def)

lemma goes_run: "goes r c n c' \<Longrightarrow> n \<le> g \<Longrightarrow> g < 2 ^ 64 \<Longrightarrow> run (at r c (g, u)) = run (at r c' (g - n, u + of_nat n))"
  using le_add_diff_inverse[of n g] by (metis goes_def)

lemma goes_out_of_gas: "goes r c n c' \<Longrightarrow> g < n \<Longrightarrow> g < 2 ^ 64 \<Longrightarrow> out_of_gas (at r c (g, u))"
  by (simp add: goes_def)

lemma goes_trans: "goes r c n c' \<Longrightarrow> goes r c' n' c'' \<Longrightarrow> goes r c (n + n') c''"
proof -
  assume 1: "goes r c n c'" and 2: "goes r c' n' c''"
  have "run (at r c (n + n' + g, u)) = run (at r c'' (g, u + of_nat (n + n')))" if "n + n' + g < 2 ^ 64" for g u
    using goes_run[OF 1, of "n + n' + g" u] goes_run[OF 2, of "n' + g" "u + of_nat n"] that by (simp add: add.assoc)
  moreover have "out_of_gas (at r c (g, u))" if g: "g < n + n'" "g < 2 ^ 64" for g u
  proof (cases "g < n")
    case False
    then have "run (at r c (g, u)) = run (at r c' (g - n, u + of_nat n))" using goes_run[OF 1] g(2) by simp
    moreover have "out_of_gas (at r c' (g - n, u + of_nat n))" using goes_out_of_gas[OF 2] False g by simp
    ultimately show ?thesis by (simp add: out_of_gas_def)
  qed (use goes_out_of_gas[OF 1] g in simp)
  ultimately show ?thesis by (simp add: goes_def)
qed

section \<open>Single instructions\<close>

abbreviation price :: "OPCODE \<Rightarrow> nat" where
  "price op \<equiv> unat (gas_price op)"

text \<open>One instruction: it runs when its price can be paid.\<close>

lemma goes_finish:
  assumes i: "i < length (Instructions r)" "Instructions r ! i = ins" "ValidateInstruction ins = None" "Opcode ins = op"
    and fin: "\<And>g u. finish_op op (exec_op op ins (at r (i, s, m) (price op + g, u))) = Some (at r c' (g, u + gas_price op), None)"
  shows "goes r (i, s, m) (price op) c'"
  unfolding goes_def
proof (intro conjI allI impI)
  fix g u
  assume g: "price op + g < 2 ^ 64"
  have "unat (of_nat (price op + g) :: u64) = price op + g" using g by (rule unat_of_nat64)
  then have "\<not> (of_nat (price op + g) :: u64) < gas_price op" by (simp add: word_less_nat_alt)
  then have "ExecuteInstruction (at r (i, s, m) (price op + g, u)) = Some (at r c' (g, u + gas_price op), None)"
    using i fin[of g u] by (simp add: ExecuteInstruction_def Let_def)
  then show "run (at r (i, s, m) (price op + g, u)) = run (at r c' (g, u + of_nat (price op)))"
    using i(1) by (subst run.simps) simp
next
  fix g u
  assume g: "g < price op" "g < 2 ^ 64"
  have "unat (of_nat g :: u64) = g" using g(2) by (rule unat_of_nat64)
  then have "(of_nat g :: u64) < gas_price op" using g(1) by (simp add: word_less_nat_alt)
  then have "ExecuteInstruction (at r (i, s, m) (g, u)) = Some (at r (i, s, m) (g, u), Some ErrOutOfGas)"
    using i by (simp add: ExecuteInstruction_def Let_def)
  then show "out_of_gas (at r (i, s, m) (g, u))"
    using i(1) unfolding out_of_gas_def by (subst run.simps) simp
qed

lemma goes_op:
  assumes "machine r" "i < length (Instructions r)" "Instructions r ! i = ins" "ValidateInstruction ins = None" "Opcode ins = op"
    and "op \<noteq> JUMP" "op \<noteq> JUMPC"
    and fin: "\<And>g. exec_op op ins (at r (i, s, m) g) = Done (at r (i, s', m') g) None"
  shows "goes r (i, s, m) (price op) (Suc i, s', m')"
  by (rule goes_finish[OF assms(2-5)])
    (unfold fin finish_op_def, use assms(1,2,6,7) in \<open>simp add: Let_def at_def machine_def algebra_simps\<close>)

lemma goes_jump:
  assumes "i < length (Instructions r)" "Instructions r ! i = ins" "ValidateInstruction ins = None" "Opcode ins = op"
    and "op = JUMP \<or> op = JUMPC"
    and fin: "\<And>g. exec_op op ins (at r (i, s, m) g) = Done (at r (j, s', m') g) None"
  shows "goes r (i, s, m) (price op) (j, s', m')"
  by (rule goes_finish[OF assms(1-4)])
    (unfold fin finish_op_def, use assms(5) in \<open>auto simp: Let_def at_def algebra_simps\<close>)

section \<open>Instructions of generated code\<close>

lemma stack_fits_mono: "stack_fits r n \<Longrightarrow> k \<le> n \<Longrightarrow> stack_fits r k"
  by (auto simp: stack_fits_def)

lemma stack_fits_less: "stack_fits r (Suc n) \<Longrightarrow> 0 < stk_maxSize (Stack r) \<Longrightarrow> int n < uint (stk_maxSize (Stack r))"
  using uint_nat[of "stk_maxSize (Stack r)"] unfolding stack_fits_def by linarith

lemma push_at: "stack_fits r (Suc (length s)) \<Longrightarrow> push (at r (i, s, m) g) v = Done (at r (i, s @ [v], m) g) None"
  using stack_fits_less[of r "length s"] by (subst push_room) (auto simp: stack_room_def)

lemma with_pop_at: "with_pop (at r (i, s @ [v], m) g) k = k v (at r (i, s, m) g)"
  by (subst with_pop_Cons[of _ s v]) simp_all

lemma with_pop2_at: "with_pop2 (at r (i, s @ [v2, v1], m) g) k = k v1 v2 (at r (i, s, m) g)"
  by (subst with_pop2_Cons[of _ s v2 v1]) simp_all

text \<open>The code of \<open>r\<close> holds the instruction at the index.\<close>

definition has :: "Runtime \<Rightarrow> nat \<Rightarrow> Instruction \<Rightarrow> bool" where
  "has r i ins \<longleftrightarrow> i < length (Instructions r) \<and> Instructions r ! i = ins"

text \<open>An instruction that pushes a number that is not negative.\<close>

definition pushes :: "Instruction \<Rightarrow> int \<Rightarrow> bool" where
  "pushes ins v \<longleftrightarrow> Opcode ins = PUSH \<and> ValidateInstruction ins = None \<and> GetValueAsBigInt ins = Inr v"

lemma goes_PUSH:
  "machine r \<Longrightarrow> has r i ins \<Longrightarrow> pushes ins v \<Longrightarrow> stack_fits r (Suc (length s)) \<Longrightarrow>
   goes r (i, s, m) (price PUSH) (Suc i, s @ [v], m)"
  by (rule goes_op[where ins = ins]) (auto simp: has_def pushes_def op_PUSH_def push_at)

lemma validate_plain: "op \<noteq> PUSH \<Longrightarrow> Valid op \<Longrightarrow> ValidateInstruction (MakeInstruction op) = None"
  by (simp add: ValidateInstruction_def MakeInstruction_def)

lemma goes_plain:
  assumes "machine r" "has r i (MakeInstruction op)" "op \<notin> {PUSH, JUMP, JUMPC}" "Valid op"
    and "\<And>g. exec_op op (MakeInstruction op) (at r (i, s, m) g) = Done (at r (i, s', m') g) None"
  shows "goes r (i, s, m) (price op) (Suc i, s', m')"
  by (rule goes_op[where ins = "MakeInstruction op"])
    (use assms validate_plain[of op] in \<open>auto simp: has_def MakeInstruction_def\<close>)

text \<open>The operations on the two topmost values that touch nothing else.\<close>

definition binary_result :: "OPCODE \<Rightarrow> int \<Rightarrow> int \<Rightarrow> int option" where
  "binary_result op a b = (case op of
      ADD \<Rightarrow> Some (signedAdd a b) | SUB \<Rightarrow> Some (signedSub a b) | MUL \<Rightarrow> Some (signedMul a b)
    | DIV \<Rightarrow> Some (signedDiv a b) | MOD \<Rightarrow> Some (if b = 0 then 0 else big_Mod a b)
    | LT \<Rightarrow> Some (flag (signedCmp a b < 0)) | GT \<Rightarrow> Some (flag (signedCmp a b > 0))
    | _ \<Rightarrow> None)"

lemma goes_binary:
  assumes "machine r" "has r i (MakeInstruction op)" "binary_result op a b = Some v" "stack_fits r (Suc (length s))"
  shows "goes r (i, s @ [a, b], m) (price op) (Suc i, s @ [v], m)"
proof (rule goes_plain[OF assms(1,2)])
  show "op \<notin> {PUSH, JUMP, JUMPC}" "Valid op"
    using assms(3) by (auto simp: binary_result_def Valid_def LAST_def split: OPCODE.splits)
  show "exec_op op (MakeInstruction op) (at r (i, s @ [a, b], m) g) = Done (at r (i, s @ [v], m) g) None" for g
    using assms(3) by (auto simp: binary_result_def op_defs with_pop2_at push_at[OF assms(4)] split: OPCODE.splits)
qed

lemma goes_ISZERO:
  assumes "machine r" "has r i (MakeInstruction ISZERO)" "stack_fits r (Suc (length s))"
  shows "goes r (i, s @ [v], m) (price ISZERO) (Suc i, s @ [flag (v = 0)], m)"
  by (rule goes_plain[OF assms(1,2)]) (simp_all add: op_defs with_pop_at push_at[OF assms(3)] Valid_def LAST_def)

lemma goes_POP: "machine r \<Longrightarrow> has r i (MakeInstruction POP) \<Longrightarrow> goes r (i, s @ [v], m) (price POP) (Suc i, s, m)"
  by (rule goes_plain) (simp_all add: op_defs with_pop_at Valid_def LAST_def)

text \<open>In a memory that has no strings, numbers are compared as numbers.\<close>

definition blank :: "memory \<Rightarrow> bool" where
  "blank m \<longleftrightarrow> mem_m m = Map.empty"

lemma blank_read: "blank (Memory r) \<Longrightarrow> readStringFromMemory r a = Some []"
  by (simp add: readStringFromMemory_def mem_Load_def blank_def big_Uint64_def)

lemma goes_EQ:
  assumes "machine r" "has r i (MakeInstruction EQ)" "blank m" "stack_fits r (Suc (length s))"
  shows "goes r (i, s @ [a, b], m) (price EQ) (Suc i, s @ [flag (a = b)], m)"
proof (rule goes_plain[OF assms(1,2)])
  show "exec_op EQ (MakeInstruction EQ) (at r (i, s @ [a, b], m) g) = Done (at r (i, s @ [flag (a = b)], m) g) None" for g
    using assms(3) by (simp add: op_EQ_def with_pop2_at push_at[OF assms(4)] blank_read Let_def)
qed (simp_all add: Valid_def LAST_def)

lemma goes_SWAP1:
  assumes "machine r" "has r i (MakeInstruction SWAP)"
  shows "goes r (i, s @ [a, b, 1], m) (price SWAP) (Suc i, s @ [b, a], m)"
proof (rule goes_plain[OF assms])
  have 1: "sint (big_Uint64 1) = 1" by (simp add: big_Uint64_def)
  have "stack_Swap ((Stack r)\<lparr>stk_s := s @ [a, b]\<rparr>) 1 = Ret ((Stack r)\<lparr>stk_s := s @ [b, a]\<rparr>)"
    by (simp add: stack_Swap_def stack_Top_def Let_def nth_append list_update_append nat_add_distrib)
  then show "exec_op SWAP (MakeInstruction SWAP) (at r (i, s @ [a, b, 1], m) g) = Done (at r (i, s @ [b, a], m) g) None" for g
    using with_pop_at[of r i "s @ [a, b]" 1 m g] by (simp add: op_SWAP_def 1)
qed (simp_all add: Valid_def LAST_def)

lemma sint_offset: "n < 2 ^ 63 \<Longrightarrow> sint (big_Uint64 (int n)) = int n"
proof -
  assume n: "n < 2 ^ 63"
  have "sint (big_Uint64 (int n)) = signed_take_bit 63 (int n)"
    using big_Uint64_of_nonneg[of "int n"] n by (simp add: sint_uint)
  also have "\<dots> = int n" using n by (intro signed_take_bit_int_eq_self) simp_all
  finally show ?thesis .
qed

lemma below_maxSlots: "n < 2 ^ 45 \<Longrightarrow> \<not> maxSlots \<le> int n" "n < 2 ^ 45 \<Longrightarrow> n < 2 ^ 63"
  by (simp_all add: maxSlots_eq)

lemma goes_LOAD_LOCAL:
  assumes "machine r" "has r i (MakeInstruction LOAD_LOCAL)" "FramePointer r = 0" "n < length s" "length s < 2 ^ 45"
    "stack_fits r (Suc (length s))"
  shows "goes r (i, s @ [int n], m) (price LOAD_LOCAL) (Suc i, s @ [s ! n], m)"
proof (rule goes_plain[OF assms(1,2)])
  have "expand s (int n) = s" using assms(4) by (simp add: expand_def)
  then show "exec_op LOAD_LOCAL (MakeInstruction LOAD_LOCAL) (at r (i, s @ [int n], m) g) = Done (at r (i, s @ [s ! n], m) g) None" for g
    using assms(3-5) below_maxSlots[of n] by (simp add: op_LOAD_LOCAL_def with_pop_at sint_offset push_at[OF assms(6)] Let_def)
qed (simp_all add: Valid_def LAST_def)

lemma goes_STORE_LOCAL:
  assumes "machine r" "has r i (MakeInstruction STORE_LOCAL)" "FramePointer r = 0" "n < 2 ^ 45"
  shows "goes r (i, s @ [v, int n], m) (price STORE_LOCAL) (Suc i, (expand s (int n))[n := v], m)"
proof (rule goes_plain[OF assms(1,2)])
  show "exec_op STORE_LOCAL (MakeInstruction STORE_LOCAL) (at r (i, s @ [v, int n], m) g) =
      Done (at r (i, (expand s (int n))[n := v], m) g) None" for g
    using assms(3,4) below_maxSlots[of n] by (simp add: op_STORE_LOCAL_def with_pop2_at sint_offset Let_def)
qed (simp_all add: Valid_def LAST_def)

lemma goes_JUMP:
  assumes "machine r" "has r i (MakeInstruction JUMP)" "t < length (Instructions r)"
  shows "goes r (i, s @ [int t], m) (price JUMP) (t, s, m)"
proof (rule goes_jump[where ins = "MakeInstruction JUMP"])
  show "exec_op JUMP (MakeInstruction JUMP) (at r (i, s @ [int t], m) g) = Done (at r (t, s, m) g) None" for g
    using assms(1,3) by (simp add: op_JUMP_def with_pop_at sint_offset machine_def Let_def)
qed (use assms(2) validate_plain[of JUMP] in \<open>auto simp: has_def MakeInstruction_def Valid_def LAST_def\<close>)

lemma goes_JUMPC:
  assumes "machine r" "has r i (MakeInstruction JUMPC)" "t < length (Instructions r)"
  shows "goes r (i, s @ [v, int t], m) (price JUMPC) (if v = 1 then t else Suc i, s, m)"
proof (rule goes_jump[where ins = "MakeInstruction JUMPC"])
  have "wrap64 (int i + 1) = int (Suc i)" using assms(1,2) by (simp add: machine_def has_def)
  then show "exec_op JUMPC (MakeInstruction JUMPC) (at r (i, s @ [v, int t], m) g) =
      Done (at r (if v = 1 then t else Suc i, s, m) g) None" for g
    using assms(1,3) at_update(2)[where r = r and i = i and s = s and m = m and g = g and j = "Suc i"]
    by (simp add: op_JUMPC_def with_pop2_at sint_offset machine_def Let_def del: of_nat_Suc)
qed (use assms(2) validate_plain[of JUMPC] in \<open>auto simp: has_def MakeInstruction_def Valid_def LAST_def\<close>)

lemma goes_MSTORE:
  assumes "machine r" "has r i (MakeInstruction MSTORE)" "mem_Store m (big_Uint64 a) v = Ret m'"
  shows "goes r (i, s @ [v, a], m) (price MSTORE) (Suc i, s, m')"
  by (rule goes_plain[OF assms(1,2)]) (simp_all add: op_MSTORE_def with_pop2_at assms(3) Valid_def LAST_def)

text \<open>\<open>RETURN\<close> outside of every call ends the program and leaves the runtime as it is.\<close>

lemma run_RETURN:
  assumes "has r i (MakeInstruction RETURN)" "ReturnStack r = []" "g < 2 ^ 64"
  shows "if price RETURN \<le> g then run (at r (i, s, m) (g, u)) = Some (at r (i, s, m) (g, u), Some ErrProgramStopped)
    else out_of_gas (at r (i, s, m) (g, u))"
proof -
  have "unat (of_nat g :: u64) = g" using assms(3) by (simp add: unat_of_nat64)
  then have "(of_nat g :: u64) < gas_price RETURN \<longleftrightarrow> g < price RETURN" by (simp add: word_less_nat_alt)
  moreover have "ValidateInstruction (MakeInstruction RETURN) = None"
    by (rule validate_plain) (simp_all add: Valid_def LAST_def)
  ultimately have "ExecuteInstruction (at r (i, s, m) (g, u)) =
      Some (at r (i, s, m) (g, u), Some (if price RETURN \<le> g then ErrProgramStopped else ErrOutOfGas))"
    using assms(1,2) by (simp add: ExecuteInstruction_def has_def Let_def MakeInstruction_def op_RETURN_def finish_op_def)
  then show ?thesis using assms(1) unfolding out_of_gas_def by (subst (1 2) run.simps) (simp add: has_def)
qed

lemma goes_returns:
  assumes "goes r c n (k, s, m)" "has r k (MakeInstruction RETURN)" "ReturnStack r = []" "g < 2 ^ 64"
  shows "if n + price RETURN \<le> g
    then run (at r c (g, u)) = Some (at r (k, s, m) (g - n, u + of_nat n), Some ErrProgramStopped)
    else out_of_gas (at r c (g, u))"
proof (cases "g < n")
  case False
  then have "run (at r c (g, u)) = run (at r (k, s, m) (g - n, u + of_nat n))" using goes_run[OF assms(1)] assms(4) by simp
  moreover have "n + price RETURN \<le> g \<longleftrightarrow> price RETURN \<le> g - n" "g - n < 2 ^ 64" using False assms(4) by linarith+
  ultimately show ?thesis using run_RETURN[OF assms(2,3), of "g - n" s m "u + of_nat n"]
    by (cases "price RETURN \<le> g - n") (simp_all add: out_of_gas_def)
qed (use goes_out_of_gas[OF assms(1)] assms(4) in simp)

end
