(* ===== verification/Marigold_Structure.thy ===== *)
theory Marigold_Structure
  imports Marigold_Codegen AVM_Runs
begin

text \<open>
  How the code generator changes its context: expressions only append instructions, statements append
  instructions, reserve offsets for new variables and note the places of their \<open>break\<close> jumps with the
  innermost loop; and what the instructions it emits push.
\<close>

section \<open>Expressions append instructions\<close>

definition same_place :: "CodegenContext \<Rightarrow> CodegenContext \<Rightarrow> bool" where
  "same_place ctx ctx' \<longleftrightarrow> cg_Ast ctx' = cg_Ast ctx \<and> cg_CurrentFunction ctx' = cg_CurrentFunction ctx \<and>
     cg_CurrentScope ctx' = cg_CurrentScope ctx \<and> cg_FunctionIndex ctx' = cg_FunctionIndex ctx"

definition extends :: "CodegenContext \<Rightarrow> CodegenContext \<Rightarrow> bool" where
  "extends ctx ctx' \<longleftrightarrow> same_place ctx ctx' \<and> cg_LoopStack ctx' = cg_LoopStack ctx \<and>
     cg_LocalOffsets ctx' = cg_LocalOffsets ctx \<and> cg_NextLocalOffset ctx' = cg_NextLocalOffset ctx \<and>
     (\<exists>code. cg_Instructions ctx' = cg_Instructions ctx @ code)"

lemma extends_refl [simp]: "extends ctx ctx"
  by (simp add: extends_def same_place_def)

lemma extends_trans: "extends c1 c2 \<Longrightarrow> extends c2 c3 \<Longrightarrow> extends c1 c3"
  by (auto simp: extends_def same_place_def)

lemma extends_emit [simp]:
  "extends c c' \<Longrightarrow> extends c (Emit op c')" "extends c c' \<Longrightarrow> extends c (EmitPush v c')"
  by (auto simp: extends_def same_place_def Emit_def EmitPush_def)

lemma extends_emits [simp]: "extends c c' \<Longrightarrow> extends c (fold Emit ops c')"
  by (induction ops arbitrary: c') auto

lemma extends_register: "RegisterStringLiteral s ctx = (a, ctx') \<Longrightarrow> extends ctx ctx'"
  by (auto simp: RegisterStringLiteral_def Let_def extends_def same_place_def split: option.splits)

lemma extends_parts:
  "generateLiteral vt v ctx = Some ctx' \<Longrightarrow> extends ctx ctx'"
  "generateIdentifier x ctx = Some ctx' \<Longrightarrow> extends ctx ctx'"
  "emit_binary op b ctx = Some ctx' \<Longrightarrow> extends ctx ctx'"
  "emit_unary op ctx = Some ctx' \<Longrightarrow> extends ctx ctx'"
  by (auto simp: generateLiteral_def generateIdentifier_def emit_binary_def emit_unary_def
      dest!: extends_register split: if_splits prod.splits option.splits TokenType.splits)

lemma GenerateExpression_extends:
  "GenerateExpression ctx e = Some ctx' \<Longrightarrow> extends ctx ctx'"
  "generateBinaryExpression ctx e = Some ctx' \<Longrightarrow> extends ctx ctx'"
  "generateUnaryExpression ctx e = Some ctx' \<Longrightarrow> extends ctx ctx'"
  "generateCall ctx e = Some ctx' \<Longrightarrow> extends ctx ctx'"
  "generateIndexExpr ctx e = Some ctx' \<Longrightarrow> extends ctx ctx'"
  "generateSliceExpr ctx e = Some ctx' \<Longrightarrow> extends ctx ctx'"
  "generate_arguments ctx es = Some ctx' \<Longrightarrow> extends ctx ctx'"
proof (induction ctx e and ctx e and ctx e and ctx e and ctx e and ctx e and ctx es
    arbitrary: ctx' and ctx' and ctx' and ctx' and ctx' and ctx' and ctx'
    rule: GenerateExpression_generateBinaryExpression_generateUnaryExpression_generateCall_generateIndexExpr_generateSliceExpr_generate_arguments.induct)
  case (10 ctx op lhs rhs)
  then obtain c d where g: "GenerateExpression ctx lhs = Some c" "GenerateExpression c rhs = Some d"
      "emit_binary op (isStringExpression d lhs \<and> isStringExpression d rhs) d = Some ctx'"
    by (auto simp: bind_eq_Some_conv)
  have "extends ctx c" "extends c d" using 10(1,2) g by simp_all
  with extends_parts(3)[OF g(3)] show ?case by (blast intro: extends_trans)
next
  case (12 ctx op rhs)
  then show ?case by (auto simp: bind_eq_Some_conv intro: extends_trans extends_parts)
next
  case (14 ctx f args)
  show ?case
  proof (cases "builtin f")
    case (Some after)
    with 14 obtain arg c ops where "args = [arg]" "GenerateExpression ctx arg = Some c" "ctx' = fold Emit ops c"
      by (auto simp: bind_eq_Some_conv split: list.splits)
    with 14 Some show ?thesis by simp
  next
    case None
    show ?thesis
    proof (cases "f = ''str_concat''")
      case True
      with 14 None obtain a b c d where "args = [a, b]" "GenerateExpression ctx a = Some c"
        "GenerateExpression c b = Some d" "ctx' = Emit STRCONCAT d"
        by (auto simp: bind_eq_Some_conv split: list.splits)
      moreover from this have "extends ctx c" "extends c d" using 14 None True by simp_all
      ultimately show ?thesis by (auto intro: extends_trans)
    next
      case False
      with 14 None show ?thesis by (auto simp: bind_eq_Some_conv)
    qed
  qed
next
  case (18 ctx lhs sliceStart sliceEnd)
  then obtain c1 c2 c3 where g: "isStringExpression ctx lhs" "GenerateExpression ctx lhs = Some c1"
      "(case sliceStart of Some e \<Rightarrow> GenerateExpression c1 e | None \<Rightarrow> Some (EmitPush (VInt 0) c1)) = Some c2"
      "(case sliceEnd of Some e \<Rightarrow> GenerateExpression c2 e | None \<Rightarrow> Some (EmitPush (VInt 999999) c2)) = Some c3"
      "ctx' = Emit STRSLICE c3"
    by (auto simp: bind_eq_Some_conv split: if_splits)
  have "extends ctx c1" using 18(1) g(1,2) by simp
  moreover have "extends c1 c2" using 18(2) g(1-3) by (cases sliceStart) auto
  moreover have "extends c2 c3" using 18(3) g(1-4) by (cases sliceEnd) auto
  ultimately show ?case using g(5) by (auto intro: extends_trans)
qed (auto simp: bind_eq_Some_conv extends_parts split: if_splits intro: extends_trans)

section \<open>Statements\<close>

text \<open>Distinct variables have distinct offsets below the next free one.\<close>

definition locals_ok :: "CodegenContext \<Rightarrow> bool" where
  "locals_ok ctx \<longleftrightarrow> inj_on (cg_LocalOffsets ctx) (dom (cg_LocalOffsets ctx)) \<and>
     (\<forall>x n. cg_LocalOffsets ctx x = Some n \<longrightarrow> n < cg_NextLocalOffset ctx)"

text \<open>The indices \<open>bs\<close> are noted with the innermost loop.\<close>

fun add_patches :: "nat list \<Rightarrow> LoopContext list \<Rightarrow> LoopContext list" where
  "add_patches bs [] = []"
| "add_patches bs (l # ls) = l\<lparr>BreakPatches := BreakPatches l @ bs\<rparr> # ls"

definition grows :: "CodegenContext \<Rightarrow> CodegenContext \<Rightarrow> nat list \<Rightarrow> bool" where
  "grows ctx ctx' bs \<longleftrightarrow> same_place ctx ctx' \<and>
     (\<exists>code. cg_Instructions ctx' = cg_Instructions ctx @ code) \<and>
     cg_LoopStack ctx' = add_patches bs (cg_LoopStack ctx) \<and> (cg_LoopStack ctx = [] \<longrightarrow> bs = []) \<and>
     (\<forall>j\<in>set bs. here ctx \<le> j \<and> j < here ctx' \<and> Opcode (cg_Instructions ctx' ! j) = PUSH) \<and>
     cg_LocalOffsets ctx \<subseteq>\<^sub>m cg_LocalOffsets ctx' \<and> cg_NextLocalOffset ctx \<le> cg_NextLocalOffset ctx' \<and>
     (locals_ok ctx \<longrightarrow> locals_ok ctx')"

lemma add_patches_Nil [simp]: "add_patches [] ls = ls"
  by (cases ls) auto

lemma add_patches_append: "add_patches bs2 (add_patches bs1 ls) = add_patches (bs1 @ bs2) ls"
  by (cases ls) auto

lemma extends_grows: "extends ctx ctx' \<Longrightarrow> grows ctx ctx' []"
  by (auto simp: extends_def grows_def locals_ok_def)

lemma grows_refl [simp]: "grows ctx ctx []"
  by (simp add: extends_grows)

lemma grows_here: "grows ctx ctx' bs \<Longrightarrow> here ctx \<le> here ctx'"
  by (auto simp: grows_def)

lemma grows_nth: "grows ctx ctx' bs \<Longrightarrow> j < here ctx \<Longrightarrow> cg_Instructions ctx' ! j = cg_Instructions ctx ! j"
  by (auto simp: grows_def nth_append)

lemma grows_trans:
  assumes g: "grows c1 c2 bs1" "grows c2 c3 bs2"
  shows "grows c1 c3 (bs1 @ bs2)"
proof -
  have "here c1 \<le> j \<and> j < here c3 \<and> Opcode (cg_Instructions c3 ! j) = PUSH" if j: "j \<in> set (bs1 @ bs2)" for j
  proof (cases "j \<in> set bs1")
    case True
    then have "here c1 \<le> j" "j < here c2" "Opcode (cg_Instructions c2 ! j) = PUSH" using g(1) by (auto simp: grows_def)
    moreover have "here c2 \<le> here c3" using g(2) by (rule grows_here)
    ultimately show ?thesis using grows_nth[OF g(2)] by simp
  next
    case False
    then have "here c2 \<le> j" "j < here c3" "Opcode (cg_Instructions c3 ! j) = PUSH" using g(2) j by (auto simp: grows_def)
    moreover have "here c1 \<le> here c2" using g(1) by (rule grows_here)
    ultimately show ?thesis by simp
  qed
  then show ?thesis
    using g by (cases "cg_LoopStack c1") (auto simp: grows_def same_place_def intro: map_le_trans)
qed

lemma grows_unique: "grows ctx ctx' bs \<Longrightarrow> grows ctx ctx' bs' \<Longrightarrow> bs = bs'"
proof (cases "cg_LoopStack ctx")
  case (Cons l ls)
  have "BreakPatches (hd (cg_LoopStack ctx')) = BreakPatches l @ bs" if "grows ctx ctx' bs" for bs
    using that Cons by (simp add: grows_def)
  then show "grows ctx ctx' bs \<Longrightarrow> grows ctx ctx' bs' \<Longrightarrow> bs = bs'" by (metis same_append_eq)
qed (simp add: grows_def)

lemma patch_simps [simp]:
  "here (patch i t ctx) = here ctx" "cg_LoopStack (patch i t ctx) = cg_LoopStack ctx"
  "cg_LocalOffsets (patch i t ctx) = cg_LocalOffsets ctx" "cg_NextLocalOffset (patch i t ctx) = cg_NextLocalOffset ctx"
  "same_place c (patch i t ctx) = same_place c ctx" "locals_ok (patch i t ctx) = locals_ok ctx"
  by (simp_all add: patch_def same_place_def locals_ok_def Let_def)

lemma nth_patch: "j < here ctx \<Longrightarrow> cg_Instructions (patch i t ctx) ! j =
    (if j = i then (cg_Instructions ctx ! j)\<lparr>Value := Some (hex_int t)\<rparr> else cg_Instructions ctx ! j)"
  by (simp add: patch_def Let_def nth_list_update)

lemma grows_patch: "grows c ctx bs \<Longrightarrow> here c \<le> i \<Longrightarrow> grows c (patch i t ctx) bs"
proof -
  assume g: "grows c ctx bs" and i: "here c \<le> i"
  then obtain code where code: "cg_Instructions ctx = cg_Instructions c @ code" by (auto simp: grows_def)
  have "cg_Instructions (patch i t ctx) = cg_Instructions c @ drop (here c) (cg_Instructions (patch i t ctx))"
    using i code by (simp add: patch_def Let_def list_update_append)
  moreover have "Opcode (cg_Instructions (patch i t ctx) ! j) = Opcode (cg_Instructions ctx ! j)" if "j < here ctx" for j
    using that by (simp add: nth_patch)
  ultimately show ?thesis using g by (auto simp: grows_def)
qed

lemma grows_patches: "grows c ctx bs \<Longrightarrow> \<forall>i\<in>set is. here c \<le> i \<Longrightarrow> grows c (fold (\<lambda>i. patch i t) is ctx) bs"
  by (induction "is" arbitrary: ctx) (auto intro: grows_patch)

lemma grows_emit [simp]:
  "grows c ctx bs \<Longrightarrow> grows c (Emit op ctx) bs" "grows c ctx bs \<Longrightarrow> grows c (EmitPush v ctx) bs"
  using grows_trans[OF _ extends_grows, of c ctx bs] extends_emit[OF extends_refl] by fastforce+

lemma grows_store_local: "grows ctx (store_local x ctx) []"
proof (cases "cg_LocalOffsets ctx x")
  case None
  let ?c = "ctx\<lparr>cg_LocalOffsets := (cg_LocalOffsets ctx)(x \<mapsto> cg_NextLocalOffset ctx), cg_NextLocalOffset := cg_NextLocalOffset ctx + 1\<rparr>"
  have "locals_ok ?c" if "locals_ok ctx"
  proof -
    have "cg_LocalOffsets ctx y \<noteq> Some (cg_NextLocalOffset ctx)" for y using that by (auto simp: locals_ok_def)
    with that show ?thesis by (fastforce simp: locals_ok_def inj_on_def dom_def split: if_splits)
  qed
  then have "grows ctx ?c []"
    using None by (auto simp: grows_def same_place_def map_le_def)
  with None show ?thesis by (simp add: store_local_def Let_def)
qed (simp add: store_local_def)

lemma grows_assignment: "generateAssignment ctx lhs rhs = Some ctx' \<Longrightarrow> grows ctx ctx' []"
proof -
  assume "generateAssignment ctx lhs rhs = Some ctx'"
  then obtain e c where e: "extends ctx c" and d: "extends c ctx' \<or> (\<exists>x. ctx' = store_local x c)"
    by (cases lhs) (auto simp: generateAssignment_def bind_eq_Some_conv split: if_splits dest!: GenerateExpression_extends(1))
  note g = extends_grows[OF e]
  from d grows_trans[OF g extends_grows, of ctx'] grows_trans[OF g grows_store_local] show ?thesis by auto
qed

lemma grows_simple:
  "generateReturn ctx rhs = Some ctx' \<Longrightarrow> grows ctx ctx' []"
  "generateContinue ctx = Some ctx' \<Longrightarrow> grows ctx ctx' []"
  by (auto simp: generateReturn_def generateContinue_def bind_eq_Some_conv split: option.splits list.splits
      dest!: GenerateExpression_extends(1) intro: extends_grows)

lemma grows_break: "generateBreak ctx = Some ctx' \<Longrightarrow> grows ctx ctx' [here ctx]"
  by (auto simp: generateBreak_def Let_def grows_def same_place_def Emit_def EmitPush_def nth_append locals_ok_def
      MakeInstructionWithValue_def split: list.splits)

text \<open>Entering a block and a loop, and leaving them.\<close>

lemma grows_block:
  assumes "grows (ctx\<lparr>cg_CurrentScope := sc\<rparr>) ctx' bs"
  shows "grows ctx (ctx'\<lparr>cg_CurrentScope := cg_CurrentScope ctx\<rparr>) bs"
  using assms by (simp add: grows_def same_place_def locals_ok_def)

lemma grows_loop:
  assumes g: "grows (ctx\<lparr>cg_LoopStack := \<lparr>ContinueAddr = a, BreakPatches = []\<rparr> # cg_LoopStack ctx\<rparr>) c2 bs"
    and fin: "finish_while a i c2 = Some ctx'"
  shows "ctx' = fold (\<lambda>b. patch b (here c2 + 2)) bs (patch i (here c2 + 2)
      (Emit JUMP (EmitPush (VInt (int a)) (c2\<lparr>cg_LoopStack := cg_LoopStack ctx\<rparr>))))"
    and "grows ctx (c2\<lparr>cg_LoopStack := cg_LoopStack ctx\<rparr>) []" "here ctx' = here c2 + 2"
proof -
  have ls: "cg_LoopStack c2 = \<lparr>ContinueAddr = a, BreakPatches = bs\<rparr> # cg_LoopStack ctx"
    using g by (simp add: grows_def)
  have h: "here (fold (\<lambda>b. patch b t) bs c) = here c" for t c by (induction bs arbitrary: c) auto
  show eq: "ctx' = fold (\<lambda>b. patch b (here c2 + 2)) bs (patch i (here c2 + 2)
      (Emit JUMP (EmitPush (VInt (int a)) (c2\<lparr>cg_LoopStack := cg_LoopStack ctx\<rparr>))))"
    using fin ls by (simp add: finish_while_def Let_def Emit_def EmitPush_def)
  show "grows ctx (c2\<lparr>cg_LoopStack := cg_LoopStack ctx\<rparr>) []"
    using g by (simp add: grows_def same_place_def locals_ok_def)
  show "here ctx' = here c2 + 2" unfolding eq h by (simp add: Emit_def EmitPush_def)
qed

lemma here_emit [simp]: "here (Emit op ctx) = Suc (here ctx)" "here (EmitPush v ctx) = Suc (here ctx)"
  by (simp_all add: Emit_def EmitPush_def)

lemma generateStatement_grows:
  "generateStatement ctx st = Some ctx' \<Longrightarrow> \<exists>bs. grows ctx ctx' bs"
  "generateIf ctx st = Some ctx' \<Longrightarrow> \<exists>bs. grows ctx ctx' bs"
  "generateWhile ctx st = Some ctx' \<Longrightarrow> \<exists>bs. grows ctx ctx' bs"
  "generateBlock ctx b = Some ctx' \<Longrightarrow> \<exists>bs. grows ctx ctx' bs"
  "generate_statements ctx ss = Some ctx' \<Longrightarrow> \<exists>bs. grows ctx ctx' bs"
proof (induction ctx st and ctx st and ctx st and ctx b and ctx ss arbitrary: ctx' and ctx' and ctx' and ctx' and ctx'
    rule: generateStatement_generateIf_generateWhile_generateBlock_generate_statements.induct)
  case (1 ctx vt lhs rhs)
  then show ?case by (auto dest!: grows_assignment)
next
  case (2 ctx rhs)
  then show ?case by (auto dest!: grows_simple(1))
next
  case (8 ctx cond block elseBlock)
  then obtain c1 c3 where g: "GenerateExpression ctx cond = Some c1"
    "generateBlock (Emit JUMPC (EmitPush (VInt 0) (Emit ISZERO c1))) block = Some c3"
    by (auto simp: bind_eq_Some_conv Let_def)
  note c1 = GenerateExpression_extends(1)[OF g(1)]
  obtain bs where "grows (Emit JUMPC (EmitPush (VInt 0) (Emit ISZERO c1))) c3 bs" using 8(1) g by fastforce
  with extends_grows[OF c1] have c3: "grows ctx c3 bs"
    using grows_trans[of ctx "Emit JUMPC (EmitPush (VInt 0) (Emit ISZERO c1))" "[]" c3 bs] by simp
  have J: "here ctx \<le> Suc (here c1)" using grows_here[OF extends_grows[OF c1]] by simp
  show ?case
  proof (cases elseBlock)
    case None
    with 8(3) g grows_patch[OF c3 J] show ?thesis by (auto simp: Let_def)
  next
    case (Some b')
    let ?c = "patch (Suc (here c1)) (Suc (Suc (here c3))) (Emit JUMP (EmitPush (VInt 0) c3))"
    obtain c5 where e: "generateBlock ?c b' = Some c5" "ctx' = patch (here c3) (here c5) c5"
      using 8(3) g Some by (auto simp: bind_eq_Some_conv Let_def)
    obtain bs' where "grows ?c c5 bs'" using 8(2) g Some e(1) by (fastforce simp: Let_def)
    moreover have "grows ctx ?c bs" using c3 J by (intro grows_patch) simp_all
    ultimately have "grows ctx c5 (bs @ bs')" by (rule grows_trans[rotated])
    with grows_here[OF c3] e(2) show ?thesis by (auto intro: grows_patch)
  qed
next
  case (10 ctx cond block)
  then obtain c1 c3 where g: "GenerateExpression ctx cond = Some c1"
    "generateBlock ((Emit JUMPC (EmitPush (VInt 0) (Emit ISZERO c1)))\<lparr>cg_LoopStack :=
       \<lparr>ContinueAddr = here ctx, BreakPatches = []\<rparr> # cg_LoopStack c1\<rparr>) block = Some c3"
    "finish_while (here ctx) (Suc (here c1)) c3 = Some ctx'"
    by (auto simp: bind_eq_Some_conv Let_def Emit_def EmitPush_def)
  let ?c = "Emit JUMPC (EmitPush (VInt 0) (Emit ISZERO c1))"
  have ls: "cg_LoopStack ?c = cg_LoopStack c1" by (simp add: Emit_def EmitPush_def)
  obtain bs where gb: "grows (?c\<lparr>cg_LoopStack := \<lparr>ContinueAddr = here ctx, BreakPatches = []\<rparr> # cg_LoopStack ?c\<rparr>) c3 bs"
    using 10(1) g(1,2) ls by (fastforce simp: Let_def Emit_def EmitPush_def)
  note l = grows_loop[OF gb g(3)]
  have c: "grows ctx ?c []" using extends_grows[OF GenerateExpression_extends(1)[OF g(1)]] by simp
  have "\<forall>b\<in>set bs. here ctx \<le> b" using gb grows_here[OF c] by (auto simp: grows_def)
  moreover have "grows ctx (Emit JUMP (EmitPush (VInt (int (here ctx))) (c3\<lparr>cg_LoopStack := cg_LoopStack ?c\<rparr>))) []"
    using grows_trans[OF c l(2)] by simp
  ultimately show ?case using grows_here[OF c] unfolding l(1)[simplified]
    by (intro exI[of _ "[]"] grows_patches grows_patch) (use grows_here[OF extends_grows[OF GenerateExpression_extends(1)[OF g(1)]]] in simp_all)
next
  case (5 ctx)
  then show ?case by (auto dest!: grows_break)
next
  case (6 ctx)
  then show ?case by (auto dest!: grows_simple(2))
next
  case (7 ctx rhs)
  then show ?case by (auto dest!: GenerateExpression_extends(1) intro!: exI[of _ "[]"] extends_grows)
next
  case (12 ctx stmts vars)
  then show ?case by (fastforce simp: bind_eq_Some_conv Let_def dest: grows_block)
next
  case (13 ctx)
  then show ?case by (auto intro!: exI[of _ "[]"])
next
  case (14 ctx stmt stmts)
  then show ?case by (fastforce simp: bind_eq_Some_conv dest: grows_trans)
qed simp_all

end
