(* ===== verification/Marigold_Semantics.thy ===== *)
theory Marigold_Semantics
  imports Marigold_Structure
begin

text \<open>
  What programs with integer variables mean, independently of the code generator: a value is a 256-bit
  word, every block has a scope of its own, which maps the variables declared in it to values and is gone
  when the block is left, as the type checker has it, and statements end normally, with \<open>break\<close>, with
  \<open>continue\<close> or by returning a value. Where the sources disagree on what an operator gives, a program has
  no meaning here. At the end, the generated code of expressions is proved to compute just this on the
  virtual machine.
\<close>

section \<open>Expressions\<close>

type_synonym store = "string \<rightharpoonup> 256 word"

definition truth :: "bool \<Rightarrow> 256 word" where
  "truth b = (if b then 1 else 0)"

text \<open>
  Values are signed. A quotient has a value only when the division is exact, and a remainder only for a
  dividend that is not negative and a positive divisor: in the other cases the type checker (a quotient
  of integers is a float), the comments of the machine (it truncates) and the machine (it rounds to a
  remainder that is not negative, takes remainders of unsigned numbers, and gives 0 on a zero divisor) do not
  agree on what is meant. A product below \<open>- 2 ^ 256\<close> has no value either, since the machine does not reduce it.
\<close>

definition binary_value :: "TokenType \<Rightarrow> 256 word \<Rightarrow> 256 word \<Rightarrow> 256 word option" where
  "binary_value op a b = (case op of
      TPlus \<Rightarrow> Some (a + b)
    | TMinus \<Rightarrow> Some (a - b)
    | TMultiply \<Rightarrow> if - (2 ^ 256) \<le> sint a * sint b then Some (a * b) else None
    | TDivide \<Rightarrow> if b \<noteq> 0 \<and> sint b dvd sint a then Some (word_of_int (sint a div sint b)) else None
    | TModulo \<Rightarrow> if 0 \<le> sint a \<and> 0 < sint b then Some (word_of_int (sint a mod sint b)) else None
    | TEqual \<Rightarrow> Some (truth (a = b))
    | TNotEqual \<Rightarrow> Some (truth (a \<noteq> b))
    | TLessThan \<Rightarrow> Some (truth (sint a < sint b))
    | TLessEqual \<Rightarrow> Some (truth (sint a \<le> sint b))
    | TGreaterThan \<Rightarrow> Some (truth (sint b < sint a))
    | TGreaterEqual \<Rightarrow> Some (truth (sint b \<le> sint a))
    | _ \<Rightarrow> None)"

definition unary_value :: "TokenType \<Rightarrow> 256 word \<Rightarrow> 256 word option" where
  "unary_value op a = (case op of TMinus \<Rightarrow> Some (- a) | TNot \<Rightarrow> Some (truth (a = 0)) | _ \<Rightarrow> None)"

fun eval :: "store \<Rightarrow> Expression \<Rightarrow> 256 word option" where
  "eval \<sigma> (LiteralExpr vt v) =
     (if vt = TInt then
        (case read_nat 10 v of Some n \<Rightarrow> if 0 \<le> n \<and> n < 2 ^ 256 then Some (word_of_int n) else None | None \<Rightarrow> None)
      else None)"
| "eval \<sigma> (IdentifierExpr x) = (if GetBlockchainContextVariable x = None then \<sigma> x else None)"
| "eval \<sigma> (BinaryExpr op l (Some r)) =
     (case (eval \<sigma> l, eval \<sigma> r) of (Some a, Some b) \<Rightarrow> binary_value op a b | _ \<Rightarrow> None)"
| "eval \<sigma> (UnaryExpr op (Some e)) = (case eval \<sigma> e of Some a \<Rightarrow> unary_value op a | None \<Rightarrow> None)"
| "eval \<sigma> _ = None"

text \<open>How many cells above the variables the code of an expression needs.\<close>

fun depth :: "Expression \<Rightarrow> nat" where
  "depth (BinaryExpr op l (Some r)) = max (depth l) (1 + depth r)"
| "depth (UnaryExpr op (Some e)) = max (depth e) 3"
| "depth _ = 1"

lemma depth_pos: "1 \<le> depth e"
  by (induction e rule: depth.induct) auto

section \<open>Statements\<close>

datatype flow = Normal | Break | Continue | Return "256 word"

text \<open>
  The scopes of the enclosing blocks, the innermost first. A name means the variable of the innermost scope
  that has it, a declaration enters its variable into the innermost scope, and a block starts with an empty
  scope, which is dropped in whatever way the block is left.
\<close>

type_synonym scopes = "store list"

fun lookup :: "scopes \<Rightarrow> store" where
  "lookup [] x = None"
| "lookup (\<sigma> # \<Gamma>) x = (case \<sigma> x of Some w \<Rightarrow> Some w | None \<Rightarrow> lookup \<Gamma> x)"

fun update :: "scopes \<Rightarrow> string \<Rightarrow> 256 word \<Rightarrow> scopes" where
  "update [] x w = []"
| "update (\<sigma> # \<Gamma>) x w = (if \<sigma> x \<noteq> None then \<sigma>(x \<mapsto> w) # \<Gamma> else \<sigma> # update \<Gamma> x w)"

inductive exec :: "scopes \<Rightarrow> Statement \<Rightarrow> flow \<Rightarrow> scopes \<Rightarrow> bool"
  and execs :: "scopes \<Rightarrow> Statement list \<Rightarrow> flow \<Rightarrow> scopes \<Rightarrow> bool" where
  introduce: "eval (lookup (\<sigma> # \<Gamma>)) e = Some w \<Longrightarrow>
    exec (\<sigma> # \<Gamma>) (AssignmentStmt (Some t) (IdentifierExpr x) (Some e)) Normal (\<sigma>(x \<mapsto> w) # \<Gamma>)"
| assign: "eval (lookup \<Gamma>) e = Some w \<Longrightarrow> lookup \<Gamma> x \<noteq> None \<Longrightarrow>
    exec \<Gamma> (AssignmentStmt None (IdentifierExpr x) (Some e)) Normal (update \<Gamma> x w)"
| return: "eval (lookup \<Gamma>) e = Some w \<Longrightarrow> exec \<Gamma> (ReturnStmt (Some e)) (Return w) \<Gamma>"
| return_nothing: "exec \<Gamma> (ReturnStmt None) (Return 0) \<Gamma>"
| expression: "eval (lookup \<Gamma>) e = Some w \<Longrightarrow> exec \<Gamma> (ExpressionStmt e) Normal \<Gamma>"
| if_true: "eval (lookup \<Gamma>) c = Some w \<Longrightarrow> w \<noteq> 0 \<Longrightarrow> execs (Map.empty # \<Gamma>) ss f (\<sigma> # \<Gamma>') \<Longrightarrow>
    exec \<Gamma> (IfStmt c (Block ss vars) eb) f \<Gamma>'"
| if_false: "eval (lookup \<Gamma>) c = Some 0 \<Longrightarrow> exec \<Gamma> (IfStmt c b None) Normal \<Gamma>"
| if_else: "eval (lookup \<Gamma>) c = Some 0 \<Longrightarrow> execs (Map.empty # \<Gamma>) ss f (\<sigma> # \<Gamma>') \<Longrightarrow>
    exec \<Gamma> (IfStmt c b (Some (Block ss vars))) f \<Gamma>'"
| while_false: "eval (lookup \<Gamma>) c = Some 0 \<Longrightarrow> exec \<Gamma> (WhileStmt c b) Normal \<Gamma>"
| while_again: "eval (lookup \<Gamma>) c = Some w \<Longrightarrow> w \<noteq> 0 \<Longrightarrow> execs (Map.empty # \<Gamma>) ss f (\<sigma> # \<Gamma>') \<Longrightarrow> f \<in> {Normal, Continue} \<Longrightarrow>
    exec \<Gamma>' (WhileStmt c (Block ss vars)) f' \<Gamma>'' \<Longrightarrow> exec \<Gamma> (WhileStmt c (Block ss vars)) f' \<Gamma>''"
| while_break: "eval (lookup \<Gamma>) c = Some w \<Longrightarrow> w \<noteq> 0 \<Longrightarrow> execs (Map.empty # \<Gamma>) ss Break (\<sigma> # \<Gamma>') \<Longrightarrow>
    exec \<Gamma> (WhileStmt c (Block ss vars)) Normal \<Gamma>'"
| while_return: "eval (lookup \<Gamma>) c = Some w \<Longrightarrow> w \<noteq> 0 \<Longrightarrow> execs (Map.empty # \<Gamma>) ss (Return v) (\<sigma> # \<Gamma>') \<Longrightarrow>
    exec \<Gamma> (WhileStmt c (Block ss vars)) (Return v) \<Gamma>'"
| break: "exec \<Gamma> BreakStmt Break \<Gamma>"
| continue: "exec \<Gamma> ContinueStmt Continue \<Gamma>"
| nil: "execs \<Gamma> [] Normal \<Gamma>"
| cons: "exec \<Gamma> s Normal \<Gamma>' \<Longrightarrow> execs \<Gamma>' ss f \<Gamma>'' \<Longrightarrow> execs \<Gamma> (s # ss) f \<Gamma>''"
| leave: "exec \<Gamma> s f \<Gamma>' \<Longrightarrow> f \<noteq> Normal \<Longrightarrow> execs \<Gamma> (s # ss) f \<Gamma>'"

text \<open>The stack cells that the code of statements needs.\<close>

fun statement_depth :: "Statement \<Rightarrow> nat" and block_depth :: "Block \<Rightarrow> nat" and list_depth :: "Statement list \<Rightarrow> nat" where
  "statement_depth (AssignmentStmt vt l e) = (case e of Some e \<Rightarrow> max 2 (depth e) | None \<Rightarrow> 0)"
| "statement_depth (ReturnStmt e) = (case e of Some e \<Rightarrow> depth e | None \<Rightarrow> 1)"
| "statement_depth (ExpressionStmt e) = depth e"
| "statement_depth (IfStmt c b eb) = max (max 2 (depth c)) (max (block_depth b) (case eb of Some b \<Rightarrow> block_depth b | None \<Rightarrow> 0))"
| "statement_depth (WhileStmt c b) = max (max 2 (depth c)) (block_depth b)"
| "statement_depth BreakStmt = 1"
| "statement_depth ContinueStmt = 1"
| "block_depth (Block ss vars) = list_depth ss"
| "list_depth [] = 0"
| "list_depth (s # ss) = max (statement_depth s) (list_depth ss)"

text \<open>Blocks whose scopes declare no string.\<close>

definition no_strings :: "Variables \<Rightarrow> bool" where
  "no_strings vars \<longleftrightarrow> (\<forall>x. GetBlockchainContextVariable x = None \<longrightarrow> map_of vars x \<noteq> Some StringType)"

fun ints_statement :: "Statement \<Rightarrow> bool" and ints_block :: "Block \<Rightarrow> bool" and ints_list :: "Statement list \<Rightarrow> bool" where
  "ints_statement (IfStmt c b eb) \<longleftrightarrow> ints_block b \<and> (case eb of Some b \<Rightarrow> ints_block b | None \<Rightarrow> True)"
| "ints_statement (WhileStmt c b) \<longleftrightarrow> ints_block b"
| "ints_statement _ \<longleftrightarrow> True"
| "ints_block (Block ss vars) \<longleftrightarrow> no_strings vars \<and> ints_list ss"
| "ints_list [] \<longleftrightarrow> True"
| "ints_list (s # ss) \<longleftrightarrow> ints_statement s \<and> ints_list ss"

section \<open>Pushed literals\<close>

lemma read_digits_char: "read_digits b s = Some ds \<Longrightarrow> c \<in> set s \<Longrightarrow> \<exists>d. digit_val c = Some d \<and> d < b"
  by (induction s arbitrary: ds) (auto split: option.splits if_splits)

lemma no_param: "CHR '','' \<notin> set s \<Longrightarrow> \<not> str_contains s '',param=''"
  by (induction s) auto

lemma read_nat_SetString: "read_nat b s = Some v \<Longrightarrow> big_SetString s b = Some v"
proof (cases s)
  case (Cons c cs)
  assume v: "read_nat b s = Some v"
  then obtain ds where "read_digits b s = Some ds" by (auto simp: read_nat_def split: if_splits)
  then have "\<exists>d. digit_val c = Some d" using read_digits_char[of b s ds c] Cons by auto
  then have "c \<noteq> CHR ''-''" "c \<noteq> CHR ''+''" by (auto simp: digit_val_def)
  with v Cons show ?thesis by simp
qed (simp add: read_nat_def)

lemma read_nat_no_comma: "read_nat b s = Some v \<Longrightarrow> CHR '','' \<notin> set s"
proof
  assume v: "read_nat b s = Some v" and c: "CHR '','' \<in> set s"
  then obtain ds where "read_digits b s = Some ds" by (auto simp: read_nat_def split: if_splits)
  from read_digits_char[OF this c] show False by (auto simp: digit_val_def)
qed

lemma pushes_hex: "read_nat 16 s = Some v \<Longrightarrow> 0 \<le> v \<Longrightarrow> pushes \<lparr>Opcode = PUSH, Value = Some (''0x'' @ s)\<rparr> v"
  using read_nat_no_comma[of 16 s v] no_param[of "''0x'' @ s"] read_nat_SetString[of 16 s v]
  by (simp add: pushes_def ValidateInstruction_def GetValueAsBigInt_def Valid_def LAST_def)

lemma pushes_dec: "read_nat 10 s = Some v \<Longrightarrow> 0 \<le> v \<Longrightarrow> pushes \<lparr>Opcode = PUSH, Value = Some s\<rparr> v"
proof -
  assume v: "read_nat 10 s = Some v" "0 \<le> v"
  then have s: "s \<noteq> []" by (auto simp: read_nat_def)
  have "\<not> has_prefix s ''0x''"
  proof
    assume "has_prefix s ''0x''"
    then have "CHR ''x'' \<in> set s" by (cases s; cases "tl s") auto
    moreover obtain ds where "read_digits 10 s = Some ds" using v by (auto simp: read_nat_def split: if_splits)
    ultimately have "\<exists>d. digit_val (CHR ''x'') = Some d \<and> d < 10" by (rule read_digits_char[rotated])
    then show False by (simp add: digit_val_def)
  qed
  then show ?thesis
    using v s read_nat_no_comma[of 10 s v] no_param[of s] read_nat_SetString[of 10 s v]
    by (simp add: pushes_def ValidateInstruction_def GetValueAsBigInt_def Valid_def LAST_def)
qed

lemma pushes_int: "0 \<le> n \<Longrightarrow> pushes \<lparr>Opcode = PUSH, Value = Some (''0x'' @ big_Text 16 n)\<rparr> n"
  by (rule pushes_hex) (simp_all add: big_Text_def hex.read_nat_text)

lemma pushes_emitted: "0 \<le> n \<Longrightarrow> pushes (MakeInstructionWithValue PUSH (VInt n)) n"
  using pushes_int[of n] by (simp add: MakeInstructionWithValue_def signed_text_def)

lemma pushes_patched: "Opcode ins = PUSH \<Longrightarrow> pushes (ins\<lparr>Value := Some (hex_int t)\<rparr>) (int t)"
  using pushes_int[of "int t"] by (cases ins) (simp add: hex_int_def)

lemma pushes_literal: "read_nat 10 v = Some n \<Longrightarrow> 0 \<le> n \<Longrightarrow> pushes (MakeInstructionWithValue PUSH (VString v)) n"
  using pushes_dec[of v n] by (auto simp: MakeInstructionWithValue_def read_nat_def)

section \<open>Expressions compute their values\<close>

text \<open>The part of the code of \<open>r\<close> that the generator has appended between two contexts.\<close>

definition holds :: "Runtime \<Rightarrow> CodegenContext \<Rightarrow> nat \<Rightarrow> nat list \<Rightarrow> nat \<Rightarrow> bool" where
  "holds r ctx lo bs brk \<longleftrightarrow> here ctx \<le> length (Instructions r) \<and>
     (\<forall>j. lo \<le> j \<longrightarrow> j < here ctx \<longrightarrow> Instructions r ! j =
        (if j \<in> set bs then (cg_Instructions ctx ! j)\<lparr>Value := Some (hex_int brk)\<rparr> else cg_Instructions ctx ! j))"

lemma holds_has: "holds r ctx lo bs brk \<Longrightarrow> lo \<le> j \<Longrightarrow> j < here ctx \<Longrightarrow> j \<notin> set bs \<Longrightarrow> has r j (cg_Instructions ctx ! j)"
  by (simp add: holds_def has_def)

lemma holds_hole: "holds r ctx lo bs brk \<Longrightarrow> lo \<le> j \<Longrightarrow> j < here ctx \<Longrightarrow> j \<in> set bs \<Longrightarrow>
    has r j ((cg_Instructions ctx ! j)\<lparr>Value := Some (hex_int brk)\<rparr>)"
  by (simp add: holds_def has_def)

lemma holds_split:
  assumes g: "grows c1 c2 bs1" "grows c2 c3 bs2" and h: "holds r c3 (here c1) (bs1 @ bs2) brk"
  shows "holds r c2 (here c1) bs1 brk" "holds r c3 (here c2) bs2 brk"
proof -
  note le = grows_here[OF g(1)] grows_here[OF g(2)]
  have "j \<notin> set bs2" if "j < here c2" for j using g(2) that by (auto simp: grows_def)
  then show "holds r c2 (here c1) bs1 brk"
    using h le grows_nth[OF g(2)] by (auto simp: holds_def)
  have "j \<notin> set bs1" if "here c2 \<le> j" for j using g(1) that by (auto simp: grows_def)
  then show "holds r c3 (here c2) bs2 brk" using h le by (auto simp: holds_def)
qed

lemmas holds_extends = holds_split[where ?bs1.0 = "[]" and ?bs2.0 = "[]", simplified]

lemma holds_emit:
  assumes "holds r (Emit op ctx) lo [] brk" "lo \<le> here ctx"
  shows "has r (here ctx) (MakeInstruction op)" "holds r ctx lo [] brk"
proof -
  show "has r (here ctx) (MakeInstruction op)"
    using holds_has[OF assms(1), of "here ctx"] assms(2) by (simp add: Emit_def)
  show "holds r ctx lo [] brk" using assms by (auto simp: holds_def Emit_def nth_append)
qed

lemma holds_emit_push:
  assumes "holds r (EmitPush v ctx) lo [] brk" "lo \<le> here ctx"
  shows "has r (here ctx) (MakeInstructionWithValue PUSH v)" "holds r ctx lo [] brk"
proof -
  show "has r (here ctx) (MakeInstructionWithValue PUSH v)"
    using holds_has[OF assms(1), of "here ctx"] assms(2) by (simp add: EmitPush_def)
  show "holds r ctx lo [] brk" using assms by (auto simp: holds_def EmitPush_def nth_append)
qed

text \<open>The variables on the stack.\<close>

definition frame :: "(string \<rightharpoonup> nat) \<Rightarrow> store \<Rightarrow> int list \<Rightarrow> bool" where
  "frame L \<sigma> s \<longleftrightarrow> (\<forall>x w. \<sigma> x = Some w \<longrightarrow> (\<exists>n. L x = Some n \<and> n < length s \<and> s ! n = uint w))"

text \<open>
  The machine on which the code of a function runs: outside of calls, with a blank memory, and with
  the offsets \<open>L\<close> of the variables, all below \<open>F\<close>.
\<close>

definition setting :: "Runtime \<Rightarrow> memory \<Rightarrow> (string \<rightharpoonup> nat) \<Rightarrow> nat \<Rightarrow> bool" where
  "setting r m L F \<longleftrightarrow> machine r \<and> FramePointer r = 0 \<and> ReturnStack r = [] \<and> blank m \<and> inj_on L (dom L) \<and>
     (\<forall>x n. L x = Some n \<longrightarrow> n < F)"

lemma word256_uint [simp]: "word256 (uint (w :: 256 word))"
  using unsigned_less[of w, where ?'a = int] by (simp add: word256_def)

lemma uint_truth: "uint (truth b) = flag b"
  by (simp add: truth_def flag_def)

lemma flag_not: "flag (flag b = 0) = flag (\<not> b)"
  by (simp add: flag_def)

lemma uint_inj: "uint (a :: 256 word) = uint b \<longleftrightarrow> a = b"
  by (metis word_uint_eqI)

lemma exact_quotient: "(y :: int) \<noteq> 0 \<Longrightarrow> y dvd x \<Longrightarrow> big_Div x y = x div y"
  by (auto simp: big_Div_def not_less dvd_div_neg)

lemma nonneg_remainder:
  fixes a b :: "256 word"
  assumes "0 \<le> sint a" "0 < sint b"
  shows "word_of_int (sint a mod sint b) = a mod b" and "b \<noteq> 0"
proof -
  have u: "uint w = sint w" if "0 \<le> sint w" for w :: "256 word"
  proof -
    have "sint w < 2 ^ 256" using sint_lt[of w] by simp
    then show ?thesis using that uint_sint[of w] by (simp add: take_bit_int_eq_self)
  qed
  show "word_of_int (sint a mod sint b) = a mod b"
    using u[of a] u[of b] assms by (metis less_imp_le uint_mod word_of_int_uint)
  show "b \<noteq> 0" using assms(2) by auto
qed

text \<open>The machine operations give the values of the operators.\<close>

lemma binary_result_word:
  "binary_result ADD (uint a) (uint b) = Some (uint (a + b))"
  "binary_result SUB (uint a) (uint b) = Some (uint (a - b))"
  "- (2 ^ 256) \<le> sint a * sint b \<Longrightarrow> binary_result MUL (uint a) (uint b) = Some (uint (a * b))"
  "binary_result DIV (uint a) (uint b) = Some (uint (if b = 0 then 0 else W (big_Div (sint a) (sint b))))"
  "binary_result MOD (uint a) (uint b) = Some (uint (if b = 0 then 0 else a mod b))"
  "binary_result LT (uint a) (uint b) = Some (uint (truth (sint a < sint b)))"
  "binary_result GT (uint a) (uint b) = Some (uint (truth (sint b < sint a)))"
  for a b :: "256 word"
proof -
  show "binary_result ADD (uint a) (uint b) = Some (uint (a + b))"
    "binary_result SUB (uint a) (uint b) = Some (uint (a - b))"
    by (simp_all add: binary_result_def signedAdd_word signedSub_word)
  show "- (2 ^ 256) \<le> sint a * sint b \<Longrightarrow> binary_result MUL (uint a) (uint b) = Some (uint (a * b))"
    by (simp add: binary_result_def signedMul_word)
  show "binary_result DIV (uint a) (uint b) = Some (uint (if b = 0 then 0 else W (big_Div (sint a) (sint b))))"
    using signedDiv_word[of "uint a" "uint b"] uint_inj[of b 0]
    by (cases "b = 0") (simp_all add: binary_result_def signedDiv_zero)
  show "binary_result MOD (uint a) (uint b) = Some (uint (if b = 0 then 0 else a mod b))"
    using uint_inj[of b 0] by (simp add: binary_result_def big_Mod_def uint_mod)
  show "binary_result LT (uint a) (uint b) = Some (uint (truth (sint a < sint b)))"
    "binary_result GT (uint a) (uint b) = Some (uint (truth (sint b < sint a)))"
    using sint_W_inject[of "uint a" "uint b"]
    by (auto simp: binary_result_def signedCmp_word uint_truth uint_inj flag_def)
qed

text \<open>In scopes without strings a variable or a literal with an integer value is no string.\<close>

lemma scope_lookup_no_strings:
  "\<forall>vars\<in>set scopes. no_strings vars \<Longrightarrow> GetBlockchainContextVariable x = None \<Longrightarrow> scope_lookup scopes x \<noteq> Some StringType"
  by (induction scopes) (auto simp: no_strings_def split: option.splits)

lemma Type_Equals_String: "Type_Equals t (Some StringType) = Some True \<longleftrightarrow> t = StringType"
  by (cases t) (auto simp: simple_types)

lemma not_string:
  "eval \<sigma> e = Some w \<Longrightarrow> \<forall>vars\<in>set (cg_CurrentScope ctx). no_strings vars \<Longrightarrow> \<not> isStringExpression ctx e"
  using scope_lookup_no_strings[of "cg_CurrentScope ctx"]
  by (cases e) (auto simp: isStringExpression_def Type_Equals_String split: if_splits option.splits)

lemma goes_negate:
  assumes "machine r" "has r i (MakeInstructionWithValue PUSH (VInt 0))" "has r (Suc i) (MakeInstructionWithValue PUSH (VInt 1))"
    "has r (Suc (Suc i)) (MakeInstruction SWAP)" "has r (Suc (Suc (Suc i))) (MakeInstruction SUB)" "stack_fits r (length s + 3)"
  shows "\<exists>c. goes r (i, s @ [uint a], m) c (Suc (Suc (Suc (Suc i))), s @ [uint (- a :: 256 word)], m)"
proof -
  have f: "stack_fits r (Suc (length (s @ [uint a])))" "stack_fits r (Suc (length (s @ [uint a, 0])))" "stack_fits r (Suc (length s))"
    using assms(6) by (auto elim: stack_fits_mono)
  note 1 = goes_PUSH[OF assms(1,2) pushes_emitted f(1), of m, simplified]
  note 2 = goes_PUSH[OF assms(1,3) pushes_emitted f(2), of m, simplified]
  note 3 = goes_SWAP1[OF assms(1,4), of s "uint a" 0 m]
  note 4 = goes_binary[OF assms(1,5) binary_result_word(2)[of 0 a] f(3), of m, simplified]
  from goes_trans[OF goes_trans[OF goes_trans[OF 1 2] 3] 4] show ?thesis by blast
qed

lemma binary_correct:
  assumes m: "machine r" and blank: "blank m" and v: "binary_value op a b = Some w" and g: "emit_binary op False ctx = Some ctx'"
    and h: "holds r ctx' (here ctx) [] brk" and f: "stack_fits r (Suc (length s))"
  shows "\<exists>c. goes r (here ctx, s @ [uint a, uint b], m) c (here ctx', s @ [uint w], m)"
proof -
  have one: "\<exists>c. goes r (here ctx, s @ [uint a, uint b], m) c (here ctx', s @ [uint w], m)"
    if "ctx' = Emit oc ctx" "binary_result oc (uint a) (uint b) = Some (uint w)" for oc
    using goes_binary[OF m _ that(2) f, of "here ctx" m] holds_emit(1)[of r oc ctx "here ctx" brk] h that(1) by auto
  have two: "\<exists>c. goes r (here ctx, s @ [uint a, uint b], m) c (here ctx', s @ [uint w], m)"
    if "ctx' = Emit ISZERO (Emit oc ctx)" "binary_result oc (uint a) (uint b) = Some (flag p)" "w = truth (\<not> p)" for oc p
  proof -
    have "has r (Suc (here ctx)) (MakeInstruction ISZERO)" "has r (here ctx) (MakeInstruction oc)"
      using holds_emit[of r ISZERO "Emit oc ctx" "here ctx" brk] holds_emit[of r oc ctx "here ctx" brk] h that(1) by auto
    with goes_trans[OF goes_binary[OF m _ that(2) f, of "here ctx" m] goes_ISZERO[OF m _ f, of _ "flag p" m]] show ?thesis
      using that by (auto simp: uint_truth flag_not)
  qed
  have eq: "has r (here ctx) (MakeInstruction EQ) \<Longrightarrow>
      goes r (here ctx, s @ [uint a, uint b], m) (price EQ) (Suc (here ctx), s @ [flag (a = b)], m)"
    using goes_EQ[OF m _ blank f, of "here ctx" "uint a" "uint b"] by (simp add: uint_inj)
  note word = binary_result_word(1-3,6,7)[of a b] and le = linorder_not_less[of "sint a" "sint b"] linorder_not_less[of "sint b" "sint a"]
  show ?thesis
  proof (cases op)
    case TDivide
    then have d: "b \<noteq> 0" "sint b dvd sint a" "w = word_of_int (sint a div sint b)" using v by (auto simp: binary_value_def split: if_splits)
    then have "sint b \<noteq> 0" by (simp add: signed_eq_0_iff)
    then have "binary_result DIV (uint a) (uint b) = Some (uint w)" using binary_result_word(4)[of a b] d exact_quotient[of "sint b" "sint a"] by simp
    with one[of DIV] TDivide g show ?thesis by (auto simp: emit_binary_def)
  next
    case TModulo
    then have "0 \<le> sint a" "0 < sint b" "w = word_of_int (sint a mod sint b)" using v by (auto simp: binary_value_def split: if_splits)
    then have "binary_result MOD (uint a) (uint b) = Some (uint w)" using binary_result_word(5)[of a b] nonneg_remainder[of a b] by simp
    with one[of MOD] TModulo g show ?thesis by (auto simp: emit_binary_def)
  next
    case TEqual
    with g v h holds_emit(1)[of r EQ ctx "here ctx" brk] eq show ?thesis
      by (auto simp: emit_binary_def binary_value_def uint_truth)
  next
    case TNotEqual
    then have "has r (Suc (here ctx)) (MakeInstruction ISZERO)" "has r (here ctx) (MakeInstruction EQ)"
      using holds_emit[of r ISZERO "Emit EQ ctx" "here ctx" brk] holds_emit[of r EQ ctx "here ctx" brk] h g
      by (auto simp: emit_binary_def)
    with TNotEqual g v goes_trans[OF eq goes_ISZERO[OF m _ f, of _ "flag (a = b)" m]] show ?thesis
      by (auto simp: emit_binary_def binary_value_def uint_truth flag_not)
  qed (use g v word one two[of GT "sint b < sint a"] two[of LT "sint a < sint b"] le in
      \<open>auto simp: emit_binary_def binary_value_def uint_truth split: if_splits\<close>)
qed

lemma expression_correct:
  assumes "eval \<sigma> e = Some w" "GenerateExpression ctx e = Some ctx'"
    and set: "setting r m L F" "\<forall>vars\<in>set (cg_CurrentScope ctx). no_strings vars" "cg_LocalOffsets ctx \<subseteq>\<^sub>m L"
    and "frame L \<sigma> s" "holds r ctx' (here ctx) [] brk" "stack_fits r (length (s @ t) + depth e)" "length (s @ t) + depth e < 2 ^ 45"
  shows "\<exists>c. goes r (here ctx, s @ t, m) c (here ctx', s @ t @ [uint w], m)"
  using assms
proof (induction \<sigma> e arbitrary: w ctx ctx' t rule: eval.induct)
  case (1 \<sigma> vt v)
  then obtain n where n: "vt = TInt" "read_nat 10 v = Some n" "0 \<le> n" "n < 2 ^ 256" "w = word_of_int n"
    by (auto split: if_splits option.splits)
  then have c: "ctx' = EmitPush (VString v) ctx" "uint w = n"
    using "1.prems"(2) by (auto simp: generateLiteral_def uint_word_of_int)
  have "has r (here ctx) (MakeInstructionWithValue PUSH (VString v))"
    using holds_emit_push(1)[of r "VString v" ctx "here ctx" brk] "1.prems"(7) c(1) by simp
  from goes_PUSH[OF _ this pushes_literal[OF n(2,3)], of "s @ t" m] "1.prems"(3,8) c show ?case
    by (auto simp: setting_def)
next
  case (2 \<sigma> x)
  then have x: "GetBlockchainContextVariable x = None" "\<sigma> x = Some w" by (auto split: if_splits)
  then obtain n where n: "L x = Some n" "n < length s" "s ! n = uint w" using 2(6) by (auto simp: frame_def)
  with x 2(2,5) have c: "ctx' = Emit LOAD_LOCAL (EmitPush (VInt (int n)) ctx)"
    by (auto simp: generateIdentifier_def map_le_def dom_def split: if_splits option.splits)
  then have "has r (here ctx) (MakeInstructionWithValue PUSH (VInt (int n)))" "has r (Suc (here ctx)) (MakeInstruction LOAD_LOCAL)"
    using 2(7) holds_emit[of r LOAD_LOCAL "EmitPush (VInt (int n)) ctx" "here ctx" brk] holds_emit_push(1)[of r "VInt (int n)" ctx "here ctx" brk]
    by auto
  moreover have "n < length (s @ t)" "(s @ t) ! n = uint w" using n by (simp_all add: nth_append)
  ultimately show ?case
    using goes_trans[OF goes_PUSH[OF _ _ pushes_emitted, of r "here ctx" "int n" "s @ t" m] goes_LOAD_LOCAL[of r "Suc (here ctx)" n "s @ t" m]]
      2(3,8,9) c by (auto simp: setting_def)
next
  case (3 \<sigma> op el er)
  then obtain a b where ab: "eval \<sigma> el = Some a" "eval \<sigma> er = Some b" "binary_value op a b = Some w"
    by (auto split: option.splits)
  from 3(4) obtain c1 c2 where c: "GenerateExpression ctx el = Some c1" "GenerateExpression c1 er = Some c2"
      "emit_binary op (isStringExpression c2 el \<and> isStringExpression c2 er) c2 = Some ctx'"
    by (auto simp: bind_eq_Some_conv)
  note x = GenerateExpression_extends(1)[OF c(1)] GenerateExpression_extends(1)[OF c(2)] extends_parts(3)[OF c(3)]
  have sc: "cg_CurrentScope c1 = cg_CurrentScope ctx" "cg_CurrentScope c2 = cg_CurrentScope ctx" "cg_LocalOffsets c1 = cg_LocalOffsets ctx"
    using x by (auto simp: extends_def same_place_def)
  have c3: "emit_binary op False c2 = Some ctx'" using c(3) not_string[OF ab(1), of c2] 3(6) sc by simp
  have h: "holds r c1 (here ctx) [] brk" "holds r c2 (here c1) [] brk" "holds r ctx' (here c2) [] brk"
    using holds_extends[OF extends_grows extends_grows, OF x(1) extends_trans[OF x(2,3)] 3(9)]
      holds_extends[OF extends_grows extends_grows, OF x(2,3)] by auto
  have d: "length (s @ t) + depth el < 2 ^ 45" "stack_fits r (length (s @ t) + depth el)"
    "length (s @ t @ [uint a]) + depth er < 2 ^ 45" "stack_fits r (length (s @ t @ [uint a]) + depth er)" "stack_fits r (Suc (length (s @ t)))"
    using 3(10,11) by (auto elim: stack_fits_mono)
  obtain k1 where k1: "goes r (here ctx, s @ t, m) k1 (here c1, s @ t @ [uint a], m)"
    using 3(1)[OF ab(1) c(1) 3(5-8) h(1) d(2,1)] by blast
  obtain k2 where k2: "goes r (here c1, s @ t @ [uint a], m) k2 (here c2, s @ (t @ [uint a]) @ [uint b], m)"
    using 3(2)[OF ab(2) c(2) 3(5) _ _ 3(8) h(2) d(4,3)] 3(6,7) sc by auto
  obtain k3 where k3: "goes r (here c2, (s @ t) @ [uint a, uint b], m) k3 (here ctx', (s @ t) @ [uint w], m)"
    using binary_correct[OF _ _ ab(3) c3 h(3) d(5), of m] 3(5) unfolding setting_def by blast
  from goes_trans[OF goes_trans[OF k1 k2], of k3 "(here ctx', (s @ t) @ [uint w], m)"] k3 show ?case by auto
next
  case (4 \<sigma> op e)
  then obtain a where a: "eval \<sigma> e = Some a" "unary_value op a = Some w" by (auto split: option.splits)
  from 4(3) obtain c1 where c: "GenerateExpression ctx e = Some c1" "emit_unary op c1 = Some ctx'"
    by (auto simp: bind_eq_Some_conv)
  note x = GenerateExpression_extends(1)[OF c(1)] extends_parts(4)[OF c(2)]
  note h = holds_extends[OF extends_grows extends_grows, OF x 4(8)]
  have d: "length (s @ t) + depth e < 2 ^ 45" "stack_fits r (length (s @ t) + depth e)" "stack_fits r (length (s @ t) + 3)"
    "stack_fits r (Suc (length (s @ t)))"
    using 4(9,10) by (auto elim: stack_fits_mono)
  obtain k1 where k1: "goes r (here ctx, s @ t, m) k1 (here c1, (s @ t) @ [uint a], m)"
    using 4(1)[OF a(1) c(1) 4(4-7) h(1) d(2,1)] by auto
  have mr: "machine r" using 4(4) by (simp add: setting_def)
  consider "op = TMinus" "w = - a" | "op = TNot" "w = truth (a = 0)"
    using a(2) by (cases op) (auto simp: unary_value_def)
  then show ?case
  proof cases
    case 1
    let ?p = "EmitPush (VInt 0) c1"
    have "has r (here c1) (MakeInstructionWithValue PUSH (VInt 0))" "has r (Suc (here c1)) (MakeInstructionWithValue PUSH (VInt 1))"
      "has r (Suc (Suc (here c1))) (MakeInstruction SWAP)" "has r (Suc (Suc (Suc (here c1)))) (MakeInstruction SUB)"
      using h(2) c(2) 1 holds_emit[of r SUB "Emit SWAP (EmitPush (VInt 1) ?p)" "here c1" brk] holds_emit[of r SWAP "EmitPush (VInt 1) ?p" "here c1" brk]
        holds_emit_push[of r "VInt 1" ?p "here c1" brk] holds_emit_push[of r "VInt 0" c1 "here c1" brk]
      by (auto simp: emit_unary_def)
    from goes_negate[OF mr this d(3), of a m] goes_trans[OF k1] c(2) 1 show ?thesis by (fastforce simp: emit_unary_def)
  next
    case 2
    have "has r (here c1) (MakeInstruction ISZERO)"
      using h(2) c(2) 2 holds_emit(1)[of r ISZERO c1 "here c1" brk] by (auto simp: emit_unary_def)
    from goes_trans[OF k1 goes_ISZERO[OF mr this d(4)]] c(2) 2 uint_inj[of a 0] show ?thesis
      by (auto simp: emit_unary_def uint_truth)
  qed
qed auto

end
