(* ===== verification/Marigold_Scopes.thy ===== *)
theory Marigold_Scopes
  imports Marigold_Semantics
begin

text \<open>
  The code generator keeps one cell per name and function, so that the variable of an inner block that is
  declared under a name of an outer one overwrites it. In programs that never declare a name again while it
  is visible there is no difference: whatever they do with scopes, they do with one store per function.
\<close>

section \<open>Programs that hide no variable\<close>

text \<open>\<open>V\<close> are the names that are visible before a statement.\<close>

fun declared :: "Statement \<Rightarrow> string list" where
  "declared (AssignmentStmt (Some t) (IdentifierExpr x) e) = [x]"
| "declared s = []"

fun unshadowed :: "string list \<Rightarrow> Statement \<Rightarrow> bool"
  and unshadowed_block :: "string list \<Rightarrow> Block \<Rightarrow> bool"
  and unshadowed_list :: "string list \<Rightarrow> Statement list \<Rightarrow> bool" where
  "unshadowed V (AssignmentStmt vt l e) \<longleftrightarrow> list_all (\<lambda>x. x \<notin> set V) (declared (AssignmentStmt vt l e))"
| "unshadowed V (IfStmt c b eb) \<longleftrightarrow> unshadowed_block V b \<and> (case eb of Some b \<Rightarrow> unshadowed_block V b | None \<Rightarrow> True)"
| "unshadowed V (WhileStmt c b) \<longleftrightarrow> unshadowed_block V b"
| "unshadowed V _ \<longleftrightarrow> True"
| "unshadowed_block V (Block ss vars) \<longleftrightarrow> unshadowed_list V ss"
| "unshadowed_list V [] \<longleftrightarrow> True"
| "unshadowed_list V (s # ss) \<longleftrightarrow> unshadowed V s \<and> unshadowed_list (declared s @ V) ss"

section \<open>One store per function\<close>

text \<open>The same statements on one store, in which a block leaves its variables behind.\<close>

inductive flat_exec :: "store \<Rightarrow> Statement \<Rightarrow> flow \<Rightarrow> store \<Rightarrow> bool"
  and flat_execs :: "store \<Rightarrow> Statement list \<Rightarrow> flow \<Rightarrow> store \<Rightarrow> bool" where
  assign: "eval \<sigma> e = Some w \<Longrightarrow> flat_exec \<sigma> (AssignmentStmt vt (IdentifierExpr x) (Some e)) Normal (\<sigma>(x \<mapsto> w))"
| return: "eval \<sigma> e = Some w \<Longrightarrow> flat_exec \<sigma> (ReturnStmt (Some e)) (Return w) \<sigma>"
| return_nothing: "flat_exec \<sigma> (ReturnStmt None) (Return 0) \<sigma>"
| expression: "eval \<sigma> e = Some w \<Longrightarrow> flat_exec \<sigma> (ExpressionStmt e) Normal \<sigma>"
| if_true: "eval \<sigma> c = Some w \<Longrightarrow> w \<noteq> 0 \<Longrightarrow> flat_execs \<sigma> ss f \<sigma>' \<Longrightarrow> flat_exec \<sigma> (IfStmt c (Block ss vars) eb) f \<sigma>'"
| if_false: "eval \<sigma> c = Some 0 \<Longrightarrow> flat_exec \<sigma> (IfStmt c b None) Normal \<sigma>"
| if_else: "eval \<sigma> c = Some 0 \<Longrightarrow> flat_execs \<sigma> ss f \<sigma>' \<Longrightarrow> flat_exec \<sigma> (IfStmt c b (Some (Block ss vars))) f \<sigma>'"
| while_false: "eval \<sigma> c = Some 0 \<Longrightarrow> flat_exec \<sigma> (WhileStmt c b) Normal \<sigma>"
| while_again: "eval \<sigma> c = Some w \<Longrightarrow> w \<noteq> 0 \<Longrightarrow> flat_execs \<sigma> ss f \<sigma>' \<Longrightarrow> f \<in> {Normal, Continue} \<Longrightarrow>
    flat_exec \<sigma>' (WhileStmt c (Block ss vars)) f' \<sigma>'' \<Longrightarrow> flat_exec \<sigma> (WhileStmt c (Block ss vars)) f' \<sigma>''"
| while_break: "eval \<sigma> c = Some w \<Longrightarrow> w \<noteq> 0 \<Longrightarrow> flat_execs \<sigma> ss Break \<sigma>' \<Longrightarrow> flat_exec \<sigma> (WhileStmt c (Block ss vars)) Normal \<sigma>'"
| while_return: "eval \<sigma> c = Some w \<Longrightarrow> w \<noteq> 0 \<Longrightarrow> flat_execs \<sigma> ss (Return v) \<sigma>' \<Longrightarrow>
    flat_exec \<sigma> (WhileStmt c (Block ss vars)) (Return v) \<sigma>'"
| break: "flat_exec \<sigma> BreakStmt Break \<sigma>"
| continue: "flat_exec \<sigma> ContinueStmt Continue \<sigma>"
| nil: "flat_execs \<sigma> [] Normal \<sigma>"
| cons: "flat_exec \<sigma> s Normal \<sigma>' \<Longrightarrow> flat_execs \<sigma>' ss f \<sigma>'' \<Longrightarrow> flat_execs \<sigma> (s # ss) f \<sigma>''"
| leave: "flat_exec \<sigma> s f \<sigma>' \<Longrightarrow> f \<noteq> Normal \<Longrightarrow> flat_execs \<sigma> (s # ss) f \<sigma>'"

section \<open>Scopes and the store\<close>

text \<open>Scopes of which no two have a name in common.\<close>

fun separate :: "scopes \<Rightarrow> bool" where
  "separate [] \<longleftrightarrow> True"
| "separate (\<sigma> # \<Gamma>) \<longleftrightarrow> dom \<sigma> \<inter> dom (lookup \<Gamma>) = {} \<and> separate \<Gamma>"

lemma dom_lookup_Cons: "dom (lookup (\<sigma> # \<Gamma>)) = dom \<sigma> \<union> dom (lookup \<Gamma>)"
  by (auto simp: dom_def split: option.splits)

lemma dom_lookup: "dom (lookup \<Gamma>) = \<Union> (set (map dom \<Gamma>))"
  by (induction \<Gamma>) (simp_all add: dom_lookup_Cons del: lookup.simps(2))

lemma lookup_update: "lookup \<Gamma> x \<noteq> None \<Longrightarrow> lookup (update \<Gamma> x w) = (lookup \<Gamma>)(x \<mapsto> w)"
  by (induction \<Gamma>) (auto simp: fun_eq_iff split: option.splits)

lemma dom_update: "map dom (update \<Gamma> x w) = map dom \<Gamma>"
  by (induction \<Gamma>) auto

lemma separate_cong: "map dom \<Gamma> = map dom \<Gamma>' \<Longrightarrow> separate \<Gamma> = separate \<Gamma>'"
proof (induction \<Gamma> arbitrary: \<Gamma>')
  case (Cons \<sigma> \<Gamma>)
  then obtain \<tau> \<Delta> where "\<Gamma>' = \<tau> # \<Delta>" "dom \<sigma> = dom \<tau>" "map dom \<Gamma> = map dom \<Delta>" by (cases \<Gamma>') auto
  with Cons.IH[of \<Delta>] show ?case by (simp add: dom_lookup)
qed simp

lemma eval_mono: "eval \<sigma> e = Some w \<Longrightarrow> \<sigma> \<subseteq>\<^sub>m \<tau> \<Longrightarrow> eval \<tau> e = Some w"
proof (induction \<sigma> e arbitrary: w rule: eval.induct)
  case (2 \<sigma> x)
  then show ?case by (auto simp: map_le_def dom_def split: if_splits)
qed (auto split: option.splits if_splits)

text \<open>Leaving a block: what is visible outside was not touched by the names of the block.\<close>

lemma separate_block: "separate (\<sigma> # \<Gamma>) \<Longrightarrow> lookup (\<sigma> # \<Gamma>) \<subseteq>\<^sub>m \<tau> \<Longrightarrow> lookup \<Gamma> \<subseteq>\<^sub>m \<tau>"
  by (auto simp: map_le_def dom_def disjoint_iff split: option.splits)

lemma separate_enter: "separate \<Gamma> \<Longrightarrow> separate (Map.empty # \<Gamma>)" "lookup (Map.empty # \<Gamma>) = lookup \<Gamma>"
  by (auto simp: fun_eq_iff)

text \<open>
  How a statement on scopes is followed by the same statement on one store \<open>\<sigma>\<close>, which holds all that is
  visible: \<open>V\<close> bounds the visible names before it and \<open>D\<close> those it declares.
\<close>

definition followed_by :: "(store \<Rightarrow> store \<Rightarrow> bool) \<Rightarrow> string list \<Rightarrow> string set \<Rightarrow> scopes \<Rightarrow> scopes \<Rightarrow> bool" where
  "followed_by step V D \<Gamma> \<Gamma>' \<longleftrightarrow> (\<forall>\<sigma>. separate \<Gamma> \<longrightarrow> dom (lookup \<Gamma>) \<subseteq> set V \<longrightarrow> lookup \<Gamma> \<subseteq>\<^sub>m \<sigma> \<longrightarrow>
     separate \<Gamma>' \<and> map dom (tl \<Gamma>') = map dom (tl \<Gamma>) \<and> dom (lookup \<Gamma>') \<subseteq> D \<union> set V \<and>
     (\<exists>\<sigma>'. step \<sigma> \<sigma>' \<and> lookup \<Gamma>' \<subseteq>\<^sub>m \<sigma>'))"

lemma followed_byI:
  assumes "\<And>\<sigma>. separate \<Gamma> \<Longrightarrow> dom (lookup \<Gamma>) \<subseteq> set V \<Longrightarrow> lookup \<Gamma> \<subseteq>\<^sub>m \<sigma> \<Longrightarrow>
    separate \<Gamma>' \<and> map dom (tl \<Gamma>') = map dom (tl \<Gamma>) \<and> dom (lookup \<Gamma>') \<subseteq> D \<union> set V \<and> (\<exists>\<sigma>'. step \<sigma> \<sigma>' \<and> lookup \<Gamma>' \<subseteq>\<^sub>m \<sigma>')"
  shows "followed_by step V D \<Gamma> \<Gamma>'"
  using assms by (auto simp: followed_by_def)

lemma followed_same: "(\<And>\<sigma>. lookup \<Gamma> \<subseteq>\<^sub>m \<sigma> \<Longrightarrow> step \<sigma> \<sigma>) \<Longrightarrow> followed_by step V D \<Gamma> \<Gamma>"
  by (rule followed_byI) auto

lemma followed_block:
  assumes "followed_by P V UNIV (Map.empty # \<Gamma>) (\<tau> # \<Gamma>')" "\<And>\<sigma> \<sigma>'. lookup \<Gamma> \<subseteq>\<^sub>m \<sigma> \<Longrightarrow> P \<sigma> \<sigma>' \<Longrightarrow> step \<sigma> \<sigma>'"
  shows "followed_by step V D \<Gamma> \<Gamma>'"
proof (rule followed_byI)
  fix \<sigma> assume g: "separate \<Gamma>" "dom (lookup \<Gamma>) \<subseteq> set V" "lookup \<Gamma> \<subseteq>\<^sub>m \<sigma>"
  with assms(1) separate_enter[of \<Gamma>] obtain \<sigma>' where s: "separate (\<tau> # \<Gamma>')" "map dom \<Gamma>' = map dom \<Gamma>" "P \<sigma> \<sigma>'" "lookup (\<tau> # \<Gamma>') \<subseteq>\<^sub>m \<sigma>'"
    unfolding followed_by_def by (metis list.sel(3))
  have "dom (lookup \<Gamma>') = dom (lookup \<Gamma>)" using s(2) by (simp only: dom_lookup)
  moreover have "map dom (tl \<Gamma>') = map dom (tl \<Gamma>)" using s(2) by (simp only: map_tl)
  ultimately show "separate \<Gamma>' \<and> map dom (tl \<Gamma>') = map dom (tl \<Gamma>) \<and> dom (lookup \<Gamma>') \<subseteq> D \<union> set V \<and> (\<exists>\<sigma>'. step \<sigma> \<sigma>' \<and> lookup \<Gamma>' \<subseteq>\<^sub>m \<sigma>')"
    using s g assms(2)[OF g(3) s(3)] separate_block[OF s(1,4)] by auto
qed

lemma followed_seq:
  assumes "followed_by P V D \<Gamma> \<Gamma>'" "followed_by Q U E \<Gamma>' \<Gamma>''" "D \<union> set V \<subseteq> set U" "E \<union> set U \<subseteq> D' \<union> set V"
    "\<And>\<sigma> \<sigma>' \<sigma>''. lookup \<Gamma> \<subseteq>\<^sub>m \<sigma> \<Longrightarrow> P \<sigma> \<sigma>' \<Longrightarrow> Q \<sigma>' \<sigma>'' \<Longrightarrow> step \<sigma> \<sigma>''"
  shows "followed_by step V D' \<Gamma> \<Gamma>''"
proof (rule followed_byI)
  fix \<sigma> assume g: "separate \<Gamma>" "dom (lookup \<Gamma>) \<subseteq> set V" "lookup \<Gamma> \<subseteq>\<^sub>m \<sigma>"
  with assms(1) obtain \<sigma>' where s: "separate \<Gamma>'" "map dom (tl \<Gamma>') = map dom (tl \<Gamma>)" "dom (lookup \<Gamma>') \<subseteq> D \<union> set V" "P \<sigma> \<sigma>'" "lookup \<Gamma>' \<subseteq>\<^sub>m \<sigma>'"
    unfolding followed_by_def by blast
  with assms(2,3) obtain \<sigma>'' where "separate \<Gamma>''" "map dom (tl \<Gamma>'') = map dom (tl \<Gamma>')" "dom (lookup \<Gamma>'') \<subseteq> E \<union> set U" "Q \<sigma>' \<sigma>''" "lookup \<Gamma>'' \<subseteq>\<^sub>m \<sigma>''"
    unfolding followed_by_def by (meson subset_trans)
  with s assms(4) assms(5)[OF g(3) s(4)] show "separate \<Gamma>'' \<and> map dom (tl \<Gamma>'') = map dom (tl \<Gamma>) \<and> dom (lookup \<Gamma>'') \<subseteq> D' \<union> set V \<and> (\<exists>\<sigma>'. step \<sigma> \<sigma>' \<and> lookup \<Gamma>'' \<subseteq>\<^sub>m \<sigma>')"
    by auto
qed

lemma followed_introduce:
  assumes "eval (lookup (\<tau> # \<Gamma>)) e = Some w" "x \<notin> set V"
  shows "followed_by (\<lambda>\<sigma> \<sigma>'. flat_exec \<sigma> (AssignmentStmt vt (IdentifierExpr x) (Some e)) Normal \<sigma>') V {x} (\<tau> # \<Gamma>) (\<tau>(x \<mapsto> w) # \<Gamma>)"
proof (rule followed_byI)
  fix \<sigma> assume g: "separate (\<tau> # \<Gamma>)" "dom (lookup (\<tau> # \<Gamma>)) \<subseteq> set V" "lookup (\<tau> # \<Gamma>) \<subseteq>\<^sub>m \<sigma>"
  have l: "lookup (\<tau>(x \<mapsto> w) # \<Gamma>) = (lookup (\<tau> # \<Gamma>))(x \<mapsto> w)" by (auto simp: fun_eq_iff)
  have "x \<notin> dom (lookup \<Gamma>)" using g(2) assms(2) by (auto simp: dom_lookup_Cons simp del: lookup.simps)
  then have "separate (\<tau>(x \<mapsto> w) # \<Gamma>)" using g(1) by auto
  moreover have "lookup (\<tau>(x \<mapsto> w) # \<Gamma>) \<subseteq>\<^sub>m \<sigma>(x \<mapsto> w)" unfolding l using g(3) by (rule map_le_upd)
  moreover have "flat_exec \<sigma> (AssignmentStmt vt (IdentifierExpr x) (Some e)) Normal (\<sigma>(x \<mapsto> w))"
    by (rule flat_exec_flat_execs.assign[OF eval_mono[OF assms(1) g(3)]])
  moreover have "dom (lookup (\<tau>(x \<mapsto> w) # \<Gamma>)) \<subseteq> {x} \<union> set V" unfolding l using g(2) by (simp del: lookup.simps) blast
  ultimately show "separate (\<tau>(x \<mapsto> w) # \<Gamma>) \<and> map dom (tl (\<tau>(x \<mapsto> w) # \<Gamma>)) = map dom (tl (\<tau> # \<Gamma>)) \<and>
      dom (lookup (\<tau>(x \<mapsto> w) # \<Gamma>)) \<subseteq> {x} \<union> set V \<and>
      (\<exists>\<sigma>'. flat_exec \<sigma> (AssignmentStmt vt (IdentifierExpr x) (Some e)) Normal \<sigma>' \<and> lookup (\<tau>(x \<mapsto> w) # \<Gamma>) \<subseteq>\<^sub>m \<sigma>')"
    by (simp only: list.sel) blast
qed

lemma followed_assign:
  assumes "eval (lookup \<Gamma>) e = Some w" "lookup \<Gamma> x \<noteq> None"
  shows "followed_by (\<lambda>\<sigma> \<sigma>'. flat_exec \<sigma> (AssignmentStmt vt (IdentifierExpr x) (Some e)) Normal \<sigma>') V D \<Gamma> (update \<Gamma> x w)"
proof (rule followed_byI)
  fix \<sigma> assume g: "separate \<Gamma>" "dom (lookup \<Gamma>) \<subseteq> set V" "lookup \<Gamma> \<subseteq>\<^sub>m \<sigma>"
  have "lookup (update \<Gamma> x w) \<subseteq>\<^sub>m \<sigma>(x \<mapsto> w)" unfolding lookup_update[OF assms(2)] using g(3) by (rule map_le_upd)
  moreover have "flat_exec \<sigma> (AssignmentStmt vt (IdentifierExpr x) (Some e)) Normal (\<sigma>(x \<mapsto> w))"
    by (rule flat_exec_flat_execs.assign[OF eval_mono[OF assms(1) g(3)]])
  moreover have "separate (update \<Gamma> x w)" using g(1) separate_cong[OF dom_update[of \<Gamma> x w]] by blast
  moreover have "dom (lookup (update \<Gamma> x w)) = dom (lookup \<Gamma>)" by (simp only: dom_lookup dom_update)
  moreover have "map dom (tl (update \<Gamma> x w)) = map dom (tl \<Gamma>)" using dom_update[of \<Gamma> x w] by (metis map_tl)
  ultimately show "separate (update \<Gamma> x w) \<and> map dom (tl (update \<Gamma> x w)) = map dom (tl \<Gamma>) \<and> dom (lookup (update \<Gamma> x w)) \<subseteq> D \<union> set V \<and>
      (\<exists>\<sigma>'. flat_exec \<sigma> (AssignmentStmt vt (IdentifierExpr x) (Some e)) Normal \<sigma>' \<and> lookup (update \<Gamma> x w) \<subseteq>\<^sub>m \<sigma>')"
    using g(2) by blast
qed

lemma scopes_flat:
  "exec \<Gamma> st f \<Gamma>' \<Longrightarrow> unshadowed V st \<Longrightarrow> followed_by (\<lambda>\<sigma> \<sigma>'. flat_exec \<sigma> st f \<sigma>') V (set (declared st)) \<Gamma> \<Gamma>'"
  "execs \<Gamma> ss f \<Gamma>' \<Longrightarrow> unshadowed_list V ss \<Longrightarrow> followed_by (\<lambda>\<sigma> \<sigma>'. flat_execs \<sigma> ss f \<sigma>') V UNIV \<Gamma> \<Gamma>'"
proof (induction arbitrary: V and V rule: exec_execs.inducts)
  case (introduce \<tau> \<Gamma> e w t x)
  then show ?case using followed_introduce[of \<tau> \<Gamma> e w x V "Some t"] by simp
next
  case (assign \<Gamma> e w x)
  then show ?case by (simp add: followed_assign)
next
  case (return \<Gamma> e w)
  show ?case by (rule followed_same, rule flat_exec_flat_execs.return, rule eval_mono[OF return.hyps(1)])
next
  case (return_nothing \<Gamma>)
  then show ?case by (auto intro!: followed_same flat_exec_flat_execs.return_nothing)
next
  case (expression \<Gamma> e w)
  show ?case by (rule followed_same, rule flat_exec_flat_execs.expression, rule eval_mono[OF expression.hyps(1)])
next
  case (if_true \<Gamma> c w ss f \<tau> \<Gamma>' vars eb)
  then show ?case by (intro followed_block[OF if_true.IH]) (auto intro: flat_exec_flat_execs.if_true eval_mono)
next
  case (if_false \<Gamma> c b)
  show ?case by (rule followed_same, rule flat_exec_flat_execs.if_false, rule eval_mono[OF if_false.hyps(1)])
next
  case (if_else \<Gamma> c ss f \<tau> \<Gamma>' b vars)
  then show ?case by (intro followed_block[OF if_else.IH]) (auto intro: flat_exec_flat_execs.if_else eval_mono)
next
  case (while_false \<Gamma> c b)
  show ?case by (rule followed_same, rule flat_exec_flat_execs.while_false, rule eval_mono[OF while_false.hyps(1)])
next
  case (while_again \<Gamma> c w ss f \<tau> \<Gamma>' vars f' \<Gamma>'')
  have "followed_by (\<lambda>\<sigma> \<sigma>'. flat_execs \<sigma> ss f \<sigma>') V {} \<Gamma> \<Gamma>'"
    by (rule followed_block[OF while_again.IH(1)]) (use while_again.prems in auto)
  then show ?case
  proof (rule followed_seq[OF _ while_again.IH(2)[OF while_again.prems]])
    fix \<sigma> \<sigma>' \<sigma>''
    assume "lookup \<Gamma> \<subseteq>\<^sub>m \<sigma>" "flat_execs \<sigma> ss f \<sigma>'" "flat_exec \<sigma>' (WhileStmt c (Block ss vars)) f' \<sigma>''"
    then show "flat_exec \<sigma> (WhileStmt c (Block ss vars)) f' \<sigma>''"
      using flat_exec_flat_execs.while_again[OF eval_mono[OF while_again.hyps(1)] while_again.hyps(2) _ while_again.hyps(4)] by blast
  qed simp_all
next
  case (while_break \<Gamma> c w ss \<tau> \<Gamma>' vars)
  then show ?case by (intro followed_block[OF while_break.IH]) (auto intro: flat_exec_flat_execs.while_break eval_mono)
next
  case (while_return \<Gamma> c w ss v \<tau> \<Gamma>' vars)
  then show ?case by (intro followed_block[OF while_return.IH]) (auto intro: flat_exec_flat_execs.while_return eval_mono)
next
  case (break \<Gamma>)
  then show ?case by (auto intro!: followed_same flat_exec_flat_execs.break)
next
  case (continue \<Gamma>)
  then show ?case by (auto intro!: followed_same flat_exec_flat_execs.continue)
next
  case (nil \<Gamma>)
  then show ?case by (auto intro!: followed_same flat_exec_flat_execs.nil)
next
  case (cons \<Gamma> s \<Gamma>' ss f \<Gamma>'')
  have "followed_by (\<lambda>\<sigma> \<sigma>'. flat_execs \<sigma> ss f \<sigma>') (declared s @ V) UNIV \<Gamma>' \<Gamma>''" using cons by simp
  moreover have "unshadowed V s" using cons.prems by simp
  ultimately show ?case
  proof (intro followed_seq[OF cons.IH(1)])
    show "flat_exec \<sigma> s Normal \<sigma>' \<Longrightarrow> flat_execs \<sigma>' ss f \<sigma>'' \<Longrightarrow> flat_execs \<sigma> (s # ss) f \<sigma>''" for \<sigma> \<sigma>' \<sigma>''
      by (rule flat_exec_flat_execs.cons)
  qed (use cons.prems in auto)
next
  case (leave \<Gamma> s f \<Gamma>' ss)
  then have "followed_by (\<lambda>\<sigma> \<sigma>'. flat_exec \<sigma> s f \<sigma>') V (set (declared s)) \<Gamma> \<Gamma>'" by simp
  then show ?case unfolding followed_by_def using flat_exec_flat_execs.leave[OF _ leave.hyps(2)] by blast
qed

text \<open>A function starts in an empty scope.\<close>

lemma function_flat:
  assumes "execs [Map.empty] ss f \<Gamma>" "unshadowed_list [] ss"
  shows "\<exists>\<sigma>. flat_execs Map.empty ss f \<sigma>"
  using scopes_flat(2)[OF assms] by (auto simp: followed_by_def)

section \<open>An example\<close>

text \<open>
  \<open>x : int = 1 if 1 == 1 { x : int = 2 } return x\<close> returns 1: the assignment in the block makes a variable of
  its own. The compiled code returns 2; the program declares a name that is visible, so that the theorems
  on compiled code do not speak of it.
\<close>

definition shadowing_body :: "Statement list" where
  "shadowing_body =
     [AssignmentStmt (Some IntType) (IdentifierExpr ''x'') (Some (LiteralExpr TInt ''1'')),
      IfStmt (BinaryExpr TEqual (LiteralExpr TInt ''1'') (Some (LiteralExpr TInt ''1'')))
        (Block [AssignmentStmt (Some IntType) (IdentifierExpr ''x'') (Some (LiteralExpr TInt ''2''))] []) None,
      ReturnStmt (Some (IdentifierExpr ''x''))]"

lemma shadowing_body_value: "execs [Map.empty] shadowing_body (Return 1) [[''x'' \<mapsto> 1]]" "\<not> unshadowed_list [] shadowing_body"
proof -
  have l: "eval \<sigma> (LiteralExpr TInt ''1'') = Some 1" "eval \<sigma> (LiteralExpr TInt ''2'') = Some 2" for \<sigma>
    by (simp_all add: read_nat_def digit_val_def pos_value_def)
  have c: "eval \<sigma> (BinaryExpr TEqual (LiteralExpr TInt ''1'') (Some (LiteralExpr TInt ''1''))) = Some 1" for \<sigma>
    using l by (simp add: binary_value_def truth_def del: eval.simps(1))
  have b: "execs [Map.empty, [''x'' \<mapsto> 1]] [AssignmentStmt (Some IntType) (IdentifierExpr ''x'') (Some (LiteralExpr TInt ''2''))] Normal
      [[''x'' \<mapsto> 2], [''x'' \<mapsto> 1]]"
    by (rule exec_execs.cons[OF exec_execs.introduce[OF l(2)] exec_execs.nil])
  have r: "execs [[''x'' \<mapsto> 1]] [ReturnStmt (Some (IdentifierExpr ''x''))] (Return 1) [[''x'' \<mapsto> 1]]"
    by (rule exec_execs.leave[OF exec_execs.return]) (simp_all add: GetBlockchainContextVariable_def)
  show "execs [Map.empty] shadowing_body (Return 1) [[''x'' \<mapsto> 1]]"
    unfolding shadowing_body_def
    by (rule exec_execs.cons[OF exec_execs.introduce[OF l(1)] exec_execs.cons[OF exec_execs.if_true[OF c _ b] r]]) simp
  show "\<not> unshadowed_list [] shadowing_body" by (simp add: shadowing_body_def)
qed

end
