(* ===== verification/Marigold_Correct.thy ===== *)
theory Marigold_Correct
  imports Marigold_Scopes
begin

text \<open>
  The correctness of the generated code: run on the virtual machine, the code of a statement has the
  effect that the semantics on one store per function of \<open>Marigold_Scopes\<close> gives it, with all jumps patched to
  the right places.
\<close>

section \<open>The code of statements\<close>

lemma nth_patches: "j < here c \<Longrightarrow> cg_Instructions (fold (\<lambda>b. patch b t) bs c) ! j =
    (if j \<in> set bs then (cg_Instructions c ! j)\<lparr>Value := Some (hex_int t)\<rparr> else cg_Instructions c ! j)"
  by (induction bs arbitrary: c) (auto simp: nth_patch)

lemma patches_simps [simp]:
  "here (fold (\<lambda>b. patch b t) bs c) = here c"
  "cg_LocalOffsets (fold (\<lambda>b. patch b t) bs c) = cg_LocalOffsets c"
  "cg_LoopStack (fold (\<lambda>b. patch b t) bs c) = cg_LoopStack c"
  by (induction bs arbitrary: c) auto

lemma emit_simps [simp]:
  "cg_LocalOffsets (Emit op c) = cg_LocalOffsets c" "cg_LocalOffsets (EmitPush v c) = cg_LocalOffsets c"
  "cg_LoopStack (Emit op c) = cg_LoopStack c" "cg_LoopStack (EmitPush v c) = cg_LoopStack c"
  "cg_CurrentScope (Emit op c) = cg_CurrentScope c" "cg_CurrentScope (EmitPush v c) = cg_CurrentScope c"
  by (simp_all add: Emit_def EmitPush_def)

lemma nth_emit: "j \<le> here c \<Longrightarrow> cg_Instructions (Emit op c) ! j = (if j = here c then MakeInstruction op else cg_Instructions c ! j)"
    "j \<le> here c \<Longrightarrow> cg_Instructions (EmitPush v c) ! j = (if j = here c then MakeInstructionWithValue PUSH v else cg_Instructions c ! j)"
  by (auto simp: Emit_def EmitPush_def nth_append)

lemma Opcode_push [simp]: "Opcode (MakeInstructionWithValue PUSH v) = PUSH"
  by (simp add: MakeInstructionWithValue_def Let_def)

lemma grows_same_loops: "grows ctx ctx' bs \<Longrightarrow> cg_LoopStack ctx' = cg_LoopStack ctx \<Longrightarrow> bs = []"
proof (cases "cg_LoopStack ctx")
  case (Cons l ls)
  assume "grows ctx ctx' bs" "cg_LoopStack ctx' = cg_LoopStack ctx"
  then have "BreakPatches (hd (cg_LoopStack ctx)) = BreakPatches l @ bs" using Cons by (metis grows_def add_patches.simps(2) list.sel(1) LoopContext.select_convs(2) LoopContext.surjective LoopContext.update_convs(2))
  then show ?thesis using Cons by simp
qed (simp add: grows_def)

lemma grows_patches_eq:
  "cg_LoopStack ctx' = add_patches bs' (cg_LoopStack ctx) \<Longrightarrow> cg_LoopStack ctx = [] \<longrightarrow> bs' = [] \<Longrightarrow> grows ctx ctx' bs \<Longrightarrow> bs' = bs"
proof (cases "cg_LoopStack ctx")
  case (Cons l ls)
  have "BreakPatches (hd (cg_LoopStack ctx')) = BreakPatches l @ bs" if "cg_LoopStack ctx' = add_patches bs (cg_LoopStack ctx)" for bs
    using that Cons by simp
  then show "cg_LoopStack ctx' = add_patches bs' (cg_LoopStack ctx) \<Longrightarrow> grows ctx ctx' bs \<Longrightarrow> bs' = bs"
    by (metis grows_def same_append_eq)
qed (simp add: grows_def)

text \<open>The context in which the body of a conditional or a loop is generated.\<close>

definition body_context :: "CodegenContext \<Rightarrow> Variables \<Rightarrow> LoopContext list \<Rightarrow> CodegenContext" where
  "body_context c1 vars loops =
     (Emit JUMPC (EmitPush (VInt 0) (Emit ISZERO c1)))\<lparr>cg_LoopStack := loops, cg_CurrentScope := vars # cg_CurrentScope c1\<rparr>"

lemma body_context_simps [simp]:
  "here (body_context c1 vars loops) = Suc (Suc (Suc (here c1)))" "cg_LoopStack (body_context c1 vars loops) = loops"
  "cg_CurrentScope (body_context c1 vars loops) = vars # cg_CurrentScope c1"
  "cg_LocalOffsets (body_context c1 vars loops) = cg_LocalOffsets c1"
  by (simp_all add: body_context_def Emit_def EmitPush_def)

lemma body_context_nth:
  "j < here c1 \<Longrightarrow> cg_Instructions (body_context c1 vars loops) ! j = cg_Instructions c1 ! j"
  "cg_Instructions (body_context c1 vars loops) ! here c1 = MakeInstruction ISZERO"
  "cg_Instructions (body_context c1 vars loops) ! Suc (here c1) = MakeInstructionWithValue PUSH (VInt 0)"
  "cg_Instructions (body_context c1 vars loops) ! Suc (Suc (here c1)) = MakeInstruction JUMPC"
  by (auto simp: body_context_def nth_append Emit_def EmitPush_def)

text \<open>What a conditional jump over a body consists of, up to its body.\<close>

definition test_code :: "Runtime \<Rightarrow> CodegenContext \<Rightarrow> nat \<Rightarrow> bool" where
  "test_code r c1 t \<longleftrightarrow> has r (here c1) (MakeInstruction ISZERO) \<and>
     (\<exists>ins. has r (Suc (here c1)) ins \<and> pushes ins (int t)) \<and> has r (Suc (Suc (here c1))) (MakeInstruction JUMPC)"

lemma while_code:
  assumes gen: "generateStatement ctx (WhileStmt c (Block ss vars)) = Some ctx'" and g: "grows ctx ctx' bs"
    and h: "holds r ctx' (here ctx) bs brk"
  obtains c1 c3 bs' where "GenerateExpression ctx c = Some c1" "holds r c1 (here ctx) [] brk" "test_code r c1 (here ctx')"
    "generate_statements (body_context c1 vars (\<lparr>ContinueAddr = here ctx, BreakPatches = []\<rparr> # cg_LoopStack c1)) ss = Some c3"
    "grows (body_context c1 vars (\<lparr>ContinueAddr = here ctx, BreakPatches = []\<rparr> # cg_LoopStack c1)) c3 bs'"
    "holds r c3 (here c1 + 3) bs' (here ctx')"
    "has r (here c3) (MakeInstructionWithValue PUSH (VInt (int (here ctx))))" "has r (Suc (here c3)) (MakeInstruction JUMP)"
    "cg_LocalOffsets ctx' = cg_LocalOffsets c3" "here ctx' = here c3 + 2"
proof -
  obtain c1 c3 where c: "GenerateExpression ctx c = Some c1"
    "generate_statements (body_context c1 vars (\<lparr>ContinueAddr = here ctx, BreakPatches = []\<rparr> # cg_LoopStack c1)) ss = Some c3"
    "finish_while (here ctx) (Suc (here c1)) (c3\<lparr>cg_CurrentScope := cg_CurrentScope c1\<rparr>) = Some ctx'"
    using gen by (auto simp: bind_eq_Some_conv Let_def body_context_def Emit_def EmitPush_def)
  let ?b = "body_context c1 vars (\<lparr>ContinueAddr = here ctx, BreakPatches = []\<rparr> # cg_LoopStack c1)"
  obtain bs' where bs': "grows ?b c3 bs'" using generateStatement_grows(5)[OF c(2)] by blast
  let ?c3 = "c3\<lparr>cg_CurrentScope := cg_CurrentScope c1, cg_LoopStack := cg_LoopStack c1\<rparr>"
  have "cg_LoopStack c3 = \<lparr>ContinueAddr = here ctx, BreakPatches = bs'\<rparr> # cg_LoopStack c1" using bs' by (simp add: grows_def)
  then have eq: "ctx' = fold (\<lambda>b. patch b (here c3 + 2)) bs' (patch (Suc (here c1)) (here c3 + 2)
      (Emit JUMP (EmitPush (VInt (int (here ctx))) ?c3)))"
    using c(3) by (simp add: finish_while_def Let_def Emit_def EmitPush_def)
  then have len: "here ctx' = here c3 + 2" "cg_LocalOffsets ctx' = cg_LocalOffsets c3" by simp_all
  have x: "extends ctx c1" using GenerateExpression_extends(1)[OF c(1)] .
  have le: "here ctx \<le> here c1" "here c1 + 3 \<le> here c3" using grows_here[OF extends_grows[OF x]] grows_here[OF bs'] by simp_all
  have "bs = []" using grows_same_loops[OF g] eq x by (simp add: extends_def)
  then have h': "has r j (cg_Instructions ctx' ! j)" if "here ctx \<le> j" "j < here ctx'" for j
    using holds_has[OF h that] by simp
  have out: "j \<notin> set bs'" if "j < here c1 + 3 \<or> here c3 \<le> j" for j using bs' that by (auto simp: grows_def)
  have nth: "cg_Instructions ctx' ! j =
      (if j \<in> set bs' \<or> j = Suc (here c1) then (cg_Instructions c3 ! j)\<lparr>Value := Some (hex_int (here ctx'))\<rparr> else cg_Instructions c3 ! j)"
    if "j < here c3" for j
    using that unfolding len unfolding eq by (auto simp: nth_patches nth_patch nth_emit)
  have nthb: "cg_Instructions c3 ! j = cg_Instructions ?b ! j" if "j < here c1 + 3" for j
    using grows_nth[OF bs'] that by simp
  have top: "here ctx' \<le> length (Instructions r)" using h by (simp add: holds_def)
  show thesis
  proof (rule that[OF c(1) _ _ c(2) bs' _ _ _ len(2,1)])
    show "holds r c1 (here ctx) [] brk"
      using h' le len out nth nthb top unfolding holds_def has_def by (auto simp: body_context_nth)
    show "test_code r c1 (here ctx')"
      using h'[of "here c1"] h'[of "Suc (here c1)"] h'[of "Suc (Suc (here c1))"] le len out nth nthb
        pushes_patched[of "MakeInstructionWithValue PUSH (VInt 0)" "here ctx'"]
      by (auto simp: test_code_def body_context_nth)
    show "holds r c3 (here c1 + 3) bs' (here ctx')"
      using h' le len nth top unfolding holds_def has_def by auto
    show "has r (here c3) (MakeInstructionWithValue PUSH (VInt (int (here ctx))))"
      using h'[of "here c3"] le len out[of "here c3"] unfolding eq by (simp add: nth_patches nth_patch nth_emit)
    show "has r (Suc (here c3)) (MakeInstruction JUMP)"
      using h'[of "Suc (here c3)"] le len out[of "Suc (here c3)"] unfolding eq by (simp add: nth_patches nth_patch nth_emit)
  qed
qed

lemma if_code:
  assumes gen: "generateStatement ctx (IfStmt c (Block ss vars) None) = Some ctx'" and g: "grows ctx ctx' bs"
    and h: "holds r ctx' (here ctx) bs brk"
  obtains c1 c3 where "GenerateExpression ctx c = Some c1" "holds r c1 (here ctx) [] brk" "test_code r c1 (here ctx')"
    "generate_statements (body_context c1 vars (cg_LoopStack c1)) ss = Some c3"
    "grows (body_context c1 vars (cg_LoopStack c1)) c3 bs" "holds r c3 (here c1 + 3) bs brk"
    "cg_LocalOffsets ctx' = cg_LocalOffsets c3" "here ctx' = here c3"
proof -
  obtain c1 c3 where c: "GenerateExpression ctx c = Some c1"
    "generate_statements (body_context c1 vars (cg_LoopStack c1)) ss = Some c3"
    and eq: "ctx' = patch (Suc (here c1)) (here c3) (c3\<lparr>cg_CurrentScope := cg_CurrentScope c1\<rparr>)"
    using gen by (auto simp: bind_eq_Some_conv Let_def body_context_def Emit_def EmitPush_def)
  let ?b = "body_context c1 vars (cg_LoopStack c1)"
  obtain bs' where b: "grows ?b c3 bs'" using generateStatement_grows(5)[OF c(2)] by blast
  have x: "extends ctx c1" using GenerateExpression_extends(1)[OF c(1)] .
  have len: "here ctx' = here c3" "cg_LocalOffsets ctx' = cg_LocalOffsets c3" by (simp_all add: eq)
  have "cg_LoopStack ctx' = add_patches bs' (cg_LoopStack ctx)" using eq b x by (simp add: grows_def extends_def)
  moreover have "cg_LoopStack ctx = [] \<longrightarrow> bs' = []" using b x by (simp add: grows_def extends_def)
  ultimately have bs': "bs' = bs" using g grows_patches_eq by blast
  note b = b[unfolded bs']
  have le: "here ctx \<le> here c1" "here c1 + 3 \<le> here c3" using grows_here[OF extends_grows[OF x]] grows_here[OF b] by simp_all
  have out: "j \<notin> set bs" if "j < here c1 + 3" for j using b that by (auto simp: grows_def)
  have nth: "cg_Instructions ctx' ! j =
      (if j = Suc (here c1) then (cg_Instructions c3 ! j)\<lparr>Value := Some (hex_int (here ctx'))\<rparr> else cg_Instructions c3 ! j)"
    if "j < here c3" for j
    using that unfolding len unfolding eq by (auto simp: nth_patch)
  have nthb: "cg_Instructions c3 ! j = cg_Instructions ?b ! j" if "j < here c1 + 3" for j using grows_nth[OF b] that by simp
  have h': "has r j (cg_Instructions ctx' ! j)" if "here ctx \<le> j" "j < here c1 + 3" for j
    using holds_has[OF h that(1)] that le len out by simp
  have top: "here ctx' \<le> length (Instructions r)" using h by (simp add: holds_def)
  show thesis
  proof (rule that[OF c(1) _ _ c(2) b _ len(2,1)])
    show "holds r c1 (here ctx) [] brk"
      using h' le len nth nthb top unfolding holds_def has_def by (auto simp: body_context_nth)
    show "test_code r c1 (here ctx')"
      using h'[of "here c1"] h'[of "Suc (here c1)"] h'[of "Suc (Suc (here c1))"] le len nth nthb
      by (auto simp: test_code_def body_context_nth intro!: exI pushes_patched)
    show "holds r c3 (here c1 + 3) bs brk" using h le len nth unfolding holds_def by auto
  qed
qed

lemma if_else_code:
  assumes gen: "generateStatement ctx (IfStmt c (Block ss vars) (Some (Block ss' vars'))) = Some ctx'" and g: "grows ctx ctx' bs"
    and h: "holds r ctx' (here ctx) bs brk"
  obtains c1 c3 c4 c5 bs1 bs2 where "GenerateExpression ctx c = Some c1" "holds r c1 (here ctx) [] brk" "test_code r c1 (here c4)"
    "generate_statements (body_context c1 vars (cg_LoopStack c1)) ss = Some c3"
    "grows (body_context c1 vars (cg_LoopStack c1)) c3 bs1" "holds r c3 (here c1 + 3) bs1 brk"
    "\<exists>ins. has r (here c3) ins \<and> pushes ins (int (here ctx'))" "has r (Suc (here c3)) (MakeInstruction JUMP)"
    "here c4 = here c3 + 2" "cg_CurrentScope c4 = vars' # cg_CurrentScope c1" "cg_LocalOffsets c4 = cg_LocalOffsets c3"
    "map ContinueAddr (cg_LoopStack c4) = map ContinueAddr (cg_LoopStack c1)"
    "generate_statements c4 ss' = Some c5" "grows c4 c5 bs2" "holds r c5 (here c4) bs2 brk"
    "cg_LocalOffsets ctx' = cg_LocalOffsets c5" "here ctx' = here c5"
proof -
  obtain c1 c3 where c: "GenerateExpression ctx c = Some c1"
    "generate_statements (body_context c1 vars (cg_LoopStack c1)) ss = Some c3"
    using gen by (auto simp: bind_eq_Some_conv Let_def body_context_def Emit_def EmitPush_def)
  let ?b = "body_context c1 vars (cg_LoopStack c1)"
  let ?c = "patch (Suc (here c1)) (here c3 + 2) (Emit JUMP (EmitPush (VInt 0) (c3\<lparr>cg_CurrentScope := cg_CurrentScope c1\<rparr>)))"
  define c4 where "c4 = ?c\<lparr>cg_CurrentScope := vars' # cg_CurrentScope c1\<rparr>"
  obtain c5 where c5: "generate_statements c4 ss' = Some c5"
    and eq: "ctx' = patch (here c3) (here c5) (c5\<lparr>cg_CurrentScope := cg_CurrentScope c1\<rparr>)"
    using gen c by (auto simp: bind_eq_Some_conv Let_def body_context_def Emit_def EmitPush_def c4_def patch_def)
  obtain bs1 where b1: "grows ?b c3 bs1" using generateStatement_grows(5)[OF c(2)] by blast
  obtain bs2 where b2: "grows c4 c5 bs2" using generateStatement_grows(5)[OF c5] by blast
  have x: "extends ctx c1" using GenerateExpression_extends(1)[OF c(1)] .
  have c4: "here c4 = here c3 + 2" "cg_CurrentScope c4 = vars' # cg_CurrentScope c1" "cg_LocalOffsets c4 = cg_LocalOffsets c3"
    "cg_LoopStack c4 = cg_LoopStack c3"
    by (simp_all add: c4_def patch_def Let_def Emit_def EmitPush_def)
  have len: "here ctx' = here c5" "cg_LocalOffsets ctx' = cg_LocalOffsets c5" by (simp_all add: eq)
  have "cg_LoopStack ctx' = add_patches (bs1 @ bs2) (cg_LoopStack ctx)"
    using eq b1 b2 x c4(4) by (simp add: grows_def extends_def add_patches_append)
  moreover have "cg_LoopStack ctx = [] \<longrightarrow> bs1 @ bs2 = []" using b1 b2 x c4(4) by (auto simp: grows_def extends_def)
  ultimately have bs: "bs1 @ bs2 = bs" using g grows_patches_eq by blast
  have le: "here ctx \<le> here c1" "here c1 + 3 \<le> here c3" "here c3 + 2 \<le> here c5"
    using grows_here[OF extends_grows[OF x]] grows_here[OF b1] grows_here[OF b2] c4(1) by simp_all
  have in1: "here c1 + 3 \<le> j \<and> j < here c3" if "j \<in> set bs1" for j using b1 that by (auto simp: grows_def)
  have in2: "here c3 + 2 \<le> j" if "j \<in> set bs2" for j using b2 c4(1) that by (auto simp: grows_def)
  have nth: "cg_Instructions ctx' ! j =
      (if j = Suc (here c1) then (cg_Instructions c3 ! j)\<lparr>Value := Some (hex_int (here c4))\<rparr> else cg_Instructions c3 ! j)"
    if "j < here c3" for j
    using that le grows_nth[OF b2, of j] unfolding c4(1) unfolding eq by (auto simp: nth_patch nth_emit c4_def)
  have nth3: "cg_Instructions ctx' ! here c3 = (MakeInstructionWithValue PUSH (VInt 0))\<lparr>Value := Some (hex_int (here ctx'))\<rparr>"
    "cg_Instructions ctx' ! Suc (here c3) = MakeInstruction JUMP"
    using le grows_nth[OF b2, of "here c3"] grows_nth[OF b2, of "Suc (here c3)"] unfolding eq
    by (auto simp: nth_patch nth_emit c4_def)
  have nthb: "cg_Instructions c3 ! j = cg_Instructions ?b ! j" if "j < here c1 + 3" for j using grows_nth[OF b1] that by simp
  have h': "has r j (cg_Instructions ctx' ! j)" if "here ctx \<le> j" "j < here c5" "j \<notin> set bs1" "j \<notin> set bs2" for j
    using holds_has[OF h that(1)] that bs len by auto
  have top: "here ctx' \<le> length (Instructions r)" using h by (simp add: holds_def)
  have free: "j \<notin> set bs1" "j \<notin> set bs2" if "j < here c1 + 3 \<or> j = here c3 \<or> j = Suc (here c3)" for j
    using that in1[of j] in2[of j] le by auto
  show thesis
  proof (rule that[OF c(1) _ _ c(2) b1 _ _ _ c4(1-3) _ c5 b2 _ len(2,1)])
    show "holds r c1 (here ctx) [] brk"
      using h' le len nth nthb top free unfolding holds_def has_def by (auto simp: body_context_nth)
    show "test_code r c1 (here c4)"
      using h'[of "here c1"] h'[of "Suc (here c1)"] h'[of "Suc (Suc (here c1))"] le len nth nthb free
      by (auto simp: test_code_def body_context_nth intro!: exI pushes_patched)
    show "\<exists>ins. has r (here c3) ins \<and> pushes ins (int (here ctx'))"
      using h'[of "here c3"] le nth3(1) free[of "here c3"] pushes_patched[of "MakeInstructionWithValue PUSH (VInt 0)" "here ctx'"] by auto
    show "has r (Suc (here c3)) (MakeInstruction JUMP)"
      using h'[of "Suc (here c3)"] le nth3(2) free[of "Suc (here c3)"] by simp
    show "map ContinueAddr (cg_LoopStack c4) = map ContinueAddr (cg_LoopStack c1)"
      using b1 c4(4) by (cases "cg_LoopStack c1") (auto simp: grows_def)
    show "holds r c3 (here c1 + 3) bs1 brk"
      using h le len nth in2 top bs unfolding holds_def by (fastforce)
    show "holds r c5 (here c4) bs2 brk"
      using h le len in1 top bs c4(1) unfolding holds_def eq by (fastforce simp: nth_patch)
  qed
qed

section \<open>Statements have their effect\<close>

text \<open>The situation before the code of a statement that was generated from \<open>ctx\<close> to \<open>ctx'\<close>.\<close>

definition ready :: "Runtime \<Rightarrow> memory \<Rightarrow> (string \<rightharpoonup> nat) \<Rightarrow> nat \<Rightarrow> CodegenContext \<Rightarrow> CodegenContext \<Rightarrow> nat list \<Rightarrow> nat \<Rightarrow> bool" where
  "ready r m L F ctx ctx' bs brk \<longleftrightarrow> setting r m L F \<and> grows ctx ctx' bs \<and> holds r ctx' (here ctx) bs brk \<and>
     cg_LocalOffsets ctx' \<subseteq>\<^sub>m L \<and> (\<forall>vars\<in>set (cg_CurrentScope ctx). no_strings vars) \<and>
     (cg_LoopStack ctx \<noteq> [] \<longrightarrow> brk < length (Instructions r) \<and> ContinueAddr (hd (cg_LoopStack ctx)) < length (Instructions r))"

text \<open>Where control goes, and the store that the stack holds then.\<close>

definition reaches :: "Runtime \<Rightarrow> memory \<Rightarrow> (string \<rightharpoonup> nat) \<Rightarrow> nat \<Rightarrow> nat \<Rightarrow> int list \<Rightarrow> nat \<Rightarrow> nat \<Rightarrow> nat \<Rightarrow> flow \<Rightarrow> store \<Rightarrow> bool" where
  "reaches r m L F i s i' brk cont f \<sigma> \<longleftrightarrow> (\<exists>c s'. frame L \<sigma> s' \<and> length s' \<le> F \<and> (case f of
      Normal \<Rightarrow> goes r (i, s, m) c (i', s', m)
    | Break \<Rightarrow> goes r (i, s, m) c (brk, s', m)
    | Continue \<Rightarrow> goes r (i, s, m) c (cont, s', m)
    | Return w \<Rightarrow> \<exists>k. goes r (i, s, m) c (k, s' @ [uint w], m) \<and> has r k (MakeInstruction RETURN)))"

definition fits :: "Runtime \<Rightarrow> nat \<Rightarrow> nat \<Rightarrow> bool" where
  "fits r F d \<longleftrightarrow> stack_fits r (F + d) \<and> F + d < 2 ^ 45"

lemma fits_mono: "fits r F d \<Longrightarrow> d' \<le> d \<Longrightarrow> fits r F d'"
  by (auto simp: fits_def elim: stack_fits_mono)

lemma reaches_after:
  "goes r (i, s, m) c (i', s', m) \<Longrightarrow> reaches r m L F i' s' j brk cont f \<sigma> \<Longrightarrow> reaches r m L F i s j brk cont f \<sigma>"
  unfolding reaches_def by (cases f) (auto, (meson goes_trans)+)

lemma expression_in_frame:
  assumes "eval \<sigma> e = Some w" "GenerateExpression ctx e = Some c1" "setting r m L F"
    "\<forall>vars\<in>set (cg_CurrentScope ctx). no_strings vars" "cg_LocalOffsets ctx \<subseteq>\<^sub>m L" "frame L \<sigma> s"
    "holds r c1 (here ctx) [] brk" "fits r F (depth e)" "length s \<le> F"
  shows "\<exists>c. goes r (here ctx, s, m) c (here c1, s @ [uint w], m)"
  using expression_correct[OF assms(1-7), of "[]"] assms(8,9) stack_fits_mono[of r "F + depth e" "length s + depth e"]
  by (simp add: fits_def)

text \<open>A test jumps over the body when the condition is zero and goes on with the body otherwise.\<close>

lemma test_correct:
  assumes "eval \<sigma> e = Some w" "GenerateExpression ctx e = Some c1" "setting r m L F"
    "\<forall>vars\<in>set (cg_CurrentScope ctx). no_strings vars" "cg_LocalOffsets ctx \<subseteq>\<^sub>m L" "frame L \<sigma> s"
    "holds r c1 (here ctx) [] brk" "fits r F (max 2 (depth e))" "length s \<le> F" "test_code r c1 t" "t < length (Instructions r)"
  shows "\<exists>c. goes r (here ctx, s, m) c (if w = 0 then t else here c1 + 3, s, m)"
proof -
  have "fits r F (depth e)" using assms(8) by (rule fits_mono) simp
  then obtain k where k: "goes r (here ctx, s, m) k (here c1, s @ [uint w], m)"
    using expression_in_frame[OF assms(1-7) _ assms(9)] by blast
  obtain ins where code: "has r (here c1) (MakeInstruction ISZERO)" "has r (Suc (here c1)) ins" "pushes ins (int t)"
    "has r (Suc (Suc (here c1))) (MakeInstruction JUMPC)" using assms(10) by (auto simp: test_code_def)
  have m: "machine r" using assms(3) by (simp add: setting_def)
  have st: "stack_fits r (Suc (length s))" "stack_fits r (Suc (length (s @ [flag (uint w = 0)])))"
    using assms(8,9) by (auto simp: fits_def elim: stack_fits_mono)
  note go = goes_trans[OF goes_trans[OF goes_trans[OF k goes_ISZERO[OF m code(1) st(1)]] goes_PUSH[OF m code(2,3) st(2)]],
      simplified, OF goes_JUMPC[OF m code(4) assms(11)]]
  have "(flag (uint w = 0) = 1) = (w = 0)" using uint_inj[of w 0] by (simp add: flag_def)
  with go show ?thesis by (auto simp: eval_nat_numeral)
qed

lemma frame_store:
  assumes "frame L \<sigma> s" "L x = Some n" "inj_on L (dom L)"
  shows "frame L (\<sigma>(x \<mapsto> w)) ((expand s (int n))[n := uint w])"
proof -
  have len: "length s \<le> length (expand s (int n))" "n < length (expand s (int n))" by (auto simp: expand_def)
  have "\<exists>k. L y = Some k \<and> k < length ((expand s (int n))[n := uint w]) \<and> (expand s (int n))[n := uint w] ! k = uint v"
    if y: "y \<noteq> x" "\<sigma> y = Some v" for y v
  proof -
    obtain k where k: "L y = Some k" "k < length s" "s ! k = uint v" using assms(1) y by (auto simp: frame_def)
    then have "k \<noteq> n" using assms(2,3) y(1) by (auto simp: inj_on_def dom_def)
    with k len show ?thesis by (auto simp: expand_def nth_append)
  qed
  then show ?thesis using assms(2) len by (auto simp: frame_def)
qed

lemma assign_correct:
  assumes "eval \<sigma> e = Some w" "generateAssignment ctx (IdentifierExpr x) (Some e) = Some ctx'" "ready r m L F ctx ctx' bs brk"
    "frame L \<sigma> s" "length s \<le> F" "fits r F (max 2 (depth e))"
  shows "reaches r m L F (here ctx) s (here ctx') brk cont Normal (\<sigma>(x \<mapsto> w))"
proof -
  obtain c1 where c1: "GenerateExpression ctx e = Some c1" "ctx' = store_local x c1"
    using assms(2) by (auto simp: generateAssignment_def bind_eq_Some_conv)
  note x = GenerateExpression_extends(1)[OF c1(1)]
  have bs: "bs = []" using assms(3) grows_unique[OF _ grows_assignment[OF assms(2)]] by (simp add: ready_def)
  have rd: "setting r m L F" "holds r ctx' (here ctx) [] brk" "cg_LocalOffsets ctx' \<subseteq>\<^sub>m L" "\<forall>vars\<in>set (cg_CurrentScope ctx). no_strings vars"
    using assms(3) bs by (auto simp: ready_def)
  define n where "n = (case cg_LocalOffsets c1 x of Some k \<Rightarrow> k | None \<Rightarrow> cg_NextLocalOffset c1)"
  define c2 where "c2 = (case cg_LocalOffsets c1 x of Some k \<Rightarrow> c1 | None \<Rightarrow>
      c1\<lparr>cg_LocalOffsets := (cg_LocalOffsets c1)(x \<mapsto> n), cg_NextLocalOffset := n + 1\<rparr>)"
  have c': "ctx' = Emit STORE_LOCAL (EmitPush (VInt (int n)) c2)" "here c2 = here c1" "cg_LocalOffsets c2 x = Some n"
    "cg_Instructions c2 = cg_Instructions c1"
    using c1(2) by (auto simp: store_local_def n_def c2_def Let_def split: option.splits)
  have Lx: "L x = Some n" using rd(3) c'(1,3) by (auto simp: map_le_def dom_def)
  have le: "here ctx \<le> here c2" using grows_here[OF extends_grows[OF x]] c'(2) by simp
  have code: "has r (here c1) (MakeInstructionWithValue PUSH (VInt (int n)))" "has r (Suc (here c1)) (MakeInstruction STORE_LOCAL)" "holds r c2 (here ctx) [] brk"
    using rd(2) le c' holds_emit[of r STORE_LOCAL "EmitPush (VInt (int n)) c2" "here ctx" brk] holds_emit_push[of r "VInt (int n)" c2 "here ctx" brk]
    by auto
  then have h1: "holds r c1 (here ctx) [] brk" using c' by (simp add: holds_def)
  have loc: "cg_LocalOffsets ctx \<subseteq>\<^sub>m L"
    using assms(3) by (auto simp: ready_def grows_def intro: map_le_trans)
  obtain k where k: "goes r (here ctx, s, m) k (here c1, s @ [uint w], m)"
    using expression_in_frame[OF assms(1) c1(1) rd(1,4) loc assms(4) h1 _ assms(5)] fits_mono[OF assms(6)] by auto
  have m: "machine r" "FramePointer r = 0" "n < F" "inj_on L (dom L)" using rd(1) Lx by (auto simp: setting_def)
  have "stack_fits r (Suc (length (s @ [uint w])))" "n < 2 ^ 45" using assms(5,6) m(3) by (auto simp: fits_def elim: stack_fits_mono)
  from goes_trans[OF goes_trans[OF k goes_PUSH[OF m(1) code(1) pushes_emitted this(1)]], simplified, OF goes_STORE_LOCAL[OF m(1) code(2) m(2) this(2)]]
  have "goes r (here ctx, s, m) (k + price PUSH + price STORE_LOCAL) (here ctx', (expand s (int n))[n := uint w], m)"
    using c'(1,2) by simp
  moreover have "frame L (\<sigma>(x \<mapsto> w)) ((expand s (int n))[n := uint w])" by (rule frame_store[OF assms(4) Lx m(4)])
  moreover have "length ((expand s (int n))[n := uint w]) \<le> F" using assms(5) m(3) by (simp add: expand_def)
  ultimately show ?thesis unfolding reaches_def flow.case by blast
qed

lemma return_correct:
  assumes "generateReturn ctx e = Some ctx'" "case e of Some e \<Rightarrow> eval \<sigma> e = Some w | None \<Rightarrow> w = 0" "ready r m L F ctx ctx' bs brk"
    "frame L \<sigma> s" "length s \<le> F" "fits r F (case e of Some e \<Rightarrow> depth e | None \<Rightarrow> 1)"
  shows "reaches r m L F (here ctx) s (here ctx') brk cont (Return w) \<sigma>"
proof -
  obtain c1 where c1: "(case e of Some e \<Rightarrow> GenerateExpression ctx e | None \<Rightarrow> Some (EmitPush (VInt 0) ctx)) = Some c1" "ctx' = Emit RETURN c1"
    using assms(1) by (auto simp: generateReturn_def bind_eq_Some_conv)
  have x: "extends ctx c1" using c1(1) GenerateExpression_extends(1) by (auto split: option.splits)
  have bs: "bs = []" using assms(3) grows_unique[OF _ grows_simple(1)[OF assms(1)]] by (simp add: ready_def)
  have rd: "setting r m L F" "holds r ctx' (here ctx) [] brk" "cg_LocalOffsets ctx \<subseteq>\<^sub>m L" "\<forall>vars\<in>set (cg_CurrentScope ctx). no_strings vars"
    using assms(3) bs by (auto simp: ready_def grows_def intro: map_le_trans)
  have code: "has r (here c1) (MakeInstruction RETURN)" "holds r c1 (here ctx) [] brk"
    using rd(2) c1(2) grows_here[OF extends_grows[OF x]] holds_emit[of r RETURN c1 "here ctx" brk] by simp_all
  have "\<exists>c. goes r (here ctx, s, m) c (here c1, s @ [uint w], m)"
  proof (cases e)
    case None
    with c1(1) code(2) holds_emit_push(1)[of r "VInt 0" ctx "here ctx" brk]
    have "has r (here ctx) (MakeInstructionWithValue PUSH (VInt 0))" "here c1 = Suc (here ctx)" by auto
    moreover have "stack_fits r (Suc (length s))" using assms(5,6) None stack_fits_mono[of r "F + 1"] by (simp add: fits_def)
    ultimately show ?thesis
      using goes_PUSH[OF _ _ pushes_emitted, of r "here ctx" 0 s m] rd(1) None assms(2) by (auto simp: setting_def)
  next
    case (Some e')
    with assms(2,6) c1(1) show ?thesis using expression_in_frame[OF _ _ rd(1,4,3) assms(4) code(2) _ assms(5), of e' w] by simp
  qed
  then show ?thesis using code(1) assms(4,5) unfolding reaches_def flow.case by blast
qed

lemma expression_statement_correct:
  assumes "eval \<sigma> e = Some w" "GenerateExpression ctx e = Some c1" "ready r m L F ctx (Emit POP c1) bs brk"
    "frame L \<sigma> s" "length s \<le> F" "fits r F (depth e)"
  shows "reaches r m L F (here ctx) s (Suc (here c1)) brk cont Normal \<sigma>"
proof -
  note x = GenerateExpression_extends(1)[OF assms(2)]
  have bs: "bs = []" using assms(3) grows_unique[OF _ extends_grows[OF extends_emit(1)[OF x]]] by (auto simp: ready_def)
  have rd: "setting r m L F" "holds r (Emit POP c1) (here ctx) [] brk" "cg_LocalOffsets ctx \<subseteq>\<^sub>m L" "\<forall>vars\<in>set (cg_CurrentScope ctx). no_strings vars"
    using assms(3) bs by (auto simp: ready_def grows_def intro: map_le_trans)
  note code = holds_emit[OF rd(2) grows_here[OF extends_grows[OF x]]]
  obtain k where "goes r (here ctx, s, m) k (here c1, s @ [uint w], m)"
    using expression_in_frame[OF assms(1,2) rd(1,4,3) assms(4) code(2) assms(6,5)] by blast
  from goes_trans[OF this goes_POP[OF _ code(1)]] rd(1) assms(4,5) show ?thesis
    unfolding reaches_def flow.case setting_def by blast
qed

lemma jump_correct:
  assumes "setting r m L F" "has r i ins" "pushes ins (int t)" "has r (Suc i) (MakeInstruction JUMP)" "t < length (Instructions r)"
    "fits r F 1" "length s \<le> F"
  shows "\<exists>c. goes r (i, s, m) c (t, s, m)"
proof -
  have "stack_fits r (Suc (length s))" using assms(6,7) stack_fits_mono[of r "F + 1"] by (simp add: fits_def)
  moreover have "machine r" using assms(1) by (simp add: setting_def)
  ultimately show ?thesis using goes_trans[OF goes_PUSH[OF _ assms(2,3)] goes_JUMP[OF _ assms(4,5)]] by blast
qed

lemma break_correct:
  assumes "generateBreak ctx = Some ctx'" "ready r m L F ctx ctx' bs brk" "frame L \<sigma> s" "length s \<le> F" "fits r F 1"
  shows "reaches r m L F (here ctx) s (here ctx') brk cont Break \<sigma>"
proof -
  have bs: "bs = [here ctx]" using assms(2) grows_unique[OF _ grows_break[OF assms(1)]] by (simp add: ready_def)
  obtain l ls where l: "cg_LoopStack ctx = l # ls"
    "ctx' = (Emit JUMP (EmitPush (VInt 0) ctx))\<lparr>cg_LoopStack := l\<lparr>BreakPatches := BreakPatches l @ [here ctx]\<rparr> # ls\<rparr>"
    using assms(1) by (auto simp: generateBreak_def Let_def split: list.splits)
  have rd: "setting r m L F" "holds r ctx' (here ctx) [here ctx] brk" "brk < length (Instructions r)"
    using assms(2) bs l(1) by (auto simp: ready_def)
  have "has r (here ctx) ((MakeInstructionWithValue PUSH (VInt 0))\<lparr>Value := Some (hex_int brk)\<rparr>)" "has r (Suc (here ctx)) (MakeInstruction JUMP)"
    using holds_hole[OF rd(2), of "here ctx"] holds_has[OF rd(2), of "Suc (here ctx)"] l(2) by (simp_all add: nth_emit)
  from jump_correct[OF rd(1) this(1) pushes_patched this(2) rd(3) assms(5,4)] assms(3,4) show ?thesis
    unfolding reaches_def flow.case by auto
qed

lemma continue_correct:
  assumes "generateContinue ctx = Some ctx'" "ready r m L F ctx ctx' bs brk" "frame L \<sigma> s" "length s \<le> F" "fits r F 1"
  shows "reaches r m L F (here ctx) s (here ctx') brk (ContinueAddr (hd (cg_LoopStack ctx))) Continue \<sigma>"
proof -
  have bs: "bs = []" using assms(2) grows_unique[OF _ grows_simple(2)[OF assms(1)]] by (simp add: ready_def)
  obtain l ls where l: "cg_LoopStack ctx = l # ls" "ctx' = Emit JUMP (EmitPush (VInt (int (ContinueAddr l))) ctx)"
    using assms(1) by (auto simp: generateContinue_def split: list.splits)
  have rd: "setting r m L F" "holds r ctx' (here ctx) [] brk" "ContinueAddr l < length (Instructions r)"
    using assms(2) bs l(1) by (auto simp: ready_def)
  have "has r (here ctx) (MakeInstructionWithValue PUSH (VInt (int (ContinueAddr l))))" "has r (Suc (here ctx)) (MakeInstruction JUMP)"
    using holds_has[OF rd(2), of "here ctx"] holds_has[OF rd(2), of "Suc (here ctx)"] l(2) by (simp_all add: nth_emit)
  from jump_correct[OF rd(1) this(1) pushes_emitted this(2) rd(3) assms(5,4)] assms(3,4) l(1) show ?thesis
    unfolding reaches_def flow.case by auto
qed

text \<open>Every statement emits an instruction; what follows a statement is a valid target.\<close>

lemma generateStatement_strict: "generateStatement ctx st = Some ctx' \<Longrightarrow> here ctx < here ctx'"
proof -
  have e: "here ctx \<le> here c1" if "GenerateExpression ctx e = Some c1" for e ctx c1
    using grows_here[OF extends_grows[OF GenerateExpression_extends(1)[OF that]]] .
  have b: "here ctx \<le> here c1" if "generateBlock ctx b = Some c1" for b ctx c1
    using generateStatement_grows(4)[OF that] grows_here by blast
  have st: "here c < here (store_local x c)" for x c by (simp add: store_local_def Let_def split: option.splits)
  assume gen: "generateStatement ctx st = Some ctx'"
  show ?thesis
  proof (cases st)
    case (AssignmentStmt vt l rhs)
    with gen show ?thesis
      by (cases l) (auto simp: generateAssignment_def bind_eq_Some_conv split: if_splits dest!: e intro: le_less_trans[OF _ st])
  next
    case (ReturnStmt rhs)
    with gen show ?thesis by (auto simp: generateReturn_def bind_eq_Some_conv split: option.splits dest!: e)
  next
    case (IfStmt c bl eb)
    with gen show ?thesis by (auto simp: bind_eq_Some_conv Let_def split: option.splits dest!: e b)
  next
    case (WhileStmt c bl)
    with gen obtain c1 c3 l ls where "GenerateExpression ctx c = Some c1"
      "generateBlock ((Emit JUMPC (EmitPush (VInt 0) (Emit ISZERO c1)))\<lparr>cg_LoopStack :=
         \<lparr>ContinueAddr = here ctx, BreakPatches = []\<rparr> # cg_LoopStack c1\<rparr>) bl = Some c3"
      "finish_while (here ctx) (Suc (here c1)) c3 = Some ctx'" "cg_LoopStack c3 = l # ls"
      by (cases "cg_LoopStack (the (generateBlock ((Emit JUMPC (EmitPush (VInt 0) (Emit ISZERO (the (GenerateExpression ctx c)))))\<lparr>cg_LoopStack :=
         \<lparr>ContinueAddr = here ctx, BreakPatches = []\<rparr> # cg_LoopStack (the (GenerateExpression ctx c))\<rparr>) bl))")
        (auto simp: bind_eq_Some_conv Let_def finish_while_def)
    with e[of ctx c c1] b[of _ bl c3] show ?thesis by (fastforce simp: finish_while_def Let_def)
  next
    case (ExpressionStmt rhs)
    with gen show ?thesis by (auto dest!: e)
  qed (use gen in \<open>auto simp: generateBreak_def generateContinue_def Let_def split: list.splits\<close>)
qed

definition followed :: "Runtime \<Rightarrow> CodegenContext \<Rightarrow> Statement list \<Rightarrow> bool" where
  "followed r ctx' ss \<longleftrightarrow> here ctx' < length (Instructions r) \<or> (ss \<noteq> [] \<and> (\<exists>e. last ss = ReturnStmt e))"

lemma followed_Cons:
  assumes "generate_statements c1 ss = Some ctx'" "here ctx' \<le> length (Instructions r)" "followed r ctx' (st # ss)"
  shows "followed r c1 [st]" "ss \<noteq> [] \<Longrightarrow> followed r ctx' ss"
proof -
  show "followed r c1 [st]"
  proof (cases ss)
    case (Cons s2 ss2)
    with assms(1) obtain c2 where "generateStatement c1 s2 = Some c2" "generate_statements c2 ss2 = Some ctx'"
      by (auto simp: bind_eq_Some_conv)
    then have "here c1 < here c2" "here c2 \<le> here ctx'"
      using generateStatement_strict generateStatement_grows(5) grows_here by blast+
    with assms(2) show ?thesis by (simp add: followed_def)
  qed (use assms in \<open>auto simp: followed_def\<close>)
  show "ss \<noteq> [] \<Longrightarrow> followed r ctx' ss" using assms(3) by (auto simp: followed_def)
qed

lemma body_ready:
  assumes "ready r m L F ctx ctx' bs brk" "GenerateExpression ctx c = Some c1" "grows (body_context c1 vars loops) c3 bs'"
    "holds r c3 (here c1 + 3) bs' brk'" "cg_LocalOffsets c3 \<subseteq>\<^sub>m L" "no_strings vars"
    "loops \<noteq> [] \<Longrightarrow> brk' < length (Instructions r) \<and> ContinueAddr (hd loops) < length (Instructions r)"
  shows "ready r m L F (body_context c1 vars loops) c3 bs' brk'"
  using assms GenerateExpression_extends(1)[OF assms(2)]
  by (auto simp: ready_def extends_def same_place_def eval_nat_numeral)

lemma seq_ready:
  assumes "ready r m L F ctx ctx' bs brk" "generateStatement ctx st = Some c1" "generate_statements c1 ss = Some ctx'"
  obtains bs1 bs2 where "ready r m L F ctx c1 bs1 brk" "ready r m L F c1 ctx' bs2 brk"
    "ContinueAddr (hd (cg_LoopStack c1)) = ContinueAddr (hd (cg_LoopStack ctx))"
proof -
  obtain bs1 bs2 where g: "grows ctx c1 bs1" "grows c1 ctx' bs2"
    using generateStatement_grows(1)[OF assms(2)] generateStatement_grows(5)[OF assms(3)] by blast
  then have bs: "bs = bs1 @ bs2" using grows_unique[OF _ grows_trans[OF g]] assms(1) by (simp add: ready_def)
  have c: "ContinueAddr (hd (cg_LoopStack c1)) = ContinueAddr (hd (cg_LoopStack ctx))" "cg_LoopStack c1 = [] \<longleftrightarrow> cg_LoopStack ctx = []"
    "cg_CurrentScope c1 = cg_CurrentScope ctx" "cg_LocalOffsets c1 \<subseteq>\<^sub>m cg_LocalOffsets ctx'"
    using g by (cases "cg_LoopStack ctx"; auto simp: grows_def same_place_def)+
  have "holds r c1 (here ctx) bs1 brk" "holds r ctx' (here c1) bs2 brk"
    using holds_split[OF g] assms(1) bs by (auto simp: ready_def)
  with g c assms(1) show thesis by (intro that[of bs1 bs2]) (auto simp: ready_def intro: map_le_trans)
qed

lemma reaches_forget: "reaches r m L F i s i' brk cont f \<sigma> \<Longrightarrow> f \<notin> {Normal} \<Longrightarrow> reaches r m L F i s i'' brk cont f \<sigma>"
  by (cases f) (auto simp: reaches_def)

lemma reaches_return: "reaches r m L F i s i' brk cont (Return w) \<sigma> \<Longrightarrow> reaches r m L F i s i'' brk' cont' (Return w) \<sigma>"
  by (simp add: reaches_def)

text \<open>A loop that is entered with a condition that holds: the body, and then the outcome of the body.\<close>

lemma loop_correct:
  assumes gen: "generateStatement ctx (WhileStmt c (Block ss vars)) = Some ctx'" and rd: "ready r m L F ctx ctx' bs brk"
    and st: "frame L \<sigma> s" "length s \<le> F" "ints_statement (WhileStmt c (Block ss vars))" "fits r F (statement_depth (WhileStmt c (Block ss vars)))"
    and fo: "followed r ctx' [WhileStmt c (Block ss vars)]" and e: "eval \<sigma> c = Some w"
    and body: "\<And>cb c3 bs' brk'. w \<noteq> 0 \<Longrightarrow> generate_statements cb ss = Some c3 \<Longrightarrow> ready r m L F cb c3 bs' brk' \<Longrightarrow> ints_list ss \<Longrightarrow>
      fits r F (list_depth ss) \<Longrightarrow> followed r c3 ss \<Longrightarrow>
      reaches r m L F (here cb) s (here c3) brk' (ContinueAddr (hd (cg_LoopStack cb))) f \<sigma>'"
  shows "w = 0 \<Longrightarrow> reaches r m L F (here ctx) s (here ctx') brk cont Normal \<sigma>"
    and "w \<noteq> 0 \<Longrightarrow> f = Return v \<Longrightarrow> reaches r m L F (here ctx) s (here ctx') brk cont f \<sigma>'"
    and "w \<noteq> 0 \<Longrightarrow> f = Break \<Longrightarrow> reaches r m L F (here ctx) s (here ctx') brk cont Normal \<sigma>'"
    and "w \<noteq> 0 \<Longrightarrow> f \<in> {Normal, Continue} \<Longrightarrow> \<exists>k s'. frame L \<sigma>' s' \<and> length s' \<le> F \<and> goes r (here ctx, s, m) k (here ctx, s', m)"
proof -
  have g: "grows ctx ctx' bs" "holds r ctx' (here ctx) bs brk" "setting r m L F" "cg_LocalOffsets ctx' \<subseteq>\<^sub>m L"
    "\<forall>vars\<in>set (cg_CurrentScope ctx). no_strings vars" "cg_LocalOffsets ctx \<subseteq>\<^sub>m L"
    using rd by (auto simp: ready_def grows_def intro: map_le_trans)
  obtain c1 c3 bs' where c: "GenerateExpression ctx c = Some c1" "holds r c1 (here ctx) [] brk" "test_code r c1 (here ctx')"
    "generate_statements (body_context c1 vars (\<lparr>ContinueAddr = here ctx, BreakPatches = []\<rparr> # cg_LoopStack c1)) ss = Some c3"
    "grows (body_context c1 vars (\<lparr>ContinueAddr = here ctx, BreakPatches = []\<rparr> # cg_LoopStack c1)) c3 bs'"
    "holds r c3 (here c1 + 3) bs' (here ctx')"
    "has r (here c3) (MakeInstructionWithValue PUSH (VInt (int (here ctx))))" "has r (Suc (here c3)) (MakeInstruction JUMP)"
    "cg_LocalOffsets ctx' = cg_LocalOffsets c3" "here ctx' = here c3 + 2"
    by (rule while_code[OF gen g(1,2)])
  let ?cb = "body_context c1 vars (\<lparr>ContinueAddr = here ctx, BreakPatches = []\<rparr> # cg_LoopStack c1)"
  have top: "here ctx' < length (Instructions r)" using fo by (simp add: followed_def)
  have lt: "here ctx < length (Instructions r)" using generateStatement_strict[OF gen] top by simp
  have d: "fits r F (max 2 (depth c))" "fits r F (list_depth ss)" "fits r F 1" using st(4) by (auto elim!: fits_mono)
  obtain k where k: "goes r (here ctx, s, m) k (if w = 0 then here ctx' else here c1 + 3, s, m)"
    using test_correct[OF e c(1) g(3,5,6) st(1) c(2) d(1) st(2) c(3) top] by blast
  show "w = 0 \<Longrightarrow> reaches r m L F (here ctx) s (here ctx') brk cont Normal \<sigma>"
    using k st(1,2) unfolding reaches_def flow.case by auto
  have "ready r m L F ?cb c3 bs' (here ctx')"
    by (rule body_ready[OF rd c(1,5,6)]) (use g(4) c(9) st(3) top lt in simp_all)
  then have b: "reaches r m L F (here c1 + 3) s (here c3) (here ctx') (here ctx) f \<sigma>'" if "w \<noteq> 0"
    using body[OF that c(4), of bs' "here ctx'"] d st(3) c(10) top by (simp add: followed_def eval_nat_numeral)
  show "reaches r m L F (here ctx) s (here ctx') brk cont f \<sigma>'" if "w \<noteq> 0" "f = Return v"
    using reaches_after[OF k[unfolded if_not_P[OF that(1)]] b[OF that(1)]] reaches_return that(2) by simp
  show "reaches r m L F (here ctx) s (here ctx') brk cont Normal \<sigma>'" if "w \<noteq> 0" "f = Break"
    using reaches_after[OF k[unfolded if_not_P[OF that(1)]] b[OF that(1)]] that(2) by (simp add: reaches_def)
  show "\<exists>k s'. frame L \<sigma>' s' \<and> length s' \<le> F \<and> goes r (here ctx, s, m) k (here ctx, s', m)"
    if nz: "w \<noteq> 0" and fl: "f \<in> {Normal, Continue}"
  proof -
    obtain k' s' where s': "frame L \<sigma>' s'" "length s' \<le> F"
      "goes r (here ctx, s, m) k' (if f = Normal then here c3 else here ctx, s', m)"
      using reaches_after[OF k[unfolded if_not_P[OF nz]] b[OF nz]] fl by (auto simp: reaches_def)
    obtain k2 where "goes r (here c3, s', m) k2 (here ctx, s', m)"
      using jump_correct[OF g(3) c(7) pushes_emitted c(8) lt d(3) s'(2)] by auto
    with s' goes_trans[OF s'(3), of k2 "(here ctx, s', m)"] show ?thesis by (cases "f = Normal") auto
  qed
qed

text \<open>The code of both forms of a conditional: the body, the way to the end, and where the test jumps to.\<close>

lemma branch_code:
  assumes gen: "generateStatement ctx (IfStmt c (Block ss vars) eb) = Some ctx'" and rd: "ready r m L F ctx ctx' bs brk"
    and ints: "ints_statement (IfStmt c (Block ss vars) eb)" and top: "here ctx' < length (Instructions r)" and fits: "fits r F 1"
  shows "\<exists>c1 t c3 bs1. GenerateExpression ctx c = Some c1 \<and> holds r c1 (here ctx) [] brk \<and> test_code r c1 t \<and> t < length (Instructions r) \<and>
    generate_statements (body_context c1 vars (cg_LoopStack c1)) ss = Some c3 \<and>
    grows (body_context c1 vars (cg_LoopStack c1)) c3 bs1 \<and> holds r c3 (here c1 + 3) bs1 brk \<and> cg_LocalOffsets c3 \<subseteq>\<^sub>m L \<and>
    (\<forall>s'. length s' \<le> F \<longrightarrow> (\<exists>k. goes r (here c3, s', m) k (here ctx', s', m))) \<and> here c3 \<le> here ctx' \<and>
    (eb = None \<longrightarrow> t = here ctx') \<and>
    (\<forall>ss' vars'. eb = Some (Block ss' vars') \<longrightarrow> (\<exists>c4 c5 bs2. t = here c4 \<and> generate_statements c4 ss' = Some c5 \<and>
       ready r m L F c4 c5 bs2 brk \<and> ContinueAddr (hd (cg_LoopStack c4)) = ContinueAddr (hd (cg_LoopStack ctx)) \<and> here c5 = here ctx'))"
proof -
  have g: "grows ctx ctx' bs" "holds r ctx' (here ctx) bs brk" "setting r m L F" "cg_LocalOffsets ctx' \<subseteq>\<^sub>m L"
    "\<forall>vars\<in>set (cg_CurrentScope ctx). no_strings vars" using rd by (auto simp: ready_def)
  show ?thesis
  proof (cases eb)
    case None
    obtain c1 c3 where "GenerateExpression ctx c = Some c1" "holds r c1 (here ctx) [] brk" "test_code r c1 (here ctx')"
      "generate_statements (body_context c1 vars (cg_LoopStack c1)) ss = Some c3"
      "grows (body_context c1 vars (cg_LoopStack c1)) c3 bs" "holds r c3 (here c1 + 3) bs brk"
      "cg_LocalOffsets ctx' = cg_LocalOffsets c3" "here ctx' = here c3"
      by (rule if_code[OF gen[unfolded None] g(1,2)])
    with None top g(4) show ?thesis
      by (intro exI[of _ c1] exI[of _ "here ctx'"] exI[of _ c3] exI[of _ bs]) (auto intro: exI[of _ 0])
  next
    case (Some b)
    obtain ss' vars' where b: "b = Block ss' vars'" by (cases b)
    obtain c1 c3 c4 c5 bs1 bs2 where c: "GenerateExpression ctx c = Some c1" "holds r c1 (here ctx) [] brk" "test_code r c1 (here c4)"
      "generate_statements (body_context c1 vars (cg_LoopStack c1)) ss = Some c3"
      "grows (body_context c1 vars (cg_LoopStack c1)) c3 bs1" "holds r c3 (here c1 + 3) bs1 brk"
      "\<exists>ins. has r (here c3) ins \<and> pushes ins (int (here ctx'))" "has r (Suc (here c3)) (MakeInstruction JUMP)"
      "here c4 = here c3 + 2" "cg_CurrentScope c4 = vars' # cg_CurrentScope c1" "cg_LocalOffsets c4 = cg_LocalOffsets c3"
      "map ContinueAddr (cg_LoopStack c4) = map ContinueAddr (cg_LoopStack c1)"
      "generate_statements c4 ss' = Some c5" "grows c4 c5 bs2" "holds r c5 (here c4) bs2 brk"
      "cg_LocalOffsets ctx' = cg_LocalOffsets c5" "here ctx' = here c5"
      by (rule if_else_code[OF gen[unfolded Some b] g(1,2)])
    have x: "cg_LoopStack c1 = cg_LoopStack ctx" "cg_CurrentScope c1 = cg_CurrentScope ctx"
      using GenerateExpression_extends(1)[OF c(1)] by (simp_all add: extends_def same_place_def)
    have ls: "ContinueAddr (hd (cg_LoopStack c4)) = ContinueAddr (hd (cg_LoopStack ctx)) \<and> (cg_LoopStack c4 = [] \<longleftrightarrow> cg_LoopStack ctx = [])"
      if "cg_LoopStack c4 \<noteq> [] \<or> cg_LoopStack ctx \<noteq> []"
      using c(12) x(1) that by (cases "cg_LoopStack c4"; cases "cg_LoopStack ctx") auto
    then have ls': "ContinueAddr (hd (cg_LoopStack c4)) = ContinueAddr (hd (cg_LoopStack ctx))" "cg_LoopStack c4 = [] \<longleftrightarrow> cg_LoopStack ctx = []"
      by (cases "cg_LoopStack ctx"; cases "cg_LoopStack c4"; simp)+
    have le: "here c4 \<le> here ctx'" "cg_LocalOffsets c3 \<subseteq>\<^sub>m L"
      using grows_here[OF c(14)] c(11,14,16,17) g(4) by (auto simp: grows_def intro: map_le_trans)
    have "ready r m L F c4 c5 bs2 brk"
      using c(10,14,15,16) g(3,4,5) rd ls' x ints Some b by (auto simp: ready_def)
    moreover have "\<exists>k. goes r (here c3, s', m) k (here ctx', s', m)" if "length s' \<le> F" for s'
      using c(7) jump_correct[OF g(3) _ _ c(8) top fits that] by blast
    ultimately have "\<forall>s'. length s' \<le> F \<longrightarrow> (\<exists>k. goes r (here c3, s', m) k (here ctx', s', m))"
      "\<forall>ss' vars'. eb = Some (Block ss' vars') \<longrightarrow> (\<exists>c4' c5 bs2. here c4 = here c4' \<and> generate_statements c4' ss' = Some c5 \<and>
         ready r m L F c4' c5 bs2 brk \<and> ContinueAddr (hd (cg_LoopStack c4')) = ContinueAddr (hd (cg_LoopStack ctx)) \<and> here c5 = here ctx')"
      using c(13,17) ls'(1) Some b by auto
    then show ?thesis using c(1-6,9) le top Some
      by - (rule exI[of _ c1], rule exI[of _ "here c4"], rule exI[of _ c3], rule exI[of _ bs1], simp)
  qed
qed

text \<open>A conditional: its branches, and the way around a missing one.\<close>

lemma branch_correct:
  assumes gen: "generateStatement ctx (IfStmt c (Block ss vars) eb) = Some ctx'" and rd: "ready r m L F ctx ctx' bs brk"
    and st: "frame L \<sigma> s" "length s \<le> F" "ints_statement (IfStmt c (Block ss vars) eb)" "fits r F (statement_depth (IfStmt c (Block ss vars) eb))"
    and fo: "followed r ctx' [IfStmt c (Block ss vars) eb]" and e: "eval \<sigma> c = Some w"
  shows "w \<noteq> 0 \<Longrightarrow>
      (\<And>cb c3 bs'. generate_statements cb ss = Some c3 \<Longrightarrow> ready r m L F cb c3 bs' brk \<Longrightarrow> ints_list ss \<Longrightarrow> fits r F (list_depth ss) \<Longrightarrow>
         followed r c3 ss \<Longrightarrow> reaches r m L F (here cb) s (here c3) brk (ContinueAddr (hd (cg_LoopStack cb))) f \<sigma>') \<Longrightarrow>
      reaches r m L F (here ctx) s (here ctx') brk (ContinueAddr (hd (cg_LoopStack ctx))) f \<sigma>'"
    and "w = 0 \<Longrightarrow> eb = None \<Longrightarrow> reaches r m L F (here ctx) s (here ctx') brk (ContinueAddr (hd (cg_LoopStack ctx))) Normal \<sigma>"
    and "w = 0 \<Longrightarrow> eb = Some (Block ss' vars') \<Longrightarrow>
      (\<And>cb c3 bs'. generate_statements cb ss' = Some c3 \<Longrightarrow> ready r m L F cb c3 bs' brk \<Longrightarrow> ints_list ss' \<Longrightarrow> fits r F (list_depth ss') \<Longrightarrow>
         followed r c3 ss' \<Longrightarrow> reaches r m L F (here cb) s (here c3) brk (ContinueAddr (hd (cg_LoopStack cb))) f \<sigma>') \<Longrightarrow>
      reaches r m L F (here ctx) s (here ctx') brk (ContinueAddr (hd (cg_LoopStack ctx))) f \<sigma>'"
proof -
  have g: "grows ctx ctx' bs" "holds r ctx' (here ctx) bs brk" "setting r m L F" "cg_LocalOffsets ctx' \<subseteq>\<^sub>m L"
    "\<forall>vars\<in>set (cg_CurrentScope ctx). no_strings vars" "cg_LocalOffsets ctx \<subseteq>\<^sub>m L"
    using rd by (auto simp: ready_def grows_def intro: map_le_trans)
  have top: "here ctx' < length (Instructions r)" using fo by (simp add: followed_def)
  have d: "fits r F (max 2 (depth c))" "fits r F (list_depth ss)" "fits r F 1"
    using st(4) by (auto elim!: fits_mono)
  obtain c1 t c3 bs1 where c: "GenerateExpression ctx c = Some c1" "holds r c1 (here ctx) [] brk" "test_code r c1 t" "t < length (Instructions r)"
    "generate_statements (body_context c1 vars (cg_LoopStack c1)) ss = Some c3"
    "grows (body_context c1 vars (cg_LoopStack c1)) c3 bs1" "holds r c3 (here c1 + 3) bs1 brk" "cg_LocalOffsets c3 \<subseteq>\<^sub>m L"
    and after: "\<And>s'. length s' \<le> F \<Longrightarrow> \<exists>k. goes r (here c3, s', m) k (here ctx', s', m)" "here c3 \<le> here ctx'"
    and none: "eb = None \<Longrightarrow> t = here ctx'"
    and some: "\<And>ss' vars'. eb = Some (Block ss' vars') \<Longrightarrow> \<exists>c4 c5 bs2. t = here c4 \<and> generate_statements c4 ss' = Some c5 \<and>
       ready r m L F c4 c5 bs2 brk \<and> ContinueAddr (hd (cg_LoopStack c4)) = ContinueAddr (hd (cg_LoopStack ctx)) \<and> here c5 = here ctx'"
    using branch_code[OF gen rd st(3) top d(3)] by metis
  have x: "cg_LoopStack c1 = cg_LoopStack ctx" using GenerateExpression_extends(1)[OF c(1)] by (simp add: extends_def)
  obtain k where k: "goes r (here ctx, s, m) k (if w = 0 then t else here c1 + 3, s, m)"
    using test_correct[OF e c(1) g(3,5,6) st(1) c(2) d(1) st(2) c(3,4)] by blast
  show "w = 0 \<Longrightarrow> eb = None \<Longrightarrow> reaches r m L F (here ctx) s (here ctx') brk (ContinueAddr (hd (cg_LoopStack ctx))) Normal \<sigma>"
    using k st(1,2) none unfolding reaches_def flow.case by auto
  show "reaches r m L F (here ctx) s (here ctx') brk (ContinueAddr (hd (cg_LoopStack ctx))) f \<sigma>'"
    if nz: "w \<noteq> 0" and body: "\<And>cb c3 bs'. generate_statements cb ss = Some c3 \<Longrightarrow> ready r m L F cb c3 bs' brk \<Longrightarrow> ints_list ss \<Longrightarrow>
      fits r F (list_depth ss) \<Longrightarrow> followed r c3 ss \<Longrightarrow> reaches r m L F (here cb) s (here c3) brk (ContinueAddr (hd (cg_LoopStack cb))) f \<sigma>'"
  proof -
    have "ready r m L F (body_context c1 vars (cg_LoopStack c1)) c3 bs1 brk"
      by (rule body_ready[OF rd c(1,6-8)]) (use st(3) rd x in \<open>auto simp: ready_def\<close>)
    from body[OF c(5) this] d(2) st(3) after(2) top
    have b: "reaches r m L F (here c1 + 3) s (here c3) brk (ContinueAddr (hd (cg_LoopStack ctx))) f \<sigma>'"
      by (simp add: followed_def x eval_nat_numeral)
    have "reaches r m L F (here c1 + 3) s (here ctx') brk (ContinueAddr (hd (cg_LoopStack ctx))) f \<sigma>'"
    proof (cases "f = Normal")
      case True
      with b obtain k' s' where "frame L \<sigma>' s'" "length s' \<le> F" "goes r (here c1 + 3, s, m) k' (here c3, s', m)" by (auto simp: reaches_def)
      with True after(1)[of s'] show ?thesis unfolding reaches_def by (auto intro: goes_trans)
    qed (use b in \<open>simp add: reaches_forget\<close>)
    then show ?thesis using reaches_after[OF k[unfolded if_not_P[OF nz]]] by simp
  qed
  show "reaches r m L F (here ctx) s (here ctx') brk (ContinueAddr (hd (cg_LoopStack ctx))) f \<sigma>'"
    if z: "w = 0" and eb: "eb = Some (Block ss' vars')"
    and body: "\<And>cb c3 bs'. generate_statements cb ss' = Some c3 \<Longrightarrow> ready r m L F cb c3 bs' brk \<Longrightarrow> ints_list ss' \<Longrightarrow>
      fits r F (list_depth ss') \<Longrightarrow> followed r c3 ss' \<Longrightarrow> reaches r m L F (here cb) s (here c3) brk (ContinueAddr (hd (cg_LoopStack cb))) f \<sigma>'"
  proof -
    have fs: "fits r F (list_depth ss')" using st(4) eb by (auto elim!: fits_mono)
    obtain c4 c5 bs2 where c4: "t = here c4" "generate_statements c4 ss' = Some c5" "ready r m L F c4 c5 bs2 brk"
      "ContinueAddr (hd (cg_LoopStack c4)) = ContinueAddr (hd (cg_LoopStack ctx))" "here c5 = here ctx'"
      using some[OF eb] by blast
    have "reaches r m L F t s (here ctx') brk (ContinueAddr (hd (cg_LoopStack ctx))) f \<sigma>'"
      using body[OF c4(2,3) _ fs] st(3) eb top c4(1,4,5) by (simp add: followed_def)
    then show ?thesis using reaches_after[OF k[unfolded if_P[OF z]]] by simp
  qed
qed

lemma statement_correct:
  "flat_exec \<sigma> st f \<sigma>' \<Longrightarrow> generateStatement ctx st = Some ctx' \<Longrightarrow> ready r m L F ctx ctx' bs brk \<Longrightarrow> frame L \<sigma> s \<Longrightarrow> length s \<le> F \<Longrightarrow>
   ints_statement st \<Longrightarrow> fits r F (statement_depth st) \<Longrightarrow> followed r ctx' [st] \<Longrightarrow>
   reaches r m L F (here ctx) s (here ctx') brk (ContinueAddr (hd (cg_LoopStack ctx))) f \<sigma>'"
  "flat_execs \<sigma> ss f \<sigma>' \<Longrightarrow> generate_statements ctx ss = Some ctx' \<Longrightarrow> ready r m L F ctx ctx' bs brk \<Longrightarrow> frame L \<sigma> s \<Longrightarrow> length s \<le> F \<Longrightarrow>
   ints_list ss \<Longrightarrow> fits r F (list_depth ss) \<Longrightarrow> ss \<noteq> [] \<longrightarrow> followed r ctx' ss \<Longrightarrow>
   reaches r m L F (here ctx) s (here ctx') brk (ContinueAddr (hd (cg_LoopStack ctx))) f \<sigma>'"
proof (induction arbitrary: ctx ctx' bs brk s and ctx ctx' bs brk s rule: flat_exec_flat_execs.inducts)
  case (assign \<sigma> e w vt x)
  then show ?case by (simp add: assign_correct del: fun_upd_apply)
next
  case (return \<sigma> e w)
  then show ?case by (simp add: return_correct)
next
  case (return_nothing \<sigma>)
  then show ?case by (simp add: return_correct)
next
  case (expression \<sigma> e w)
  then show ?case by (auto simp: expression_statement_correct)
next
  case (while_false \<sigma> c b)
  then show ?case by (cases b) (simp only: loop_correct(1)[where w = 0 and f = Normal])
next
  case (while_again \<sigma> c w ss f \<sigma>' vars f' \<sigma>'')
  have body: "reaches r m L F (here cb) s (here c3) brk' (ContinueAddr (hd (cg_LoopStack cb))) f \<sigma>'"
    if "w \<noteq> 0" "generate_statements cb ss = Some c3" "ready r m L F cb c3 bs' brk'" "ints_list ss" "fits r F (list_depth ss)" "followed r c3 ss"
    for cb c3 bs' brk'
    using while_again.IH(1)[OF that(2,3) while_again.prems(3,4) that(4,5)] that(6) by simp
  have "\<exists>k s'. frame L \<sigma>' s' \<and> length s' \<le> F \<and> goes r (here ctx, s, m) k (here ctx, s', m)"
    by (rule loop_correct(4)[OF while_again.prems(1-7) while_again.hyps(1) _ while_again.hyps(2,4)]) (rule body; assumption)
  then obtain k s' where "frame L \<sigma>' s'" "length s' \<le> F" "goes r (here ctx, s, m) k (here ctx, s', m)" by auto
  with while_again.IH(2)[OF while_again.prems(1,2) _ _ while_again.prems(5-7)] show ?case by (blast intro: reaches_after)
next
  case (while_break \<sigma> c w ss \<sigma>' vars)
  have body: "reaches r m L F (here cb) s (here c3) brk' (ContinueAddr (hd (cg_LoopStack cb))) Break \<sigma>'"
    if "w \<noteq> 0" "generate_statements cb ss = Some c3" "ready r m L F cb c3 bs' brk'" "ints_list ss" "fits r F (list_depth ss)" "followed r c3 ss"
    for cb c3 bs' brk'
    using while_break.IH(1)[OF that(2,3) while_break.prems(3,4) that(4,5)] that(6) by simp
  show ?case
    by (rule loop_correct(3)[OF while_break.prems(1-7) while_break.hyps(1) _ while_break.hyps(2) refl]) (rule body; assumption)
next
  case (while_return \<sigma> c w ss v \<sigma>' vars)
  have body: "reaches r m L F (here cb) s (here c3) brk' (ContinueAddr (hd (cg_LoopStack cb))) (Return v) \<sigma>'"
    if "w \<noteq> 0" "generate_statements cb ss = Some c3" "ready r m L F cb c3 bs' brk'" "ints_list ss" "fits r F (list_depth ss)" "followed r c3 ss"
    for cb c3 bs' brk'
    using while_return.IH(1)[OF that(2,3) while_return.prems(3,4) that(4,5)] that(6) by simp
  show ?case
    by (rule loop_correct(2)[OF while_return.prems(1-7) while_return.hyps(1) _ while_return.hyps(2) refl]) (rule body; assumption)
next
  case (break \<sigma>)
  then show ?case by (simp add: break_correct)
next
  case (continue \<sigma>)
  then show ?case by (simp add: continue_correct)
next
  case (nil \<sigma>)
  then show ?case by (auto simp: reaches_def intro!: exI[of _ 0] exI[of _ s])
next
  case (cons \<sigma> st \<sigma>' ss f \<sigma>'')
  then obtain c1 where c1: "generateStatement ctx st = Some c1" "generate_statements c1 ss = Some ctx'" by (auto simp: bind_eq_Some_conv)
  obtain bs1 bs2 where rd: "ready r m L F ctx c1 bs1 brk" "ready r m L F c1 ctx' bs2 brk"
    and ca: "ContinueAddr (hd (cg_LoopStack c1)) = ContinueAddr (hd (cg_LoopStack ctx))" by (rule seq_ready[OF cons.prems(2) c1])
  have top: "here ctx' \<le> length (Instructions r)" using cons.prems(2) by (simp add: ready_def holds_def)
  have fo: "followed r ctx' (st # ss)" using cons.prems(7) by simp
  have d: "fits r F (statement_depth st)" "fits r F (list_depth ss)" using cons.prems(6) by (auto elim!: fits_mono)
  have "reaches r m L F (here ctx) s (here c1) brk (ContinueAddr (hd (cg_LoopStack ctx))) Normal \<sigma>'"
    using cons.IH(1)[OF c1(1) rd(1) cons.prems(3,4) _ d(1) followed_Cons(1)[OF c1(2) top fo]] cons.prems(5) by simp
  then obtain k s' where s': "frame L \<sigma>' s'" "length s' \<le> F" "goes r (here ctx, s, m) k (here c1, s', m)" by (auto simp: reaches_def)
  with cons.IH(2)[OF c1(2) rd(2) s'(1,2) _ d(2)] followed_Cons(2)[OF c1(2) top fo] cons.prems(5) ca
  show ?case by (auto intro: reaches_after)
next
  case (leave \<sigma> st f \<sigma>' ss)
  then obtain c1 where c1: "generateStatement ctx st = Some c1" "generate_statements c1 ss = Some ctx'" by (auto simp: bind_eq_Some_conv)
  obtain bs1 bs2 where rd: "ready r m L F ctx c1 bs1 brk" by (rule seq_ready[OF leave.prems(2) c1])
  have top: "here ctx' \<le> length (Instructions r)" using leave.prems(2) by (simp add: ready_def holds_def)
  have fo: "followed r ctx' (st # ss)" using leave.prems(7) by simp
  have d: "fits r F (statement_depth st)" using leave.prems(6) by (auto elim!: fits_mono)
  from leave.IH[OF c1(1) rd leave.prems(3,4) _ d followed_Cons(1)[OF c1(2) top fo]] leave.prems(5) leave.hyps
  show ?case by (auto intro: reaches_forget)
next
  case (if_true \<sigma> c w ss f \<sigma>' vars eb)
  show ?case
    by (rule branch_correct(1)[OF if_true.prems(1-7) if_true.hyps(1) if_true.hyps(2)]) (rule if_true.IH[OF _ _ if_true.prems(3,4)], simp_all)
next
  case (if_false \<sigma> c b)
  then show ?case by (cases b) (simp only: branch_correct(2))
next
  case (if_else \<sigma> c ss f \<sigma>' b vars)
  obtain ss0 vars0 where b: "b = Block ss0 vars0" by (cases b)
  show ?case
    by (rule branch_correct(3)[OF if_else.prems(1-7)[unfolded b] if_else.hyps(1) refl refl]) (rule if_else.IH[OF _ _ if_else.prems(3,4)], simp_all)
qed

end
