(* ===== verification/Marigold_Programs.thy ===== *)
theory Marigold_Programs
  imports Marigold_Correct
begin

text \<open>
  Whole programs: where the code of a function ends up, how the entry points lead to it, and what a run
  of the virtual machine on a compiled contract returns.
\<close>

section \<open>The code of functions\<close>

definition appended :: "CodegenContext \<Rightarrow> CodegenContext \<Rightarrow> bool" where
  "appended ctx ctx' \<longleftrightarrow> (\<exists>code. cg_Instructions ctx' = cg_Instructions ctx @ code) \<and>
     cg_LoopStack ctx' = cg_LoopStack ctx \<and> cg_Ast ctx' = cg_Ast ctx"

lemma appended_refl [simp]: "appended ctx ctx"
  by (simp add: appended_def)

lemma appended_trans: "appended c1 c2 \<Longrightarrow> appended c2 c3 \<Longrightarrow> appended c1 c3"
  by (auto simp: appended_def)

text \<open>The context in which the body of a function is generated.\<close>

definition function_context :: "CodegenContext \<Rightarrow> Function \<Rightarrow> CodegenContext" where
  "function_context ctx f =
     ctx\<lparr>cg_FunctionIndex := (cg_FunctionIndex ctx)(fn_Name f \<mapsto> here ctx), cg_CurrentFunction := Some f,
         cg_CurrentScope := [ast_Scope (cg_Ast ctx)], cg_LocalOffsets := parameter_offsets (fn_Parameters f),
         cg_NextLocalOffset := length (fn_Parameters f)\<rparr>"

lemma GenerateFunctionDefinition_code:
  assumes "GenerateFunctionDefinition ctx f = Some ctx'" "cg_FunctionIndex ctx (fn_Name f) = None" "cg_LoopStack ctx = []"
  obtains c2 where "generateBlock (function_context ctx f) (fn_Block f) = Some c2" "appended ctx c2" "appended c2 ctx'"
    "cg_FunctionIndex ctx' = (cg_FunctionIndex ctx)(fn_Name f \<mapsto> here ctx)"
proof -
  obtain c2 where c2: "generateBlock (function_context ctx f) (fn_Block f) = Some c2"
    and eq: "ctx' = (if cg_Instructions c2 = [] \<or> Opcode (last (cg_Instructions c2)) \<noteq> RETURN then Emit RETURN (EmitPush (VInt 0) c2) else c2)
      \<lparr>cg_CurrentFunction := cg_CurrentFunction ctx, cg_CurrentScope := cg_CurrentScope ctx,
        cg_LocalOffsets := cg_LocalOffsets ctx, cg_NextLocalOffset := cg_NextLocalOffset ctx\<rparr>"
    using assms(1,2) by (auto simp: GenerateFunctionDefinition_def function_context_def bind_eq_Some_conv Let_def)
  obtain bs where g: "grows (function_context ctx f) c2 bs" using generateStatement_grows(4)[OF c2] by blast
  have "cg_LoopStack c2 = []" using g assms(3) by (simp add: grows_def function_context_def)
  with g eq assms(3) show thesis
    by (intro that[OF c2]) (auto simp: grows_def same_place_def appended_def function_context_def Emit_def EmitPush_def)
qed

lemma GenerateFunctionDefinition_appended:
  assumes "GenerateFunctionDefinition ctx f = Some ctx'" "cg_LoopStack ctx = []"
  shows "appended ctx ctx'" "g \<noteq> fn_Name f \<Longrightarrow> cg_FunctionIndex ctx' g = cg_FunctionIndex ctx g"
    "cg_FunctionIndex ctx (fn_Name f) = None \<Longrightarrow> cg_FunctionIndex ctx' (fn_Name f) = Some (here ctx)"
    "cg_FunctionIndex ctx g = Some a \<Longrightarrow> cg_FunctionIndex ctx' g = Some a"
proof -
  have *: "appended ctx ctx' \<and> cg_FunctionIndex ctx' = (cg_FunctionIndex ctx)(fn_Name f \<mapsto> here ctx)"
    if "cg_FunctionIndex ctx (fn_Name f) = None"
    using GenerateFunctionDefinition_code[OF assms(1) that assms(2)] appended_trans by metis
  moreover have "ctx' = ctx" if "cg_FunctionIndex ctx (fn_Name f) \<noteq> None"
    using assms(1) that by (simp add: GenerateFunctionDefinition_def)
  ultimately show "appended ctx ctx'" "g \<noteq> fn_Name f \<Longrightarrow> cg_FunctionIndex ctx' g = cg_FunctionIndex ctx g"
    "cg_FunctionIndex ctx (fn_Name f) = None \<Longrightarrow> cg_FunctionIndex ctx' (fn_Name f) = Some (here ctx)"
    "cg_FunctionIndex ctx g = Some a \<Longrightarrow> cg_FunctionIndex ctx' g = Some a"
    by (cases "cg_FunctionIndex ctx (fn_Name f) = None"; auto)+
qed

lemma generate_functions_appended:
  "generate_functions ctx fs = Some ctx' \<Longrightarrow> cg_LoopStack ctx = [] \<Longrightarrow>
   appended ctx ctx' \<and> (cg_FunctionIndex ctx g = Some a \<longrightarrow> cg_FunctionIndex ctx' g = Some a)"
proof (induction fs arbitrary: ctx)
  case (Cons f fs)
  then obtain c where c: "GenerateFunctionDefinition ctx f = Some c" "generate_functions c fs = Some ctx'"
    by (auto simp: bind_eq_Some_conv)
  note a = GenerateFunctionDefinition_appended[OF c(1) Cons.prems(2)]
  have "cg_LoopStack c = []" using a(1) Cons.prems(2) by (simp add: appended_def)
  with Cons.IH[OF c(2)] a show ?case by (auto intro: appended_trans)
qed simp

lemma generate_functions_at:
  assumes "generate_functions ctx (xs @ f # ys) = Some ctx'" "cg_LoopStack ctx = []"
    "cg_FunctionIndex ctx (fn_Name f) = None" "\<forall>g\<in>set xs. fn_Name g \<noteq> fn_Name f"
  obtains cA cB where "appended ctx cA" "GenerateFunctionDefinition cA f = Some cB" "cg_FunctionIndex cA (fn_Name f) = None"
    "appended cB ctx'" "cg_FunctionIndex ctx' (fn_Name f) = Some (here cA)"
  using assms
proof (induction xs arbitrary: ctx thesis)
  case Nil
  then obtain c where c: "GenerateFunctionDefinition ctx f = Some c" "generate_functions c ys = Some ctx'"
    by (auto simp: bind_eq_Some_conv)
  note a = GenerateFunctionDefinition_appended[OF c(1) Nil.prems(3)]
  have "cg_LoopStack c = []" using a(1) Nil.prems(3) by (simp add: appended_def)
  with generate_functions_appended[OF c(2), of "fn_Name f" "here ctx"] a(3) Nil.prems(4) show ?case
    by (intro Nil.prems(1)[OF appended_refl c(1)]) auto
next
  case (Cons x xs)
  then obtain c where c: "GenerateFunctionDefinition ctx x = Some c" "generate_functions c (xs @ f # ys) = Some ctx'"
    by (auto simp: bind_eq_Some_conv)
  note a = GenerateFunctionDefinition_appended[OF c(1) Cons.prems(3)]
  have "cg_LoopStack c = []" "cg_FunctionIndex c (fn_Name f) = None"
    using a(1,2) Cons.prems(3-5) by (auto simp: appended_def)
  from Cons.IH[OF _ c(2) this] Cons.prems(5) obtain cA cB where
    "appended c cA" "GenerateFunctionDefinition cA f = Some cB" "cg_FunctionIndex cA (fn_Name f) = None"
    "appended cB ctx'" "cg_FunctionIndex ctx' (fn_Name f) = Some (here cA)" by auto
  with a(1) show ?case by (intro Cons.prems(1)) (auto intro: appended_trans)
qed

section \<open>Variables\<close>

text \<open>The assignments of a statement bound the number of its new variables.\<close>

fun assignments :: "Statement \<Rightarrow> nat" and block_assignments :: "Block \<Rightarrow> nat" and list_assignments :: "Statement list \<Rightarrow> nat" where
  "assignments (AssignmentStmt vt l e) = 1"
| "assignments (IfStmt c b eb) = block_assignments b + (case eb of Some b \<Rightarrow> block_assignments b | None \<Rightarrow> 0)"
| "assignments (WhileStmt c b) = block_assignments b"
| "assignments _ = 0"
| "block_assignments (Block ss vars) = list_assignments ss"
| "list_assignments [] = 0"
| "list_assignments (s # ss) = assignments s + list_assignments ss"

lemma next_patches [simp]: "cg_NextLocalOffset (fold (\<lambda>b. patch b t) bs c) = cg_NextLocalOffset c"
  by (induction bs arbitrary: c) auto

lemma next_emit [simp]:
  "cg_NextLocalOffset (Emit op c) = cg_NextLocalOffset c" "cg_NextLocalOffset (EmitPush v c) = cg_NextLocalOffset c"
  by (simp_all add: Emit_def EmitPush_def)

lemma next_expression: "GenerateExpression ctx e = Some ctx' \<Longrightarrow> cg_NextLocalOffset ctx' = cg_NextLocalOffset ctx"
  using GenerateExpression_extends(1) by (auto simp: extends_def)

lemma next_local:
  "generateStatement ctx st = Some ctx' \<Longrightarrow> cg_NextLocalOffset ctx' \<le> cg_NextLocalOffset ctx + assignments st"
  "generateIf ctx st = Some ctx' \<Longrightarrow> cg_NextLocalOffset ctx' \<le> cg_NextLocalOffset ctx + assignments st"
  "generateWhile ctx st = Some ctx' \<Longrightarrow> cg_NextLocalOffset ctx' \<le> cg_NextLocalOffset ctx + assignments st"
  "generateBlock ctx b = Some ctx' \<Longrightarrow> cg_NextLocalOffset ctx' \<le> cg_NextLocalOffset ctx + block_assignments b"
  "generate_statements ctx ss = Some ctx' \<Longrightarrow> cg_NextLocalOffset ctx' \<le> cg_NextLocalOffset ctx + list_assignments ss"
proof (induction ctx st and ctx st and ctx st and ctx b and ctx ss arbitrary: ctx' and ctx' and ctx' and ctx' and ctx'
    rule: generateStatement_generateIf_generateWhile_generateBlock_generate_statements.induct)
  case (1 ctx vt lhs rhs)
  have "cg_NextLocalOffset (store_local x c) \<le> Suc (cg_NextLocalOffset c)" for x c
    by (auto simp: store_local_def Let_def split: option.splits)
  with 1 show ?case
    by (cases lhs) (auto simp: generateAssignment_def bind_eq_Some_conv split: if_splits dest!: next_expression, (metis)+)
next
  case (2 ctx rhs)
  then show ?case by (auto simp: generateReturn_def bind_eq_Some_conv split: option.splits dest!: next_expression)
next
  case (8 ctx cond block elseBlock)
  then show ?case
    by (cases elseBlock) (fastforce simp: bind_eq_Some_conv Let_def dest: next_expression)+
next
  case (10 ctx cond block)
  then obtain c1 c3 where g: "GenerateExpression ctx cond = Some c1"
    "generateBlock ((Emit JUMPC (EmitPush (VInt 0) (Emit ISZERO c1)))\<lparr>cg_LoopStack :=
       \<lparr>ContinueAddr = here ctx, BreakPatches = []\<rparr> # cg_LoopStack c1\<rparr>) block = Some c3"
    "finish_while (here ctx) (Suc (here c1)) c3 = Some ctx'"
    by (auto simp: bind_eq_Some_conv Let_def)
  have "cg_NextLocalOffset c3 \<le> cg_NextLocalOffset c1 + block_assignments block"
    using 10(1)[OF refl g(1) refl refl refl refl] g(2) by simp
  moreover have "cg_NextLocalOffset ctx' = cg_NextLocalOffset c3"
    using g(3) by (cases "cg_LoopStack c3") (auto simp: finish_while_def Let_def)
  ultimately show ?case using next_expression[OF g(1)] by simp
next
  case (14 ctx stmt stmts)
  then show ?case by (fastforce simp: bind_eq_Some_conv)
qed (auto simp: generateBreak_def generateContinue_def Let_def bind_eq_Some_conv split: list.splits dest!: next_expression)

section \<open>Entry points\<close>

text \<open>What the parser guarantees of the table of functions.\<close>

definition wf_ast :: "Ast \<Rightarrow> bool" where
  "wf_ast ast \<longleftrightarrow> distinct (map fst (ast_Functions ast)) \<and> (\<forall>(name, f)\<in>set (ast_Functions ast). fn_Name f = name)"

definition no_literals :: "Ast \<Rightarrow> bool" where
  "no_literals ast \<longleftrightarrow> cg_StringLiterals (CollectStringLiterals ast (new_context ast)) = []"

text \<open>The entry point of a function: \<open>init\<close> is started at instruction 0, \<open>call\<close> at instruction 2.\<close>

definition entry :: "string \<Rightarrow> nat \<Rightarrow> bool" where
  "entry name ic \<longleftrightarrow> name = ''init'' \<and> ic = 0 \<or> name = ''call'' \<and> ic = 2"

lemma generation_order_split:
  assumes "wf_ast ast" "map_of (ast_Functions ast) name = Some f" "entry name ic"
  obtains xs ys where "generation_order (ast_Functions ast) = xs @ f # ys" "fn_Name f = name" "\<forall>g\<in>set xs. fn_Name g \<noteq> name"
proof -
  let ?fs = "ast_Functions ast"
  have name: "fn_Name g = n" if "map_of ?fs n = Some g" for n g
    using assms(1) map_of_SomeD[OF that] by (auto simp: wf_ast_def)
  let ?others = "map snd (filter (\<lambda>(name, f). name \<noteq> ''init'' \<and> name \<noteq> ''call'') ?fs)"
  have others: "fn_Name g \<noteq> ''init'' \<and> fn_Name g \<noteq> ''call''" if "g \<in> set ?others" for g
    using that assms(1) by (auto simp: wf_ast_def)
  show thesis
  proof (cases "name = ''init''")
    case True
    show thesis
    proof (rule that[of "[]"])
      show "generation_order ?fs = [] @ f # (?others @ (case map_of ?fs ''call'' of Some f \<Rightarrow> [f] | None \<Rightarrow> []))"
        using assms(2) True by (simp add: generation_order_def)
    qed (use name[OF assms(2)] in simp_all)
  next
    case False
    then have call: "name = ''call''" using assms(3) by (simp add: entry_def)
    show thesis
    proof (rule that)
      show "generation_order ?fs = ((case map_of ?fs ''init'' of Some f \<Rightarrow> [f] | None \<Rightarrow> []) @ ?others) @ f # []"
        using assms(2) call by (simp add: generation_order_def)
      show "\<forall>g\<in>set ((case map_of ?fs ''init'' of Some f \<Rightarrow> [f] | None \<Rightarrow> []) @ ?others). fn_Name g \<noteq> name"
        using others name[of "''init''"] call by (auto split: option.splits)
    qed (rule name[OF assms(2)])
  qed
qed

lemma collect_fields:
  "cg_Instructions (CollectStringLiterals ast ctx) = cg_Instructions ctx \<and> cg_LoopStack (CollectStringLiterals ast ctx) = cg_LoopStack ctx \<and>
   cg_FunctionIndex (CollectStringLiterals ast ctx) = cg_FunctionIndex ctx \<and> cg_Ast (CollectStringLiterals ast ctx) = cg_Ast ctx"
proof -
  define same where "same = (\<lambda>(c :: CodegenContext) (c' :: CodegenContext). cg_Instructions c' = cg_Instructions c \<and> cg_LoopStack c' = cg_LoopStack c \<and>
      cg_FunctionIndex c' = cg_FunctionIndex c \<and> cg_Ast c' = cg_Ast c)"
  have reg: "same c (snd (RegisterStringLiteral v c))" for v c
    by (auto simp: same_def RegisterStringLiteral_def Let_def split: option.splits)
  have tr: "same c1 c2 \<Longrightarrow> same c2 c3 \<Longrightarrow> same c1 c3" and rf: "same c c" for c c1 c2 c3 by (auto simp: same_def)
  have e: "same c (collectStringLiteralsFromExpression e c)" "same c (collect_option oe c)" "same c (collect_list es c)" for c e oe es
    by (induction e c and oe c and es c rule: collectStringLiteralsFromExpression_collect_option_collect_list.induct)
      (auto simp: reg rf intro: tr)
  have b: "same c (collectStringLiteralsFromStatement s c)" "same c (collectStringLiteralsFromBlock b c)" "same c (collect_statements ss c)" for c s b ss
    by (induction s c and b c and ss c rule: collectStringLiteralsFromStatement_collectStringLiteralsFromBlock_collect_statements.induct)
      (auto simp: e rf Let_def split: option.splits intro: tr e, (metis e(1) tr)?)
  have "same c (fold (\<lambda>(name, f). collectStringLiteralsFromFunction f) fs c)" for fs c
    by (induction fs arbitrary: c) (auto simp: rf collectStringLiteralsFromFunction_def, metis tr b(2))
  from this[of ctx "ast_Functions ast"] show ?thesis by (simp add: CollectStringLiterals_def same_def)
qed

text \<open>The layout of a program without string literals: four jumps, of which two are taken to enter a function.\<close>

lemma emit_entries_plain:
  assumes "cg_StringLiterals ctx = []" "cg_Instructions ctx = []"
  shows "emit_entries ctx = (ctx\<lparr>cg_Instructions := concat (replicate 4 [MakeInstructionWithValue PUSH (VInt 0), MakeInstruction JUMP])\<rparr>, 4, 4, 6, 6)"
  using assms by (simp add: emit_entries_def Let_def GenerateStringInitialization_def Emit_def EmitPush_def eval_nat_numeral)

lemma program_code:
  assumes gen: "CodegenWithContext ast = Some ctx" and ast: "wf_ast ast" "no_literals ast"
    and f: "map_of (ast_Functions ast) name = Some f" "entry name ic"
  obtains cA c2 where "generateBlock (function_context cA f) (fn_Block f) = Some c2" "cg_LoopStack cA = []" "cg_Ast cA = ast" "8 \<le> here cA"
    "here c2 \<le> here ctx" "\<forall>j. 8 \<le> j \<longrightarrow> j < here c2 \<longrightarrow> cg_Instructions ctx ! j = cg_Instructions c2 ! j"
    "pushes (cg_Instructions ctx ! ic) (int (ic + 4))" "cg_Instructions ctx ! Suc ic = MakeInstruction JUMP"
    "pushes (cg_Instructions ctx ! (ic + 4)) (int (here cA))" "cg_Instructions ctx ! Suc (ic + 4) = MakeInstruction JUMP"
proof -
  let ?c0 = "CollectStringLiterals ast (new_context ast)"
  let ?code = "concat (replicate 4 [MakeInstructionWithValue PUSH (VInt 0), MakeInstruction JUMP])"
  define ce where "ce = ?c0\<lparr>cg_Instructions := ?code\<rparr>"
  have ce: "cg_Instructions ce = ?code" "here ce = 8" "cg_LoopStack ce = []" "cg_FunctionIndex ce = Map.empty" "cg_Ast ce = ast"
    using collect_fields[of ast "new_context ast"] by (simp_all add: ce_def new_context_def eval_nat_numeral)
  have ent: "emit_entries ?c0 = (ce, 4, 4, 6, 6)"
    using emit_entries_plain[of ?c0] ast(2) collect_fields[of ast "new_context ast"] by (simp add: ce_def no_literals_def new_context_def)
  obtain c i k where c: "generate_functions ce (generation_order (ast_Functions ast)) = Some c"
    "cg_FunctionIndex c ''init'' = Some i" "cg_FunctionIndex c ''call'' = Some k"
    "ctx = patch 6 k (patch 2 6 (patch 4 i (patch 0 4 c)))"
    using gen unfolding CodegenWithContext_def ent by (auto simp: bind_eq_Some_conv Let_def patch_def)
  obtain xs ys where o: "generation_order (ast_Functions ast) = xs @ f # ys" "fn_Name f = name" "\<forall>g\<in>set xs. fn_Name g \<noteq> name"
    by (rule generation_order_split[OF ast(1) f])
  obtain cA cB where g: "appended ce cA" "GenerateFunctionDefinition cA f = Some cB" "cg_FunctionIndex cA (fn_Name f) = None"
    "appended cB c" "cg_FunctionIndex c (fn_Name f) = Some (here cA)"
    using generate_functions_at[OF c(1)[unfolded o(1)] ce(3)] ce(4) o(2,3) by auto
  have A: "cg_LoopStack cA = []" "cg_Ast cA = ast" "8 \<le> here cA" using g(1) ce by (auto simp: appended_def)
  obtain c2 where c2: "generateBlock (function_context cA f) (fn_Block f) = Some c2" "appended cA c2" "appended c2 cB"
    by (rule GenerateFunctionDefinition_code[OF g(2,3) A(1)])
  have pre: "appended ce c" "appended c2 c" using g(1,4) c2(2,3) by (auto intro: appended_trans)
  have nth: "cg_Instructions c ! j = ?code ! j" if "j < 8" for j
    using pre(1) ce(1,2) that by (auto simp: appended_def nth_append)
  have len: "8 \<le> here c" "here ctx = here c" using pre(1) ce(2) c(4) by (auto simp: appended_def)
  have ops: "Opcode (cg_Instructions c ! j) = PUSH" if "j \<in> {0, 2, 4, 6}" for j
    using nth[of j] that by (auto simp: eval_nat_numeral)
  have jumps: "cg_Instructions c ! j = MakeInstruction JUMP" if "j \<in> {1, 3, 5, 7}" for j
    using nth[of j] that by (auto simp: eval_nat_numeral)
  have nthc: "cg_Instructions ctx ! j = (if j = 0 then (cg_Instructions c ! j)\<lparr>Value := Some (hex_int 4)\<rparr>
      else if j = 4 then (cg_Instructions c ! j)\<lparr>Value := Some (hex_int i)\<rparr>
      else if j = 2 then (cg_Instructions c ! j)\<lparr>Value := Some (hex_int 6)\<rparr>
      else if j = 6 then (cg_Instructions c ! j)\<lparr>Value := Some (hex_int k)\<rparr> else cg_Instructions c ! j)" if "j < here c" for j
    using that by (simp add: c(4) nth_patch del: length_greater_0_conv)
  have at: "cg_Instructions ctx ! 0 = (cg_Instructions c ! 0)\<lparr>Value := Some (hex_int 4)\<rparr>"
    "cg_Instructions ctx ! 2 = (cg_Instructions c ! 2)\<lparr>Value := Some (hex_int 6)\<rparr>"
    "cg_Instructions ctx ! 4 = (cg_Instructions c ! 4)\<lparr>Value := Some (hex_int i)\<rparr>"
    "cg_Instructions ctx ! 6 = (cg_Instructions c ! 6)\<lparr>Value := Some (hex_int k)\<rparr>"
    using len(1) nthc[of 0] nthc[of 2] nthc[of 4] nthc[of 6] by (simp_all del: length_greater_0_conv)
  have jump: "cg_Instructions ctx ! 1 = MakeInstruction JUMP" "cg_Instructions ctx ! 3 = MakeInstruction JUMP"
    "cg_Instructions ctx ! 5 = MakeInstruction JUMP" "cg_Instructions ctx ! 7 = MakeInstruction JUMP"
    using len(1) nthc[of 1] nthc[of 3] nthc[of 5] nthc[of 7] jumps by simp_all
  show thesis
  proof (rule that[OF c2(1) A])
    show "here c2 \<le> here ctx" using pre(2) len by (auto simp: appended_def)
    show "\<forall>j. 8 \<le> j \<longrightarrow> j < here c2 \<longrightarrow> cg_Instructions ctx ! j = cg_Instructions c2 ! j"
      using pre(2) nthc by (auto simp: appended_def nth_append)
    have ik: "ic = 0 \<Longrightarrow> i = here cA" "ic = 2 \<Longrightarrow> k = here cA"
      using f(2) g(5) c(2,3) o(2) by (auto simp: entry_def)
    consider "ic = 0" | "ic = 2" using f(2) by (auto simp: entry_def)
    then show "pushes (cg_Instructions ctx ! ic) (int (ic + 4))" "pushes (cg_Instructions ctx ! (ic + 4)) (int (here cA))"
      "cg_Instructions ctx ! Suc ic = MakeInstruction JUMP" "cg_Instructions ctx ! Suc (ic + 4) = MakeInstruction JUMP"
      using at jump ops ik pushes_patched[of _ 4] pushes_patched[of _ 6] pushes_patched[of _ "here cA"] by (cases; simp)+
  qed
qed

section \<open>Runs of compiled functions\<close>

text \<open>A machine that is about to run a contract with the given storage.\<close>

definition start :: "Instruction list \<Rightarrow> BlockchainContext \<Rightarrow> (string, string) gomap \<Rightarrow> nat \<Rightarrow> Runtime" where
  "start is bc storage ic = (NewRuntimeWithIC 0 is bc (int ic))\<lparr>Persistent := storage\<rparr>"

lemma start_at:
  "(NewRuntimeWithIC gas is bc (int ic))\<lparr>Persistent := storage\<rparr> = at (start is bc storage ic) (ic, [], NewMemory AVMMaxMemorySize) (unat gas, 0)"
  by (simp add: start_def NewRuntimeWithIC_def at_def NewStack_def)

lemma function_goes:
  assumes gen: "CodegenWithContext ast = Some ctx" and ast: "wf_ast ast" "no_literals ast" "no_strings (ast_Scope ast)"
    and f: "map_of (ast_Functions ast) name = Some f" "entry name ic" "fn_Parameters f = []"
    and body: "fn_Block f = Block ss vars" "ints_block (Block ss vars)" "ss \<noteq> []" "last ss = ReturnStmt e"
    and sem: "flat_execs Map.empty ss (Return w) \<sigma>"
    and small: "list_assignments ss + list_depth ss \<le> unat AVMMaxStackSize" "1 \<le> list_depth ss" "here ctx < 2 ^ 63"
    and r: "r = start (cg_Instructions ctx) bc storage ic" and m: "m = NewMemory AVMMaxMemorySize"
  shows "\<exists>n k s. goes r (ic, [], m) n (k, s @ [uint w], m) \<and> has r k (MakeInstruction RETURN)"
proof -
  obtain cA c2 where c: "generateBlock (function_context cA f) (fn_Block f) = Some c2" "cg_LoopStack cA = []" "cg_Ast cA = ast" "8 \<le> here cA"
    "here c2 \<le> here ctx" "\<forall>j. 8 \<le> j \<longrightarrow> j < here c2 \<longrightarrow> cg_Instructions ctx ! j = cg_Instructions c2 ! j"
    "pushes (cg_Instructions ctx ! ic) (int (ic + 4))" "cg_Instructions ctx ! Suc ic = MakeInstruction JUMP"
    "pushes (cg_Instructions ctx ! (ic + 4)) (int (here cA))" "cg_Instructions ctx ! Suc (ic + 4) = MakeInstruction JUMP"
    by (rule program_code[OF gen ast(1,2) f(1,2)])
  let ?cb = "(function_context cA f)\<lparr>cg_CurrentScope := [vars, ast_Scope ast]\<rparr>"
  obtain c3 where c3: "generate_statements ?cb ss = Some c3" "c2 = c3\<lparr>cg_CurrentScope := [ast_Scope ast]\<rparr>"
    using c(1,3) body(1) by (auto simp: bind_eq_Some_conv Let_def function_context_def)
  obtain bs where g: "grows ?cb c3 bs" using generateStatement_grows(5)[OF c3(1)] by blast
  have cb: "cg_LoopStack ?cb = []" "here ?cb = here cA" "cg_LocalOffsets ?cb = Map.empty" "cg_NextLocalOffset ?cb = 0"
    using c(2) f(3) by (simp_all add: function_context_def parameter_offsets_def)
  have bs: "bs = []" using g cb(1) by (simp add: grows_def)
  let ?L = "cg_LocalOffsets c3" and ?F = "cg_NextLocalOffset c3"
  have "locals_ok ?cb" using cb(3) by (simp add: locals_ok_def)
  then have lok: "locals_ok c3" using g by (simp add: grows_def)
  have F: "?F + list_depth ss \<le> unat AVMMaxStackSize" using next_local(5)[OF c3(1)] cb(4) small(1) by simp
  have rt: "Instructions r = cg_Instructions ctx" "FramePointer r = 0" "ReturnStack r = []" "stk_maxSize (Stack r) = AVMMaxStackSize"
    using r by (simp_all add: start_def NewRuntimeWithIC_def NewStack_def)
  have set: "setting r m ?L ?F"
    using lok rt small(3) m by (auto simp: setting_def machine_def locals_ok_def blank_def NewMemory_def)
  have fit: "fits r ?F (list_depth ss)" "fits r 0 1"
    using F rt(4) small(2) by (simp_all add: fits_def stack_fits_def AVMMaxStackSize_def)
  have le: "here cA < here c3"
  proof -
    obtain s1 ss1 where "ss = s1 # ss1" using body(3) by (cases ss) auto
    then obtain c' where "generateStatement ?cb s1 = Some c'" "generate_statements c' ss1 = Some c3"
      using c3(1) by (auto simp: bind_eq_Some_conv)
    with generateStatement_strict[OF this(1)] generateStatement_grows(5)[OF this(2)] cb(2) show ?thesis
      by (auto dest!: grows_here)
  qed
  have h3: "here c3 \<le> here ctx" using c(5) c3(2) by simp
  have "holds r c3 (here ?cb) bs 0" using c(4,6) c3(2) h3 bs cb(2) rt(1) by (auto simp: holds_def)
  then have rd: "ready r m ?L ?F ?cb c3 bs 0"
    using set g cb(1) ast(3) body(2) by (auto simp: ready_def)
  have "reaches r m ?L ?F (here ?cb) [] (here c3) 0 (ContinueAddr (hd (cg_LoopStack ?cb))) (Return w) \<sigma>"
    by (rule statement_correct(2)[OF sem c3(1) rd]) (use body fit in \<open>auto simp: frame_def followed_def\<close>)
  then obtain n k s where n: "goes r (here cA, [], m) n (k, s @ [uint w], m)" "has r k (MakeInstruction RETURN)"
    using cb(2) by (auto simp: reaches_def)
  have ic: "Suc (ic + 4) < here ctx" using f(2) c(4) le h3 by (auto simp: entry_def)
  have set0: "setting r m Map.empty 0" using set by (simp add: setting_def)
  have "\<exists>n. goes r (ic, [], m) n (ic + 4, [], m)" "\<exists>n. goes r (ic + 4, [], m) n (here cA, [], m)"
    using jump_correct[OF set0, of ic "cg_Instructions ctx ! ic" "ic + 4" "[]"] jump_correct[OF set0, of "ic + 4" "cg_Instructions ctx ! (ic + 4)" "here cA" "[]"]
      c(7-10) ic rt(1) fit(2) le h3 by (auto simp: has_def)
  with n show ?thesis by (meson goes_trans)
qed

text \<open>
  A run that computes a value: there is a cost such that with at least that much gas, and the price of the
  last instruction, it ends with the program stopped, exactly the cost used and the value on top of the
  stack; with less gas it ends out of gas.
\<close>

abbreviation runs_to :: "Instruction list \<Rightarrow> BlockchainContext \<Rightarrow> (string, string) gomap \<Rightarrow> nat \<Rightarrow> 256 word \<Rightarrow> nat \<Rightarrow> bool" where
  "runs_to is bc storage ic w cost \<equiv> \<forall>gas. if cost + unat (gas_price RETURN) \<le> unat gas
    then \<exists>r s. StartExecution ((NewRuntimeWithIC gas is bc (int ic))\<lparr>Persistent := storage\<rparr>) = Some (r, of_nat cost, Some ErrProgramStopped) \<and>
           stk_s (Stack r) = s @ [uint w] \<and> Persistent r = storage
    else \<exists>r u. StartExecution ((NewRuntimeWithIC gas is bc (int ic))\<lparr>Persistent := storage\<rparr>) = Some (r, u, Some ErrOutOfGas)"

text \<open>Runs of the compiled entry points.\<close>

lemma compiled_function_runs:
  assumes "CodegenWithContext ast = Some ctx" "wf_ast ast" "no_literals ast" "no_strings (ast_Scope ast)"
    and "map_of (ast_Functions ast) name = Some f" "entry name ic" "fn_Parameters f = []"
    and "fn_Block f = Block ss vars" "ints_block (Block ss vars)" "ss \<noteq> []" "last ss = ReturnStmt e"
    and "flat_execs Map.empty ss (Return w) \<sigma>"
    and "list_assignments ss + list_depth ss \<le> unat AVMMaxStackSize" "1 \<le> list_depth ss" "here ctx < 2 ^ 63"
  shows "\<exists>cost. runs_to (cg_Instructions ctx) bc storage ic w cost"
proof -
  let ?r = "start (cg_Instructions ctx) bc storage ic" and ?m = "NewMemory AVMMaxMemorySize"
  obtain n k s where n: "goes ?r (ic, [], ?m) n (k, s @ [uint w], ?m)" "has ?r k (MakeInstruction RETURN)"
    using function_goes[OF assms refl refl, of bc storage] by blast
  have rs: "ReturnStack ?r = []" by (simp add: start_def NewRuntimeWithIC_def)
  have st: "StartExecution ((NewRuntimeWithIC gas is bc i)\<lparr>Persistent := p\<rparr>) = (case run ((NewRuntimeWithIC gas is bc i)\<lparr>Persistent := p\<rparr>) of
      None \<Rightarrow> None | Some (r', e) \<Rightarrow> Some (r', GasUsed r', e))" for gas "is" i p
    by (simp add: StartExecution_def NewRuntimeWithIC_def NewStack_def)
  have p: "Persistent (at ?r c g) = storage" for c g by (cases c) (simp add: at_def start_def)
  have "if n + unat (gas_price RETURN) \<le> unat gas
      then \<exists>r s. StartExecution ((NewRuntimeWithIC gas (cg_Instructions ctx) bc (int ic))\<lparr>Persistent := storage\<rparr>) = Some (r, of_nat n, Some ErrProgramStopped) \<and>
             stk_s (Stack r) = s @ [uint w] \<and> Persistent r = storage
      else \<exists>r u. StartExecution ((NewRuntimeWithIC gas (cg_Instructions ctx) bc (int ic))\<lparr>Persistent := storage\<rparr>) = Some (r, u, Some ErrOutOfGas)" for gas
  proof -
    have "unat gas < 2 ^ 64" using unsigned_less[of gas, where ?'a = nat] by simp
    from goes_returns[OF n rs this, of 0] show ?thesis
      unfolding st unfolding start_at by (auto simp: out_of_gas_def p split: if_splits)
  qed
  then show ?thesis by metis
qed

text \<open>
  C6. The compiler is correct for functions over integers that never declare a name while it is visible and
  whose divisions are exact: started at the entry point of \<open>init\<close> or \<open>call\<close>, the virtual machine executes
  the compiled contract to the value that the body of the function returns according to the semantics of
  the language, in which every block has its own scope. There is a cost such that with at least that
  much gas, and the price of the last instruction, the run ends with the program stopped, exactly the
  cost used and the value on top of the stack; with less gas it ends out of gas, and never otherwise.
  A declaration that hides a visible variable is excluded, since the code would overwrite that variable;
  a body that computes an inexact quotient, or a remainder of a negative number, has no meaning.
\<close>

theorem compiled_function_correct:
  assumes "CodegenWithContext ast = Some ctx" "wf_ast ast" "no_literals ast" "no_strings (ast_Scope ast)"
    and "map_of (ast_Functions ast) name = Some f" "entry name ic" "fn_Parameters f = []"
    and "fn_Block f = Block ss vars" "ints_block (Block ss vars)" "ss \<noteq> []" "last ss = ReturnStmt e"
    and "execs [Map.empty] ss (Return w) \<Gamma>" "unshadowed_list [] ss"
    and "list_assignments ss + list_depth ss \<le> unat AVMMaxStackSize" "1 \<le> list_depth ss" "here ctx < 2 ^ 63"
  shows "\<exists>cost. \<forall>gas. if cost + unat (gas_price RETURN) \<le> unat gas
    then \<exists>r s. StartExecution (NewRuntimeWithIC gas (cg_Instructions ctx) bc (int ic)) = Some (r, of_nat cost, Some ErrProgramStopped) \<and>
           stk_s (Stack r) = s @ [uint w]
    else \<exists>r u. StartExecution (NewRuntimeWithIC gas (cg_Instructions ctx) bc (int ic)) = Some (r, u, Some ErrOutOfGas)"
proof -
  have "(NewRuntimeWithIC gas is bc ic)\<lparr>Persistent := []\<rparr> = NewRuntimeWithIC gas is bc ic" for gas "is" ic
    by (simp add: NewRuntimeWithIC_def)
  moreover obtain \<sigma> where "flat_execs Map.empty ss (Return w) \<sigma>" using function_flat[OF assms(12,13)] by blast
  ultimately show ?thesis using compiled_function_runs[where bc = bc and storage = "[]", OF assms(1-11) _ assms(14-16)] by metis
qed

text \<open>A contract whose functions count a variable up to 3 in a loop.\<close>

definition count_body :: "Statement list" where
  "count_body =
     [AssignmentStmt (Some IntType) (IdentifierExpr ''x'') (Some (LiteralExpr TInt ''2'')),
      WhileStmt (BinaryExpr TLessThan (IdentifierExpr ''x'') (Some (LiteralExpr TInt ''3'')))
        (Block [AssignmentStmt None (IdentifierExpr ''x'') (Some (BinaryExpr TPlus (IdentifierExpr ''x'') (Some (LiteralExpr TInt ''1''))))] []),
      ReturnStmt (Some (IdentifierExpr ''x''))]"

definition count_function :: "string \<Rightarrow> Function" where
  "count_function name = \<lparr>fn_Name = name, fn_Parameters = [], fn_ParameterTypes = [], fn_ReturnType = IntType,
     fn_Block = Block count_body [(''x'', IntType)]\<rparr>"

definition count_ast :: Ast where
  "count_ast = NewAst\<lparr>ast_Functions := [(''call'', count_function ''call''), (''init'', count_function ''init'')]\<rparr>"

lemma count_exec: "execs [Map.empty] count_body (Return 3) [[''x'' \<mapsto> 3]]" "unshadowed_list [] count_body"
proof -
  let ?c = "BinaryExpr TLessThan (IdentifierExpr ''x'') (Some (LiteralExpr TInt ''3''))"
  let ?e = "BinaryExpr TPlus (IdentifierExpr ''x'') (Some (LiteralExpr TInt ''1''))"
  let ?b = "Block [AssignmentStmt None (IdentifierExpr ''x'') (Some ?e)] []"
  have two: "eval \<sigma> (LiteralExpr TInt ''2'') = Some 2" for \<sigma> by (simp add: read_nat_def digit_val_def pos_value_def)
  have three: "eval \<sigma> ?c = Some (truth (sint a < 3))" if "\<sigma> ''x'' = Some a" for \<sigma> a
    using that by (simp add: read_nat_def digit_val_def pos_value_def binary_value_def GetBlockchainContextVariable_def)
  have up: "eval \<sigma> ?e = Some (a + 1)" if "\<sigma> ''x'' = Some a" for \<sigma> a
    using that by (simp add: read_nat_def digit_val_def pos_value_def binary_value_def GetBlockchainContextVariable_def)
  have "eval (lookup [[''x'' \<mapsto> 3]]) ?c = Some 0" using three[of "lookup [[''x'' \<mapsto> 3]]" 3] by (simp del: eval.simps add: truth_def)
  then have last: "exec [[''x'' \<mapsto> 3]] (WhileStmt ?c ?b) Normal [[''x'' \<mapsto> 3]]" by (rule exec_execs.while_false)
  have "exec [Map.empty, [''x'' \<mapsto> 2]] (AssignmentStmt None (IdentifierExpr ''x'') (Some ?e)) Normal (update [Map.empty, [''x'' \<mapsto> 2]] ''x'' 3)"
    using up[of "lookup [Map.empty, [''x'' \<mapsto> 2]]" 2] by (intro exec_execs.assign) (simp_all del: eval.simps)
  from exec_execs.cons[OF this exec_execs.nil]
  have body: "execs [Map.empty, [''x'' \<mapsto> 2]] [AssignmentStmt None (IdentifierExpr ''x'') (Some ?e)] Normal [Map.empty, [''x'' \<mapsto> 3]]" by simp
  have loop: "exec [[''x'' \<mapsto> 2]] (WhileStmt ?c ?b) Normal [[''x'' \<mapsto> 3]]"
    by (rule exec_execs.while_again[OF three[of "lookup [[''x'' \<mapsto> 2]]" 2] _ body _ last]) (simp_all add: truth_def)
  have ret: "execs [[''x'' \<mapsto> 3]] [ReturnStmt (Some (IdentifierExpr ''x''))] (Return 3) [[''x'' \<mapsto> 3]]"
    by (rule exec_execs.leave[OF exec_execs.return]) (simp_all add: GetBlockchainContextVariable_def)
  show "execs [Map.empty] count_body (Return 3) [[''x'' \<mapsto> 3]]"
    unfolding count_body_def by (rule exec_execs.cons[OF exec_execs.introduce[OF two] exec_execs.cons[OF loop ret]])
  show "unshadowed_list [] count_body" by (simp add: count_body_def)
qed

theorem compiled_function_correct_witness:
  "\<exists>cost. \<forall>gas. if cost + unat (gas_price RETURN) \<le> unat gas
    then \<exists>r s. StartExecution (NewRuntimeWithIC gas (cg_Instructions (the (CodegenWithContext count_ast))) MockBlockchainContext (int 2)) =
             Some (r, of_nat cost, Some ErrProgramStopped) \<and> stk_s (Stack r) = s @ [uint (3 :: 256 word)]
    else \<exists>r u. StartExecution (NewRuntimeWithIC gas (cg_Instructions (the (CodegenWithContext count_ast))) MockBlockchainContext (int 2)) =
             Some (r, u, Some ErrOutOfGas)"
proof -
  have "map_option here (CodegenWithContext count_ast) = Some 50" by code_simp
  then obtain ctx where ctx: "CodegenWithContext count_ast = Some ctx" "here ctx = 50" by auto
  then have len: "here ctx < 2 ^ 63" by simp
  have ast: "wf_ast count_ast" "no_literals count_ast"
    unfolding wf_ast_def no_literals_def by (simp add: count_ast_def count_function_def, code_simp)
  have strings: "no_strings (ast_Scope count_ast)" "ints_block (Block count_body [(''x'', IntType)])"
    by (auto simp: no_strings_def count_ast_def NewAst_def NewArrayType_def NewMapType_def simple_types count_body_def)
  have f: "map_of (ast_Functions count_ast) ''call'' = Some (count_function ''call'')" "entry ''call'' 2"
    "fn_Parameters (count_function ''call'') = []" "fn_Block (count_function ''call'') = Block count_body [(''x'', IntType)]"
    by (simp_all add: count_ast_def count_function_def entry_def)
  have body: "count_body \<noteq> []" "last count_body = ReturnStmt (Some (IdentifierExpr ''x''))" by (simp_all add: count_body_def)
  have small: "list_assignments count_body + list_depth count_body \<le> unat AVMMaxStackSize" "1 \<le> list_depth count_body" by code_simp+
  from compiled_function_correct[OF ctx(1) ast strings(1) f strings(2) body count_exec small len, of MockBlockchainContext]
  show ?thesis unfolding ctx(1) option.sel .
qed

end
