(* ===== verification/Marigold_Checked.thy ===== *)
theory Marigold_Checked
  imports Marigold_Typing Marigold_Programs
begin

text \<open>
  The type checker and the code generator together: a program that type checks and keeps to the part of
  the language that the code generator supports is compiled, with no panic left.
\<close>

section \<open>What checking a statement leaves unchanged\<close>

text \<open>Scopes that differ in context variables only.\<close>

definition same_vars :: "Variables \<Rightarrow> Variables \<Rightarrow> bool" where
  "same_vars vars vars' \<longleftrightarrow> (\<forall>x. GetBlockchainContextVariable x = None \<longrightarrow> map_of vars' x = map_of vars x)"

abbreviation same_scopes :: "Variables list \<Rightarrow> Variables list \<Rightarrow> bool" where
  "same_scopes \<equiv> list_all2 same_vars"

lemma same_vars_refl [simp]: "same_vars vars vars"
  by (simp add: same_vars_def)

lemma same_vars_trans: "same_vars u v \<Longrightarrow> same_vars v w \<Longrightarrow> same_vars u w"
  by (simp add: same_vars_def)

lemma same_scopes_refl [simp]: "same_scopes ss ss"
  by (simp add: list_all2_same)

lemma same_scopes_trans: "same_scopes ss ss' \<Longrightarrow> same_scopes ss' ss'' \<Longrightarrow> same_scopes ss ss''"
  by (rule list_all2_trans[OF same_vars_trans])

lemma same_scopes_find: "same_scopes ss ss' \<Longrightarrow> GetBlockchainContextVariable x = None \<Longrightarrow> findVariable ss' x = findVariable ss x"
  by (induction ss ss' rule: list_all2_induct) (auto simp: same_vars_def split: option.splits)

lemma same_scopes_tl: "same_scopes ss ss' \<Longrightarrow> same_scopes (tl ss) (tl ss')"
  by (cases ss; cases ss') auto

lemma loads_same: "loads ctx ctx' \<Longrightarrow> same_scopes (tc_currentScope ctx) (tc_currentScope ctx')"
proof -
  assume "loads ctx ctx'"
  then obtain vars where v: "tc_currentScope ctx' = butlast (tc_currentScope ctx) @ [vars]" "tc_currentScope ctx \<noteq> []"
    "same_vars (last (tc_currentScope ctx)) vars"
    unfolding loads_def same_vars_def by fastforce
  then have "same_scopes (butlast (tc_currentScope ctx) @ [last (tc_currentScope ctx)]) (tc_currentScope ctx')"
    by (simp del: append_butlast_last_id add: list_all2_appendI)
  with v(2) show ?thesis by simp
qed

text \<open>A statement adds variables to the current scope only; outside, context variables may be loaded.\<close>

definition keeps :: "TypeCheckContext \<Rightarrow> TypeCheckContext \<Rightarrow> bool" where
  "keeps ctx ctx' \<longleftrightarrow> tc_Functions ctx' = tc_Functions ctx \<and> tc_currentFunction ctx' = tc_currentFunction ctx \<and>
     tc_inLoop ctx' = tc_inLoop ctx \<and> tc_currentScope ctx' \<noteq> [] \<and>
     same_scopes (tl (tc_currentScope ctx)) (tl (tc_currentScope ctx'))"

lemma keeps_refl: "tc_currentScope ctx \<noteq> [] \<Longrightarrow> keeps ctx ctx"
  by (simp add: keeps_def)

lemma keeps_trans: "keeps c1 c2 \<Longrightarrow> keeps c2 c3 \<Longrightarrow> keeps c1 c3"
  using same_scopes_trans by (auto simp: keeps_def)

lemma loads_keeps: "loads ctx ctx' \<Longrightarrow> keeps ctx ctx'"
  by (simp add: keeps_def loads_simps same_scopes_tl loads_same)

lemma keeps_add_local: "keeps ctx ctx' \<Longrightarrow> keeps ctx (add_local x t ctx')"
  by (simp add: keeps_def add_local_def Let_def)

lemma declarationE:
  assumes "typecheck_declaration ctx vt lhs rhs = Some (ctx', vt')" "tc_currentScope ctx \<noteq> []"
  obtains c1 x where "node_value lhs = Some x" "loads ctx c1" "ctx' = add_local x vt' c1"
    "\<And>e. rhs = Some e \<Longrightarrow> \<exists>T. typecheckExpression ctx e = Some (T, c1)"
proof (cases rhs)
  case None
  with assms show ?thesis
    by (cases "node_value lhs") (auto intro!: that[of _ ctx] simp: typecheck_declaration_def bind_eq_Some_conv split: if_splits)
next
  case (Some e)
  with assms obtain x T c1 where "node_value lhs = Some x" "typecheckExpression ctx e = Some (T, c1)" "ctx' = add_local x vt' c1"
    by (auto simp: typecheck_declaration_def bind_eq_Some_conv split: if_splits)
  with Some that typecheckExpression_loads(1)[OF _ assms(2)] show ?thesis by blast
qed

lemma reassignmentE:
  assumes "typecheck_reassignment ctx lhs rhs = Some ctx'" "tc_currentScope ctx \<noteq> []"
  obtains c1 e T where "rhs = Some e" "typecheckExpression c1 e = Some (T, ctx')" "loads ctx c1" "loads c1 ctx'"
    "\<And>x. lhs = IdentifierExpr x \<Longrightarrow> c1 = ctx \<and> findVariable (tc_currentScope ctx) x \<noteq> None"
    "\<And>b k. lhs = IndexExpr b k \<Longrightarrow> \<exists>T. typecheckExpression ctx lhs = Some (T, c1)"
proof -
  obtain lt c1 rt where c: "(case lhs of
         IdentifierExpr varName \<Rightarrow>
           (case findVariable (tc_currentScope ctx) varName of Some t \<Rightarrow> Some (Some t, ctx) | None \<Rightarrow> None)
       | IndexExpr base key \<Rightarrow> typecheckExpression ctx lhs
       | _ \<Rightarrow> None) = Some (lt, c1)" "typecheck_operand c1 rhs = Some (Some rt, ctx')"
    using assms(1) by (auto simp: typecheck_reassignment_def bind_eq_Some_conv split: if_splits)
  have 1: "loads ctx c1"
    using c(1) assms(2) typecheckExpression_loads(1)[of ctx lhs lt c1]
    by (cases lhs) (auto simp del: typecheckExpression.simps split: option.splits)
  obtain e where e: "rhs = Some e" "typecheckExpression c1 e = Some (Some rt, ctx')" using c(2) by (cases rhs) auto
  note 2 = typecheckExpression_loads(1)[OF e(2) loads_simps(4)[OF 1]]
  show ?thesis using c(1) by (intro that[OF e 1 2]) (auto simp del: typecheckExpression.simps split: option.splits, metis)
qed

lemma returnE:
  assumes "typecheck_return ctx rhs = Some ctx'" "tc_currentScope ctx \<noteq> []"
  obtains e T where "rhs = Some e" "typecheckExpression ctx e = Some (T, ctx')" "loads ctx ctx'"
proof -
  obtain T where T: "typecheck_operand ctx rhs = Some (T, ctx')"
    using assms(1) by (auto simp: typecheck_return_def bind_eq_Some_conv Let_def split: if_splits)
  then obtain e where "rhs = Some e" by (cases rhs) auto
  with T that typecheckExpression_loads(1)[OF _ assms(2)] show ?thesis by auto
qed

lemma conditionE:
  assumes "typecheck_condition ctx e = Some ctx'" "tc_currentScope ctx \<noteq> []"
  obtains T where "typecheckExpression ctx e = Some (T, ctx')" "loads ctx ctx'"
  using assms typecheckExpression_loads(1)[OF _ assms(2)]
  by (auto simp: typecheck_condition_def bind_eq_Some_conv split: if_splits)

lemma typecheck_statement_keeps:
  "typecheck_statement ctx st = Some (ctx', st') \<Longrightarrow> tc_currentScope ctx \<noteq> [] \<Longrightarrow> keeps ctx ctx'"
  "typecheck_nested ctx l b = Some (ctx', b') \<Longrightarrow> tc_currentScope ctx \<noteq> [] \<Longrightarrow>
     keeps ctx ctx' \<and> same_scopes (tc_currentScope ctx) (tc_currentScope ctx')"
  "typecheck_statements ctx ss = Some (ctx', ss') \<Longrightarrow> tc_currentScope ctx \<noteq> [] \<Longrightarrow> keeps ctx ctx'"
proof (induction ctx st and ctx l b and ctx ss arbitrary: ctx' st' and ctx' b' and ctx' ss'
    rule: typecheck_statement_typecheck_nested_typecheck_statements.induct)
  case (1 ctx varType lhs rhs)
  show ?case
  proof (cases varType)
    case None
    with 1 show ?thesis by (auto simp: bind_eq_Some_conv elim!: reassignmentE intro: loads_keeps keeps_trans)
  next
    case (Some t)
    with 1 show ?thesis by (auto simp: bind_eq_Some_conv elim!: declarationE intro: keeps_add_local[OF loads_keeps])
  qed
next
  case (2 ctx rhs)
  then show ?case by (auto simp: bind_eq_Some_conv elim!: returnE intro: loads_keeps)
next
  case (3 ctx cond block elseBlock)
  then obtain c1 c2 b2 where c: "typecheck_condition ctx cond = Some c1" "typecheck_nested c1 (tc_inLoop c1) block = Some (c2, b2)"
    by (auto simp: bind_eq_Some_conv)
  obtain T where l: "loads ctx c1" by (rule conditionE[OF c(1) 3(4)])
  have k: "keeps ctx c2" using 3(1)[OF c] keeps_trans[OF loads_keeps[OF l]] loads_simps(4)[OF l] by simp
  show ?case
  proof (cases elseBlock)
    case None
    with 3 c k show ?thesis by auto
  next
    case (Some b)
    then obtain b3 where "typecheck_nested c2 (tc_inLoop c2) b = Some (ctx', b3)" using 3(3) c by (auto simp: bind_eq_Some_conv)
    with 3(2)[OF c refl Some] k keeps_trans[OF k] show ?thesis by (auto simp: keeps_def)
  qed
next
  case (4 ctx cond block)
  then obtain c1 b2 where c: "typecheck_condition ctx cond = Some c1" "typecheck_nested c1 True block = Some (ctx', b2)"
    by (auto simp: bind_eq_Some_conv)
  obtain T where l: "loads ctx c1" by (rule conditionE[OF c(1) 4(3)])
  from 4(1)[OF c] keeps_trans[OF loads_keeps[OF l]] loads_simps(4)[OF l] show ?case by simp
next
  case (7 ctx rhs)
  then show ?case using typecheckExpression_loads(1) by (auto simp: bind_eq_Some_conv intro: loads_keeps)
next
  case (8 ctx inLoop stmts vars)
  let ?c = "ctx\<lparr>tc_currentScope := vars # tc_currentScope ctx, tc_inLoop := inLoop\<rparr>"
  obtain c1 ss1 where c: "typecheck_statements ?c stmts = Some (c1, ss1)"
    "ctx' = c1\<lparr>tc_currentScope := tl (tc_currentScope c1), tc_inLoop := tc_inLoop ctx\<rparr>"
    using 8(2) by (auto simp: bind_eq_Some_conv)
  have k: "keeps ?c c1" using 8(1)[OF c(1)] by simp
  then have s: "same_scopes (tc_currentScope ctx) (tc_currentScope ctx')" by (simp add: keeps_def c(2))
  with 8(3) have "tc_currentScope ctx' \<noteq> []" by auto
  with k s show ?case by (auto simp: keeps_def c(2) same_scopes_tl)
next
  case (10 ctx stmt stmts)
  then obtain c1 s1 ss1 where c: "typecheck_statement ctx stmt = Some (c1, s1)" "typecheck_statements c1 stmts = Some (ctx', ss1)"
    by (auto simp: bind_eq_Some_conv)
  have k: "keeps ctx c1" by (rule 10(1)[OF c(1) 10(4)])
  have "tc_currentScope c1 \<noteq> []" using k by (simp add: keeps_def)
  from 10(2)[OF c(1) refl c(2) this] k show ?case by (rule keeps_trans[rotated])
qed (auto simp: keeps_refl split: if_splits)

section \<open>The supported part of the language\<close>

text \<open>
  Integer and string literals, variables, context variables, the operators that have code, the built-in
  functions \<open>emit\<close> and \<open>float\<close>, and the storages \<open>persistent\<close> and \<open>memory\<close>; declarations have a value. The
  predicate \<open>loc\<close> holds of the names that are used as local variables. Scopes are empty, as the parser
  leaves them.
\<close>

abbreviation compiled_operators :: "TokenType set" where
  "compiled_operators \<equiv> {TPlus, TMinus, TMultiply, TDivide, TModulo, TEqual, TNotEqual, TLessThan, TGreaterThan, TLessEqual, TGreaterEqual}"

abbreviation storage :: "Expression \<Rightarrow> bool" where
  "storage b \<equiv> b = IdentifierExpr ''persistent'' \<or> b = IdentifierExpr ''memory''"

fun supported :: "(string \<Rightarrow> bool) \<Rightarrow> Expression \<Rightarrow> bool" where
  "supported loc (LiteralExpr vt v) \<longleftrightarrow> vt = TInt \<or> vt = TString"
| "supported loc (IdentifierExpr x) \<longleftrightarrow> loc x \<or> GetBlockchainContextVariable x \<noteq> None"
| "supported loc (BinaryExpr op l (Some r)) \<longleftrightarrow> op \<in> compiled_operators \<and> supported loc l \<and> supported loc r"
| "supported loc (UnaryExpr op (Some e)) \<longleftrightarrow> supported loc e"
| "supported loc (CallExpr f [e]) \<longleftrightarrow> (f = ''emit'' \<or> f = ''float'') \<and> supported loc e"
| "supported loc (IndexExpr b k) \<longleftrightarrow> storage b \<and> supported loc k"
| "supported loc _ \<longleftrightarrow> False"

fun supported_target :: "(string \<Rightarrow> bool) \<Rightarrow> Expression \<Rightarrow> bool" where
  "supported_target loc (IdentifierExpr x) \<longleftrightarrow> True"
| "supported_target loc (IndexExpr b k) \<longleftrightarrow> storage b \<and> supported loc k"
| "supported_target loc _ \<longleftrightarrow> False"

fun supported_statement :: "(string \<Rightarrow> bool) \<Rightarrow> Statement \<Rightarrow> bool"
  and supported_block :: "(string \<Rightarrow> bool) \<Rightarrow> Block \<Rightarrow> bool"
  and supported_list :: "(string \<Rightarrow> bool) \<Rightarrow> Statement list \<Rightarrow> bool" where
  "supported_statement loc (AssignmentStmt vt lhs rhs) \<longleftrightarrow>
     supported_target loc lhs \<and> (case rhs of Some e \<Rightarrow> supported loc e | None \<Rightarrow> False)"
| "supported_statement loc (ReturnStmt rhs) \<longleftrightarrow> (case rhs of Some e \<Rightarrow> supported loc e | None \<Rightarrow> True)"
| "supported_statement loc (IfStmt c b eb) \<longleftrightarrow>
     supported loc c \<and> supported_block loc b \<and> (case eb of Some b \<Rightarrow> supported_block loc b | None \<Rightarrow> True)"
| "supported_statement loc (WhileStmt c b) \<longleftrightarrow> supported loc c \<and> supported_block loc b"
| "supported_statement loc (ExpressionStmt e) \<longleftrightarrow> supported loc e"
| "supported_statement loc _ \<longleftrightarrow> True"
| "supported_block loc (Block ss vars) \<longleftrightarrow> vars = [] \<and> supported_list loc ss"
| "supported_list loc [] \<longleftrightarrow> True"
| "supported_list loc (s # ss) \<longleftrightarrow> supported_statement loc s \<and> supported_list loc ss"

section \<open>Checked code is generated\<close>

text \<open>Every local variable in scope has a place in the frame.\<close>

definition covers :: "(string \<Rightarrow> bool) \<Rightarrow> (string, Function) gomap \<Rightarrow> TypeCheckContext \<Rightarrow> CodegenContext \<Rightarrow> bool" where
  "covers loc F ctx cg \<longleftrightarrow> tc_currentScope ctx \<noteq> [] \<and> tc_Functions ctx = F \<and> cg_CurrentFunction cg \<noteq> None \<and>
     (tc_inLoop ctx \<longrightarrow> cg_LoopStack cg \<noteq> []) \<and>
     (\<forall>x. loc x \<longrightarrow> findVariable (tc_currentScope ctx) x \<noteq> None \<longrightarrow> cg_LocalOffsets cg x \<noteq> None)"

lemma inject_parameters_names:
  "inject_parameters params types scope = Some vars \<Longrightarrow> map_of vars x \<noteq> None \<Longrightarrow> x \<in> set params \<or> map_of scope x \<noteq> None"
proof (induction params types scope arbitrary: vars rule: inject_parameters.induct)
  case (2 paramName params types scope)
  show ?case
  proof (cases types)
    case (Cons t ts)
    with 2 have "x \<in> set params \<or> map_of (go_store paramName t scope) x \<noteq> None" by (auto split: if_splits)
    then show ?thesis by (auto split: if_splits)
  qed (use 2 in \<open>auto split: if_splits\<close>)
qed simp

lemma parameter_offsets_some:
  assumes "x \<in> set params"
  shows "parameter_offsets params x \<noteq> None"
proof -
  have "fst ` set (zip params [0..<length params]) = set params"
    by (metis diff_zero image_set length_upt map_fst_zip)
  with assms show ?thesis by (simp add: parameter_offsets_def map_of_eq_None_iff)
qed

text \<open>
  What the code generator relies on: names used as variables are neither context variables nor
  functions, so the type checker finds them in a scope.
\<close>

locale checked_names =
  fixes loc :: "string \<Rightarrow> bool" and F :: "(string, Function) gomap"
  assumes loc_context: "loc x \<Longrightarrow> GetBlockchainContextVariable x = None"
    and loc_function: "loc x \<Longrightarrow> map_of F x = None"
begin

lemma covers_same:
  assumes "covers loc F ctx cg" "grows cg cg' bs" "same_scopes (tc_currentScope ctx) (tc_currentScope ctx')"
    "tc_Functions ctx' = tc_Functions ctx" "tc_inLoop ctx' = tc_inLoop ctx"
  shows "covers loc F ctx' cg'"
proof -
  have "cg_LoopStack cg' = [] \<Longrightarrow> cg_LoopStack cg = []"
    using assms(2) by (cases "cg_LoopStack cg") (auto simp: grows_def)
  moreover have "cg_LocalOffsets cg x \<noteq> None \<Longrightarrow> cg_LocalOffsets cg' x \<noteq> None" for x
    using assms(2) unfolding grows_def map_le_def by (metis domIff)
  moreover have "tc_currentScope ctx' \<noteq> []" using assms(1,3) by (auto simp: covers_def)
  ultimately show ?thesis
    using assms same_scopes_find[OF assms(3) loc_context]
    by (auto simp: covers_def grows_def same_place_def)
qed

lemma covers_grows: "covers loc F ctx cg \<Longrightarrow> grows cg cg' bs \<Longrightarrow> loads ctx ctx' \<Longrightarrow> covers loc F ctx' cg'"
  by (rule covers_same) (simp_all add: loads_simps loads_same)

lemma expression_covers:
  assumes "GenerateExpression cg e = Some cg'" "loads ctx ctx'" "covers loc F ctx cg"
  shows "covers loc F ctx' cg'"
  by (rule covers_grows[OF assms(3) extends_grows[OF GenerateExpression_extends(1)[OF assms(1)]] assms(2)])

lemma expression_generated:
  "supported loc e \<Longrightarrow> typecheckExpression ctx e = Some (T, ctx') \<Longrightarrow> covers loc F ctx cg \<Longrightarrow>
    \<exists>cg'. GenerateExpression cg e = Some cg' \<and> covers loc F ctx' cg'"
proof -
  have gen: "covers loc F ctx' cg'" if "GenerateExpression cg e = Some cg'" "typecheckExpression ctx e = Some (T, ctx')" "covers loc F ctx cg"
    for e T ctx ctx' cg cg'
  proof (rule covers_grows[OF that(3) extends_grows[OF GenerateExpression_extends(1)[OF that(1)]]])
    show "loads ctx ctx'" using typecheckExpression_loads(1)[OF that(2)] that(3) by (simp add: covers_def)
  qed
  assume "supported loc e" "typecheckExpression ctx e = Some (T, ctx')" "covers loc F ctx cg"
  then have "\<exists>cg'. GenerateExpression cg e = Some cg'"
  proof (induction e arbitrary: T ctx ctx' cg)
    case (BinaryExpr op l ro)
    then obtain r where r: "ro = Some r" "op \<in> compiled_operators" "supported loc l" "supported loc r" by (cases ro) auto
    obtain a c1 b where c: "typecheckExpression ctx l = Some (Some a, c1)" "typecheckExpression c1 r = Some (Some b, ctx')"
      using BinaryExpr.prems(2) r(1) by (auto simp: bind_eq_Some_conv split: if_splits)
    obtain cg1 where 1: "GenerateExpression cg l = Some cg1" using BinaryExpr.IH(1)[OF r(3) c(1) BinaryExpr.prems(3)] by blast
    then obtain cg2 where "GenerateExpression cg1 r = Some cg2"
      using BinaryExpr.IH(2)[OF _ r(4) c(2) gen[OF _ c(1) BinaryExpr.prems(3)]] r(1) by auto
    with 1 r(1,2) show ?case by (auto simp: emit_binary_def)
  next
    case (UnaryExpr op ro)
    then obtain e where e: "ro = Some e" "supported loc e" by (cases ro) auto
    obtain t where c: "typecheckExpression ctx e = Some (Some t, ctx')" "op = TMinus"
      using UnaryExpr.prems(2) e(1) by (auto simp: bind_eq_Some_conv isValidUnaryOperatorUse_def split: if_splits TokenType.splits)
    from UnaryExpr.IH[OF _ e(2) c(1) UnaryExpr.prems(3)] e(1) c(2) show ?case by (auto simp: emit_unary_def)
  next
    case (CallExpr f args)
    then obtain e where e: "args = [e]" "f = ''emit'' \<or> f = ''float''" "supported loc e"
      by (cases args rule: list.exhaust[case_product list.exhaust, of _ "tl args"]) auto
    then obtain t where "typecheckExpression ctx e = Some (Some t, ctx')"
      using CallExpr.prems(2) by (auto simp: bind_eq_Some_conv builtin_type_def Let_def)
    from CallExpr.IH[OF _ e(3) this CallExpr.prems(3)] e(1) obtain cg' where "GenerateExpression cg e = Some cg'" by auto
    then show ?case using e(1,2) by (elim disjE) (simp_all add: builtin_def)
  next
    case (IdentifierExpr x)
    show ?case
    proof (cases "GetBlockchainContextVariable x")
      case None
      with IdentifierExpr loc_function[of x] show ?thesis
        by (auto simp: identifier_type_def covers_def generateIdentifier_def split: option.splits)
    next
      case (Some t)
      then show ?thesis
        by (auto simp: generateIdentifier_def GetBlockchainContextVariable_def context_opcode_def split: if_splits)
    qed
  next
    case (IndexExpr b k)
    obtain a c1 i where c: "typecheckExpression ctx b = Some (a, c1)" "typecheckExpression c1 k = Some (i, ctx')"
      using IndexExpr.prems(2) by (auto simp: bind_eq_Some_conv)
    have "loads ctx c1" using typecheckExpression_loads(1)[OF c(1)] IndexExpr.prems(3) by (simp add: covers_def)
    then have "covers loc F c1 cg" using covers_grows[OF IndexExpr.prems(3) grows_refl] by blast
    with IndexExpr.IH(2)[OF _ c(2)] IndexExpr.prems(1) show ?case by auto
  qed (auto simp: generateLiteral_def split: prod.splits)
  with gen \<open>typecheckExpression ctx e = Some (T, ctx')\<close> \<open>covers loc F ctx cg\<close> show ?thesis by blast
qed

lemma covers_emit [simp]:
  "covers loc F ctx (Emit op cg) = covers loc F ctx cg" "covers loc F ctx (EmitPush v cg) = covers loc F ctx cg"
  "covers loc F ctx (patch i t cg) = covers loc F ctx cg" "covers loc F ctx (cg\<lparr>cg_CurrentScope := sc\<rparr>) = covers loc F ctx cg"
  by (simp_all add: covers_def Emit_def EmitPush_def patch_def Let_def)

lemma nested_covers:
  assumes "covers loc F ctx cg" "typecheck_nested ctx l b = Some (ctx', b')" "generateBlock cg b' = Some cg'"
  shows "covers loc F ctx' cg'"
proof -
  have "tc_currentScope ctx \<noteq> []" using assms(1) by (simp add: covers_def)
  note k = typecheck_statement_keeps(2)[OF assms(2) this]
  obtain bs where "grows cg cg' bs" using generateStatement_grows(4)[OF assms(3)] by blast
  from covers_same[OF assms(1) this] k show ?thesis by (simp add: keeps_def)
qed

lemma assignment_generated:
  assumes "supported loc e" "typecheckExpression c1 e = Some (T, c2)" "covers loc F c1 cg"
    and "c3 = (case vt of Some t \<Rightarrow> add_local x t c2 | None \<Rightarrow> c2)"
  shows "\<exists>cg'. generateAssignment cg (IdentifierExpr x) (Some e) = Some cg' \<and> covers loc F c3 cg'"
proof -
  obtain cg1 where g: "GenerateExpression cg e = Some cg1" "covers loc F c2 cg1"
    using expression_generated[OF assms(1-3)] by blast
  have "cg_LocalOffsets (store_local x cg1) x \<noteq> None" by (auto simp: store_local_def Let_def Emit_def EmitPush_def split: option.splits)
  moreover have "covers loc F c2 (store_local x cg1)" by (rule covers_same[OF g(2) grows_store_local]) simp_all
  ultimately have "covers loc F c3 (store_local x cg1)"
    using assms(4) by (cases vt; cases "tc_currentScope c2") (auto simp: covers_def add_local_def Let_def split: option.splits if_splits)
  with g(1) show ?thesis by (simp add: generateAssignment_def)
qed

lemma index_assignment_generated:
  assumes "storage b" "supported loc k" "supported loc e" "typecheckExpression ctx (IndexExpr b k) = Some (S, c1)"
    "typecheckExpression c1 e = Some (T, c2)" "covers loc F ctx cg"
  shows "\<exists>cg'. generateAssignment cg (IndexExpr b k) (Some e) = Some cg' \<and> covers loc F c2 cg'"
proof -
  obtain a c0 i where c: "typecheckExpression ctx b = Some (a, c0)" "typecheckExpression c0 k = Some (i, c1)"
    using assms(4) by (auto simp: bind_eq_Some_conv)
  have l: "loads ctx c0" "loads ctx c1"
    using typecheckExpression_loads(1)[OF c(1)] typecheckExpression_loads(1)[OF assms(4)] assms(6) by (simp_all add: covers_def)
  note l2 = typecheckExpression_loads(1)[OF assms(5) loads_simps(4)[OF l(2)]]
  have "covers loc F c1 cg" by (rule covers_grows[OF assms(6) grows_refl l(2)])
  then obtain cg1 where g: "GenerateExpression cg e = Some cg1" using expression_generated[OF assms(3,5)] by blast
  then obtain cg2 where g2: "GenerateExpression cg1 k = Some cg2"
    using expression_generated[OF assms(2) c(2) expression_covers[OF g l(1) assms(6)]] by blast
  have "covers loc F c2 cg2" using expression_covers[OF g2 _ expression_covers[OF g loads_trans[OF l(2) l2] assms(6)]] loads_refl[OF loads_simps(4)[OF l2]] by blast
  then have "covers loc F c2 (Emit op cg2)" for op by (simp add: covers_def Emit_def)
  with g g2 assms(1) show ?thesis by (auto simp: generateAssignment_def)
qed

lemma statement_generated:
  "supported_statement loc st \<Longrightarrow> typecheck_statement ctx st = Some (ctx', st') \<Longrightarrow> covers loc F ctx cg \<Longrightarrow>
     \<exists>cg'. generateStatement cg st' = Some cg' \<and> covers loc F ctx' cg'"
  "supported_block loc b \<Longrightarrow> typecheck_nested ctx l b = Some (ctx', b') \<Longrightarrow> covers loc F (ctx\<lparr>tc_inLoop := l\<rparr>) cg \<Longrightarrow>
     \<exists>cg'. generateBlock cg b' = Some cg'"
  "supported_list loc ss \<Longrightarrow> typecheck_statements ctx ss = Some (ctx', ss') \<Longrightarrow> covers loc F ctx cg \<Longrightarrow>
     \<exists>cg'. generate_statements cg ss' = Some cg' \<and> covers loc F ctx' cg'"
proof (induction ctx st and ctx l b and ctx ss arbitrary: ctx' st' cg and ctx' b' cg and ctx' ss' cg
    rule: typecheck_statement_typecheck_nested_typecheck_statements.induct)
  case (1 ctx varType lhs rhs)
  then obtain e where e: "rhs = Some e" "supported loc e" "supported_target loc lhs" by (auto split: option.splits)
  have ne: "tc_currentScope ctx \<noteq> []" using 1(3) by (simp add: covers_def)
  show ?case
  proof (cases varType)
    case (Some t)
    then obtain t' where d: "typecheck_declaration ctx t lhs rhs = Some (ctx', t')" "st' = AssignmentStmt (Some t') lhs rhs"
      using 1(2) by (auto simp: bind_eq_Some_conv)
    obtain c1 x T where x: "node_value lhs = Some x" "ctx' = add_local x t' c1" "typecheckExpression ctx e = Some (T, c1)"
      using e(1) by (metis declarationE[OF d(1) ne])
    then have "lhs = IdentifierExpr x" using e(3) by (cases lhs) auto
    with assignment_generated[OF e(2) x(3) 1(3), where ?c3.0 = ctx' and vt = "Some t'" and x = x] x(2) d(2) e(1) show ?thesis by simp
  next
    case None
    then have r: "typecheck_reassignment ctx lhs rhs = Some ctx'" "st' = AssignmentStmt None lhs rhs"
      using 1(2) by (auto simp: bind_eq_Some_conv)
    show ?thesis
    proof (rule reassignmentE[OF r(1) ne], goal_cases)
      case (1 c1 e' T)
      show ?case
      proof (cases lhs)
        case (IdentifierExpr x)
        with 1(1,2,5) e assignment_generated[where e = e and ?c1.0 = ctx and T = T and ?c2.0 = ctx' and cg = cg and ?c3.0 = ctx' and vt = None and x = x] \<open>covers loc F ctx cg\<close> r(2) show ?thesis by simp
      next
        case (IndexExpr b k)
        then obtain S where "typecheckExpression ctx (IndexExpr b k) = Some (S, c1)" using 1(6) by blast
        with 1(1,2) e IndexExpr index_assignment_generated[of b k e ctx S c1 T ctx' cg] \<open>covers loc F ctx cg\<close> r(2) show ?thesis by simp
      qed (use e(3) in auto)
    qed
  qed
next
  case (2 ctx rhs)
  have ne: "tc_currentScope ctx \<noteq> []" using 2(3) by (simp add: covers_def)
  obtain e T where e: "rhs = Some e" "typecheckExpression ctx e = Some (T, ctx')" "st' = ReturnStmt rhs"
    using 2(2) by (auto simp: bind_eq_Some_conv elim!: returnE[OF _ ne])
  obtain cg1 where g: "GenerateExpression cg e = Some cg1" "covers loc F ctx' cg1"
    using expression_generated[OF _ e(2) 2(3)] 2(1) e(1) by auto
  then show ?case using e by (auto simp: generateReturn_def covers_def Emit_def)
next
  case (3 ctx cond block elseBlock)
  have ne: "tc_currentScope ctx \<noteq> []" using 3(5) by (simp add: covers_def)
  obtain c1 c2 b2 where c: "typecheck_condition ctx cond = Some c1" "typecheck_nested c1 (tc_inLoop c1) block = Some (c2, b2)"
    using 3(4) by (auto simp: bind_eq_Some_conv)
  obtain T where t: "typecheckExpression ctx cond = Some (T, c1)" "loads ctx c1" using conditionE[OF c(1) ne] by blast
  obtain cg1 where g: "GenerateExpression cg cond = Some cg1" "covers loc F c1 cg1"
    using expression_generated[OF _ t(1) 3(5)] 3(3) by auto
  let ?cg1 = "Emit JUMPC (EmitPush (VInt 0) (Emit ISZERO cg1))"
  have cov1: "covers loc F c1 ?cg1" using g(2) by simp
  then obtain cg2 where g2: "generateBlock ?cg1 b2 = Some cg2" using 3(1)[OF c(1) _ c(2), of ?cg1] 3(3) by auto
  have cov2: "covers loc F c2 cg2" by (rule nested_covers[OF cov1 c(2) g2])
  show ?case
  proof (cases elseBlock)
    case None
    with 3(4) c g(1) g2 cov2 show ?thesis by (auto simp: bind_eq_Some_conv Let_def)
  next
    case (Some b)
    then obtain b3 where b3: "typecheck_nested c2 (tc_inLoop c2) b = Some (ctx', b3)" "st' = IfStmt cond b2 (Some b3)"
      using 3(4) c by (auto simp: bind_eq_Some_conv)
    let ?cg2 = "patch (here (Emit ISZERO cg1)) (here (Emit JUMP (EmitPush (VInt 0) cg2))) (Emit JUMP (EmitPush (VInt 0) cg2))"
    have cov2': "covers loc F c2 ?cg2" using cov2 by simp
    then obtain cg3 where g3: "generateBlock ?cg2 b3 = Some cg3" using 3(2)[OF c refl Some _ b3(1), of ?cg2] 3(3) Some by auto
    with nested_covers[OF cov2' b3(1) g3] g(1) g2 b3(2) show ?thesis by (auto simp: bind_eq_Some_conv Let_def)
  qed
next
  case (4 ctx cond block)
  have ne: "tc_currentScope ctx \<noteq> []" using 4(4) by (simp add: covers_def)
  obtain c1 b2 where c: "typecheck_condition ctx cond = Some c1" "typecheck_nested c1 True block = Some (ctx', b2)" "st' = WhileStmt cond b2"
    using 4(3) by (auto simp: bind_eq_Some_conv)
  obtain T where t: "typecheckExpression ctx cond = Some (T, c1)" "loads ctx c1" using conditionE[OF c(1) ne] by blast
  obtain cg1 where g: "GenerateExpression cg cond = Some cg1" "covers loc F c1 cg1"
    using expression_generated[OF _ t(1) 4(4)] 4(2) by auto
  let ?cg1 = "(Emit JUMPC (EmitPush (VInt 0) (Emit ISZERO cg1)))\<lparr>cg_LoopStack :=
      \<lparr>ContinueAddr = here cg, BreakPatches = []\<rparr> # cg_LoopStack (Emit JUMPC (EmitPush (VInt 0) (Emit ISZERO cg1)))\<rparr>"
  have cov1: "covers loc F (c1\<lparr>tc_inLoop := True\<rparr>) ?cg1" using g(2) by (simp add: covers_def Emit_def EmitPush_def)
  then obtain cg2 where g2: "generateBlock ?cg1 b2 = Some cg2" using 4(1)[OF c(1) _ c(2), of ?cg1] 4(2) by auto
  then have "cg_LoopStack cg2 \<noteq> []" using generateStatement_grows(4)[OF g2] by (auto simp: grows_def)
  then obtain cg3 where g3: "generateStatement cg st' = Some cg3"
    using g(1) g2 c(3) by (cases "cg_LoopStack cg2") (auto simp: finish_while_def Let_def)
  obtain bs where gr: "grows cg cg3 bs" using generateStatement_grows(1)[OF g3] by blast
  have k: "keeps c1 ctx' \<and> same_scopes (tc_currentScope c1) (tc_currentScope ctx')"
    by (rule typecheck_statement_keeps(2)[OF c(2) loads_simps(4)[OF t(2)]])
  have "covers loc F ctx' cg3"
    using covers_same[OF 4(4) gr same_scopes_trans[OF loads_same[OF t(2)]]] k loads_simps[OF t(2)] by (auto simp: keeps_def)
  with g3 show ?case by blast
next
  case (7 ctx rhs)
  then obtain T where t: "typecheckExpression ctx rhs = Some (T, ctx')" "st' = ExpressionStmt rhs" by (auto simp: bind_eq_Some_conv)
  with expression_generated[OF _ t(1) 7(3)] 7(1) show ?case by (auto simp: covers_def Emit_def)
next
  case (8 ctx inLoop stmts vars)
  let ?c = "ctx\<lparr>tc_currentScope := vars # tc_currentScope ctx, tc_inLoop := inLoop\<rparr>"
  obtain c1 ss1 where c: "typecheck_statements ?c stmts = Some (c1, ss1)" "b' = Block ss1 (hd (tc_currentScope c1))"
    using 8(3) by (auto simp: bind_eq_Some_conv)
  have "covers loc F ?c (cg\<lparr>cg_CurrentScope := hd (tc_currentScope c1) # cg_CurrentScope cg\<rparr>)"
    using 8(2,4) by (simp add: covers_def)
  with 8(1)[OF _ c(1)] 8(2) c(2) show ?case by (fastforce simp: Let_def)
next
  case (10 ctx stmt stmts)
  obtain c1 s1 ss1 where c: "typecheck_statement ctx stmt = Some (c1, s1)" "typecheck_statements c1 stmts = Some (ctx', ss1)" "ss' = s1 # ss1"
    using 10(4) by (auto simp: bind_eq_Some_conv)
  obtain cg1 where "generateStatement cg s1 = Some cg1" "covers loc F c1 cg1" using 10(1)[OF _ c(1) 10(5)] 10(3) by auto
  with 10(2)[OF c(1) refl _ c(2)] 10(3) c(3) show ?case by fastforce
qed (auto simp: generateBreak_def generateContinue_def covers_def Let_def Emit_def EmitPush_def split: if_splits list.splits)

lemma function_generated:
  assumes "typecheckFunctionDefinition ctx fd = Some (ctx', fd')" "supported_block loc (fn_Block fd)"
    and ctx: "tc_Functions ctx = F" "\<not> tc_inLoop ctx" "\<And>x. loc x \<Longrightarrow> map_of (last (tc_currentScope ctx)) x = None"
  shows "\<exists>cg'. GenerateFunctionDefinition cg fd' = Some cg'"
    and "tc_Functions ctx' = F" "\<not> tc_inLoop ctx'" "\<And>x. loc x \<Longrightarrow> map_of (last (tc_currentScope ctx')) x = None"
    and "fn_Name fd' = fn_Name fd" "fn_Parameters fd' = fn_Parameters fd" "fn_ReturnType fd' = fn_ReturnType fd"
proof -
  obtain ss where ss: "fn_Block fd = Block ss []" "supported_list loc ss" using assms(2) by (cases "fn_Block fd") auto
  let ?global = "last (tc_currentScope ctx)"
  let ?c = "ctx\<lparr>tc_currentFunction := Some fd, tc_currentScope := [?global]\<rparr>"
  obtain vars b where c: "inject_parameters (fn_Parameters fd) (fn_ParameterTypes fd) [] = Some vars"
    "typecheck_nested ?c (tc_inLoop ctx) (Block ss vars) = Some (ctx', b)" "fd' = fd\<lparr>fn_Block := b\<rparr>"
    using assms(1) ss(1) by (auto simp: typecheckFunctionDefinition_def bind_eq_Some_conv)
  have k: "keeps ?c ctx'" "same_scopes [?global] (tc_currentScope ctx')" using typecheck_statement_keeps(2)[OF c(2)] by simp_all
  obtain v where v: "tc_currentScope ctx' = [v]" "same_vars ?global v"
    using k(2) by (auto simp: list_all2_Cons1)
  show "tc_Functions ctx' = F" "\<not> tc_inLoop ctx'" using k(1) ctx by (simp_all add: keeps_def)
  show "map_of (last (tc_currentScope ctx')) x = None" if "loc x" for x
    using v ctx(3)[OF that] loc_context[OF that] by (simp add: same_vars_def)
  show "fn_Name fd' = fn_Name fd" "fn_Parameters fd' = fn_Parameters fd" "fn_ReturnType fd' = fn_ReturnType fd" using c(3) by simp_all
  obtain c1 ss1 where s1: "typecheck_statements (?c\<lparr>tc_currentScope := vars # [?global], tc_inLoop := tc_inLoop ctx\<rparr>) ss = Some (c1, ss1)"
    "b = Block ss1 (hd (tc_currentScope c1))"
    using c(2) by (auto simp: bind_eq_Some_conv)
  let ?cg = "cg\<lparr>cg_FunctionIndex := (cg_FunctionIndex cg)(fn_Name fd \<mapsto> here cg), cg_CurrentFunction := Some fd',
      cg_LocalOffsets := parameter_offsets (fn_Parameters fd), cg_NextLocalOffset := length (fn_Parameters fd),
      cg_CurrentScope := [hd (tc_currentScope c1), ast_Scope (cg_Ast cg)]\<rparr>"
  have "x \<in> set (fn_Parameters fd)" if "map_of vars x \<noteq> None" for x
    using inject_parameters_names[OF c(1) that] by simp
  then have "covers loc F (?c\<lparr>tc_currentScope := vars # [?global], tc_inLoop := tc_inLoop ctx\<rparr>) ?cg"
    using ctx parameter_offsets_some[of _ "fn_Parameters fd"] by (fastforce simp: covers_def split: option.splits)
  from statement_generated(3)[OF ss(2) s1(1) this] obtain cg1 where "generate_statements ?cg ss1 = Some cg1" by blast
  then show "\<exists>cg'. GenerateFunctionDefinition cg fd' = Some cg'"
    using c(3) s1(2) by (auto simp: GenerateFunctionDefinition_def Let_def)
qed

lemma functions_generated:
  assumes "typecheck_functions ctx fds = Some (ctx', fds')" "\<forall>(n, f)\<in>set fds. supported_block loc (fn_Block f)"
    "tc_Functions ctx = F" "\<not> tc_inLoop ctx" "\<And>x. loc x \<Longrightarrow> map_of (last (tc_currentScope ctx)) x = None"
  shows "\<forall>(n, f)\<in>set fds'. \<forall>cg. \<exists>cg'. GenerateFunctionDefinition cg f = Some cg'"
    and "map (\<lambda>(n, f). (n, fn_Name f)) fds' = map (\<lambda>(n, f). (n, fn_Name f)) fds"
proof -
  have "(\<forall>(n, f)\<in>set fds'. \<forall>cg. \<exists>cg'. GenerateFunctionDefinition cg f = Some cg') \<and>
      map (\<lambda>(n, f). (n, fn_Name f)) fds' = map (\<lambda>(n, f). (n, fn_Name f)) fds"
    using assms
  proof (induction ctx fds arbitrary: ctx' fds' rule: typecheck_functions.induct)
    case (2 ctx name fd fds)
    then obtain c1 fd1 fds1 where c: "typecheckFunctionDefinition ctx fd = Some (c1, fd1)"
      "typecheck_functions c1 fds = Some (ctx', fds1)" "fds' = (name, fd1) # fds1"
      by (auto simp: bind_eq_Some_conv)
    have s: "supported_block loc (fn_Block fd)" using 2(3) by simp
    note f = function_generated[OF c(1) s 2(4-6)]
    have "(\<forall>(n, f)\<in>set fds1. \<forall>cg. \<exists>cg'. GenerateFunctionDefinition cg f = Some cg') \<and>
        map (\<lambda>(n, f). (n, fn_Name f)) fds1 = map (\<lambda>(n, f). (n, fn_Name f)) fds"
      by (rule 2(1)[OF c(1) refl c(2) _ f(2-4)]) (use 2(3) in auto)
    with f(1,5) c(3) show ?case by auto
  qed simp
  then show "\<forall>(n, f)\<in>set fds'. \<forall>cg. \<exists>cg'. GenerateFunctionDefinition cg f = Some cg'"
    "map (\<lambda>(n, f). (n, fn_Name f)) fds' = map (\<lambda>(n, f). (n, fn_Name f)) fds" by blast+
qed

end

section \<open>Checked programs are compiled\<close>

text \<open>The names that a program uses as local variables.\<close>

definition local_name :: "Ast \<Rightarrow> string \<Rightarrow> bool" where
  "local_name ast x \<longleftrightarrow> GetBlockchainContextVariable x = None \<and> map_of (ast_Functions ast) x = None \<and> map_of (ast_Scope ast) x = None"

definition supported_program :: "Ast \<Rightarrow> bool" where
  "supported_program ast \<longleftrightarrow> list_all (\<lambda>(name, f). supported_block (local_name ast) (fn_Block f)) (ast_Functions ast)"

interpretation names: checked_names "local_name ast" "ast_Functions ast" for ast
  by unfold_locales (simp_all add: local_name_def)

lemma generate_functions_index:
  assumes "\<forall>f\<in>set fs. \<forall>cg. \<exists>cg'. GenerateFunctionDefinition cg f = Some cg'"
  shows "\<exists>cg'. generate_functions cg fs = Some cg' \<and> (\<forall>f\<in>set fs. cg_FunctionIndex cg' (fn_Name f) \<noteq> None) \<and>
    dom (cg_FunctionIndex cg) \<subseteq> dom (cg_FunctionIndex cg')"
  using assms
proof (induction fs arbitrary: cg)
  case (Cons f fs)
  then obtain cg1 where g: "GenerateFunctionDefinition cg f = Some cg1" by (metis list.set_intros(1))
  have i: "dom (cg_FunctionIndex cg) \<subseteq> dom (cg_FunctionIndex cg1) \<and> fn_Name f \<in> dom (cg_FunctionIndex cg1)"
    using g by (auto simp: GenerateFunctionDefinition_def Let_def bind_eq_Some_conv grows_def same_place_def Emit_def EmitPush_def
        split: if_splits dest!: generateStatement_grows(4))
  obtain cg' where "generate_functions cg1 fs = Some cg'" "\<forall>f\<in>set fs. cg_FunctionIndex cg' (fn_Name f) \<noteq> None"
    "dom (cg_FunctionIndex cg1) \<subseteq> dom (cg_FunctionIndex cg')"
    using Cons.IH[of cg1] Cons.prems by auto
  with g i show ?case by (intro exI[of _ cg']) (auto simp: subset_iff domIff)
qed simp

lemma checked_functions:
  assumes "Typecheck ast = Some ast'" "supported_program ast"
  shows "\<forall>(n, f)\<in>set (ast_Functions ast'). \<forall>cg. \<exists>cg'. GenerateFunctionDefinition cg f = Some cg'"
    and "map (\<lambda>(n, f). (n, fn_Name f)) (ast_Functions ast') = map (\<lambda>(n, f). (n, fn_Name f)) (ast_Functions ast)"
    and "map_of (ast_Functions ast) ''init'' \<noteq> None" "map_of (ast_Functions ast) ''call'' \<noteq> None"
proof -
  let ?c = "\<lparr>tc_Functions = ast_Functions ast, tc_currentFunction = None, tc_currentScope = [ast_Scope ast], tc_inLoop = False\<rparr>"
  obtain ctx where c: "typecheck_functions ?c (ast_Functions ast) = Some (ctx, ast_Functions ast')"
    using assms(1) by (auto simp: Typecheck_def bind_eq_Some_conv split: if_splits)
  have "\<forall>(n, f)\<in>set (ast_Functions ast). supported_block (local_name ast) (fn_Block f)"
    using assms(2) by (auto simp: supported_program_def list_all_iff)
  note g = names.functions_generated[OF c this]
  show "\<forall>(n, f)\<in>set (ast_Functions ast'). \<forall>cg. \<exists>cg'. GenerateFunctionDefinition cg f = Some cg'"
    "map (\<lambda>(n, f). (n, fn_Name f)) (ast_Functions ast') = map (\<lambda>(n, f). (n, fn_Name f)) (ast_Functions ast)"
    by (rule g; simp add: local_name_def)+
  show "map_of (ast_Functions ast) ''init'' \<noteq> None" "map_of (ast_Functions ast) ''call'' \<noteq> None"
    using assms(1) by (auto simp: Typecheck_def entry_signature_def split: if_splits option.splits)
qed

text \<open>Code is generated for checked programs.\<close>

lemma checked_compiles:
  assumes "Typecheck ast = Some ast'" "supported_program ast" "wf_ast ast"
  shows "\<exists>ctx. CodegenWithContext ast' = Some ctx \<and>
    {name. \<exists>f. map_of (ast_Functions ast) name = Some f} \<subseteq> dom (cg_FunctionIndex ctx)"
proof -
  note c = checked_functions[OF assms(1,2)]
  let ?fs = "generation_order (ast_Functions ast')"
  have fs: "set ?fs \<subseteq> snd ` set (ast_Functions ast')"
    by (auto simp: generation_order_def split: option.splits) (metis map_of_SomeD rev_image_eqI snd_conv)+
  have keys: "map fst (ast_Functions ast') = map fst (ast_Functions ast)"
    using arg_cong[OF c(2), of "map fst"] by (simp add: comp_def case_prod_beta)
  have named: "fn_Name f = n" if "(n, f) \<in> set (ast_Functions ast')" for n f
  proof -
    have "(n, fn_Name f) \<in> set (map (\<lambda>(n, f). (n, fn_Name f)) (ast_Functions ast))" using that by (force simp flip: c(2))
    with assms(3) show ?thesis by (auto simp: wf_ast_def)
  qed
  have order: "f \<in> set ?fs" if "map_of (ast_Functions ast') n = Some f" for n f
    using that by (force simp: generation_order_def dest: map_of_SomeD)
  obtain cg0 a b d e where em: "emit_entries (CollectStringLiterals ast' (new_context ast')) = (cg0, a, b, d, e)"
    by (metis prod_cases5)
  have gen: "\<exists>cg'. GenerateFunctionDefinition cg f = Some cg'" if "f \<in> set ?fs" for f cg
  proof -
    have "f \<in> snd ` set (ast_Functions ast')" using that fs by blast
    then obtain n where "(n, f) \<in> set (ast_Functions ast')" by auto
    with c(1) show ?thesis by blast
  qed
  obtain cg where cg: "generate_functions cg0 ?fs = Some cg" "\<forall>f\<in>set ?fs. cg_FunctionIndex cg (fn_Name f) \<noteq> None"
    using generate_functions_index[of ?fs cg0] gen by blast
  have index: "cg_FunctionIndex cg n \<noteq> None" if "map_of (ast_Functions ast) n \<noteq> None" for n
  proof -
    have "n \<in> set (map fst (ast_Functions ast'))" using that unfolding keys by (simp add: map_of_eq_None_iff)
    then have "map_of (ast_Functions ast') n \<noteq> None" by (simp add: map_of_eq_None_iff)
    then obtain f where f: "map_of (ast_Functions ast') n = Some f" by blast
    show ?thesis using bspec[OF cg(2) order[OF f]] named[OF map_of_SomeD[OF f]] by simp
  qed
  obtain i j where "cg_FunctionIndex cg ''init'' = Some i" "cg_FunctionIndex cg ''call'' = Some j" using index c(3,4) by blast
  with em cg(1) have "\<exists>ctx. CodegenWithContext ast' = Some ctx \<and> cg_FunctionIndex ctx = cg_FunctionIndex cg"
    by (simp add: CodegenWithContext_def Let_def patch_def)
  with index show ?thesis by (auto simp: domIff)
qed

text \<open>
  C8. A program that type checks, and keeps to the supported part of the language, is compiled: the code
  generator returns a program and does not panic, so every variable it loads has a place, every
  \<open>break\<close> and \<open>continue\<close> a loop, and both entry points their function.
\<close>

theorem checked_program_compiles:
  assumes "Typecheck ast = Some ast'" "supported_program ast" "wf_ast ast"
  shows "\<exists>ctx. CodegenWithContext ast' = Some ctx \<and>
    {name. \<exists>f. map_of (ast_Functions ast) name = Some f} \<subseteq> dom (cg_FunctionIndex ctx)"
  using assms by (rule checked_compiles)

text \<open>The counting contract as the parser leaves it, with empty scopes, and one that stores the sender.\<close>

definition count_source :: Ast where
  "count_source = NewAst\<lparr>ast_Functions :=
     [(''call'', (count_function ''call'')\<lparr>fn_Block := Block count_body []\<rparr>),
      (''init'', (count_function ''init'')\<lparr>fn_Block := Block
         [AssignmentStmt None (IndexExpr (IdentifierExpr ''persistent'') (LiteralExpr TString ''owner'')) (Some (IdentifierExpr ''@caller'')),
          ExpressionStmt (CallExpr ''emit'' [IdentifierExpr ''@height'']),
          ReturnStmt (Some (LiteralExpr TInt ''0''))] []\<rparr>)]\<rparr>"

theorem checked_program_compiles_witness: "CodegenWithContext (the (Typecheck count_source)) \<noteq> None"
proof -
  have "Typecheck count_source \<noteq> None" by code_simp
  then obtain ast' where t: "Typecheck count_source = Some ast'" by blast
  have "supported_program count_source" unfolding supported_program_def local_name_def by code_simp
  moreover have "wf_ast count_source" by (simp add: wf_ast_def count_source_def count_function_def)
  ultimately obtain ctx where "CodegenWithContext ast' = Some ctx" using checked_program_compiles[OF t] by blast
  then show ?thesis unfolding t by simp
qed

end
