(* ===== verification/Marigold_Compiler.thy ===== *)
theory Marigold_Compiler
  imports Marigold_Source Marigold_Checked
begin

text \<open>
  The compiler as a whole, \<open>parseFile\<close> of \<open>src/cmd/marigold/main.go\<close>: the text of a contract is lexed, parsed,
  type checked and compiled. The theorems on the single passes meet here: the text of an integer program is
  compiled to code that computes what the program means.
\<close>

section \<open>From text to code\<close>

text \<open>The outcome for the content of a file; \<open>None\<close> is a fatal error or a panic. Output is left out.\<close>

datatype compiled = LexError | Compiled CodegenContext

definition parseFile :: "string \<Rightarrow> compiled option" where
  "parseFile content =
     (case Lex content of
        None \<Rightarrow> None
      | Some (tokens, Some e) \<Rightarrow> Some LexError
      | Some (tokens, None) \<Rightarrow>
          (case Parse tokens of
             Parsed ast ts \<Rightarrow> (case Typecheck ast of None \<Rightarrow> None | Some ast \<Rightarrow> map_option Compiled (CodegenWithContext ast))
           | _ \<Rightarrow> None))"

section \<open>What type checking changes\<close>

text \<open>Statements without the types and scopes that checking fills in.\<close>

fun bare :: "Statement \<Rightarrow> Statement" and bare_block :: "Block \<Rightarrow> Block" and bare_list :: "Statement list \<Rightarrow> Statement list" where
  "bare (AssignmentStmt vt l e) = AssignmentStmt None l e"
| "bare (IfStmt c b eb) = IfStmt c (bare_block b) (case eb of Some b \<Rightarrow> Some (bare_block b) | None \<Rightarrow> None)"
| "bare (WhileStmt c b) = WhileStmt c (bare_block b)"
| "bare s = s"
| "bare_block (Block ss vars) = Block (bare_list ss) []"
| "bare_list [] = []"
| "bare_list (s # ss) = bare s # bare_list ss"

lemma typecheck_bare:
  "typecheck_statement ctx st = Some (ctx', st') \<Longrightarrow> bare st' = bare st"
  "typecheck_nested ctx l b = Some (ctx', b') \<Longrightarrow> bare_block b' = bare_block b"
  "typecheck_statements ctx ss = Some (ctx', ss') \<Longrightarrow> bare_list ss' = bare_list ss"
  by (induction ctx st and ctx l b and ctx ss arbitrary: ctx' st' and ctx' b' and ctx' ss'
    rule: typecheck_statement_typecheck_nested_typecheck_statements.induct)
    (fastforce simp: bind_eq_Some_conv split: option.splits if_splits)+

lemma bare_measures:
  "statement_depth (bare s) = statement_depth s \<and> assignments (bare s) = assignments s"
  "block_depth (bare_block b) = block_depth b \<and> block_assignments (bare_block b) = block_assignments b"
  "list_depth (bare_list ss) = list_depth ss \<and> list_assignments (bare_list ss) = list_assignments ss"
  by (induction s and b and ss rule: bare_bare_block_bare_list.induct) (auto split: option.splits)

lemma bare_return: "bare s = ReturnStmt e \<longleftrightarrow> s = ReturnStmt e"
  by (cases s) auto

lemma bare_list_map: "bare_list ss = map bare ss"
  by (induction ss) auto

text \<open>What a statement does to one store does not depend on them.\<close>

lemma exec_bare:
  "flat_exec \<sigma> s f \<sigma>' \<Longrightarrow> flat_exec \<sigma> (bare s) f \<sigma>'"
  "flat_execs \<sigma> ss f \<sigma>' \<Longrightarrow> flat_execs \<sigma> (bare_list ss) f \<sigma>'"
  by (induction rule: flat_exec_flat_execs.inducts) (auto intro: flat_exec_flat_execs.intros simp del: fun_upd_apply)

lemma bare_eq:
  "AssignmentStmt vt l e = bare s \<longleftrightarrow> vt = None \<and> (\<exists>vt'. s = AssignmentStmt vt' l e)"
  "ReturnStmt r = bare s \<longleftrightarrow> s = ReturnStmt r"
  "ExpressionStmt x = bare s \<longleftrightarrow> s = ExpressionStmt x"
  "BreakStmt = bare s \<longleftrightarrow> s = BreakStmt"
  "ContinueStmt = bare s \<longleftrightarrow> s = ContinueStmt"
  "IfStmt c b eb = bare s \<longleftrightarrow> (\<exists>b' eb'. s = IfStmt c b' eb' \<and> b = bare_block b' \<and> eb = map_option bare_block eb')"
  "WhileStmt c b = bare s \<longleftrightarrow> (\<exists>b'. s = WhileStmt c b' \<and> b = bare_block b')"
  "Block ts vars = bare_block d \<longleftrightarrow> vars = [] \<and> (\<exists>ss vs. d = Block ss vs \<and> ts = bare_list ss)"
  "Some b = map_option bare_block eb \<longleftrightarrow> (\<exists>b'. eb = Some b' \<and> b = bare_block b')"
  "[] = bare_list ss \<longleftrightarrow> ss = []"
  "t # ts = bare_list ss \<longleftrightarrow> (\<exists>u us. ss = u # us \<and> t = bare u \<and> ts = bare_list us)"
  by (cases s; auto split: option.splits) (cases s; auto split: option.splits; fail | cases d; auto; fail | cases eb; auto; fail | cases ss; auto; fail)+

lemma bare_exec:
  "flat_exec \<sigma> t f \<sigma>' \<Longrightarrow> t = bare s \<Longrightarrow> flat_exec \<sigma> s f \<sigma>'"
  "flat_execs \<sigma> ts f \<sigma>' \<Longrightarrow> ts = bare_list ss \<Longrightarrow> flat_execs \<sigma> ss f \<sigma>'"
  by (induction arbitrary: s and ss rule: flat_exec_flat_execs.inducts) (auto simp: bare_eq intro: flat_exec_flat_execs.intros simp del: fun_upd_apply)

lemma collect_bare:
  "collectStringLiteralsFromStatement (bare s) c = collectStringLiteralsFromStatement s c"
  "collectStringLiteralsFromBlock (bare_block b) c = collectStringLiteralsFromBlock b c"
  "collect_statements (bare_list ss) c = collect_statements ss c"
  by (induction s and b and ss arbitrary: c and c and c rule: bare_bare_block_bare_list.induct) (auto split: option.splits)

section \<open>Integer programs\<close>

text \<open>Programs without string literals, in which every declared variable is an integer.\<close>

fun plain :: "Expression \<Rightarrow> bool" where
  "plain (LiteralExpr vt v) \<longleftrightarrow> vt \<noteq> TString"
| "plain (IdentifierExpr x) \<longleftrightarrow> True"
| "plain (BinaryExpr op l (Some r)) \<longleftrightarrow> plain l \<and> plain r"
| "plain (UnaryExpr op (Some e)) \<longleftrightarrow> plain e"
| "plain _ \<longleftrightarrow> False"

fun plain_statement :: "Statement \<Rightarrow> bool" and plain_block :: "Block \<Rightarrow> bool" and plain_list :: "Statement list \<Rightarrow> bool" where
  "plain_statement (AssignmentStmt vt l e) \<longleftrightarrow> (case vt of Some t \<Rightarrow> t = IntType | None \<Rightarrow> True) \<and> (case e of Some e \<Rightarrow> plain e | None \<Rightarrow> False)"
| "plain_statement (ReturnStmt e) \<longleftrightarrow> (case e of Some e \<Rightarrow> plain e | None \<Rightarrow> True)"
| "plain_statement (ExpressionStmt e) \<longleftrightarrow> plain e"
| "plain_statement (IfStmt c b eb) \<longleftrightarrow> plain c \<and> plain_block b \<and> (case eb of Some b \<Rightarrow> plain_block b | None \<Rightarrow> True)"
| "plain_statement (WhileStmt c b) \<longleftrightarrow> plain c \<and> plain_block b"
| "plain_statement _ \<longleftrightarrow> True"
| "plain_block (Block ss vars) \<longleftrightarrow> vars = [] \<and> plain_list ss"
| "plain_list [] \<longleftrightarrow> True"
| "plain_list (s # ss) \<longleftrightarrow> plain_statement s \<and> plain_list ss"

definition int_program :: "Ast \<Rightarrow> bool" where
  "int_program ast \<longleftrightarrow> list_all (\<lambda>(name, f). plain_block (fn_Block f)) (ast_Functions ast)"

lemma plain_collect: "plain e \<Longrightarrow> collectStringLiteralsFromExpression e c = c"
  by (induction e arbitrary: c rule: plain.induct) auto

lemma plain_statement_collect:
  "plain_statement s \<Longrightarrow> collectStringLiteralsFromStatement s c = c"
  "plain_block b \<Longrightarrow> collectStringLiteralsFromBlock b c = c"
  "plain_list ss \<Longrightarrow> collect_statements ss c = c"
  by (induction s and b and ss arbitrary: c and c and c rule: plain_statement_plain_block_plain_list.induct)
    (auto simp: plain_collect split: option.splits)

lemma same_vars_strings: "same_vars vars vars' \<Longrightarrow> no_strings vars \<Longrightarrow> no_strings vars'"
  by (simp add: same_vars_def no_strings_def)

lemma same_scopes_strings: "same_scopes ss ss' \<Longrightarrow> list_all no_strings ss \<Longrightarrow> list_all no_strings ss'"
  by (induction rule: list_all2_induct) (auto intro: same_vars_strings)

abbreviation int_scopes :: "TypeCheckContext \<Rightarrow> bool" where
  "int_scopes ctx \<equiv> tc_currentScope ctx \<noteq> [] \<and> list_all no_strings (tc_currentScope ctx)"

lemma loads_strings: "loads ctx ctx' \<Longrightarrow> int_scopes ctx \<Longrightarrow> int_scopes ctx'"
  using same_scopes_strings[OF loads_same] loads_simps(4) by blast

lemma nested_strings: "typecheck_nested ctx l b = Some (ctx', b') \<Longrightarrow> int_scopes ctx \<Longrightarrow> int_scopes ctx'"
  using typecheck_statement_keeps(2)[of ctx l b ctx' b'] same_scopes_strings[of "tc_currentScope ctx" "tc_currentScope ctx'"] by (simp add: keeps_def)

lemma condition_strings: "typecheck_condition ctx e = Some ctx' \<Longrightarrow> int_scopes ctx \<Longrightarrow> int_scopes ctx'"
  by (elim conjE conditionE) (use loads_strings in blast)+

lemma no_strings_store: "no_strings vars \<Longrightarrow> no_strings (go_store x IntType vars)"
  by (simp add: no_strings_def IntType_def StringType_def)

lemma declaration_strings:
  assumes "typecheck_declaration ctx IntType lhs rhs = Some (ctx', t)" "int_scopes ctx"
  shows "int_scopes ctx'"
proof -
  have t: "t = IntType"
    using assms(1) by (auto simp: typecheck_declaration_def bind_eq_Some_conv declaration_types_def IntType_def split: if_splits option.splits)
  obtain x c1 where x: "loads ctx c1" "ctx' = add_local x t c1" using declarationE[OF assms(1)] assms(2) by metis
  from loads_strings[OF x(1) assms(2)] show ?thesis
    by (cases "tc_currentScope c1") (auto simp: x(2) t add_local_def Let_def no_strings_store)
qed

lemma plain_block_parts: "plain_block b \<Longrightarrow> no_strings (Scope_Variables b) \<and> plain_list (Statements b)"
  by (cases b) (simp add: no_strings_def)

text \<open>Checking an integer program enters no string into its scopes.\<close>

lemma typecheck_ints:
  "typecheck_statement ctx st = Some (ctx', st') \<Longrightarrow> plain_statement st \<Longrightarrow> int_scopes ctx \<Longrightarrow> int_scopes ctx' \<and> ints_statement st'"
  "typecheck_nested ctx l b = Some (ctx', b') \<Longrightarrow> no_strings (Scope_Variables b) \<and> plain_list (Statements b) \<Longrightarrow> int_scopes ctx \<Longrightarrow> ints_block b'"
  "typecheck_statements ctx ss = Some (ctx', ss') \<Longrightarrow> plain_list ss \<Longrightarrow> int_scopes ctx \<Longrightarrow> int_scopes ctx' \<and> ints_list ss'"
proof (induction ctx st and ctx l b and ctx ss arbitrary: ctx' st' and ctx' b' and ctx' ss'
    rule: typecheck_statement_typecheck_nested_typecheck_statements.induct)
  case (1 ctx varType lhs rhs)
  then show ?case
  proof (cases varType)
    case None
    with 1 show ?thesis by (auto simp: bind_eq_Some_conv elim!: reassignmentE dest!: loads_strings)
  next
    case (Some t)
    with 1 have "t = IntType" by simp
    with 1 Some show ?thesis using declaration_strings[of ctx lhs rhs ctx'] by (auto simp: bind_eq_Some_conv)
  qed
next
  case (2 ctx rhs)
  then show ?case by (auto simp: bind_eq_Some_conv elim!: returnE dest!: loads_strings)
next
  case (3 ctx cond block elseBlock)
  then obtain c1 c2 b2 where c: "typecheck_condition ctx cond = Some c1" "typecheck_nested c1 (tc_inLoop c1) block = Some (c2, b2)"
    by (auto simp: bind_eq_Some_conv)
  note n1 = condition_strings[OF c(1) 3(5)]
  note n2 = nested_strings[OF c(2) n1]
  have b2: "ints_block b2" using 3(1)[OF c _ n1] 3(4) plain_block_parts by simp
  show ?case
  proof (cases elseBlock)
    case None
    with 3(3) c n2 b2 show ?thesis by auto
  next
    case (Some b)
    then obtain b3 where b3: "typecheck_nested c2 (tc_inLoop c2) b = Some (ctx', b3)" "st' = IfStmt cond b2 (Some b3)"
      using 3(3) c by (auto simp: bind_eq_Some_conv)
    then have "ints_block b3" using 3(2)[OF c refl Some b3(1) _ n2] 3(4) Some plain_block_parts by simp
    with b2 b3 nested_strings[OF b3(1) n2] show ?thesis by simp
  qed
next
  case (4 ctx cond block)
  then obtain c1 b2 where c: "typecheck_condition ctx cond = Some c1" "typecheck_nested c1 True block = Some (ctx', b2)" "st' = WhileStmt cond b2"
    by (auto simp: bind_eq_Some_conv)
  note n1 = condition_strings[OF c(1) 4(4)]
  have "ints_block b2" using 4(1)[OF c(1,2) _ n1] 4(3) plain_block_parts by simp
  with nested_strings[OF c(2) n1] c(3) show ?case by simp
next
  case (7 ctx rhs)
  then show ?case using typecheckExpression_loads(1) loads_strings by (fastforce simp: bind_eq_Some_conv)
next
  case (8 ctx inLoop stmts vars)
  let ?c = "ctx\<lparr>tc_currentScope := vars # tc_currentScope ctx, tc_inLoop := inLoop\<rparr>"
  obtain c1 ss1 where c: "typecheck_statements ?c stmts = Some (c1, ss1)" "b' = Block ss1 (hd (tc_currentScope c1))"
    using 8(2) by (auto simp: bind_eq_Some_conv)
  have "int_scopes c1 \<and> ints_list ss1" using 8(1)[OF c(1)] 8(3,4) by simp
  then show ?case by (cases "tc_currentScope c1") (auto simp: c(2))
next
  case (10 ctx stmt stmts)
  then obtain c1 s1 ss1 where c: "typecheck_statement ctx stmt = Some (c1, s1)" "typecheck_statements c1 stmts = Some (ctx', ss1)" "ss' = s1 # ss1"
    by (auto simp: bind_eq_Some_conv)
  with 10(1)[OF c(1)] 10(2)[OF c(1) refl c(2)] 10(4,5) show ?case by auto
qed (auto split: if_splits)

section \<open>Checked functions\<close>

definition checked_function :: "Function \<Rightarrow> Function \<Rightarrow> bool" where
  "checked_function f f' \<longleftrightarrow> fn_Name f' = fn_Name f \<and> fn_Parameters f' = fn_Parameters f \<and> bare_block (fn_Block f') = bare_block (fn_Block f) \<and>
     (plain_block (fn_Block f) \<and> fn_Parameters f = [] \<longrightarrow> ints_block (fn_Block f'))"

lemma typecheck_function_checked:
  assumes "typecheckFunctionDefinition ctx f = Some (ctx', f')" "tc_currentScope ctx \<noteq> []" "no_strings (last (tc_currentScope ctx))"
  shows "int_scopes ctx'" "checked_function f f'"
proof -
  let ?c = "ctx\<lparr>tc_currentFunction := Some f, tc_currentScope := [last (tc_currentScope ctx)]\<rparr>"
  obtain vars block where c: "inject_parameters (fn_Parameters f) (fn_ParameterTypes f) (Scope_Variables (fn_Block f)) = Some vars"
    "typecheck_nested ?c (tc_inLoop ctx) (Block (Statements (fn_Block f)) vars) = Some (ctx', block)" "f' = f\<lparr>fn_Block := block\<rparr>"
    using assms(1) by (auto simp: typecheckFunctionDefinition_def bind_eq_Some_conv)
  have s: "int_scopes ?c" using assms(3) by simp
  show "int_scopes ctx'" by (rule nested_strings[OF c(2) s])
  have "ints_block block" if "plain_block (fn_Block f)" "fn_Parameters f = []"
    using typecheck_ints(2)[OF c(2) _ s] plain_block_parts[OF that(1)] c(1) that(2) by simp
  moreover have "bare_block block = bare_block (fn_Block f)" using typecheck_bare(2)[OF c(2)] by (cases "fn_Block f") simp
  ultimately show "checked_function f f'" by (simp add: checked_function_def c(3))
qed

lemma typecheck_functions_checked:
  assumes "typecheck_functions ctx fds = Some (ctx', fds')" "tc_currentScope ctx \<noteq> []" "no_strings (last (tc_currentScope ctx))"
  shows "no_strings (last (tc_currentScope ctx')) \<and> list_all2 (\<lambda>(n, f) (n', f'). n' = n \<and> checked_function f f') fds fds'"
  using assms
proof (induction ctx fds arbitrary: ctx' fds' rule: typecheck_functions.induct)
  case (2 ctx name f fds)
  then obtain c1 f1 fds1 where c: "typecheckFunctionDefinition ctx f = Some (c1, f1)" "typecheck_functions c1 fds = Some (ctx', fds1)"
    "fds' = (name, f1) # fds1" by (auto simp: bind_eq_Some_conv)
  note i = typecheck_function_checked[OF c(1) 2(3,4)]
  then have "no_strings (last (tc_currentScope c1))" by (auto simp: list_all_iff)
  with 2(1)[OF c(1) refl c(2)] i c(3) show ?case by simp
qed simp

lemma checked_map_of:
  assumes "list_all2 (\<lambda>(n, f) (n', f'). n' = n \<and> checked_function f f') fds fds'" "map_of fds name = Some f"
  shows "\<exists>f'. map_of fds' name = Some f' \<and> checked_function f f'"
  using assms by (induction fds fds' rule: list_all2_induct) (auto split: if_splits)

lemma checked_collect:
  assumes "list_all2 (\<lambda>(n, f) (n', f'). n' = n \<and> checked_function f f') fds fds'" "list_all (\<lambda>(name, f). plain_block (fn_Block f)) fds"
  shows "fold (\<lambda>(name, f). collectStringLiteralsFromFunction f) fds' c = c"
  using assms
proof (induction fds fds' rule: list_all2_induct)
  case (Cons p fds p' fds')
  then have "collectStringLiteralsFromBlock (fn_Block (snd p')) c = c"
    using plain_statement_collect(2)[of "fn_Block (snd p)" c] collect_bare(2)[of "fn_Block (snd p)" c] collect_bare(2)[of "fn_Block (snd p')" c]
    by (auto simp: checked_function_def)
  with Cons show ?case by (auto simp: collectStringLiteralsFromFunction_def)
qed simp

lemma checked_program:
  assumes "Typecheck ast = Some ast'" "int_program ast" "wf_ast ast" "no_strings (ast_Scope ast)"
  shows "wf_ast ast'" "no_literals ast'" "no_strings (ast_Scope ast')"
    and "map_of (ast_Functions ast) name = Some f \<Longrightarrow> \<exists>f'. map_of (ast_Functions ast') name = Some f' \<and> checked_function f f'"
proof -
  obtain ctx where c: "typecheck_functions
      \<lparr>tc_Functions = ast_Functions ast, tc_currentFunction = None, tc_currentScope = [ast_Scope ast], tc_inLoop = False\<rparr>
      (ast_Functions ast) = Some (ctx, ast_Functions ast')" "ast_Scope ast' = last (tc_currentScope ctx)"
    using assms(1) by (auto simp: Typecheck_def bind_eq_Some_conv split: if_splits)
  note t = typecheck_functions_checked[OF c(1)]
  then have l: "list_all2 (\<lambda>(n, f) (n', f'). n' = n \<and> checked_function f f') (ast_Functions ast) (ast_Functions ast')" using assms(4) by simp
  show "no_strings (ast_Scope ast')" using t assms(4) c(2) by simp
  show "no_literals ast'"
    using checked_collect[OF l] assms(2) by (simp add: no_literals_def CollectStringLiterals_def int_program_def new_context_def)
  have "map fst fds' = map fst fds \<and> ((\<forall>(name, f)\<in>set fds. fn_Name f = name) \<longrightarrow> (\<forall>(name, f)\<in>set fds'. fn_Name f = name))"
    if "list_all2 (\<lambda>(n, f) (n', f'). n' = n \<and> checked_function f f') fds fds'" for fds fds'
    using that by (induction rule: list_all2_induct) (auto simp: checked_function_def)
  from this[OF l] assms(3) show "wf_ast ast'" by (simp add: wf_ast_def)
  show "map_of (ast_Functions ast) name = Some f \<Longrightarrow> \<exists>f'. map_of (ast_Functions ast') name = Some f' \<and> checked_function f f'"
    by (rule checked_map_of[OF l])
qed

lemma list_depth_return: "ReturnStmt e \<in> set ss \<Longrightarrow> 1 \<le> list_depth ss"
  by (induction ss) (auto simp: depth_pos[simplified] le_max_iff_disj split: option.split)

text \<open>The body of a checked function has the meaning and the size of its source.\<close>

lemma checked_body:
  assumes "checked_function f f'" "plain_block (fn_Block f)" "fn_Parameters f = []" "fn_Block f = Block ss []" "ss \<noteq> []" "last ss = ReturnStmt e"
    "flat_execs Map.empty ss (Return w) \<sigma>"
  obtains ss' vars where "fn_Block f' = Block ss' vars" "ints_block (Block ss' vars)" "ss' \<noteq> []" "last ss' = ReturnStmt e"
    "flat_execs Map.empty ss' (Return w) \<sigma>" "list_assignments ss' + list_depth ss' = list_assignments ss + list_depth ss" "1 \<le> list_depth ss'"
proof -
  obtain ss' vars where b: "fn_Block f' = Block ss' vars" "ints_block (Block ss' vars)" "bare_list ss' = bare_list ss"
    using assms(1-4) by (cases "fn_Block f'") (auto simp: checked_function_def)
  have n: "ss' \<noteq> []" using b(3) assms(5) by (metis bare_list_map map_is_Nil_conv)
  have "bare (last ss') = bare (last ss)" using b(3) n assms(5) by (metis bare_list_map last_map)
  then have l: "last ss' = ReturnStmt e" using assms(6) by (simp add: bare_return)
  show ?thesis
  proof (rule that[OF b(1,2) n l])
    show "flat_execs Map.empty ss' (Return w) \<sigma>" using bare_exec(2)[OF exec_bare(2)[OF assms(7)]] b(3) by simp
    show "list_assignments ss' + list_depth ss' = list_assignments ss + list_depth ss" using bare_measures(3)[of ss] bare_measures(3)[of ss'] b(3) by simp
    show "1 \<le> list_depth ss'" using list_depth_return[of e ss'] n l last_in_set by metis
  qed
qed

section \<open>Properties\<close>

text \<open>The text of a program is compiled to the code of the checked program.\<close>

lemma parseFile_printed:
  assumes "printable_ast ast" "lexical_ast ast" "ast_Functions ast \<noteq> []" "Typecheck ast = Some ast'"
  shows "parseFile (print_tokens (print_ast ast)) = map_option Compiled (CodegenWithContext ast')"
proof -
  obtain toks where "Lex (print_tokens (print_ast ast)) = Some (toks, None)" "Parse toks = Parsed ast []"
    using source_parsed[OF assms(1-3)] by blast
  then show ?thesis by (simp add: parseFile_def assms(4))
qed

text \<open>
  A source whose function \<open>name\<close> returns \<open>w\<close>: the program can be printed and read, type checks, keeps to what the
  code generator supports and to integers, and the function ends with a return, fits the stack and never
  declares a name while it is visible; on inputs where it divides, it does so exactly, since otherwise it has
  no value.
\<close>

definition int_source :: "Ast \<Rightarrow> string \<Rightarrow> 256 word \<Rightarrow> bool" where
  "int_source ast name w \<longleftrightarrow> printable_ast ast \<and> lexical_ast ast \<and> supported_program ast \<and> int_program ast \<and> Typecheck ast \<noteq> None \<and>
     (\<exists>f ss e \<Gamma>. map_of (ast_Functions ast) name = Some f \<and> fn_Block f = Block ss [] \<and> ss \<noteq> [] \<and> last ss = ReturnStmt e \<and>
        execs [Map.empty] ss (Return w) \<Gamma> \<and> unshadowed_list [] ss \<and> list_assignments ss + list_depth ss \<le> unat AVMMaxStackSize)"

lemma source_runs:
  assumes "int_source ast name w" "entry name ic"
  shows "\<exists>ctx. parseFile (print_tokens (print_ast ast)) = Some (Compiled ctx) \<and>
    (here ctx < 2 ^ 63 \<longrightarrow> (\<exists>cost. runs_to (cg_Instructions ctx) bc persistent ic w cost))"
proof -
  from assms(1) obtain f ss e \<Gamma> where source: "printable_ast ast" "lexical_ast ast" "supported_program ast" "int_program ast"
    and f: "map_of (ast_Functions ast) name = Some f" "fn_Block f = Block ss []" "ss \<noteq> []" "last ss = ReturnStmt e"
    and sem: "execs [Map.empty] ss (Return w) \<Gamma>" "unshadowed_list [] ss"
    and small: "list_assignments ss + list_depth ss \<le> unat AVMMaxStackSize" unfolding int_source_def by blast
  obtain \<sigma> where flat: "flat_execs Map.empty ss (Return w) \<sigma>" using function_flat[OF sem] by blast
  obtain ast' where t: "Typecheck ast = Some ast'" using assms(1) by (auto simp: int_source_def)
  have ast: "wf_ast ast" "no_strings (ast_Scope ast)" "ast_Functions ast \<noteq> []"
    using source(1) f(1) by (auto simp: printable_ast_def wf_ast_def list_all_iff no_strings_def NewAst_def NewArrayType_def NewMapType_def StringType_def)
  note c = checked_program[OF t source(4) ast(1,2)]
  obtain ctx where ctx: "CodegenWithContext ast' = Some ctx" using checked_compiles[OF t source(3) ast(1)] by blast
  obtain f' where f': "map_of (ast_Functions ast') name = Some f'" "checked_function f f'" using c(4)[OF f(1)] by blast
  have params: "fn_Parameters f = []" "fn_Parameters f' = []"
    using t f(1) assms(2) f'(2) by (auto simp: Typecheck_def entry_signature_def entry_def checked_function_def split: if_splits option.splits)
  have plain: "plain_block (fn_Block f)" using source(4) map_of_SomeD[OF f(1)] by (auto simp: int_program_def list_all_iff)
  obtain ss' vars where b: "fn_Block f' = Block ss' vars" "ints_block (Block ss' vars)" "ss' \<noteq> []" "last ss' = ReturnStmt e"
    "flat_execs Map.empty ss' (Return w) \<sigma>" "list_assignments ss' + list_depth ss' = list_assignments ss + list_depth ss" "1 \<le> list_depth ss'"
    by (rule checked_body[OF f'(2) plain params(1) f(2-4) flat])
  have "\<exists>cost. runs_to (cg_Instructions ctx) bc persistent ic w cost" if "here ctx < 2 ^ 63"
    by (rule compiled_function_runs[OF ctx c(1-3) f'(1) assms(2) params(2) b(1-5) _ b(7) that]) (use b(6) small in simp)
  moreover have "parseFile (print_tokens (print_ast ast)) = Some (Compiled ctx)"
    using parseFile_printed[OF source(1,2) ast(3) t] ctx by simp
  ultimately show ?thesis by blast
qed

text \<open>
  C5. From the text of a contract to the value it computes: the text of an integer program is compiled, and the
  machine, started on the code at the entry point of \<open>init\<close> or \<open>call\<close>, with any storage, computes the value that
  the function returns according to the semantics of the language, in which every block has its own scope, and
  leaves the storage as it is. The cost does not depend on the gas it is given; with less gas than that and the
  price of the last instruction the run ends out of gas. The code must fit the instruction counter. Programs that
  declare a name while it is visible are excluded, since their code overwrites the hidden variable; inexact
  quotients and remainders of negative numbers have no value in the semantics.
\<close>

theorem source_computes:
  assumes "int_source ast name w" "entry name ic"
  shows "\<exists>ctx. parseFile (print_tokens (print_ast ast)) = Some (Compiled ctx) \<and> (length (cg_Instructions ctx) < 2 ^ 63 \<longrightarrow>
    (\<exists>cost. \<forall>gas. if cost + unat (gas_price RETURN) \<le> unat gas
      then \<exists>r s. StartExecution ((NewRuntimeWithIC gas (cg_Instructions ctx) bc (int ic))\<lparr>Persistent := persistent\<rparr>) = Some (r, of_nat cost, Some ErrProgramStopped) \<and>
             stk_s (Stack r) = s @ [uint w] \<and> Persistent r = persistent
      else \<exists>r u. StartExecution ((NewRuntimeWithIC gas (cg_Instructions ctx) bc (int ic))\<lparr>Persistent := persistent\<rparr>) = Some (r, u, Some ErrOutOfGas)))"
  by (rule source_runs[OF assms])

text \<open>The counting contract, \<open>define call ( ) : int { x : int = 2 while x < 3 { x = x + 1 } return x } \<dots>\<close>\<close>

definition count_contract :: Ast where
  "count_contract = NewAst\<lparr>ast_Functions :=
     [(''call'', (count_function ''call'')\<lparr>fn_Block := Block count_body []\<rparr>), (''init'', (count_function ''init'')\<lparr>fn_Block := Block count_body []\<rparr>)]\<rparr>"

lemma count_contract_source: "int_source count_contract ''call'' 3"
proof -
  have p: "printable_ast count_contract" by code_simp
  have l: "lexical_ast count_contract" by code_simp
  have s: "supported_program count_contract" unfolding supported_program_def local_name_def by code_simp
  have i: "int_program count_contract" by code_simp
  have t: "Typecheck count_contract \<noteq> None" by code_simp
  have "list_assignments count_body + list_depth count_body \<le> unat AVMMaxStackSize" by code_simp
  moreover have "map_of (ast_Functions count_contract) ''call'' = Some ((count_function ''call'')\<lparr>fn_Block := Block count_body []\<rparr>)"
    by (simp add: count_contract_def)
  moreover have "count_body \<noteq> []" "last count_body = ReturnStmt (Some (IdentifierExpr ''x''))" by (simp_all add: count_body_def)
  ultimately show ?thesis unfolding int_source_def using p l s i t count_exec by fastforce
qed

lemma count_contract_compiled:
  "\<exists>ctx. parseFile (print_tokens (print_ast count_contract)) = Some (Compiled ctx) \<and> length (cg_Instructions ctx) < 2 ^ 63"
proof -
  have s: "printable_ast count_contract" "lexical_ast count_contract" "ast_Functions count_contract \<noteq> []"
    using count_contract_source by (auto simp: int_source_def)
  have t: "Typecheck count_contract = Some count_ast" by code_simp
  have "map_option here (CodegenWithContext count_ast) = Some 50" by code_simp
  then show ?thesis using parseFile_printed[OF s t] by auto
qed

theorem source_computes_witness:
  "\<exists>ctx cost. parseFile (print_tokens (print_ast count_contract)) = Some (Compiled ctx) \<and> runs_to (cg_Instructions ctx) MockBlockchainContext [] 2 3 cost"
proof -
  have "entry ''call'' 2" by (simp add: entry_def)
  from source_computes[where bc = MockBlockchainContext and persistent = "[]", OF count_contract_source this] count_contract_compiled show ?thesis by fastforce
qed

end
