(* ===== verification/Utils.thy ===== *)
theory Utils
  imports Config
begin

text \<open>
  \<open>src/utils\<close>: overflow-checked arithmetic on amounts (\<open>safemath.go\<close>), big-endian integers and the
  compact form of a target (\<open>convert.go\<close>). \<open>GenerateUUID\<close> only calls a third-party package
  and is not modelled.
\<close>

section \<open>Checked arithmetic\<close>

datatype util_error = AddOverflow u64 u64 | SubUnderflow u64 u64 | AmountTooLarge u64

definition SafeAdd :: "u64 \<Rightarrow> u64 \<Rightarrow> util_error + u64" where
  "SafeAdd a b =
     (let maxAmount = not (0 :: u64)
      in if a > maxAmount - b then Inl (AddOverflow a b) else Inr (a + b))"

definition SafeSubtract :: "u64 \<Rightarrow> u64 \<Rightarrow> util_error + u64" where
  "SafeSubtract a b = (if a < b then Inl (SubUnderflow a b) else Inr (a - b))"

definition ValidateAmount :: "u64 \<Rightarrow> util_error option" where
  "ValidateAmount amount =
     (let maxAmount = not (0 :: u64)
      in if amount > maxAmount then Some (AmountTooLarge amount) else None)"

section \<open>Conversions\<close>

definition Uint64ToBytes :: "u64 \<Rightarrow> byte list" where
  "Uint64ToBytes n = be_bytes 8 (uint n)"

definition Uint32ToBytes :: "u32 \<Rightarrow> byte list" where
  "Uint32ToBytes n = be_bytes 4 (uint n)"

definition CompactToBig :: "u32 \<Rightarrow> int" where
  "CompactToBig compact =
     (let exponent = drop_bit 24 compact;
          mantissa = and compact 0x007fffff;
          target = uint mantissa
      in if exponent > 3 then push_bit (8 * (nat (uint exponent) - 3)) target
         else drop_bit (8 * (3 - nat (uint exponent))) target)"

definition BigToCompact :: "int \<Rightarrow> u32" where
  "BigToCompact target =
     (if target \<le> 0 then 0
      else let bytes = big_Bytes target;
               exponent = word_of_int (int (length bytes)) :: u32;
               mantissa = (if length bytes > 0 then push_bit 16 (ucast (bytes ! 0)) else 0);
               mantissa = or mantissa (if length bytes > 1 then push_bit 8 (ucast (bytes ! 1)) else 0);
               mantissa = or mantissa (if length bytes > 2 then ucast (bytes ! 2) else 0)
           in if and mantissa 0x00800000 \<noteq> 0
              then or (push_bit 24 (exponent + 1)) (drop_bit 8 mantissa)
              else or (push_bit 24 exponent) mantissa)"

section \<open>Checked arithmetic is exact\<close>

lemma u64_range: "0 \<le> uint (w :: u64) \<and> uint w < 18446744073709551616"
  using unsigned_less [of w, where ?'a = int] by simp

lemma SafeAdd_Inr: "SafeAdd a b = Inr c \<longleftrightarrow> uint a + uint b < 2 ^ 64 \<and> c = a + b"
proof -
  have "(18446744073709551615 - uint b) mod 18446744073709551616 = 18446744073709551615 - uint b"
    using u64_range [of b] by (intro mod_pos_pos_trivial) linarith+
  then have "uint (- 1 - b :: u64) = 2 ^ 64 - 1 - uint b"
    by (simp add: uint_word_ariths)
  then have "a > (- 1 :: u64) - b \<longleftrightarrow> \<not> uint a + uint b < 2 ^ 64"
    by (auto simp: word_less_def)
  then show ?thesis by (auto simp: SafeAdd_def Let_def)
qed

lemma SafeAdd_Inl: "SafeAdd a b = Inl e \<longleftrightarrow> \<not> uint a + uint b < 2 ^ 64 \<and> e = AddOverflow a b"
  using SafeAdd_Inr [of a b "a + b"] by (auto simp: SafeAdd_def Let_def split: if_splits)

lemma uint_plus_exact: "uint (a :: u64) + uint b < 2 ^ 64 \<Longrightarrow> uint (a + b) = uint a + uint b"
  by (simp add: uint_word_ariths)

lemma uint_minus_exact: "(b :: u64) \<le> a \<Longrightarrow> uint (a - b) = uint a - uint b"
  by (simp add: uint_minus_simple_iff [THEN iffD1] word_le_def uint_sub_if')

lemma uint_mult_exact: "uint (a :: u64) * uint b < 2 ^ 64 \<Longrightarrow> uint (a * b) = uint a * uint b"
  by (simp add: uint_word_ariths)

lemma ValidateAmount_None [simp]: "ValidateAmount a = None"
  by (simp add: ValidateAmount_def Let_def not_less word_order.extremum)

section \<open>Precision of the compact form\<close>

lemma pos_value_append: "pos_value b (xs @ ys) = pos_value b xs * b ^ length ys + pos_value b ys"
proof (induction ys rule: rev_induct)
  case (snoc y ys)
  then show ?case by (simp add: algebra_simps flip: append_assoc)
qed simp

lemma pos_value_take:
  assumes "0 < b" and "\<And>d. d \<in> set ds \<Longrightarrow> 0 \<le> d \<and> d < b"
  shows "pos_value b (take k ds) = pos_value b ds div b ^ (length ds - k)"
proof -
  have "0 \<le> pos_value b (drop k ds) \<and> pos_value b (drop k ds) < b ^ length (drop k ds)"
    using assms(2) by (intro pos_value_bound) (meson in_set_dropD)
  then have "(pos_value b (take k ds) * b ^ length (drop k ds) + pos_value b (drop k ds))
      div b ^ length (drop k ds) = pos_value b (take k ds)"
    using assms(1) by (subst div_mult_self3) auto
  then show ?thesis using pos_value_append [of b "take k ds" "drop k ds"] by simp
qed

text \<open>The leading bytes of a number: what \<open>BigToCompact\<close> keeps of it.\<close>

lemma big_SetBytes_append:
  "big_SetBytes (xs @ ys) = big_SetBytes xs * 256 ^ length ys + big_SetBytes ys"
  by (simp add: big_SetBytes_def pos_value_append)

lemma big_SetBytes_take: "big_SetBytes (take k bs) = big_SetBytes bs div 256 ^ (length bs - k)"
proof -
  have "0 \<le> d \<and> d < 256" if "d \<in> set (map uint bs)" for d
    using that uint_byte_range by auto
  then show ?thesis using pos_value_take [of 256 "map uint bs" k] by (simp add: big_SetBytes_def take_map)
qed

lemma big_Bytes_leading:
  assumes "0 < x"
  shows "big_Bytes x \<noteq> []" and "0 < uint (big_Bytes x ! 0)"
proof -
  have "pos_digits 256 n \<noteq> [] \<and> 0 < pos_digits 256 n ! 0" if "0 < n" for n
    using that
  proof (induction "256 :: int" n rule: pos_digits.induct)
    case (1 n)
    show ?case
    proof (cases "n < 256")
      case True
      then have "n div 256 = 0" using 1 by simp
      then show ?thesis using 1 True by (simp add: pos_digits_rec)
    next
      case False
      then have "0 < n div 256" by (simp add: pos_imp_zdiv_pos_iff)
      then show ?thesis using 1 by (auto simp: pos_digits_rec [of 256 n] nth_append)
    qed
  qed
  note lead = this [of x]
  then show "big_Bytes x \<noteq> []" using assms by (simp add: big_Bytes_def)
  have "pos_digits 256 x ! 0 < 256"
    using lead assms pos_digits_range [of 256 "pos_digits 256 x ! 0" x] by simp
  then show "0 < uint (big_Bytes x ! 0)"
    using lead assms by (simp add: big_Bytes_def uint_word_of_int)
qed

end
