(* ===== verification/Sha256.thy ===== *)
theory Sha256
  imports Go_Prelude
begin

text \<open>
  The hash of \<open>crypto/sha256\<close> (FIPS 180-4), which every identifier of the chain is made of:
  \<open>sha256 bs\<close> is \<open>h := sha256.New(); h.Write(bs); h.Sum(nil)\<close>. Several \<open>Write\<close> calls hash the
  concatenation of what they write. The digest has 32 bytes whatever the input, which the locale
  \<open>digest\<close> states as the contract of a hash function; the Merkle trees and the identifiers
  are reasoned about from that contract alone.
\<close>

section \<open>The compression function\<close>

definition sha_K :: "u32 list" where
  "sha_K = [1116352408, 1899447441, 3049323471, 3921009573,
     961987163, 1508970993, 2453635748, 2870763221,
     3624381080, 310598401, 607225278, 1426881987,
     1925078388, 2162078206, 2614888103, 3248222580,
     3835390401, 4022224774, 264347078, 604807628,
     770255983, 1249150122, 1555081692, 1996064986,
     2554220882, 2821834349, 2952996808, 3210313671,
     3336571891, 3584528711, 113926993, 338241895,
     666307205, 773529912, 1294757372, 1396182291,
     1695183700, 1986661051, 2177026350, 2456956037,
     2730485921, 2820302411, 3259730800, 3345764771,
     3516065817, 3600352804, 4094571909, 275423344,
     430227734, 506948616, 659060556, 883997877,
     958139571, 1322822218, 1537002063, 1747873779,
     1955562222, 2024104815, 2227730452, 2361852424,
     2428436474, 2756734187, 3204031479, 3329325298]"

definition sha_H0 :: "u32 list" where
  "sha_H0 = [1779033703, 3144134277, 1013904242, 2773480762,
     1359893119, 2600822924, 528734635, 1541459225]"

definition sha_sigma0 :: "u32 \<Rightarrow> u32" where
  "sha_sigma0 x = xor (xor (word_rotr 7 x) (word_rotr 18 x)) (drop_bit 3 x)"

definition sha_sigma1 :: "u32 \<Rightarrow> u32" where
  "sha_sigma1 x = xor (xor (word_rotr 17 x) (word_rotr 19 x)) (drop_bit 10 x)"

definition sha_Sigma0 :: "u32 \<Rightarrow> u32" where
  "sha_Sigma0 x = xor (xor (word_rotr 2 x) (word_rotr 13 x)) (word_rotr 22 x)"

definition sha_Sigma1 :: "u32 \<Rightarrow> u32" where
  "sha_Sigma1 x = xor (xor (word_rotr 6 x) (word_rotr 11 x)) (word_rotr 25 x)"

definition sha_Ch :: "u32 \<Rightarrow> u32 \<Rightarrow> u32 \<Rightarrow> u32" where
  "sha_Ch x y z = xor (and x y) (and (not x) z)"

definition sha_Maj :: "u32 \<Rightarrow> u32 \<Rightarrow> u32 \<Rightarrow> u32" where
  "sha_Maj x y z = xor (xor (and x y) (and x z)) (and y z)"

text \<open>The message schedule, built backwards: the list holds the last sixteen words, newest first.\<close>

fun sha_schedule :: "nat \<Rightarrow> u32 list \<Rightarrow> u32 list \<Rightarrow> u32 list" where
  "sha_schedule 0 ws acc = rev acc"
| "sha_schedule (Suc n) ws acc =
     (let w = sha_sigma1 (ws ! 1) + ws ! 6 + sha_sigma0 (ws ! 14) + ws ! 15
      in sha_schedule n (w # take 15 ws) (w # acc))"

definition sha_round :: "u32 list \<Rightarrow> u32 \<times> u32 \<Rightarrow> u32 list" where
  "sha_round st kw = (case st of
     [a, b, c, d, e, f, g, h] \<Rightarrow>
       (let t1 = h + sha_Sigma1 e + sha_Ch e f g + fst kw + snd kw;
            t2 = sha_Sigma0 a + sha_Maj a b c
        in [t1 + t2, a, b, c, d + t1, e, f, g])
   | _ \<Rightarrow> st)"

definition sha_compress :: "u32 list \<Rightarrow> u32 list \<Rightarrow> u32 list" where
  "sha_compress st ws =
     map2 (+) st (foldl sha_round st (zip sha_K (ws @ sha_schedule 48 (rev ws) [])))"

section \<open>Padding, blocks and the digest\<close>

definition sha_pad :: "byte list \<Rightarrow> byte list" where
  "sha_pad m = m @ [0x80] @ replicate ((119 - length m mod 64) mod 64) 0 @ be_bytes 8 (8 * int (length m))"

fun sha_words :: "byte list \<Rightarrow> u32 list" where
  "sha_words (a # b # c # d # bs) = word_of_int (big_SetBytes [a, b, c, d]) # sha_words bs"
| "sha_words _ = []"

function sha_blocks :: "u32 list \<Rightarrow> u32 list \<Rightarrow> u32 list" where
  "sha_blocks st ws = (if length ws < 16 then st
     else sha_blocks (sha_compress st (take 16 ws)) (drop 16 ws))"
  by pat_completeness auto
termination
  by (relation "measure (\<lambda>(st, ws). length ws)") auto

declare sha_blocks.simps [simp del]

definition sha256 :: "byte list \<Rightarrow> byte list" where
  "sha256 m = concat (map (\<lambda>w. be_bytes 4 (uint w)) (sha_blocks sha_H0 (sha_words (sha_pad m))))"

section \<open>The contract of a digest\<close>

lemma length_sha_round [simp]: "length (sha_round st kw) = length st"
  by (simp add: sha_round_def Let_def split: list.split)

lemma length_foldl_sha_round [simp]: "length (foldl sha_round st kws) = length st"
  by (induction kws arbitrary: st) simp_all

lemma length_sha_blocks: "length (sha_blocks st ws) = length st"
proof (induction st ws rule: sha_blocks.induct)
  case (1 st ws)
  then show ?case by (cases "length ws < 16") (simp_all add: sha_blocks.simps [of st ws] sha_compress_def)
qed

lemma length_concat_const: "(\<And>x. length (f x) = k) \<Longrightarrow> length (concat (map f xs)) = k * length xs"
  by (induction xs) simp_all

lemma length_sha256 [simp]: "length (sha256 m) = 32"
proof -
  have "length sha_H0 = 8" by (simp add: sha_H0_def)
  then show ?thesis by (simp add: sha256_def length_sha_blocks length_concat_const [where k = 4])
qed

text \<open>The one-block example of FIPS 180-4, evaluated in the kernel.\<close>

lemma sha256_abc:
  "map uint (sha256 (bytes_of_string ''abc'')) =
     [0xba, 0x78, 0x16, 0xbf, 0x8f, 0x01, 0xcf, 0xea, 0x41, 0x41, 0x40, 0xde, 0x5d, 0xae, 0x22, 0x23,
      0xb0, 0x03, 0x61, 0xa3, 0x96, 0x17, 0x7a, 0x9c, 0xb4, 0x10, 0xff, 0x61, 0xf2, 0x00, 0x15, 0xad]"
  by code_simp

text \<open>
  A collision between two lists of messages: at one place of both there are two different messages
  with one digest. It is a statement on the messages of the two lists only, so that it can be
  evaluated on them; that some two messages collide is true of every digest of a fixed length.
\<close>

definition collide :: "(byte list \<Rightarrow> byte list) \<Rightarrow> byte list list \<Rightarrow> byte list list \<Rightarrow> bool" where
  "collide H xs ys \<longleftrightarrow> list_ex (\<lambda>(x, y). x \<noteq> y \<and> H x = H y) (zip xs ys)"

locale digest =
  fixes H :: "byte list \<Rightarrow> byte list"
  assumes length_H: "length (H m) = 32"
begin

text \<open>Equal digests, place by place, mean equal messages, or the two lists have a collision.\<close>

lemma digests_inject: "map H xs = map H ys \<Longrightarrow> xs = ys \<or> collide H xs ys"
proof (induction xs arbitrary: ys)
  case (Cons x xs)
  then obtain y ys' where ys: "ys = y # ys'" "H x = H y" "map H xs = map H ys'" by (cases ys) auto
  with Cons.IH[of ys'] show ?case by (auto simp: collide_def)
qed simp

lemma collide_append:
  "length xs = length ys \<Longrightarrow> collide H (xs @ xs') (ys @ ys') \<longleftrightarrow> collide H xs ys \<or> collide H xs' ys'"
  by (simp add: collide_def)

lemma lengths_H: "\<forall>h\<in>set (map H xs). length h = 32"
  by (simp add: length_H)

end

interpretation sha: digest sha256
  by unfold_locales simp

end
