(* ===== verification/Ledger.thy ===== *)
theory Ledger
  imports Utils Bytecode Sha256
begin

text \<open>
  The data of the ledger, \<open>src/blockchain/account.go\<close>, \<open>transaction.go\<close>, \<open>block.go\<close> and
  \<open>crypto.go\<close>: account states, transactions, block headers and blocks with their hashes, the Merkle
  trees over transactions, accounts and contract storage, and the addresses of contracts. The
  fields of a struct carry a prefix that names it. A hash is written as the bytes fed to
  \<open>sha256.New()\<close> in order.
\<close>

section \<open>Structures\<close>

record AccountState =
  acc_Address :: PublicKey
  acc_Balance :: u64
  acc_Nonce :: u64
  acc_Instructions :: "Instruction list"
  acc_Persistent :: "(string, string) gomap"
  acc_StorageRoot :: Hash32
  acc_CodeHash :: Hash32
  acc_DeploymentTsxHash :: Hash32
  acc_DeploymentBlockHash :: Hash32

type_synonym AccountStates = "(PublicKey, AccountState) gomap"

text \<open>The literal \<open>AccountState{Balance: b, Address: a, Nonce: 0}\<close> with every other field zero.\<close>

definition new_account :: "PublicKey \<Rightarrow> u64 \<Rightarrow> AccountState" where
  "new_account a b =
     \<lparr>acc_Address = a, acc_Balance = b, acc_Nonce = 0, acc_Instructions = [], acc_Persistent = [],
      acc_StorageRoot = zero32, acc_CodeHash = zero32, acc_DeploymentTsxHash = zero32,
      acc_DeploymentBlockHash = zero32\<rparr>"

record Transaction =
  tx_From :: PublicKey
  tx_To :: PublicKey
  tx_Amount :: u64
  tx_Signature :: Signature
  tx_Nonce :: u64
  tx_Timestamp :: u64
  tx_ChainID :: u64
  tx_Instructions :: "Instruction list"
  tx_GasLimit :: u64
  tx_GasPrice :: u64
  tx_Data :: "byte list"

record BlockHeader =
  hdr_Version :: u64
  hdr_PreviousHash :: Hash32
  hdr_Height :: u64
  hdr_Timestamp :: u64
  hdr_Nonce :: u64
  hdr_MerkleRoot :: Hash32
  hdr_StateRoot :: Hash32
  hdr_ReceiptRoot :: Hash32
  hdr_Bits :: u32
  hdr_TotalWork :: string
  hdr_GasLimit :: u64
  hdr_GasUsed :: u64
  hdr_Beneficiary :: PublicKey

record Block =
  blk_Header :: BlockHeader
  blk_Transactions :: "Transaction list"

section \<open>Hashes\<close>

text \<open>The bytes of an instruction as they are hashed: the opcode and the value, with no separator.\<close>

definition instruction_bytes :: "Instruction \<Rightarrow> byte list" where
  "instruction_bytes ins =
     opcode_byte (Opcode ins) # (case Value ins of None \<Rightarrow> [] | Some v \<Rightarrow> bytes_of_string v)"

definition ComputeCodeHash :: "Instruction list \<Rightarrow> Hash32" where
  "ComputeCodeHash instructions =
     (if instructions = [] then zero32 else sha256 (concat (map instruction_bytes instructions)))"

definition AccountState_bytes :: "AccountState \<Rightarrow> byte list" where
  "AccountState_bytes s =
     acc_Address s @ Uint64ToBytes (acc_Balance s) @ Uint64ToBytes (acc_Nonce s) @
     concat (map instruction_bytes (acc_Instructions s)) @
     acc_StorageRoot s @ acc_CodeHash s @ acc_DeploymentTsxHash s @ acc_DeploymentBlockHash s"

definition AccountState_GetHash :: "AccountState \<Rightarrow> Hash32" where
  "AccountState_GetHash s = sha256 (AccountState_bytes s)"

definition Transaction_bytes :: "Transaction \<Rightarrow> byte list" where
  "Transaction_bytes t =
     tx_From t @ tx_To t @ Uint64ToBytes (tx_Amount t) @ Uint64ToBytes (tx_Nonce t) @
     Uint64ToBytes (tx_Timestamp t) @ Uint64ToBytes (tx_ChainID t) @
     Uint64ToBytes (tx_GasLimit t) @ Uint64ToBytes (tx_GasPrice t) @
     (if tx_Instructions t \<noteq> [] then ComputeCodeHash (tx_Instructions t) else []) @ tx_Data t"

definition Transaction_GetHash :: "Transaction \<Rightarrow> Hash32" where
  "Transaction_GetHash t = sha256 (Transaction_bytes t)"

definition BlockHeader_bytes :: "BlockHeader \<Rightarrow> byte list" where
  "BlockHeader_bytes h =
     Uint64ToBytes (hdr_Version h) @ hdr_PreviousHash h @ Uint64ToBytes (hdr_Height h) @
     Uint64ToBytes (hdr_Timestamp h) @ hdr_MerkleRoot h @ hdr_StateRoot h @ hdr_ReceiptRoot h @
     Uint32ToBytes (hdr_Bits h) @
     big_Bytes (big_SetString_value (hdr_TotalWork h) 10) @
     Uint64ToBytes (hdr_GasLimit h) @ Uint64ToBytes (hdr_GasUsed h) @ hdr_Beneficiary h @
     Uint64ToBytes (hdr_Nonce h)"

definition BlockHeader_GetHash :: "BlockHeader \<Rightarrow> Hash32" where
  "BlockHeader_GetHash h = sha256 (BlockHeader_bytes h)"

definition Block_GetHash :: "Block \<Rightarrow> Hash32" where
  "Block_GetHash b = BlockHeader_GetHash (blk_Header b)"

definition FindTransactionByHash :: "Block \<Rightarrow> Hash32 \<Rightarrow> Transaction option" where
  "FindTransactionByHash b txHash = find (\<lambda>t. Transaction_GetHash t = txHash) (blk_Transactions b)"

text \<open>
  \<open>DeepCopyAccountStates\<close> on values: every field is copied, so the copy is the value itself; what the
  copy is for, that later updates of one do not reach the other, holds of values by construction.
\<close>

definition copy_account :: "AccountState \<Rightarrow> AccountState" where
  "copy_account v =
     \<lparr>acc_Address = acc_Address v, acc_Balance = acc_Balance v, acc_Nonce = acc_Nonce v,
      acc_Instructions = acc_Instructions v, acc_Persistent = acc_Persistent v,
      acc_StorageRoot = acc_StorageRoot v, acc_CodeHash = acc_CodeHash v,
      acc_DeploymentTsxHash = acc_DeploymentTsxHash v,
      acc_DeploymentBlockHash = acc_DeploymentBlockHash v\<rparr>"

definition DeepCopyAccountStates :: "AccountStates \<Rightarrow> AccountStates" where
  "DeepCopyAccountStates original = map (\<lambda>(k, v). (k, copy_account v)) original"

section \<open>Merkle trees\<close>

text \<open>The pairs of one level; a level of odd length has its last hash appended once more.\<close>

fun hash_pairs :: "byte list list \<Rightarrow> byte list list" where
  "hash_pairs (a # b # hs) = sha256 (a @ b) # hash_pairs hs"
| "hash_pairs hs = []"

definition new_level :: "byte list list \<Rightarrow> byte list list" where
  "new_level hs = hash_pairs (if odd (length hs) then hs @ [last hs] else hs)"

lemma length_hash_pairs [simp]: "length (hash_pairs hs) = length hs div 2"
  by (induction hs rule: hash_pairs.induct) auto

lemma length_new_level: "length (new_level hs) = (length hs + 1) div 2"
  by (auto simp: new_level_def elim!: oddE)

function merkle_loop :: "byte list list \<Rightarrow> byte list list" where
  "merkle_loop hs = (if length hs > 1 then merkle_loop (new_level hs) else hs)"
  by pat_completeness auto
termination
  by (relation "measure length") (auto simp: length_new_level)

declare merkle_loop.simps [simp del]

definition MerkleTransactions :: "Transaction list \<Rightarrow> Hash32" where
  "MerkleTransactions transactions =
     (if transactions = [] then zero32 else hd (merkle_loop (map Transaction_GetHash transactions)))"

definition GenerateContractAddress :: "PublicKey \<Rightarrow> u64 \<Rightarrow> PublicKey" where
  "GenerateContractAddress deployer nonce = sha256 (deployer @ Uint64ToBytes nonce)"

text \<open>
  The two nested loops that sort by exchange: for each position, every later element that is
  smaller is swapped in. \<open>gt x y\<close> is the comparison of the source.
\<close>

fun exchange_pass :: "('a \<Rightarrow> 'a \<Rightarrow> bool) \<Rightarrow> 'a \<Rightarrow> 'a list \<Rightarrow> 'a \<times> 'a list" where
  "exchange_pass gt x [] = (x, [])"
| "exchange_pass gt x (y # ys) =
     (if gt x y then (case exchange_pass gt y ys of (m, zs) \<Rightarrow> (m, x # zs))
      else (case exchange_pass gt x ys of (m, zs) \<Rightarrow> (m, y # zs)))"

lemma length_exchange_pass: "length (snd (exchange_pass gt x ys)) = length ys"
  by (induction gt x ys rule: exchange_pass.induct) (auto split: prod.splits)

lemma exchange_pass_length: "(m, zs) = exchange_pass gt x ys \<Longrightarrow> length zs = length ys"
  using length_exchange_pass[of gt x ys] by (metis snd_conv)

function exchange_sort :: "('a \<Rightarrow> 'a \<Rightarrow> bool) \<Rightarrow> 'a list \<Rightarrow> 'a list" where
  "exchange_sort gt [] = []"
| "exchange_sort gt (x # xs) =
     (case exchange_pass gt x xs of (m, rest) \<Rightarrow> m # exchange_sort gt rest)"
  by pat_completeness auto
termination
  by (relation "measure (\<lambda>(gt, xs). length xs)") (auto dest: exchange_pass_length)

text \<open>The loop over the 32 positions of two addresses, and the comparison of Go strings.\<close>

fun address_gt :: "byte list \<Rightarrow> byte list \<Rightarrow> bool" where
  "address_gt (a # as) (b # bs) = (if a > b then True else if a < b then False else address_gt as bs)"
| "address_gt as bs = False"

fun string_gt :: "string \<Rightarrow> string \<Rightarrow> bool" where
  "string_gt [] ys = False"
| "string_gt (x # xs) [] = True"
| "string_gt (x # xs) (y # ys) =
     (of_char x > (of_char y :: int) \<or> (x = y \<and> string_gt xs ys))"

definition ComputeStateRoot :: "AccountStates \<Rightarrow> Hash32" where
  "ComputeStateRoot accountStates =
     (if accountStates = [] then zero32
      else let addresses = exchange_sort address_gt (go_keys accountStates);
               hashes = map (\<lambda>addr. AccountState_GetHash (the (map_of accountStates addr))) addresses
           in hd (merkle_loop hashes))"

definition ComputeStorageRoot :: "(string, string) gomap \<Rightarrow> Hash32" where
  "ComputeStorageRoot persistent =
     (if persistent = [] then zero32
      else let keys = exchange_sort string_gt (go_keys persistent);
               hashes = map (\<lambda>key. sha256 (bytes_of_string key @ bytes_of_string (the (map_of persistent key)))) keys
           in hd (merkle_loop hashes))"

end
