(* ===== verification/Execution.thy ===== *)
theory Execution
  imports Ledger AVM_Safety
begin

text \<open>
  \<open>src/execution/execution.go\<close>: the executor of contracts behind the interface \<open>ContractExecutor\<close> of
  \<open>src/blockchain/validation.go\<close>. The accounts are a map to pointers in the source; the executor
  returns the new map together with the keys at which it has put a new object, because a pointer
  taken before the call to the object that was there no longer reaches the map.
\<close>

datatype exec_error =
    NoGasForInit
  | InitFailed avm_error
  | RecipientDoesNotExist

text \<open>\<open>None\<close> is a panic; otherwise the accounts, the replaced keys, the gas used and the error.\<close>

type_synonym exec_result = "(AccountStates \<times> PublicKey list \<times> u64 \<times> exec_error option) option"

type_synonym ContractExecutor = "Transaction \<Rightarrow> AccountStates \<Rightarrow> BlockchainContext \<Rightarrow> exec_result"

definition executeContractDeployment :: ContractExecutor where
  "executeContractDeployment tsx accountStates blockContext =
     (case map_of accountStates (tx_From tsx) of
        None \<Rightarrow> None
      | Some fromState \<Rightarrow>
          (let contractAddr = GenerateContractAddress (tx_From tsx) (acc_Nonce fromState);
               contractState = (new_account contractAddr (tx_Amount tsx))
                 \<lparr>acc_Instructions := tx_Instructions tsx, acc_CodeHash := ComputeCodeHash (tx_Instructions tsx)\<rparr>
           in if tx_Instructions tsx \<noteq> [] then
                (let remainingGas = tx_GasLimit tsx - 0 in
                 if remainingGas = 0 then Some (accountStates, [], 0, Some NoGasForInit)
                 else case StartExecution (NewRuntimeWithIC remainingGas (tx_Instructions tsx) blockContext 0) of
                     None \<Rightarrow> None
                   | Some (runtime, initGasUsed, err) \<Rightarrow>
                       (case err of
                          Some e \<Rightarrow>
                            if e \<noteq> ErrProgramStopped then Some (accountStates, [], initGasUsed, Some (InitFailed e))
                            else Some (go_store contractAddr
                                   (contractState\<lparr>acc_Persistent := Persistent runtime,
                                      acc_StorageRoot := ComputeStorageRoot (Persistent runtime)\<rparr>) accountStates,
                                 [contractAddr], initGasUsed, None)
                        | None \<Rightarrow>
                            Some (go_store contractAddr
                                   (contractState\<lparr>acc_Persistent := Persistent runtime,
                                      acc_StorageRoot := ComputeStorageRoot (Persistent runtime)\<rparr>) accountStates,
                                 [contractAddr], initGasUsed, None)))
              else Some (go_store contractAddr contractState accountStates, [contractAddr], 0, None)))"

definition executeContractCall :: ContractExecutor where
  "executeContractCall tsx accountStates blockContext =
     (case map_of accountStates (tx_To tsx) of
        None \<Rightarrow> Some (accountStates, [], 0, Some RecipientDoesNotExist)
      | Some toState \<Rightarrow>
          (let toState = toState\<lparr>acc_Balance := acc_Balance toState + tx_Amount tsx\<rparr>;
               credited = go_store (tx_To tsx) toState accountStates
           in if acc_Instructions toState \<noteq> [] then
                (let remainingGas = tx_GasLimit tsx - 0 in
                 if remainingGas > 0 then
                   (let runtime = (NewRuntimeWithIC remainingGas (acc_Instructions toState) blockContext 2)
                          \<lparr>Persistent := acc_Persistent toState\<rparr>
                    in case StartExecution runtime of
                         None \<Rightarrow> None
                       | Some (runtime, runtimeGasUsed, err) \<Rightarrow>
                           if err \<noteq> None \<and> err \<noteq> Some ErrProgramStopped
                           then Some (credited, [], runtimeGasUsed, None)
                           else Some (go_store (tx_To tsx)
                                  (toState\<lparr>acc_Persistent := Persistent runtime,
                                     acc_StorageRoot := ComputeStorageRoot (Persistent runtime)\<rparr>) accountStates,
                                [], runtimeGasUsed, None))
                 else Some (credited, [], 0, None))
              else Some (credited, [], 0, None)))"

definition ExecuteTransaction :: ContractExecutor where
  "ExecuteTransaction tsx accountStates blockContext =
     (if length (tx_Instructions tsx) > 0
      then executeContractDeployment tsx accountStates blockContext
      else executeContractCall tsx accountStates blockContext)"

section \<open>The contract of the interface\<close>

text \<open>
  What \<open>ApplyTransaction\<close> relies on of its executor. \<open>gas\<close>: it uses at most the gas limit of the
  transaction. \<open>keeps\<close>: it leaves every account alone but the recipient and the contract it creates,
  and an account it does not replace keeps its nonce. \<open>sender\<close>: it only ever credits the sender,
  modulo the word size, with the amount.
\<close>

locale contract_executor =
  fixes execute :: ContractExecutor
  assumes gas: "execute tsx st ctx = Some (st', rep, g, e) \<Longrightarrow> g \<le> tx_GasLimit tsx"
    and keeps: "execute tsx st ctx = Some (st', rep, g, e) \<Longrightarrow> k \<noteq> tx_To tsx \<Longrightarrow> k \<notin> set rep \<Longrightarrow>
      map_of st' k = map_of st k"
    and failure: "execute tsx st ctx = Some (st', rep, g, Some x) \<Longrightarrow> st' = st"
    and recipient: "execute tsx st ctx = Some (st', rep, g, e) \<Longrightarrow> map_of st (tx_To tsx) = Some s \<Longrightarrow>
      tx_To tsx \<notin> set rep \<Longrightarrow>
      \<exists>s'. map_of st' (tx_To tsx) = Some s' \<and> acc_Nonce s' = acc_Nonce s \<and>
        acc_Balance s' \<in> {acc_Balance s, acc_Balance s + tx_Amount tsx}"
    and keys: "execute tsx st ctx = Some (st', rep, g, e) \<Longrightarrow> distinct (go_keys st) \<Longrightarrow> distinct (go_keys st')"

lemma run_new_gas:
  "StartExecution ((NewRuntimeWithIC gas is ctx ic)\<lparr>Persistent := p\<rparr>) = Some (r', g, e) \<Longrightarrow> g \<le> gas"
proof -
  let ?r = "(NewRuntimeWithIC gas is ctx ic)\<lparr>Persistent := p\<rparr>"
  assume "StartExecution ?r = Some (r', g, e)"
  then have "run ?r = Some (r', e)" "g = GasUsed r'"
    by (auto simp: StartExecution_def NewRuntimeWithIC_def NewStack_def split: option.splits)
  from run_gas[OF this(1)] this(2) have "g + GasAvailable r' = gas" "GasAvailable r' \<le> gas"
    by (auto simp: NewRuntimeWithIC_def)
  then have "g = gas - GasAvailable r'" "GasAvailable r' \<le> gas" by (auto simp: algebra_simps)
  then show "g \<le> gas" by (simp add: word_sub_le)
qed

lemma run_new_gas_fresh: "StartExecution (NewRuntimeWithIC gas is ctx ic) = Some (r', g, e) \<Longrightarrow> g \<le> gas"
  using run_new_gas[where p = "[]"] by (simp add: NewRuntimeWithIC_def)

lemma deployment_stored:
  assumes ex: "executeContractDeployment tsx st ctx = Some (st', rep, g, None)"
    and sender: "map_of st (tx_From tsx) = Some sender"
  defines "a \<equiv> GenerateContractAddress (tx_From tsx) (acc_Nonce sender)"
  shows "rep = [a]" "st' = go_store a (the (map_of st' a)) st" "g \<le> tx_GasLimit tsx"
    "acc_Balance (the (map_of st' a)) = tx_Amount tsx" "acc_Nonce (the (map_of st' a)) = 0"
    "acc_Instructions (the (map_of st' a)) = tx_Instructions tsx"
  using ex sender unfolding a_def
  by (auto simp: executeContractDeployment_def Let_def new_account_def dest: run_new_gas_fresh
      split: option.splits if_splits)

lemma deployment_failed:
  assumes "executeContractDeployment tsx st ctx = Some (st', rep, g, Some x)"
  shows "st' = st" "rep = []" "g \<le> tx_GasLimit tsx"
  using assms by (auto simp: executeContractDeployment_def Let_def dest: run_new_gas_fresh
      split: option.splits if_splits)

lemma deployment_sender:
  "executeContractDeployment tsx st ctx = Some (st', rep, g, e) \<Longrightarrow> \<exists>sender. map_of st (tx_From tsx) = Some sender"
  by (auto simp: executeContractDeployment_def split: option.splits)

lemma call_done:
  assumes ex: "executeContractCall tsx st ctx = Some (st', rep, g, e)" and to: "map_of st (tx_To tsx) = Some to"
  shows "e = None" "rep = []" "g \<le> tx_GasLimit tsx" "st' = go_store (tx_To tsx) (the (map_of st' (tx_To tsx))) st"
    "acc_Balance (the (map_of st' (tx_To tsx))) = acc_Balance to + tx_Amount tsx"
    "acc_Nonce (the (map_of st' (tx_To tsx))) = acc_Nonce to"
    "acc_Instructions (the (map_of st' (tx_To tsx))) = acc_Instructions to"
  using ex to by (auto simp: executeContractCall_def Let_def dest: run_new_gas split: option.splits if_splits)

lemma call_missing:
  assumes "executeContractCall tsx st ctx = Some (st', rep, g, e)" "map_of st (tx_To tsx) = None"
  shows "e = Some RecipientDoesNotExist" "st' = st" "rep = []" "g = 0"
  using assms by (auto simp: executeContractCall_def)

lemma ExecuteTransaction_cases:
  assumes "ExecuteTransaction tsx st ctx = Some (st', rep, g, e)"
  obtains (failed) x where "e = Some x" "st' = st" "rep = []" "g \<le> tx_GasLimit tsx"
  | (deployed) a c where "tx_Instructions tsx \<noteq> []" "e = None" "rep = [a]" "st' = go_store a c st"
      "g \<le> tx_GasLimit tsx" "acc_Balance c = tx_Amount tsx"
  | (called) s c where "tx_Instructions tsx = []" "e = None" "rep = []" "map_of st (tx_To tsx) = Some s"
      "st' = go_store (tx_To tsx) c st" "acc_Balance c = acc_Balance s + tx_Amount tsx"
      "acc_Nonce c = acc_Nonce s" "acc_Instructions c = acc_Instructions s" "g \<le> tx_GasLimit tsx"
proof (cases "tx_Instructions tsx = []")
  case True
  with assms have ex: "executeContractCall tsx st ctx = Some (st', rep, g, e)" by (simp add: ExecuteTransaction_def)
  show thesis
  proof (cases "map_of st (tx_To tsx)")
    case None
    show thesis using call_missing[OF ex None] by (intro failed) auto
  next
    case (Some s)
    note d = call_done[OF ex Some]
    show thesis by (rule called[OF True d(1,2) Some d(4-7) d(3)])
  qed
next
  case False
  with assms have ex: "executeContractDeployment tsx st ctx = Some (st', rep, g, e)" by (simp add: ExecuteTransaction_def)
  obtain sender where s: "map_of st (tx_From tsx) = Some sender" using deployment_sender[OF ex] by blast
  show thesis
  proof (cases e)
    case None
    note d = deployment_stored[OF ex[unfolded None] s]
    show thesis by (rule deployed[OF False None d(1-4)])
  next
    case (Some x)
    show thesis using deployment_failed[OF ex[unfolded Some]] Some by (intro failed)
  qed
qed

interpretation impl: contract_executor ExecuteTransaction
proof
  fix tsx st ctx st' rep g e
  assume ex: "ExecuteTransaction tsx st ctx = Some (st', rep, g, e)"
  show "g \<le> tx_GasLimit tsx"
    using ex by (auto elim!: ExecuteTransaction_cases)
  show "map_of st' k = map_of st k" if "k \<noteq> tx_To tsx" "k \<notin> set rep" for k
    using ex that by (auto elim!: ExecuteTransaction_cases)
  show "\<exists>s'. map_of st' (tx_To tsx) = Some s' \<and> acc_Nonce s' = acc_Nonce s \<and>
        acc_Balance s' \<in> {acc_Balance s, acc_Balance s + tx_Amount tsx}"
    if "map_of st (tx_To tsx) = Some s" "tx_To tsx \<notin> set rep" for s
    using ex that by (auto elim!: ExecuteTransaction_cases)
  show "distinct (go_keys st')" if "distinct (go_keys st)"
    using ex that by (auto elim!: ExecuteTransaction_cases simp: distinct_update)
next
  fix tsx st ctx st' rep g x
  assume "ExecuteTransaction tsx st ctx = Some (st', rep, g, Some x)"
  then show "st' = st" by (auto elim!: ExecuteTransaction_cases)
qed

end
