(* ===== verification/Marigold_Contracts.thy ===== *)
theory Marigold_Contracts
  imports Marigold_Compiler Execution
begin

text \<open>
  Compiled contracts on the chain: what \<open>src/execution/execution.go\<close> makes of the transactions that deploy
  and call the code of a compiled program.
\<close>

lemma runs_to_nonempty: "runs_to is bc persistent ic w cost \<Longrightarrow> is \<noteq> []"
proof
  assume "runs_to is bc persistent ic w cost" "is = []"
  moreover have "StartExecution ((NewRuntimeWithIC gas [] bc (int ic))\<lparr>Persistent := persistent\<rparr>) = Some (r, u, e) \<Longrightarrow> e = None" for gas r u e
    by (auto simp: StartExecution_def NewRuntimeWithIC_def NewStack_def run.simps)
  ultimately show False by (metis option.distinct(1))
qed

text \<open>A call of a contract whose code runs to a value.\<close>

lemma ExecuteTransaction_runs:
  assumes "runs_to is bc (acc_Persistent s) 2 w cost" "map_of st (tx_To tsx) = Some s" "acc_Instructions s = is" "tx_Instructions tsx = []"
  shows "\<exists>gasUsed st'. ExecuteTransaction tsx st bc = Some (st', [], gasUsed, None) \<and>
    map_of st' = (map_of st)(tx_To tsx \<mapsto> s\<lparr>acc_Balance := acc_Balance s + tx_Amount tsx,
      acc_StorageRoot := (if cost + unat (gas_price RETURN) \<le> unat (tx_GasLimit tsx) then ComputeStorageRoot (acc_Persistent s) else acc_StorageRoot s)\<rparr>) \<and>
    (cost + unat (gas_price RETURN) \<le> unat (tx_GasLimit tsx) \<longrightarrow> gasUsed = of_nat cost)"
proof -
  let ?r = "\<lambda>gas. (NewRuntimeWithIC gas is bc 2)\<lparr>Persistent := acc_Persistent s\<rparr>" and ?g = "tx_GasLimit tsx"
  have ne: "is \<noteq> []" using runs_to_nonempty[OF assms(1)] .
  show ?thesis
  proof (cases "cost + unat (gas_price RETURN) \<le> unat ?g")
    case True
    with spec[OF assms(1), of ?g] obtain r where r: "StartExecution (?r ?g) = Some (r, of_nat cost, Some ErrProgramStopped)" "Persistent r = acc_Persistent s"
      by auto
    have "unat (gas_price RETURN) > 0" by code_simp
    with True have "?g > 0" by (simp add: word_less_nat_alt)
    with True r ne assms(2-4) show ?thesis by (simp add: ExecuteTransaction_def executeContractCall_def Let_def)
  next
    case False
    with spec[OF assms(1), of ?g] obtain r u where r: "StartExecution (?r ?g) = Some (r, u, Some ErrOutOfGas)" by auto
    with False ne assms(2-4) show ?thesis by (simp add: ExecuteTransaction_def executeContractCall_def Let_def)
  qed
qed

text \<open>A deployment of code that runs to a value.\<close>

lemma ExecuteTransaction_deploys:
  assumes "runs_to is bc [] 0 w cost" "cost + unat (gas_price RETURN) \<le> unat (tx_GasLimit tsx)"
    and "map_of st (tx_From tsx) = Some sender" "tx_Instructions tsx = is" "addr = GenerateContractAddress (tx_From tsx) (acc_Nonce sender)"
  shows "ExecuteTransaction tsx st bc = Some (go_store addr ((new_account addr (tx_Amount tsx))\<lparr>acc_Instructions := is,
    acc_CodeHash := ComputeCodeHash is, acc_StorageRoot := ComputeStorageRoot []\<rparr>) st, [addr], of_nat cost, None)"
proof -
  have r: "(NewRuntimeWithIC gas is bc 0)\<lparr>Persistent := []\<rparr> = NewRuntimeWithIC gas is bc 0" for gas by (simp add: NewRuntimeWithIC_def)
  obtain r where r: "StartExecution (NewRuntimeWithIC (tx_GasLimit tsx) is bc 0) = Some (r, of_nat cost, Some ErrProgramStopped)" "Persistent r = []"
    using spec[OF assms(1), of "tx_GasLimit tsx"] assms(2) by (auto simp: r)
  have "unat (gas_price RETURN) > 0" by code_simp
  with assms(2) have "tx_GasLimit tsx \<noteq> 0" by auto
  with r assms(3-5) runs_to_nonempty[OF assms(1)] show ?thesis
    by (simp add: ExecuteTransaction_def executeContractDeployment_def Let_def new_account_def)
qed

text \<open>
  C4. The life of a contract: the text of an integer program that hides no variable and divides only exactly
  (\<open>int_source\<close>) is compiled, its code is deployed by one transaction and called by another. There are costs with
  which the machine computes the values of \<open>init\<close> and \<open>call\<close> that the program means; with gas limits that cover them both transactions are executed, use exactly these costs, and leave a
  contract that holds the code and both amounts and has stored nothing. No other account changes.
\<close>

theorem contract_life_cycle:
  assumes source: "int_source ast ''init'' v" "int_source ast ''call'' w"
    and code: "parseFile (print_tokens (print_ast ast)) = Some (Compiled ctx)" "length (cg_Instructions ctx) < 2 ^ 63"
    and deployment: "map_of st (tx_From d) = Some sender" "tx_Instructions d = cg_Instructions ctx" "addr = GenerateContractAddress (tx_From d) (acc_Nonce sender)"
    and call: "tx_To t = addr" "tx_Instructions t = []"
  shows "\<exists>c c'. runs_to (cg_Instructions ctx) bc [] 0 v c \<and> runs_to (cg_Instructions ctx) bc' [] 2 w c' \<and>
    (c + unat (gas_price RETURN) \<le> unat (tx_GasLimit d) \<and> c' + unat (gas_price RETURN) \<le> unat (tx_GasLimit t) \<longrightarrow>
      (\<exists>st' st'' s. ExecuteTransaction d st bc = Some (st', [addr], of_nat c, None) \<and> ExecuteTransaction t st' bc' = Some (st'', [], of_nat c', None) \<and>
         map_of st'' = (map_of st)(addr \<mapsto> s) \<and> acc_Instructions s = cg_Instructions ctx \<and> acc_Balance s = tx_Amount d + tx_Amount t \<and> acc_Persistent s = []))"
proof -
  have "entry ''init'' 0" "entry ''call'' 2" by (simp_all add: entry_def)
  then obtain c c' where c: "runs_to (cg_Instructions ctx) bc [] 0 v c" "runs_to (cg_Instructions ctx) bc' [] 2 w c'"
    using source_runs[where bc = bc and persistent = "[]", OF source(1)] source_runs[where bc = bc' and persistent = "[]", OF source(2)] code by fastforce
  let ?s = "(new_account addr (tx_Amount d))\<lparr>acc_Instructions := cg_Instructions ctx, acc_CodeHash := ComputeCodeHash (cg_Instructions ctx),
    acc_StorageRoot := ComputeStorageRoot []\<rparr>"
  have s: "acc_Persistent ?s = []" "acc_Instructions ?s = cg_Instructions ctx" "map_of (go_store addr ?s st) (tx_To t) = Some ?s"
    by (simp_all add: new_account_def call(1))
  have "runs_to (cg_Instructions ctx) bc' (acc_Persistent ?s) 2 w c'" unfolding s(1) by (rule c(2))
  note called = ExecuteTransaction_runs[OF this s(3,2) call(2)]
  have "\<exists>st' st'' s. ExecuteTransaction d st bc = Some (st', [addr], of_nat c, None) \<and> ExecuteTransaction t st' bc' = Some (st'', [], of_nat c', None) \<and>
       map_of st'' = (map_of st)(addr \<mapsto> s) \<and> acc_Instructions s = cg_Instructions ctx \<and> acc_Balance s = tx_Amount d + tx_Amount t \<and> acc_Persistent s = []"
    if gas: "c + unat (gas_price RETURN) \<le> unat (tx_GasLimit d)" "c' + unat (gas_price RETURN) \<le> unat (tx_GasLimit t)"
  proof -
    note deployed = ExecuteTransaction_deploys[OF c(1) gas(1) deployment]
    from called gas(2) obtain st'' where st'': "ExecuteTransaction t (go_store addr ?s st) bc' = Some (st'', [], of_nat c', None)"
      "map_of st'' = (map_of (go_store addr ?s st))(tx_To t \<mapsto> ?s\<lparr>acc_Balance := acc_Balance ?s + tx_Amount t, acc_StorageRoot := ComputeStorageRoot (acc_Persistent ?s)\<rparr>)"
      by auto
    let ?s' = "?s\<lparr>acc_Balance := acc_Balance ?s + tx_Amount t, acc_StorageRoot := ComputeStorageRoot (acc_Persistent ?s)\<rparr>"
    have "map_of st'' = (map_of st)(addr \<mapsto> ?s')" "acc_Instructions ?s' = cg_Instructions ctx" "acc_Balance ?s' = tx_Amount d + tx_Amount t" "acc_Persistent ?s' = []"
      using st''(2) by (simp_all add: call(1) new_account_def)
    with deployed st''(1) show ?thesis by blast
  qed
  with c show ?thesis by blast
qed

text \<open>A contract whose functions return constants, its code, and the transactions that deploy and call it.\<close>

definition answer_contract :: Ast where
  "answer_contract = NewAst\<lparr>ast_Functions :=
     [(''call'', (count_function ''call'')\<lparr>fn_Block := Block [ReturnStmt (Some (LiteralExpr TInt ''7''))] []\<rparr>),
      (''init'', (count_function ''init'')\<lparr>fn_Block := Block [ReturnStmt (Some (LiteralExpr TInt ''0''))] []\<rparr>)]\<rparr>"

definition answer_code :: "Instruction list" where
  "answer_code = concat (map (\<lambda>t. [\<lparr>Opcode = PUSH, Value = Some t\<rparr>, MakeInstruction JUMP]) [''0x4'', ''0x6'', ''0x8'', ''0xa'']) @
     concat (map (\<lambda>t. [\<lparr>Opcode = PUSH, Value = Some t\<rparr>, MakeInstruction RETURN]) [''0'', ''7''])"

definition answer_deployment :: Transaction where
  "answer_deployment = \<lparr>tx_From = replicate 32 2, tx_To = zero32, tx_Amount = 5, tx_Signature = replicate 64 0, tx_Nonce = 1, tx_Timestamp = 0,
     tx_ChainID = 1, tx_Instructions = answer_code, tx_GasLimit = 1000, tx_GasPrice = 1, tx_Data = []\<rparr>"

definition answer_call :: Transaction where
  "answer_call = answer_deployment\<lparr>tx_To := GenerateContractAddress (replicate 32 2) 0, tx_Amount := 6, tx_Instructions := []\<rparr>"

lemma answer_source: "int_source answer_contract ''init'' 0" "int_source answer_contract ''call'' 7"
proof -
  have a: "printable_ast answer_contract" by code_simp
  have b: "lexical_ast answer_contract" by code_simp
  have c: "supported_program answer_contract" unfolding supported_program_def local_name_def by code_simp
  have d: "int_program answer_contract" by code_simp
  have e: "Typecheck answer_contract \<noteq> None" by code_simp
  have "execs [Map.empty] [ReturnStmt (Some (LiteralExpr TInt ''0''))] (Return 0) [Map.empty]" "execs [Map.empty] [ReturnStmt (Some (LiteralExpr TInt ''7''))] (Return 7) [Map.empty]"
    by (intro exec_execs.leave exec_execs.return; simp add: read_nat_def digit_val_def pos_value_def)+
  with a b c d e show "int_source answer_contract ''init'' 0" "int_source answer_contract ''call'' 7"
    by (auto simp: int_source_def answer_contract_def AVMMaxStackSize_def)
qed

lemma answer_compiled: "\<exists>ctx. parseFile (print_tokens (print_ast answer_contract)) = Some (Compiled ctx) \<and> cg_Instructions ctx = answer_code"
proof -
  have s: "printable_ast answer_contract" "lexical_ast answer_contract" "ast_Functions answer_contract \<noteq> []"
    using answer_source(1) by (auto simp: int_source_def)
  have t: "Typecheck answer_contract = Some answer_contract" by code_simp
  have "map_option cg_Instructions (CodegenWithContext answer_contract) = Some answer_code" by code_simp
  then show ?thesis using parseFile_printed[OF s t] by auto
qed

lemma answer_run:
  assumes "entry name ic"
  shows "\<exists>r u. StartExecution ((NewRuntimeWithIC 1000 answer_code bc (int ic))\<lparr>Persistent := []\<rparr>) = Some (r, u, Some ErrProgramStopped)"
proof -
  let ?r = "start answer_code bc [] ic" and ?m = "NewMemory AVMMaxMemorySize"
  have ic: "ic = 0 \<or> ic = 2" using assms by (auto simp: entry_def)
  have r: "machine ?r" "stack_fits ?r (Suc (length ([] :: int list)))" "Instructions ?r = answer_code" "ReturnStack ?r = []"
    by (simp_all add: machine_def stack_fits_def start_def NewRuntimeWithIC_def NewStack_def answer_code_def AVMMaxStackSize_def)
  have code: "has ?r k (answer_code ! k)" if "k < 12" for k using that r(3) by (simp add: has_def answer_code_def)
  have len: "length answer_code = 12" by (simp add: answer_code_def)
  have jump: "goes ?r (k, [], ?m) (price PUSH + price JUMP) (t, [], ?m)"
    if "Suc k < 12" "t < 12" "answer_code ! k = \<lparr>Opcode = PUSH, Value = Some (''0x'' @ s)\<rparr>" "read_nat 16 s = Some (int t)" "answer_code ! Suc k = MakeInstruction JUMP" for k t s
  proof (rule goes_trans)
    show "goes ?r (k, [], ?m) (price PUSH) (Suc k, [int t], ?m)"
      using goes_PUSH[OF r(1) code[of k] _ r(2), of "int t" ?m] pushes_hex[OF that(4)] that(1,3) by simp
    show "goes ?r (Suc k, [int t], ?m) (price JUMP) (t, [], ?m)"
      using goes_JUMP[OF r(1), of "Suc k" t "[]" ?m] code[of "Suc k"] that(1,2,5) r(3) len by simp
  qed
  have push: "goes ?r (k, [], ?m) (price PUSH) (Suc k, [int v], ?m)"
    if "k < 12" "answer_code ! k = \<lparr>Opcode = PUSH, Value = Some s\<rparr>" "read_nat 10 s = Some (int v)" for k s v
    using goes_PUSH[OF r(1) code[of k] _ r(2), of "int v" ?m] pushes_dec[OF that(3)] that(1,2) by simp
  have d: "read_nat 16 ''4'' = Some (int 4)" "read_nat 16 ''6'' = Some (int 6)" "read_nat 16 ''8'' = Some (int 8)" "read_nat 16 ''a'' = Some (int 10)"
    "read_nat 10 ''0'' = Some (int 0)" "read_nat 10 ''7'' = Some (int 7)"
    by (simp_all add: read_nat_def digit_val_def pos_value_def)
  have "goes ?r (0, [], ?m) (price PUSH + price JUMP + (price PUSH + price JUMP) + price PUSH) (9, [int 0], ?m)"
    using goes_trans[OF goes_trans[OF jump[OF _ _ _ d(1), of 0] jump[OF _ _ _ d(3), of 4]] push[OF _ _ d(5), of 8]] by (simp add: answer_code_def)
  moreover have "goes ?r (2, [], ?m) (price PUSH + price JUMP + (price PUSH + price JUMP) + price PUSH) (11, [int 7], ?m)"
    using goes_trans[OF goes_trans[OF jump[OF _ _ _ d(2), of 2] jump[OF _ _ _ d(4), of 6]] push[OF _ _ d(6), of 10]] by (simp add: answer_code_def)
  moreover have "has ?r 9 (MakeInstruction RETURN)" "has ?r 11 (MakeInstruction RETURN)" using code[of 9] code[of 11] by (simp_all add: answer_code_def)
  ultimately obtain k v where g: "goes ?r (ic, [], ?m) (price PUSH + price JUMP + (price PUSH + price JUMP) + price PUSH) (k, v, ?m)" "has ?r k (MakeInstruction RETURN)"
    using ic by blast
  have "price PUSH + price JUMP + (price PUSH + price JUMP) + price PUSH + price RETURN \<le> 1000" by code_simp
  moreover have "StartIC (at ?r c h) = int ic" for c h by (cases c) (simp add: at_def start_def NewRuntimeWithIC_def)
  ultimately show ?thesis using goes_returns[OF g r(4), of 1000 0] by (simp add: StartExecution_def start_at)
qed

theorem contract_life_cycle_witness:
  "\<exists>ctx st' st'' s. parseFile (print_tokens (print_ast answer_contract)) = Some (Compiled ctx) \<and> cg_Instructions ctx = tx_Instructions answer_deployment \<and>
    (\<exists>c. ExecuteTransaction answer_deployment [(replicate 32 2, new_account (replicate 32 2) 9)] MockBlockchainContext = Some (st', [tx_To answer_call], c, None)) \<and>
    (\<exists>c. ExecuteTransaction answer_call st' MockBlockchainContext = Some (st'', [], c, None)) \<and> map_of st'' (tx_To answer_call) = Some s \<and> acc_Balance s = 11"
proof -
  let ?a = "new_account (replicate 32 2) 9" and ?d = answer_deployment and ?t = answer_call
  obtain ctx where ctx: "parseFile (print_tokens (print_ast answer_contract)) = Some (Compiled ctx)" "cg_Instructions ctx = answer_code"
    using answer_compiled by blast
  have tx: "map_of [(replicate 32 2, ?a)] (tx_From ?d) = Some ?a" "tx_Instructions ?d = cg_Instructions ctx"
    "tx_To ?t = GenerateContractAddress (tx_From ?d) (acc_Nonce ?a)" "tx_Instructions ?t = []" "tx_GasLimit ?d = 1000" "tx_GasLimit ?t = 1000"
    by (simp_all add: answer_deployment_def answer_call_def ctx(2) new_account_def)
  have small: "length (cg_Instructions ctx) < 2 ^ 63" by (simp add: ctx(2) answer_code_def)
  from contract_life_cycle[where bc = MockBlockchainContext and bc' = MockBlockchainContext, OF answer_source ctx(1) small tx(1,2,3) refl tx(4)]
  obtain c c' where c: "runs_to answer_code MockBlockchainContext [] 0 0 c" "runs_to answer_code MockBlockchainContext [] 2 7 c'" and
    l: "c + unat (gas_price RETURN) \<le> unat (tx_GasLimit ?d) \<and> c' + unat (gas_price RETURN) \<le> unat (tx_GasLimit ?t) \<longrightarrow>
      (\<exists>st' st'' s. ExecuteTransaction ?d [(replicate 32 2, ?a)] MockBlockchainContext = Some (st', [tx_To ?t], of_nat c, None) \<and>
         ExecuteTransaction ?t st' MockBlockchainContext = Some (st'', [], of_nat c', None) \<and>
         map_of st'' = (map_of [(replicate 32 2, ?a)])(tx_To ?t \<mapsto> s) \<and> acc_Instructions s = answer_code \<and> acc_Balance s = tx_Amount ?d + tx_Amount ?t \<and> acc_Persistent s = [])"
    unfolding ctx(2) by (elim exE conjE) (rule that)
  have "c + unat (gas_price RETURN) \<le> 1000" "c' + unat (gas_price RETURN) \<le> 1000"
    using spec[OF c(1), of 1000] spec[OF c(2), of 1000] answer_run[of "''init''" 0 MockBlockchainContext] answer_run[of "''call''" 2 MockBlockchainContext] by (auto simp: entry_def split: if_splits)
  with l tx(5,6) obtain st' st'' s where "ExecuteTransaction ?d [(replicate 32 2, ?a)] MockBlockchainContext = Some (st', [tx_To ?t], of_nat c, None)"
    "ExecuteTransaction ?t st' MockBlockchainContext = Some (st'', [], of_nat c', None)" "map_of st'' (tx_To ?t) = Some s" "acc_Balance s = tx_Amount ?d + tx_Amount ?t"
    by (auto simp del: map_of.simps)
  moreover have "tx_Amount ?d + tx_Amount ?t = 11" by (simp add: answer_deployment_def answer_call_def)
  moreover have "cg_Instructions ctx = tx_Instructions ?d" by (simp add: answer_deployment_def ctx(2))
  ultimately show ?thesis using ctx(1) by (metis (no_types))
qed

end
