(* ===== verification/Go_Heap.thy ===== *)
theory Go_Heap
  imports Go_Prelude "HOL-Library.Multiset"
begin

text \<open>
  The part of Go's \<open>container/heap\<close> that the node uses: a binary heap in a slice, ordered by a method
  \<open>Less\<close>, which is the argument \<open>Less\<close>. \<open>Less x y\<close> says that \<open>x\<close> comes out before \<open>y\<close>. The locale
  \<open>priority\<close> states what is needed of \<open>Less\<close>, and every heap operation is shown to keep the heap order
  and the elements; the locale \<open>max_queue\<close> is the interface that clients see.
\<close>

section \<open>The operations\<close>

definition swap_at :: "'a list \<Rightarrow> nat \<Rightarrow> nat \<Rightarrow> 'a list" where
  "swap_at xs i j = xs[i := xs ! j, j := xs ! i]"

lemma length_swap_at [simp]: "length (swap_at xs i j) = length xs"
  by (simp add: swap_at_def)

lemma mset_swap_at [simp]: "i < length xs \<Longrightarrow> j < length xs \<Longrightarrow> mset (swap_at xs i j) = mset xs"
  by (simp add: swap_at_def mset_swap)

lemma nth_swap_at:
  "i < length xs \<Longrightarrow> j < length xs \<Longrightarrow>
     swap_at xs i j ! k = (if k = j then xs ! i else if k = i then xs ! j else xs ! k)"
  by (auto simp: swap_at_def nth_list_update)

text \<open>\<open>down\<close> returns the slice and the final position; it has moved when that is not the first one.\<close>

function heap_down :: "('a \<Rightarrow> 'a \<Rightarrow> bool) \<Rightarrow> 'a list \<Rightarrow> nat \<Rightarrow> nat \<Rightarrow> 'a list \<times> nat" where
  "heap_down Less h i n =
     (let j1 = 2 * i + 1 in
      if j1 \<ge> n then (h, i)
      else let j = (if j1 + 1 < n \<and> Less (h ! (j1 + 1)) (h ! j1) then j1 + 1 else j1) in
           if \<not> Less (h ! j) (h ! i) then (h, i)
           else heap_down Less (swap_at h i j) j n)"
  by pat_completeness auto
termination
  by (relation "measure (\<lambda>(Less, h, i, n). n - i)") (auto split: if_splits)

declare heap_down.simps [simp del]

fun heap_up :: "('a \<Rightarrow> 'a \<Rightarrow> bool) \<Rightarrow> 'a list \<Rightarrow> nat \<Rightarrow> 'a list" where
  "heap_up Less h j =
     (let i = (j - 1) div 2 in
      if i = j \<or> \<not> Less (h ! j) (h ! i) then h else heap_up Less (swap_at h i j) i)"

declare heap_up.simps [simp del]

definition heap_Push :: "('a \<Rightarrow> 'a \<Rightarrow> bool) \<Rightarrow> 'a list \<Rightarrow> 'a \<Rightarrow> 'a list" where
  "heap_Push Less h x = heap_up Less (h @ [x]) (length h)"

text \<open>\<open>None\<close> is the panic of \<open>Pop\<close> on an empty heap.\<close>

definition heap_Pop :: "('a \<Rightarrow> 'a \<Rightarrow> bool) \<Rightarrow> 'a list \<Rightarrow> ('a \<times> 'a list) option" where
  "heap_Pop Less h =
     (if h = [] then None
      else let n = length h - 1; h' = fst (heap_down Less (swap_at h 0 n) 0 n)
           in Some (h' ! n, take n h'))"

definition heap_Fix :: "('a \<Rightarrow> 'a \<Rightarrow> bool) \<Rightarrow> 'a list \<Rightarrow> nat \<Rightarrow> 'a list" where
  "heap_Fix Less h i =
     (case heap_down Less h i (length h) of (h', i') \<Rightarrow> if \<not> i' > i then heap_up Less h' i else h')"

fun heap_Init_loop :: "('a \<Rightarrow> 'a \<Rightarrow> bool) \<Rightarrow> 'a list \<Rightarrow> nat \<Rightarrow> 'a list" where
  "heap_Init_loop Less h 0 = h"
| "heap_Init_loop Less h (Suc i) = heap_Init_loop Less (fst (heap_down Less h i (length h))) i"

definition heap_Init :: "('a \<Rightarrow> 'a \<Rightarrow> bool) \<Rightarrow> 'a list \<Rightarrow> 'a list" where
  "heap_Init Less h = heap_Init_loop Less h (length h div 2)"

section \<open>Elements\<close>

lemma heap_down_mset:
  "n \<le> length h \<Longrightarrow> mset (fst (heap_down Less h i n)) = mset h \<and> length (fst (heap_down Less h i n)) = length h"
proof (induction Less h i n rule: heap_down.induct)
  case (1 Less h i n)
  then show ?case by (subst (1 2) heap_down.simps) (auto simp: Let_def)
qed

lemma heap_down_frame:
  "n \<le> length h \<Longrightarrow> n \<le> k \<Longrightarrow> fst (heap_down Less h i n) ! k = h ! k"
proof (induction Less h i n rule: heap_down.induct)
  case (1 Less h i n)
  then show ?case by (subst heap_down.simps) (auto simp: Let_def nth_swap_at)
qed

lemma heap_up_mset:
  "j < length h \<Longrightarrow> mset (heap_up Less h j) = mset h \<and> length (heap_up Less h j) = length h"
proof (induction Less h j rule: heap_up.induct)
  case (1 Less h j)
  then show ?case by (subst (1 2) heap_up.simps) (auto simp: Let_def)
qed

lemma heap_Push_mset [simp]: "mset (heap_Push Less h x) = add_mset x (mset h)"
  by (simp add: heap_Push_def heap_up_mset)

lemma heap_Fix_mset: "i < length h \<Longrightarrow> mset (heap_Fix Less h i) = mset h"
  using heap_down_mset[of "length h" h Less i] by (auto simp: heap_Fix_def heap_up_mset split: prod.splits)

lemma heap_Init_mset [simp]: "mset (heap_Init Less h) = mset h"
proof -
  have "mset (heap_Init_loop Less h k) = mset h" for k
    by (induction Less h k rule: heap_Init_loop.induct) (auto simp: heap_down_mset)
  then show ?thesis by (simp add: heap_Init_def)
qed

section \<open>The heap order\<close>

abbreviation parent :: "nat \<Rightarrow> nat" where
  "parent i \<equiv> (i - 1) div 2"

text \<open>Every element below position \<open>n\<close> whose parent is at least at \<open>k\<close> does not precede it.\<close>

definition heap_from :: "('a \<Rightarrow> 'a \<Rightarrow> bool) \<Rightarrow> 'a list \<Rightarrow> nat \<Rightarrow> nat \<Rightarrow> bool" where
  "heap_from Less h k n \<longleftrightarrow> (\<forall>c. 0 < c \<and> c < n \<and> k \<le> parent c \<longrightarrow> \<not> Less (h ! c) (h ! parent c))"

abbreviation is_heap :: "('a \<Rightarrow> 'a \<Rightarrow> bool) \<Rightarrow> 'a list \<Rightarrow> bool" where
  "is_heap Less h \<equiv> heap_from Less h 0 (length h)"

locale priority =
  fixes Less :: "'a \<Rightarrow> 'a \<Rightarrow> bool"
  assumes asym: "Less x y \<Longrightarrow> \<not> Less y x"
    and not_less_trans: "\<not> Less z y \<Longrightarrow> \<not> Less y x \<Longrightarrow> \<not> Less z x"
begin

lemma irrefl [simp]: "\<not> Less x x"
  using asym by blast

text \<open>One round of \<open>down\<close>: it stops, or it swaps with the first of the children and goes on there.\<close>

lemma down_cases:
  obtains (stay) "heap_down Less h i n = (h, i)" "\<And>c. 0 < c \<Longrightarrow> c < n \<Longrightarrow> parent c = i \<Longrightarrow> \<not> Less (h ! c) (h ! i)"
  | (move) j where "heap_down Less h i n = heap_down Less (swap_at h i j) j n" "i < j" "j < n" "parent j = i"
      "Less (h ! j) (h ! i)" "\<And>c. 0 < c \<Longrightarrow> c < n \<Longrightarrow> parent c = i \<Longrightarrow> \<not> Less (h ! c) (h ! j)"
proof -
  define j where "j = (if 2 * i + 2 < n \<and> Less (h ! (2 * i + 2)) (h ! (2 * i + 1)) then 2 * i + 2 else 2 * i + 1)"
  have step: "heap_down Less h i n = (if 2 * i + 1 \<ge> n \<or> \<not> Less (h ! j) (h ! i) then (h, i) else heap_down Less (swap_at h i j) j n)"
    by (subst heap_down.simps) (simp add: Let_def j_def)
  have best: "\<not> Less (h ! c) (h ! j)" if "0 < c" "c < n" "parent c = i" for c
  proof -
    have "c = 2 * i + 1 \<or> c = 2 * i + 2" using that by auto
    then show ?thesis using that by (auto simp: j_def dest: asym)
  qed
  show thesis
  proof (cases "2 * i + 1 \<ge> n \<or> \<not> Less (h ! j) (h ! i)")
    case True
    have "\<not> Less (h ! c) (h ! i)" if "0 < c" "c < n" "parent c = i" for c
    proof (cases "2 * i + 1 \<ge> n")
      case False
      with True best[OF that] show ?thesis using not_less_trans by blast
    qed (use that in auto)
    with True step show ?thesis by (intro stay) auto
  next
    case False
    then have "i < j" "j < n" "parent j = i" by (auto simp: j_def)
    with False step best show ?thesis by (intro move[of j]) auto
  qed
qed

lemma down_swap:
  assumes j: "n \<le> length h" "i < j" "j < n" "parent j = i" "Less (h ! j) (h ! i)"
    and best: "\<And>c. 0 < c \<Longrightarrow> c < n \<Longrightarrow> parent c = i \<Longrightarrow> \<not> Less (h ! c) (h ! j)"
    and A1: "\<And>c. 0 < c \<Longrightarrow> c < n \<Longrightarrow> k \<le> parent c \<Longrightarrow> c \<noteq> i \<Longrightarrow> parent c \<noteq> i \<Longrightarrow> \<not> Less (h ! c) (h ! parent c)"
    and A2: "\<And>c. 0 < c \<Longrightarrow> c < n \<Longrightarrow> parent c = i \<Longrightarrow> 0 < i \<Longrightarrow> k \<le> parent i \<Longrightarrow> \<not> Less (h ! c) (h ! parent i)"
  shows "0 < c \<Longrightarrow> c < n \<Longrightarrow> k \<le> parent c \<Longrightarrow> parent c \<noteq> j \<Longrightarrow> \<not> Less (swap_at h i j ! c) (swap_at h i j ! parent c)"
    and "0 < c \<Longrightarrow> c < n \<Longrightarrow> parent c = j \<Longrightarrow> 0 < j \<Longrightarrow> k \<le> parent j \<Longrightarrow> \<not> Less (swap_at h i j ! c) (swap_at h i j ! parent j)"
proof -
  have nth: "swap_at h i j ! c = (if c = j then h ! i else if c = i then h ! j else h ! c)" for c
    using j by (simp add: nth_swap_at)
  show "\<not> Less (swap_at h i j ! c) (swap_at h i j ! parent c)" if c: "0 < c" "c < n" "k \<le> parent c" "parent c \<noteq> j"
  proof (cases "parent c = i")
    case True
    with c j best[of c] show ?thesis by (cases "c = j") (auto simp: nth asym)
  next
    case False
    then have "c \<noteq> j" using j by auto
    then show ?thesis using False c j A2[of j] A1[of c] by (cases "c = i") (auto simp: nth)
  qed
  show "\<not> Less (swap_at h i j ! c) (swap_at h i j ! parent j)" if "0 < c" "c < n" "parent c = j" "0 < j" "k \<le> parent j"
    using A1[of c] that j by (auto simp: nth)
qed

lemma down_heap:
  assumes "n \<le> length h"
    and "\<And>c. 0 < c \<Longrightarrow> c < n \<Longrightarrow> k \<le> parent c \<Longrightarrow> parent c \<noteq> i \<Longrightarrow> \<not> Less (h ! c) (h ! parent c)"
    and "\<And>c. 0 < c \<Longrightarrow> c < n \<Longrightarrow> parent c = i \<Longrightarrow> 0 < i \<Longrightarrow> k \<le> parent i \<Longrightarrow> \<not> Less (h ! c) (h ! parent i)"
  shows "heap_from Less (fst (heap_down Less h i n)) k n"
  using assms
proof (induction "n - i" arbitrary: h i rule: less_induct)
  case less
  show ?case
  proof (cases rule: down_cases[where h = h and i = i and n = n])
    case stay
    with less.prems(2) show ?thesis unfolding heap_from_def stay(1) by auto
  next
    case (move j)
    note d = down_swap[OF less.prems(1) move(2-6) less.prems(2,3), where k = k]
    have "heap_from Less (fst (heap_down Less (swap_at h i j) j n)) k n"
      by (rule less.hyps) (use move(2,3) less.prems(1) d in auto)
    then show ?thesis by (simp add: move(1))
  qed
qed

lemma down_position: "i \<le> snd (heap_down Less h i n)"
proof (induction "n - i" arbitrary: h i rule: less_induct)
  case less
  show ?case
  proof (cases rule: down_cases[where h = h and i = i and n = n])
    case (move j)
    then have "j \<le> snd (heap_down Less (swap_at h i j) j n)" by (intro less) auto
    with move show ?thesis by simp
  qed simp
qed

lemma up_heap:
  assumes "j < length h"
    and "\<And>c. 0 < c \<Longrightarrow> c < length h \<Longrightarrow> c \<noteq> j \<Longrightarrow> \<not> Less (h ! c) (h ! parent c)"
    and "\<And>c. 0 < c \<Longrightarrow> c < length h \<Longrightarrow> parent c = j \<Longrightarrow> 0 < j \<Longrightarrow> \<not> Less (h ! c) (h ! parent j)"
  shows "is_heap Less (heap_up Less h j)"
  using assms
proof (induction j arbitrary: h rule: less_induct)
  case (less j)
  note A1 = less.prems(2) and A2 = less.prems(3)
  have step: "heap_up Less h j = (if parent j = j \<or> \<not> Less (h ! j) (h ! parent j) then h else heap_up Less (swap_at h (parent j) j) (parent j))"
    by (subst heap_up.simps) (simp add: Let_def)
  show ?case
  proof (cases "parent j = j \<or> \<not> Less (h ! j) (h ! parent j)")
    case True
    then have "\<not> Less (h ! j) (h ! parent j)" by (metis irrefl)
    then have "\<not> Less (h ! c) (h ! parent c)" if "0 < c" "c < length h" for c using A1[OF that] by (cases "c = j") auto
    then show ?thesis using True by (auto simp: heap_from_def step)
  next
    case False
    define i where "i = parent j"
    have j: "0 < j" "i < j" "parent j = i" and l: "Less (h ! j) (h ! i)" using False by (auto simp: i_def)
    let ?h = "swap_at h i j"
    have nth: "?h ! c = (if c = j then h ! i else if c = i then h ! j else h ! c)" for c
      using j less.prems(1) by (simp add: nth_swap_at)
    have sib: "\<not> Less (h ! c) (h ! i)" if "0 < c" "c < length h" "parent c = i" "c \<noteq> j" for c
      using A1[of c] that by simp
    have ij: "\<not> Less (h ! i) (h ! j)" using l asym by blast
    have "is_heap Less (heap_up Less ?h i)"
    proof (rule less.IH[OF j(2)])
      show "\<not> Less (?h ! c) (?h ! parent c)" if c: "0 < c" "c < length ?h" "c \<noteq> i" for c
      proof (cases "c = j")
        case True
        then show ?thesis unfolding True j(3) nth using ij j by simp
      next
        case c_j: False
        consider "parent c = j" | "parent c = i" | "parent c \<noteq> j" "parent c \<noteq> i" by blast
        then show ?thesis
        proof cases
          case 1
          show ?thesis unfolding nth 1 using A2[of c] 1 c c_j j by simp
        next
          case 2
          have "\<not> Less (h ! c) (h ! j)" using not_less_trans[OF sib ij] 2 c c_j by simp
          then show ?thesis unfolding nth 2 using c c_j j(2) by simp
        next
          case 3
          then show ?thesis unfolding nth using A1[of c] c c_j by simp
        qed
      qed
      show "\<not> Less (?h ! c) (?h ! parent i)" if c: "0 < c" "c < length ?h" "parent c = i" "0 < i" for c
      proof -
        have p: "\<not> Less (h ! i) (h ! parent i)" using A1[of i] j c(4) less.prems(1) by simp
        have "parent i < i" "i < j" using c(4) j by auto
        moreover have "\<not> Less (h ! c) (h ! parent i)" if "c \<noteq> j"
          using sib[OF c(1) _ c(3) that] c(2) p by (auto dest: not_less_trans)
        ultimately show ?thesis unfolding nth using p c by auto
      qed
    qed (use j less.prems(1) in auto)
    then show ?thesis using False by (simp add: step i_def)
  qed
qed

lemma heap_top:
  assumes "is_heap Less h" "c < length h"
  shows "\<not> Less (h ! c) (h ! 0)"
  using assms(2)
proof (induction c rule: less_induct)
  case (less c)
  show ?case
  proof (cases "c = 0")
    case False
    then have "\<not> Less (h ! parent c) (h ! 0)" "\<not> Less (h ! c) (h ! parent c)"
      using less assms(1) by (auto simp: heap_from_def)
    then show ?thesis using not_less_trans by blast
  qed simp
qed

lemma is_heap_Nil [simp]: "is_heap Less []"
  by (simp add: heap_from_def)

lemma is_heap_Push: "is_heap Less h \<Longrightarrow> is_heap Less (heap_Push Less h x)"
  unfolding heap_Push_def by (rule up_heap) (auto simp: heap_from_def nth_append)

lemma is_heap_Pop:
  assumes h: "is_heap Less h" and p: "heap_Pop Less h = Some (x, h')"
  shows "is_heap Less h'" and "mset h = add_mset x (mset h')" and "y \<in> set h \<Longrightarrow> \<not> Less y x"
proof -
  let ?n = "length h - 1"
  let ?d = "fst (heap_down Less (swap_at h 0 ?n) 0 ?n)"
  have ne: "h \<noteq> []" and x: "x = ?d ! ?n" and h': "h' = take ?n ?d"
    using p by (auto simp: heap_Pop_def Let_def split: if_splits)
  have d: "mset ?d = mset h" "length ?d = length h" using ne by (simp_all add: heap_down_mset)
  have x0: "x = h ! 0" using ne x by (simp add: heap_down_frame nth_swap_at)
  have "heap_from Less ?d 0 ?n"
    using ne h by (intro down_heap) (auto simp: nth_swap_at heap_from_def)
  then show "is_heap Less h'" using h' d(2) by (auto simp: heap_from_def)
  have split: "?d = h' @ [x]" using h' x d(2) ne by (metis Suc_diff_1 diff_less length_greater_0_conv take_Suc_conv_app_nth take_all_iff order_refl zero_less_one)
  from arg_cong[OF this, of mset] show "mset h = add_mset x (mset h')" using d(1) by simp
  show "y \<in> set h \<Longrightarrow> \<not> Less y x" using heap_top[OF h] x0 by (auto simp: in_set_conv_nth)
qed

lemma is_heap_Init: "is_heap Less (heap_Init Less h)"
proof -
  have "is_heap Less (heap_Init_loop Less h k)" if "heap_from Less h k (length h)" for k
    using that
  proof (induction k arbitrary: h)
    case (Suc i)
    let ?d = "fst (heap_down Less h i (length h))"
    have "heap_from Less ?d i (length h)" using Suc.prems by (intro down_heap) (auto simp: heap_from_def)
    then have "heap_from Less ?d i (length ?d)" by (simp add: heap_down_mset)
    from Suc.IH[OF this] show ?case by simp
  qed simp
  moreover have "heap_from Less h (length h div 2) (length h)" by (auto simp: heap_from_def)
  ultimately show ?thesis by (simp add: heap_Init_def)
qed

text \<open>\<open>Fix\<close> repairs a heap in which one element was overwritten.\<close>

lemma is_heap_Fix:
  assumes i: "i < length h"
    and A1: "\<And>c. 0 < c \<Longrightarrow> c < length h \<Longrightarrow> c \<noteq> i \<Longrightarrow> parent c \<noteq> i \<Longrightarrow> \<not> Less (h ! c) (h ! parent c)"
    and A2: "\<And>c. 0 < c \<Longrightarrow> c < length h \<Longrightarrow> parent c = i \<Longrightarrow> 0 < i \<Longrightarrow> \<not> Less (h ! c) (h ! parent i)"
  shows "is_heap Less (heap_Fix Less h i)"
proof (cases rule: down_cases[where h = h and i = i and n = "length h"])
  case stay
  have "is_heap Less (heap_up Less h i)"
    using i A1 A2 stay(2) by (intro up_heap) metis+
  then show ?thesis by (simp add: heap_Fix_def stay(1))
next
  case (move j)
  have A: "0 < c \<Longrightarrow> c < length h \<Longrightarrow> 0 \<le> parent c \<Longrightarrow> c \<noteq> i \<Longrightarrow> parent c \<noteq> i \<Longrightarrow> \<not> Less (h ! c) (h ! parent c)"
    and B: "0 < c \<Longrightarrow> c < length h \<Longrightarrow> parent c = i \<Longrightarrow> 0 < i \<Longrightarrow> 0 \<le> parent i \<Longrightarrow> \<not> Less (h ! c) (h ! parent i)" for c
    using A1 A2 by blast+
  note d = down_swap[OF order_refl move(2-6) A B]
  have "heap_from Less (fst (heap_down Less (swap_at h i j) j (length h))) 0 (length h)"
    by (rule down_heap) (use d in auto)
  moreover have "i < snd (heap_down Less (swap_at h i j) j (length h))"
    using down_position[of j "swap_at h i j" "length h"] move(2) by simp
  ultimately show ?thesis
    using heap_down_mset[of "length h" "swap_at h i j" Less j] by (auto simp: heap_Fix_def move(1) split: prod.splits)
qed

end

section \<open>The interface\<close>

text \<open>
  A queue that hands out an element no other precedes. \<open>drain\<close> is a client: it takes elements out
  until \<open>n\<close> are taken or the queue is empty.
\<close>

locale max_queue =
  fixes push :: "'q \<Rightarrow> 'a \<Rightarrow> 'q"
    and pop :: "'q \<Rightarrow> ('a \<times> 'q) option"
    and elems :: "'q \<Rightarrow> 'a multiset"
    and ok :: "'q \<Rightarrow> bool"
    and before :: "'a \<Rightarrow> 'a \<Rightarrow> bool"
  assumes push: "ok q \<Longrightarrow> ok (push q x) \<and> elems (push q x) = add_mset x (elems q)"
    and pop_None: "ok q \<Longrightarrow> pop q = None \<longleftrightarrow> elems q = {#}"
    and pop_Some: "ok q \<Longrightarrow> pop q = Some (x, q') \<Longrightarrow>
      ok q' \<and> elems q = add_mset x (elems q') \<and> (\<forall>y\<in>#elems q. \<not> before y x)"

fun drain :: "('q \<Rightarrow> ('a \<times> 'q) option) \<Rightarrow> nat \<Rightarrow> 'q \<Rightarrow> 'a list \<times> 'q" where
  "drain pop 0 q = ([], q)"
| "drain pop (Suc n) q =
     (case pop q of None \<Rightarrow> ([], q)
      | Some (x, q') \<Rightarrow> (case drain pop n q' of (xs, r) \<Rightarrow> (x # xs, r)))"

context max_queue
begin

lemma drain_best:
  assumes "ok q" "drain pop n q = (xs, r)"
  shows "ok r \<and> elems q = mset xs + elems r \<and> length xs = min n (size (elems q)) \<and>
    sorted_wrt (\<lambda>x y. \<not> before y x) xs \<and> (\<forall>x\<in>set xs. \<forall>y\<in>#elems r. \<not> before y x)"
  using assms
proof (induction n arbitrary: q xs)
  case (Suc n)
  show ?case
  proof (cases "pop q")
    case None
    then have "elems q = {#}" "xs = []" "r = q" using Suc.prems pop_None[OF Suc.prems(1)] by auto
    then show ?thesis using Suc.prems(1) by simp
  next
    case (Some p)
    then obtain x q' ys where x: "pop q = Some (x, q')" and d: "drain pop n q' = (ys, r)" and xs: "xs = x # ys"
      using Suc.prems(2) by (cases p) (auto split: prod.splits)
    note s = pop_Some[OF Suc.prems(1) x]
    have ih: "ok r" "elems q' = mset ys + elems r" "length ys = min n (size (elems q'))"
      "sorted_wrt (\<lambda>x y. \<not> before y x) ys" "\<forall>x\<in>set ys. \<forall>y\<in>#elems r. \<not> before y x"
      using Suc.IH[OF _ d] s by blast+
    have all: "\<not> before y x" if "y \<in># mset ys + elems r" for y using s ih(2) that by auto
    have "elems q = mset xs + elems r" using s ih(2) xs by simp
    moreover have "length xs = min (Suc n) (size (elems q))" using s ih(3) xs by simp
    moreover have "sorted_wrt (\<lambda>x y. \<not> before y x) xs" using ih(4) all xs by simp
    moreover have "\<forall>x\<in>set xs. \<forall>y\<in>#elems r. \<not> before y x" using ih(5) all xs by simp
    ultimately show ?thesis using ih(1) by blast
  qed
qed simp

end

context priority
begin

lemma heap_max_queue: "max_queue (heap_Push Less) (heap_Pop Less) mset (is_heap Less) Less"
proof
  fix h x h'
  show "is_heap Less h \<Longrightarrow> is_heap Less (heap_Push Less h x) \<and> mset (heap_Push Less h x) = add_mset x (mset h)"
    by (simp add: is_heap_Push)
  show "is_heap Less h \<Longrightarrow> heap_Pop Less h = None \<longleftrightarrow> mset h = {#}"
    by (simp add: heap_Pop_def Let_def)
  show "is_heap Less h \<Longrightarrow> heap_Pop Less h = Some (x, h') \<Longrightarrow>
      is_heap Less h' \<and> mset h = add_mset x (mset h') \<and> (\<forall>y\<in>#mset h. \<not> Less y x)"
    using is_heap_Pop[of h x h'] by (metis set_mset_mset)
qed

end

sublocale priority < queue: max_queue "heap_Push Less" "heap_Pop Less" mset "is_heap Less" Less
  by (rule heap_max_queue)

end
