(* ===== verification/Transactions.thy ===== *)
theory Transactions
  imports Execution
begin

text \<open>
  The transactions of \<open>src/blockchain/validation.go\<close>: \<open>ValidateTransaction\<close>, \<open>ApplyTransaction\<close> and
  their combination. \<open>ed25519.Verify\<close> is the parameter \<open>verify\<close> (public key, message, signature), and
  the registered \<open>contractExecutor\<close> is the parameter \<open>executor\<close>, \<open>None\<close> when it is nil.
\<close>

type_synonym verifier = "PublicKey \<Rightarrow> byte list \<Rightarrow> Signature \<Rightarrow> bool"

datatype tx_error =
    InvalidAmount
  | GasLimitZero
  | GasPriceZero
  | InvalidSignature
  | SenderDoesNotExist
  | GasCostOverflow
  | TotalOverflow util_error
  | DeploymentFeeOverflow util_error
  | InsufficientBalance
  | InvalidNonce
  | InvalidInstruction instr_error
  | ExecutorNotAvailable
  | DeploymentFailed exec_error
  | GasLimitExceeded

section \<open>Validation\<close>

definition is_deployment :: "Transaction \<Rightarrow> bool" where
  "is_deployment tsx \<longleftrightarrow> tx_To tsx = zero32 \<and> length (tx_Instructions tsx) > 0"

text \<open>\<open>None\<close> is the nil error: the transaction is valid.\<close>

definition ValidateTransaction :: "verifier \<Rightarrow> Transaction \<Rightarrow> AccountStates \<Rightarrow> tx_error option" where
  "ValidateTransaction verify tsx accountStates =
     (if ValidateAmount (tx_Amount tsx) \<noteq> None then Some InvalidAmount
      else if ValidateAmount (tx_GasLimit tsx) \<noteq> None then Some InvalidAmount
      else if ValidateAmount (tx_GasPrice tsx) \<noteq> None then Some InvalidAmount
      else if tx_From tsx = zero32 then None
      else if tx_GasLimit tsx = 0 then Some GasLimitZero
      else if tx_GasPrice tsx = 0 then Some GasPriceZero
      else if \<not> verify (tx_From tsx) (Transaction_GetHash tsx) (tx_Signature tsx) then Some InvalidSignature
      else case map_of accountStates (tx_From tsx) of
          None \<Rightarrow> Some SenderDoesNotExist
        | Some fromState \<Rightarrow>
            (let maxGasCost = tx_GasLimit tsx * tx_GasPrice tsx in
             if tx_GasLimit tsx \<noteq> 0 \<and> maxGasCost div tx_GasLimit tsx \<noteq> tx_GasPrice tsx then Some GasCostOverflow
             else case SafeAdd (tx_Amount tsx) maxGasCost of
                 Inl e \<Rightarrow> Some (TotalOverflow e)
               | Inr totalCost \<Rightarrow>
                   (case (if is_deployment tsx then SafeAdd totalCost ContractDeploymentFee else Inr totalCost) of
                      Inl e \<Rightarrow> Some (DeploymentFeeOverflow e)
                    | Inr totalCost \<Rightarrow>
                        if acc_Balance fromState < totalCost then Some InsufficientBalance
                        else if tx_Nonce tsx \<noteq> acc_Nonce fromState + 1 then Some InvalidNonce
                        else None)))"

section \<open>Application\<close>

text \<open>\<open>None\<close> is a panic; otherwise the accounts, the gas used and the error.\<close>

type_synonym apply_result = "(AccountStates \<times> u64 \<times> tx_error option) option"

definition apply_coinbase :: "Transaction \<Rightarrow> AccountStates \<Rightarrow> apply_result" where
  "apply_coinbase tsx accountStates =
     (case map_of accountStates (tx_To tsx) of
        Some toState \<Rightarrow>
          (case SafeAdd (acc_Balance toState) (tx_Amount tsx) of
             Inl e \<Rightarrow> None
           | Inr newBalance \<Rightarrow>
               Some (go_store (tx_To tsx) (toState\<lparr>acc_Balance := newBalance\<rparr>) accountStates, 0, None))
      | None \<Rightarrow> Some (go_store (tx_To tsx) (new_account (tx_To tsx) (tx_Amount tsx)) accountStates, 0, None))"

text \<open>
  The end of both branches: the gas limit, the cost, and the debit of the sender. \<open>fromState\<close> is a
  pointer taken before; \<open>from_now\<close> is the object it points to, and the map holds that object unless
  its key is among the replaced ones.
\<close>

definition charge_sender ::
  "Transaction \<Rightarrow> u64 \<Rightarrow> u64 \<Rightarrow> AccountState \<Rightarrow> PublicKey list \<Rightarrow> AccountStates \<Rightarrow> apply_result" where
  "charge_sender tsx totalCostSoFar gasUsed from_now replaced accountStates =
     (if gasUsed > tx_GasLimit tsx then Some (accountStates, gasUsed, Some GasLimitExceeded)
      else case SafeAdd totalCostSoFar (gasUsed * tx_GasPrice tsx) of
          Inl e \<Rightarrow> None
        | Inr totalCost \<Rightarrow>
            (case SafeSubtract (acc_Balance from_now) totalCost of
               Inl e \<Rightarrow> None
             | Inr newFromBalance \<Rightarrow>
                 (let sender = from_now\<lparr>acc_Balance := newFromBalance, acc_Nonce := acc_Nonce from_now + 1\<rparr>
                  in Some (if tx_From tsx \<in> set replaced then accountStates
                           else go_store (tx_From tsx) sender accountStates, gasUsed, None))))"

text \<open>The context that both kinds of execution hand to the virtual machine.\<close>

definition tx_context :: "Transaction \<Rightarrow> PublicKey \<Rightarrow> PublicKey \<Rightarrow> BlockchainContext" where
  "tx_context tsx contractAddr deployer =
     \<lparr>BlockNumber = 1, BlockHash = zero32, LastBlockHash = zero32, ctx_Timestamp = 1640995200,
      Difficulty = 0x207fffff, ctx_GasLimit = tx_GasLimit tsx, Coinbase = zero32, ctx_ChainID = 1,
      Caller = tx_From tsx, Origin = tx_From tsx, ctx_GasPrice = tx_GasPrice tsx,
      CallValue = tx_Amount tsx, ContractAddress = contractAddr, TsxData = tx_Data tsx,
      Deployer = deployer, DeploymentTime = 1640995200, DeploymentGas = tx_GasPrice tsx\<rparr>"

definition data_gas :: "Transaction \<Rightarrow> u64" where
  "data_gas tsx = of_nat (length (tx_Data tsx)) * GasDataPerByte"

definition apply_deployment ::
  "ContractExecutor option \<Rightarrow> Transaction \<Rightarrow> AccountState \<Rightarrow> AccountStates \<Rightarrow> apply_result" where
  "apply_deployment executor tsx fromState accountStates =
     (case SafeAdd (tx_Amount tsx) ContractDeploymentFee of
        Inl e \<Rightarrow> None
      | Inr totalCostSoFar \<Rightarrow>
          (let contractAddr = GenerateContractAddress (tx_From tsx) (acc_Nonce fromState);
               gasUsed = GasContractDeploy + data_gas tsx
           in case List.find (\<lambda>instr. ValidateInstruction instr \<noteq> None) (tx_Instructions tsx) of
                Some instr \<Rightarrow> Some (accountStates, gasUsed, Some (InvalidInstruction (the (ValidateInstruction instr))))
              | None \<Rightarrow>
                  (case executor of
                     None \<Rightarrow> Some (accountStates, gasUsed, Some ExecutorNotAvailable)
                   | Some execute \<Rightarrow>
                       (case execute tsx accountStates (tx_context tsx contractAddr (tx_From tsx)) of
                          None \<Rightarrow> None
                        | Some (st, replaced, executionGasUsed, Some e) \<Rightarrow>
                            Some (st, gasUsed, Some (DeploymentFailed e))
                        | Some (st, replaced, executionGasUsed, None) \<Rightarrow>
                            charge_sender tsx totalCostSoFar (gasUsed + executionGasUsed)
                              (if tx_From tsx \<in> set replaced then fromState else the (map_of st (tx_From tsx)))
                              replaced st))))"

definition apply_transfer ::
  "ContractExecutor option \<Rightarrow> Transaction \<Rightarrow> AccountState \<Rightarrow> AccountStates \<Rightarrow> apply_result" where
  "apply_transfer executor tsx fromState accountStates =
     (let gasUsed = GasTransfer + data_gas tsx in
      case map_of accountStates (tx_To tsx) of
        None \<Rightarrow>
          (let st = go_store (tx_To tsx) (new_account (tx_To tsx) (tx_Amount tsx)) accountStates
           in charge_sender tsx (tx_Amount tsx) gasUsed (the (map_of st (tx_From tsx))) [] st)
      | Some toState \<Rightarrow>
          (case SafeAdd (acc_Balance toState) (tx_Amount tsx) of
             Inl e \<Rightarrow> None
           | Inr newToBalance \<Rightarrow>
               (let toState = toState\<lparr>acc_Balance := newToBalance\<rparr>;
                    st = go_store (tx_To tsx) toState accountStates;
                    from_now = the (map_of st (tx_From tsx))
                in if length (acc_Instructions toState) > 0 then
                     (case executor of
                        None \<Rightarrow> charge_sender tsx (tx_Amount tsx) gasUsed from_now [] st
                      | Some execute \<Rightarrow>
                          (case execute tsx st (tx_context tsx (tx_To tsx) (acc_Address toState)) of
                             None \<Rightarrow> None
                           | Some (st', replaced, contractGasUsed, Some e) \<Rightarrow>
                               charge_sender tsx (tx_Amount tsx) gasUsed from_now [] st'
                           | Some (st', replaced, contractGasUsed, None) \<Rightarrow>
                               charge_sender tsx (tx_Amount tsx) (gasUsed + contractGasUsed)
                                 (if tx_From tsx \<in> set replaced then from_now else the (map_of st' (tx_From tsx)))
                                 replaced st'))
                   else charge_sender tsx (tx_Amount tsx) gasUsed from_now [] st)))"

definition ApplyTransaction :: "ContractExecutor option \<Rightarrow> Transaction \<Rightarrow> AccountStates \<Rightarrow> apply_result" where
  "ApplyTransaction executor tsx accountStates =
     (if tx_From tsx = zero32 then apply_coinbase tsx accountStates
      else case map_of accountStates (tx_From tsx) of
          None \<Rightarrow> Some (accountStates, 0, Some SenderDoesNotExist)
        | Some fromState \<Rightarrow>
            if is_deployment tsx then apply_deployment executor tsx fromState accountStates
            else if tx_To tsx \<noteq> zero32 then apply_transfer executor tsx fromState accountStates
            else Some (accountStates, GasTransfer, None))"

text \<open>\<open>None\<close> is a panic; otherwise the accounts and whether the transaction was applied.\<close>

definition ValidateAndApplyTransaction ::
  "verifier \<Rightarrow> ContractExecutor option \<Rightarrow> Transaction \<Rightarrow> AccountStates \<Rightarrow> (AccountStates \<times> bool) option" where
  "ValidateAndApplyTransaction verify executor tsx accountStates =
     (if ValidateTransaction verify tsx accountStates \<noteq> None then Some (accountStates, False)
      else case ApplyTransaction executor tsx accountStates of
          None \<Rightarrow> None
        | Some (st, _, Some e) \<Rightarrow> Some (st, False)
        | Some (st, _, None) \<Rightarrow> Some (st, True))"

end
