(* ===== verification/Tx_Properties.thy ===== *)
theory Tx_Properties
  imports Transactions
begin

text \<open>
  What validated transactions do to the ledger: they never panic, a plain transfer moves exactly
  its amount and burns exactly its fee, and the gas they report stays within their limit.
\<close>

section \<open>Arithmetic on balances\<close>

lemma SafeAdd_unat:
  "SafeAdd a b = (if unat a + unat b < 2 ^ 64 then Inr (a + b) else Inl (AddOverflow a b))"
proof -
  have "uint a + uint b < 2 ^ 64 \<longleftrightarrow> unat a + unat b < 2 ^ 64"
    using uint_nat[of a] uint_nat[of b] by (simp del: of_nat_unat) presburger
  then show ?thesis
    using SafeAdd_Inr[of a b "a + b"] SafeAdd_Inl[of a b "AddOverflow a b"] by auto
qed

lemma SafeSubtract_unat:
  "SafeSubtract a b = (if unat b \<le> unat a then Inr (a - b) else Inl (SubUnderflow a b))"
  by (auto simp: SafeSubtract_def word_less_nat_alt)

lemma unat_add_exact: "unat (a :: u64) + unat b < 2 ^ 64 \<Longrightarrow> unat (a + b) = unat a + unat b"
  by (simp add: unat_word_ariths)

lemma unat_mult_exact: "unat (a :: u64) * unat b < 2 ^ 64 \<Longrightarrow> unat (a * b) = unat a * unat b"
  by (simp add: unat_word_ariths)

lemma unat_diff_exact: "unat (b :: u64) \<le> unat a \<Longrightarrow> unat (a - b) = unat a - unat b"
  by (simp add: unat_sub word_le_nat_alt)

text \<open>The overflow test of the gas cost is exact.\<close>

lemma mult_overflow_test:
  assumes "(l :: u64) \<noteq> 0" shows "(l * p) div l = p \<longleftrightarrow> unat l * unat p < 2 ^ 64"
proof
  assume "(l * p) div l = p"
  then have "unat (l * p) div unat l = unat p" by (metis unat_div)
  then have "unat l * unat p \<le> unat (l * p)" by (metis mult.commute div_times_less_eq_dividend)
  also have "unat (l * p) < 2 ^ 64" using unsigned_less[of "l * p"] by simp
  finally show "unat l * unat p < 2 ^ 64" .
next
  assume "unat l * unat p < 2 ^ 64"
  moreover have "unat l \<noteq> 0" using assms by (simp add: word_unat_eq_iff)
  ultimately have "unat ((l * p) div l) = unat p" by (simp add: unat_div unat_mult_exact)
  then show "(l * p) div l = p" by (simp add: word_unat_eq_iff)
qed

section \<open>What validation establishes\<close>

definition max_gas_cost :: "Transaction \<Rightarrow> nat" where
  "max_gas_cost tsx = unat (tx_GasLimit tsx) * unat (tx_GasPrice tsx)"

lemma ValidateTransaction_None:
  assumes "ValidateTransaction verify tsx st = None" "tx_From tsx \<noteq> zero32"
  obtains sender where "map_of st (tx_From tsx) = Some sender"
    and "tx_GasLimit tsx \<noteq> 0" "tx_GasPrice tsx \<noteq> 0"
    and "verify (tx_From tsx) (Transaction_GetHash tsx) (tx_Signature tsx)"
    and "unat (tx_Amount tsx) + max_gas_cost tsx + (if is_deployment tsx then unat ContractDeploymentFee else 0)
         \<le> unat (acc_Balance sender)"
    and "tx_Nonce tsx = acc_Nonce sender + 1"
proof -
  let ?m = "tx_GasLimit tsx * tx_GasPrice tsx"
  obtain sender where s: "map_of st (tx_From tsx) = Some sender"
    using assms by (auto simp: ValidateTransaction_def split: if_splits option.splits)
  have l: "tx_GasLimit tsx \<noteq> 0" "tx_GasPrice tsx \<noteq> 0"
      "verify (tx_From tsx) (Transaction_GetHash tsx) (tx_Signature tsx)" "?m div tx_GasLimit tsx = tx_GasPrice tsx"
    using assms s by (auto simp: ValidateTransaction_def Let_def split: if_splits)
  then have m: "unat ?m = max_gas_cost tsx"
    using mult_overflow_test[of "tx_GasLimit tsx" "tx_GasPrice tsx"] by (simp add: unat_mult_exact max_gas_cost_def)
  have add: "SafeAdd (tx_Amount tsx) ?m = Inr (tx_Amount tsx + ?m)"
      "unat (tx_Amount tsx) + max_gas_cost tsx < 2 ^ 64"
    using assms s l m by (auto simp: ValidateTransaction_def Let_def SafeAdd_unat split: if_splits)
  then have t: "unat (tx_Amount tsx + ?m) = unat (tx_Amount tsx) + max_gas_cost tsx"
    using m by (simp add: unat_add_exact)
  have "unat (tx_Amount tsx) + max_gas_cost tsx + (if is_deployment tsx then unat ContractDeploymentFee else 0)
        \<le> unat (acc_Balance sender) \<and> tx_Nonce tsx = acc_Nonce sender + 1"
  proof (cases "is_deployment tsx")
    case True
    then have "SafeAdd (tx_Amount tsx + ?m) ContractDeploymentFee = Inr (tx_Amount tsx + ?m + ContractDeploymentFee)"
        and "\<not> acc_Balance sender < tx_Amount tsx + ?m + ContractDeploymentFee" "tx_Nonce tsx = acc_Nonce sender + 1"
      using assms s l add by (auto simp: ValidateTransaction_def Let_def SafeAdd_unat split: if_splits)
    with True t show ?thesis
      by (auto simp: SafeAdd_unat word_less_nat_alt not_less unat_add_exact split: if_splits)
  next
    case False
    then have "\<not> acc_Balance sender < tx_Amount tsx + ?m" "tx_Nonce tsx = acc_Nonce sender + 1"
      using assms s l add by (auto simp: ValidateTransaction_def Let_def split: if_splits)
    with False t show ?thesis by (simp add: word_less_nat_alt not_less)
  qed
  with s l show thesis by (intro that) auto
qed

section \<open>The charge\<close>

definition debit :: "AccountState \<Rightarrow> u64 \<Rightarrow> AccountState" where
  "debit s cost = s\<lparr>acc_Balance := acc_Balance s - cost, acc_Nonce := acc_Nonce s + 1\<rparr>"

lemma gas_cost_le:
  "g \<le> tx_GasLimit tsx \<Longrightarrow> unat g * unat (tx_GasPrice tsx) \<le> max_gas_cost tsx"
  by (simp add: max_gas_cost_def word_le_nat_alt)

lemma charge_sender_ok:
  assumes g: "g \<le> tx_GasLimit tsx" and b: "unat c + max_gas_cost tsx \<le> unat (acc_Balance s)"
  shows "charge_sender tsx c g s rep st =
      Some (if tx_From tsx \<in> set rep then st else go_store (tx_From tsx) (debit s (c + g * tx_GasPrice tsx)) st, g, None)"
    and "unat (c + g * tx_GasPrice tsx) = unat c + unat g * unat (tx_GasPrice tsx)"
    and "unat (c + g * tx_GasPrice tsx) \<le> unat (acc_Balance s)"
    and "unat (acc_Balance (debit s (c + g * tx_GasPrice tsx))) = unat (acc_Balance s) - (unat c + unat g * unat (tx_GasPrice tsx))"
proof -
  have le: "unat c + unat g * unat (tx_GasPrice tsx) \<le> unat (acc_Balance s)"
    using gas_cost_le[OF g] b by simp
  moreover have "unat (acc_Balance s) < 2 ^ 64" using unsigned_less[of "acc_Balance s"] by simp
  ultimately have lt: "unat c + unat g * unat (tx_GasPrice tsx) < 2 ^ 64" by simp
  then have gp: "unat (g * tx_GasPrice tsx) = unat g * unat (tx_GasPrice tsx)" by (intro unat_mult_exact) simp
  show sum: "unat (c + g * tx_GasPrice tsx) = unat c + unat g * unat (tx_GasPrice tsx)"
    using lt gp by (simp add: unat_add_exact)
  then show le': "unat (c + g * tx_GasPrice tsx) \<le> unat (acc_Balance s)" using le by simp
  from sum le' show "unat (acc_Balance (debit s (c + g * tx_GasPrice tsx)))
      = unat (acc_Balance s) - (unat c + unat g * unat (tx_GasPrice tsx))"
    by (simp add: debit_def unat_diff_exact)
  show "charge_sender tsx c g s rep st =
      Some (if tx_From tsx \<in> set rep then st else go_store (tx_From tsx) (debit s (c + g * tx_GasPrice tsx)) st, g, None)"
    using g lt gp le' by (simp add: charge_sender_def SafeAdd_unat SafeSubtract_unat debit_def Let_def not_less)
qed

lemma charge_sender_no_panic:
  assumes "unat c + max_gas_cost tsx \<le> unat (acc_Balance s)"
  shows "charge_sender tsx c g s rep st \<noteq> None"
proof (cases "g \<le> tx_GasLimit tsx")
  case True
  then show ?thesis using charge_sender_ok(1)[OF True assms] by simp
qed (simp add: charge_sender_def not_le)

lemma charge_sender_gas:
  "charge_sender tsx c g s rep st = Some (st', g', None) \<Longrightarrow> g' = g \<and> g \<le> tx_GasLimit tsx"
  by (auto simp: charge_sender_def Let_def not_less split: if_splits sum.splits)

section \<open>Supply\<close>

definition total_supply :: "AccountStates \<Rightarrow> nat" where
  "total_supply st = map_sum (\<lambda>a. unat (acc_Balance a)) st"

lemma supply_old:
  "map_of st k = Some w \<Longrightarrow>
     total_supply (go_store k v st) + unat (acc_Balance w) = total_supply st + unat (acc_Balance v)"
  unfolding total_supply_def by (rule map_sum_store_old)

lemma supply_new: "map_of st k = None \<Longrightarrow> total_supply (go_store k v st) = total_supply st + unat (acc_Balance v)"
  unfolding total_supply_def by (rule map_sum_store_new)

lemma supply_member: "map_of st k = Some v \<Longrightarrow> unat (acc_Balance v) \<le> total_supply st"
  unfolding total_supply_def by (rule map_sum_member)

lemma supply_member2:
  "map_of st k = Some v \<Longrightarrow> map_of st l = Some w \<Longrightarrow> k \<noteq> l \<Longrightarrow>
     unat (acc_Balance v) + unat (acc_Balance w) \<le> total_supply st"
  unfolding total_supply_def by (rule map_sum_member2)

text \<open>A transfer whose recipient, if it exists, has no code.\<close>

definition plain_transfer :: "Transaction \<Rightarrow> AccountStates \<Rightarrow> bool" where
  "plain_transfer tsx st \<longleftrightarrow> tx_From tsx \<noteq> zero32 \<and> tx_To tsx \<noteq> zero32 \<and>
     (case map_of st (tx_To tsx) of None \<Rightarrow> True | Some s \<Rightarrow> acc_Instructions s = [])"

definition transfer_gas :: "Transaction \<Rightarrow> u64" where
  "transfer_gas tsx = GasTransfer + data_gas tsx"

text \<open>The accounts after the recipient is credited.\<close>

definition credited :: "Transaction \<Rightarrow> AccountStates \<Rightarrow> AccountStates" where
  "credited tsx st = (case map_of st (tx_To tsx) of
      None \<Rightarrow> go_store (tx_To tsx) (new_account (tx_To tsx) (tx_Amount tsx)) st
    | Some s \<Rightarrow> go_store (tx_To tsx) (s\<lparr>acc_Balance := acc_Balance s + tx_Amount tsx\<rparr>) st)"

lemma recipient_room:
  assumes s: "map_of st (tx_From tsx) = Some s" and t: "map_of st (tx_To tsx) = Some r"
    and a: "unat (tx_Amount tsx) \<le> unat (acc_Balance s)" and sup: "total_supply st < 2 ^ 63"
  shows "unat (acc_Balance r) + unat (tx_Amount tsx) < 2 ^ 64"
proof (cases "tx_From tsx = tx_To tsx")
  case True
  then show ?thesis using supply_member[OF s] s t a sup by simp
next
  case False
  then show ?thesis using supply_member2[OF s t] a sup by simp
qed

lemma transfer_applies:
  assumes p: "plain_transfer tsx st" and s: "map_of st (tx_From tsx) = Some s"
    and b: "unat (tx_Amount tsx) + max_gas_cost tsx \<le> unat (acc_Balance s)" and sup: "total_supply st < 2 ^ 63"
  shows "apply_transfer executor tsx s st =
      charge_sender tsx (tx_Amount tsx) (transfer_gas tsx) (the (map_of (credited tsx st) (tx_From tsx))) [] (credited tsx st)"
    and "\<exists>f. map_of (credited tsx st) (tx_From tsx) = Some f \<and>
         unat (acc_Balance f) = unat (acc_Balance s) + (if tx_From tsx = tx_To tsx then unat (tx_Amount tsx) else 0) \<and>
         acc_Nonce f = acc_Nonce s"
    and "total_supply (credited tsx st) = total_supply st + unat (tx_Amount tsx)"
proof -
  have room: "unat (acc_Balance r) + unat (tx_Amount tsx) < 2 ^ 64" if "map_of st (tx_To tsx) = Some r" for r
    using recipient_room[OF s that _ sup] b by simp
  then have add: "SafeAdd (acc_Balance r) (tx_Amount tsx) = Inr (acc_Balance r + tx_Amount tsx)"
      "unat (acc_Balance r + tx_Amount tsx) = unat (acc_Balance r) + unat (tx_Amount tsx)"
    if "map_of st (tx_To tsx) = Some r" for r
    using that by (simp_all add: SafeAdd_unat unat_add_exact)
  show "apply_transfer executor tsx s st =
      charge_sender tsx (tx_Amount tsx) (transfer_gas tsx) (the (map_of (credited tsx st) (tx_From tsx))) [] (credited tsx st)"
    using p add(1) by (auto simp: apply_transfer_def plain_transfer_def credited_def transfer_gas_def Let_def split: option.splits)
  show "\<exists>f. map_of (credited tsx st) (tx_From tsx) = Some f \<and>
         unat (acc_Balance f) = unat (acc_Balance s) + (if tx_From tsx = tx_To tsx then unat (tx_Amount tsx) else 0) \<and>
         acc_Nonce f = acc_Nonce s"
    using s add(2) by (auto simp: credited_def split: option.splits)
  show "total_supply (credited tsx st) = total_supply st + unat (tx_Amount tsx)"
  proof (cases "map_of st (tx_To tsx)")
    case None
    then show ?thesis by (simp add: credited_def supply_new new_account_def)
  next
    case (Some r)
    with supply_old[OF Some, of "r\<lparr>acc_Balance := acc_Balance r + tx_Amount tsx\<rparr>"] add(2)[OF Some]
    show ?thesis by (simp add: credited_def)
  qed
qed

section \<open>Panics\<close>

definition same_code :: "AccountStates \<Rightarrow> AccountStates \<Rightarrow> bool" where
  "same_code st st' \<longleftrightarrow> (\<forall>k. map_option acc_Instructions (map_of st k) = map_option acc_Instructions (map_of st' k))"

lemma tx_context_sized:
  "length (tx_From tsx) = 32 \<Longrightarrow> length a = 32 \<Longrightarrow> context_sized (tx_context tsx a d)"
  by (simp add: context_sized_def tx_context_def)

context contract_executor
begin

lemma charged_after_execute:
  assumes ex: "execute tsx st ctx = Some (st', rep, g, e)" and s: "map_of st (tx_From tsx) = Some s"
    and c: "unat c + max_gas_cost tsx \<le> unat (acc_Balance s)"
    and small: "unat (acc_Balance s) + unat (tx_Amount tsx) < 2 ^ 64"
  shows "charge_sender tsx c g' (if tx_From tsx \<in> set rep then s else the (map_of st' (tx_From tsx))) rep st' \<noteq> None"
proof (cases "tx_From tsx \<in> set rep")
  case True
  then show ?thesis using charge_sender_no_panic[OF c] by simp
next
  case False
  have "\<exists>s'. map_of st' (tx_From tsx) = Some s' \<and> unat (acc_Balance s) \<le> unat (acc_Balance s')"
  proof (cases "tx_From tsx = tx_To tsx")
    case True
    with recipient[OF ex] s False have "\<exists>s'. map_of st' (tx_From tsx) = Some s' \<and>
        acc_Balance s' \<in> {acc_Balance s, acc_Balance s + tx_Amount tsx}" by force
    with small show ?thesis by (auto simp: unat_add_exact)
  next
    case from_to: False
    with keeps[OF ex from_to False] s show ?thesis by simp
  qed
  then obtain s' where "map_of st' (tx_From tsx) = Some s'" "unat c + max_gas_cost tsx \<le> unat (acc_Balance s')"
    using c by auto
  with False charge_sender_no_panic[of c tsx s'] show ?thesis by simp
qed

lemma apply_deployment_no_panic:
  assumes s: "map_of st (tx_From tsx) = Some s"
    and c: "unat (tx_Amount tsx) + max_gas_cost tsx + unat ContractDeploymentFee \<le> unat (acc_Balance s)"
    and small: "unat (acc_Balance s) + unat (tx_Amount tsx) < 2 ^ 64"
    and ex: "\<And>st' ctx. same_code st' st \<Longrightarrow> context_sized ctx \<Longrightarrow> execute tsx st' ctx \<noteq> None"
    and l: "length (tx_From tsx) = 32"
  shows "apply_deployment (Some execute) tsx s st \<noteq> None"
proof -
  let ?c = "tx_Amount tsx + ContractDeploymentFee"
  have lt: "unat (tx_Amount tsx) + unat ContractDeploymentFee < 2 ^ 64" using c small by simp
  then have sa: "SafeAdd (tx_Amount tsx) ContractDeploymentFee = Inr ?c" by (simp add: SafeAdd_unat)
  have c': "unat ?c + max_gas_cost tsx \<le> unat (acc_Balance s)" using c lt by (simp add: unat_add_exact)
  let ?ctx = "tx_context tsx (GenerateContractAddress (tx_From tsx) (acc_Nonce s)) (tx_From tsx)"
  obtain st' rep g e where r: "execute tsx st ?ctx = Some (st', rep, g, e)"
    using ex[of st ?ctx] tx_context_sized[OF l] unfolding same_code_def GenerateContractAddress_def
    by (metis length_sha256 option.exhaust prod_cases4)
  show ?thesis
    using charged_after_execute[OF r s c' small]
    by (auto simp: apply_deployment_def Let_def sa r split: option.splits)
qed

lemma apply_transfer_no_panic:
  assumes s: "map_of st (tx_From tsx) = Some s"
    and c: "unat (tx_Amount tsx) + max_gas_cost tsx \<le> unat (acc_Balance s)"
    and sup: "total_supply st < 2 ^ 62"
    and ex: "\<And>st' ctx. same_code st' st \<Longrightarrow> context_sized ctx \<Longrightarrow> execute tsx st' ctx \<noteq> None"
    and l: "length (tx_From tsx) = 32" "length (tx_To tsx) = 32"
  shows "apply_transfer (Some execute) tsx s st \<noteq> None"
proof (cases "map_of st (tx_To tsx)")
  case None
  then have "tx_From tsx \<noteq> tx_To tsx" using s by auto
  with None s charge_sender_no_panic[OF c] show ?thesis by (simp add: apply_transfer_def Let_def)
next
  case (Some r)
  let ?r = "r\<lparr>acc_Balance := acc_Balance r + tx_Amount tsx\<rparr>"
  let ?st = "go_store (tx_To tsx) ?r st"
  have lt: "unat (acc_Balance r) + unat (tx_Amount tsx) < 2 ^ 63"
    using supply_member[OF Some] supply_member[OF s] sup c by simp
  then have sa: "SafeAdd (acc_Balance r) (tx_Amount tsx) = Inr (acc_Balance r + tx_Amount tsx)" by (simp add: SafeAdd_unat)
  obtain f where f: "map_of ?st (tx_From tsx) = Some f" "unat (acc_Balance s) \<le> unat (acc_Balance f)"
      "unat (acc_Balance f) < 2 ^ 63"
    using s Some lt supply_member[OF s] sup by (cases "tx_From tsx = tx_To tsx") (auto simp: unat_add_exact)
  have cf: "unat (tx_Amount tsx) + max_gas_cost tsx \<le> unat (acc_Balance f)" using c f by simp
  have small: "unat (acc_Balance f) + unat (tx_Amount tsx) < 2 ^ 64" using f c supply_member[OF s] sup by simp
  have same: "same_code ?st st" using Some by (simp add: same_code_def)
  let ?ctx = "tx_context tsx (tx_To tsx) (acc_Address r)"
  obtain st' rep g e where x: "execute tsx ?st ?ctx = Some (st', rep, g, e)"
    using ex[of ?st ?ctx, OF same tx_context_sized[OF l]] by (metis option.exhaust prod_cases4)
  show ?thesis
    using charged_after_execute[OF x f(1) cf small] charge_sender_no_panic[OF cf] f(1)
    by (auto simp: apply_transfer_def Let_def Some sa x split: option.splits)
qed

lemma validated_no_panic:
  assumes v: "ValidateTransaction verify tsx st = None" and sup: "total_supply st < 2 ^ 62"
    and coinbase: "tx_From tsx = zero32 \<Longrightarrow> unat (tx_Amount tsx) < 2 ^ 62"
    and ex: "\<And>st' ctx. same_code st' st \<Longrightarrow> context_sized ctx \<Longrightarrow> execute tsx st' ctx \<noteq> None"
    and l: "length (tx_From tsx) = 32" "length (tx_To tsx) = 32"
  shows "ApplyTransaction (Some execute) tsx st \<noteq> None"
proof (cases "tx_From tsx = zero32")
  case True
  have "unat (acc_Balance r) + unat (tx_Amount tsx) < 2 ^ 64" if "map_of st (tx_To tsx) = Some r" for r
    using supply_member[OF that] sup coinbase[OF True] by simp
  with True show ?thesis
    by (auto simp: ApplyTransaction_def apply_coinbase_def SafeAdd_unat split: option.split)
next
  case False
  then obtain s where s: "map_of st (tx_From tsx) = Some s"
    and c: "unat (tx_Amount tsx) + max_gas_cost tsx + (if is_deployment tsx then unat ContractDeploymentFee else 0)
         \<le> unat (acc_Balance s)"
    using ValidateTransaction_None[OF v] by metis
  have small: "unat (acc_Balance s) + unat (tx_Amount tsx) < 2 ^ 64" using supply_member[OF s] sup c by simp
  show ?thesis
    using apply_deployment_no_panic[OF s _ small ex l(1)] apply_transfer_no_panic[OF s _ sup ex l] c False s
    by (auto simp: ApplyTransaction_def)
qed

lemma apply_gas:
  assumes "ApplyTransaction (Some execute) tsx st = Some (st', g, None)"
    and "tx_From tsx \<noteq> zero32" "tx_To tsx \<noteq> zero32 \<or> tx_Instructions tsx \<noteq> []"
  shows "g \<le> tx_GasLimit tsx"
  using assms
  by (auto simp: ApplyTransaction_def apply_deployment_def apply_transfer_def is_deployment_def Let_def
      split: option.splits sum.splits if_splits prod.splits dest: charge_sender_gas)

end

text \<open>The executor of the source panics only where the virtual machine does.\<close>

lemma start_safe:
  "safe_program is \<Longrightarrow> context_sized ctx \<Longrightarrow> 0 \<le> ic \<Longrightarrow>
     StartExecution ((NewRuntimeWithIC gas is ctx ic)\<lparr>Persistent := p\<rparr>) \<noteq> None"
proof -
  let ?r = "(NewRuntimeWithIC gas is ctx ic)\<lparr>Persistent := p\<rparr>"
  assume "safe_program is" "context_sized ctx" "0 \<le> ic"
  then have "panic_safe ?r"
    by (simp add: panic_safe_def values_narrow_def ic_ok_def NewRuntimeWithIC_def NewStack_def NewMemory_def safe_program_def)
  then show ?thesis using run_safe[of ?r] by (auto simp: StartExecution_def split: option.splits)
qed

lemma ExecuteTransaction_no_panic:
  assumes s: "map_of st (tx_From tsx) = Some s" and ctx: "context_sized ctx"
    and own: "safe_program (tx_Instructions tsx)"
    and to: "\<And>r. map_of st (tx_To tsx) = Some r \<Longrightarrow> safe_program (acc_Instructions r)"
  shows "ExecuteTransaction tsx st ctx \<noteq> None"
proof (cases "tx_Instructions tsx = []")
  case True
  show ?thesis
  proof (cases "map_of st (tx_To tsx)")
    case (Some r)
    have "StartExecution ((NewRuntimeWithIC (tx_GasLimit tsx) (acc_Instructions r) ctx 2)
        \<lparr>Persistent := acc_Persistent r\<rparr>) \<noteq> None"
      by (rule start_safe[OF to[OF Some] ctx]) simp
    with True Some show ?thesis by (auto simp: ExecuteTransaction_def executeContractCall_def Let_def)
  qed (use True in \<open>simp add: ExecuteTransaction_def executeContractCall_def\<close>)
next
  case False
  have "StartExecution (NewRuntimeWithIC (tx_GasLimit tsx) (tx_Instructions tsx) ctx 0) \<noteq> None"
    using start_safe[OF own ctx, where p = "[]"] by (simp add: NewRuntimeWithIC_def)
  with False s show ?thesis
    by (auto simp: ExecuteTransaction_def executeContractDeployment_def Let_def split: option.splits)
qed

section \<open>Properties\<close>

text \<open>
  C3. A valid transaction never makes \<open>ApplyTransaction\<close> panic, as long as the balances add up to
  less than \<open>2 ^ 62\<close>, a coinbase mints less than that, and the code it runs (its own, or that of its
  recipient) is a program that does not panic: none of the checked additions and subtractions of
  the balances fails.
\<close>

theorem valid_transaction_no_panic:
  assumes "ValidateTransaction verify tsx st = None" and "total_supply st < 2 ^ 62"
    and "tx_From tsx = zero32 \<Longrightarrow> unat (tx_Amount tsx) < 2 ^ 62"
    and "length (tx_From tsx) = 32" and "length (tx_To tsx) = 32"
    and "safe_program (tx_Instructions tsx)"
    and "\<And>r. map_of st (tx_To tsx) = Some r \<Longrightarrow> safe_program (acc_Instructions r)"
  shows "ApplyTransaction (Some ExecuteTransaction) tsx st \<noteq> None"
proof (cases "tx_From tsx = zero32")
  case True
  then show ?thesis
    using assms(2,3) supply_member[of st "tx_To tsx"]
    by (fastforce simp: ApplyTransaction_def apply_coinbase_def SafeAdd_unat split: option.split)
next
  case False
  then obtain s where s: "map_of st (tx_From tsx) = Some s" using ValidateTransaction_None[OF assms(1)] by metis
  show ?thesis
  proof (rule impl.validated_no_panic[OF assms(1-3)])
    fix st' ctx
    assume same: "same_code st' st" and "context_sized ctx"
    moreover from same s obtain s' where "map_of st' (tx_From tsx) = Some s'"
      by (metis same_code_def option.map_disc_iff option.exhaust option.distinct(1))
    moreover have "safe_program (acc_Instructions r)" if "map_of st' (tx_To tsx) = Some r" for r
    proof -
      have "map_option acc_Instructions (map_of st (tx_To tsx)) = Some (acc_Instructions r)"
        using same that by (metis same_code_def option.map(2))
      then show ?thesis using assms(7) by auto
    qed
    ultimately show "ExecuteTransaction tsx st' ctx \<noteq> None"
      using assms(6) by (intro ExecuteTransaction_no_panic)
  qed (use assms in auto)
qed

text \<open>A verifier that accepts every signature, and a transfer of 5 from one account to another, for the witnesses.\<close>

definition accept :: verifier where
  "accept k m s = True"

definition bob :: PublicKey where
  "bob = replicate 32 7"

definition pay :: "u64 \<Rightarrow> PublicKey \<Rightarrow> Transaction" where
  "pay limit to = \<lparr>tx_From = FirstUser, tx_To = to, tx_Amount = 5, tx_Signature = [], tx_Nonce = 1,
     tx_Timestamp = 0, tx_ChainID = 1, tx_Instructions = [], tx_GasLimit = limit, tx_GasPrice = 1, tx_Data = []\<rparr>"

definition rich :: AccountStates where
  "rich = [(FirstUser, new_account FirstUser 1000000)]"

lemma accept_pay:
  "ValidateTransaction accept (pay 30000 to) rich = None" "ValidateTransaction accept (pay 100 to) rich = None"
  using FirstUser_not_zero
  by (simp_all add: ValidateTransaction_def accept_def pay_def rich_def new_account_def is_deployment_def SafeAdd_unat)

lemma rich_supply: "total_supply rich = 1000000"
  by (simp add: total_supply_def rich_def new_account_def)

lemma bob_facts [simp]: "length bob = 32" "bob \<noteq> zero32" "bob \<noteq> FirstUser" "FirstUser \<noteq> bob"
  by (code_simp, code_simp, code_simp, code_simp)

theorem valid_transaction_no_panic_witness:
  "ApplyTransaction (Some ExecuteTransaction) (pay 30000 bob) rich \<noteq> None"
  using FirstUser_not_zero
  by (intro valid_transaction_no_panic[OF accept_pay(1)])
    (simp_all add: rich_supply pay_def safe_program_def narrow_program_def, simp add: rich_def new_account_def split: if_splits)

text \<open>
  C11. A valid plain transfer whose gas limit covers the fixed and the data gas succeeds. The sender
  pays the amount and the fee and its nonce goes up by one, the recipient, created when it does
  not exist, gets the amount, no other account changes, and the sum of all balances shrinks by
  exactly the fee.
\<close>

theorem transfer_effect:
  assumes "plain_transfer tsx st" and "ValidateTransaction verify tsx st = None"
    and "total_supply st < 2 ^ 63" and "transfer_gas tsx \<le> tx_GasLimit tsx"
  shows "\<exists>st' s s'. ApplyTransaction executor tsx st = Some (st', transfer_gas tsx, None)
    \<and> total_supply st' + unat (transfer_gas tsx) * unat (tx_GasPrice tsx) = total_supply st
    \<and> map_of st (tx_From tsx) = Some s \<and> map_of st' (tx_From tsx) = Some s' \<and> acc_Nonce s' = tx_Nonce tsx
    \<and> (tx_From tsx \<noteq> tx_To tsx \<longrightarrow>
         unat (acc_Balance s') + unat (tx_Amount tsx) + unat (transfer_gas tsx) * unat (tx_GasPrice tsx) = unat (acc_Balance s)
         \<and> map_of st' (tx_To tsx) = map_of (credited tsx st) (tx_To tsx))
    \<and> (\<forall>k. k \<noteq> tx_From tsx \<and> k \<noteq> tx_To tsx \<longrightarrow> map_of st' k = map_of st k)"
proof -
  let ?g = "transfer_gas tsx" and ?c = "tx_Amount tsx"
  have from0: "tx_From tsx \<noteq> zero32" "tx_To tsx \<noteq> zero32" "\<not> is_deployment tsx"
    using assms(1) by (auto simp: plain_transfer_def is_deployment_def)
  obtain s where s: "map_of st (tx_From tsx) = Some s" and n: "tx_Nonce tsx = acc_Nonce s + 1"
    and "unat ?c + max_gas_cost tsx + (if is_deployment tsx then unat ContractDeploymentFee else 0) \<le> unat (acc_Balance s)"
    using ValidateTransaction_None[OF assms(2) from0(1)] by metis
  then have c: "unat ?c + max_gas_cost tsx \<le> unat (acc_Balance s)" using from0(3) by simp
  note t = transfer_applies[OF assms(1) s c assms(3)]
  obtain f where f: "map_of (credited tsx st) (tx_From tsx) = Some f"
      "unat (acc_Balance f) = unat (acc_Balance s) + (if tx_From tsx = tx_To tsx then unat ?c else 0)" "acc_Nonce f = acc_Nonce s"
    using t(2) by blast
  have cf: "unat ?c + max_gas_cost tsx \<le> unat (acc_Balance f)" using c f(2) by simp
  note ch = charge_sender_ok[OF assms(4) cf]
  let ?f = "debit f (?c + ?g * tx_GasPrice tsx)"
  let ?st = "go_store (tx_From tsx) ?f (credited tsx st)"
  have ap: "ApplyTransaction executor tsx st = Some (?st, ?g, None)"
    using from0 s t(1) f(1) ch(1) by (simp add: ApplyTransaction_def)
  have le: "unat ?c + unat ?g * unat (tx_GasPrice tsx) \<le> unat (acc_Balance f)" using ch(2,3) by simp
  have "total_supply ?st + unat ?g * unat (tx_GasPrice tsx) = total_supply st"
    using supply_old[OF f(1), of ?f] ch(4) t(3) le by simp
  moreover have "map_of ?st k = map_of st k" if "k \<noteq> tx_From tsx" "k \<noteq> tx_To tsx" for k
    using that by (simp add: credited_def split: option.split)
  moreover have "acc_Nonce ?f = tx_Nonce tsx" using f(3) n by (simp add: debit_def)
  moreover have "unat (acc_Balance ?f) + unat ?c + unat ?g * unat (tx_GasPrice tsx) = unat (acc_Balance s)"
      "map_of ?st (tx_To tsx) = map_of (credited tsx st) (tx_To tsx)" if "tx_From tsx \<noteq> tx_To tsx"
    using that ch(4) le f(2) by simp_all
  moreover have "map_of ?st (tx_From tsx) = Some ?f" by simp
  ultimately show ?thesis using ap s by blast
qed

lemma pay_plain: "plain_transfer (pay limit bob) rich" "transfer_gas (pay limit to) = 21000"
  by (simp_all add: plain_transfer_def pay_def rich_def FirstUser_not_zero transfer_gas_def data_gas_def GasTransfer_def)

theorem transfer_effect_witness:
  "\<exists>st'. ApplyTransaction None (pay 30000 bob) rich = Some (st', 21000, None) \<and> total_supply st' + 21000 = 1000000"
proof -
  have "transfer_gas (pay 30000 bob) \<le> tx_GasLimit (pay 30000 bob)" by (simp add: pay_plain(2)) (simp add: pay_def)
  from transfer_effect[where executor = None, OF pay_plain(1) accept_pay(1) _ this] show ?thesis
    by (auto simp: pay_plain(2) rich_supply) (auto simp: pay_def)
qed

text \<open>
  A call of a contract credits the amount twice, once in \<open>ApplyTransaction\<close> and once in the
  executor: when a valid call from another account succeeds, the sum of all balances and the fee
  exceed the sum before by the amount, which is minted.
\<close>

theorem contract_call_mints_amount:
  assumes "ValidateTransaction verify tsx st = None" and "tx_From tsx \<noteq> zero32"
    and "tx_Instructions tsx = []" and "tx_To tsx \<noteq> zero32" and "tx_To tsx \<noteq> tx_From tsx"
    and "map_of st (tx_To tsx) = Some r" and "acc_Instructions r \<noteq> []" and "total_supply st < 2 ^ 62"
    and "ApplyTransaction (Some ExecuteTransaction) tsx st = Some (st', gas, None)"
  shows "total_supply st' + unat gas * unat (tx_GasPrice tsx) = total_supply st + unat (tx_Amount tsx)"
proof -
  let ?a = "tx_Amount tsx" and ?to = "tx_To tsx" and ?from = "tx_From tsx"
  obtain s where s: "map_of st ?from = Some s"
    and "unat ?a + max_gas_cost tsx + (if is_deployment tsx then unat ContractDeploymentFee else 0) \<le> unat (acc_Balance s)"
    using ValidateTransaction_None[OF assms(1,2)] by metis
  then have c: "unat ?a + max_gas_cost tsx \<le> unat (acc_Balance s)" using assms(3) by (simp add: is_deployment_def)
  have two: "unat (acc_Balance s) + unat (acc_Balance r) < 2 ^ 62"
    using supply_member2[OF s assms(6)] assms(5,8) by auto
  let ?r = "r\<lparr>acc_Balance := acc_Balance r + ?a\<rparr>"
  let ?st = "go_store ?to ?r st"
  have b1: "unat (acc_Balance r + ?a) = unat (acc_Balance r) + unat ?a" using two c by (intro unat_add_exact) simp
  have b2: "unat (acc_Balance r + ?a + ?a) = unat (acc_Balance r) + unat ?a + unat ?a"
    using two c b1 unat_add_exact[of "acc_Balance r + ?a" ?a] by simp
  have sa: "SafeAdd (acc_Balance r) ?a = Inr (acc_Balance r + ?a)" using two c by (simp add: SafeAdd_unat)
  let ?ctx = "tx_context tsx ?to (acc_Address r)"
  obtain st1 rep g e where x: "ExecuteTransaction tsx ?st ?ctx = Some (st1, rep, g, e)"
    using assms s sa
    by (cases "ExecuteTransaction tsx ?st ?ctx") (auto simp: ApplyTransaction_def apply_transfer_def is_deployment_def Let_def)
  then have call: "executeContractCall tsx ?st ?ctx = Some (st1, rep, g, e)"
    using assms(3) by (simp add: ExecuteTransaction_def)
  note d = call_done[OF call, of ?r, simplified]
  have st1: "st1 = go_store ?to (the (map_of st1 ?to)) ?st" "map_of st1 ?from = Some s"
    using d(4) s assms(5) by (auto, metis fun_upd_apply map_of_go_store)
  have ch: "charge_sender tsx ?a (transfer_gas tsx + g) s [] st1 = Some (st', gas, None)"
    using assms s sa x d(1,2) st1(2)
    by (simp add: ApplyTransaction_def apply_transfer_def is_deployment_def Let_def transfer_gas_def)
  then have g: "gas = transfer_gas tsx + g" "gas \<le> tx_GasLimit tsx" using charge_sender_gas[OF ch] by auto
  note ok = charge_sender_ok[OF g(2) c]
  have st': "st' = go_store ?from (debit s (?a + gas * tx_GasPrice tsx)) st1" using ch ok(1)[of "[]" st1] g(1) by simp
  have "total_supply st1 + unat (acc_Balance ?r) = total_supply ?st + unat (acc_Balance r + ?a + ?a)"
    using supply_old[of ?st ?to ?r "the (map_of st1 ?to)"] st1(1) d(5) by simp
  moreover have "total_supply ?st + unat (acc_Balance r) = total_supply st + unat (acc_Balance ?r)"
    using supply_old[OF assms(6), of ?r] by simp
  moreover have "total_supply st' + unat (acc_Balance s) = total_supply st1 + unat (acc_Balance (debit s (?a + gas * tx_GasPrice tsx)))"
    using supply_old[OF st1(2)] st' by simp
  ultimately show ?thesis using ok(2-4) b1 b2 by simp
qed

definition with_contract :: AccountStates where
  "with_contract = [(FirstUser, new_account FirstUser 1000000),
     (bob, (new_account bob 10)\<lparr>acc_Instructions := replicate 3 (MakeInstruction STOP)\<rparr>)]"

lemma stop_call:
  "\<exists>r. StartExecution ((NewRuntimeWithIC 30000 (replicate 3 (MakeInstruction STOP)) ctx 2)\<lparr>Persistent := []\<rparr>)
     = Some (r, 0, Some ErrProgramStopped)"
proof -
  let ?r = "(NewRuntimeWithIC 30000 (replicate 3 (MakeInstruction STOP)) ctx 2)\<lparr>Persistent := []\<rparr>"
  have "ExecuteInstruction ?r = Some (?r, Some ErrProgramStopped)"
    by (simp add: ExecuteInstruction_def NewRuntimeWithIC_def numeral_3_eq_3 MakeInstruction_def ValidateInstruction_def
        Valid_def LAST_def gas_price_def op_STOP_def finish_op_def Let_def)
  then have "run ?r = Some (?r, Some ErrProgramStopped)"
    by (subst run.simps) (simp add: NewRuntimeWithIC_def)
  then show ?thesis by (simp add: StartExecution_def NewRuntimeWithIC_def NewStack_def)
qed

lemma stop_call_applied: "\<exists>st'. ApplyTransaction (Some ExecuteTransaction) (pay 30000 bob) with_contract = Some (st', 21000, None)"
proof -
  obtain r where r: "StartExecution ((NewRuntimeWithIC 30000 (replicate 3 (MakeInstruction STOP))
        (tx_context (pay 30000 bob) bob bob) 2)\<lparr>Persistent := []\<rparr>) = Some (r, 0, Some ErrProgramStopped)"
    using stop_call by blast
  have c: "tx_From (pay 30000 bob) = FirstUser" "tx_To (pay 30000 bob) = bob" "tx_Instructions (pay 30000 bob) = []"
      "tx_GasLimit (pay 30000 bob) = 30000" "tx_GasPrice (pay 30000 bob) = 1" "tx_Amount (pay 30000 bob) = 5"
      "data_gas (pay 30000 bob) = 0" by (simp_all add: pay_def data_gas_def)
  show ?thesis
    using FirstUser_not_zero r
    by (simp add: ApplyTransaction_def apply_transfer_def is_deployment_def c with_contract_def new_account_def
        ExecuteTransaction_def executeContractCall_def charge_sender_def SafeAdd_unat SafeSubtract_unat GasTransfer_def Let_def)
qed

theorem contract_call_mints_amount_witness:
  "\<exists>st'. ApplyTransaction (Some ExecuteTransaction) (pay 30000 bob) with_contract = Some (st', 21000, None) \<and>
     total_supply st' + 21000 = total_supply with_contract + 5"
proof -
  obtain st' where a: "ApplyTransaction (Some ExecuteTransaction) (pay 30000 bob) with_contract = Some (st', 21000, None)"
    using stop_call_applied by blast
  have "ValidateTransaction accept (pay 30000 bob) with_contract = None"
    using FirstUser_not_zero
    by (simp add: ValidateTransaction_def accept_def pay_def with_contract_def new_account_def is_deployment_def SafeAdd_unat)
  from contract_call_mints_amount[OF this _ _ _ _ _ _ _ a, of "(new_account bob 10)\<lparr>acc_Instructions := replicate 3 (MakeInstruction STOP)\<rparr>"] a
  show ?thesis
    using FirstUser_not_zero by (simp add: pay_def with_contract_def total_supply_def new_account_def)
qed

text \<open>
  A valid transaction to the zero address without code is accepted for nothing: applying it
  changes no account, not even the sender's nonce, so that it stays valid and can be included
  again and again; the gas it reports is the fixed transfer gas, whatever its limit, and counts
  towards the fees that the coinbase of the block may mint.
\<close>

theorem empty_transaction_free:
  assumes "ValidateTransaction verify tsx st = None" and "tx_From tsx \<noteq> zero32"
    and "tx_To tsx = zero32" and "tx_Instructions tsx = []"
  shows "ApplyTransaction executor tsx st = Some (st, GasTransfer, None)
    \<and> ValidateAndApplyTransaction verify executor tsx st = Some (st, True)"
proof -
  obtain s where "map_of st (tx_From tsx) = Some s" using ValidateTransaction_None[OF assms(1,2)] by metis
  with assms show ?thesis
    by (simp add: ApplyTransaction_def ValidateAndApplyTransaction_def is_deployment_def)
qed

theorem empty_transaction_free_witness:
  "ApplyTransaction None (pay 100 zero32) rich = Some (rich, GasTransfer, None)"
  using empty_transaction_free[OF accept_pay(2), where executor = None] FirstUser_not_zero by (simp add: pay_def)

text \<open>
  A plain transfer whose gas limit is below the gas it needs passes validation and then fails
  in \<open>ApplyTransaction\<close> after the recipient has been credited and before the sender is debited: the
  call reports the error, and the map it was given holds the amount more than before.
\<close>

theorem underfunded_transfer_mints:
  assumes "plain_transfer tsx st" and "ValidateTransaction verify tsx st = None"
    and "total_supply st < 2 ^ 63" and "transfer_gas tsx > tx_GasLimit tsx"
  shows "\<exists>st'. ValidateAndApplyTransaction verify executor tsx st = Some (st', False)
    \<and> ApplyTransaction executor tsx st = Some (st', transfer_gas tsx, Some GasLimitExceeded)
    \<and> map_of st' (tx_From tsx) = map_of (credited tsx st) (tx_From tsx)
    \<and> total_supply st' = total_supply st + unat (tx_Amount tsx)"
proof -
  have from0: "tx_From tsx \<noteq> zero32" "tx_To tsx \<noteq> zero32" "\<not> is_deployment tsx"
    using assms(1) by (auto simp: plain_transfer_def is_deployment_def)
  obtain s where s: "map_of st (tx_From tsx) = Some s"
    and "unat (tx_Amount tsx) + max_gas_cost tsx + (if is_deployment tsx then unat ContractDeploymentFee else 0) \<le> unat (acc_Balance s)"
    using ValidateTransaction_None[OF assms(2) from0(1)] by metis
  then have c: "unat (tx_Amount tsx) + max_gas_cost tsx \<le> unat (acc_Balance s)" using from0(3) by simp
  note t = transfer_applies[OF assms(1) s c assms(3)]
  have "ApplyTransaction executor tsx st = Some (credited tsx st, transfer_gas tsx, Some GasLimitExceeded)"
    using from0 s t(1) assms(4) by (simp add: ApplyTransaction_def charge_sender_def)
  with t(3) assms(2) show ?thesis by (simp add: ValidateAndApplyTransaction_def)
qed

theorem underfunded_transfer_mints_witness:
  "\<exists>st'. ValidateAndApplyTransaction accept None (pay 100 bob) rich = Some (st', False) \<and> total_supply st' = 1000005"
proof -
  have "transfer_gas (pay 100 bob) > tx_GasLimit (pay 100 bob)" by (simp add: pay_plain(2)) (simp add: pay_def)
  from underfunded_transfer_mints[where executor = None, OF pay_plain(1) accept_pay(2) _ this] show ?thesis
    by (auto simp: rich_supply) (auto simp: pay_def)
qed

text \<open>
  A transaction from the zero address needs no signature, no account and no gas, and it mints
  its amount wherever it stands in a block: it is valid for every verifier, and applying it raises
  the sum of all balances by exactly its amount.
\<close>

theorem coinbase_always_valid_and_mints:
  assumes "tx_From tsx = zero32" and "total_supply st + unat (tx_Amount tsx) < 2 ^ 64"
  shows "\<exists>st'. ValidateTransaction verify tsx st = None
    \<and> ApplyTransaction executor tsx st = Some (st', 0, None)
    \<and> total_supply st' = total_supply st + unat (tx_Amount tsx)"
proof (cases "map_of st (tx_To tsx)")
  case None
  then show ?thesis
    using assms(1) supply_new[OF None, of "new_account (tx_To tsx) (tx_Amount tsx)"]
    by (simp add: ValidateTransaction_def ApplyTransaction_def apply_coinbase_def new_account_def)
next
  case (Some r)
  then have lt: "unat (acc_Balance r) + unat (tx_Amount tsx) < 2 ^ 64"
    using assms(2) supply_member[OF Some] by simp
  then show ?thesis
    using assms(1) Some supply_old[OF Some, of "r\<lparr>acc_Balance := acc_Balance r + tx_Amount tsx\<rparr>"]
    by (simp add: ValidateTransaction_def ApplyTransaction_def apply_coinbase_def SafeAdd_unat unat_add_exact)
qed

theorem coinbase_always_valid_and_mints_witness:
  "\<exists>st'. ApplyTransaction None ((pay 0 bob)\<lparr>tx_From := zero32, tx_Amount := 77\<rparr>) rich = Some (st', 0, None) \<and> total_supply st' = 1000077"
  using coinbase_always_valid_and_mints[of "(pay 0 bob)\<lparr>tx_From := zero32, tx_Amount := 77\<rparr>" rich accept None]
  by (simp add: rich_supply)

text \<open>
  C25. The gas that a successful transaction reports is within its gas limit, whatever its code
  does, for every transaction that is not one of the two kinds that pay nothing.
\<close>

theorem applied_gas_within_limit:
  assumes "ApplyTransaction (Some ExecuteTransaction) tsx st = Some (st', gas, None)"
    and "tx_From tsx \<noteq> zero32" and "tx_To tsx \<noteq> zero32 \<or> tx_Instructions tsx \<noteq> []"
  shows "gas \<le> tx_GasLimit tsx"
  using impl.apply_gas[OF assms] .

theorem applied_gas_within_limit_witness: "(21000 :: u64) \<le> tx_GasLimit (pay 30000 bob)"
proof -
  obtain st' where a: "ApplyTransaction (Some ExecuteTransaction) (pay 30000 bob) with_contract = Some (st', 21000, None)"
    using stop_call_applied by blast
  from applied_gas_within_limit[OF this] show ?thesis using FirstUser_not_zero by (simp add: pay_def)
qed

end
