(* ===== verification/Mempool.thy ===== *)
theory Mempool
  imports Go_Heap Tx_Properties
begin

text \<open>
  \<open>src/node/mempool.go\<close>: the pool of pending transactions, a priority queue by gas price beside a
  map from hash to entry. Each method holds the lock of the pool throughout and is one step. Times
  are in nanoseconds and \<open>time.Now()\<close> is the argument \<open>now\<close>; a pointer to an entry, which is never
  updated, is the entry. Hashes are byte lists where the code has strings of the same bytes.
\<close>

section \<open>The pool\<close>

record MempoolEntry =
  ent_Transaction :: Transaction
  ent_AddedAt :: int
  ent_GasPrice :: u64

text \<open>\<open>GasPriceQueue.Less\<close>: the higher price first, then the older entry.\<close>

definition entry_Less :: "MempoolEntry \<Rightarrow> MempoolEntry \<Rightarrow> bool" where
  "entry_Less a b =
     (if ent_GasPrice a \<noteq> ent_GasPrice b then ent_GasPrice a > ent_GasPrice b
      else ent_AddedAt a < ent_AddedAt b)"

record Mempool =
  mp_queue :: "MempoolEntry list"
  mp_transactions :: "(Hash32, MempoolEntry) gomap"

definition NewMempool :: Mempool where
  "NewMempool = \<lparr>mp_queue = heap_Init entry_Less [], mp_transactions = []\<rparr>"

definition rebuildHeap :: "Mempool \<Rightarrow> Mempool" where
  "rebuildHeap mp = mp\<lparr>mp_queue := heap_Init entry_Less (map snd (mp_transactions mp))\<rparr>"

text \<open>The search for the lowest price: position \<open>i\<close>, and the position and price found so far.\<close>

fun find_lowest :: "MempoolEntry list \<Rightarrow> nat \<Rightarrow> MempoolEntry list \<Rightarrow> nat \<Rightarrow> u64 \<Rightarrow> nat" where
  "find_lowest queue i [] lowestIdx lowestGasPrice = lowestIdx"
| "find_lowest queue i (entry # entries) lowestIdx lowestGasPrice =
     (if ent_GasPrice entry < lowestGasPrice \<or>
         (ent_GasPrice entry = lowestGasPrice \<and> ent_AddedAt entry > ent_AddedAt (queue ! lowestIdx))
      then find_lowest queue (i + 1) entries i (ent_GasPrice entry)
      else find_lowest queue (i + 1) entries lowestIdx lowestGasPrice)"

definition removeLowestGasPrice :: "Mempool \<Rightarrow> Mempool" where
  "removeLowestGasPrice mp =
     (let queue = mp_queue mp in
      if length queue = 0 then mp
      else let lowestIdx = find_lowest queue 0 queue 0 (ent_GasPrice (queue ! 0));
               lowestEntry = queue ! lowestIdx;
               transactions = go_delete (Transaction_GetHash (ent_Transaction lowestEntry)) (mp_transactions mp);
               lastIdx = length queue - 1
           in if lowestIdx \<noteq> lastIdx
              then \<lparr>mp_queue = heap_Fix entry_Less (take lastIdx (queue[lowestIdx := queue ! lastIdx])) lowestIdx,
                    mp_transactions = transactions\<rparr>
              else \<lparr>mp_queue = take lastIdx queue, mp_transactions = transactions\<rparr>)"

definition AddTransaction :: "int \<Rightarrow> Transaction \<Rightarrow> Mempool \<Rightarrow> Mempool \<times> bool" where
  "AddTransaction now tx mp =
     (let hash = Transaction_GetHash tx;
          entry = \<lparr>ent_Transaction = tx, ent_AddedAt = now, ent_GasPrice = tx_GasPrice tx\<rparr>;
          add = (\<lambda>mp. (mp\<lparr>mp_queue := heap_Push entry_Less (mp_queue mp) entry,
                         mp_transactions := go_store hash entry (mp_transactions mp)\<rparr>, True))
      in if map_of (mp_transactions mp) hash \<noteq> None then (mp, False)
         else if length (mp_transactions mp) \<ge> MempoolMaxSize \<and> length (mp_queue mp) > 0
         then (if tx_GasPrice tx \<le> ent_GasPrice (mp_queue mp ! (length (mp_queue mp) - 1)) then (mp, False)
               else add (removeLowestGasPrice mp))
         else add mp)"

definition cleanExpiredTransactions :: "int \<Rightarrow> Mempool \<Rightarrow> Mempool \<times> nat" where
  "cleanExpiredTransactions now mp =
     (let kept = filter (\<lambda>(hash, entry). \<not> now - ent_AddedAt entry > MempoolMaxExpiry) (mp_transactions mp);
          removed = length (mp_transactions mp) - length kept;
          mp = mp\<lparr>mp_transactions := kept\<rparr>
      in (if removed > 0 then rebuildHeap mp else mp, removed))"

definition CleanExpiredTransactions :: "int \<Rightarrow> Mempool \<Rightarrow> Mempool \<times> nat" where
  "CleanExpiredTransactions now mp = cleanExpiredTransactions now mp"

definition GetTransactions :: "int \<Rightarrow> int \<Rightarrow> Mempool \<Rightarrow> Mempool \<times> Transaction list" where
  "GetTransactions now limit mp =
     (let mp = fst (cleanExpiredTransactions now mp);
          count = (if limit > int (length (mp_queue mp)) then int (length (mp_queue mp)) else limit);
          entries = fst (drain (heap_Pop entry_Less) (nat count) (mp_queue mp))
      in (mp, map ent_Transaction entries))"

fun remove_all :: "Transaction list \<Rightarrow> (Hash32, MempoolEntry) gomap \<Rightarrow> nat \<Rightarrow> (Hash32, MempoolEntry) gomap \<times> nat" where
  "remove_all [] m removed = (m, removed)"
| "remove_all (tx # txs) m removed =
     (let hash = Transaction_GetHash tx in
      if map_of m hash \<noteq> None then remove_all txs (go_delete hash m) (removed + 1) else remove_all txs m removed)"

definition RemoveTransactions :: "Transaction list \<Rightarrow> Mempool \<Rightarrow> Mempool \<times> nat" where
  "RemoveTransactions transactions mp =
     (case remove_all transactions (mp_transactions mp) 0 of
        (m, removed) \<Rightarrow> (rebuildHeap (mp\<lparr>mp_transactions := m\<rparr>), removed))"

definition mempool_Size :: "Mempool \<Rightarrow> nat" where
  "mempool_Size mp = length (mp_transactions mp)"

definition IsFull :: "Mempool \<Rightarrow> bool" where
  "IsFull mp \<longleftrightarrow> length (mp_transactions mp) \<ge> MempoolMaxSize"

definition RevalidateTransactions :: "verifier \<Rightarrow> AccountStates \<Rightarrow> Mempool \<Rightarrow> Mempool \<times> nat" where
  "RevalidateTransactions verify accountStates mp =
     (let kept = filter (\<lambda>(hash, entry). ValidateTransaction verify (ent_Transaction entry) accountStates = None)
            (mp_transactions mp);
          removed = length (mp_transactions mp) - length kept;
          mp = mp\<lparr>mp_transactions := kept\<rparr>
      in (if removed > 0 then rebuildHeap mp else mp, removed))"

section \<open>The queue\<close>

interpretation pq: priority entry_Less
  by unfold_locales (auto simp: entry_Less_def split: if_splits)

section \<open>The invariant\<close>

definition entry_ok :: "Hash32 \<times> MempoolEntry \<Rightarrow> bool" where
  "entry_ok p \<longleftrightarrow> fst p = Transaction_GetHash (ent_Transaction (snd p)) \<and>
     ent_GasPrice (snd p) = tx_GasPrice (ent_Transaction (snd p))"

text \<open>
  The queue is a heap of exactly the entries of the map, entries are filed under the hash of their
  transaction and carry its gas price, and the pool is within its size.
\<close>

definition mempool_ok :: "Mempool \<Rightarrow> bool" where
  "mempool_ok mp \<longleftrightarrow> is_heap entry_Less (mp_queue mp) \<and>
     mset (mp_queue mp) = mset (map snd (mp_transactions mp)) \<and>
     distinct (go_keys (mp_transactions mp)) \<and> list_all entry_ok (mp_transactions mp) \<and>
     length (mp_transactions mp) \<le> MempoolMaxSize"

lemma NewMempool_ok: "mempool_ok NewMempool"
  by (simp add: mempool_ok_def NewMempool_def heap_Init_def heap_from_def)

lemma rebuildHeap_ok:
  "distinct (go_keys (mp_transactions mp)) \<Longrightarrow> list_all entry_ok (mp_transactions mp) \<Longrightarrow>
     length (mp_transactions mp) \<le> MempoolMaxSize \<Longrightarrow> mempool_ok (rebuildHeap mp)"
  by (simp add: mempool_ok_def rebuildHeap_def pq.is_heap_Init)

text \<open>Both cleaning operations keep the entries that satisfy a predicate.\<close>

lemma filtered_ok:
  assumes "mempool_ok mp" and "kept = filter P (mp_transactions mp)"
  shows "mempool_ok (if length (mp_transactions mp) - length kept > 0 then rebuildHeap (mp\<lparr>mp_transactions := kept\<rparr>)
           else mp\<lparr>mp_transactions := kept\<rparr>)"
proof (cases "length kept < length (mp_transactions mp)")
  case True
  have "length kept \<le> length (mp_transactions mp)" by (simp add: assms(2))
  moreover have "distinct (go_keys kept)" "list_all entry_ok kept"
    using assms by (auto simp: mempool_ok_def distinct_map_filter list_all_iff)
  moreover have "length (mp_transactions mp) \<le> MempoolMaxSize" using assms(1) by (simp add: mempool_ok_def)
  ultimately have "mempool_ok (rebuildHeap (mp\<lparr>mp_transactions := kept\<rparr>))" by (intro rebuildHeap_ok) simp_all
  then show ?thesis using True by simp
next
  case False
  then have "kept = mp_transactions mp" using assms(2) by (metis length_filter_less filter_True)
  then show ?thesis using assms(1) by simp
qed

lemma find_lowest_min:
  assumes "es = drop i q" "li < length q" "\<And>j. j < i \<Longrightarrow> j < length q \<Longrightarrow> lp \<le> ent_GasPrice (q ! j)" "lp = ent_GasPrice (q ! li)"
  shows "find_lowest q i es li lp < length q \<and>
    (\<forall>j<length q. ent_GasPrice (q ! find_lowest q i es li lp) \<le> ent_GasPrice (q ! j))"
  using assms
proof (induction es arbitrary: i li lp)
  case Nil
  then show ?case by auto
next
  case (Cons e es)
  have i: "i < length q" using Cons.prems(1) by (metis drop_eq_Nil2 list.distinct(1) not_less)
  with Cons.prems(1) have e: "e = q ! i" "es = drop (i + 1) q" by (simp_all add: Cons_nth_drop_Suc[symmetric])
  show ?case
  proof (cases "ent_GasPrice e < lp \<or> (ent_GasPrice e = lp \<and> ent_AddedAt e > ent_AddedAt (q ! li))")
    case True
    have "ent_GasPrice e \<le> ent_GasPrice (q ! j)" if "j < i + 1" "j < length q" for j
      using Cons.prems(3)[of j] that e(1) True by (cases "j = i") auto
    from Cons.IH[OF e(2) i this] e(1) True show ?thesis by simp
  next
    case False
    have "lp \<le> ent_GasPrice (q ! j)" if "j < i + 1" "j < length q" for j
      using Cons.prems(3)[of j] that e(1) False by (cases "j = i") auto
    moreover have "find_lowest q i (e # es) li lp = find_lowest q (i + 1) es li lp" using False by auto
    ultimately show ?thesis using Cons.IH[OF e(2) Cons.prems(2) _ Cons.prems(4)] by presburger
  qed
qed

lemma lowest_in_queue:
  assumes "q \<noteq> []" and "l = find_lowest q 0 q 0 (ent_GasPrice (q ! 0))"
  shows "l < length q" and "e \<in> set q \<Longrightarrow> ent_GasPrice (q ! l) \<le> ent_GasPrice e"
  using find_lowest_min[of q 0 q 0 "ent_GasPrice (q ! 0)"] assms by (auto simp: in_set_conv_nth)

text \<open>Taking one element out of the heap.\<close>

lemma heap_remove:
  assumes h: "is_heap entry_Less q" and l: "l < length q - 1" and q': "q' = take (length q - 1) (q[l := q ! (length q - 1)])"
  shows "is_heap entry_Less (heap_Fix entry_Less q' l)" and "add_mset (q ! l) (mset (heap_Fix entry_Less q' l)) = mset q"
proof -
  let ?n = "length q - 1"
  have len: "length q' = ?n" using q' by simp
  have nth: "q' ! c = (if c = l then q ! ?n else q ! c)" if "c < ?n" for c using that l q' by simp
  have heap: "\<not> entry_Less (q ! c) (q ! parent c)" if "0 < c" "c < length q" for c using h that by (simp add: heap_from_def)
  show "is_heap entry_Less (heap_Fix entry_Less q' l)"
  proof (rule pq.is_heap_Fix)
    show "\<not> entry_Less (q' ! c) (q' ! parent c)" if "0 < c" "c < length q'" "c \<noteq> l" "parent c \<noteq> l" for c
    proof -
      have "c < ?n" "parent c < ?n" using that len by auto
      with that heap[of c] show ?thesis unfolding nth[OF \<open>c < ?n\<close>] nth[OF \<open>parent c < ?n\<close>] by simp
    qed
    show "\<not> entry_Less (q' ! c) (q' ! parent l)" if "0 < c" "c < length q'" "parent c = l" "0 < l" for c
    proof -
      have "c < ?n" "parent l < ?n" "c \<noteq> l" "parent l \<noteq> l" using that len l by auto
      moreover have "\<not> entry_Less (q ! c) (q ! parent l)"
        using pq.not_less_trans[of "q ! c" "q ! l" "q ! parent l"] heap[of c] heap[of l] that l len by simp
      ultimately show ?thesis unfolding nth[OF \<open>c < ?n\<close>] nth[OF \<open>parent l < ?n\<close>] by simp
    qed
  qed (use l len in simp)
  have ne: "q \<noteq> []" using l by auto
  then have "q' = (butlast q)[l := last q]" using l q' by (simp add: take_update_swap butlast_conv_take last_conv_nth)
  then have "add_mset (q ! l) (mset q') = add_mset (last q) (mset (butlast q))"
    using l nth_mem[of l "butlast q"] by (simp add: mset_update nth_butlast)
  then show "add_mset (q ! l) (mset (heap_Fix entry_Less q' l)) = mset q"
    using ne l len by (simp add: heap_Fix_mset) (metis append_butlast_last_id mset.simps(2) mset_append union_mset_add_mset_right empty_neutral(2) mset.simps(1))
qed

lemma map_delete_mset:
  assumes "distinct (go_keys m)" "(k, e) \<in> set m"
  shows "add_mset e (mset (map snd (go_delete k m))) = mset (map snd m)"
  using assms
proof (induction m)
  case (Cons p m)
  then show ?case using go_delete_new[of k m] by (cases p) (auto simp: image_iff)
qed simp

lemma removeLowest_ok:
  assumes ok: "mempool_ok mp" and ne: "mp_queue mp \<noteq> []"
  obtains e where "e \<in> set (mp_queue mp)" "\<And>e'. e' \<in> set (mp_queue mp) \<Longrightarrow> ent_GasPrice e \<le> ent_GasPrice e'"
    and "mempool_ok (removeLowestGasPrice mp)"
    and "mp_transactions (removeLowestGasPrice mp) = go_delete (Transaction_GetHash (ent_Transaction e)) (mp_transactions mp)"
    and "length (mp_transactions (removeLowestGasPrice mp)) < length (mp_transactions mp)"
proof -
  let ?q = "mp_queue mp" and ?m = "mp_transactions mp"
  define l where "l = find_lowest ?q 0 ?q 0 (ent_GasPrice (?q ! 0))"
  note low = lowest_in_queue[OF ne l_def]
  let ?e = "?q ! l" and ?r = "removeLowestGasPrice mp"
  let ?h = "Transaction_GetHash (ent_Transaction ?e)"
  have m: "mset ?q = mset (map snd ?m)" "distinct (go_keys ?m)" "list_all entry_ok ?m" "is_heap entry_Less ?q" "length ?m \<le> MempoolMaxSize"
    using ok by (simp_all add: mempool_ok_def)
  have e: "?e \<in> set ?q" using low(1) by simp
  then have "?e \<in> snd ` set ?m" using m(1) by (metis list.set_map set_mset_mset)
  then have "(?h, ?e) \<in> set ?m" using m(3) by (auto simp: list_all_iff entry_ok_def)
  note del = map_delete_mset[OF m(2) this]
  have tr: "mp_transactions ?r = go_delete ?h ?m"
    using ne by (simp add: removeLowestGasPrice_def Let_def l_def[symmetric])
  have qu: "is_heap entry_Less (mp_queue ?r) \<and> add_mset ?e (mset (mp_queue ?r)) = mset ?q"
  proof (cases "l = length ?q - 1")
    case True
    then have "mp_queue ?r = butlast ?q" using ne by (simp add: removeLowestGasPrice_def Let_def l_def[symmetric] butlast_conv_take)
    moreover have "?e = last ?q" using True ne by (simp add: last_conv_nth)
    moreover have "is_heap entry_Less (butlast ?q)" using m(4) by (auto simp: heap_from_def nth_butlast)
    ultimately show ?thesis using ne by (metis append_butlast_last_id mset.simps(1) mset.simps(2) mset_append union_mset_add_mset_right empty_neutral(2))
  next
    case False
    then have "l < length ?q - 1" using low(1) by simp
    from heap_remove[OF m(4) this refl] False ne show ?thesis
      by (simp add: removeLowestGasPrice_def Let_def l_def[symmetric])
  qed
  have "mset (mp_queue ?r) = mset (map snd (mp_transactions ?r))" using qu del m(1) tr by (metis add_mset_add_mset_same_iff)
  moreover have "length (mp_transactions ?r) < length ?m" using arg_cong[OF del, of size] tr by simp
  moreover have "distinct (go_keys (mp_transactions ?r))" "list_all entry_ok (mp_transactions ?r)"
    using m(2,3) tr distinct_delete[OF m(2)] by (simp, auto simp: list_all_iff AList.delete_eq)
  ultimately have "mempool_ok ?r" using qu m(5) by (simp add: mempool_ok_def)
  with e low tr \<open>length (mp_transactions ?r) < length ?m\<close> show thesis by (intro that[of ?e]) auto
qed

lemma add_ok:
  assumes ok: "mempool_ok mp" and fresh: "map_of (mp_transactions mp) (Transaction_GetHash tx) = None"
    and room: "length (mp_transactions mp) < MempoolMaxSize"
    and e: "e = \<lparr>ent_Transaction = tx, ent_AddedAt = now, ent_GasPrice = tx_GasPrice tx\<rparr>"
  shows "mempool_ok (mp\<lparr>mp_queue := heap_Push entry_Less (mp_queue mp) e,
           mp_transactions := go_store (Transaction_GetHash tx) e (mp_transactions mp)\<rparr>)"
proof -
  let ?m = "mp_transactions mp" and ?k = "Transaction_GetHash tx"
  have k: "?k \<notin> fst ` set ?m" using fresh by (simp add: map_of_eq_None_iff)
  note st = go_store_new[OF k, of e]
  have "entry_ok (?k, e)" by (simp add: entry_ok_def e)
  then show ?thesis using ok room pq.is_heap_Push k by (auto simp: mempool_ok_def st)
qed

text \<open>The three ways \<open>AddTransaction\<close> ends: rejected, added, and added in place of a cheapest entry.\<close>

lemma AddTransaction_cases:
  assumes ok: "mempool_ok mp" and add: "AddTransaction now tx mp = (mp', b)"
    and e: "e = \<lparr>ent_Transaction = tx, ent_AddedAt = now, ent_GasPrice = tx_GasPrice tx\<rparr>"
  obtains (rejected) "\<not> b" "mp' = mp"
  | (added) "b" "length (mp_transactions mp) < MempoolMaxSize" "mempool_ok mp'"
      "map_of (mp_transactions mp) (Transaction_GetHash tx) = None"
      "mp_transactions mp' = go_store (Transaction_GetHash tx) e (mp_transactions mp)"
  | (replaced) x where "b" "length (mp_transactions mp) = MempoolMaxSize" "mempool_ok mp'"
      "map_of (mp_transactions mp) (Transaction_GetHash tx) = None"
      "x \<in> set (mp_queue mp)" "\<And>y. y \<in> set (mp_queue mp) \<Longrightarrow> ent_GasPrice x \<le> ent_GasPrice y" "ent_GasPrice x < tx_GasPrice tx"
      "mp_transactions mp' = go_store (Transaction_GetHash tx) e (go_delete (Transaction_GetHash (ent_Transaction x)) (mp_transactions mp))"
proof -
  let ?m = "mp_transactions mp" and ?q = "mp_queue mp" and ?k = "Transaction_GetHash tx"
  let ?add = "\<lambda>mp. mp\<lparr>mp_queue := heap_Push entry_Less (mp_queue mp) e, mp_transactions := go_store ?k e (mp_transactions mp)\<rparr>"
  have len: "length ?q = length ?m" 
    using ok by (metis mempool_ok_def size_mset length_map)
  then have qe: "?q = [] \<longleftrightarrow> ?m = []" by auto
  have max: "length ?m \<le> MempoolMaxSize" "MempoolMaxSize > 0" using ok by (simp_all add: mempool_ok_def MempoolMaxSize_def)
  consider "b = False" "mp' = mp"
    | "map_of ?m ?k = None" "length ?m < MempoolMaxSize" "b" "mp' = ?add mp"
    | "map_of ?m ?k = None" "length ?m = MempoolMaxSize" "b" "mp' = ?add (removeLowestGasPrice mp)"
        "?q \<noteq> []" "ent_GasPrice (?q ! (length ?q - 1)) < tx_GasPrice tx"
    using add max len qe unfolding AddTransaction_def Let_def e[symmetric] by (fastforce simp: not_le split: if_splits)
  then show thesis
  proof cases
    case 1
    then show ?thesis by (intro rejected) auto
  next
    case 2
    with add_ok[OF ok 2(1,2) e] show ?thesis by (intro added) auto
  next
    case 3
    obtain x where x: "x \<in> set ?q" "\<And>y. y \<in> set ?q \<Longrightarrow> ent_GasPrice x \<le> ent_GasPrice y"
      "mempool_ok (removeLowestGasPrice mp)"
      "mp_transactions (removeLowestGasPrice mp) = go_delete (Transaction_GetHash (ent_Transaction x)) ?m"
      "length (mp_transactions (removeLowestGasPrice mp)) < length ?m"
      using removeLowest_ok[OF ok 3(5)] by metis
    have "map_of (mp_transactions (removeLowestGasPrice mp)) ?k = None" using 3(1) x(4) by (simp add: AList.delete_conv')
    from add_ok[OF x(3) this _ e] x(5) max have "mempool_ok mp'" by (simp add: 3(4))
    moreover have "ent_GasPrice x < tx_GasPrice tx" using x(2)[of "?q ! (length ?q - 1)"] 3(5,6) by auto
    ultimately show ?thesis using 3 x by (intro replaced[of x]) auto
  qed
qed

lemma AddTransaction_ok: "mempool_ok mp \<Longrightarrow> mempool_ok (fst (AddTransaction now tx mp))"
  by (cases "AddTransaction now tx mp") (auto elim: AddTransaction_cases[OF _ _ refl])

lemma remove_all_kept:
  "remove_all txs m n = (m', n') \<Longrightarrow> m' = filter (\<lambda>(k, e). k \<notin> Transaction_GetHash ` set txs) m"
proof (induction txs arbitrary: m n)
  case Nil
  then show ?case by simp
next
  case (Cons tx txs)
  have "map_of m k = None \<Longrightarrow> go_delete k m = m" for k using go_delete_new[of k m] by (simp add: map_of_eq_None_iff)
  then have "\<exists>n. remove_all txs (go_delete (Transaction_GetHash tx) m) n = (m', n')"
    using Cons.prems by (auto simp: Let_def split: if_splits)
  with Cons.IH have "m' = filter (\<lambda>(k, e). k \<notin> Transaction_GetHash ` set txs) (go_delete (Transaction_GetHash tx) m)" by blast
  then show ?case by (simp add: AList.delete_eq) (rule filter_cong, auto)
qed

lemma RemoveTransactions_ok: "mempool_ok mp \<Longrightarrow> mempool_ok (fst (RemoveTransactions txs mp))"
proof -
  assume ok: "mempool_ok mp"
  obtain m n where r: "remove_all txs (mp_transactions mp) 0 = (m, n)" by fastforce
  note m = remove_all_kept[OF r]
  have "mempool_ok (rebuildHeap (mp\<lparr>mp_transactions := m\<rparr>))"
    using ok le_trans[OF length_filter_le] by (intro rebuildHeap_ok) (auto simp: m mempool_ok_def distinct_map_filter list_all_iff)
  then show ?thesis by (simp add: RemoveTransactions_def r)
qed

lemma clean_ok: "mempool_ok mp \<Longrightarrow> mempool_ok (fst (cleanExpiredTransactions now mp))"
  using filtered_ok[OF _ refl] by (simp add: cleanExpiredTransactions_def Let_def)

lemma RevalidateTransactions_ok: "mempool_ok mp \<Longrightarrow> mempool_ok (fst (RevalidateTransactions verify st mp))"
  using filtered_ok[OF _ refl] by (simp add: RevalidateTransactions_def Let_def)

section \<open>Reachable pools\<close>

inductive reachable_mempool :: "Mempool \<Rightarrow> bool" where
  new: "reachable_mempool NewMempool"
| add: "reachable_mempool mp \<Longrightarrow> reachable_mempool (fst (AddTransaction now tx mp))"
| get: "reachable_mempool mp \<Longrightarrow> reachable_mempool (fst (GetTransactions now limit mp))"
| remove: "reachable_mempool mp \<Longrightarrow> reachable_mempool (fst (RemoveTransactions txs mp))"
| clean: "reachable_mempool mp \<Longrightarrow> reachable_mempool (fst (CleanExpiredTransactions now mp))"
| revalidate: "reachable_mempool mp \<Longrightarrow> reachable_mempool (fst (RevalidateTransactions verify accountStates mp))"

lemma GetTransactions_fst: "fst (GetTransactions now limit mp) = fst (cleanExpiredTransactions now mp)"
  by (simp add: GetTransactions_def Let_def)

lemma reachable_mempool_ok: "reachable_mempool mp \<Longrightarrow> mempool_ok mp"
  by (induction rule: reachable_mempool.induct)
    (simp_all add: NewMempool_ok AddTransaction_ok GetTransactions_fst clean_ok RemoveTransactions_ok
      CleanExpiredTransactions_def RevalidateTransactions_ok)

section \<open>The pool as a map\<close>

text \<open>The abstract view: a finite map from hashes to entries, and what each operation does to it.\<close>

definition pool_abs :: "Mempool \<Rightarrow> (Hash32 \<rightharpoonup> MempoolEntry)" where
  "pool_abs mp = map_of (mp_transactions mp)"

definition map_restrict :: "('v \<Rightarrow> bool) \<Rightarrow> ('k \<rightharpoonup> 'v) \<Rightarrow> ('k \<rightharpoonup> 'v)" where
  "map_restrict P m = (\<lambda>k. case m k of None \<Rightarrow> None | Some v \<Rightarrow> if P v then Some v else None)"

lemma map_of_filter_values:
  "distinct (map fst xs) \<Longrightarrow> map_of (filter (\<lambda>(k, v). P v) xs) = map_restrict P (map_of xs)"
proof (induction xs)
  case (Cons p xs)
  obtain k v where p: "p = (k, v)" by fastforce
  then have "map_of xs k = None" using Cons.prems by (simp add: map_of_eq_None_iff)
  then show ?case using Cons p by (auto simp: map_restrict_def fun_eq_iff)
qed (simp add: map_restrict_def)

lemma map_of_filter_keys: "map_of (filter (\<lambda>(k, v). k \<notin> A) xs) = map_of xs |` (- A)"
  by (induction xs) (auto simp: restrict_map_def fun_eq_iff)

lemma remove_all_count: "distinct (map fst m) \<Longrightarrow> remove_all txs m n = (m', n') \<Longrightarrow> n' + length m' = n + length m"
proof (induction txs arbitrary: m n)
  case (Cons tx txs)
  let ?k = "Transaction_GetHash tx"
  show ?case
  proof (cases "map_of m ?k")
    case None
    then have "remove_all (tx # txs) m n = remove_all txs m n" by (simp only: remove_all.simps Let_def simp_thms if_False)
    then show ?thesis using Cons by simp
  next
    case (Some e)
    from map_delete_mset[OF Cons.prems(1) map_of_SomeD[OF Some]] have "length m = Suc (length (go_delete ?k m))"
      by (metis length_map mset.simps(2) size_add_mset size_mset)
    with Cons.IH[OF distinct_delete[OF Cons.prems(1)]] Cons.prems(2) Some show ?thesis by (auto simp: Let_def)
  qed
qed simp

lemma Size_card: "mempool_ok mp \<Longrightarrow> mempool_Size mp = card (dom (pool_abs mp))"
  using distinct_card[of "go_keys (mp_transactions mp)"]
  by (simp add: mempool_Size_def pool_abs_def mempool_ok_def dom_map_of_conv_image_fst)

section \<open>Properties\<close>

text \<open>
  C29. However the pool has been used, its queue is a heap that holds exactly the entries of its map,
  every entry is filed under the hash of its transaction and carries its gas price, and there are
  never more than \<open>MempoolMaxSize\<close> entries.
\<close>

theorem mempool_invariant:
  assumes "reachable_mempool mp"
  shows "is_heap entry_Less (mp_queue mp) \<and> mset (mp_queue mp) = mset (map snd (mp_transactions mp)) \<and>
    distinct (go_keys (mp_transactions mp)) \<and>
    (\<forall>(k, e)\<in>set (mp_transactions mp). k = Transaction_GetHash (ent_Transaction e) \<and> ent_GasPrice e = tx_GasPrice (ent_Transaction e)) \<and>
    mempool_Size mp \<le> MempoolMaxSize"
  using reachable_mempool_ok[OF assms] unfolding mempool_ok_def mempool_Size_def list_all_iff entry_ok_def by auto

theorem mempool_invariant_witness:
  "is_heap entry_Less (mp_queue (fst (AddTransaction 5 (pay 1 bob) NewMempool))) \<and>
     mempool_Size (fst (AddTransaction 5 (pay 1 bob) NewMempool)) \<le> MempoolMaxSize"
  using mempool_invariant[OF reachable_mempool.add[OF reachable_mempool.new], of 5 "pay 1 bob"] by blast

text \<open>What \<open>GetTransactions\<close> takes and what it leaves.\<close>

lemma GetTransactions_split:
  assumes "mempool_ok mp" and "limit \<ge> 0"
  shows "\<exists>taken rest. snd (GetTransactions now limit mp) = map ent_Transaction taken
    \<and> mset taken + mset rest = mset (filter (\<lambda>e. now - ent_AddedAt e \<le> MempoolMaxExpiry) (map snd (mp_transactions mp)))
    \<and> length taken = min (nat limit) (length taken + length rest)
    \<and> sorted_wrt (\<lambda>x y. \<not> entry_Less y x) taken
    \<and> (\<forall>x\<in>set taken. \<forall>y\<in>set rest. ent_GasPrice y \<le> ent_GasPrice x)"
proof -
  let ?mp = "fst (cleanExpiredTransactions now mp)"
  let ?n = "nat (if limit > int (length (mp_queue ?mp)) then int (length (mp_queue ?mp)) else limit)"
  have ok: "mempool_ok ?mp" using assms(1) clean_ok by blast
  obtain taken rest where d: "drain (heap_Pop entry_Less) ?n (mp_queue ?mp) = (taken, rest)" by fastforce
  have heap: "is_heap entry_Less (mp_queue ?mp)" using ok by (simp add: mempool_ok_def)
  note best = pq.queue.drain_best[OF heap d]
  have "mp_transactions ?mp = filter (\<lambda>(k, e). \<not> now - ent_AddedAt e > MempoolMaxExpiry) (mp_transactions mp)"
    by (simp add: cleanExpiredTransactions_def Let_def rebuildHeap_def)
  then have "mset (mp_queue ?mp) = mset (filter (\<lambda>e. now - ent_AddedAt e \<le> MempoolMaxExpiry) (map snd (mp_transactions mp)))"
    using ok by (simp add: mempool_ok_def filter_map comp_def case_prod_beta not_less)
  moreover have sum: "mset (mp_queue ?mp) = mset taken + mset rest" using best by blast
  moreover have "length taken = min (nat limit) (length taken + length rest)"
  proof -
    have "length (mp_queue ?mp) = length taken + length rest" using arg_cong[OF sum, of size] by simp
    moreover have "length taken = min ?n (length (mp_queue ?mp))" using best by simp
    ultimately show ?thesis using assms(2) by (auto split: if_splits)
  qed
  moreover have "\<forall>x\<in>set taken. \<forall>y\<in>set rest. ent_GasPrice y \<le> ent_GasPrice x"
    using best by (fastforce simp: entry_Less_def split: if_splits)
  moreover have "snd (GetTransactions now limit mp) = map ent_Transaction taken"
    using d by (simp add: GetTransactions_def Let_def)
  moreover have "sorted_wrt (\<lambda>x y. \<not> entry_Less y x) taken" using best by blast
  ultimately show ?thesis by metis
qed

lemma GetTransactions_all:
  assumes "mempool_ok mp" "int MempoolMaxSize \<le> limit"
  shows "set (snd (GetTransactions now limit mp)) = ent_Transaction ` {e \<in> snd ` set (mp_transactions mp). now - ent_AddedAt e \<le> MempoolMaxExpiry}"
proof -
  let ?es = "filter (\<lambda>e. now - ent_AddedAt e \<le> MempoolMaxExpiry) (map snd (mp_transactions mp))"
  have l: "0 \<le> limit" using assms(2) by linarith
  from GetTransactions_split[OF assms(1) l, of now] obtain taken rest
    where t: "snd (GetTransactions now limit mp) = map ent_Transaction taken" "mset taken + mset rest = mset ?es"
      "length taken = min (nat limit) (length taken + length rest)" by blast
  have "length taken + length rest = length ?es" using arg_cong[OF t(2), of size] by (simp only: size_union size_mset)
  moreover have "length ?es \<le> MempoolMaxSize"
    using assms(1) length_filter_le[of _ "map snd (mp_transactions mp)"] le_trans unfolding mempool_ok_def length_map by blast
  ultimately have "rest = []" using t(3) assms(2) by auto
  with t(2) have "set taken = set ?es" by (metis add.right_neutral mset.simps(1) set_mset_mset)
  then show ?thesis by (simp add: t(1) image_image)
qed

text \<open>
  \<open>GetTransactions\<close> returns as many unexpired transactions as asked for, or all there are; they
  come in order of gas price, the older first among equals, and none that is left out precedes one
  that is returned.
\<close>

theorem GetTransactions_best:
  assumes "reachable_mempool mp" and "limit \<ge> 0"
  shows "\<exists>taken rest. snd (GetTransactions now limit mp) = map ent_Transaction taken
    \<and> mset taken + mset rest = mset (filter (\<lambda>e. now - ent_AddedAt e \<le> MempoolMaxExpiry) (map snd (mp_transactions mp)))
    \<and> length taken = min (nat limit) (length taken + length rest)
    \<and> sorted_wrt (\<lambda>x y. \<not> entry_Less y x) taken
    \<and> (\<forall>x\<in>set taken. \<forall>y\<in>set rest. ent_GasPrice y \<le> ent_GasPrice x)"
  by (rule GetTransactions_split[OF reachable_mempool_ok[OF assms(1)] assms(2)])

theorem GetTransactions_best_witness:
  "snd (GetTransactions 6 3 (fst (AddTransaction 5 (pay 1 bob) NewMempool))) = [pay 1 bob]"
proof -
  let ?e = "\<lparr>ent_Transaction = pay 1 bob, ent_AddedAt = 5, ent_GasPrice = tx_GasPrice (pay 1 bob)\<rparr>"
  let ?mp = "fst (AddTransaction 5 (pay 1 bob) NewMempool)"
  have m: "map snd (mp_transactions ?mp) = [?e]" by (simp add: AddTransaction_def NewMempool_def Let_def MempoolMaxSize_def)
  obtain taken rest where t: "snd (GetTransactions 6 3 ?mp) = map ent_Transaction taken" "mset taken + mset rest = {#?e#}"
      "length taken = min 3 (length taken + length rest)"
    using GetTransactions_best[OF reachable_mempool.add[OF reachable_mempool.new, of 5 "pay 1 bob"], of 3 6]
    unfolding m by (auto simp: MempoolMaxExpiry_def)
  have "length taken + length rest = 1" using arg_cong[OF t(2), of size] by simp
  with t(3) have "rest = []" by auto
  with t(2) have "taken = [?e]" by simp
  with t(1) show ?thesis by simp
qed

text \<open>
  C30. The pool implements a finite map from hashes to entries: adding, removing, expiring and
  revalidating act on the map as their names say, the counts returned are the sizes removed, and a
  full pool gives way only at an entry of the lowest price, and only to a higher one.
\<close>

theorem mempool_refines_map:
  assumes "reachable_mempool mp"
  shows "mempool_Size mp = card (dom (pool_abs mp))
    \<and> pool_abs (fst (RemoveTransactions txs mp)) = pool_abs mp |` (- Transaction_GetHash ` set txs)
    \<and> snd (RemoveTransactions txs mp) = mempool_Size mp - mempool_Size (fst (RemoveTransactions txs mp))
    \<and> pool_abs (fst (CleanExpiredTransactions now mp)) = map_restrict (\<lambda>e. now - ent_AddedAt e \<le> MempoolMaxExpiry) (pool_abs mp)
    \<and> pool_abs (fst (RevalidateTransactions verify st mp)) =
        map_restrict (\<lambda>e. ValidateTransaction verify (ent_Transaction e) st = None) (pool_abs mp)
    \<and> (case AddTransaction now tx mp of (mp', added) \<Rightarrow>
         let k = Transaction_GetHash tx; e = \<lparr>ent_Transaction = tx, ent_AddedAt = now, ent_GasPrice = tx_GasPrice tx\<rparr> in
         if \<not> added then mp' = mp
         else pool_abs mp k = None \<and>
           (if card (dom (pool_abs mp)) < MempoolMaxSize then pool_abs mp' = (pool_abs mp)(k \<mapsto> e)
            else \<exists>l x. pool_abs mp l = Some x \<and> (\<forall>y\<in>ran (pool_abs mp). ent_GasPrice x \<le> ent_GasPrice y) \<and>
              ent_GasPrice x < tx_GasPrice tx \<and> pool_abs mp' = (pool_abs mp)(l := None, k \<mapsto> e)))"
proof -
  note ok = reachable_mempool_ok[OF assms]
  let ?m = "mp_transactions mp"
  have d: "distinct (map fst ?m)" "list_all entry_ok ?m" "mset (mp_queue mp) = mset (map snd ?m)" using ok by (simp_all add: mempool_ok_def)
  obtain m n where r: "remove_all txs ?m 0 = (m, n)" by fastforce
  have rm: "pool_abs (fst (RemoveTransactions txs mp)) = pool_abs mp |` (- Transaction_GetHash ` set txs)"
    by (simp add: RemoveTransactions_def r rebuildHeap_def pool_abs_def remove_all_kept[OF r] map_of_filter_keys)
  have cnt: "snd (RemoveTransactions txs mp) = mempool_Size mp - mempool_Size (fst (RemoveTransactions txs mp))"
    using remove_all_count[OF d(1) r] by (simp add: RemoveTransactions_def r rebuildHeap_def mempool_Size_def)
  have cl: "pool_abs (fst (CleanExpiredTransactions now mp)) = map_restrict (\<lambda>e. now - ent_AddedAt e \<le> MempoolMaxExpiry) (pool_abs mp)"
    using map_of_filter_values[OF d(1), of "\<lambda>e. now - ent_AddedAt e \<le> MempoolMaxExpiry"]
    by (simp add: CleanExpiredTransactions_def cleanExpiredTransactions_def Let_def rebuildHeap_def pool_abs_def not_less)
  have rv: "pool_abs (fst (RevalidateTransactions verify st mp)) =
        map_restrict (\<lambda>e. ValidateTransaction verify (ent_Transaction e) st = None) (pool_abs mp)"
    using map_of_filter_values[OF d(1), of "\<lambda>e. ValidateTransaction verify (ent_Transaction e) st = None"]
    by (simp add: RevalidateTransactions_def Let_def rebuildHeap_def pool_abs_def)
  obtain mp' b where a: "AddTransaction now tx mp = (mp', b)" by fastforce
  have card: "length ?m = card (dom (pool_abs mp))" using Size_card[OF ok] by (simp add: mempool_Size_def)
  from ok a refl show ?thesis
  proof (cases rule: AddTransaction_cases)
    case (replaced x)
    have "x \<in> snd ` set ?m" using replaced(5) d(3) by (metis list.set_map set_mset_mset)
    then have "pool_abs mp (Transaction_GetHash (ent_Transaction x)) = Some x"
      using d(1,2) by (auto simp: pool_abs_def list_all_iff entry_ok_def)
    moreover have "ran (pool_abs mp) = set (mp_queue mp)"
      using d(1,3) by (metis pool_abs_def ran_distinct list.set_map set_mset_mset)
    ultimately show ?thesis using rm cnt cl rv a card replaced Size_card[OF ok]
      by (auto simp: Let_def pool_abs_def AList.delete_conv' intro!: exI[of _ "Transaction_GetHash (ent_Transaction x)"] exI[of _ x])
  qed (use rm cnt cl rv a card Size_card[OF ok] in \<open>auto simp: Let_def pool_abs_def\<close>)
qed

theorem mempool_refines_map_witness:
  "pool_abs (fst (RemoveTransactions [pay 1 bob] (fst (AddTransaction 5 (pay 1 bob) NewMempool)))) = Map.empty"
proof -
  let ?mp = "fst (AddTransaction 5 (pay 1 bob) NewMempool)"
  have "pool_abs ?mp = [Transaction_GetHash (pay 1 bob) \<mapsto>
      \<lparr>ent_Transaction = pay 1 bob, ent_AddedAt = 5, ent_GasPrice = tx_GasPrice (pay 1 bob)\<rparr>]"
    by (simp add: AddTransaction_def NewMempool_def Let_def MempoolMaxSize_def pool_abs_def)
  moreover have "pool_abs (fst (RemoveTransactions [pay 1 bob] ?mp)) = pool_abs ?mp |` (- {Transaction_GetHash (pay 1 bob)})"
    using mempool_refines_map[OF reachable_mempool.add[OF reachable_mempool.new, of 5 "pay 1 bob"], of "[pay 1 bob]"] by simp
  ultimately show ?thesis by simp
qed

end
