(* ===== verification/Difficulty.thy ===== *)
theory Difficulty
  imports Ledger
begin

text \<open>
  \<open>src/blockchain/difficulty.go\<close>, \<open>work.go\<close> and the nonce search of \<open>mining.go\<close>: the targets in
  compact form, their adjustment, the work of a block and of a chain as decimal text, and the
  proof of work. \<open>CalculateDifficulty\<close> is a \<open>big.Float\<close> for messages only and is not modelled.
\<close>

section \<open>Targets\<close>

text \<open>\<open>None\<close> is a panic: an index out of range, or a nil block of a height that is missing.\<close>

definition GetTargetBits :: "nat \<Rightarrow> Block option list \<Rightarrow> u32 option" where
  "GetTargetBits height blocks =
     (if height = 0 \<or> blocks = [] then Some GetTargetCompact
      else if height mod RecalculationFrequency \<noteq> 0 then map_option (\<lambda>b. hdr_Bits (blk_Header b)) (last blocks)
      else if length blocks < RecalculationFrequency then None
      else case (blocks ! (length blocks - RecalculationFrequency), last blocks) of
          (Some firstBlock, Some lastBlock) \<Rightarrow>
            (let actualTimespan = sint (hdr_Timestamp (blk_Header lastBlock) - hdr_Timestamp (blk_Header firstBlock));
                 actualTimespan = (if actualTimespan < TargetTimespan div MaxAdjustmentFactor
                                   then TargetTimespan div MaxAdjustmentFactor else actualTimespan);
                 actualTimespan = (if actualTimespan > TargetTimespan * MaxAdjustmentFactor
                                   then TargetTimespan * MaxAdjustmentFactor else actualTimespan);
                 currentTarget = CompactToBig (hdr_Bits (blk_Header lastBlock));
                 newTarget = currentTarget * actualTimespan div TargetTimespan;
                 maxTarget = CompactToBig GetTargetCompact;
                 newTarget = (if newTarget > maxTarget then maxTarget else newTarget)
             in Some (BigToCompact newTarget))
        | _ \<Rightarrow> None)"

definition GetBlockWork :: "u32 \<Rightarrow> int" where
  "GetBlockWork targetBits = 2 ^ 256 div (CompactToBig targetBits + 1)"

definition BlockHashMeetsDifficulty :: "Hash32 \<Rightarrow> u32 \<Rightarrow> bool" where
  "BlockHashMeetsDifficulty hash targetBits \<longleftrightarrow> big_SetBytes hash \<le> CompactToBig targetBits"

section \<open>Work as decimal text\<close>

definition getMaxTarget :: int where
  "getMaxTarget = big_SetString_value ''00000000FFFF0000000000000000000000000000000000000000000000000000'' 16"

text \<open>The difficulty is converted to \<open>int64\<close>; a result of \<open>-1\<close> for \<open>target\<close> divides by zero and panics.\<close>

definition CalculateBlockWork :: "u64 \<Rightarrow> int option" where
  "CalculateBlockWork difficulty =
     (if difficulty = 0 then Some 0
      else let d = sint difficulty;
               target = (if d > 0 then getMaxTarget div d else - (getMaxTarget div (- d)));
               denom = target + 1
           in if denom = 0 then None
              else Some (if denom > 0 then 2 ^ 256 div denom else - (2 ^ 256 div (- denom))))"

definition AddWork :: "string \<Rightarrow> string \<Rightarrow> string" where
  "AddWork work1Str work2Str =
     (let work1 = (if work1Str \<noteq> [] then big_SetString_value work1Str 10 else 0);
          work2 = (if work2Str \<noteq> [] then big_SetString_value work2Str 10 else 0)
      in big_String (work1 + work2))"

definition CalculateBlockWorkFromBits :: "u32 \<Rightarrow> string" where
  "CalculateBlockWorkFromBits targetBits =
     (let target = CompactToBig targetBits in big_String (2 ^ 256 div (target + 1)))"

definition CompareWork :: "string \<Rightarrow> string \<Rightarrow> int" where
  "CompareWork work1Str work2Str =
     (let work1 = big_SetString_value work1Str 10; work2 = big_SetString_value work2Str 10
      in if work1 < work2 then - 1 else if work1 = work2 then 0 else 1)"

section \<open>Mining a nonce\<close>

text \<open>The loop ends at the last nonce; started there, it wraps to 0 first.\<close>

function MineCorrectNonce :: "BlockHeader \<Rightarrow> u32 \<Rightarrow> u64 option" where
  "MineCorrectNonce header targetBits =
     (if BlockHashMeetsDifficulty (BlockHeader_GetHash header) targetBits then Some (hdr_Nonce header)
      else let header = header\<lparr>hdr_Nonce := hdr_Nonce header + 1\<rparr>
           in if hdr_Nonce header = not 0 then None
              else MineCorrectNonce header targetBits)"
  by pat_completeness auto
termination
proof (relation "measure (\<lambda>(h, t). unat (- 2 - hdr_Nonce h))")
  fix header header' :: BlockHeader and targetBits
  assume "header' = header\<lparr>hdr_Nonce := hdr_Nonce header + 1\<rparr>" "hdr_Nonce header' \<noteq> not 0"
  then have "hdr_Nonce header + 1 \<noteq> - 1" "hdr_Nonce header' = hdr_Nonce header + 1" by simp_all
  then have "- 2 - hdr_Nonce header \<noteq> 0" by auto
  then have "unat (- 2 - hdr_Nonce header - 1) < unat (- 2 - hdr_Nonce header)"
    by (rule measure_unat)
  then show "((header', targetBits), header, targetBits) \<in> measure (\<lambda>(h, t). unat (- 2 - hdr_Nonce h))"
    using \<open>hdr_Nonce header' = _\<close> by (simp add: algebra_simps)
qed simp

declare MineCorrectNonce.simps [simp del]

section \<open>The compact form\<close>

lemma take_bit_small: "uint (y :: u32) < 2 ^ k \<Longrightarrow> take_bit k y = y"
  by (metis take_bit_int_eq_self unsigned_greater_eq unsigned_take_bit_eq word_uint_eqI)

lemma compact_parts:
  fixes e m :: u32
  assumes "uint e < 2 ^ 8" "uint m < 2 ^ 23"
  shows "drop_bit 24 (or (push_bit 24 e) m) = e" "and (or (push_bit 24 e) m) 0x007fffff = m"
proof -
  have e: "take_bit 8 e = e" and m: "take_bit 23 m = m" using take_bit_small assms by blast+
  have "drop_bit 24 (or (push_bit 24 (take_bit 8 e)) (take_bit 23 m)) = take_bit 8 e"
    by (rule bit_word_eqI) (auto simp: bit_simps)
  then show "drop_bit 24 (or (push_bit 24 e) m) = e" by (simp add: e m)
  have k: "(0x007fffff :: u32) = mask 23" by (simp add: mask_eq_exp_minus_1)
  have "take_bit 23 (or (push_bit 24 e) (take_bit 23 m)) = take_bit 23 m"
    by (rule bit_word_eqI) (auto simp: bit_simps)
  then show "and (or (push_bit 24 e) m) 0x007fffff = m" by (simp add: m k take_bit_eq_mask [symmetric])
qed

lemma CompactToBig_parts:
  fixes e m :: u32
  assumes "uint e < 2 ^ 8" "uint m < 2 ^ 23"
  shows "CompactToBig (or (push_bit 24 e) m) =
    (if uint e > 3 then uint m * 256 ^ (nat (uint e) - 3) else uint m div 256 ^ (3 - nat (uint e)))"
proof -
  have p: "(2 :: int) ^ (8 * k) = 256 ^ k" for k by (simp add: power_mult)
  show ?thesis
    unfolding CompactToBig_def Let_def compact_parts[OF assms]
    by (simp add: word_less_def push_bit_eq_mult[of _ "uint m"] drop_bit_eq_div[of _ "uint m"] p)
qed

text \<open>The mantissa that \<open>BigToCompact\<close> reads off: the three leading bytes, zeros added at the end.\<close>

definition lead3 :: "byte list \<Rightarrow> u32" where
  "lead3 bs = (let m = (if length bs > 0 then push_bit 16 (ucast (bs ! 0)) else 0);
                   m = or m (if length bs > 1 then push_bit 8 (ucast (bs ! 1)) else 0)
               in or m (if length bs > 2 then ucast (bs ! 2) else 0))"

lemma or_disjoint:
  fixes x y :: u32
  assumes "uint y < 2 ^ k"
  shows "or (push_bit k x) y = push_bit k x + y"
proof -
  have "\<not> bit y n" if "k \<le> n" for n
    using that take_bit_small[OF assms] by (metis bit_take_bit_iff not_le)
  then show ?thesis by (intro disjunctive_add [symmetric]) (auto simp: bit_push_bit_iff)
qed

lemma uint_byte32 [simp]: "uint (ucast (b :: byte) :: u32) = uint b"
  using uint_byte_range[of b] by (simp add: unsigned_ucast_eq take_bit_int_eq_self)

lemma or_bytes: "uint (or (or (push_bit 16 (ucast a)) (push_bit 8 (ucast b))) (ucast c) :: u32)
    = uint (a :: byte) * 65536 + uint (b :: byte) * 256 + uint (c :: byte)"
proof -
  note r = uint_byte_range[of a] uint_byte_range[of b] uint_byte_range[of c]
  have bc: "or (push_bit 8 (ucast b)) (ucast c) = (push_bit 8 (ucast b) + ucast c :: u32)"
    using r by (intro or_disjoint) simp
  have "uint (push_bit 8 (ucast b) + ucast c :: u32) = uint b * 256 + uint c"
    using r by (simp add: push_bit_eq_mult uint_word_ariths)
  moreover from this have "or (push_bit 16 (ucast a)) (push_bit 8 (ucast b) + ucast c :: u32)
      = push_bit 16 (ucast a) + (push_bit 8 (ucast b) + ucast c)"
    using r by (intro or_disjoint) simp
  ultimately show ?thesis
    using r by (simp add: or.assoc bc push_bit_eq_mult[of 16 "ucast a :: u32"] uint_word_ariths)
qed

lemma lead3_value:
  "uint (lead3 bs) = (if length bs \<ge> 3 then big_SetBytes bs div 256 ^ (length bs - 3)
     else big_SetBytes bs * 256 ^ (3 - length bs))"
proof -
  have three: "uint (lead3 bs) = uint (bs ! 0) * 65536 + uint (bs ! 1) * 256 + uint (bs ! 2)" if "length bs \<ge> 3"
    using that or_bytes[of "bs ! 0" "bs ! 1" "bs ! 2"] by (auto simp: lead3_def)
  consider "bs = []" | a where "bs = [a]" | a b where "bs = [a, b]" | "length bs \<ge> 3"
    by (cases bs; cases "tl bs"; cases "tl (tl bs)") auto
  then show ?thesis
  proof cases
    case 2
    then show ?thesis using or_bytes[of a 0 0] big_SetBytes_snoc[of "[]" a] by (simp add: lead3_def)
  next
    case 3
    then show ?thesis using or_bytes[of a b 0] big_SetBytes_snoc[of "[a]" b] big_SetBytes_snoc[of "[]" a]
      by (simp add: lead3_def)
  next
    case 4
    then obtain a b c r where "bs = a # b # c # r" by (metis Suc_le_length_iff numeral_3_eq_3)
    then have "big_SetBytes (take 3 bs) = uint (bs ! 0) * 65536 + uint (bs ! 1) * 256 + uint (bs ! 2)"
      using big_SetBytes_snoc[of "[a, b]" c] big_SetBytes_snoc[of "[a]" b] big_SetBytes_snoc[of "[]" a] by simp
    with three 4 show ?thesis by (simp add: big_SetBytes_take)
  qed (simp add: lead3_def)
qed

lemma sign_bit: "uint (m :: u32) < 2 ^ 24 \<Longrightarrow> and m 0x00800000 \<noteq> 0 \<longleftrightarrow> 2 ^ 23 \<le> uint m"
proof -
  assume m: "uint m < 2 ^ 24"
  have "(0x00800000 :: u32) = 2 ^ 23" by simp
  then have "and m 0x00800000 \<noteq> 0 \<longleftrightarrow> bit m 23" by (simp only: and_exp_eq_0_iff_not_bit not_not)
  also have "\<dots> \<longleftrightarrow> bit (uint m) 23" by (simp add: bit_uint_iff)
  also have "\<dots> \<longleftrightarrow> odd (uint m div 2 ^ 23)" by (simp only: bit_iff_odd)
  also have "\<dots> \<longleftrightarrow> 2 ^ 23 \<le> uint m"
  proof (cases "2 ^ 23 \<le> uint m")
    case True
    then have "uint m div 2 ^ 23 = 1" using m by (intro int_div_pos_eq[where r = "uint m - 2 ^ 23"]) auto
    then show ?thesis using True by simp
  qed simp
  finally show ?thesis .
qed

lemma big_Bytes_value: "0 < n \<Longrightarrow> big_SetBytes (big_Bytes n) = n"
  by (simp add: big_SetBytes_Bytes)

lemma big_Bytes_bounds:
  assumes "0 < n" defines "l \<equiv> length (big_Bytes n)"
  shows "0 < l" "256 ^ (l - 1) \<le> n" "n < 256 ^ l"
proof -
  obtain a r where bs: "big_Bytes n = a # r" using big_Bytes_leading(1)[OF assms(1)] by (cases "big_Bytes n") auto
  have "n = uint a * 256 ^ length r + big_SetBytes r"
    using big_SetBytes_append[of "[a]" r] big_SetBytes_snoc[of "[]" a] bs big_Bytes_value[OF assms(1)] by simp
  moreover have "1 \<le> uint a" using big_Bytes_leading(2)[OF assms(1)] bs by simp
  then have "1 * 256 ^ length r \<le> uint a * 256 ^ length r" by (rule mult_right_mono) simp
  moreover have "0 \<le> big_SetBytes r" by simp
  ultimately have "1 * 256 ^ length r \<le> n" by linarith
  then show "256 ^ (l - 1) \<le> n" "0 < l" by (simp_all add: l_def bs)
  show "n < 256 ^ l" using big_SetBytes_range[of "big_Bytes n"] big_Bytes_value[OF assms(1)] by (simp add: l_def)
qed

lemma BigToCompact_lead3:
  "0 < n \<Longrightarrow> BigToCompact n =
     (let e = of_nat (length (big_Bytes n)); m = lead3 (big_Bytes n)
      in if and m 0x00800000 \<noteq> 0 then or (push_bit 24 (e + 1)) (drop_bit 8 m) else or (push_bit 24 e) m)"
proof -
  assume "0 < n"
  then have "\<not> n \<le> 0" by simp
  then show ?thesis by (simp only: BigToCompact_def lead3_def Let_def if_False of_int_of_nat_eq)
qed

lemma uint_drop8: "uint (drop_bit 8 (m :: u32)) = uint m div 256"
  using take_bit_int_eq_self[of "uint m" 32] unsigned_less[of m, where 'a = int]
  by (simp only: unsigned_drop_bit_eq) (simp add: drop_bit_eq_div)

lemma compact_long:
  assumes m: "0 \<le> M" "M * P \<le> n" "n < (M + 1) * P" and big: "2 ^ k \<le> M" and P: "(0 :: int) < P"
  shows "M * P \<le> n \<and> (n - M * P) * 2 ^ k < n"
proof -
  have "n - M * P < P" using m(3) by (simp add: algebra_simps)
  then have "(n - M * P) * 2 ^ k < P * 2 ^ k" by simp
  also have "\<dots> \<le> P * M" using big P by simp
  finally show ?thesis using m(2) by (simp add: mult.commute)
qed

lemma div_sandwich: "(0 :: int) < P \<Longrightarrow> n div P * P \<le> n \<and> n < (n div P + 1) * P"
  using div_mult_mod_eq[of n P] pos_mod_bound[of P n] pos_mod_sign[of P n] distrib_right[of "n div P" 1 P]
  by linarith

lemma length_bytes_small:
  assumes "0 < n" "n < 256 ^ 254"
  shows "length (big_Bytes n) \<le> 254"
proof (rule ccontr)
  assume "\<not> ?thesis"
  then have "(256 :: int) ^ 254 \<le> 256 ^ (length (big_Bytes n) - 1)" by (intro power_increasing) auto
  with big_Bytes_bounds(2)[OF assms(1)] assms(2) show False by linarith
qed

lemma compact_small:
  assumes n: "0 < n" "n < 65536" and l: "length (big_Bytes n) < 3"
  shows "CompactToBig (BigToCompact n) = n"
proof -
  let ?l = "length (big_Bytes n)" and ?m = "lead3 (big_Bytes n)"
  have m: "uint ?m = n * 256 ^ (3 - ?l)" using lead3_value[of "big_Bytes n"] l by (simp add: big_Bytes_value n)
  note b = big_Bytes_bounds[OF n(1)]
  have m24: "uint ?m < 2 ^ 24"
  proof -
    have "n * 256 ^ (3 - ?l) < 256 ^ ?l * 256 ^ (3 - ?l)" using b(3) by simp
    also have "\<dots> = 256 ^ 3" using l by (simp flip: power_add)
    finally show ?thesis using m by simp
  qed
  have e: "uint (of_nat ?l :: u32) = int ?l" using l by (simp add: unsigned_of_nat take_bit_nat_eq_self)
  have e1: "uint (of_nat ?l + 1 :: u32) = int ?l + 1" using l e by (simp add: uint_word_ariths)
  have l12: "?l = 1 \<or> ?l = 2" using l b(1) by linarith
  show ?thesis
  proof (cases "2 ^ 23 \<le> uint ?m")
    case True
    note d = uint_drop8[of ?m]
    have "CompactToBig (BigToCompact n) = (if int ?l + 1 > 3 then uint ?m div 256 * 256 ^ (nat (int ?l + 1) - 3)
        else uint ?m div 256 div 256 ^ (3 - nat (int ?l + 1)))"
      using CompactToBig_parts[of "of_nat ?l + 1" "drop_bit 8 ?m"] True sign_bit[OF m24] m24 l
      by (simp add: BigToCompact_lead3[OF n(1)] Let_def e1 d)
    with l12 show ?thesis by (auto simp: m)
  next
    case False
    have "CompactToBig (BigToCompact n) = (if int ?l > 3 then uint ?m * 256 ^ (nat (int ?l) - 3)
        else uint ?m div 256 ^ (3 - nat (int ?l)))"
      using CompactToBig_parts[of "of_nat ?l" ?m] False sign_bit[OF m24] m24 l
      by (simp add: BigToCompact_lead3[OF n(1)] Let_def e)
    with l12 show ?thesis by (auto simp: m)
  qed
qed

lemma compact_big:
  assumes n: "0 < n" "n < 256 ^ 254" and l: "3 \<le> length (big_Bytes n)"
  shows "CompactToBig (BigToCompact n) \<le> n \<and> (n - CompactToBig (BigToCompact n)) * 2 ^ 15 < n"
proof -
  let ?l = "length (big_Bytes n)" and ?m = "lead3 (big_Bytes n)"
  let ?P = "256 ^ (?l - 3) :: int"
  have m: "uint ?m = n div ?P" using lead3_value[of "big_Bytes n"] l by (simp add: big_Bytes_value n)
  note b = big_Bytes_bounds[OF n(1)]
  have pw: "(256 :: int) ^ ?l = 256 ^ 3 * ?P" "(256 :: int) ^ (?l - 1) = 256 ^ 2 * ?P"
    "256 * ?P = (256 :: int) ^ (?l - 2)"
  proof -
    obtain k where "?l = k + 3" using l by (metis le_add_diff_inverse2)
    then show "(256 :: int) ^ ?l = 256 ^ 3 * ?P" "(256 :: int) ^ (?l - 1) = 256 ^ 2 * ?P" "256 * ?P = (256 :: int) ^ (?l - 2)"
      by (simp_all add: power_add)
  qed
  have P: "0 < ?P" by simp
  have "n div ?P * ?P < 256 ^ 3 * ?P" using div_sandwich[OF P, of n] b(3) pw(1) by linarith
  then have "n div ?P < 256 ^ 3" using P by (simp only: mult_less_cancel_right_pos)
  then have m24: "uint ?m < 2 ^ 24" using m by simp
  have m16: "2 ^ 16 \<le> uint ?m" using b(2) pw(2) m pos_imp_zdiv_pos_iff[OF P] zdiv_mono1[OF b(2) P] by simp
  have le: "?l \<le> 254" using length_bytes_small[OF n] .
  have e: "uint (of_nat ?l :: u32) = int ?l" using le by (simp add: unsigned_of_nat take_bit_nat_eq_self)
  have e1: "uint (of_nat ?l + 1 :: u32) = int ?l + 1" using le e by (simp add: uint_word_ariths)
  show ?thesis
  proof (cases "2 ^ 23 \<le> uint ?m")
    case True
    note d = uint_drop8[of ?m]
    have dd: "uint ?m div 256 = n div 256 ^ (?l - 2)" by (simp add: m zdiv_zmult2_eq[symmetric] pw(3) mult.commute[of ?P])
    have nl: "nat (int ?l + 1) - 3 = ?l - 2" using l by linarith
    have "CompactToBig (BigToCompact n) = n div 256 ^ (?l - 2) * 256 ^ (?l - 2)"
      using CompactToBig_parts[of "of_nat ?l + 1" "drop_bit 8 ?m"] True sign_bit[OF m24] m24 le l
      by (simp add: BigToCompact_lead3[OF n(1)] Let_def e1 d nl flip: dd)
    moreover have "2 ^ 15 \<le> n div 256 ^ (?l - 2)" using zdiv_mono1[OF True, of 256] dd by simp
    ultimately show ?thesis
      using compact_long[of "n div 256 ^ (?l - 2)" "256 ^ (?l - 2)" n 15] div_sandwich[of "256 ^ (?l - 2)" n] n by simp
  next
    case False
    have nl: "nat (int ?l) - 3 = ?l - 3" by simp
    have "CompactToBig (BigToCompact n) = n div ?P * ?P"
      using CompactToBig_parts[of "of_nat ?l" ?m] False sign_bit[OF m24] le l
      by (auto simp: BigToCompact_lead3[OF n(1)] Let_def e m)
    moreover have "2 ^ 15 \<le> n div ?P" using m16 m by simp
    ultimately show ?thesis
      using compact_long[of "n div ?P" ?P n 15] div_sandwich[of ?P n] n by simp
  qed
qed

lemma compact_precise:
  assumes "0 < n" "n < 256 ^ 254"
  shows "CompactToBig (BigToCompact n) \<le> n \<and> (n - CompactToBig (BigToCompact n)) * 2 ^ 15 < n"
proof (cases "3 \<le> length (big_Bytes n)")
  case True
  then show ?thesis using compact_big assms by simp
next
  case False
  then have "(256 :: int) ^ length (big_Bytes n) \<le> 256 ^ 2" by (intro power_increasing) auto
  then have "n < 65536" using big_Bytes_bounds(3)[OF assms(1)] by simp
  then show ?thesis using compact_small[OF assms(1)] False assms(1) by simp
qed

lemma CompactToBig_nonneg: "0 \<le> CompactToBig c"
  by (simp add: CompactToBig_def Let_def)

section \<open>Work\<close>

lemma value_String [simp]: "big_SetString_value (big_String x) 10 = x"
  by (rule big_SetString_value) (rule dec.SetString_Text)

lemma AddWork_String: "AddWork (big_String a) (big_String b) = big_String (a + b)"
  by (simp add: AddWork_def dec.Text_nonempty)

lemma CalculateBlockWorkFromBits_String: "CalculateBlockWorkFromBits bits = big_String (GetBlockWork bits)"
  by (simp add: CalculateBlockWorkFromBits_def GetBlockWork_def)

section \<open>Properties\<close>

text \<open>
  The compact form of a target keeps its first 15 bits: reading it back gives at most the
  target, and less than a 32768th part of it is lost.
\<close>

theorem compact_target_precision:
  assumes "0 < n" and "n < 256 ^ 254"
  shows "CompactToBig (BigToCompact n) \<le> n \<and> (n - CompactToBig (BigToCompact n)) * 2 ^ 15 < n"
  using compact_precise[OF assms] .

theorem compact_target_precision_witness:
  "(123456789 - CompactToBig (BigToCompact 123456789)) * 2 ^ 15 < 123456789"
  using compact_target_precision[of 123456789] by simp

text \<open>
  C35. At an adjustment height the new target is at most four times the old one, at least a
  quarter of it, and never above the easiest target, up to the precision of the compact form,
  whatever the timestamps of the blocks say.
\<close>

theorem GetTargetBits_adjustment:
  assumes "height mod RecalculationFrequency = 0" and "height \<noteq> 0"
    and "length blocks \<ge> RecalculationFrequency"
    and "blocks ! (length blocks - RecalculationFrequency) = Some f" and "last blocks = Some l"
  shows "\<exists>bits n. GetTargetBits height blocks = Some bits
    \<and> min (CompactToBig (hdr_Bits (blk_Header l)) div 4) (CompactToBig GetTargetCompact) \<le> n
    \<and> n \<le> min (4 * CompactToBig (hdr_Bits (blk_Header l))) (CompactToBig GetTargetCompact)
    \<and> CompactToBig bits \<le> n \<and> (n - CompactToBig bits) * 2 ^ 15 \<le> n"
proof -
  let ?t = "CompactToBig (hdr_Bits (blk_Header l))" and ?max = "CompactToBig GetTargetCompact"
  obtain ts where ts: "302400 \<le> ts" "ts \<le> 4838400"
    and g: "GetTargetBits height blocks = Some (BigToCompact (min (?t * ts div 1209600) ?max))"
  proof
    let ?s = "sint (hdr_Timestamp (blk_Header l) - hdr_Timestamp (blk_Header f))"
    let ?ts = "min (max ?s 302400) 4838400"
    have "blocks \<noteq> []" using assms(3) by (auto simp: RecalculationFrequency_def)
    then show "GetTargetBits height blocks = Some (BigToCompact (min (?t * ?ts div 1209600) ?max))"
      using assms by (auto simp: GetTargetBits_def TargetTimespan_def MaxAdjustmentFactor_def Let_def min_def max_def)
  qed auto
  let ?n = "min (?t * ts div 1209600) ?max"
  note t0 = CompactToBig_nonneg[of "hdr_Bits (blk_Header l)"]
  have max: "?max = 65535 * 256 ^ 28" by code_simp
  have "?t * 302400 \<le> ?t * ts" "?t * ts \<le> ?t * 4838400" using ts t0 by (auto intro: mult_left_mono)
  then have "?t div 4 \<le> ?t * ts div 1209600" "?t * ts div 1209600 \<le> 4 * ?t" by linarith+
  then have "min (?t div 4) ?max \<le> ?n" "?n \<le> min (4 * ?t) ?max" by auto
  moreover have "CompactToBig (BigToCompact ?n) \<le> ?n \<and> (?n - CompactToBig (BigToCompact ?n)) * 2 ^ 15 \<le> ?n"
  proof (cases "?n > 0")
    case True
    moreover have "?n < 256 ^ 254"
    proof -
      have "?n \<le> 65535 * 256 ^ 28" using max by simp
      also have "\<dots> < (256 :: int) ^ 30" by simp
      also have "\<dots> \<le> 256 ^ 254" by (rule power_increasing) auto
      finally show ?thesis .
    qed
    ultimately show ?thesis using compact_precise[of ?n] by simp
  next
    case False
    moreover have "0 \<le> ?t * ts" using t0 ts by simp
    then have "0 \<le> ?n" using max by (simp add: pos_imp_zdiv_nonneg_iff)
    ultimately have "?n = 0" by linarith
    moreover have "CompactToBig (BigToCompact 0) = 0" by code_simp
    ultimately show ?thesis by simp
  qed
  ultimately show ?thesis using g by blast
qed

definition block_at :: "u64 \<Rightarrow> Block" where
  "block_at time = \<lparr>blk_Header = \<lparr>hdr_Version = 1, hdr_PreviousHash = zero32, hdr_Height = 0, hdr_Timestamp = time,
     hdr_Nonce = 0, hdr_MerkleRoot = zero32, hdr_StateRoot = zero32, hdr_ReceiptRoot = zero32,
     hdr_Bits = 0x1d00ffff, hdr_TotalWork = ''1'', hdr_GasLimit = 0, hdr_GasUsed = 0, hdr_Beneficiary = zero32\<rparr>,
     blk_Transactions = []\<rparr>"

theorem GetTargetBits_adjustment_witness:
  "\<exists>bits. GetTargetBits 2016 (replicate 2016 (Some (block_at 5))) = Some bits \<and>
     CompactToBig bits \<le> 4 * CompactToBig 0x1d00ffff"
proof -
  let ?b = "replicate 2016 (Some (block_at 5))"
  have "last ?b = Some (block_at 5)" by (simp add: last_conv_nth)
  then show ?thesis
    using GetTargetBits_adjustment[of 2016 ?b "block_at 5" "block_at 5"]
    by (auto simp: RecalculationFrequency_def block_at_def)
qed

text \<open>
  Work is additive and ordered on its decimal texts: adding the text of a block's work to the
  text of a total gives the text of the sum, and comparing texts compares the numbers. An easier
  target is worth at most as much work as a harder one, and no block is worth nothing.
\<close>

theorem work_arithmetic:
  "AddWork (big_String a) (CalculateBlockWorkFromBits bits) = big_String (a + GetBlockWork bits)
   \<and> CompareWork (big_String a) (big_String b) = sgn (a - b)
   \<and> (CompactToBig bits \<le> CompactToBig easier \<longrightarrow> GetBlockWork easier \<le> GetBlockWork bits)
   \<and> (CompactToBig bits < 2 ^ 256 \<longrightarrow> 0 < GetBlockWork bits)"
proof (intro conjI impI)
  show "AddWork (big_String a) (CalculateBlockWorkFromBits bits) = big_String (a + GetBlockWork bits)"
    by (simp add: CalculateBlockWorkFromBits_String AddWork_String)
  show "CompareWork (big_String a) (big_String b) = sgn (a - b)"
    by (simp add: CompareWork_def)
  show "GetBlockWork easier \<le> GetBlockWork bits" if "CompactToBig bits \<le> CompactToBig easier"
    unfolding GetBlockWork_def using that CompactToBig_nonneg[of bits] by (intro zdiv_mono2) auto
  show "0 < GetBlockWork bits" if "CompactToBig bits < 2 ^ 256"
    unfolding GetBlockWork_def using that CompactToBig_nonneg[of bits] by (subst pos_imp_zdiv_pos_iff) auto
qed

theorem work_arithmetic_witness: "CompareWork (big_String 10) (big_String 9) = 1 \<and> 0 < GetBlockWork 0x1d00ffff"
proof -
  have "CompactToBig 0x1d00ffff < 2 ^ 256" by code_simp
  then show ?thesis using work_arithmetic[of 10 "0x1d00ffff" 9 "0x1d00ffff"] by simp
qed

lemma MineCorrectNonce_sound:
  "MineCorrectNonce h bits = Some n \<Longrightarrow> BlockHashMeetsDifficulty (BlockHeader_GetHash (h\<lparr>hdr_Nonce := n\<rparr>)) bits"
proof (induction h bits rule: MineCorrectNonce.induct)
  case (1 h bits)
  then show ?case by (subst (asm) MineCorrectNonce.simps) (auto simp: Let_def split: if_splits)
qed

lemma MineCorrectNonce_complete:
  "MineCorrectNonce h bits = r \<Longrightarrow> hdr_Nonce h \<le> m \<Longrightarrow> m \<noteq> - 1 \<Longrightarrow>
     BlockHashMeetsDifficulty (BlockHeader_GetHash (h\<lparr>hdr_Nonce := m\<rparr>)) bits \<Longrightarrow> \<exists>n. r = Some n \<and> n \<le> m"
proof (induction h bits arbitrary: r rule: MineCorrectNonce.induct)
  case (1 h bits)
  show ?case
  proof (cases "BlockHashMeetsDifficulty (BlockHeader_GetHash h) bits")
    case True
    then show ?thesis using 1 by (subst (asm) MineCorrectNonce.simps) auto
  next
    case False
    have "hdr_Nonce h \<noteq> m" using 1(5) False by auto
    then have lt: "hdr_Nonce h < m" using 1(3) by simp
    then have le: "hdr_Nonce h + 1 \<le> m" by (rule inc_le)
    have ne: "hdr_Nonce h + 1 \<noteq> - 1"
      using le 1(4) by (metis word_order.extremum_unique)
    then have "MineCorrectNonce (h\<lparr>hdr_Nonce := hdr_Nonce h + 1\<rparr>) bits = r"
      using 1(2) False by (subst (asm) MineCorrectNonce.simps) (simp add: Let_def)
    then show ?thesis
      using 1(1)[OF False refl, of r] ne le 1(4,5) by simp
  qed
qed

text \<open>
  C34. The nonce search always ends. Started at nonce 0, it returns the smallest nonce that meets
  the target, and it fails only when no nonce but possibly the largest one does.
\<close>

theorem MineCorrectNonce_correct:
  assumes "hdr_Nonce h = 0"
  shows "case MineCorrectNonce h bits of
      Some n \<Rightarrow> BlockHashMeetsDifficulty (BlockHeader_GetHash (h\<lparr>hdr_Nonce := n\<rparr>)) bits
        \<and> (\<forall>m<n. \<not> BlockHashMeetsDifficulty (BlockHeader_GetHash (h\<lparr>hdr_Nonce := m\<rparr>)) bits)
    | None \<Rightarrow> \<forall>m. m \<noteq> - 1 \<longrightarrow> \<not> BlockHashMeetsDifficulty (BlockHeader_GetHash (h\<lparr>hdr_Nonce := m\<rparr>)) bits"
proof (cases "MineCorrectNonce h bits")
  case None
  then show ?thesis using MineCorrectNonce_complete[OF None] assms by fastforce
next
  case (Some n)
  have "\<not> BlockHashMeetsDifficulty (BlockHeader_GetHash (h\<lparr>hdr_Nonce := m\<rparr>)) bits" if "m < n" for m
  proof -
    have "m \<noteq> - 1" using that by (metis not_less word_order.extremum)
    then show ?thesis using MineCorrectNonce_complete[OF Some, of m] assms that by fastforce
  qed
  with MineCorrectNonce_sound[OF Some] Some show ?thesis by simp
qed

theorem MineCorrectNonce_correct_witness:
  "MineCorrectNonce (blk_Header (block_at 5)) 0x2200ffff = Some 0 \<and>
     BlockHashMeetsDifficulty (BlockHeader_GetHash ((blk_Header (block_at 5))\<lparr>hdr_Nonce := 0\<rparr>)) 0x2200ffff"
proof -
  let ?h = "blk_Header (block_at 5)"
  have "CompactToBig 0x2200ffff \<ge> 2 ^ 256" by code_simp
  then have "BlockHashMeetsDifficulty (BlockHeader_GetHash ?h) 0x2200ffff"
    using big_SetBytes_bound[of "BlockHeader_GetHash ?h"] by (simp add: BlockHashMeetsDifficulty_def BlockHeader_GetHash_def)
  moreover have z: "hdr_Nonce ?h = 0" by (simp add: block_at_def)
  ultimately have m: "MineCorrectNonce ?h 0x2200ffff = Some 0" by (subst MineCorrectNonce.simps) simp
  with MineCorrectNonce_correct[OF z, of "0x2200ffff"] show ?thesis by simp
qed

end
