(* ===== verification/Blocks.thy ===== *)
theory Blocks
  imports Tx_Properties Difficulty
begin

text \<open>
  \<open>src/blockchain/genesis.go\<close>, \<open>chain.go\<close>, the header and block validation of \<open>validation.go\<close> and the
  block production of \<open>mining.go\<close>. The chain is a record that its methods return updated; its
  mutexes guard one operation each and are not modelled. \<open>Blocks\<close> may hold nil at heights that
  were skipped.
\<close>

section \<open>Genesis\<close>

definition genesisCoinbase :: Transaction where
  "genesisCoinbase =
     \<lparr>tx_From = zero32, tx_To = FirstUser, tx_Amount = 10 * AUG, tx_Signature = replicate 64 0, tx_Nonce = 0,
      tx_Timestamp = 1704067200, tx_ChainID = 1, tx_Instructions = [], tx_GasLimit = 0, tx_GasPrice = 0,
      tx_Data = []\<rparr>"

definition genesis_template :: BlockHeader where
  "genesis_template =
     \<lparr>hdr_Version = 1, hdr_PreviousHash = zero32, hdr_Height = 0, hdr_Timestamp = 1609459200, hdr_Nonce = 0,
      hdr_MerkleRoot = Transaction_GetHash genesisCoinbase, hdr_StateRoot = zero32, hdr_ReceiptRoot = zero32,
      hdr_Bits = GetTargetCompact, hdr_TotalWork = ''1'', hdr_GasLimit = 8000000, hdr_GasUsed = 0,
      hdr_Beneficiary = zero32\<rparr>"

text \<open>The nonces from 25000 up to a million are tried; the last resort is 25992.\<close>

definition genesis_nonce :: u64 where
  "genesis_nonce =
     (case List.find (\<lambda>nonce. big_SetBytes (BlockHeader_GetHash (genesis_template\<lparr>hdr_Nonce := of_nat nonce\<rparr>))
                              \<le> CompactToBig (hdr_Bits genesis_template)) [25000..<1000000] of
        Some nonce \<Rightarrow> of_nat nonce
      | None \<Rightarrow> 25992)"

definition GenesisBlock :: Block where
  "GenesisBlock = \<lparr>blk_Header = genesis_template\<lparr>hdr_Nonce := genesis_nonce\<rparr>, blk_Transactions = [genesisCoinbase]\<rparr>"

section \<open>The chain\<close>

record Chain =
  Blocks :: "Block option list"
  BlockIndex :: "Hash32 \<rightharpoonup> Block"
  Headers :: "Hash32 \<rightharpoonup> BlockHeader"
  chain_AccountStates :: AccountStates
  Tip :: "Block option"

definition GetBlock :: "Chain \<Rightarrow> Hash32 \<Rightarrow> Block option" where
  "GetBlock c hash = BlockIndex c hash"

definition GetHeader :: "Chain \<Rightarrow> Hash32 \<Rightarrow> BlockHeader option" where
  "GetHeader c hash = Headers c hash"

definition GetBlockAtHeight :: "Chain \<Rightarrow> u64 \<Rightarrow> Block option" where
  "GetBlockAtHeight c height =
     (if height \<ge> of_nat (length (Blocks c)) then None else Blocks c ! unat height)"

definition AddHeader :: "Chain \<Rightarrow> BlockHeader \<Rightarrow> Chain" where
  "AddHeader c header = c\<lparr>Headers := (Headers c)(BlockHeader_GetHash header \<mapsto> header)\<rparr>"

text \<open>
  \<open>AddBlock\<close> appends to the list of blocks until it reaches the height that the block states, which no
  check compares with the height of the tip: \<open>None\<close> is the crash of that loop on a height the list
  cannot reach.
\<close>

definition store_block :: "Chain \<Rightarrow> Block \<Rightarrow> Chain" where
  "store_block c block =
     (let hash = BlockHeader_GetHash (blk_Header block);
          height = unat (hdr_Height (blk_Header block));
          c = c\<lparr>BlockIndex := (BlockIndex c)(hash \<mapsto> block)\<rparr>;
          c = AddHeader c (blk_Header block);
          grown = Blocks c @ replicate (height + 1 - length (Blocks c)) None;
          c = c\<lparr>Blocks := grown[height := Some block]\<rparr>
      in case Tip c of
           None \<Rightarrow> c\<lparr>Tip := Some block\<rparr>
         | Some tip \<Rightarrow>
             if hdr_Height (blk_Header block) > hdr_Height (blk_Header tip) then c\<lparr>Tip := Some block\<rparr> else c)"

definition AddBlock :: "Chain \<Rightarrow> Block \<Rightarrow> Chain option" where
  "AddBlock c block = (if maxSlots \<le> uint (hdr_Height (blk_Header block)) then None else Some (store_block c block))"

definition GetTip :: "Chain \<Rightarrow> Block option" where
  "GetTip c = Tip c"

definition GetTipHash :: "Chain \<Rightarrow> Hash32" where
  "GetTipHash c = (case Tip c of None \<Rightarrow> zero32 | Some tip \<Rightarrow> BlockHeader_GetHash (blk_Header tip))"

definition GetAccountStates :: "Chain \<Rightarrow> AccountStates" where
  "GetAccountStates c = chain_AccountStates c"

definition SetAccountStates :: "Chain \<Rightarrow> AccountStates \<Rightarrow> Chain" where
  "SetAccountStates c states = c\<lparr>chain_AccountStates := states\<rparr>"

definition GetBlockByHash :: "Chain \<Rightarrow> Hash32 \<Rightarrow> Block option" where
  "GetBlockByHash c hash = GetBlock c hash"

definition NewChain :: Chain where
  "NewChain =
     \<lparr>Blocks = [],
      BlockIndex = [BlockHeader_GetHash (blk_Header GenesisBlock) \<mapsto> GenesisBlock],
      Headers = [BlockHeader_GetHash (blk_Header GenesisBlock) \<mapsto> blk_Header GenesisBlock],
      chain_AccountStates = [], Tip = None\<rparr>"

section \<open>Headers\<close>

datatype block_error =
    HeaderBelowTarget
  | InvalidGenesisHeader
  | InvalidTotalWork
  | InvalidBlockHeader block_error
  | MerkleRootMismatch
  | InvalidTransactionSignature nat
  | GenesisParent
  | GenesisTransactionCount
  | GenesisCoinbaseFrom
  | GenesisCoinbaseTo
  | GenesisCoinbaseAmount
  | ErrMissingParent Hash32
  | ErrSwitchChain Block Block
  | BlockBelowTarget
  | IncorrectTargetBits
  | TimestampNotInOrder
  | StructureFailed block_error
  | TransactionInvalid nat tx_error
  | TransactionFailed nat tx_error
  | GasUsedMismatch
  | BlockGasLimitExceeded
  | CoinbaseAmountMismatch

definition ValidateHeaderStructure :: "BlockHeader \<Rightarrow> block_error option" where
  "ValidateHeaderStructure header =
     (if \<not> BlockHashMeetsDifficulty (BlockHeader_GetHash header) (hdr_Bits header) then Some HeaderBelowTarget
      else if hdr_Height header = 0 \<and>
        BlockHeader_GetHash (blk_Header GenesisBlock) \<noteq> BlockHeader_GetHash header then Some InvalidGenesisHeader
      else None)"

definition ValidateHeaderTotalWork :: "BlockHeader \<Rightarrow> string \<Rightarrow> block_error option" where
  "ValidateHeaderTotalWork header previousTotalWork =
     (case ValidateHeaderStructure header of
        Some e \<Rightarrow> Some e
      | None \<Rightarrow>
          if hdr_Height header > 0 \<and>
             hdr_TotalWork header \<noteq> AddWork previousTotalWork (CalculateBlockWorkFromBits (hdr_Bits header))
          then Some InvalidTotalWork else None)"

text \<open>The signatures of all transactions but the first, which is the coinbase by its position.\<close>

fun check_signatures :: "verifier \<Rightarrow> nat \<Rightarrow> Transaction list \<Rightarrow> block_error option" where
  "check_signatures verify i [] = None"
| "check_signatures verify i (tx # txs) =
     (if i \<noteq> 0 \<and> \<not> verify (tx_From tx) (Transaction_GetHash tx) (tx_Signature tx)
      then Some (InvalidTransactionSignature i) else check_signatures verify (i + 1) txs)"

definition ValidateBlockStructure :: "verifier \<Rightarrow> Block \<Rightarrow> block_error option" where
  "ValidateBlockStructure verify block =
     (case ValidateHeaderStructure (blk_Header block) of
        Some e \<Rightarrow> Some (InvalidBlockHeader e)
      | None \<Rightarrow>
          if MerkleTransactions (blk_Transactions block) \<noteq> hdr_MerkleRoot (blk_Header block)
          then Some MerkleRootMismatch
          else check_signatures verify 0 (blk_Transactions block))"

text \<open>The body of the loop of \<open>ValidateHeaderChain\<close> on a header and the one before it.\<close>

definition linked :: "BlockHeader \<Rightarrow> BlockHeader \<Rightarrow> bool" where
  "linked prev header \<longleftrightarrow> hdr_PreviousHash header = BlockHeader_GetHash prev \<and>
     hdr_Height header = hdr_Height prev + 1 \<and> hdr_Timestamp header > hdr_Timestamp prev"

fun ValidateHeaderChain :: "BlockHeader list \<Rightarrow> bool" where
  "ValidateHeaderChain [] = False"
| "ValidateHeaderChain [h] = True"
| "ValidateHeaderChain (prev # header # headers) =
     (hdr_PreviousHash header = BlockHeader_GetHash prev \<and> hdr_Height header = hdr_Height prev + 1 \<and>
      ValidateHeaderStructure header = None \<and> hdr_Timestamp header > hdr_Timestamp prev \<and>
      ValidateHeaderChain (header # headers))"

fun header_work_loop :: "BlockHeader list \<Rightarrow> BlockHeader option \<Rightarrow> string \<Rightarrow> bool" where
  "header_work_loop [] prev currentTotalWork = True"
| "header_work_loop (header # headers) prev currentTotalWork =
     (if ValidateHeaderTotalWork header currentTotalWork \<noteq> None then False
      else if (case prev of None \<Rightarrow> False | Some p \<Rightarrow> \<not> linked p header) then False
      else header_work_loop headers (Some header) (hdr_TotalWork header))"

definition ValidateHeaderChainWithWork :: "BlockHeader list \<Rightarrow> string \<Rightarrow> bool" where
  "ValidateHeaderChainWithWork headers startingTotalWork =
     (if headers = [] then False else header_work_loop headers None startingTotalWork)"

section \<open>Blocks\<close>

text \<open>\<open>None\<close> is a panic; \<open>Some None\<close> the nil error.\<close>

definition validateBlockStructure :: "Block \<Rightarrow> Chain \<Rightarrow> block_error option option" where
  "validateBlockStructure block chain =
     (let header = blk_Header block; hash = BlockHeader_GetHash header in
      if hash = BlockHeader_GetHash (blk_Header GenesisBlock) then
        Some (if hdr_PreviousHash header \<noteq> zero32 then Some GenesisParent
         else case blk_Transactions block of
             [coinbase] \<Rightarrow>
               if tx_From coinbase \<noteq> zero32 then Some GenesisCoinbaseFrom
               else if tx_To coinbase \<noteq> FirstUser then Some GenesisCoinbaseTo
               else if tx_Amount coinbase \<noteq> 10 * AUG then Some GenesisCoinbaseAmount
               else None
           | _ \<Rightarrow> Some GenesisTransactionCount)
      else case GetBlockByHash chain (hdr_PreviousHash header) of
          None \<Rightarrow> Some (Some (ErrMissingParent (hdr_PreviousHash header)))
        | Some prevBlock \<Rightarrow>
            if (case Tip chain of None \<Rightarrow> False
                | Some tip \<Rightarrow> BlockHeader_GetHash (blk_Header tip) \<noteq> hdr_PreviousHash header)
            then Some (Some (ErrSwitchChain block prevBlock))
            else if \<not> BlockHashMeetsDifficulty hash (hdr_Bits header) then Some (Some BlockBelowTarget)
            else case GetTargetBits (length (Blocks chain)) (Blocks chain) of
                None \<Rightarrow> None
              | Some expectedBits \<Rightarrow>
                  Some (if hdr_Bits header \<noteq> expectedBits then Some IncorrectTargetBits
                    else if MerkleTransactions (blk_Transactions block) \<noteq> hdr_MerkleRoot header
                    then Some MerkleRootMismatch
                    else if hdr_Timestamp header \<le> hdr_Timestamp (blk_Header prevBlock) then Some TimestampNotInOrder
                    else None))"

text \<open>The copy that \<open>ValidateBlock\<close> works on leaves out the two deployment hashes.\<close>

definition validation_copy :: "AccountState \<Rightarrow> AccountState" where
  "validation_copy v =
     \<lparr>acc_Address = acc_Address v, acc_Balance = acc_Balance v, acc_Nonce = acc_Nonce v,
      acc_Instructions = acc_Instructions v, acc_Persistent = acc_Persistent v,
      acc_StorageRoot = acc_StorageRoot v, acc_CodeHash = acc_CodeHash v,
      acc_DeploymentTsxHash = zero32, acc_DeploymentBlockHash = zero32\<rparr>"

definition copy_states :: "AccountStates \<Rightarrow> AccountStates" where
  "copy_states st = map (\<lambda>(k, v). (k, validation_copy v)) st"

text \<open>The loop over the transactions, with the gas and the fees so far.\<close>

fun execute_transactions ::
  "verifier \<Rightarrow> ContractExecutor option \<Rightarrow> nat \<Rightarrow> Transaction list \<Rightarrow> AccountStates \<Rightarrow> u64 \<Rightarrow> u64 \<Rightarrow>
   (block_error + AccountStates \<times> u64 \<times> u64) option" where
  "execute_transactions verify executor i [] st totalGasUsed totalGasFees = Some (Inr (st, totalGasUsed, totalGasFees))"
| "execute_transactions verify executor i (tsx # txs) st totalGasUsed totalGasFees =
     (case ValidateTransaction verify tsx st of
        Some e \<Rightarrow> Some (Inl (TransactionInvalid i e))
      | None \<Rightarrow>
          (case ApplyTransaction executor tsx st of
             None \<Rightarrow> None
           | Some (st', gasUsed, Some e) \<Rightarrow> Some (Inl (TransactionFailed i e))
           | Some (st', gasUsed, None) \<Rightarrow>
               if tx_From tsx \<noteq> zero32
               then execute_transactions verify executor (i + 1) txs st' (totalGasUsed + gasUsed)
                      (totalGasFees + gasUsed * tx_GasPrice tsx)
               else execute_transactions verify executor (i + 1) txs st' totalGasUsed totalGasFees))"

text \<open>\<open>None\<close> is a panic; a block without transactions panics at \<open>block.Transactions[0]\<close>.\<close>

definition ValidateBlock ::
  "verifier \<Rightarrow> ContractExecutor option \<Rightarrow> Block \<Rightarrow> Chain \<Rightarrow> (block_error + AccountStates) option" where
  "ValidateBlock verify executor block chain =
     (case validateBlockStructure block chain of
        None \<Rightarrow> None
      | Some (Some (ErrSwitchChain b a)) \<Rightarrow> Some (Inl (ErrSwitchChain b a))
      | Some (Some (ErrMissingParent h)) \<Rightarrow> Some (Inl (ErrMissingParent h))
      | Some (Some e) \<Rightarrow> Some (Inl (StructureFailed e))
      | Some None \<Rightarrow>
          (case execute_transactions verify executor 0 (blk_Transactions block)
                  (copy_states (chain_AccountStates chain)) 0 0 of
             None \<Rightarrow> None
           | Some (Inl e) \<Rightarrow> Some (Inl e)
           | Some (Inr (st, totalGasUsed, totalGasFees)) \<Rightarrow>
               if totalGasUsed \<noteq> hdr_GasUsed (blk_Header block) then Some (Inl GasUsedMismatch)
               else if totalGasUsed > hdr_GasLimit (blk_Header block) then Some (Inl BlockGasLimitExceeded)
               else if BlockHeader_GetHash (blk_Header block) = BlockHeader_GetHash (blk_Header GenesisBlock)
               then Some (Inr st)
               else case blk_Transactions block of
                   [] \<Rightarrow> None
                 | coinbase # _ \<Rightarrow>
                     if tx_Amount coinbase \<noteq> totalGasFees + BlockReward then Some (Inl CoinbaseAmountMismatch)
                     else Some (Inr st)))"

definition ApplyBlock :: "Block \<Rightarrow> Chain \<Rightarrow> AccountStates \<Rightarrow> Chain option" where
  "ApplyBlock block chain newAccountStates = AddBlock (SetAccountStates chain newAccountStates) block"

definition ValidateAndApplyBlock ::
  "verifier \<Rightarrow> ContractExecutor option \<Rightarrow> Block \<Rightarrow> Chain \<Rightarrow> (Chain \<times> block_error option) option" where
  "ValidateAndApplyBlock verify executor block chain =
     (case ValidateBlock verify executor block chain of
        None \<Rightarrow> None
      | Some (Inl e) \<Rightarrow> Some (chain, Some e)
      | Some (Inr newAccountStates) \<Rightarrow> map_option (\<lambda>chain. (chain, None)) (ApplyBlock block chain newAccountStates))"

end
