(* ===== verification/Block_Properties.thy ===== *)
theory Block_Properties
  imports Blocks
begin

text \<open>
  What acceptance of a block or of a chain of headers establishes, and what a block does to the
  total of the balances.
\<close>

section \<open>The chain index\<close>

lemma store_block_simps [simp]:
  "BlockIndex (store_block c b) = (BlockIndex c)(BlockHeader_GetHash (blk_Header b) \<mapsto> b)"
  "Headers (store_block c b) = (Headers c)(BlockHeader_GetHash (blk_Header b) \<mapsto> blk_Header b)"
  "chain_AccountStates (store_block c b) = chain_AccountStates c"
  "Blocks (store_block c b) =
     (Blocks c @ replicate (unat (hdr_Height (blk_Header b)) + 1 - length (Blocks c)) None)
       [unat (hdr_Height (blk_Header b)) := Some b]"
  by (auto simp: store_block_def AddHeader_def Let_def split: option.split)

lemma store_block_Tip:
  "Tip (store_block c b) = (case Tip c of None \<Rightarrow> Some b
     | Some t \<Rightarrow> if hdr_Height (blk_Header b) > hdr_Height (blk_Header t) then Some b else Some t)"
  by (simp add: store_block_def AddHeader_def Let_def split: option.split)

lemma length_store_block: "length (Blocks (store_block c b)) = max (length (Blocks c)) (unat (hdr_Height (blk_Header b)) + 1)"
  by simp

lemma AddBlock_Some: "AddBlock c b = Some c' \<longleftrightarrow> uint (hdr_Height (blk_Header b)) < maxSlots \<and> c' = store_block c b"
  by (auto simp: AddBlock_def)

lemma AddBlock_genesis: "AddBlock c GenesisBlock = Some (store_block c GenesisBlock)"
  by (simp add: AddBlock_Some GenesisBlock_def genesis_template_def maxSlots_eq)

section \<open>Executing the transactions of a block\<close>

definition no_contracts :: "AccountStates \<Rightarrow> bool" where
  "no_contracts st \<longleftrightarrow> (\<forall>k s. map_of st k = Some s \<longrightarrow> acc_Instructions s = [])"

definition ordinary :: "Transaction \<Rightarrow> bool" where
  "ordinary tx \<longleftrightarrow> tx_From tx \<noteq> zero32 \<and> tx_To tx \<noteq> zero32"

lemma ordinary_plain: "ordinary tx \<Longrightarrow> no_contracts st \<Longrightarrow> plain_transfer tx st"
  by (auto simp: ordinary_def no_contracts_def plain_transfer_def split: option.split)

text \<open>One ordinary transaction of a block, with what it pays.\<close>

lemma ordinary_step:
  assumes o: "ordinary tx" and nc: "no_contracts st" and v: "ValidateTransaction verify tx st = None"
    and sup: "total_supply st < 2 ^ 63" and ap: "ApplyTransaction executor tx st = Some (st', g, None)"
  shows "no_contracts st'" "total_supply st' + unat g * unat (tx_GasPrice tx) = total_supply st"
proof -
  note p = ordinary_plain[OF o nc]
  have from0: "tx_From tx \<noteq> zero32" "tx_To tx \<noteq> zero32" "\<not> is_deployment tx"
    using o by (auto simp: ordinary_def is_deployment_def)
  obtain s where s: "map_of st (tx_From tx) = Some s"
    and "unat (tx_Amount tx) + max_gas_cost tx + (if is_deployment tx then unat ContractDeploymentFee else 0) \<le> unat (acc_Balance s)"
    using ValidateTransaction_None[OF v from0(1)] by metis
  then have c: "unat (tx_Amount tx) + max_gas_cost tx \<le> unat (acc_Balance s)" using from0(3) by simp
  note t = transfer_applies[OF p s c sup]
  obtain f where f: "map_of (credited tx st) (tx_From tx) = Some f"
      "unat (acc_Balance f) = unat (acc_Balance s) + (if tx_From tx = tx_To tx then unat (tx_Amount tx) else 0)"
    using t(2) by blast
  have cf: "unat (tx_Amount tx) + max_gas_cost tx \<le> unat (acc_Balance f)" using c f(2) by simp
  have ch: "charge_sender tx (tx_Amount tx) (transfer_gas tx) f [] (credited tx st) = Some (st', g, None)"
    using ap from0 s t(1) f(1) by (simp add: ApplyTransaction_def)
  then have g: "g = transfer_gas tx" "g \<le> tx_GasLimit tx" using charge_sender_gas[OF ch] by auto
  note ok = charge_sender_ok[OF g(2) cf]
  have st': "st' = go_store (tx_From tx) (debit f (tx_Amount tx + g * tx_GasPrice tx)) (credited tx st)"
    using ch ok(1)[of "[]" "credited tx st"] g(1) by simp
  have "acc_Instructions f = []" and "no_contracts (credited tx st)"
    using nc f(1) by (auto simp: no_contracts_def credited_def new_account_def split: option.splits if_splits)
  then show "no_contracts st'" by (auto simp: st' no_contracts_def debit_def)
  show "total_supply st' + unat g * unat (tx_GasPrice tx) = total_supply st"
    using supply_old[OF f(1), of "debit f (tx_Amount tx + g * tx_GasPrice tx)"] ok(2-4) t(3) st' by simp
qed

lemma ordinary_fees:
  "execute_transactions verify executor i txs st gas fees = Some (Inr (st', gas', fees')) \<Longrightarrow>
   \<forall>tx\<in>set txs. ordinary tx \<Longrightarrow> no_contracts st \<Longrightarrow> total_supply st < 2 ^ 63 \<Longrightarrow>
   unat fees + total_supply st < 2 ^ 64 \<Longrightarrow>
   unat fees' + total_supply st' = unat fees + total_supply st"
proof (induction txs arbitrary: i st gas fees)
  case (Cons tx txs)
  from Cons.prems(1) obtain st1 g where v: "ValidateTransaction verify tx st = None"
    and ap: "ApplyTransaction executor tx st = Some (st1, g, None)"
    by (auto split: option.splits)
  have o: "ordinary tx" using Cons.prems(2) by simp
  note step = ordinary_step[OF o Cons.prems(3) v Cons.prems(4) ap]
  let ?f = "fees + g * tx_GasPrice tx"
  have lt: "unat fees + unat g * unat (tx_GasPrice tx) < 2 ^ 64" using step(2) Cons.prems(5) by linarith
  then have "unat (g * tx_GasPrice tx) = unat g * unat (tx_GasPrice tx)" by (intro unat_mult_exact) simp
  then have f: "unat ?f = unat fees + unat g * unat (tx_GasPrice tx)" using lt by (simp add: unat_add_exact)
  have "execute_transactions verify executor (i + 1) txs st1 (gas + g) ?f = Some (Inr (st', gas', fees'))"
    using Cons.prems(1) v ap o by (simp add: ordinary_def)
  from Cons.IH[OF this] Cons.prems step f show ?case by simp
qed simp

lemma validation_copy_simps [simp]:
  "acc_Balance (validation_copy s) = acc_Balance s"
  "acc_Instructions (validation_copy s) = acc_Instructions s"
  by (simp_all add: validation_copy_def)

lemma copy_states_supply [simp]: "total_supply (copy_states st) = total_supply st"
proof -
  have "(\<Sum>x\<leftarrow>map (\<lambda>(k, v). (k, validation_copy v)) st. case x of (k, v) \<Rightarrow> unat (acc_Balance v)) =
        (\<Sum>(k, v)\<leftarrow>st. unat (acc_Balance v))"
    unfolding map_map by (rule arg_cong[where f = sum_list], rule map_cong[OF refl]) (simp split: prod.split)
  then show ?thesis by (simp only: copy_states_def total_supply_def map_sum_def)
qed

lemma map_of_copy: "map_of (copy_states st) k = map_option validation_copy (map_of st k)"
  unfolding copy_states_def by (induction st) auto

lemma no_contracts_copy [simp]: "no_contracts (copy_states st) = no_contracts st"
proof
  show "no_contracts (copy_states st)" if "no_contracts st"
    using that unfolding no_contracts_def map_of_copy by fastforce
  show "no_contracts st" if "no_contracts (copy_states st)"
    using that unfolding no_contracts_def map_of_copy by (metis option.simps(9) validation_copy_simps(2))
qed

lemma coinbase_supply:
  assumes "total_supply st + unat (tx_Amount tx) < 2 ^ 64"
  shows "\<exists>st'. apply_coinbase tx st = Some (st', 0, None) \<and> total_supply st' = total_supply st + unat (tx_Amount tx)"
proof (cases "map_of st (tx_To tx)")
  case None
  then show ?thesis using supply_new[OF None, of "new_account (tx_To tx) (tx_Amount tx)"]
    by (simp add: apply_coinbase_def) (simp add: new_account_def)
next
  case (Some r)
  let ?r = "r\<lparr>acc_Balance := acc_Balance r + tx_Amount tx\<rparr>"
  have room: "unat (acc_Balance r) + unat (tx_Amount tx) < 2 ^ 64" using supply_member[OF Some] assms by simp
  then have "apply_coinbase tx st = Some (go_store (tx_To tx) ?r st, 0, None)"
    using Some by (simp add: apply_coinbase_def SafeAdd_unat)
  then show ?thesis using supply_old[OF Some, of ?r] unat_add_exact[OF room] by simp
qed

section \<open>Header chains\<close>

lemma header_meets_target:
  "ValidateHeaderStructure h = None \<Longrightarrow> BlockHashMeetsDifficulty (BlockHeader_GetHash h) (hdr_Bits h)"
  by (simp add: ValidateHeaderStructure_def split: if_splits)

lemma header_chain_nth:
  "ValidateHeaderChain hs \<Longrightarrow> Suc i < length hs \<Longrightarrow> linked (hs ! i) (hs ! Suc i) \<and> ValidateHeaderStructure (hs ! Suc i) = None"
proof (induction hs arbitrary: i rule: ValidateHeaderChain.induct)
  case (3 p h hs)
  then show ?case by (cases i) (auto simp: linked_def)
qed auto

lemma linked_heights:
  assumes "\<And>i. Suc i < length hs \<Longrightarrow> linked (hs ! i) (hs ! Suc i)"
  shows "i < length hs \<Longrightarrow> hdr_Height (hs ! i) = hdr_Height (hs ! 0) + of_nat i"
    and "i < j \<Longrightarrow> j < length hs \<Longrightarrow> hdr_Timestamp (hs ! i) < hdr_Timestamp (hs ! j)"
proof -
  show "i < length hs \<Longrightarrow> hdr_Height (hs ! i) = hdr_Height (hs ! 0) + of_nat i"
    by (induction i) (use assms in \<open>auto simp: linked_def algebra_simps\<close>)
  show "i < j \<Longrightarrow> j < length hs \<Longrightarrow> hdr_Timestamp (hs ! i) < hdr_Timestamp (hs ! j)"
  proof (induction j)
    case (Suc j)
    have "hdr_Timestamp (hs ! j) < hdr_Timestamp (hs ! Suc j)" using assms[of j] Suc.prems by (simp add: linked_def)
    then show ?case using Suc by (cases "i = j") auto
  qed simp
qed

lemma work_loop_total:
  "header_work_loop hs prev (big_String w) \<Longrightarrow> \<forall>h\<in>set hs. hdr_Height h > 0 \<Longrightarrow> hs \<noteq> [] \<Longrightarrow>
     hdr_TotalWork (last hs) = big_String (w + (\<Sum>h\<leftarrow>hs. GetBlockWork (hdr_Bits h)))"
proof (induction hs arbitrary: prev w)
  case (Cons h hs)
  have h: "hdr_TotalWork h = big_String (w + GetBlockWork (hdr_Bits h))"
    using Cons.prems by (auto simp: ValidateHeaderTotalWork_def CalculateBlockWorkFromBits_String AddWork_String
        split: if_splits option.splits)
  show ?case
  proof (cases "hs = []")
    case False
    have "header_work_loop hs (Some h) (big_String (w + GetBlockWork (hdr_Bits h)))"
      using Cons.prems(1) h by (auto split: if_splits)
    with Cons.IH[OF this] Cons.prems False show ?thesis by (simp add: add.assoc)
  qed (simp add: h)
qed simp

lemma work_loop_linked:
  "header_work_loop hs prev w \<Longrightarrow>
     (\<forall>p. prev = Some p \<and> hs \<noteq> [] \<longrightarrow> linked p (hd hs)) \<and> (\<forall>i. Suc i < length hs \<longrightarrow> linked (hs ! i) (hs ! Suc i)) \<and>
     (\<forall>h\<in>set hs. ValidateHeaderStructure h = None)"
proof (induction hs arbitrary: prev w)
  case (Cons h hs)
  have r: "header_work_loop hs (Some h) (hdr_TotalWork h)" "\<forall>p. prev = Some p \<longrightarrow> linked p h" "ValidateHeaderStructure h = None"
    using Cons.prems by (auto simp: ValidateHeaderTotalWork_def split: if_splits option.splits)
  note IH = Cons.IH[OF r(1)]
  have "linked ((h # hs) ! i) ((h # hs) ! Suc i)" if "Suc i < length (h # hs)" for i
    using IH that by (cases i) (auto simp: hd_conv_nth)
  with IH r show ?case by auto
qed simp

section \<open>Acceptance\<close>

lemma ValidateAndApplyBlock_ok:
  assumes "ValidateAndApplyBlock verify executor b c = Some (c', None)"
  obtains st gas fees where "validateBlockStructure b c = Some None"
    and "execute_transactions verify executor 0 (blk_Transactions b) (copy_states (chain_AccountStates c)) 0 0
         = Some (Inr (st, gas, fees))"
    and "gas = hdr_GasUsed (blk_Header b)" "gas \<le> hdr_GasLimit (blk_Header b)"
    and "BlockHeader_GetHash (blk_Header b) \<noteq> BlockHeader_GetHash (blk_Header GenesisBlock) \<Longrightarrow>
         \<exists>coinbase txs. blk_Transactions b = coinbase # txs \<and> tx_Amount coinbase = fees + BlockReward"
    and "c' = store_block (SetAccountStates c st) b" "uint (hdr_Height (blk_Header b)) < maxSlots"
proof -
  obtain st where v: "ValidateBlock verify executor b c = Some (Inr st)" and c': "c' = store_block (SetAccountStates c st) b"
      "uint (hdr_Height (blk_Header b)) < maxSlots"
    using assms by (auto simp: ValidateAndApplyBlock_def ApplyBlock_def AddBlock_Some split: option.splits sum.splits)
  from v have "validateBlockStructure b c = Some None"
    by (auto simp: ValidateBlock_def split: option.splits block_error.splits)
  with v c' that show thesis
    by (auto simp: ValidateBlock_def split: option.splits sum.splits if_splits list.splits)
qed

lemma validateBlockStructure_ok:
  assumes "validateBlockStructure b c = Some None"
    and "BlockHeader_GetHash (blk_Header b) \<noteq> BlockHeader_GetHash (blk_Header GenesisBlock)"
  obtains parent where "GetBlock c (hdr_PreviousHash (blk_Header b)) = Some parent"
    and "\<And>t. Tip c = Some t \<Longrightarrow> hdr_PreviousHash (blk_Header b) = BlockHeader_GetHash (blk_Header t)"
    and "BlockHashMeetsDifficulty (BlockHeader_GetHash (blk_Header b)) (hdr_Bits (blk_Header b))"
    and "GetTargetBits (length (Blocks c)) (Blocks c) = Some (hdr_Bits (blk_Header b))"
    and "MerkleTransactions (blk_Transactions b) = hdr_MerkleRoot (blk_Header b)"
    and "hdr_Timestamp (blk_Header parent) < hdr_Timestamp (blk_Header b)"
  using assms by (auto simp: validateBlockStructure_def Let_def GetBlockByHash_def split: option.splits if_splits)

text \<open>The genesis block passes on every chain.\<close>

lemma genesis_structure: "validateBlockStructure GenesisBlock c = Some None"
  by (simp add: validateBlockStructure_def GenesisBlock_def genesis_template_def genesisCoinbase_def)

lemma genesis_executes:
  assumes "apply_coinbase genesisCoinbase (copy_states (chain_AccountStates c)) = Some (st, 0, None)"
  shows "ValidateAndApplyBlock verify executor GenesisBlock c = Some (store_block (SetAccountStates c st) GenesisBlock, None)"
proof -
  have "execute_transactions verify executor 0 [genesisCoinbase] (copy_states (chain_AccountStates c)) 0 0 = Some (Inr (st, 0, 0))"
    using assms by (simp add: ValidateTransaction_def ApplyTransaction_def genesisCoinbase_def ValidateAmount_def)
  moreover have "blk_Transactions GenesisBlock = [genesisCoinbase]" "hdr_GasUsed (blk_Header GenesisBlock) = 0"
    by (simp_all add: GenesisBlock_def genesis_template_def)
  ultimately show ?thesis
    by (simp del: execute_transactions.simps
        add: ValidateAndApplyBlock_def ValidateBlock_def genesis_structure ApplyBlock_def AddBlock_genesis)
qed

definition genesis_accounts :: AccountStates where
  "genesis_accounts = go_store FirstUser (new_account FirstUser (10 * AUG)) []"

text \<open>A block without transactions passes every check on them until its coinbase is read.\<close>

lemma empty_block_panics:
  assumes "validateBlockStructure b c = Some None" and "blk_Transactions b = []"
    and "BlockHeader_GetHash (blk_Header b) \<noteq> BlockHeader_GetHash (blk_Header GenesisBlock)"
    and "hdr_GasUsed (blk_Header b) = 0"
  shows "ValidateAndApplyBlock verify executor b c = None"
  using assms by (simp add: ValidateAndApplyBlock_def ValidateBlock_def)

section \<open>Chains the node can build\<close>

inductive reachable_chain :: "verifier \<Rightarrow> ContractExecutor option \<Rightarrow> Chain \<Rightarrow> bool"
  for verify executor where
  start: "reachable_chain verify executor NewChain"
| block: "reachable_chain verify executor c \<Longrightarrow> ValidateAndApplyBlock verify executor b c = Some (c', e) \<Longrightarrow>
    reachable_chain verify executor c'"

definition chain_ok :: "Chain \<Rightarrow> bool" where
  "chain_ok c \<longleftrightarrow>
     (\<forall>i b. i < length (Blocks c) \<and> Blocks c ! i = Some b \<longrightarrow>
        unat (hdr_Height (blk_Header b)) = i \<and> BlockIndex c (BlockHeader_GetHash (blk_Header b)) \<noteq> None) \<and>
     (case Tip c of None \<Rightarrow> Blocks c = []
      | Some t \<Rightarrow> length (Blocks c) = unat (hdr_Height (blk_Header t)) + 1 \<and>
          BlockIndex c (BlockHeader_GetHash (blk_Header t)) \<noteq> None)"

lemma store_block_nth:
  assumes "i < length (Blocks (store_block c b))"
  shows "Blocks (store_block c b) ! i =
    (if i = unat (hdr_Height (blk_Header b)) then Some b else if i < length (Blocks c) then Blocks c ! i else None)"
  using assms by (auto simp: nth_append nth_list_update)

lemma chain_ok_store_block:
  assumes "chain_ok c"
  shows "chain_ok (store_block c b)"
  unfolding chain_ok_def
proof (intro conjI allI impI)
  fix i b' assume i: "i < length (Blocks (store_block c b)) \<and> Blocks (store_block c b) ! i = Some b'"
  then have "Some b' = (if i = unat (hdr_Height (blk_Header b)) then Some b else if i < length (Blocks c) then Blocks c ! i else None)"
    using store_block_nth by metis
  then show "unat (hdr_Height (blk_Header b')) = i" "BlockIndex (store_block c b) (BlockHeader_GetHash (blk_Header b')) \<noteq> None"
    using assms by (auto simp: chain_ok_def split: if_splits)
next
  show "case Tip (store_block c b) of None \<Rightarrow> Blocks (store_block c b) = []
    | Some t \<Rightarrow> length (Blocks (store_block c b)) = unat (hdr_Height (blk_Header t)) + 1 \<and>
        BlockIndex (store_block c b) (BlockHeader_GetHash (blk_Header t)) \<noteq> None"
    using assms by (auto simp: chain_ok_def store_block_Tip word_less_nat_alt split: option.splits)
qed

lemma GetBlockAtHeight_store_block:
  assumes "length (Blocks c) < 2 ^ 64" and "hdr_Height (blk_Header b) \<noteq> - 1"
  shows "GetBlockAtHeight (store_block c b) (hdr_Height (blk_Header b)) = Some b"
proof -
  let ?n = "unat (hdr_Height (blk_Header b))" and ?l = "length (Blocks (store_block c b))"
  have "?n < unat (- 1 :: u64)" using assms(2) word_order.not_eq_extremum word_less_nat_alt by blast
  then have "?n + 1 < 2 ^ 64" by (simp add: unsigned_minus_1_eq_mask mask_eq_exp_minus_1)
  then have l: "?n < ?l" "?l < 2 ^ 64" using assms(1) by (auto simp: length_store_block simp del: store_block_simps)
  then have "unat (of_nat ?l :: u64) = ?l" by (simp add: unsigned_of_nat take_bit_nat_eq_self del: store_block_simps)
  then have "\<not> hdr_Height (blk_Header b) \<ge> of_nat ?l" using l by (simp add: word_le_nat_alt del: store_block_simps)
  then show ?thesis using store_block_nth[OF l(1)] by (simp add: GetBlockAtHeight_def del: store_block_simps)
qed

lemma reachable_chain_ok: "reachable_chain verify executor c \<Longrightarrow> chain_ok c"
proof (induction rule: reachable_chain.induct)
  case start
  show ?case by (simp add: chain_ok_def NewChain_def)
next
  case (block c b c' e)
  show ?case
  proof (cases e)
    case None
    with block.hyps(2) obtain st where "c' = store_block (SetAccountStates c st) b" using ValidateAndApplyBlock_ok by metis
    moreover have "chain_ok (SetAccountStates c st)" using block.IH by (simp add: chain_ok_def SetAccountStates_def split: option.splits)
    ultimately show ?thesis by (simp only: chain_ok_store_block)
  next
    case (Some a)
    with block.hyps(2) have "c' = c" by (auto simp: ValidateAndApplyBlock_def split: option.splits sum.splits)
    then show ?thesis using block.IH by simp
  qed
qed

section \<open>Properties\<close>

text \<open>
  C12. A block that is executed in full, whose first transaction is its coinbase and pays the fees
  and the reward, whose other transactions are transfers between accounts, on a ledger without
  contracts, raises the sum of all balances by exactly the block reward: the fees that the senders
  pay are the fees that the coinbase mints.
\<close>

theorem block_mints_reward:
  assumes "execute_transactions verify executor 0 (coinbase # txs) (copy_states st) 0 0 = Some (Inr (st', gas, fees))"
    and "tx_Amount coinbase = fees + BlockReward"
    and "tx_From coinbase = zero32" and "\<forall>tx\<in>set txs. ordinary tx" and "no_contracts st"
    and "total_supply st + unat (tx_Amount coinbase) < 2 ^ 63" and "unat fees < 2 ^ 63"
  shows "total_supply st' = total_supply st + unat BlockReward"
proof -
  let ?a = "tx_Amount coinbase" and ?st = "copy_states st"
  obtain st1 where ap: "apply_coinbase coinbase ?st = Some (st1, 0, None)"
    and ex: "execute_transactions verify executor 1 txs st1 0 0 = Some (Inr (st', gas, fees))"
    using assms(1,3) by (auto simp: ValidateTransaction_def ApplyTransaction_def apply_coinbase_def split: option.splits sum.splits)
  have sup1: "total_supply st1 = total_supply st + unat ?a"
    using coinbase_supply[of ?st coinbase] ap assms(6) by auto
  have nc: "no_contracts st1"
    using ap assms(5) no_contracts_copy[of st]
    by (auto simp: no_contracts_def apply_coinbase_def new_account_def split: option.splits sum.splits if_splits)
  have "unat fees + total_supply st' = total_supply st1"
    using ordinary_fees[OF ex assms(4) nc] sup1 assms(6) by simp
  moreover have "unat (fees + BlockReward) = unat fees + unat BlockReward"
    using assms(7) by (intro unat_add_exact) (simp add: money_defs)
  ultimately show ?thesis using sup1 assms(2) by simp
qed

theorem block_mints_reward_witness:
  "\<exists>st' gas. execute_transactions accept None 0
      [(pay 0 bob)\<lparr>tx_From := zero32, tx_Amount := 21000 + BlockReward\<rparr>, pay 30000 bob] (copy_states rich) 0 0
      = Some (Inr (st', gas, 21000)) \<and> total_supply st' = 1000000 + unat BlockReward"
proof -
  let ?cb = "(pay 0 bob)\<lparr>tx_From := zero32, tx_Amount := 21000 + BlockReward\<rparr>"
  have "\<exists>st' gas. execute_transactions accept None 0 [?cb, pay 30000 bob] (copy_states rich) 0 0 = Some (Inr (st', gas, 21000))"
    using FirstUser_not_zero
    by (simp add: ValidateTransaction_def ApplyTransaction_def apply_coinbase_def apply_transfer_def is_deployment_def
        accept_def pay_def rich_def copy_states_def validation_copy_def new_account_def SafeAdd_unat SafeSubtract_unat
        charge_sender_def data_gas_def GasTransfer_def money_defs)
  then obtain st' gas where e: "execute_transactions accept None 0 [?cb, pay 30000 bob] (copy_states rich) 0 0 = Some (Inr (st', gas, 21000))"
    by blast
  have "total_supply st' = total_supply rich + unat BlockReward"
    using FirstUser_not_zero
    by (intro block_mints_reward[OF e])
      (simp_all add: pay_def ordinary_def rich_supply money_defs no_contracts_def, simp add: rich_def new_account_def split: if_splits)
  with e show ?thesis by (simp add: rich_supply)
qed

text \<open>
  C13. A block that \<open>ValidateAndApplyBlock\<close> accepts was executed in full from the accounts of the
  chain, used exactly the gas its header states and no more than the limit of the header, and its
  result is the new account table; the block can be found by its hash and at its height. Unless it
  is the genesis block, its parent is stored and is the tip of the chain, its hash meets the target
  the chain prescribes, its Merkle root and timestamp are right, and its first transaction pays the
  fees and the block reward.
\<close>

theorem accepted_block_sound:
  assumes "ValidateAndApplyBlock verify executor b c = Some (c', None)"
    and "length (Blocks c) < 2 ^ 64"
  shows "\<exists>gas fees. execute_transactions verify executor 0 (blk_Transactions b) (copy_states (chain_AccountStates c)) 0 0
           = Some (Inr (chain_AccountStates c', gas, fees))
    \<and> gas = hdr_GasUsed (blk_Header b) \<and> gas \<le> hdr_GasLimit (blk_Header b)
    \<and> GetBlock c' (BlockHeader_GetHash (blk_Header b)) = Some b
    \<and> GetHeader c' (BlockHeader_GetHash (blk_Header b)) = Some (blk_Header b)
    \<and> GetBlockAtHeight c' (hdr_Height (blk_Header b)) = Some b
    \<and> (BlockHeader_GetHash (blk_Header b) = BlockHeader_GetHash (blk_Header GenesisBlock) \<or>
       (\<exists>parent coinbase txs. GetBlock c (hdr_PreviousHash (blk_Header b)) = Some parent
         \<and> (Tip c = None \<or> hdr_PreviousHash (blk_Header b) = GetTipHash c)
         \<and> GetTargetBits (length (Blocks c)) (Blocks c) = Some (hdr_Bits (blk_Header b))
         \<and> BlockHashMeetsDifficulty (BlockHeader_GetHash (blk_Header b)) (hdr_Bits (blk_Header b))
         \<and> MerkleTransactions (blk_Transactions b) = hdr_MerkleRoot (blk_Header b)
         \<and> hdr_Timestamp (blk_Header parent) < hdr_Timestamp (blk_Header b)
         \<and> blk_Transactions b = coinbase # txs \<and> tx_Amount coinbase = fees + BlockReward))"
proof -
  let ?h = "blk_Header b"
  obtain st gas fees where a: "validateBlockStructure b c = Some None"
      "execute_transactions verify executor 0 (blk_Transactions b) (copy_states (chain_AccountStates c)) 0 0 = Some (Inr (st, gas, fees))"
      "gas = hdr_GasUsed ?h" "gas \<le> hdr_GasLimit ?h" "c' = store_block (SetAccountStates c st) b"
      "uint (hdr_Height ?h) < maxSlots"
    and cb: "BlockHeader_GetHash ?h \<noteq> BlockHeader_GetHash (blk_Header GenesisBlock) \<Longrightarrow>
         \<exists>coinbase txs. blk_Transactions b = coinbase # txs \<and> tx_Amount coinbase = fees + BlockReward"
    using ValidateAndApplyBlock_ok[OF assms(1)] by metis
  have st: "chain_AccountStates c' = st" by (simp add: a(5) SetAccountStates_def)
  have "hdr_Height ?h \<noteq> - 1" using a(6) by (auto simp: maxSlots_eq unsigned_minus_1_eq_mask mask_eq_exp_minus_1)
  then have look: "GetBlock c' (BlockHeader_GetHash ?h) = Some b" "GetHeader c' (BlockHeader_GetHash ?h) = Some ?h"
      "GetBlockAtHeight c' (hdr_Height ?h) = Some b"
    using GetBlockAtHeight_store_block[of "SetAccountStates c st" b] assms(2)
    by (simp_all add: a(5) GetBlock_def GetHeader_def SetAccountStates_def)
  show ?thesis
  proof (cases "BlockHeader_GetHash ?h = BlockHeader_GetHash (blk_Header GenesisBlock)")
    case True
    with a st look show ?thesis by auto
  next
    case False
    obtain parent where p: "GetBlock c (hdr_PreviousHash ?h) = Some parent"
      "\<And>t. Tip c = Some t \<Longrightarrow> hdr_PreviousHash ?h = BlockHeader_GetHash (blk_Header t)"
      "BlockHashMeetsDifficulty (BlockHeader_GetHash ?h) (hdr_Bits ?h)"
      "GetTargetBits (length (Blocks c)) (Blocks c) = Some (hdr_Bits ?h)"
      "MerkleTransactions (blk_Transactions b) = hdr_MerkleRoot ?h"
      "hdr_Timestamp (blk_Header parent) < hdr_Timestamp ?h"
      using validateBlockStructure_ok[OF a(1) False] by metis
    have "Tip c = None \<or> hdr_PreviousHash ?h = GetTipHash c" using p(2) by (cases "Tip c") (auto simp: GetTipHash_def)
    with p(1,3-6) cb[OF False] a(2-4)[folded st] look show ?thesis by blast
  qed
qed

theorem accepted_block_sound_witness:
  "\<exists>c'. ValidateAndApplyBlock accept None GenesisBlock NewChain = Some (c', None) \<and>
     GetBlockAtHeight c' (hdr_Height (blk_Header GenesisBlock)) = Some GenesisBlock"
proof -
  have ap: "apply_coinbase genesisCoinbase (copy_states (chain_AccountStates NewChain)) = Some (genesis_accounts, 0, None)"
    by (simp add: apply_coinbase_def genesisCoinbase_def copy_states_def NewChain_def genesis_accounts_def)
  note g = genesis_executes[OF ap, of accept None]
  have "length (Blocks NewChain) < 2 ^ 64" by (simp add: NewChain_def)
  from accepted_block_sound[OF g this] g show ?thesis by blast
qed

text \<open>
  Starting from an empty chain the genesis block is accepted, becomes block 0 and the tip, and
  creates exactly the ten AUG of the first user.
\<close>

theorem genesis_bootstraps:
  "\<exists>c. ValidateAndApplyBlock verify executor GenesisBlock NewChain = Some (c, None)
    \<and> Blocks c = [Some GenesisBlock] \<and> GetTip c = Some GenesisBlock
    \<and> GetTipHash c = BlockHeader_GetHash (blk_Header GenesisBlock)
    \<and> (\<forall>k. map_of (GetAccountStates c) k = (if k = FirstUser then Some (new_account FirstUser (10 * AUG)) else None))
    \<and> total_supply (GetAccountStates c) = unat (10 * AUG)"
proof -
  have ap: "apply_coinbase genesisCoinbase (copy_states (chain_AccountStates NewChain)) = Some (genesis_accounts, 0, None)"
    by (simp add: apply_coinbase_def genesisCoinbase_def copy_states_def NewChain_def genesis_accounts_def)
  have h: "unat (hdr_Height (blk_Header GenesisBlock)) = 0" by (simp add: GenesisBlock_def genesis_template_def)
  show ?thesis
    using h unfolding genesis_executes[OF ap]
    by (simp add: store_block_Tip GetTip_def GetTipHash_def GetAccountStates_def SetAccountStates_def)
      (simp add: NewChain_def genesis_accounts_def total_supply_def new_account_def)
qed

text \<open>
  The genesis block is accepted again on every chain, wherever its tip: its coinbase is executed
  once more, so that each time ten AUG are created, while the tip stays where it was.
\<close>

theorem genesis_replay_mints:
  assumes "Tip c = Some t" and "total_supply (chain_AccountStates c) + unat (10 * AUG) < 2 ^ 64"
  shows "\<exists>c'. ValidateAndApplyBlock verify executor GenesisBlock c = Some (c', None)
    \<and> total_supply (chain_AccountStates c') = total_supply (chain_AccountStates c) + unat (10 * AUG)
    \<and> Tip c' = Tip c"
proof -
  let ?st = "copy_states (chain_AccountStates c)"
  have "tx_To genesisCoinbase = FirstUser" "tx_Amount genesisCoinbase = 10 * AUG" by (simp_all add: genesisCoinbase_def)
  then obtain st where ap: "apply_coinbase genesisCoinbase ?st = Some (st, 0, None)"
      and sup: "total_supply st = total_supply ?st + unat (10 * AUG)"
    using coinbase_supply[of ?st genesisCoinbase] assms(2) by auto
  have "\<not> hdr_Height (blk_Header GenesisBlock) > hdr_Height (blk_Header t)" by (simp add: GenesisBlock_def genesis_template_def)
  then show ?thesis using sup assms(1) unfolding genesis_executes[OF ap] by (auto simp: store_block_Tip SetAccountStates_def)
qed

theorem genesis_replay_mints_witness:
  "\<exists>c'. ValidateAndApplyBlock accept None GenesisBlock
       (NewChain\<lparr>Tip := Some (block_at 5), chain_AccountStates := rich\<rparr>) = Some (c', None)
    \<and> total_supply (chain_AccountStates c') = 1000000 + unat (10 * AUG)"
  using genesis_replay_mints[of "NewChain\<lparr>Tip := Some (block_at 5), chain_AccountStates := rich\<rparr>" "block_at 5" accept None]
  by (auto simp: rich_supply money_defs)

text \<open>
  C26. On every chain that \<open>ValidateAndApplyBlock\<close> can build from a new one, the block stored at a
  height has that height and is indexed by its hash, and the tip has the greatest height, so the
  list of blocks ends at it.
\<close>

theorem reachable_chain_index:
  assumes "reachable_chain verify executor c"
  shows "(\<forall>i b. i < length (Blocks c) \<and> Blocks c ! i = Some b \<longrightarrow>
        unat (hdr_Height (blk_Header b)) = i \<and> GetBlock c (BlockHeader_GetHash (blk_Header b)) \<noteq> None) \<and>
     (case GetTip c of None \<Rightarrow> Blocks c = []
      | Some t \<Rightarrow> length (Blocks c) = unat (hdr_Height (blk_Header t)) + 1 \<and> GetBlock c (GetTipHash c) \<noteq> None)"
  using reachable_chain_ok[OF assms] unfolding chain_ok_def
  by (auto simp: GetBlock_def GetTip_def GetTipHash_def split: option.splits)

theorem reachable_chain_index_witness:
  "\<exists>c. ValidateAndApplyBlock accept None GenesisBlock NewChain = Some (c, None) \<and>
     (case GetTip c of None \<Rightarrow> Blocks c = []
      | Some t \<Rightarrow> length (Blocks c) = unat (hdr_Height (blk_Header t)) + 1 \<and> GetBlock c (GetTipHash c) \<noteq> None)"
proof -
  have ap: "apply_coinbase genesisCoinbase (copy_states (chain_AccountStates NewChain)) = Some (genesis_accounts, 0, None)"
    by (simp add: apply_coinbase_def genesisCoinbase_def copy_states_def NewChain_def genesis_accounts_def)
  note g = genesis_executes[OF ap, of accept None]
  have "reachable_chain accept None (store_block (SetAccountStates NewChain genesis_accounts) GenesisBlock)"
    by (rule reachable_chain.block[OF reachable_chain.start g])
  from reachable_chain_index[OF this] g show ?thesis by blast
qed

text \<open>
  C27. A list of headers that \<open>ValidateHeaderChain\<close> accepts is a chain: each header names the hash of
  the one before it, heights count up by one (as 64-bit values) and timestamps increase along the
  whole list, and every header but the first meets its own target.
\<close>

theorem header_chain_sound:
  assumes "ValidateHeaderChain hs" and "i < j" and "j < length hs"
  shows "hdr_Height (hs ! j) = hdr_Height (hs ! i) + of_nat (j - i)
    \<and> hdr_Timestamp (hs ! i) < hdr_Timestamp (hs ! j)
    \<and> hdr_PreviousHash (hs ! j) = BlockHeader_GetHash (hs ! (j - 1))
    \<and> BlockHashMeetsDifficulty (BlockHeader_GetHash (hs ! j)) (hdr_Bits (hs ! j))"
proof -
  have l: "\<And>k. Suc k < length hs \<Longrightarrow> linked (hs ! k) (hs ! Suc k)" using header_chain_nth[OF assms(1)] by simp
  note h = linked_heights[of hs, OF l]
  have "hdr_Height (hs ! j) = hdr_Height (hs ! i) + of_nat (j - i)"
    using h(1)[of i] h(1)[of j] assms(2,3) by (simp add: of_nat_diff)
  moreover have "linked (hs ! (j - 1)) (hs ! j)" "ValidateHeaderStructure (hs ! j) = None"
    using header_chain_nth[OF assms(1), of "j - 1"] assms(2,3) by auto
  ultimately show ?thesis using h(2)[of i j] assms(2,3) header_meets_target by (simp add: linked_def)
qed

definition easy_header :: "u64 \<Rightarrow> Hash32 \<Rightarrow> string \<Rightarrow> BlockHeader" where
  "easy_header n prev work = (blk_Header (block_at n))\<lparr>hdr_Height := n, hdr_PreviousHash := prev, hdr_Bits := 0x2200ffff, hdr_TotalWork := work\<rparr>"

lemma easy_header_structure: "n \<noteq> 0 \<Longrightarrow> ValidateHeaderStructure (easy_header n prev work) = None"
proof -
  have "CompactToBig 0x2200ffff \<ge> 2 ^ 256" by code_simp
  then show "n \<noteq> 0 \<Longrightarrow> ?thesis"
    using big_SetBytes_bound[of "BlockHeader_GetHash (easy_header n prev work)"]
    by (simp add: ValidateHeaderStructure_def BlockHashMeetsDifficulty_def BlockHeader_GetHash_def)
      (simp add: easy_header_def)
qed

lemma easy_header_simps [simp]:
  "hdr_Height (easy_header n p w) = n" "hdr_Timestamp (easy_header n p w) = n"
  "hdr_PreviousHash (easy_header n p w) = p" "hdr_TotalWork (easy_header n p w) = w"
  "hdr_Bits (easy_header n p w) = 0x2200ffff"
  by (simp_all add: easy_header_def block_at_def)

theorem header_chain_sound_witness:
  "let g = easy_header 1 zero32 ''1''; h = easy_header 2 (BlockHeader_GetHash g) ''1'';
       k = easy_header 3 (BlockHeader_GetHash h) ''1''
   in ValidateHeaderChain [g, h, k] \<and> hdr_Height k = hdr_Height g + 2"
proof -
  define g h k where "g = easy_header 1 zero32 ''1''" and "h = easy_header 2 (BlockHeader_GetHash g) ''1''"
    and "k = easy_header 3 (BlockHeader_GetHash h) ''1''"
  have v: "ValidateHeaderChain [g, h, k]"
    by (simp add: h_def k_def easy_header_structure) (simp add: g_def)
  from header_chain_sound[OF v, of 0 2] v show ?thesis
    unfolding Let_def g_def h_def k_def by simp
qed

text \<open>
  C28. A list of headers above the genesis height that \<open>ValidateHeaderChainWithWork\<close> accepts from a
  decimal starting work states, in its last header, the decimal text of that work plus the work of
  every header of the list; each header links to the one before and meets its own target.
\<close>

theorem header_chain_work:
  assumes "ValidateHeaderChainWithWork hs (big_String w)" and "\<forall>h\<in>set hs. hdr_Height h > 0"
  shows "hdr_TotalWork (last hs) = big_String (w + (\<Sum>h\<leftarrow>hs. GetBlockWork (hdr_Bits h)))
    \<and> (\<forall>i. Suc i < length hs \<longrightarrow> linked (hs ! i) (hs ! Suc i))
    \<and> (\<forall>h\<in>set hs. BlockHashMeetsDifficulty (BlockHeader_GetHash h) (hdr_Bits h))"
proof -
  have l: "header_work_loop hs None (big_String w)" and ne: "hs \<noteq> []"
    using assms(1) by (auto simp: ValidateHeaderChainWithWork_def split: if_splits)
  have s: "ValidateHeaderStructure h = None" if "h \<in> set hs" for h using work_loop_linked[OF l] that by blast
  have "\<forall>h\<in>set hs. BlockHashMeetsDifficulty (BlockHeader_GetHash h) (hdr_Bits h)"
    using s header_meets_target by blast
  with work_loop_total[OF l assms(2) ne] work_loop_linked[OF l] show ?thesis by blast
qed

theorem header_chain_work_witness:
  "let g = easy_header 1 zero32 (big_String 7); h = easy_header 2 (BlockHeader_GetHash g) (big_String 7)
   in ValidateHeaderChainWithWork [g, h] (big_String 7) \<and>
      hdr_TotalWork h = big_String (7 + (GetBlockWork (hdr_Bits g) + GetBlockWork (hdr_Bits h)))"
proof -
  define g h where "g = easy_header 1 zero32 (big_String 7)" and "h = easy_header 2 (BlockHeader_GetHash g) (big_String 7)"
  have w: "GetBlockWork 0x2200ffff = 0" by code_simp
  have t: "AddWork (big_String 7) (CalculateBlockWorkFromBits 0x2200ffff) = big_String 7"
    by (simp add: CalculateBlockWorkFromBits_String AddWork_String w)
  have v: "ValidateHeaderChainWithWork [g, h] (big_String 7)"
    by (simp add: ValidateHeaderChainWithWork_def ValidateHeaderTotalWork_def h_def easy_header_structure t linked_def)
      (simp add: g_def easy_header_structure t)
  from header_chain_work[OF v] v show ?thesis unfolding Let_def g_def h_def by simp
qed

end
