(* ===== verification/Merkle.thy ===== *)
theory Merkle
  imports Ledger "HOL-Library.Multiset"
begin

text \<open>
  What the roots of \<open>src/blockchain/crypto.go\<close> commit to: the exchange sort orders its keys, so that
  the roots of storage and state do not depend on the order in which a Go map is walked; two lists
  of transactions of one length with the same root have the same contents, or two of the messages
  hashed on the way to the two roots collide.
\<close>

section \<open>The exchange sort\<close>

text \<open>
  \<open>gt\<close> is a strict total order on the elements \<open>A\<close>; the sort then returns the one sorted
  arrangement of its argument.
\<close>

locale strict_order =
  fixes gt :: "'a \<Rightarrow> 'a \<Rightarrow> bool" and A :: "'a set"
  assumes gt_irrefl: "x \<in> A \<Longrightarrow> \<not> gt x x"
    and gt_trans: "x \<in> A \<Longrightarrow> y \<in> A \<Longrightarrow> z \<in> A \<Longrightarrow> gt x y \<Longrightarrow> gt y z \<Longrightarrow> gt x z"
    and gt_total: "x \<in> A \<Longrightarrow> y \<in> A \<Longrightarrow> x \<noteq> y \<Longrightarrow> gt x y \<or> gt y x"
begin

lemma pass_mset: "exchange_pass gt x ys = (m, zs) \<Longrightarrow> add_mset m (mset zs) = add_mset x (mset ys)"
proof (induction ys arbitrary: x m zs)
  case (Cons y ys)
  show ?case
  proof (cases "gt x y")
    case True
    then obtain ws where "exchange_pass gt y ys = (m, ws)" "zs = x # ws"
      using Cons.prems by (auto split: prod.splits)
    with Cons.IH[of y m ws] show ?thesis by (simp add: add_mset_commute)
  next
    case False
    then obtain ws where "exchange_pass gt x ys = (m, ws)" "zs = y # ws"
      using Cons.prems by (auto split: prod.splits)
    with Cons.IH[of x m ws] show ?thesis by (simp add: add_mset_commute)
  qed
qed simp

lemma pass_set: "exchange_pass gt x ys = (m, zs) \<Longrightarrow> insert m (set zs) = insert x (set ys)"
  using pass_mset[of x ys m zs] by (metis set_mset_add_mset_insert set_mset_mset)

lemma pass_min:
  "exchange_pass gt x ys = (m, zs) \<Longrightarrow> insert x (set ys) \<subseteq> A \<Longrightarrow>
     (m = x \<or> gt x m) \<and> (\<forall>z\<in>set zs. z = m \<or> gt z m)"
proof (induction ys arbitrary: x m zs)
  case (Cons y ys)
  have A: "x \<in> A" "y \<in> A" "m \<in> A"
    using pass_set[OF Cons.prems(1)] Cons.prems(2) by auto
  show ?case
  proof (cases "gt x y")
    case True
    then obtain ws where ws: "exchange_pass gt y ys = (m, ws)" "zs = x # ws"
      using Cons.prems by (auto split: prod.splits)
    with Cons.IH[of y m ws] Cons.prems(2) have "m = y \<or> gt y m" "\<forall>z\<in>set ws. z = m \<or> gt z m" by auto
    with True gt_trans[of x y m] A ws show ?thesis by auto
  next
    case False
    then obtain ws where ws: "exchange_pass gt x ys = (m, ws)" "zs = y # ws"
      using Cons.prems by (auto split: prod.splits)
    with Cons.IH[of x m ws] Cons.prems(2) have "m = x \<or> gt x m" "\<forall>z\<in>set ws. z = m \<or> gt z m" by auto
    with False gt_total[of x y] gt_trans[of y x m] A ws show ?thesis by auto
  qed
qed simp

lemma sort_mset: "mset (exchange_sort gt xs) = mset xs"
proof (induction "length xs" arbitrary: xs)
  case (Suc n)
  then obtain x ys where xs: "xs = x # ys" by (cases xs) auto
  obtain m zs where p: "exchange_pass gt x ys = (m, zs)" by fastforce
  then have "length zs = n" using length_exchange_pass[of gt x ys] Suc.hyps xs by simp
  with Suc.hyps(1)[of zs] p pass_mset[OF p] xs show ?case by simp
qed simp

lemma sort_sorted: "set xs \<subseteq> A \<Longrightarrow> sorted_wrt (\<lambda>x y. x = y \<or> gt y x) (exchange_sort gt xs)"
proof (induction "length xs" arbitrary: xs)
  case (Suc n)
  then obtain x ys where xs: "xs = x # ys" by (cases xs) auto
  obtain m zs where p: "exchange_pass gt x ys = (m, zs)" by fastforce
  then have n: "length zs = n" using length_exchange_pass[of gt x ys] Suc.hyps xs by simp
  have "set (exchange_sort gt zs) = set zs" using sort_mset[of zs] by (metis set_mset_mset)
  moreover have "set zs \<subseteq> A" using pass_set[OF p] Suc.prems xs by auto
  ultimately show ?case
    using Suc.hyps(1)[of zs] n p pass_min[OF p] Suc.prems xs by auto
qed simp

lemma sorted_unique:
  "sorted_wrt (\<lambda>x y. x = y \<or> gt y x) xs \<Longrightarrow> sorted_wrt (\<lambda>x y. x = y \<or> gt y x) ys \<Longrightarrow>
     mset xs = mset ys \<Longrightarrow> set xs \<subseteq> A \<Longrightarrow> xs = ys"
proof (induction xs arbitrary: ys)
  case (Cons x xs)
  then obtain y ys' where ys: "ys = y # ys'" by (cases ys) auto
  have "x \<in> set ys" "y \<in> insert x (set xs)" using Cons.prems(3) ys
    by (metis list.set_intros(1) set_mset_mset, metis list.set_intros(1) list.simps(15) set_mset_mset)
  moreover from this have "x \<in> A" "y \<in> A" using Cons.prems(4) by auto
  moreover from calculation have "x = y \<or> gt x y" "x = y \<or> gt y x"
    using Cons.prems(1,2) ys by auto
  ultimately have "x = y" using gt_irrefl gt_trans[of x y x] by blast
  with Cons ys show ?case by simp
qed simp

lemma sort_unique: "mset xs = mset ys \<Longrightarrow> set xs \<subseteq> A \<Longrightarrow> exchange_sort gt xs = exchange_sort gt ys"
proof -
  assume m: "mset xs = mset ys" and A: "set xs \<subseteq> A"
  then have "set ys \<subseteq> A" by (metis set_mset_mset)
  then show ?thesis
    using sorted_unique[OF sort_sorted[OF A] sort_sorted[of ys]] sort_mset[of xs] sort_mset[of ys] m A
    by (metis set_mset_mset)
qed

end

interpretation str: strict_order string_gt UNIV
proof
  show "\<not> string_gt x x" for x by (induction x) auto
  show "string_gt x y \<Longrightarrow> string_gt y z \<Longrightarrow> string_gt x z" for x y z
  proof (induction x y arbitrary: z rule: string_gt.induct)
    case (3 x xs y ys)
    then show ?case by (cases z) auto
  qed (auto elim: string_gt.elims)
  show "x \<noteq> y \<Longrightarrow> string_gt x y \<or> string_gt y x" for x y
  proof (induction x y rule: string_gt.induct)
    case (1 ys)
    then show ?case by (cases ys) auto
  next
    case (3 x xs y ys)
    have "x \<noteq> y \<Longrightarrow> of_char x \<noteq> (of_char y :: int)" by simp
    with 3 show ?case by (auto simp: neq_iff)
  qed simp
qed

interpretation addr: strict_order address_gt "{a. length a = n}"
proof
  show "\<not> address_gt x x" for x by (induction x) auto
  show "x \<in> {a. length a = n} \<Longrightarrow> y \<in> {a. length a = n} \<Longrightarrow> z \<in> {a. length a = n} \<Longrightarrow>
      address_gt x y \<Longrightarrow> address_gt y z \<Longrightarrow> address_gt x z" for x y z
  proof (induction x y arbitrary: z n rule: address_gt.induct)
    case (1 a as b bs)
    then show ?case by (cases z) (auto split: if_splits)
  qed auto
  show "x \<in> {a. length a = n} \<Longrightarrow> y \<in> {a. length a = n} \<Longrightarrow> x \<noteq> y \<Longrightarrow> address_gt x y \<or> address_gt y x" for x y
    by (induction x y arbitrary: n rule: address_gt.induct) (auto simp: neq_iff)
qed

section \<open>Order independence\<close>

lemma map_of_mset:
  assumes "distinct (map fst m1)" "distinct (map fst m2)" "map_of m1 = map_of m2"
  shows "mset (map fst m1) = mset (map fst m2)"
proof -
  have "set (map fst m1) = set (map fst m2)"
    using assms(3) by (metis dom_map_of_conv_image_fst list.set_map)
  with assms show ?thesis using set_eq_iff_mset_eq_distinct by blast
qed

lemma map_of_Nil_iff: "map_of m = map_of n \<Longrightarrow> m = [] \<longleftrightarrow> n = []"
  by (metis map_of_eq_empty_iff)

section \<open>Merkle trees\<close>

lemma merkle_loop_one: "length hs \<le> 1 \<Longrightarrow> merkle_loop hs = hs"
  by (subst merkle_loop.simps) simp

lemma merkle_loop_level: "length hs > 1 \<Longrightarrow> merkle_loop hs = merkle_loop (new_level hs)"
  by (subst merkle_loop.simps) simp

lemma length_merkle_loop: "hs \<noteq> [] \<Longrightarrow> length (merkle_loop hs) = 1"
proof (induction hs rule: merkle_loop.induct)
  case (1 hs)
  show ?case
  proof (cases "length hs > 1")
    case True
    then have "new_level hs \<noteq> []" using length_new_level[of hs] by auto
    with 1 True show ?thesis by (simp add: merkle_loop_level)
  next
    case False
    with 1(2) show ?thesis by (cases hs) (simp_all add: merkle_loop_one)
  qed
qed

definition hashes32 :: "byte list list \<Rightarrow> bool" where
  "hashes32 hs \<longleftrightarrow> (\<forall>h\<in>set hs. length h = 32)"

text \<open>
  The messages hashed on the way to a root: the neighbours of a level, joined, level by level; for
  the root of the transactions also the contents of the transactions, which come first.
\<close>

fun pair_messages :: "byte list list \<Rightarrow> byte list list" where
  "pair_messages (a # b # hs) = (a @ b) # pair_messages hs"
| "pair_messages hs = []"

definition level_messages :: "byte list list \<Rightarrow> byte list list" where
  "level_messages hs = pair_messages (if odd (length hs) then hs @ [last hs] else hs)"

function merkle_messages :: "byte list list \<Rightarrow> byte list list" where
  "merkle_messages hs = (if length hs > 1 then level_messages hs @ merkle_messages (map sha256 (level_messages hs)) else [])"
  by pat_completeness auto
termination
proof (relation "measure length")
  fix hs :: "byte list list"
  have "length (pair_messages xs) = length xs div 2" for xs
    by (induction xs rule: pair_messages.induct) auto
  then show "length hs > 1 \<Longrightarrow> (map sha256 (level_messages hs), hs) \<in> measure length"
    by (auto simp: level_messages_def elim!: oddE)
qed simp

declare merkle_messages.simps [simp del]

definition root_messages :: "Transaction list \<Rightarrow> byte list list" where
  "root_messages ts = map Transaction_bytes ts @ merkle_messages (map (\<lambda>t. sha256 (Transaction_bytes t)) ts)"

lemma hash_pairs_messages: "hash_pairs hs = map sha256 (pair_messages hs)"
  by (induction hs rule: hash_pairs.induct) simp_all

lemma new_level_messages: "new_level hs = map sha256 (level_messages hs)"
  by (simp add: new_level_def level_messages_def hash_pairs_messages)

lemma merkle_messages_level:
  "length hs > 1 \<Longrightarrow> merkle_messages hs = level_messages hs @ merkle_messages (new_level hs)"
  by (subst merkle_messages.simps) (simp add: new_level_messages)

lemma length_level_messages: "length (level_messages hs) = (length hs + 1) div 2"
  using length_new_level[of hs] by (simp add: new_level_messages)

lemma pair_messages_inject:
  "pair_messages xs = pair_messages ys \<Longrightarrow> length xs = length ys \<Longrightarrow> even (length xs) \<Longrightarrow> hashes32 xs \<Longrightarrow>
     hashes32 ys \<Longrightarrow> xs = ys"
proof (induction xs arbitrary: ys rule: pair_messages.induct)
  case (1 a b hs)
  then obtain c d hs' where ys: "ys = c # d # hs'" by (cases ys rule: pair_messages.cases) auto
  with 1 show ?case by (simp add: hashes32_def)
qed auto

lemma level_messages_inject:
  assumes "level_messages xs = level_messages ys" "length xs = length ys" "hashes32 xs" "hashes32 ys"
  shows "xs = ys"
proof (cases "odd (length xs)")
  case True
  then have "xs \<noteq> []" "ys \<noteq> []" using assms(2) by auto
  then have "hashes32 (xs @ [last xs])" "hashes32 (ys @ [last ys])"
    using assms(3,4) by (auto simp: hashes32_def)
  with assms True show ?thesis
    using pair_messages_inject[of "xs @ [last xs]" "ys @ [last ys]"] by (auto simp: level_messages_def)
next
  case False
  with assms pair_messages_inject[of xs ys] show ?thesis by (auto simp: level_messages_def)
qed

lemma merkle_loop_inject:
  "merkle_loop xs = merkle_loop ys \<Longrightarrow> length xs = length ys \<Longrightarrow> hashes32 xs \<Longrightarrow> hashes32 ys \<Longrightarrow>
     xs = ys \<or> collide sha256 (merkle_messages xs) (merkle_messages ys)"
proof (induction xs arbitrary: ys rule: merkle_loop.induct)
  case (1 xs)
  show ?case
  proof (cases "length xs > 1")
    case True
    with 1(3) have ys: "length ys > 1" by simp
    have l: "length (level_messages xs) = length (level_messages ys)" "length (new_level xs) = length (new_level ys)"
      using 1(3) by (simp_all add: length_level_messages length_new_level)
    have h: "hashes32 (new_level hs)" for hs
      using sha.lengths_H by (simp add: hashes32_def new_level_messages)
    have "merkle_loop (new_level xs) = merkle_loop (new_level ys)"
      using 1 True by (simp add: merkle_loop_level)
    then have "new_level xs = new_level ys \<or> collide sha256 (merkle_messages (new_level xs)) (merkle_messages (new_level ys))"
      using 1(1)[OF True _ l(2) h h] by simp
    then have "level_messages xs = level_messages ys \<or> collide sha256 (merkle_messages xs) (merkle_messages ys)"
      unfolding merkle_messages_level[OF True] merkle_messages_level[OF ys] new_level_messages sha.collide_append[OF l(1)]
      using sha.digests_inject[of "level_messages xs" "level_messages ys"] by blast
    then show ?thesis using level_messages_inject[of xs ys] 1(3-5) by blast
  next
    case False
    with 1 show ?thesis by (simp add: merkle_loop_one)
  qed
qed

text \<open>A list of odd length and the list with its last element repeated have one root.\<close>

lemma merkle_loop_repeat:
  assumes "odd (length hs)" "length hs > 1"
  shows "merkle_loop (hs @ [last hs]) = merkle_loop hs"
proof -
  have "new_level (hs @ [last hs]) = new_level hs" using assms(1) by (simp add: new_level_def)
  moreover have "hs \<noteq> []" using assms(2) by auto
  ultimately show ?thesis
    using merkle_loop_level[of hs] merkle_loop_level[of "hs @ [last hs]"] assms(2) by simp
qed

section \<open>Properties\<close>

text \<open>
  C32. Two blocks' transaction lists of the same length with the same Merkle root have the same
  hashed contents transaction by transaction, unless two different messages at one place of
  \<open>root_messages\<close>, the messages hashed on the way to the two roots, have the same SHA-256 digest.
\<close>

theorem MerkleTransactions_binding:
  assumes "MerkleTransactions ts = MerkleTransactions us" and "length ts = length us"
  shows "map Transaction_bytes ts = map Transaction_bytes us \<or> collide sha256 (root_messages ts) (root_messages us)"
proof (cases "ts = []")
  case False
  let ?h = "\<lambda>l. map sha256 (map Transaction_bytes l)"
  have us: "us \<noteq> []" using False assms(2) by auto
  have m: "MerkleTransactions l = hd (merkle_loop (?h l))" if "l \<noteq> []" for l
    using that by (simp add: MerkleTransactions_def Transaction_GetHash_def [abs_def] comp_def)
  have "length (merkle_loop (?h ts)) = 1" "length (merkle_loop (?h us)) = 1" using False us by (simp_all add: length_merkle_loop)
  then have "merkle_loop (?h ts) = merkle_loop (?h us)"
    using assms(1) m False us by (cases "merkle_loop (?h ts)"; cases "merkle_loop (?h us)") auto
  then have "?h ts = ?h us \<or> collide sha256 (merkle_messages (?h ts)) (merkle_messages (?h us))"
    using assms(2) sha.lengths_H by (intro merkle_loop_inject) (simp_all add: hashes32_def)
  moreover have "root_messages l = map Transaction_bytes l @ merkle_messages (?h l)" for l
    by (simp add: root_messages_def comp_def)
  ultimately show ?thesis
    using sha.digests_inject[of "map Transaction_bytes ts" "map Transaction_bytes us"]
      sha.collide_append[of "map Transaction_bytes ts" "map Transaction_bytes us"] assms(2)
    by auto
qed (use assms in simp)

text \<open>An empty transaction from one account, with a given nonce.\<close>

definition plain_tx :: "u64 \<Rightarrow> Transaction" where
  "plain_tx n = \<lparr>tx_From = FirstUser, tx_To = zero32, tx_Amount = 0, tx_Signature = [], tx_Nonce = n,
     tx_Timestamp = 0, tx_ChainID = 1, tx_Instructions = [], tx_GasLimit = 21000, tx_GasPrice = 1, tx_Data = []\<rparr>"

text \<open>The signature is no part of the hashed contents, so that a block signed anew keeps its root.\<close>

theorem MerkleTransactions_binding_witness:
  "map Transaction_bytes [plain_tx 1, plain_tx 2, plain_tx 3] =
     map Transaction_bytes [plain_tx 1, (plain_tx 2)\<lparr>tx_Signature := [1]\<rparr>, plain_tx 3] \<or>
   collide sha256 (root_messages [plain_tx 1, plain_tx 2, plain_tx 3])
     (root_messages [plain_tx 1, (plain_tx 2)\<lparr>tx_Signature := [1]\<rparr>, plain_tx 3])"
proof (rule MerkleTransactions_binding)
  have "Transaction_GetHash ((plain_tx 2)\<lparr>tx_Signature := [1]\<rparr>) = Transaction_GetHash (plain_tx 2)"
    by (simp add: Transaction_GetHash_def Transaction_bytes_def)
  then show "MerkleTransactions [plain_tx 1, plain_tx 2, plain_tx 3] =
      MerkleTransactions [plain_tx 1, (plain_tx 2)\<lparr>tx_Signature := [1]\<rparr>, plain_tx 3]"
    by (simp add: MerkleTransactions_def)
qed simp

text \<open>
  The length matters: appending a second copy of the last transaction of a block with an odd
  number of transactions, at least three, does not change its Merkle root.
\<close>

theorem MerkleTransactions_duplicate:
  assumes "odd (length ts)" and "length ts > 1"
  shows "MerkleTransactions (ts @ [last ts]) = MerkleTransactions ts"
proof -
  have "ts \<noteq> []" using assms(2) by auto
  then have "map Transaction_GetHash (ts @ [last ts]) = map Transaction_GetHash ts @ [last (map Transaction_GetHash ts)]"
    by (simp add: last_map)
  with merkle_loop_repeat[of "map Transaction_GetHash ts"] assms \<open>ts \<noteq> []\<close> show ?thesis
    by (simp add: MerkleTransactions_def)
qed

theorem MerkleTransactions_duplicate_witness:
  "MerkleTransactions [plain_tx 1, plain_tx 2, plain_tx 3, plain_tx 3] = MerkleTransactions [plain_tx 1, plain_tx 2, plain_tx 3]"
  using MerkleTransactions_duplicate[of "[plain_tx 1, plain_tx 2, plain_tx 3]"] by simp

text \<open>
  The storage root of a contract depends on the content of its storage only, not on the order
  in which Go walks the map: the exchange sort puts the keys in one order. A Go map has distinct keys.
\<close>

theorem ComputeStorageRoot_order_independent:
  assumes "distinct (go_keys p)" and "distinct (go_keys q)" and "map_of p = map_of q"
  shows "ComputeStorageRoot p = ComputeStorageRoot q"
  using str.sort_unique[OF map_of_mset[OF assms]] map_of_Nil_iff[OF assms(3)] assms(3)
  by (simp add: ComputeStorageRoot_def)

theorem ComputeStorageRoot_order_independent_witness:
  "ComputeStorageRoot [(''b'', ''1''), (''a'', ''2'')] = ComputeStorageRoot [(''a'', ''2''), (''b'', ''1'')]"
  by (rule ComputeStorageRoot_order_independent) auto

text \<open>
  C33. The state root of the chain depends on the accounts only, not on the order in which Go walks
  the map of the accounts, whose addresses have 32 bytes.
\<close>

theorem ComputeStateRoot_order_independent:
  assumes "distinct (go_keys s)" and "distinct (go_keys t)" and "map_of s = map_of t"
    and "\<forall>a\<in>set (go_keys s). length a = 32"
  shows "ComputeStateRoot s = ComputeStateRoot t"
proof -
  have "exchange_sort address_gt (go_keys s) = exchange_sort address_gt (go_keys t)"
    using addr.sort_unique[OF map_of_mset[OF assms(1-3)], of 32] assms(4) by blast
  with map_of_Nil_iff[OF assms(3)] assms(3) show ?thesis by (simp add: ComputeStateRoot_def)
qed

theorem ComputeStateRoot_order_independent_witness:
  "ComputeStateRoot [(zero32, new_account zero32 1), (FirstUser, new_account FirstUser 2)] =
   ComputeStateRoot [(FirstUser, new_account FirstUser 2), (zero32, new_account zero32 1)]"
  using FirstUser_not_zero by (intro ComputeStateRoot_order_independent) auto

text \<open>
  The hash that a transaction's signature covers does not tell code from data: a deployment
  and the transaction without code whose data starts with the code hash have the same hash.
\<close>

theorem Transaction_hash_code_or_data:
  assumes "tx_Instructions t \<noteq> []"
  shows "Transaction_GetHash (t\<lparr>tx_Instructions := [], tx_Data := ComputeCodeHash (tx_Instructions t) @ tx_Data t\<rparr>)
       = Transaction_GetHash t"
  using assms by (simp add: Transaction_GetHash_def Transaction_bytes_def)

theorem Transaction_hash_code_or_data_witness:
  "Transaction_GetHash ((plain_tx 1)\<lparr>tx_Instructions := [], tx_Data := ComputeCodeHash [MakeInstruction STOP]\<rparr>)
   = Transaction_GetHash ((plain_tx 1)\<lparr>tx_Instructions := [MakeInstruction STOP]\<rparr>)"
  using Transaction_hash_code_or_data[of "(plain_tx 1)\<lparr>tx_Instructions := [MakeInstruction STOP]\<rparr>"]
  by (simp add: plain_tx_def)

text \<open>
  The code hash does not separate a pushed literal from the opcodes after it: two programs
  that both pass validation and do different things, pushing 21 and pushing 2 and then the
  transaction data, have the same code hash, so that a signature on the deployment of one is a
  signature on the deployment of the other.
\<close>

theorem ComputeCodeHash_ambiguous:
  "let p = [MakePushInstruction ''21'']; q = [MakePushInstruction ''2'', MakeInstruction TSXDATA] in
     (\<forall>ins\<in>set (p @ q). ValidateInstruction ins = None) \<and> p \<noteq> q \<and> ComputeCodeHash p = ComputeCodeHash q
     \<and> Transaction_GetHash (t\<lparr>tx_Instructions := p\<rparr>) = Transaction_GetHash (t\<lparr>tx_Instructions := q\<rparr>)"
proof -
  let ?p = "[MakePushInstruction ''21'']" and ?q = "[MakePushInstruction ''2'', MakeInstruction TSXDATA]"
  have v: "\<forall>ins\<in>set (?p @ ?q). ValidateInstruction ins = None" by code_simp
  have "concat (map instruction_bytes ?p) = concat (map instruction_bytes ?q)" by code_simp
  then have c: "ComputeCodeHash ?p = ComputeCodeHash ?q" by (simp add: ComputeCodeHash_def)
  then have "Transaction_GetHash (t\<lparr>tx_Instructions := ?p\<rparr>) = Transaction_GetHash (t\<lparr>tx_Instructions := ?q\<rparr>)"
    by (simp add: Transaction_GetHash_def Transaction_bytes_def)
  with v c show ?thesis by (simp add: Let_def)
qed

theorem ComputeCodeHash_ambiguous_witness:
  "ComputeCodeHash [MakePushInstruction ''21''] = ComputeCodeHash [MakePushInstruction ''2'', MakeInstruction TSXDATA]"
  using ComputeCodeHash_ambiguous[of "plain_tx 1"] by (simp add: Let_def)

end
