(* ===== verification/Converters.thy ===== *)
theory Converters
  imports Merkle
begin

text \<open>
  \<open>src/libnet/converters.go\<close>: the conversion of instructions, transactions, headers and blocks to the
  messages of \<open>src/libnet/protobuf/rpc.pb.go\<close> and back. In a message a key or a hash is a slice of any
  length, copied into an array of fixed length on the way back, and an embedded message may be nil.
  \<open>None\<close> is a panic: an opcode of no bytes, or a block without a header.
\<close>

section \<open>Messages\<close>

record InstructionData =
  pi_Opcode :: "byte list"
  pi_Value :: "byte list"

record TransactionData =
  pt_Frompk :: "byte list"
  pt_Topk :: "byte list"
  pt_Amount :: u64
  pt_Signature :: "byte list"
  pt_Nonce :: u64
  pt_Timestamp :: u64
  pt_Chainid :: u64
  pt_Instructions :: "InstructionData list"
  pt_GasLimit :: u64
  pt_GasPrice :: u64
  pt_Data :: "byte list"

record HeaderData =
  ph_Version :: u64
  ph_PreviousHash :: "byte list"
  ph_Height :: u64
  ph_Timestamp :: u64
  ph_Nonce :: u64
  ph_MerkleRoot :: "byte list"
  ph_StateRoot :: "byte list"
  ph_Bits :: u32
  ph_TotalWork :: string
  ph_GasLimit :: u64
  ph_GasUsed :: u64
  ph_Beneficiary :: "byte list"

record BlockData =
  pb_Header :: "HeaderData option"
  pb_Transactions :: "TransactionData list"

section \<open>Conversions\<close>

text \<open>\<open>copy\<close> of a slice into an array of \<open>n\<close> zero bytes.\<close>

definition copy_array :: "nat \<Rightarrow> byte list \<Rightarrow> byte list" where
  "copy_array n bs = take n bs @ replicate (n - length bs) 0"

fun all_some :: "'a option list \<Rightarrow> 'a list option" where
  "all_some [] = Some []"
| "all_some (x # xs) = (case x of None \<Rightarrow> None | Some y \<Rightarrow> map_option (Cons y) (all_some xs))"

definition InstructionToProtoInstruction :: "Instruction \<Rightarrow> InstructionData" where
  "InstructionToProtoInstruction instr =
     \<lparr>pi_Opcode = [opcode_byte (Opcode instr)],
      pi_Value = (case Value instr of None \<Rightarrow> [] | Some v \<Rightarrow> bytes_of_string v)\<rparr>"

definition ProtoInstructionToInstruction :: "InstructionData \<Rightarrow> Instruction option" where
  "ProtoInstructionToInstruction protoInstr = (case pi_Opcode protoInstr of
      [] \<Rightarrow> None
    | b # _ \<Rightarrow> Some \<lparr>Opcode = opcode_of_byte b,
                    Value = (if length (pi_Value protoInstr) > 0 then Some (string_of_bytes (pi_Value protoInstr)) else None)\<rparr>)"

definition TransactionToProtoTransaction :: "Transaction \<Rightarrow> TransactionData" where
  "TransactionToProtoTransaction tx =
     \<lparr>pt_Frompk = tx_From tx, pt_Topk = tx_To tx, pt_Amount = tx_Amount tx, pt_Signature = tx_Signature tx,
      pt_Nonce = tx_Nonce tx, pt_Timestamp = tx_Timestamp tx, pt_Chainid = tx_ChainID tx,
      pt_Instructions = map InstructionToProtoInstruction (tx_Instructions tx),
      pt_GasLimit = tx_GasLimit tx, pt_GasPrice = tx_GasPrice tx, pt_Data = tx_Data tx\<rparr>"

definition ProtoTransactionToTransaction :: "TransactionData \<Rightarrow> Transaction option" where
  "ProtoTransactionToTransaction protoTx =
     (case all_some (map ProtoInstructionToInstruction (pt_Instructions protoTx)) of
        None \<Rightarrow> None
      | Some instructions \<Rightarrow> Some
          \<lparr>tx_From = copy_array 32 (pt_Frompk protoTx), tx_To = copy_array 32 (pt_Topk protoTx), tx_Amount = pt_Amount protoTx,
           tx_Signature = copy_array 64 (pt_Signature protoTx), tx_Nonce = pt_Nonce protoTx, tx_Timestamp = pt_Timestamp protoTx,
           tx_ChainID = pt_Chainid protoTx, tx_Instructions = instructions, tx_GasLimit = pt_GasLimit protoTx,
           tx_GasPrice = pt_GasPrice protoTx, tx_Data = pt_Data protoTx\<rparr>)"

definition BlockHeaderToProtoHeader :: "BlockHeader \<Rightarrow> HeaderData" where
  "BlockHeaderToProtoHeader h =
     \<lparr>ph_Version = hdr_Version h, ph_PreviousHash = hdr_PreviousHash h, ph_Height = hdr_Height h,
      ph_Timestamp = hdr_Timestamp h, ph_Nonce = hdr_Nonce h, ph_MerkleRoot = hdr_MerkleRoot h,
      ph_StateRoot = hdr_StateRoot h, ph_Bits = hdr_Bits h, ph_TotalWork = hdr_TotalWork h,
      ph_GasLimit = hdr_GasLimit h, ph_GasUsed = hdr_GasUsed h, ph_Beneficiary = hdr_Beneficiary h\<rparr>"

definition ProtoHeaderToBlockHeader :: "HeaderData \<Rightarrow> BlockHeader" where
  "ProtoHeaderToBlockHeader h =
     \<lparr>hdr_Version = ph_Version h, hdr_PreviousHash = copy_array 32 (ph_PreviousHash h), hdr_Height = ph_Height h,
      hdr_Timestamp = ph_Timestamp h, hdr_Nonce = ph_Nonce h, hdr_MerkleRoot = copy_array 32 (ph_MerkleRoot h),
      hdr_StateRoot = copy_array 32 (ph_StateRoot h), hdr_ReceiptRoot = zero32, hdr_Bits = ph_Bits h,
      hdr_TotalWork = ph_TotalWork h, hdr_GasLimit = ph_GasLimit h, hdr_GasUsed = ph_GasUsed h,
      hdr_Beneficiary = copy_array 32 (ph_Beneficiary h)\<rparr>"

definition BlockToProtoBlock :: "Block \<Rightarrow> BlockData" where
  "BlockToProtoBlock block =
     \<lparr>pb_Header = Some (BlockHeaderToProtoHeader (blk_Header block)),
      pb_Transactions = map TransactionToProtoTransaction (blk_Transactions block)\<rparr>"

definition ProtoBlockToBlock :: "BlockData \<Rightarrow> Block option" where
  "ProtoBlockToBlock protoBlock =
     (case all_some (map ProtoTransactionToTransaction (pb_Transactions protoBlock)) of
        None \<Rightarrow> None
      | Some transactions \<Rightarrow>
          (case pb_Header protoBlock of
             None \<Rightarrow> None
           | Some h \<Rightarrow> Some \<lparr>blk_Header = ProtoHeaderToBlockHeader h, blk_Transactions = transactions\<rparr>))"

section \<open>What survives the way through a message\<close>

text \<open>Values of Go's array types have their fixed lengths, and opcodes are bytes.\<close>

definition sized_transaction :: "Transaction \<Rightarrow> bool" where
  "sized_transaction tx \<longleftrightarrow> length (tx_From tx) = 32 \<and> length (tx_To tx) = 32 \<and> length (tx_Signature tx) = 64 \<and>
     list_all (\<lambda>i. wf_opcode (Opcode i)) (tx_Instructions tx)"

definition sized_header :: "BlockHeader \<Rightarrow> bool" where
  "sized_header h \<longleftrightarrow> length (hdr_PreviousHash h) = 32 \<and> length (hdr_MerkleRoot h) = 32 \<and> length (hdr_StateRoot h) = 32 \<and>
     length (hdr_ReceiptRoot h) = 32 \<and> length (hdr_Beneficiary h) = 32"

definition sized_block :: "Block \<Rightarrow> bool" where
  "sized_block b \<longleftrightarrow> sized_header (blk_Header b) \<and> list_all sized_transaction (blk_Transactions b)"

text \<open>An empty literal comes back as no literal, and the receipt root as zero.\<close>

definition sent_instruction :: "Instruction \<Rightarrow> Instruction" where
  "sent_instruction i = (if Value i = Some [] then i\<lparr>Value := None\<rparr> else i)"

definition sent_transaction :: "Transaction \<Rightarrow> Transaction" where
  "sent_transaction tx = tx\<lparr>tx_Instructions := map sent_instruction (tx_Instructions tx)\<rparr>"

lemma copy_array_sized [simp]: "length bs = n \<Longrightarrow> copy_array n bs = bs"
  by (simp add: copy_array_def)

lemma length_copy_array [simp]: "length (copy_array n bs) = n"
  by (simp add: copy_array_def)

lemma all_some_map: "(\<And>x. x \<in> set xs \<Longrightarrow> f x = Some (g x)) \<Longrightarrow> all_some (map f xs) = Some (map g xs)"
  by (induction xs) auto

lemma bytes_of_string_empty [simp]: "bytes_of_string s = [] \<longleftrightarrow> s = []"
  by (simp add: bytes_of_string_def)

lemma instruction_sent: "wf_opcode (Opcode i) \<Longrightarrow> ProtoInstructionToInstruction (InstructionToProtoInstruction i) = Some (sent_instruction i)"
  by (cases i)
    (auto simp: InstructionToProtoInstruction_def ProtoInstructionToInstruction_def sent_instruction_def opcode_of_byte_byte split: option.splits)

lemma transaction_sent: "sized_transaction tx \<Longrightarrow> ProtoTransactionToTransaction (TransactionToProtoTransaction tx) = Some (sent_transaction tx)"
  using all_some_map[of "tx_Instructions tx" "\<lambda>i. ProtoInstructionToInstruction (InstructionToProtoInstruction i)" sent_instruction]
  by (cases tx)
    (auto simp: TransactionToProtoTransaction_def ProtoTransactionToTransaction_def sent_transaction_def sized_transaction_def list_all_iff
      instruction_sent comp_def)

lemma header_sent: "sized_header h \<Longrightarrow> ProtoHeaderToBlockHeader (BlockHeaderToProtoHeader h) = h\<lparr>hdr_ReceiptRoot := zero32\<rparr>"
  by (cases h) (simp add: BlockHeaderToProtoHeader_def ProtoHeaderToBlockHeader_def sized_header_def)

lemma block_sent:
  "sized_block b \<Longrightarrow> ProtoBlockToBlock (BlockToProtoBlock b) =
     Some \<lparr>blk_Header = (blk_Header b)\<lparr>hdr_ReceiptRoot := zero32\<rparr>, blk_Transactions = map sent_transaction (blk_Transactions b)\<rparr>"
  using all_some_map[of "blk_Transactions b" "\<lambda>t. ProtoTransactionToTransaction (TransactionToProtoTransaction t)" sent_transaction]
  by (auto simp: BlockToProtoBlock_def ProtoBlockToBlock_def sized_block_def header_sent list_all_iff transaction_sent comp_def)

lemma sent_instruction_bytes: "instruction_bytes (sent_instruction i) = instruction_bytes i"
  by (simp add: sent_instruction_def instruction_bytes_def bytes_of_string_def)

lemma sent_transaction_hash: "Transaction_GetHash (sent_transaction tx) = Transaction_GetHash tx"
  by (simp add: Transaction_GetHash_def Transaction_bytes_def sent_transaction_def ComputeCodeHash_def comp_def sent_instruction_bytes)

lemma sent_transaction_id: "\<forall>i\<in>set (tx_Instructions tx). Value i \<noteq> Some [] \<Longrightarrow> sent_transaction tx = tx"
  by (simp add: sent_transaction_def sent_instruction_def map_idI)

text \<open>
  C31. A block sent to a peer arrives with the same transactions, up to empty literals, which are lost,
  and so with the same transaction hashes and Merkle root. Its header arrives unchanged if and only if the
  receipt root is zero, since the message has no field for it.
\<close>

theorem proto_block_roundtrip:
  assumes "sized_block b"
  shows "\<exists>b'. ProtoBlockToBlock (BlockToProtoBlock b) = Some b' \<and>
    map Transaction_GetHash (blk_Transactions b') = map Transaction_GetHash (blk_Transactions b) \<and>
    MerkleTransactions (blk_Transactions b') = MerkleTransactions (blk_Transactions b) \<and>
    (blk_Header b' = blk_Header b \<longleftrightarrow> hdr_ReceiptRoot (blk_Header b) = zero32) \<and>
    ((\<forall>tx\<in>set (blk_Transactions b). \<forall>i\<in>set (tx_Instructions tx). Value i \<noteq> Some []) \<longrightarrow> blk_Transactions b' = blk_Transactions b)"
proof -
  have "(blk_Header b)\<lparr>hdr_ReceiptRoot := zero32\<rparr> = blk_Header b \<longleftrightarrow> hdr_ReceiptRoot (blk_Header b) = zero32"
    by (cases "blk_Header b") auto
  then show ?thesis
    using block_sent[OF assms] by (auto simp: comp_def sent_transaction_hash MerkleTransactions_def sent_transaction_id map_idI)
qed

definition sent_example :: Block where
  "sent_example = \<lparr>blk_Header = \<lparr>hdr_Version = 1, hdr_PreviousHash = zero32, hdr_Height = 1, hdr_Timestamp = 1609459201, hdr_Nonce = 7,
       hdr_MerkleRoot = zero32, hdr_StateRoot = zero32, hdr_ReceiptRoot = replicate 32 1, hdr_Bits = 545259519, hdr_TotalWork = ''2'',
       hdr_GasLimit = 8000000, hdr_GasUsed = 0, hdr_Beneficiary = zero32\<rparr>,
     blk_Transactions = [\<lparr>tx_From = replicate 32 2, tx_To = zero32, tx_Amount = 5, tx_Signature = replicate 64 0, tx_Nonce = 0, tx_Timestamp = 0,
       tx_ChainID = 1, tx_Instructions = [\<lparr>Opcode = PUSH, Value = Some ''0x1''\<rparr>, \<lparr>Opcode = STOP, Value = None\<rparr>], tx_GasLimit = 100000,
       tx_GasPrice = 1, tx_Data = []\<rparr>]\<rparr>"

theorem proto_block_roundtrip_witness:
  "\<exists>b'. ProtoBlockToBlock (BlockToProtoBlock sent_example) = Some b' \<and> blk_Transactions b' = blk_Transactions sent_example \<and>
     blk_Header b' \<noteq> blk_Header sent_example"
proof -
  have "sized_block sent_example" "hdr_ReceiptRoot (blk_Header sent_example) \<noteq> zero32" by code_simp+
  moreover have "\<forall>tx\<in>set (blk_Transactions sent_example). \<forall>i\<in>set (tx_Instructions tx). Value i \<noteq> Some []" by (simp add: sent_example_def)
  ultimately show ?thesis using proto_block_roundtrip[of sent_example] by auto
qed

end
