(* ===== verification/Node.thy ===== *)
theory Node
  imports Mempool Block_Properties Converters
begin

text \<open>
  The state of a full node and its operations, \<open>src/node/node.go\<close>, \<open>header_processing.go\<close>, \<open>orphans.go\<close>,
  \<open>tasks.go\<close>, \<open>getters.go\<close> and the initial state of \<open>lifecycle.go\<close>. The chains are objects on a heap, since a
  handler keeps a pointer to one while the table of tips changes; the table maps tip hashes to addresses.
  A goroutine that an operation starts is a task in the list \<open>goroutines\<close>, run later and in any order. What
  peers answer to a request is an argument: \<open>None\<close> is the timeout, otherwise the messages that arrived.
  A Go map that is built from an answer is walked in the order of the answer, so all orders are covered by
  all answers. \<open>headerProcessingMu\<close> makes \<open>ProcessHeader\<close> one step; that other goroutines may add blocks
  to a chain while it waits for an answer is not modelled. Log output and announcements are left out.
\<close>

section \<open>State\<close>

datatype task =
    ConnectOrphan BlockHeader
  | FetchForFork BlockHeader "Hash32 list" nat
  | FetchParent BlockHeader
  | SubmitBlock Block

record Node =
  node_Mempool :: Mempool
  chains :: "(Hash32, nat) gomap"
  chain_heap :: "Chain list"
  currentChainTip :: Hash32
  headersMap :: "Hash32 \<rightharpoonup> BlockHeader"
  blocksMap :: "Hash32 \<rightharpoonup> Block"
  orphanHeaders :: "(Hash32, BlockHeader list) gomap"
  submittedBlocks :: "Hash32 \<rightharpoonup> Block"
  goroutines :: "task list"

record network =
  RequestBlocks :: "Hash32 list \<Rightarrow> BlockData list list option"
  RequestHeaders :: "Hash32 list \<Rightarrow> HeaderData list list option"

datatype node_error =
    InvalidHeader block_error
  | FailedToBuildChain block_error
  | BlockRejected block_error
  | TransactionRefused tx_error
  | RejectedByMempool
  | NoChainForBlock

abbreviation genesis_hash :: Hash32 where
  "genesis_hash \<equiv> BlockHeader_GetHash (blk_Header GenesisBlock)"

abbreviation chain_at :: "Node \<Rightarrow> nat \<Rightarrow> Chain" where
  "chain_at n a \<equiv> chain_heap n ! a"

definition update_chain :: "nat \<Rightarrow> (Chain \<Rightarrow> Chain) \<Rightarrow> Node \<Rightarrow> Node" where
  "update_chain a f n = n\<lparr>chain_heap := (chain_heap n)[a := f (chain_at n a)]\<rparr>"

text \<open>A change of a chain that may crash.\<close>

definition try_chain :: "nat \<Rightarrow> (Chain \<Rightarrow> Chain option) \<Rightarrow> Node \<Rightarrow> Node option" where
  "try_chain a f n = map_option (\<lambda>c. update_chain a (\<lambda>_. c) n) (f (chain_at n a))"

fun add_blocks :: "Block list \<Rightarrow> Chain \<Rightarrow> Chain option" where
  "add_blocks [] c = Some c"
| "add_blocks (b # bs) c = Option.bind (AddBlock c b) (add_blocks bs)"

text \<open>The genesis block has height zero, so that storing it does not fail.\<close>

definition NewNode :: Node where
  "NewNode =
     \<lparr>node_Mempool = NewMempool, chains = [(genesis_hash, 0)],
      chain_heap = [store_block (AddHeader NewChain (blk_Header GenesisBlock)) GenesisBlock],
      currentChainTip = genesis_hash, headersMap = [genesis_hash \<mapsto> blk_Header GenesisBlock],
      blocksMap = [genesis_hash \<mapsto> GenesisBlock], orphanHeaders = [], submittedBlocks = Map.empty, goroutines = []\<rparr>"

section \<open>Getters\<close>

definition current_chain :: "Node \<Rightarrow> Chain option" where
  "current_chain n = map_option (chain_at n) (map_of (chains n) (currentChainTip n))"

definition GetCurrentChain :: "Node \<Rightarrow> Block option" where
  "GetCurrentChain n = (if currentChainTip n = zero32 then None
     else case current_chain n of None \<Rightarrow> None | Some chain \<Rightarrow> GetTip chain)"

definition node_GetBlock :: "Node \<Rightarrow> Hash32 \<Rightarrow> Block option" where
  "node_GetBlock n hash = (case submittedBlocks n hash of Some block \<Rightarrow> Some block | None \<Rightarrow> blocksMap n hash)"

definition GetBlocks :: "Node \<Rightarrow> Hash32 list \<Rightarrow> Block list" where
  "GetBlocks n hashes = List.map_filter (node_GetBlock n) hashes"

definition node_GetHeader :: "Node \<Rightarrow> Hash32 \<Rightarrow> BlockHeader option" where
  "node_GetHeader n hash = headersMap n hash"

definition GetHeaders :: "Node \<Rightarrow> Hash32 list \<Rightarrow> BlockHeader list" where
  "GetHeaders n hashes = List.map_filter (headersMap n) hashes"

definition node_GetBlockAtHeight :: "Node \<Rightarrow> u64 \<Rightarrow> Block option" where
  "node_GetBlockAtHeight n height = (if currentChainTip n = zero32 then None
     else case current_chain n of None \<Rightarrow> None | Some chain \<Rightarrow> GetBlockAtHeight chain height)"

record ChainHead =
  head_Height :: u64
  head_Hash :: Hash32
  head_TotalWork :: string

definition GetChainHead :: "Node \<Rightarrow> ChainHead" where
  "GetChainHead n =
     (let none = \<lparr>head_Height = 0, head_Hash = zero32, head_TotalWork = ''0''\<rparr> in
      if currentChainTip n = zero32 then none
      else case current_chain n of
          None \<Rightarrow> none
        | Some chain \<Rightarrow>
            (case Tip chain of
               None \<Rightarrow> none
             | Some tip \<Rightarrow> \<lparr>head_Height = hdr_Height (blk_Header tip), head_Hash = BlockHeader_GetHash (blk_Header tip),
                            head_TotalWork = hdr_TotalWork (blk_Header tip)\<rparr>))"

definition GetChain :: "Node \<Rightarrow> Chain" where
  "GetChain n = (if currentChainTip n = zero32 then NewChain
     else case current_chain n of None \<Rightarrow> NewChain | Some chain \<Rightarrow> chain)"

definition GetCandidateChains :: "Node \<Rightarrow> (Hash32, nat) gomap" where
  "GetCandidateChains n = chains n"

section \<open>Orphans\<close>

definition orphans_of :: "Node \<Rightarrow> Hash32 \<Rightarrow> BlockHeader list" where
  "orphans_of n hash = (case map_of (orphanHeaders n) hash of None \<Rightarrow> [] | Some hs \<Rightarrow> hs)"

definition add_orphan :: "BlockHeader \<Rightarrow> Node \<Rightarrow> Node" where
  "add_orphan header n =
     n\<lparr>orphanHeaders := go_store (hdr_PreviousHash header) (orphans_of n (hdr_PreviousHash header) @ [header]) (orphanHeaders n)\<rparr>"

definition tryConnectOrphanChildren :: "Hash32 \<Rightarrow> Node \<Rightarrow> Node" where
  "tryConnectOrphanChildren parentHash n = n\<lparr>goroutines := goroutines n @ map ConnectOrphan (orphans_of n parentHash)\<rparr>"

definition min_height :: "Node \<Rightarrow> u64" where
  "min_height n = fold (\<lambda>(tip, a) m. case Tip (chain_at n a) of
      Some t \<Rightarrow> if hdr_Height (blk_Header t) < m then hdr_Height (blk_Header t) else m
    | None \<Rightarrow> m) (chains n) (- 1)"

definition cleanupStaleOrphans :: "Node \<Rightarrow> Node" where
  "cleanupStaleOrphans n =
     (let minChainHeight = min_height n in
      if minChainHeight = - 1 then n
      else n\<lparr>orphanHeaders := filter (\<lambda>(parentHash, hs). hs \<noteq> [])
               (map (\<lambda>(parentHash, hs). (parentHash, filter (\<lambda>h. hdr_Height h \<ge> minChainHeight) hs)) (orphanHeaders n))\<rparr>)"

definition cleanupFailedHeader :: "BlockHeader \<Rightarrow> Hash32 \<Rightarrow> nat \<Rightarrow> Hash32 \<Rightarrow> bool \<Rightarrow> Node \<Rightarrow> Node" where
  "cleanupFailedHeader header blockHash parentChain parentChainTip restoreToOrphans n =
     (let n = update_chain parentChain (\<lambda>c. c\<lparr>Headers := (Headers c)(blockHash := None)\<rparr>) n;
          n = n\<lparr>headersMap := (headersMap n)(blockHash := None)\<rparr>;
          n = n\<lparr>chains := go_store parentChainTip parentChain (go_delete blockHash (chains n))\<rparr>
      in if restoreToOrphans then add_orphan header n else n)"

definition cleanupCandidateChains :: "Node \<Rightarrow> Node" where
  "cleanupCandidateChains n =
     (case current_chain n of
        None \<Rightarrow> n
      | Some currentChain \<Rightarrow>
          (case Tip currentChain of
             None \<Rightarrow> n
           | Some tip \<Rightarrow>
               let currentHeight = hdr_Height (blk_Header tip);
                   minHeight = (if currentHeight > MaxCandidateChainDepthGap then currentHeight - MaxCandidateChainDepthGap else 0);
                   stale = (\<lambda>(tipHash, a). tipHash \<noteq> currentChainTip n \<and>
                     (case Tip (chain_at n a) of Some t \<Rightarrow> hdr_Height (blk_Header t) < minHeight | None \<Rightarrow> False))
               in cleanupStaleOrphans (n\<lparr>chains := filter (\<lambda>e. \<not> stale e) (chains n)\<rparr>)))"

section \<open>Answers of peers\<close>

text \<open>The map from hashes to blocks that is filled from the messages; \<open>None\<close> is a panic of the conversion.\<close>

definition blocks_map :: "BlockData list list \<Rightarrow> (Hash32, Block) gomap option" where
  "blocks_map data = map_option (\<lambda>blocks. fold (\<lambda>b m. go_store (Block_GetHash b) b m) blocks [])
     (all_some (map ProtoBlockToBlock (concat data)))"

section \<open>Parents\<close>

definition checkHeaderExists :: "Node \<Rightarrow> Hash32 \<Rightarrow> bool" where
  "checkHeaderExists n blockHash = list_ex (\<lambda>(tip, a). GetHeader (chain_at n a) blockHash \<noteq> None) (chains n)"

definition findParentChain :: "Node \<Rightarrow> BlockHeader \<Rightarrow> (nat \<times> Hash32) option" where
  "findParentChain n header =
     (case map_of (chains n) (hdr_PreviousHash header) of
        None \<Rightarrow> None
      | Some a \<Rightarrow>
          (case GetHeader (chain_at n a) (hdr_PreviousHash header) of
             None \<Rightarrow> None
           | Some parentHeader \<Rightarrow>
               if ValidateHeaderTotalWork header (hdr_TotalWork parentHeader) \<noteq> None then None
               else Some (a, hdr_PreviousHash header)))"

definition findParentBlock :: "Node \<Rightarrow> BlockHeader \<Rightarrow> (Block \<times> nat) option" where
  "findParentBlock n header =
     (case List.find (\<lambda>(tip, a). GetBlock (chain_at n a) (hdr_PreviousHash header) \<noteq> None) (chains n) of
        None \<Rightarrow> None
      | Some (tip, a) \<Rightarrow> map_option (\<lambda>block. (block, a)) (GetBlock (chain_at n a) (hdr_PreviousHash header)))"

section \<open>Forks\<close>

fun build_chain :: "verifier \<Rightarrow> ContractExecutor option \<Rightarrow> Block list \<Rightarrow> Chain \<Rightarrow> Node \<Rightarrow> (Node \<times> (block_error + Chain)) option" where
  "build_chain verify executor [] newChain n = Some (n, Inr newChain)"
| "build_chain verify executor (block # blocks) newChain n =
     (case ValidateBlock verify executor block newChain of
        None \<Rightarrow> None
      | Some (Inl e) \<Rightarrow> Some (n, Inl e)
      | Some (Inr newAccountStates) \<Rightarrow>
          (case ApplyBlock block newChain newAccountStates of
             None \<Rightarrow> None
           | Some newChain \<Rightarrow>
               build_chain verify executor blocks newChain
                 (tryConnectOrphanChildren (BlockHeader_GetHash (blk_Header block)) n)))"

definition buildChainFromBlocks :: "verifier \<Rightarrow> ContractExecutor option \<Rightarrow> Block list \<Rightarrow> Node \<Rightarrow> (Node \<times> (block_error + Chain)) option" where
  "buildChainFromBlocks verify executor blocks n = build_chain verify executor blocks NewChain n"

text \<open>
  The walk from a block back to the genesis block, which collects the hashes of the blocks that are missing
  and the blocks to apply. It does not end when the headers form a cycle.
\<close>

partial_function (option) walk_back :: "Node \<Rightarrow> Hash32 \<Rightarrow> Hash32 list \<Rightarrow> Block list \<Rightarrow> (Hash32 list \<times> Block list) option" where
  "walk_back n currentHash missingBlocks blocksToApply =
     (if currentHash = genesis_hash then Some (missingBlocks, blocksToApply)
      else case node_GetHeader n currentHash of
          None \<Rightarrow> Some (missingBlocks, blocksToApply)
        | Some h \<Rightarrow>
            (case node_GetBlock n currentHash of
               None \<Rightarrow> walk_back n (hdr_PreviousHash h) (missingBlocks @ [currentHash]) blocksToApply
             | Some block \<Rightarrow> walk_back n (hdr_PreviousHash h) missingBlocks (block # blocksToApply)))"

text \<open>The result is an error, or the new chain with its tip, or nothing while blocks are fetched.\<close>

definition handleForkCreation ::
  "verifier \<Rightarrow> ContractExecutor option \<Rightarrow> BlockHeader \<Rightarrow> Block \<Rightarrow> nat \<Rightarrow> Node \<Rightarrow> (Node \<times> (node_error + (nat \<times> Hash32) option)) option" where
  "handleForkCreation verify executor header parentBlock sourceChain n =
     (let parentHash = BlockHeader_GetHash (blk_Header parentBlock) in
      case walk_back n parentHash [] [] of
        None \<Rightarrow> None
      | Some (missingBlocks, blocksToApply) \<Rightarrow>
          if missingBlocks \<noteq> [] then Some (n\<lparr>goroutines := goroutines n @ [FetchForFork header missingBlocks sourceChain]\<rparr>, Inr None)
          else case buildChainFromBlocks verify executor blocksToApply n of
              None \<Rightarrow> None
            | Some (n, Inl e) \<Rightarrow> Some (n, Inl (FailedToBuildChain e))
            | Some (n, Inr newChain) \<Rightarrow>
                let a = length (chain_heap n)
                in Some (n\<lparr>chain_heap := chain_heap n @ [newChain], chains := go_store parentHash a (chains n)\<rparr>, Inr (Some (a, parentHash))))"

definition handleOrphanHeader :: "BlockHeader \<Rightarrow> Node \<Rightarrow> Node" where
  "handleOrphanHeader header n =
     (let n = add_orphan header n
      in if node_GetHeader n (hdr_PreviousHash header) = None then n\<lparr>goroutines := goroutines n @ [FetchParent header]\<rparr> else n)"

section \<open>Extensions\<close>

text \<open>The block of a header, from the node itself or from the peers; there may be none, or several.\<close>

definition fetch_extension :: "network \<Rightarrow> Hash32 \<Rightarrow> Node \<Rightarrow> Block list option" where
  "fetch_extension net blockHash n = (case node_GetBlock n blockHash of
      Some localBlock \<Rightarrow> Some [localBlock]
    | None \<Rightarrow>
        (case RequestBlocks net [blockHash] of
           None \<Rightarrow> Some []
         | Some data \<Rightarrow> if data = [] then Some [] else map_option (map snd) (blocks_map data)))"

definition enter_extension :: "Block \<Rightarrow> Hash32 \<Rightarrow> nat \<Rightarrow> Node \<Rightarrow> Node" where
  "enter_extension block blockHash parentChain n =
     (let n = n\<lparr>blocksMap := (blocksMap n)(blockHash \<mapsto> block)\<rparr>;
          oldTip = currentChainTip n;
          n = n\<lparr>chains := go_store blockHash parentChain (chains n), currentChainTip := blockHash\<rparr>;
          n = (if oldTip \<noteq> zero32 \<and> oldTip \<noteq> blockHash then n\<lparr>chains := go_delete oldTip (chains n)\<rparr> else n)
      in tryConnectOrphanChildren blockHash n)"

definition apply_extension :: "Block \<Rightarrow> AccountStates \<Rightarrow> Hash32 \<Rightarrow> nat \<Rightarrow> Node \<Rightarrow> Node option" where
  "apply_extension block newAccountStates blockHash parentChain n =
     map_option (enter_extension block blockHash parentChain) (try_chain parentChain (\<lambda>c. ApplyBlock block c newAccountStates) n)"

definition handleCurrentChainExtension ::
  "verifier \<Rightarrow> ContractExecutor option \<Rightarrow> network \<Rightarrow> BlockHeader \<Rightarrow> Hash32 \<Rightarrow> nat \<Rightarrow> Hash32 \<Rightarrow> Node \<Rightarrow> (Node \<times> node_error option) option" where
  "handleCurrentChainExtension verify executor net header blockHash parentChain parentChainTip n =
     (case fetch_extension net blockHash n of
        None \<Rightarrow> None
      | Some [] \<Rightarrow> Some (n, None)
      | Some (block # _) \<Rightarrow>
          (case ValidateBlock verify executor block (chain_at n parentChain) of
             None \<Rightarrow> None
           | Some (Inl e) \<Rightarrow>
               Some (cleanupFailedHeader header blockHash parentChain parentChainTip
                       (case e of ErrSwitchChain b a \<Rightarrow> False | _ \<Rightarrow> True) n, Some (BlockRejected e))
           | Some (Inr newAccountStates) \<Rightarrow> map_option (\<lambda>n. (n, None)) (apply_extension block newAccountStates blockHash parentChain n)))"

text \<open>The hashes of the headers whose blocks the candidate chain does not have; this walk need not end either.\<close>

partial_function (option) walk_missing :: "Node \<Rightarrow> Chain \<Rightarrow> Hash32 \<Rightarrow> Hash32 list \<Rightarrow> Hash32 list option" where
  "walk_missing n parentChain currentHash headersToFetch =
     (if GetBlock parentChain currentHash \<noteq> None then Some headersToFetch
      else case headersMap n currentHash of
          None \<Rightarrow> Some (currentHash # headersToFetch)
        | Some h \<Rightarrow> walk_missing n parentChain (hdr_PreviousHash h) (currentHash # headersToFetch))"

text \<open>Validating the fetched blocks one after the other; \<open>Some None\<close> when one is refused.\<close>

fun validate_blocks :: "verifier \<Rightarrow> ContractExecutor option \<Rightarrow> Block list \<Rightarrow> Chain \<Rightarrow> AccountStates \<Rightarrow> AccountStates option option" where
  "validate_blocks verify executor [] tempChain finalAccountStates = Some (Some finalAccountStates)"
| "validate_blocks verify executor (block # blocks) tempChain finalAccountStates =
     (case ValidateBlock verify executor block tempChain of
        None \<Rightarrow> None
      | Some (Inl e) \<Rightarrow> Some None
      | Some (Inr newAccountStates) \<Rightarrow>
          (case AddBlock (SetAccountStates tempChain newAccountStates) block of
             None \<Rightarrow> None
           | Some tempChain \<Rightarrow> validate_blocks verify executor blocks tempChain newAccountStates))"

definition temp_chain :: Chain where
  "temp_chain = SetAccountStates NewChain [(FirstUser, new_account zero32 (10 * AUG))]"

text \<open>The new blocks enter the candidate chain and the indexes.\<close>

definition enter_blocks :: "nat \<Rightarrow> Block list \<Rightarrow> AccountStates \<Rightarrow> Node \<Rightarrow> Node option" where
  "enter_blocks parentChain blocks finalAccountStates n =
     (let n = update_chain parentChain (\<lambda>c. store_block (AddHeader c (blk_Header GenesisBlock)) GenesisBlock) n;
          n = update_chain parentChain (\<lambda>c. fold (\<lambda>b c. AddHeader c (blk_Header b)) blocks c) n;
          n = n\<lparr>headersMap := fold (\<lambda>b m. m(BlockHeader_GetHash (blk_Header b) \<mapsto> blk_Header b)) blocks (headersMap n)\<rparr>
      in case try_chain parentChain (add_blocks blocks) n of
           None \<Rightarrow> None
         | Some n \<Rightarrow>
             let n = n\<lparr>blocksMap := fold (\<lambda>b m. m(BlockHeader_GetHash (blk_Header b) \<mapsto> b)) blocks (blocksMap n)\<rparr>;
                 n = fold (\<lambda>b n. tryConnectOrphanChildren (BlockHeader_GetHash (blk_Header b)) n) blocks n
             in Some (update_chain parentChain (\<lambda>c. SetAccountStates c finalAccountStates) n))"

definition handleCandidateChainExtension ::
  "verifier \<Rightarrow> ContractExecutor option \<Rightarrow> network \<Rightarrow> BlockHeader \<Rightarrow> Hash32 \<Rightarrow> nat \<Rightarrow> Hash32 \<Rightarrow> Node \<Rightarrow> Node option" where
  "handleCandidateChainExtension verify executor net header blockHash parentChain parentChainTip n =
     (case Option.bind (current_chain n) Tip of
        None \<Rightarrow> Some n
      | Some tip \<Rightarrow>
          if CompareWork (hdr_TotalWork header) (hdr_TotalWork (blk_Header tip)) \<le> 0 then Some n
          else case walk_missing n (chain_at n parentChain) blockHash [] of
              None \<Rightarrow> None
            | Some headersToFetch \<Rightarrow>
                if headersToFetch = [] then Some n
                else case RequestBlocks net headersToFetch of
                    None \<Rightarrow> Some n
                  | Some data \<Rightarrow>
                      if data = [] then Some n
                      else case blocks_map data of
                          None \<Rightarrow> None
                        | Some received \<Rightarrow>
                            let blocks = sort_key (\<lambda>b. hdr_Height (blk_Header b)) (map snd received)
                            in case validate_blocks verify executor blocks temp_chain [] of
                                 None \<Rightarrow> None
                               | Some None \<Rightarrow> Some n
                               | Some (Some finalAccountStates) \<Rightarrow>
                                   if blocks = [] then None
                                   else
                                     let newTip = blk_Header (last blocks);
                                         newTipHash = BlockHeader_GetHash newTip;
                                         shouldReorg = CompareWork (hdr_TotalWork newTip) (hdr_TotalWork (blk_Header tip)) > 0
                                     in case enter_blocks parentChain blocks finalAccountStates n of
                                          None \<Rightarrow> None
                                        | Some n \<Rightarrow>
                                            let n = n\<lparr>chains := go_store newTipHash parentChain (chains n)\<rparr>
                                            in Some (if shouldReorg then cleanupCandidateChains (n\<lparr>currentChainTip := newTipHash\<rparr>)
                                                     else n\<lparr>chains := go_delete parentChainTip (chains n)\<rparr>))"

text \<open>A header that was waiting for its parent is removed from the orphans.\<close>

fun remove_header :: "Hash32 \<Rightarrow> BlockHeader list \<Rightarrow> BlockHeader list" where
  "remove_header blockHash [] = []"
| "remove_header blockHash (h # hs) = (if BlockHeader_GetHash h = blockHash then hs else h # remove_header blockHash hs)"

definition remove_orphan :: "BlockHeader \<Rightarrow> Hash32 \<Rightarrow> Node \<Rightarrow> Node" where
  "remove_orphan header blockHash n =
     (case map_of (orphanHeaders n) (hdr_PreviousHash header) of
        None \<Rightarrow> n
      | Some hs \<Rightarrow>
          if list_ex (\<lambda>h. BlockHeader_GetHash h = blockHash) hs then
            let rest = remove_header blockHash hs
            in n\<lparr>orphanHeaders := (if rest = [] then go_delete (hdr_PreviousHash header) (orphanHeaders n)
                                   else go_store (hdr_PreviousHash header) rest (orphanHeaders n))\<rparr>
          else n)"

definition handleChainExtension ::
  "verifier \<Rightarrow> ContractExecutor option \<Rightarrow> network \<Rightarrow> BlockHeader \<Rightarrow> nat \<Rightarrow> Hash32 \<Rightarrow> Node \<Rightarrow> (Node \<times> node_error option) option" where
  "handleChainExtension verify executor net header parentChain parentChainTip n =
     (let blockHash = BlockHeader_GetHash header;
          n = update_chain parentChain (\<lambda>c. AddHeader c header) n;
          n = n\<lparr>headersMap := (headersMap n)(blockHash \<mapsto> header)\<rparr>;
          n = tryConnectOrphanChildren blockHash n;
          n = remove_orphan header blockHash n;
          n = n\<lparr>chains := go_store blockHash parentChain (go_delete parentChainTip (chains n))\<rparr>
      in if parentChainTip = currentChainTip n
         then handleCurrentChainExtension verify executor net header blockHash parentChain parentChainTip n
         else map_option (\<lambda>n. (n, None)) (handleCandidateChainExtension verify executor net header blockHash parentChain parentChainTip n))"

section \<open>Entry points\<close>

text \<open>\<open>None\<close> is a panic, or a walk over the headers that does not end.\<close>

definition ProcessHeader ::
  "verifier \<Rightarrow> ContractExecutor option \<Rightarrow> network \<Rightarrow> BlockHeader \<Rightarrow> Node \<Rightarrow> (Node \<times> node_error option) option" where
  "ProcessHeader verify executor net header n =
     (case ValidateHeaderStructure header of
        Some e \<Rightarrow> Some (n, Some (InvalidHeader e))
      | None \<Rightarrow>
          if checkHeaderExists n (BlockHeader_GetHash header) then Some (n, None)
          else case findParentChain n header of
              Some (chain, tip) \<Rightarrow> handleChainExtension verify executor net header chain tip n
            | None \<Rightarrow>
                (case findParentBlock n header of
                   Some (block, sourceChain) \<Rightarrow>
                     (case handleForkCreation verify executor header block sourceChain n of
                        None \<Rightarrow> None
                      | Some (n, Inl e) \<Rightarrow> Some (n, Some e)
                      | Some (n, Inr None) \<Rightarrow> Some (n, None)
                      | Some (n, Inr (Some (chain, tip))) \<Rightarrow> handleChainExtension verify executor net header chain tip n)
                 | None \<Rightarrow> Some (handleOrphanHeader header n, None)))"

fun process_headers :: "verifier \<Rightarrow> ContractExecutor option \<Rightarrow> network \<Rightarrow> BlockHeader list \<Rightarrow> Node \<Rightarrow> Node option" where
  "process_headers verify executor net [] n = Some n"
| "process_headers verify executor net (h # hs) n =
     (case ProcessHeader verify executor net h n of None \<Rightarrow> None | Some (n, e) \<Rightarrow> process_headers verify executor net hs n)"

definition processOrphanHeaders :: "verifier \<Rightarrow> ContractExecutor option \<Rightarrow> network \<Rightarrow> Node \<Rightarrow> Node option" where
  "processOrphanHeaders verify executor net n = process_headers verify executor net (concat (map snd (orphanHeaders n))) n"

definition fetchMissingBlocksForFork ::
  "verifier \<Rightarrow> ContractExecutor option \<Rightarrow> network \<Rightarrow> BlockHeader \<Rightarrow> Hash32 list \<Rightarrow> nat \<Rightarrow> Node \<Rightarrow> Node option" where
  "fetchMissingBlocksForFork verify executor net header missingBlocks sourceChain n =
     (case RequestBlocks net missingBlocks of
        None \<Rightarrow> Some n
      | Some data \<Rightarrow>
          if data = [] then Some n
          else case blocks_map data of
              None \<Rightarrow> None
            | Some received \<Rightarrow>
                (case try_chain sourceChain (add_blocks (map snd received)) n of
                   None \<Rightarrow> None
                 | Some n \<Rightarrow> map_option fst (ProcessHeader verify executor net header n)))"

fun add_to_chains :: "Hash32 \<Rightarrow> Block \<Rightarrow> (Hash32, nat) gomap \<Rightarrow> Node \<Rightarrow> Node option" where
  "add_to_chains parentHash block [] n = Some n"
| "add_to_chains parentHash block ((tip, a) # cs) n =
     (if GetHeader (chain_at n a) parentHash \<noteq> None
      then Option.bind (try_chain a (\<lambda>c. AddBlock c block) n) (add_to_chains parentHash block cs)
      else add_to_chains parentHash block cs n)"

definition fetchParentForOrphan :: "verifier \<Rightarrow> ContractExecutor option \<Rightarrow> network \<Rightarrow> BlockHeader \<Rightarrow> Node \<Rightarrow> Node option" where
  "fetchParentForOrphan verify executor net header n =
     (case RequestHeaders net [hdr_PreviousHash header] of
        Some ((h # _) # _) \<Rightarrow>
          (case ProcessHeader verify executor net (ProtoHeaderToBlockHeader h) n of
             None \<Rightarrow> None
           | Some (n, e) \<Rightarrow>
               (case RequestBlocks net [hdr_PreviousHash header] of
                  Some ((b # _) # _) \<Rightarrow> Option.bind (ProtoBlockToBlock b) (\<lambda>block. add_to_chains (hdr_PreviousHash header) block (chains n) n)
                | _ \<Rightarrow> Some n))
      | _ \<Rightarrow> Some n)"

definition StoreBlock :: "Block \<Rightarrow> Node \<Rightarrow> Node" where
  "StoreBlock block n = n\<lparr>submittedBlocks := (submittedBlocks n)(BlockHeader_GetHash (blk_Header block) \<mapsto> block)\<rparr>"

fun run_task :: "verifier \<Rightarrow> ContractExecutor option \<Rightarrow> network \<Rightarrow> task \<Rightarrow> Node \<Rightarrow> Node option" where
  "run_task verify executor net (ConnectOrphan header) n = map_option fst (ProcessHeader verify executor net header n)"
| "run_task verify executor net (FetchForFork header missingBlocks sourceChain) n =
     fetchMissingBlocksForFork verify executor net header missingBlocks sourceChain n"
| "run_task verify executor net (FetchParent header) n = fetchParentForOrphan verify executor net header n"
| "run_task verify executor net (SubmitBlock block) n =
     map_option fst (ProcessHeader verify executor net (blk_Header block) (StoreBlock block n))"

definition ProcessTransaction :: "verifier \<Rightarrow> int \<Rightarrow> Transaction \<Rightarrow> Node \<Rightarrow> Node \<times> node_error option" where
  "ProcessTransaction verify now tx n =
     (let states = (if currentChainTip n = zero32 then []
                    else case current_chain n of None \<Rightarrow> [] | Some chain \<Rightarrow> GetAccountStates chain)
      in case ValidateTransaction verify tx states of
           Some e \<Rightarrow> (n, Some (TransactionRefused e))
         | None \<Rightarrow>
             (case AddTransaction now tx (node_Mempool n) of
                (mp, added) \<Rightarrow> if added then (n\<lparr>node_Mempool := mp\<rparr>, None) else (n, Some RejectedByMempool)))"

definition AddBlockDirectly :: "Block \<Rightarrow> Node \<Rightarrow> (Node \<times> node_error option) option" where
  "AddBlockDirectly block n =
     (let header = blk_Header block; blockHash = BlockHeader_GetHash header in
      case List.find (\<lambda>(tip, a). GetHeader (chain_at n a) (hdr_PreviousHash header) \<noteq> None) (chains n) of
        None \<Rightarrow> Some (n, Some NoChainForBlock)
      | Some (tip, targetChain) \<Rightarrow>
          (case try_chain targetChain (\<lambda>c. AddBlock (AddHeader c header) block) n of
             None \<Rightarrow> None
           | Some n \<Rightarrow>
               let n = n\<lparr>headersMap := (headersMap n)(blockHash \<mapsto> header)\<rparr>;
                   n = n\<lparr>blocksMap := (blocksMap n)(blockHash \<mapsto> block)\<rparr>;
                   n = n\<lparr>chains := go_store blockHash targetChain (go_delete (hdr_PreviousHash header) (chains n))\<rparr>
               in Some (if hdr_PreviousHash header = currentChainTip n \<or> currentChainTip n = zero32
                        then n\<lparr>currentChainTip := blockHash\<rparr> else n, None)))"

end
