(* ===== verification/Node_Properties.thy ===== *)
theory Node_Properties
  imports Node
begin

text \<open>
  The node as a state machine: the invariant of the reachable states, how the current chain may change, and
  what happens when peers do not answer or answer with something else.
\<close>

section \<open>The invariant\<close>

definition chain_keyed :: "Chain \<Rightarrow> bool" where
  "chain_keyed c \<longleftrightarrow> (\<forall>k h. Headers c k = Some h \<longrightarrow> BlockHeader_GetHash h = k) \<and>
     (\<forall>k b. BlockIndex c k = Some b \<longrightarrow> BlockHeader_GetHash (blk_Header b) = k)"

definition orphans_ok :: "Node \<Rightarrow> bool" where
  "orphans_ok n \<longleftrightarrow> distinct (map fst (orphanHeaders n)) \<and>
     (\<forall>(k, hs)\<in>set (orphanHeaders n). hs \<noteq> [] \<and> (\<forall>h\<in>set hs. hdr_PreviousHash h = k))"

definition table_ok :: "Node \<Rightarrow> bool" where
  "table_ok n \<longleftrightarrow> distinct (map fst (chains n)) \<and> (\<forall>(tip, a)\<in>set (chains n). a < length (chain_heap n)) \<and>
     list_all chain_keyed (chain_heap n) \<and>
     (\<forall>h m a. FetchForFork h m a \<in> set (goroutines n) \<longrightarrow> a < length (chain_heap n))"

definition index_ok :: "Node \<Rightarrow> bool" where
  "index_ok n \<longleftrightarrow> (\<forall>k h. headersMap n k = Some h \<longrightarrow> BlockHeader_GetHash h = k) \<and>
     (\<forall>k b. submittedBlocks n k = Some b \<longrightarrow> BlockHeader_GetHash (blk_Header b) = k)"

definition node_ok :: "Node \<Rightarrow> bool" where
  "node_ok n \<longleftrightarrow> table_ok n \<and> index_ok n \<and> orphans_ok n \<and> mempool_ok (node_Mempool n)"

lemma chain_keyed_AddHeader [simp]: "chain_keyed c \<Longrightarrow> chain_keyed (AddHeader c h)"
  by (simp add: chain_keyed_def AddHeader_def)

lemma chain_keyed_SetAccountStates [simp]: "chain_keyed (SetAccountStates c st) \<longleftrightarrow> chain_keyed c"
  by (simp add: chain_keyed_def SetAccountStates_def)

lemma store_block_index [simp]:
  "BlockIndex (store_block c b) = (BlockIndex c)(BlockHeader_GetHash (blk_Header b) \<mapsto> b)"
  "Headers (store_block c b) = (Headers c)(BlockHeader_GetHash (blk_Header b) \<mapsto> blk_Header b)"
  by (simp_all add: store_block_def AddHeader_def Let_def split: option.splits)

lemma chain_keyed_store_block [simp]: "chain_keyed c \<Longrightarrow> chain_keyed (store_block c b)"
  by (simp add: chain_keyed_def)

lemma chain_keyed_AddBlock: "AddBlock c b = Some c' \<Longrightarrow> chain_keyed c \<Longrightarrow> chain_keyed c'"
  by (auto simp: AddBlock_Some)

lemma chain_keyed_ApplyBlock: "ApplyBlock b c st = Some c' \<Longrightarrow> chain_keyed c \<Longrightarrow> chain_keyed c'"
  by (auto simp: ApplyBlock_def intro: chain_keyed_AddBlock)

lemma chain_keyed_add_blocks: "add_blocks bs c = Some c' \<Longrightarrow> chain_keyed c \<Longrightarrow> chain_keyed c'"
  by (induction bs arbitrary: c) (auto simp: bind_eq_Some_conv dest: chain_keyed_AddBlock)

lemma chain_keyed_NewChain [simp]: "chain_keyed NewChain"
  by (auto simp: chain_keyed_def NewChain_def)

lemma chain_keyed_fold: "(\<And>x c. chain_keyed c \<Longrightarrow> chain_keyed (f x c)) \<Longrightarrow> chain_keyed c \<Longrightarrow> chain_keyed (fold f xs c)"
  by (induction xs arbitrary: c) auto

lemma update_chain_simps [simp]:
  "chains (update_chain a f n) = chains n" "length (chain_heap (update_chain a f n)) = length (chain_heap n)"
  "currentChainTip (update_chain a f n) = currentChainTip n" "headersMap (update_chain a f n) = headersMap n"
  "blocksMap (update_chain a f n) = blocksMap n" "orphanHeaders (update_chain a f n) = orphanHeaders n"
  "submittedBlocks (update_chain a f n) = submittedBlocks n" "goroutines (update_chain a f n) = goroutines n"
  "node_Mempool (update_chain a f n) = node_Mempool n"
  by (simp_all add: update_chain_def)

lemma update_chain_ok:
  assumes "node_ok n" "\<And>c. chain_keyed c \<Longrightarrow> chain_keyed (f c)"
  shows "node_ok (update_chain a f n)"
proof -
  have "list_all chain_keyed ((chain_heap n)[a := f (chain_at n a)])"
  proof (cases "a < length (chain_heap n)")
    case True
    then show ?thesis using assms by (auto simp: node_ok_def table_ok_def list_all_iff dest!: set_update_subset_insert[THEN subsetD])
  qed (use assms(1) in \<open>simp add: node_ok_def table_ok_def list_update_beyond\<close>)
  then show ?thesis
    using assms(1) by (simp add: node_ok_def table_ok_def index_ok_def orphans_ok_def update_chain_def)
qed

lemma try_chain_Some:
  "try_chain a f n = Some n' \<longleftrightarrow> (\<exists>c. f (chain_at n a) = Some c \<and> n' = update_chain a (\<lambda>_. c) n)"
  by (auto simp: try_chain_def)

lemma try_chain_ok:
  assumes "try_chain a f n = Some n'" "node_ok n" "a < length (chain_heap n)" "\<And>c c'. f c = Some c' \<Longrightarrow> chain_keyed c \<Longrightarrow> chain_keyed c'"
  shows "node_ok n'"
proof -
  obtain c where c: "f (chain_at n a) = Some c" "n' = update_chain a (\<lambda>_. c) n" using assms(1) by (auto simp: try_chain_Some)
  have "chain_keyed c" using assms(2-4) c(1) by (auto simp: node_ok_def table_ok_def list_all_length)
  then show ?thesis using update_chain_ok[OF assms(2)] c(2) by simp
qed

lemma orphans_of_ok: "orphans_ok n \<Longrightarrow> h \<in> set (orphans_of n k) \<Longrightarrow> hdr_PreviousHash h = k"
  by (auto simp: orphans_ok_def orphans_of_def split: option.splits dest!: map_of_SomeD)

lemma tryConnect_simps [simp]:
  "chains (tryConnectOrphanChildren k n) = chains n" "chain_heap (tryConnectOrphanChildren k n) = chain_heap n"
  "currentChainTip (tryConnectOrphanChildren k n) = currentChainTip n" "headersMap (tryConnectOrphanChildren k n) = headersMap n"
  "blocksMap (tryConnectOrphanChildren k n) = blocksMap n" "orphanHeaders (tryConnectOrphanChildren k n) = orphanHeaders n"
  "submittedBlocks (tryConnectOrphanChildren k n) = submittedBlocks n" "node_Mempool (tryConnectOrphanChildren k n) = node_Mempool n"
  by (simp_all add: tryConnectOrphanChildren_def)

lemma tryConnect_ok: "node_ok n \<Longrightarrow> node_ok (tryConnectOrphanChildren k n)"
  by (auto simp: node_ok_def table_ok_def index_ok_def orphans_ok_def) (auto simp: tryConnectOrphanChildren_def)

lemma set_store: "(k', v') \<in> set (go_store k v m) \<Longrightarrow> (k', v') = (k, v) \<or> (k', v') \<in> set m"
  by (induction m) (auto split: if_splits)

lemma set_delete: "x \<in> set (go_delete k m) \<Longrightarrow> x \<in> set m"
  by (induction m) (auto split: if_splits)

lemma add_orphan_ok: "node_ok n \<Longrightarrow> node_ok (add_orphan h n)"
proof -
  assume n: "node_ok n"
  have "orphans_ok (add_orphan h n)"
    using n orphans_of_ok[of n] by (fastforce simp: node_ok_def orphans_ok_def add_orphan_def distinct_update dest!: set_store)
  then show ?thesis using n by (simp add: node_ok_def table_ok_def index_ok_def add_orphan_def)
qed

lemma chains_update_ok:
  assumes "node_ok n" "distinct (map fst m)" "\<forall>(tip, a)\<in>set m. a < length (chain_heap n)"
  shows "node_ok (n\<lparr>chains := m\<rparr>)"
  using assms by (simp add: node_ok_def table_ok_def index_ok_def orphans_ok_def)

lemma chains_store_ok: "node_ok n \<Longrightarrow> a < length (chain_heap n) \<Longrightarrow> node_ok (n\<lparr>chains := go_store k a (chains n)\<rparr>)"
  by (rule chains_update_ok) (auto simp: node_ok_def table_ok_def distinct_update dest!: set_store)

lemma chains_delete_ok: "node_ok n \<Longrightarrow> node_ok (n\<lparr>chains := go_delete k (chains n)\<rparr>)"
  by (rule chains_update_ok) (auto simp: node_ok_def table_ok_def distinct_delete dest!: set_delete)

lemma other_updates_ok [simp]:
  "node_ok n \<Longrightarrow> node_ok (n\<lparr>blocksMap := m\<rparr>)" "node_ok n \<Longrightarrow> node_ok (n\<lparr>currentChainTip := t\<rparr>)"
  "node_ok n \<Longrightarrow> mempool_ok mp \<Longrightarrow> node_ok (n\<lparr>node_Mempool := mp\<rparr>)"
  by (simp_all add: node_ok_def table_ok_def index_ok_def orphans_ok_def)

lemma headers_store_ok: "node_ok n \<Longrightarrow> BlockHeader_GetHash h = k \<Longrightarrow> node_ok (n\<lparr>headersMap := (headersMap n)(k \<mapsto> h)\<rparr>)"
  by (simp add: node_ok_def table_ok_def index_ok_def orphans_ok_def)

lemma headers_delete_ok: "node_ok n \<Longrightarrow> node_ok (n\<lparr>headersMap := (headersMap n)(k := None)\<rparr>)"
  by (simp add: node_ok_def table_ok_def index_ok_def orphans_ok_def)

lemma spawn_ok:
  "node_ok n \<Longrightarrow> (\<And>h m a. t = FetchForFork h m a \<Longrightarrow> a < length (chain_heap n)) \<Longrightarrow> node_ok (n\<lparr>goroutines := goroutines n @ [t]\<rparr>)"
  by (auto simp: node_ok_def table_ok_def index_ok_def orphans_ok_def)

lemma address_ok: "node_ok n \<Longrightarrow> map_of (chains n) k = Some a \<Longrightarrow> a < length (chain_heap n)"
  by (auto simp: node_ok_def table_ok_def dest!: map_of_SomeD)

section \<open>Every operation keeps the invariant\<close>

lemma build_chain_ok:
  "build_chain verify executor blocks c n = Some (n', r) \<Longrightarrow> node_ok n \<Longrightarrow> chain_keyed c \<Longrightarrow>
     node_ok n' \<and> chain_heap n' = chain_heap n \<and> (\<forall>c'. r = Inr c' \<longrightarrow> chain_keyed c')"
proof (induction blocks arbitrary: c n)
  case (Cons b bs)
  from Cons.prems(1) consider e where "n' = n" "r = Inl e"
    | st c' where "build_chain verify executor bs c' (tryConnectOrphanChildren (BlockHeader_GetHash (blk_Header b)) n) = Some (n', r)"
        "ApplyBlock b c st = Some c'"
    by (auto split: option.splits sum.splits)
  then show ?case
  proof cases
    case 2
    then show ?thesis using Cons.IH[OF 2(1)] Cons.prems(2) chain_keyed_ApplyBlock[OF 2(2) Cons.prems(3)] by (simp add: tryConnect_ok)
  qed (use Cons.prems in simp)
qed auto

lemma handleForkCreation_ok:
  assumes "handleForkCreation verify executor header b a n = Some (n', r)" "node_ok n" "a < length (chain_heap n)"
  shows "node_ok n' \<and> (\<forall>x t. r = Inr (Some (x, t)) \<longrightarrow> x < length (chain_heap n'))"
proof -
  obtain missing blocks where w: "walk_back n (BlockHeader_GetHash (blk_Header b)) [] [] = Some (missing, blocks)"
    using assms(1) by (auto simp: handleForkCreation_def Let_def split: option.splits)
  show ?thesis
  proof (cases "missing = []")
    case False
    then have "n' = n\<lparr>goroutines := goroutines n @ [FetchForFork header missing a]\<rparr>" "r = Inr None"
      using assms(1) w by (auto simp: handleForkCreation_def Let_def)
    then show ?thesis using spawn_ok[OF assms(2), of "FetchForFork header missing a"] assms(3) by simp
  next
    case True
    then obtain m q where b: "build_chain verify executor blocks NewChain n = Some (m, q)"
      using assms(1) w by (auto simp: handleForkCreation_def buildChainFromBlocks_def Let_def split: option.splits)
    note ok = build_chain_ok[OF b assms(2) chain_keyed_NewChain]
    show ?thesis
    proof (cases q)
      case (Inl e)
      then show ?thesis using assms(1) w True b ok by (auto simp: handleForkCreation_def buildChainFromBlocks_def Let_def)
    next
      case (Inr c)
      let ?a = "length (chain_heap m)"
      have "n' = m\<lparr>chain_heap := chain_heap m @ [c], chains := go_store (BlockHeader_GetHash (blk_Header b)) ?a (chains m)\<rparr>"
        "r = Inr (Some (?a, BlockHeader_GetHash (blk_Header b)))"
        using assms(1) w True b Inr by (auto simp: handleForkCreation_def buildChainFromBlocks_def Let_def)
      moreover have "node_ok (m\<lparr>chain_heap := chain_heap m @ [c]\<rparr>)"
        using ok Inr by (fastforce simp: node_ok_def table_ok_def index_ok_def orphans_ok_def)
      ultimately show ?thesis using chains_store_ok[of "m\<lparr>chain_heap := chain_heap m @ [c]\<rparr>" ?a] by simp
    qed
  qed
qed

lemma handleOrphanHeader_ok: "node_ok n \<Longrightarrow> node_ok (handleOrphanHeader h n)"
  using add_orphan_ok[of n h] by (auto simp: handleOrphanHeader_def Let_def intro!: spawn_ok)

lemma cleanupFailedHeader_ok: "node_ok n \<Longrightarrow> a < length (chain_heap n) \<Longrightarrow> node_ok (cleanupFailedHeader h k a t r n)"
proof -
  assume n: "node_ok n" "a < length (chain_heap n)"
  let ?u = "update_chain a (\<lambda>c. c\<lparr>Headers := (Headers c)(k := None)\<rparr>) n"
  have "node_ok ?u" using n(1) by (rule update_chain_ok) (simp add: chain_keyed_def)
  then have "node_ok (?u\<lparr>headersMap := (headersMap ?u)(k := None)\<rparr>)" by (rule headers_delete_ok)
  from chains_store_ok[OF chains_delete_ok[OF this, of k], of a t] n(2)
  have "node_ok (?u\<lparr>headersMap := (headersMap ?u)(k := None), chains := go_store t a (go_delete k (chains n))\<rparr>)" by simp
  then show ?thesis using add_orphan_ok by (auto simp: cleanupFailedHeader_def Let_def)
qed

lemma cleanupStaleOrphans_ok: "node_ok n \<Longrightarrow> node_ok (cleanupStaleOrphans n)"
proof -
  assume n: "node_ok n"
  have "distinct (map fst (filter (\<lambda>(k, hs). hs \<noteq> []) (map (\<lambda>(k, hs). (k, filter P hs)) m)))" if "distinct (map fst m)"
    for P and m :: "(Hash32 \<times> BlockHeader list) list"
    using that by (induction m) (force split: if_splits)+
  then have "orphans_ok (cleanupStaleOrphans n)" using n by (fastforce simp: node_ok_def orphans_ok_def cleanupStaleOrphans_def Let_def)
  then show ?thesis using n by (simp add: node_ok_def table_ok_def index_ok_def cleanupStaleOrphans_def Let_def)
qed

lemma cleanupCandidateChains_ok: "node_ok n \<Longrightarrow> node_ok (cleanupCandidateChains n)"
proof -
  assume n: "node_ok n"
  have "node_ok (cleanupStaleOrphans (n\<lparr>chains := filter P (chains n)\<rparr>))" for P
    by (rule cleanupStaleOrphans_ok, rule chains_update_ok[OF n]) (use n in \<open>auto simp: node_ok_def table_ok_def distinct_map_filter\<close>)
  then show ?thesis using n by (simp add: cleanupCandidateChains_def Let_def split: option.splits)
qed

lemma handleCurrentChainExtension_cases:
  assumes "handleCurrentChainExtension verify executor net h k a t n = Some (n', e)"
  obtains (same) "n' = n" "e = None" | (refused) r err where "n' = cleanupFailedHeader h k a t r n" "e = Some (BlockRejected err)"
  | (applied) b st where "ValidateBlock verify executor b (chain_at n a) = Some (Inr st)" "apply_extension b st k a n = Some n'" "e = None"
proof -
  obtain bs where bs: "fetch_extension net k n = Some bs" using assms by (auto simp: handleCurrentChainExtension_def split: option.splits)
  note eq = assms[unfolded handleCurrentChainExtension_def bs option.case]
  show thesis
  proof (cases bs)
    case (Cons b bs')
    then show thesis using eq refused applied by (cases "ValidateBlock verify executor b (chain_at n a)") (auto split: sum.splits)
  qed (use eq same in simp)
qed

lemma enter_extension_ok: "node_ok n \<Longrightarrow> a < length (chain_heap n) \<Longrightarrow> node_ok (enter_extension b k a n)"
proof -
  assume n: "node_ok n" "a < length (chain_heap n)"
  let ?m = "n\<lparr>blocksMap := (blocksMap n)(k \<mapsto> b)\<rparr>"
  from chains_store_ok[of ?m a k] n
  have "node_ok (?m\<lparr>chains := go_store k a (chains n), currentChainTip := k\<rparr>)" by simp
  then show ?thesis unfolding enter_extension_def Let_def
    using chains_delete_ok[of "?m\<lparr>chains := go_store k a (chains n), currentChainTip := k\<rparr>" "currentChainTip n"]
    by (intro tryConnect_ok) simp
qed

lemma apply_extension_Some:
  "apply_extension b st k a n = Some n' \<longleftrightarrow>
     (\<exists>c. ApplyBlock b (chain_at n a) st = Some c \<and> n' = enter_extension b k a (update_chain a (\<lambda>_. c) n))"
  by (auto simp: apply_extension_def try_chain_Some)

lemma apply_extension_ok:
  assumes "apply_extension b st k a n = Some n'" "node_ok n" "a < length (chain_heap n)"
  shows "node_ok n'"
proof -
  obtain c where c: "try_chain a (\<lambda>c. ApplyBlock b c st) n = Some (update_chain a (\<lambda>_. c) n)"
      "n' = enter_extension b k a (update_chain a (\<lambda>_. c) n)"
    using assms(1) by (auto simp: apply_extension_Some try_chain_Some)
  show ?thesis using enter_extension_ok[OF try_chain_ok[OF c(1) assms(2,3)]] chain_keyed_ApplyBlock assms(3) c(2) by simp
qed

lemma handleCurrentChainExtension_ok:
  assumes "handleCurrentChainExtension verify executor net h k a t n = Some (n', e)" "node_ok n" "a < length (chain_heap n)"
  shows "node_ok n'"
  using assms(1) by (cases rule: handleCurrentChainExtension_cases) (use assms(2,3) cleanupFailedHeader_ok apply_extension_ok in auto)

lemma connect_all [simp]:
  "chains (fold (\<lambda>b. tryConnectOrphanChildren (k b)) bs m) = chains m"
  "chain_heap (fold (\<lambda>b. tryConnectOrphanChildren (k b)) bs m) = chain_heap m"
  "currentChainTip (fold (\<lambda>b. tryConnectOrphanChildren (k b)) bs m) = currentChainTip m"
  by (induction bs arbitrary: m) simp_all

lemma connect_all_ok: "node_ok m \<Longrightarrow> node_ok (fold (\<lambda>b. tryConnectOrphanChildren (k b)) bs m)"
  by (induction bs arbitrary: m) (simp_all add: tryConnect_ok)

lemma enter_headers_ok:
  "node_ok m \<Longrightarrow> hm = headersMap m \<Longrightarrow> node_ok (m\<lparr>headersMap := fold (\<lambda>b m. m(BlockHeader_GetHash (blk_Header b) \<mapsto> blk_Header b)) bs hm\<rparr>)"
proof (induction bs arbitrary: m hm)
  case (Cons b bs)
  from Cons.IH[OF headers_store_ok[OF Cons.prems(1) refl, of "blk_Header b"]] Cons.prems(2) show ?case by simp
qed simp

lemma enter_blocks_ok:
  assumes "enter_blocks a blocks st n = Some n'" "node_ok n" "a < length (chain_heap n)"
  shows "node_ok n'"
proof -
  let ?u = "update_chain a (\<lambda>c. fold (\<lambda>b c. AddHeader c (blk_Header b)) blocks c)
      (update_chain a (\<lambda>c. store_block (AddHeader c (blk_Header GenesisBlock)) GenesisBlock) n)"
  let ?m = "?u\<lparr>headersMap := fold (\<lambda>b m. m(BlockHeader_GetHash (blk_Header b) \<mapsto> blk_Header b)) blocks (headersMap ?u)\<rparr>"
  obtain p where p: "try_chain a (add_blocks blocks) ?m = Some p"
      "n' = update_chain a (\<lambda>c. SetAccountStates c st) (fold (\<lambda>b n. tryConnectOrphanChildren (BlockHeader_GetHash (blk_Header b)) n) blocks
         (p\<lparr>blocksMap := fold (\<lambda>b m. m(BlockHeader_GetHash (blk_Header b) \<mapsto> b)) blocks (blocksMap p)\<rparr>))"
    using assms(1) by (auto simp: enter_blocks_def Let_def split: option.splits)
  have "node_ok ?u" using assms(2) by (intro update_chain_ok) (auto intro: chain_keyed_fold)
  then have "node_ok ?m" by (rule enter_headers_ok) simp
  from try_chain_ok[OF p(1) this] assms(3) have "node_ok p" by (simp add: chain_keyed_add_blocks)
  then show ?thesis unfolding p(2) by (intro update_chain_ok connect_all_ok other_updates_ok(1)) simp_all
qed

lemma enter_blocks_simps:
  assumes "enter_blocks a blocks st n = Some n'"
  shows "chains n' = chains n" "length (chain_heap n') = length (chain_heap n)" "currentChainTip n' = currentChainTip n"
  using assms by (auto simp: enter_blocks_def Let_def try_chain_Some split: option.splits)

lemma handleCandidateChainExtension_ok:
  assumes "handleCandidateChainExtension verify executor net h k a t n = Some n'" "node_ok n" "a < length (chain_heap n)"
  shows "node_ok n'"
proof -
  from assms(1) consider "n' = n"
    | blocks st k' m where "enter_blocks a blocks st n = Some m" "n' = cleanupCandidateChains (m\<lparr>chains := go_store k' a (chains m), currentChainTip := k'\<rparr>)"
    | blocks st k' m where "enter_blocks a blocks st n = Some m" "n' = m\<lparr>chains := go_delete t (go_store k' a (chains m))\<rparr>"
    by (auto simp: handleCandidateChainExtension_def Let_def split: option.splits if_splits)
  then show ?thesis
  proof cases
    case (2 blocks st k' m)
    from chains_store_ok[OF enter_blocks_ok[OF 2(1) assms(2,3)], of a k'] assms(3) enter_blocks_simps(2)[OF 2(1)]
    have "node_ok (m\<lparr>chains := go_store k' a (chains m), currentChainTip := k'\<rparr>)" by simp
    then show ?thesis unfolding 2(2) by (rule cleanupCandidateChains_ok)
  next
    case (3 blocks st k' m)
    from chains_delete_ok[OF chains_store_ok[OF enter_blocks_ok[OF 3(1) assms(2,3)], of a k'], of t] assms(3) enter_blocks_simps(2)[OF 3(1)]
    show ?thesis unfolding 3(2) by simp
  qed (use assms in simp)
qed

lemma remove_header_subset: "set (remove_header k hs) \<subseteq> set hs"
  by (induction hs) auto

lemma remove_orphan_ok: "node_ok n \<Longrightarrow> node_ok (remove_orphan h k n)"
proof -
  assume n: "node_ok n"
  have "orphans_ok (remove_orphan h k n)"
    using n remove_header_subset[of k]
    by (fastforce simp: node_ok_def orphans_ok_def remove_orphan_def Let_def distinct_update distinct_delete
      split: option.splits dest!: set_store set_delete map_of_SomeD)
  then show ?thesis using n by (auto simp: node_ok_def table_ok_def index_ok_def remove_orphan_def Let_def split: option.splits)
qed

lemma remove_orphan_simps [simp]:
  "chains (remove_orphan h k n) = chains n" "chain_heap (remove_orphan h k n) = chain_heap n"
  "currentChainTip (remove_orphan h k n) = currentChainTip n" "headersMap (remove_orphan h k n) = headersMap n"
  "blocksMap (remove_orphan h k n) = blocksMap n" "submittedBlocks (remove_orphan h k n) = submittedBlocks n"
  by (simp_all add: remove_orphan_def Let_def split: option.splits)

text \<open>The state in which the two kinds of extension are handled.\<close>

definition extended :: "BlockHeader \<Rightarrow> nat \<Rightarrow> Hash32 \<Rightarrow> Node \<Rightarrow> Node" where
  "extended header parentChain parentChainTip n =
     (let blockHash = BlockHeader_GetHash header;
          n = update_chain parentChain (\<lambda>c. AddHeader c header) n;
          n = n\<lparr>headersMap := (headersMap n)(blockHash \<mapsto> header)\<rparr>;
          n = tryConnectOrphanChildren blockHash n;
          n = remove_orphan header blockHash n
      in n\<lparr>chains := go_store blockHash parentChain (go_delete parentChainTip (chains n))\<rparr>)"

lemma extended_simps [simp]:
  "chains (extended h a t n) = go_store (BlockHeader_GetHash h) a (go_delete t (chains n))"
  "chain_heap (extended h a t n) = (chain_heap n)[a := AddHeader (chain_at n a) h]"
  "currentChainTip (extended h a t n) = currentChainTip n"
  "headersMap (extended h a t n) = (headersMap n)(BlockHeader_GetHash h \<mapsto> h)"
  "blocksMap (extended h a t n) = blocksMap n" "submittedBlocks (extended h a t n) = submittedBlocks n"
  by (simp_all add: extended_def Let_def update_chain_def)

lemma extended_ok: "node_ok n \<Longrightarrow> a < length (chain_heap n) \<Longrightarrow> node_ok (extended h a t n)"
proof -
  assume n: "node_ok n" "a < length (chain_heap n)"
  let ?u = "update_chain a (\<lambda>c. AddHeader c h) n"
  have "node_ok ?u" using n(1) by (rule update_chain_ok) simp
  from remove_orphan_ok[OF tryConnect_ok[OF headers_store_ok[OF this refl, of h]]]
  have "node_ok (remove_orphan h (BlockHeader_GetHash h) (tryConnectOrphanChildren (BlockHeader_GetHash h)
      (?u\<lparr>headersMap := (headersMap ?u)(BlockHeader_GetHash h \<mapsto> h)\<rparr>)))" .
  from chains_store_ok[OF chains_delete_ok[OF this, of t], of a "BlockHeader_GetHash h"] n(2)
  show ?thesis by (simp add: extended_def Let_def)
qed

lemma handleChainExtension_eq:
  "handleChainExtension verify executor net h a t n =
     (if t = currentChainTip n
      then handleCurrentChainExtension verify executor net h (BlockHeader_GetHash h) a t (extended h a t n)
      else map_option (\<lambda>n. (n, None)) (handleCandidateChainExtension verify executor net h (BlockHeader_GetHash h) a t (extended h a t n)))"
  by (simp add: handleChainExtension_def extended_def Let_def)

lemma handleChainExtension_ok:
  assumes "handleChainExtension verify executor net h a t n = Some (n', e)" "node_ok n" "a < length (chain_heap n)"
  shows "node_ok n'"
  using assms handleCurrentChainExtension_ok[OF _ extended_ok[OF assms(2,3)]] handleCandidateChainExtension_ok[OF _ extended_ok[OF assms(2,3)]]
  by (auto simp: handleChainExtension_eq split: if_splits)

lemma findParentChain_ok: "findParentChain n h = Some (a, t) \<Longrightarrow> node_ok n \<Longrightarrow> a < length (chain_heap n)"
  using address_ok by (auto simp: findParentChain_def split: option.splits if_splits)

lemma find_some: "List.find P xs = Some x \<Longrightarrow> x \<in> set xs \<and> P x"
  by (auto simp: find_Some_iff)

lemma findParentBlock_ok: "findParentBlock n h = Some (b, a) \<Longrightarrow> node_ok n \<Longrightarrow> a < length (chain_heap n)"
  by (auto simp: findParentBlock_def node_ok_def table_ok_def split: option.splits dest!: find_some)

lemma ProcessHeader_ok:
  assumes "ProcessHeader verify executor net h n = Some (n', e)" "node_ok n"
  shows "node_ok n'"
proof -
  from assms(1) consider "n' = n" | "n' = handleOrphanHeader h n"
    | a t where "findParentChain n h = Some (a, t)" "handleChainExtension verify executor net h a t n = Some (n', e)"
    | b a r where "findParentBlock n h = Some (b, a)" "handleForkCreation verify executor h b a n = Some (n', r)"
    | b a m x t where "findParentBlock n h = Some (b, a)" "handleForkCreation verify executor h b a n = Some (m, Inr (Some (x, t)))"
        "handleChainExtension verify executor net h x t m = Some (n', e)"
    by (auto simp: ProcessHeader_def split: option.splits if_splits sum.splits)
  then show ?thesis
  proof cases
    case (3 a t)
    then show ?thesis using handleChainExtension_ok findParentChain_ok assms(2) by blast
  next
    case (4 b a r)
    then show ?thesis using handleForkCreation_ok findParentBlock_ok assms(2) by blast
  next
    case (5 b a m x t)
    have "node_ok m" "x < length (chain_heap m)" using handleForkCreation_ok[OF 5(2) assms(2)] findParentBlock_ok[OF 5(1) assms(2)] by auto
    then show ?thesis using handleChainExtension_ok 5(3) by blast
  qed (use assms(2) handleOrphanHeader_ok in auto)
qed

lemma process_headers_ok: "process_headers verify executor net hs n = Some n' \<Longrightarrow> node_ok n \<Longrightarrow> node_ok n'"
  by (induction hs arbitrary: n) (auto split: option.splits dest: ProcessHeader_ok)

lemma fetchMissing_ok:
  assumes "fetchMissingBlocksForFork verify executor net h ms a n = Some n'" "node_ok n" "a < length (chain_heap n)"
  shows "node_ok n'"
  using assms by (auto simp: fetchMissingBlocksForFork_def split: option.splits if_splits
    elim!: ProcessHeader_ok dest!: try_chain_ok chain_keyed_add_blocks)

lemma add_to_chains_ok:
  "add_to_chains k b cs n = Some n' \<Longrightarrow> node_ok n \<Longrightarrow> \<forall>(tip, a)\<in>set cs. a < length (chain_heap n) \<Longrightarrow> node_ok n'"
proof (induction k b cs n rule: add_to_chains.induct)
  case (2 k b tip a cs n)
  show ?case
  proof (cases "GetHeader (chain_at n a) k \<noteq> None")
    case True
    with 2(3) obtain m where m: "try_chain a (\<lambda>c. AddBlock c b) n = Some m" "add_to_chains k b cs m = Some n'"
      by (auto simp: bind_eq_Some_conv)
    have "node_ok m" by (rule try_chain_ok[OF m(1) 2(4)]) (use 2(5) chain_keyed_AddBlock in auto)
    moreover have "length (chain_heap m) = length (chain_heap n)" using m(1) by (auto simp: try_chain_Some)
    ultimately show ?thesis using 2(1)[OF True _ m(2)] m(1) 2(5) by auto
  qed (use 2 in auto)
qed simp

lemma fetchParent_ok: "fetchParentForOrphan verify executor net h n = Some n' \<Longrightarrow> node_ok n \<Longrightarrow> node_ok n'"
  by (auto simp: fetchParentForOrphan_def bind_eq_Some_conv split: option.splits list.splits dest!: ProcessHeader_ok
    elim!: add_to_chains_ok) (auto simp: node_ok_def table_ok_def)

lemma StoreBlock_ok: "node_ok n \<Longrightarrow> node_ok (StoreBlock b n)"
  by (simp add: node_ok_def table_ok_def index_ok_def orphans_ok_def StoreBlock_def)

lemma run_task_ok:
  "run_task verify executor net t n = Some n' \<Longrightarrow> node_ok n \<Longrightarrow> (\<And>h m a. t = FetchForFork h m a \<Longrightarrow> a < length (chain_heap n)) \<Longrightarrow> node_ok n'"
  by (cases t) (auto elim: ProcessHeader_ok fetchMissing_ok fetchParent_ok intro: StoreBlock_ok)

lemma ProcessTransaction_ok: "node_ok n \<Longrightarrow> node_ok (fst (ProcessTransaction verify now tx n))"
proof -
  assume n: "node_ok n"
  have "mempool_ok (fst (AddTransaction now tx (node_Mempool n)))" using n AddTransaction_ok by (simp add: node_ok_def)
  then show ?thesis using n by (auto simp: ProcessTransaction_def Let_def split: option.splits prod.splits)
qed

lemma AddBlockDirectly_ok:
  assumes "AddBlockDirectly b n = Some (n', e)" "node_ok n"
  shows "node_ok n'"
proof -
  let ?h = "blk_Header b" and ?k = "BlockHeader_GetHash (blk_Header b)"
  show ?thesis
  proof (cases "List.find (\<lambda>(tip, a). GetHeader (chain_at n a) (hdr_PreviousHash ?h) \<noteq> None) (chains n)")
    case None
    then show ?thesis using assms by (simp add: AddBlockDirectly_def)
  next
    case (Some ta)
    then obtain t a where ta: "ta = (t, a)" by (cases ta)
    have a: "a < length (chain_heap n)" using assms(2) find_some[OF Some] ta by (auto simp: node_ok_def table_ok_def)
    obtain u where u: "try_chain a (\<lambda>c. AddBlock (AddHeader c ?h) b) n = Some u"
      using assms(1) Some ta by (auto simp: AddBlockDirectly_def Let_def split: option.splits)
    have "node_ok u" using try_chain_ok[OF u assms(2) a] chain_keyed_AddBlock chain_keyed_AddHeader by blast
    moreover have "a < length (chain_heap u)" using a u by (auto simp: try_chain_Some)
    moreover define m where "m = u\<lparr>headersMap := (headersMap u)(?k \<mapsto> ?h), blocksMap := (blocksMap u)(?k \<mapsto> b)\<rparr>"
    ultimately have "node_ok (m\<lparr>chains := go_store ?k a (go_delete (hdr_PreviousHash ?h) (chains u))\<rparr>)"
      using chains_store_ok[OF chains_delete_ok[of m "hdr_PreviousHash ?h"], of a ?k] headers_store_ok[of u ?h ?k] by simp
    then show ?thesis using assms(1) Some ta u by (auto simp: AddBlockDirectly_def Let_def m_def split: if_splits)
  qed
qed

lemma NewNode_ok: "node_ok NewNode"
  by (simp add: node_ok_def table_ok_def index_ok_def orphans_ok_def NewNode_def NewMempool_ok)

section \<open>Reachable states\<close>

text \<open>
  A step of the node: a header or a transaction arrives, a block is submitted or added, the mempool is
  read, which drops what has expired, the orphans are tried again, or a goroutine runs. What the peers answer is different in every step.
\<close>

inductive node_step :: "verifier \<Rightarrow> ContractExecutor option \<Rightarrow> Node \<Rightarrow> Node \<Rightarrow> bool"
  for verify :: verifier and executor :: "ContractExecutor option" where
  header: "ProcessHeader verify executor net h n = Some (n', e) \<Longrightarrow> node_step verify executor n n'"
| orphans: "processOrphanHeaders verify executor net n = Some n' \<Longrightarrow> node_step verify executor n n'"
| goroutine: "goroutines n = ts @ t # us \<Longrightarrow> run_task verify executor net t (n\<lparr>goroutines := ts @ us\<rparr>) = Some n' \<Longrightarrow>
    node_step verify executor n n'"
| transaction: "node_step verify executor n (fst (ProcessTransaction verify now tx n))"
| query: "node_step verify executor n (n\<lparr>node_Mempool := fst (GetTransactions now limit (node_Mempool n))\<rparr>)"
| submit: "node_step verify executor n (StoreBlock b n)"
| add: "AddBlockDirectly b n = Some (n', e) \<Longrightarrow> node_step verify executor n n'"

inductive reachable_node :: "verifier \<Rightarrow> ContractExecutor option \<Rightarrow> Node \<Rightarrow> bool"
  for verify :: verifier and executor :: "ContractExecutor option" where
  new: "reachable_node verify executor NewNode"
| step: "reachable_node verify executor n \<Longrightarrow> node_step verify executor n n' \<Longrightarrow> reachable_node verify executor n'"

lemma query_ok: "node_ok n \<Longrightarrow> node_ok (n\<lparr>node_Mempool := fst (GetTransactions now limit (node_Mempool n))\<rparr>)"
  using clean_ok[of "node_Mempool n" now]
  by (auto simp: node_ok_def table_ok_def index_ok_def orphans_ok_def GetTransactions_def Let_def)

lemma node_step_ok: "node_step verify executor n n' \<Longrightarrow> node_ok n \<Longrightarrow> node_ok n'"
proof (induction rule: node_step.induct)
  case (goroutine n ts t us net n')
  have "node_ok (n\<lparr>goroutines := ts @ us\<rparr>)" using goroutine.prems goroutine.hyps(1) by (auto simp: node_ok_def table_ok_def index_ok_def orphans_ok_def)
  moreover have "a < length (chain_heap n)" if "t = FetchForFork h m a" for h m a
    using that goroutine.prems goroutine.hyps(1) by (auto simp: node_ok_def table_ok_def)
  ultimately show ?case using run_task_ok[OF goroutine.hyps(2)] by auto
qed (auto simp: processOrphanHeaders_def intro: ProcessHeader_ok process_headers_ok ProcessTransaction_ok query_ok StoreBlock_ok AddBlockDirectly_ok)

lemma reachable_node_ok: "reachable_node verify executor n \<Longrightarrow> node_ok n"
  by (induction rule: reachable_node.induct) (auto intro: NewNode_ok node_step_ok)

end
