(* ===== verification/Node_Chains.thy ===== *)
theory Node_Chains
  imports Node_Properties
begin

text \<open>
  How processing a header changes the current chain of a node, in all the ways there are: by a validated
  block on top of it, by a reorganisation to validated blocks that state more work, and by the ways in which
  the node loses, rebuilds or overwrites it without meaning to; what a refused block undoes; what happens
  when a block does not arrive in time and when a header states a wrong work.
\<close>

section \<open>The current chain\<close>

lemma cleanupStaleOrphans_simps [simp]:
  "chains (cleanupStaleOrphans n) = chains n" "chain_heap (cleanupStaleOrphans n) = chain_heap n"
  "currentChainTip (cleanupStaleOrphans n) = currentChainTip n"
  by (simp_all add: cleanupStaleOrphans_def Let_def)

lemma cleanupCandidateChains_tip [simp]: "currentChainTip (cleanupCandidateChains n) = currentChainTip n"
  by (simp add: cleanupCandidateChains_def Let_def split: option.splits)

lemma add_orphan_simps [simp]:
  "chains (add_orphan h n) = chains n" "chain_heap (add_orphan h n) = chain_heap n"
  "currentChainTip (add_orphan h n) = currentChainTip n" "headersMap (add_orphan h n) = headersMap n"
  "blocksMap (add_orphan h n) = blocksMap n" "submittedBlocks (add_orphan h n) = submittedBlocks n"
  by (simp_all add: add_orphan_def)

lemma handleOrphanHeader_simps [simp]:
  "currentChainTip (handleOrphanHeader h n) = currentChainTip n" "chains (handleOrphanHeader h n) = chains n"
  "chain_heap (handleOrphanHeader h n) = chain_heap n"
  by (simp_all add: handleOrphanHeader_def Let_def)

lemma cleanupFailedHeader_tip [simp]: "currentChainTip (cleanupFailedHeader h k a t r n) = currentChainTip n"
  by (simp add: cleanupFailedHeader_def Let_def)

lemma build_chain_simps: "build_chain verify executor blocks c n = Some (n', r) \<Longrightarrow>
    chains n' = chains n \<and> chain_heap n' = chain_heap n \<and> currentChainTip n' = currentChainTip n"
  by (induction blocks arbitrary: c n) (auto split: option.splits sum.splits)

text \<open>A chain that is built from blocks is one that \<open>ValidateAndApplyBlock\<close> can build.\<close>

lemma build_chain_reachable: "build_chain verify executor blocks c n = Some (n', Inr c') \<Longrightarrow>
    reachable_chain verify executor c \<Longrightarrow> reachable_chain verify executor c'"
proof (induction blocks arbitrary: c n)
  case (Cons b bs)
  then obtain st d where d: "ValidateBlock verify executor b c = Some (Inr st)" "ApplyBlock b c st = Some d"
      "build_chain verify executor bs d (tryConnectOrphanChildren (BlockHeader_GetHash (blk_Header b)) n) = Some (n', Inr c')"
    by (auto split: option.splits sum.splits)
  then have "ValidateAndApplyBlock verify executor b c = Some (d, None)" by (simp add: ValidateAndApplyBlock_def)
  then have "reachable_chain verify executor d" by (rule reachable_chain.block[OF Cons.prems(2)])
  with Cons.IH[OF d(3)] show ?case .
qed simp

text \<open>A fork leaves the chain of every tip but that of the parent block as it is.\<close>

lemma build_new_chain: "build_chain verify executor blocks NewChain n = Some (n', r) \<Longrightarrow>
    chains n' = chains n \<and> chain_heap n' = chain_heap n \<and> currentChainTip n' = currentChainTip n \<and>
    (\<forall>c'. r = Inr c' \<longrightarrow> reachable_chain verify executor c')"
  using build_chain_simps build_chain_reachable[OF _ reachable_chain.start] by blast

lemma handleForkCreation_simps:
  assumes "handleForkCreation verify executor h b a n = Some (m, r)"
  shows "currentChainTip m = currentChainTip n"
    and "r = Inr (Some (x, t)) \<Longrightarrow> t = BlockHeader_GetHash (blk_Header b) \<and> (\<exists>c. chain_heap m = chain_heap n @ [c] \<and> x = length (chain_heap n) \<and> reachable_chain verify executor c) \<and>
      chains m = go_store t x (chains n)"
    and "(\<And>x t. r \<noteq> Inr (Some (x, t))) \<Longrightarrow> chains m = chains n \<and> chain_heap m = chain_heap n"
  using assms by (auto simp: handleForkCreation_def buildChainFromBlocks_def Let_def
    split: option.splits if_splits sum.splits prod.splits dest!: build_new_chain)

lemma current_chain_fork:
  assumes "handleForkCreation verify executor h b a n = Some (m, Inr (Some (x, t)))" "node_ok n" "t \<noteq> currentChainTip n"
  shows "current_chain m = current_chain n"
proof -
  note f = handleForkCreation_simps(1)[OF assms(1)] handleForkCreation_simps(2)[OF assms(1) refl]
  show ?thesis
  proof (cases "map_of (chains n) (currentChainTip n)")
    case None
    then show ?thesis using f assms(3) by (auto simp: current_chain_def)
  next
    case (Some y)
    then have "y < length (chain_heap n)" using address_ok assms(2) by blast
    then show ?thesis using f assms(3) Some by (auto simp: current_chain_def nth_append)
  qed
qed

lemma current_tip_extended:
  assumes "t \<noteq> currentChainTip n" "BlockHeader_GetHash h \<noteq> currentChainTip n"
  shows "Option.bind (current_chain (extended h a t n)) Tip = Option.bind (current_chain n) Tip"
proof -
  have "map_of (chains (extended h a t n)) (currentChainTip n) = map_of (chains n) (currentChainTip n)"
    using assms by (simp add: delete_conv')
  moreover have "Tip (chain_at (extended h a t n) y) = Tip (chain_at n y)" for y
    by (cases "y = a"; cases "a < length (chain_heap n)") (simp_all add: AddHeader_def list_update_beyond)
  ultimately show ?thesis
    by (cases "map_of (chains n) (currentChainTip n)") (simp_all add: current_chain_def del: extended_simps(1,2))
qed

text \<open>
  The chain that entering validated blocks makes of a candidate chain, and what entering them into a node
  does to the chains on its heap.
\<close>

definition with_blocks :: "Block list \<Rightarrow> AccountStates \<Rightarrow> Chain \<Rightarrow> Chain option" where
  "with_blocks blocks st c =
     map_option (\<lambda>c. SetAccountStates c st)
       (add_blocks blocks (fold (\<lambda>b c. AddHeader c (blk_Header b)) blocks (store_block (AddHeader c (blk_Header GenesisBlock)) GenesisBlock)))"

lemma enter_blocks_chain:
  assumes "enter_blocks a blocks st n = Some m" "a < length (chain_heap n)"
  obtains c where "with_blocks blocks st (chain_at n a) = Some c" "chain_heap m = (chain_heap n)[a := c]"
  using assms by (auto simp: enter_blocks_def with_blocks_def Let_def try_chain_Some update_chain_def split: option.splits)

lemma add_blocks_index:
  "add_blocks bs c = Some c' \<Longrightarrow> distinct (map Block_GetHash bs) \<Longrightarrow>
     (\<forall>b\<in>set bs. BlockIndex c' (Block_GetHash b) = Some b) \<and> (\<forall>k. k \<notin> set (map Block_GetHash bs) \<longrightarrow> BlockIndex c' k = BlockIndex c k)"
proof (induction bs arbitrary: c)
  case (Cons b bs)
  then obtain d where "AddBlock c b = Some d" "add_blocks bs d = Some c'" by (auto simp: bind_eq_Some_conv)
  then show ?case using Cons.IH[of d] Cons.prems(2) by (auto simp: AddBlock_Some Block_GetHash_def)
qed simp

lemma with_blocks_holds:
  assumes "with_blocks blocks st c = Some c'" "distinct (map Block_GetHash blocks)"
  shows "\<forall>b\<in>set blocks. GetBlock c' (Block_GetHash b) = Some b" and "GetAccountStates c' = st"
  using assms add_blocks_index[OF _ assms(2)]
  by (auto simp: with_blocks_def GetBlock_def SetAccountStates_def GetAccountStates_def)

lemma distinct_fold_store:
  "distinct (map fst m) \<and> (\<forall>(k, b)\<in>set m. k = Block_GetHash b) \<Longrightarrow>
     (let m' = fold (\<lambda>b. go_store (Block_GetHash b) b) bs m
      in distinct (map fst m') \<and> (\<forall>(k, b)\<in>set m'. k = Block_GetHash b))"
proof (induction bs arbitrary: m)
  case (Cons b bs)
  have "distinct (map fst (go_store (Block_GetHash b) b m)) \<and> (\<forall>(k, b)\<in>set (go_store (Block_GetHash b) b m). k = Block_GetHash b)"
    using Cons.prems by (auto simp: distinct_update dest!: set_store)
  from Cons.IH[OF this] show ?case by simp
qed simp

text \<open>The blocks of an answer are collected by their hashes.\<close>

lemma blocks_map_distinct:
  assumes "blocks_map data = Some m"
  shows "distinct (map Block_GetHash (sort_key f (map snd m)))"
proof -
  obtain bs where "m = fold (\<lambda>b. go_store (Block_GetHash b) b) bs []" using assms by (auto simp: blocks_map_def)
  then have m: "distinct (map fst m)" "\<forall>(k, b)\<in>set m. k = Block_GetHash b" using distinct_fold_store[of "[]" bs] by (simp_all add: Let_def)
  have "map Block_GetHash (map snd m) = map fst m" using m(2) by (auto simp: comp_def)
  then have "distinct (map Block_GetHash (map snd m))" using m(1) by (simp only:)
  then show ?thesis by (simp only: distinct_map distinct_sort set_sort)
qed

section \<open>How the current chain changes\<close>

text \<open>
  The candidate chain that a header continues was given blocks, which a peer sent and which were validated
  one after the other from a chain with the first account only: \<open>c'\<close> is the candidate chain with the
  header and these blocks, it holds every one of them, and its accounts are the result of executing them.
  The candidate chain is the one listed under the parent of the header, or one that was built anew from
  validated blocks when there is none. The header states more work than the tip of the current chain.
\<close>

definition entered ::
  "verifier \<Rightarrow> ContractExecutor option \<Rightarrow> BlockHeader \<Rightarrow> Node \<Rightarrow> Block \<Rightarrow> Block list \<Rightarrow> Chain \<Rightarrow> bool" where
  "entered verify executor h n tip blocks c' \<longleftrightarrow> blocks \<noteq> [] \<and> Option.bind (current_chain n) Tip = Some tip \<and>
     CompareWork (hdr_TotalWork h) (hdr_TotalWork (blk_Header tip)) > 0 \<and>
     (\<exists>st c. validate_blocks verify executor blocks temp_chain [] = Some (Some st) \<and>
        (case findParentChain n h of Some (a, t) \<Rightarrow> c = chain_at n a | None \<Rightarrow> reachable_chain verify executor c) \<and>
        with_blocks blocks st (AddHeader c h) = Some c' \<and> GetAccountStates c' = st) \<and>
     (\<forall>b\<in>set blocks. GetBlock c' (Block_GetHash b) = Some b)"

text \<open>
  The ways in which processing a header \<open>h\<close> changes the current chain of a node. The last two have no
  place in the design: a chain is \<open>rebuilt\<close> when the header on top of the current tip states a wrong work,
  and it is \<open>overwritten\<close> when blocks are entered that do not state more work than the tip, into a chain
  that is listed under the current tip as well, or that end with the current tip.
\<close>

inductive chain_change :: "verifier \<Rightarrow> ContractExecutor option \<Rightarrow> BlockHeader \<Rightarrow> Node \<Rightarrow> Node \<Rightarrow> bool"
  for verify :: verifier and executor :: "ContractExecutor option" and h :: BlockHeader and n n' :: Node where
  kept: "currentChainTip n' = currentChainTip n \<Longrightarrow>
    current_chain n' = current_chain n \<or> current_chain n' = map_option (\<lambda>c. AddHeader c h) (current_chain n) \<Longrightarrow>
    chain_change verify executor h n n'"
| extended: "hdr_PreviousHash h = currentChainTip n \<Longrightarrow>
    current_chain n = Some c \<or> findParentChain n h = None \<and> reachable_chain verify executor c \<Longrightarrow>
    ValidateAndApplyBlock verify executor b (AddHeader c h) = Some (c', None) \<Longrightarrow>
    currentChainTip n' = BlockHeader_GetHash h \<Longrightarrow> current_chain n' = Some c' \<Longrightarrow> chain_change verify executor h n n'"
| reorganised: "hdr_PreviousHash h \<noteq> currentChainTip n \<Longrightarrow> entered verify executor h n tip blocks c' \<Longrightarrow>
    CompareWork (hdr_TotalWork (blk_Header (last blocks))) (hdr_TotalWork (blk_Header tip)) > 0 \<Longrightarrow>
    currentChainTip n' = Block_GetHash (last blocks) \<Longrightarrow> current_chain n' = Some c' \<Longrightarrow> chain_change verify executor h n n'"
| lost: "hdr_PreviousHash h = currentChainTip n \<Longrightarrow> currentChainTip n' = currentChainTip n \<Longrightarrow>
    current_chain n' = None \<Longrightarrow> chain_change verify executor h n n'"
| rebuilt: "hdr_PreviousHash h = currentChainTip n \<Longrightarrow> findParentChain n h = None \<Longrightarrow> reachable_chain verify executor c \<Longrightarrow>
    currentChainTip n' = currentChainTip n \<Longrightarrow>
    current_chain n' = Some (c\<lparr>Headers := (Headers c)(BlockHeader_GetHash h := None)\<rparr>) \<Longrightarrow> chain_change verify executor h n n'"
| overwritten: "hdr_PreviousHash h \<noteq> currentChainTip n \<Longrightarrow> entered verify executor h n tip blocks c' \<Longrightarrow>
    CompareWork (hdr_TotalWork (blk_Header (last blocks))) (hdr_TotalWork (blk_Header tip)) \<le> 0 \<Longrightarrow>
    currentChainTip n' = currentChainTip n \<Longrightarrow> current_chain n' = Some c' \<Longrightarrow> chain_change verify executor h n n'"

text \<open>A block on top of the chain under the current tip.\<close>

lemma current_extension_chain:
  assumes ext: "handleCurrentChainExtension verify executor net h k a t (extended h a t n) = Some (n', e)"
    and n: "a < length (chain_heap n)" "t = currentChainTip n" "k = BlockHeader_GetHash h" "k \<noteq> t"
  obtains (lost) "currentChainTip n' = t" "current_chain n' = None"
  | (refused) "currentChainTip n' = t"
      "current_chain n' = Some ((chain_at n a)\<lparr>Headers := (Headers (chain_at n a))(k := None)\<rparr>)"
  | (applied) b c' where "ValidateAndApplyBlock verify executor b (AddHeader (chain_at n a) h) = Some (c', None)"
      "currentChainTip n' = k" "current_chain n' = Some c'"
  using ext
proof (cases rule: handleCurrentChainExtension_cases)
  case same
  then show thesis using lost n(2-4) by (simp add: current_chain_def delete_conv')
next
  case (refused r err)
  have "(AddHeader (chain_at n a) h)\<lparr>Headers := (Headers (AddHeader (chain_at n a) h))(k := None)\<rparr> =
      (chain_at n a)\<lparr>Headers := (Headers (chain_at n a))(k := None)\<rparr>" by (simp add: AddHeader_def n(3))
  with refused n show thesis by (intro that(2)) (auto simp: current_chain_def cleanupFailedHeader_def Let_def update_chain_def)
next
  case (applied b st)
  let ?c = "AddHeader (chain_at n a) h"
  obtain c where c: "ApplyBlock b ?c st = Some c" "n' = enter_extension b k a (update_chain a (\<lambda>_. c) (extended h a t n))"
    using applied(2) n(1) by (auto simp: apply_extension_Some)
  have "current_chain n' = Some c" "currentChainTip n' = k"
    using c(2) n by (auto simp: enter_extension_def current_chain_def Let_def delete_conv' update_chain_def tryConnectOrphanChildren_def)
  moreover have "ValidateAndApplyBlock verify executor b ?c = Some (c, None)"
    using applied(1) c(1) n(1) by (simp add: ValidateAndApplyBlock_def)
  ultimately show thesis using that(3) by blast
qed

lemma candidate_cases:
  assumes "handleCandidateChainExtension verify executor net h k a t n = Some n'"
  obtains (same) "n' = n"
  | (entered) tip blocks st m where "Option.bind (current_chain n) Tip = Some tip" "blocks \<noteq> []" "distinct (map Block_GetHash blocks)"
      "validate_blocks verify executor blocks temp_chain [] = Some (Some st)" "enter_blocks a blocks st n = Some m"
      "CompareWork (hdr_TotalWork h) (hdr_TotalWork (blk_Header tip)) > 0"
      "n' = (let m = m\<lparr>chains := go_store (Block_GetHash (last blocks)) a (chains m)\<rparr>
             in if CompareWork (hdr_TotalWork (blk_Header (last blocks))) (hdr_TotalWork (blk_Header tip)) > 0
                then cleanupCandidateChains (m\<lparr>currentChainTip := Block_GetHash (last blocks)\<rparr>) else m\<lparr>chains := go_delete t (chains m)\<rparr>)"
proof (cases "n' = n")
  case False
  let ?sort = "sort_key (\<lambda>b. hdr_Height (blk_Header b))"
  from False obtain tip data received st m where e: "Option.bind (current_chain n) Tip = Some tip" "blocks_map data = Some received"
      "validate_blocks verify executor (?sort (map snd received)) temp_chain [] = Some (Some st)"
      "?sort (map snd received) \<noteq> []" "enter_blocks a (?sort (map snd received)) st n = Some m"
      "CompareWork (hdr_TotalWork h) (hdr_TotalWork (blk_Header tip)) > 0"
      "n' = (let m = m\<lparr>chains := go_store (Block_GetHash (last (?sort (map snd received)))) a (chains m)\<rparr>
             in if CompareWork (hdr_TotalWork (blk_Header (last (?sort (map snd received))))) (hdr_TotalWork (blk_Header tip)) > 0
                then cleanupCandidateChains (m\<lparr>currentChainTip := Block_GetHash (last (?sort (map snd received)))\<rparr>)
                else m\<lparr>chains := go_delete t (chains m)\<rparr>)"
    using assms by (auto simp: handleCandidateChainExtension_def Let_def not_le Block_GetHash_def split: option.splits if_splits)
  show thesis by (rule entered[OF e(1,4) blocks_map_distinct[OF e(2)] e(3,5-7)])
qed (rule same)

text \<open>A candidate chain is extended; the header has a new hash, and its parent is not the current tip.\<close>

lemma chain_at_extended:
  "a < length (chain_heap n) \<Longrightarrow> chain_at (extended h a t n) y = (if y = a then AddHeader (chain_at n a) h else chain_at n y)"
  by simp

lemma current_chain_cong:
  assumes "map_of (chains m) (currentChainTip m) = map_of (chains n) (currentChainTip n)"
    "\<And>y. map_of (chains n) (currentChainTip n) = Some y \<Longrightarrow> chain_at m y = f (chain_at n y)"
  shows "current_chain m = map_option f (current_chain n)"
  using assms by (cases "map_of (chains n) (currentChainTip n)") (simp_all add: current_chain_def)

lemma extended_kept:
  assumes "a < length (chain_heap n)" "t \<noteq> currentChainTip n" "BlockHeader_GetHash h \<noteq> currentChainTip n"
  shows "current_chain (extended h a t n) = current_chain n \<or>
    current_chain (extended h a t n) = map_option (\<lambda>c. AddHeader c h) (current_chain n)"
proof -
  have m: "map_of (chains (extended h a t n)) (currentChainTip (extended h a t n)) = map_of (chains n) (currentChainTip n)"
    using assms(2,3) by (simp add: delete_conv')
  show ?thesis
  proof (cases "map_of (chains n) (currentChainTip n) = Some a")
    case True
    then show ?thesis using current_chain_cong[OF m, of "\<lambda>c. AddHeader c h"] chain_at_extended[OF assms(1)] by (simp del: extended_simps)
  next
    case False
    then have "current_chain (extended h a t n) = map_option id (current_chain n)"
      using chain_at_extended[OF assms(1)] by (intro current_chain_cong[OF m]) (auto simp del: extended_simps)
    then show ?thesis by (simp add: option.map_id)
  qed
qed

lemma map_of_filter_key: "(\<And>v. P (k, v)) \<Longrightarrow> map_of (filter P xs) k = map_of xs k"
  by (induction xs) auto

lemma cleanupCandidateChains_current: "current_chain (cleanupCandidateChains n) = current_chain n"
  using map_of_filter_key[of _ "currentChainTip n" "chains n"]
  by (auto simp: cleanupCandidateChains_def Let_def current_chain_def[of "cleanupStaleOrphans m" for m] split: option.splits)
    (simp_all add: current_chain_def)

lemma candidate_change:
  assumes cand: "handleCandidateChainExtension verify executor net h (BlockHeader_GetHash h) a t (extended h a t n) = Some n'"
    and n: "a < length (chain_heap n)" "t \<noteq> currentChainTip n" "BlockHeader_GetHash h \<noteq> currentChainTip n"
  obtains (kept) "currentChainTip n' = currentChainTip n"
      "current_chain n' = current_chain n \<or> current_chain n' = map_option (\<lambda>c. AddHeader c h) (current_chain n)"
  | (entered) tip blocks st c' where "Option.bind (current_chain n) Tip = Some tip" "blocks \<noteq> []" "distinct (map Block_GetHash blocks)"
      "validate_blocks verify executor blocks temp_chain [] = Some (Some st)" "CompareWork (hdr_TotalWork h) (hdr_TotalWork (blk_Header tip)) > 0"
      "with_blocks blocks st (AddHeader (chain_at n a) h) = Some c'" "current_chain n' = Some c'"
      "if CompareWork (hdr_TotalWork (blk_Header (last blocks))) (hdr_TotalWork (blk_Header tip)) > 0
       then currentChainTip n' = Block_GetHash (last blocks) else currentChainTip n' = currentChainTip n"
  using cand
proof (cases rule: candidate_cases)
  case same
  then show thesis using that(1) extended_kept[OF n] by simp
next
  case (entered tip blocks st m)
  let ?e = "extended h a t n" and ?k = "Block_GetHash (last blocks)"
  let ?w = "CompareWork (hdr_TotalWork (blk_Header (last blocks))) (hdr_TotalWork (blk_Header tip)) > 0"
  have tip: "Option.bind (current_chain n) Tip = Some tip" using entered(1) current_tip_extended[OF n(2,3)] by simp
  note m = enter_blocks_simps[OF entered(5)]
  obtain c' where c': "with_blocks blocks st (AddHeader (chain_at n a) h) = Some c'" "chain_heap m = (chain_heap ?e)[a := c']"
    using enter_blocks_chain[OF entered(5)] n(1) by auto
  show thesis
  proof (cases "?w \<or> ?k = currentChainTip n \<or> map_of (chains n) (currentChainTip n) = Some a")
    case True
    have at: "chain_at m a = c'" using n(1) c'(2) by simp
    have "current_chain n' = Some c'"
    proof (cases ?w)
      case True
      then have "n' = cleanupCandidateChains (m\<lparr>chains := go_store ?k a (chains m), currentChainTip := ?k\<rparr>)" using entered(7) by (simp add: Let_def)
      then show ?thesis using at by (simp add: cleanupCandidateChains_current current_chain_def[of "m\<lparr>chains := x, currentChainTip := y\<rparr>" for x y])
    next
      case False
      then have n': "n' = m\<lparr>chains := go_delete t (go_store ?k a (chains m))\<rparr>" using entered(7) by (simp add: Let_def)
      have "map_of (chains n') (currentChainTip n') = Some a" using True False m(1,3) n(2,3) unfolding n' by (auto simp: delete_conv')
      then show ?thesis using at n' by (simp add: current_chain_def)
    qed
    moreover have "if ?w then currentChainTip n' = ?k else currentChainTip n' = currentChainTip n" using m unfolding entered(7) by (simp add: Let_def)
    ultimately show thesis using that(2) tip entered(2-4,6) c'(1) by blast
  next
    case False
    then have n': "n' = m\<lparr>chains := go_delete t (go_store ?k a (chains m))\<rparr>" unfolding entered(7) by (simp add: Let_def)
    then have t: "map_of (chains n') (currentChainTip n') = map_of (chains ?e) (currentChainTip ?e)" "currentChainTip n' = currentChainTip n"
      using False m n(2) by (auto simp: delete_conv')
    have "map_of (chains ?e) (currentChainTip ?e) \<noteq> Some a" using False n(2,3) by (simp add: delete_conv')
    then have "current_chain n' = map_option id (current_chain ?e)"
      using n' c'(2) by (intro current_chain_cong[OF t(1)]) (auto simp del: extended_simps)
    then show thesis using that(1) t(2) extended_kept[OF n] by (simp add: option.map_id)
  qed
qed

lemma ProcessHeader_cases:
  assumes "ProcessHeader verify executor net h n = Some (n', e)"
  obtains (same) "currentChainTip n' = currentChainTip n" "current_chain n' = current_chain n"
  | (chain) a t where "findParentChain n h = Some (a, t)" "t = hdr_PreviousHash h" "\<not> checkHeaderExists n (BlockHeader_GetHash h)"
      "handleChainExtension verify executor net h a t n = Some (n', e)"
  | (fork) b a m x t where "findParentChain n h = None" "findParentBlock n h = Some (b, a)"
      "handleForkCreation verify executor h b a n = Some (m, Inr (Some (x, t)))" "handleChainExtension verify executor net h x t m = Some (n', e)"
proof (cases "findParentChain n h")
  case (Some at)
  then obtain a where "findParentChain n h = Some (a, hdr_PreviousHash h)" by (auto simp: findParentChain_def split: option.splits if_splits)
  then show thesis using assms same chain by (auto simp: ProcessHeader_def split: option.splits if_splits)
next
  case none: None
  show thesis
  proof (cases "findParentBlock n h")
    case None
    then show thesis using assms none same by (auto simp: ProcessHeader_def current_chain_def split: option.splits if_splits)
  next
    case (Some ba)
    obtain b a where ba: "ba = (b, a)" by (cases ba)
    show thesis
    proof (cases "handleForkCreation verify executor h b a n")
      case None
      then show thesis using assms same none Some ba by (auto simp: ProcessHeader_def split: option.splits if_splits)
    next
      case f: (Some mr)
      obtain m r where mr: "mr = (m, r)" by (cases mr)
      note kept = handleForkCreation_simps(1,3)[of verify executor h b a n m r]
      show thesis
      proof (cases "\<exists>x t. r = Inr (Some (x, t))")
        case True
        then show thesis using assms same fork[of b a m] none Some ba f mr by (auto simp: ProcessHeader_def split: option.splits if_splits)
      next
        case False
        then have "current_chain m = current_chain n" "currentChainTip m = currentChainTip n" using kept f mr by (auto simp: current_chain_def)
        then show thesis using assms same False none Some ba f mr by (auto simp: ProcessHeader_def split: option.splits if_splits sum.splits)
      qed
    qed
  qed
qed

lemma findParentBlock_hash: "findParentBlock n h = Some (b, a) \<Longrightarrow> node_ok n \<Longrightarrow> BlockHeader_GetHash (blk_Header b) = hdr_PreviousHash h"
  by (auto simp: findParentBlock_def node_ok_def table_ok_def GetBlock_def chain_keyed_def list_all_length split: option.splits dest!: find_some)

section \<open>Extending the current chain\<close>

lemma ProcessHeader_extension:
  assumes "ValidateHeaderStructure h = None" "\<not> checkHeaderExists n (BlockHeader_GetHash h)" "findParentChain n h = Some (a, currentChainTip n)"
  shows "ProcessHeader verify executor net h n =
    handleCurrentChainExtension verify executor net h (BlockHeader_GetHash h) a (currentChainTip n) (extended h a (currentChainTip n) n)"
  using assms by (simp add: ProcessHeader_def handleChainExtension_eq)

lemma not_known_header: "\<not> checkHeaderExists n k \<Longrightarrow> (t, a) \<in> set (chains n) \<Longrightarrow> Headers (chain_at n a) k = None"
  by (auto simp: checkHeaderExists_def list_ex_iff GetHeader_def)

lemma findParentChain_member: "findParentChain n h = Some (a, t) \<Longrightarrow> map_of (chains n) t = Some a \<and> hdr_PreviousHash h = t"
  by (auto simp: findParentChain_def split: option.splits if_splits)

lemma Headers_undo: "Headers c k = None \<Longrightarrow> BlockHeader_GetHash h = k \<Longrightarrow> (AddHeader c h)\<lparr>Headers := (Headers (AddHeader c h))(k := None)\<rparr> = c"
  by (cases c) (auto simp: AddHeader_def fun_eq_iff)

lemma cleanup_undoes:
  assumes "a < length (chain_heap n)" "map_of (chains n) t = Some a" "map_of (chains n) (BlockHeader_GetHash h) = None"
    "Headers (chain_at n a) (BlockHeader_GetHash h) = None" "headersMap n (BlockHeader_GetHash h) = None"
  shows "map_of (chains (cleanupFailedHeader h (BlockHeader_GetHash h) a t r (extended h a t n))) = map_of (chains n)"
    and "chain_heap (cleanupFailedHeader h (BlockHeader_GetHash h) a t r (extended h a t n)) = chain_heap n"
    and "headersMap (cleanupFailedHeader h (BlockHeader_GetHash h) a t r (extended h a t n)) = headersMap n"
    and "blocksMap (cleanupFailedHeader h (BlockHeader_GetHash h) a t r (extended h a t n)) = blocksMap n"
proof -
  let ?k = "BlockHeader_GetHash h"
  have "t \<noteq> ?k" using assms(2,3) by auto
  then show "map_of (chains (cleanupFailedHeader h ?k a t r (extended h a t n))) = map_of (chains n)"
    using assms(2,3) by (auto simp: cleanupFailedHeader_def Let_def delete_conv' fun_eq_iff)
  show "chain_heap (cleanupFailedHeader h ?k a t r (extended h a t n)) = chain_heap n"
    using assms(1) Headers_undo[OF assms(4) refl] by (simp add: cleanupFailedHeader_def Let_def update_chain_def)
  show "headersMap (cleanupFailedHeader h ?k a t r (extended h a t n)) = headersMap n"
    using assms(5) by (auto simp: cleanupFailedHeader_def Let_def fun_eq_iff)
  show "blocksMap (cleanupFailedHeader h ?k a t r (extended h a t n)) = blocksMap n"
    by (simp add: cleanupFailedHeader_def Let_def)
qed

section \<open>Every way in which the current chain changes\<close>

text \<open>The two kinds of extension, on the chain of a tip or on a chain that was built for the header.\<close>

lemma current_extension_change:
  assumes ext: "handleChainExtension verify executor net h a t m = Some (n', e)"
    and m: "a < length (chain_heap m)" "t = currentChainTip m" "currentChainTip m = currentChainTip n"
    and h: "hdr_PreviousHash h = t" "BlockHeader_GetHash h \<noteq> t"
    and base: "current_chain n = Some (chain_at m a) \<and> Headers (chain_at m a) (BlockHeader_GetHash h) = None \<or>
      findParentChain n h = None \<and> reachable_chain verify executor (chain_at m a)"
  shows "chain_change verify executor h n n'"
proof -
  have "handleCurrentChainExtension verify executor net h (BlockHeader_GetHash h) a t (extended h a t m) = Some (n', e)"
    using ext m(2) by (simp add: handleChainExtension_eq)
  from current_extension_chain[OF this m(1,2) refl h(2)] show ?thesis
  proof cases
    case 1
    then show ?thesis using m h by (intro chain_change.lost) simp_all
  next
    case 2
    have "chain_at m a\<lparr>Headers := (Headers (chain_at m a))(BlockHeader_GetHash h := None)\<rparr> = chain_at m a"
      if "Headers (chain_at m a) (BlockHeader_GetHash h) = None" using that by (simp add: fun_upd_idem)
    then show ?thesis using 2 m h base chain_change.kept chain_change.rebuilt by metis
  next
    case (3 b c')
    have "current_chain n = Some (chain_at m a) \<or> findParentChain n h = None \<and> reachable_chain verify executor (chain_at m a)" using base by blast
    from chain_change.extended[OF _ this 3(1,2)] 3(3) m h show ?thesis by simp
  qed
qed

lemma candidate_extension_change:
  assumes ext: "handleChainExtension verify executor net h a t m = Some (n', e)"
    and m: "a < length (chain_heap m)" "t \<noteq> currentChainTip m" "currentChainTip m = currentChainTip n" "current_chain m = current_chain n"
    and h: "hdr_PreviousHash h = t" "BlockHeader_GetHash h \<noteq> currentChainTip n"
    and base: "case findParentChain n h of Some (a', t) \<Rightarrow> chain_at m a = chain_at n a' | None \<Rightarrow> reachable_chain verify executor (chain_at m a)"
  shows "chain_change verify executor h n n'"
proof -
  have "handleCandidateChainExtension verify executor net h (BlockHeader_GetHash h) a t (extended h a t m) = Some n'"
    using ext m(2) by (simp add: handleChainExtension_eq)
  moreover have "BlockHeader_GetHash h \<noteq> currentChainTip m" using h(2) m(3) by simp
  note candidate_change[OF calculation(1) m(1,2) this]
  then show ?thesis
  proof cases
    case entered: (2 tip blocks st c')
    have e: "entered verify executor h n tip blocks c'"
      unfolding entered_def using entered(1,2,4-6) m(4) base with_blocks_holds[OF entered(6,3)] by (auto split: option.splits)
    show ?thesis
    proof (cases "CompareWork (hdr_TotalWork (blk_Header (last blocks))) (hdr_TotalWork (blk_Header tip)) > 0")
      case True
      then show ?thesis using chain_change.reorganised[OF _ e] entered(7,8) m h by simp
    next
      case False
      then show ?thesis using chain_change.overwritten[OF _ e] entered(7,8) m h by simp
    qed
  qed (use m h chain_change.kept in auto)
qed

lemma header_change:
  assumes n: "node_ok n" and p: "ProcessHeader verify executor net h n = Some (n', e)" and k: "BlockHeader_GetHash h \<noteq> currentChainTip n"
  shows "chain_change verify executor h n n'"
  using p
proof (cases rule: ProcessHeader_cases)
  case same
  then show ?thesis by (auto intro: chain_change.kept)
next
  case (chain a t)
  note a = findParentChain_ok[OF chain(1) n] findParentChain_member[OF chain(1)]
  show ?thesis
  proof (cases "t = currentChainTip n")
    case True
    then have "current_chain n = Some (chain_at n a)" using a by (simp add: current_chain_def)
    moreover have "Headers (chain_at n a) (BlockHeader_GetHash h) = None" using not_known_header[OF chain(3)] a(2) map_of_SomeD by fastforce
    ultimately show ?thesis using current_extension_change[OF chain(4) a(1) True refl] chain(2) k True by simp
  next
    case False
    then show ?thesis using candidate_extension_change[OF chain(4) a(1) False refl refl _ k] chain(1,2) by simp
  qed
next
  case (fork b a m x t)
  have x: "x < length (chain_heap m)" using handleForkCreation_ok[OF fork(3) n findParentBlock_ok[OF fork(2) n]] by auto
  note f = handleForkCreation_simps(1)[OF fork(3)] handleForkCreation_simps(2)[OF fork(3) refl]
  have t: "hdr_PreviousHash h = t" using f(2) findParentBlock_hash[OF fork(2) n] by simp
  have r: "reachable_chain verify executor (chain_at m x)" using f(2) by (auto simp: nth_append)
  show ?thesis
  proof (cases "t = currentChainTip n")
    case True
    then show ?thesis using current_extension_change[OF fork(4) x _ f(1) t] f(1) k fork(1) r by simp
  next
    case False
    then show ?thesis using candidate_extension_change[OF fork(4) x _ f(1) current_chain_fork[OF fork(3) n False] t k] f(1) fork(1) r by simp
  qed
qed

text \<open>A header that neither is nor continues a given tip is processed.\<close>

definition other_header :: "verifier \<Rightarrow> ContractExecutor option \<Rightarrow> Hash32 \<Rightarrow> Node \<Rightarrow> Node \<Rightarrow> bool" where
  "other_header verify executor t n n' \<longleftrightarrow> (\<exists>net h e. ProcessHeader verify executor net h n = Some (n', e) \<and>
     BlockHeader_GetHash h \<noteq> t \<and> hdr_PreviousHash h \<noteq> t)"

text \<open>A node without a current chain stays without one as long as only such headers arrive.\<close>

lemma stays_lost:
  assumes "(other_header verify executor t)\<^sup>*\<^sup>* n n'" "node_ok n" "currentChainTip n = t" "current_chain n = None"
  shows "node_ok n' \<and> currentChainTip n' = t \<and> current_chain n' = None"
  using assms(1)
proof (induction rule: rtranclp_induct)
  case (step m m')
  then obtain net h e where h: "ProcessHeader verify executor net h m = Some (m', e)" "BlockHeader_GetHash h \<noteq> t" "hdr_PreviousHash h \<noteq> t"
    by (auto simp: other_header_def)
  have "chain_change verify executor h m m'" using header_change[OF _ h(1)] step.IH h(2) by simp
  then show ?case using step.IH h(3) ProcessHeader_ok[OF h(1)] by cases (auto simp: entered_def)
qed (use assms in simp)

section \<open>A new node\<close>

text \<open>Peers that never answer.\<close>

definition silent :: network where
  "silent = \<lparr>RequestBlocks = (\<lambda>_. None), RequestHeaders = (\<lambda>_. None)\<rparr>"

lemma silent_simps [simp]: "RequestBlocks silent ks = None" "RequestHeaders silent ks = None"
  by (simp_all add: silent_def)

lemma NewNode_simps [simp]:
  "chains NewNode = [(genesis_hash, 0)]" "currentChainTip NewNode = genesis_hash" "length (chain_heap NewNode) = 1"
  "headersMap NewNode k = (if k = genesis_hash then Some (blk_Header GenesisBlock) else None)"
  "node_GetBlock NewNode k = (if k = genesis_hash then Some GenesisBlock else None)" "orphanHeaders NewNode = []"
  "Headers (chain_at NewNode 0) k = (if k = genesis_hash then Some (blk_Header GenesisBlock) else None)"
  "BlockIndex (chain_at NewNode 0) k = (if k = genesis_hash then Some GenesisBlock else None)"
  by (simp_all add: NewNode_def node_GetBlock_def NewChain_def AddHeader_def)

lemma NewNode_known: "checkHeaderExists NewNode k \<longleftrightarrow> k = genesis_hash"
  by (simp add: checkHeaderExists_def GetHeader_def)

lemma NewNode_parent: "hdr_PreviousHash h = genesis_hash \<Longrightarrow>
    findParentChain NewNode h = (if ValidateHeaderTotalWork h ''1'' \<noteq> None then None else Some (0, genesis_hash))"
  by (simp add: findParentChain_def GetHeader_def) (simp add: GenesisBlock_def genesis_template_def)

lemma easy_work: "n \<noteq> 0 \<Longrightarrow> ValidateHeaderTotalWork (easy_header n p ''1'') ''1'' = None"
proof -
  have w: "GetBlockWork 0x2200ffff = 0" by code_simp
  have "AddWork (big_String 1) (CalculateBlockWorkFromBits 0x2200ffff) = big_String 1"
    by (simp add: CalculateBlockWorkFromBits_String AddWork_String w)
  moreover have "big_String 1 = ''1''" by code_simp
  ultimately have "AddWork ''1'' (CalculateBlockWorkFromBits 0x2200ffff) = ''1''" by simp
  then show "n \<noteq> 0 \<Longrightarrow> ?thesis" by (simp add: ValidateHeaderTotalWork_def easy_header_structure)
qed

lemma extended_GetBlock [simp]: "node_GetBlock (extended h a t n) k = node_GetBlock n k"
  by (cases "submittedBlocks n k") (simp_all add: node_GetBlock_def)

lemma GetBlock_chains [simp]: "node_GetBlock (n\<lparr>chain_heap := hs, chains := cs\<rparr>) k = node_GetBlock n k"
  by (cases "submittedBlocks n k") (simp_all add: node_GetBlock_def)

text \<open>When the block of a header on top of the current chain does not arrive, the old tip is gone.\<close>

lemma timeout_extension:
  assumes "ValidateHeaderStructure h = None" "findParentChain n h = Some (a, currentChainTip n)"
    "\<not> checkHeaderExists n (BlockHeader_GetHash h)" "node_GetBlock n (BlockHeader_GetHash h) = None"
    "RequestBlocks net [BlockHeader_GetHash h] = None"
  shows "ProcessHeader verify executor net h n = Some (extended h a (currentChainTip n) n, None)"
proof -
  have "fetch_extension net (BlockHeader_GetHash h) (extended h a (currentChainTip n) n) = Some []"
    using assms(4,5) by (simp add: fetch_extension_def)
  then show ?thesis using ProcessHeader_extension[OF assms(1,3,2)] by (simp add: handleCurrentChainExtension_def)
qed

lemma extended_no_current: "BlockHeader_GetHash h \<noteq> currentChainTip n \<Longrightarrow> current_chain (extended h a (currentChainTip n) n) = None"
  by (simp add: current_chain_def delete_conv')

text \<open>A block without transactions under a Merkle root other than zero is refused by every chain.\<close>

lemma empty_block_refused:
  assumes "blk_Transactions b = []" "hdr_MerkleRoot (blk_Header b) \<noteq> zero32" "GetTargetBits (length (Blocks c)) (Blocks c) \<noteq> None"
  shows "\<exists>e. ValidateBlock verify executor b c = Some (Inl e)"
proof -
  have "\<exists>e. validateBlockStructure b c = Some (Some e)"
    using assms by (auto simp: validateBlockStructure_def Let_def MerkleTransactions_def split: option.splits)
  then show ?thesis by (auto simp: ValidateBlock_def split: block_error.splits)
qed

definition empty_block :: Block where
  "empty_block = \<lparr>blk_Header = (easy_header 1 zero32 ''1'')\<lparr>hdr_MerkleRoot := replicate 32 1\<rparr>, blk_Transactions = []\<rparr>"

definition bad_peers :: network where
  "bad_peers = \<lparr>RequestBlocks = (\<lambda>_. Some [[BlockToProtoBlock empty_block]]), RequestHeaders = (\<lambda>_. None)\<rparr>"

lemma bad_answer:
  assumes "node_GetBlock n k = None"
  obtains b where "fetch_extension bad_peers k n = Some [b]" "blk_Transactions b = []" "hdr_MerkleRoot (blk_Header b) \<noteq> zero32"
proof -
  have "replicate 32 1 \<noteq> zero32" by (simp add: zero32_def)
  moreover have "ProtoBlockToBlock (BlockToProtoBlock empty_block) = Some \<lparr>blk_Header = ProtoHeaderToBlockHeader (BlockHeaderToProtoHeader (blk_Header empty_block)), blk_Transactions = []\<rparr>"
    by (simp add: BlockToProtoBlock_def ProtoBlockToBlock_def empty_block_def)
  ultimately show thesis using assms
    by (intro that) (auto simp: fetch_extension_def bad_peers_def blocks_map_def BlockHeaderToProtoHeader_def ProtoHeaderToBlockHeader_def empty_block_def)
qed

lemma bad_peers_refused:
  assumes "BlockHeader_GetHash (easy_header 1 genesis_hash ''1'') \<noteq> genesis_hash"
  shows "\<exists>n' err. ProcessHeader verify executor bad_peers (easy_header 1 genesis_hash ''1'') NewNode = Some (n', Some err)"
proof -
  let ?h = "easy_header 1 genesis_hash ''1''"
  let ?k = "BlockHeader_GetHash ?h" and ?n = "extended ?h 0 genesis_hash NewNode"
  have p: "ProcessHeader verify executor bad_peers ?h NewNode = handleCurrentChainExtension verify executor bad_peers ?h ?k 0 genesis_hash ?n"
    using ProcessHeader_extension[of ?h NewNode 0] assms by (simp add: easy_header_structure NewNode_known NewNode_parent easy_work)
  have "node_GetBlock ?n ?k = None" using assms by simp
  then obtain b where b: "fetch_extension bad_peers ?k ?n = Some [b]" "blk_Transactions b = []" "hdr_MerkleRoot (blk_Header b) \<noteq> zero32"
    using bad_answer by blast
  have "Blocks (chain_at ?n 0) = [Some GenesisBlock]"
    by (simp add: AddHeader_def) (simp add: NewNode_def store_block_def AddHeader_def NewChain_def Let_def GenesisBlock_def genesis_template_def)
  then have "GetTargetBits (length (Blocks (chain_at ?n 0))) (Blocks (chain_at ?n 0)) \<noteq> None"
    by (simp add: GetTargetBits_def RecalculationFrequency_def)
  then obtain e where "ValidateBlock verify executor b (chain_at ?n 0) = Some (Inl e)" using empty_block_refused[OF b(2,3)] by blast
  then show ?thesis using p b(1) by (simp add: handleCurrentChainExtension_def)
qed

section \<open>Properties\<close>

text \<open>
  C15. In every state that a node can reach, headers are indexed by their own hashes in the global header
  index, headers and blocks are so in every candidate chain, an orphan waits under the hash of its parent,
  and the mempool keeps its heap and its bound. The global index of blocks has no place in this invariant:
  \<open>handleCurrentChainExtension\<close> stores the first block of an answer under the hash it asked for.
\<close>

theorem node_invariant:
  assumes "reachable_node verify executor n"
  shows "(\<forall>k h. node_GetHeader n k = Some h \<longrightarrow> BlockHeader_GetHash h = k) \<and>
    (\<forall>tip a. map_of (chains n) tip = Some a \<longrightarrow> a < length (chain_heap n) \<and>
       (\<forall>k h. GetHeader (chain_at n a) k = Some h \<longrightarrow> BlockHeader_GetHash h = k) \<and>
       (\<forall>k b. GetBlock (chain_at n a) k = Some b \<longrightarrow> BlockHeader_GetHash (blk_Header b) = k)) \<and>
    (\<forall>k h. h \<in> set (orphans_of n k) \<longrightarrow> hdr_PreviousHash h = k) \<and>
    is_heap entry_Less (mp_queue (node_Mempool n)) \<and> mempool_Size (node_Mempool n) \<le> MempoolMaxSize"
proof -
  note n = reachable_node_ok[OF assms]
  have "chain_keyed (chain_at n a)" if "map_of (chains n) tip = Some a" for tip a
    using n address_ok[OF n that] by (simp add: node_ok_def table_ok_def list_all_length)
  then show ?thesis using n address_ok[OF n] orphans_of_ok[of n]
    by (auto simp: node_ok_def index_ok_def node_GetHeader_def chain_keyed_def GetHeader_def GetBlock_def mempool_ok_def mempool_Size_def)
qed

theorem node_invariant_witness:
  "mempool_Size (node_Mempool (StoreBlock GenesisBlock NewNode)) \<le> MempoolMaxSize"
proof -
  have "reachable_node accept None (StoreBlock GenesisBlock NewNode)"
    by (rule reachable_node.step[OF reachable_node.new]) (rule node_step.submit)
  then show ?thesis using node_invariant by blast
qed

text \<open>
  C10. Processing a header, whatever the peers answer, changes the current chain of a node, the chain and
  not only its tip, in one of the ways of \<open>chain_change\<close>. The chain is kept, but for the header. Or the
  header continues the current tip, and the new chain is the current one with a block that
  \<open>ValidateAndApplyBlock\<close> accepted on it. Or the header continues another tip and states more work, and
  the new chain is the chain of its parent with blocks that were validated one after the other, that it
  holds, whose execution gives its accounts, and of which the last states more work than the old tip. When
  no parent chain is found, as for a header that states a wrong work, a chain built anew from validated
  blocks takes the place of the one that is extended. What remains are three ways that the design does
  not mean: a header on the current tip can cost the node the chain; one for which no parent chain is
  found can replace it by the chain built anew, without a block; and validated blocks that do not state
  more work overwrite it.
\<close>

theorem current_chain_changes:
  assumes "reachable_node verify executor n" "ProcessHeader verify executor net h n = Some (n', e)"
    "BlockHeader_GetHash h \<noteq> currentChainTip n"
  shows "chain_change verify executor h n n'"
  using header_change[OF reachable_node_ok[OF assms(1)] assms(2,3)] .

theorem current_chain_changes_witness:
  "let h = easy_header 1 genesis_hash ''1'' in
   BlockHeader_GetHash h = genesis_hash \<or> (\<exists>n' err. ProcessHeader accept None bad_peers h NewNode = Some (n', Some err) \<and>
     chain_change accept None h NewNode n')"
proof -
  let ?h = "easy_header 1 genesis_hash ''1''"
  have "\<exists>n' err. ProcessHeader accept None bad_peers ?h NewNode = Some (n', Some err) \<and> chain_change accept None ?h NewNode n'"
    if k: "BlockHeader_GetHash ?h \<noteq> genesis_hash"
  proof -
    obtain n' err where r: "ProcessHeader accept None bad_peers ?h NewNode = Some (n', Some err)" using bad_peers_refused[OF k] by blast
    from current_chain_changes[OF reachable_node.new r] k r show ?thesis by auto
  qed
  then show ?thesis unfolding Let_def by blast
qed

text \<open>
  C16. A block that is refused leaves no trace: when the block of a new header on top of the current chain
  does not pass validation, the tips, the contents of all chains, the current tip and the indexes of headers
  and blocks are what they were before the header arrived.
\<close>

theorem refused_block_undone:
  assumes "reachable_node verify executor n" "ValidateHeaderStructure h = None" "findParentChain n h = Some (a, currentChainTip n)"
    "\<not> checkHeaderExists n (BlockHeader_GetHash h)" "map_of (chains n) (BlockHeader_GetHash h) = None"
    "headersMap n (BlockHeader_GetHash h) = None"
    "ProcessHeader verify executor net h n = Some (n', Some err)"
  shows "map_of (chains n') = map_of (chains n) \<and> chain_heap n' = chain_heap n \<and> currentChainTip n' = currentChainTip n \<and>
    headersMap n' = headersMap n \<and> blocksMap n' = blocksMap n \<and> (\<exists>e. err = BlockRejected e)"
proof -
  let ?t = "currentChainTip n" and ?k = "BlockHeader_GetHash h"
  note n = reachable_node_ok[OF assms(1)]
  have a: "a < length (chain_heap n)" "map_of (chains n) ?t = Some a"
    using findParentChain_ok[OF assms(3) n] findParentChain_member[OF assms(3)] by simp_all
  have hd: "Headers (chain_at n a) ?k = None" using not_known_header[OF assms(4)] a(2) map_of_SomeD by fastforce
  have "handleCurrentChainExtension verify executor net h ?k a ?t (extended h a ?t n) = Some (n', Some err)"
    using assms(7) ProcessHeader_extension[OF assms(2,4,3)] by simp
  then show ?thesis
  proof (cases rule: handleCurrentChainExtension_cases)
    case (refused r e)
    then show ?thesis using cleanup_undoes[OF a assms(5) hd assms(6), of r] by (simp add: cleanupFailedHeader_tip)
  qed simp_all
qed

theorem refused_block_undone_witness:
  "let h = easy_header 1 genesis_hash ''1'' in
   BlockHeader_GetHash h = genesis_hash \<or> (\<exists>n' err. ProcessHeader accept None bad_peers h NewNode = Some (n', Some err) \<and>
     chain_heap n' = chain_heap NewNode \<and> map_of (chains n') = map_of (chains NewNode))"
proof -
  let ?h = "easy_header 1 genesis_hash ''1''"
  have "\<exists>n' err. ProcessHeader accept None bad_peers ?h NewNode = Some (n', Some err) \<and>
      chain_heap n' = chain_heap NewNode \<and> map_of (chains n') = map_of (chains NewNode)" if k: "BlockHeader_GetHash ?h \<noteq> genesis_hash"
  proof -
    obtain n' err where r: "ProcessHeader accept None bad_peers ?h NewNode = Some (n', Some err)" using bad_peers_refused[OF k] by blast
    have "findParentChain NewNode ?h = Some (0, currentChainTip NewNode)" by (simp add: NewNode_parent easy_work)
    from refused_block_undone[OF reachable_node.new easy_header_structure this _ _ _ r] k r show ?thesis by (auto simp: NewNode_known)
  qed
  then show ?thesis unfolding Let_def by blast
qed

text \<open>
  C39. A block that does not arrive in time costs the node its current chain: after the timeout the current
  tip names no chain any more, and the node reports height zero and an empty chain. This stays so however
  many headers it processes afterwards, those on top of the announced one included, as long as none of
  them continues the old tip or has its hash; a header that does continue the old tip can bring a chain back.
\<close>

theorem timeout_loses_chain:
  assumes "reachable_node verify executor n" "ValidateHeaderStructure h = None" "findParentChain n h = Some (a, currentChainTip n)"
    "\<not> checkHeaderExists n (BlockHeader_GetHash h)" "node_GetBlock n (BlockHeader_GetHash h) = None"
    "RequestBlocks net [BlockHeader_GetHash h] = None" "BlockHeader_GetHash h \<noteq> currentChainTip n"
  shows "\<exists>n'. ProcessHeader verify executor net h n = Some (n', None) \<and> currentChainTip n' = currentChainTip n \<and>
    current_chain n' = None \<and> GetChainHead n' = \<lparr>head_Height = 0, head_Hash = zero32, head_TotalWork = ''0''\<rparr> \<and> GetChain n' = NewChain \<and>
    (\<forall>n''. (other_header verify executor (currentChainTip n))\<^sup>*\<^sup>* n' n'' \<longrightarrow>
       currentChainTip n'' = currentChainTip n \<and> current_chain n'' = None \<and> GetChain n'' = NewChain)"
proof -
  let ?n = "extended h a (currentChainTip n) n"
  note n = reachable_node_ok[OF assms(1)]
  have ok: "node_ok ?n" using extended_ok[OF n findParentChain_ok[OF assms(3) n]] .
  have none: "current_chain ?n = None" using extended_no_current[OF assms(7)] .
  have "currentChainTip n'' = currentChainTip n \<and> current_chain n'' = None"
    if "(other_header verify executor (currentChainTip n))\<^sup>*\<^sup>* ?n n''" for n''
    using stays_lost[OF that ok _ none] by simp
  moreover have new: "GetChain m = NewChain" if "current_chain m = None" for m using that by (simp add: GetChain_def)
  moreover have "GetChainHead ?n = \<lparr>head_Height = 0, head_Hash = zero32, head_TotalWork = ''0''\<rparr>" using none by (simp add: GetChainHead_def Let_def)
  ultimately show ?thesis using timeout_extension[OF assms(2-6)] none by (intro exI[of _ ?n] conjI allI impI new extended_simps(3)) blast+
qed

theorem timeout_loses_chain_witness:
  "let h = easy_header 1 genesis_hash ''1'' in
   BlockHeader_GetHash h = genesis_hash \<or> (\<exists>n'. ProcessHeader accept None silent h NewNode = Some (n', None) \<and> GetChain n' = NewChain)"
proof -
  let ?h = "easy_header 1 genesis_hash ''1''"
  have "findParentChain NewNode ?h = Some (0, currentChainTip NewNode)" by (simp add: NewNode_parent easy_work)
  from timeout_loses_chain[OF reachable_node.new[of accept None] easy_header_structure this, of silent]
  have "BlockHeader_GetHash ?h \<noteq> genesis_hash \<Longrightarrow> \<exists>n'. ProcessHeader accept None silent ?h NewNode = Some (n', None) \<and> GetChain n' = NewChain"
    by (auto simp: NewNode_known)
  then show ?thesis unfolding Let_def by blast
qed

text \<open>
  The stated total work of a header is not enforced: a header on top of the genesis block that
  \<open>ValidateHeaderTotalWork\<close> refuses is not turned away, but starts a candidate chain of its own and is stored
  in the header index, since a failed check of the work counts as a parent that was not found.
\<close>

theorem wrong_total_work_accepted:
  assumes "ValidateHeaderStructure h = None" "hdr_PreviousHash h = genesis_hash"
    "ValidateHeaderTotalWork h (hdr_TotalWork (blk_Header GenesisBlock)) \<noteq> None" "RequestBlocks net [BlockHeader_GetHash h] = None"
  shows "BlockHeader_GetHash h = genesis_hash \<or>
    (\<exists>n' a. ProcessHeader verify executor net h NewNode = Some (n', None) \<and> node_GetHeader n' (BlockHeader_GetHash h) = Some h \<and>
       map_of (chains n') (BlockHeader_GetHash h) = Some a \<and> GetHeader (chain_at n' a) (BlockHeader_GetHash h) = Some h)"
proof (cases "BlockHeader_GetHash h = genesis_hash")
  case False
  let ?k = "BlockHeader_GetHash h"
  let ?m = "NewNode\<lparr>chain_heap := chain_heap NewNode @ [NewChain], chains := go_store genesis_hash 1 (chains NewNode)\<rparr>"
  have "hdr_TotalWork (blk_Header GenesisBlock) = ''1''" by (simp add: GenesisBlock_def genesis_template_def)
  then have no: "findParentChain NewNode h = None" using NewNode_parent[OF assms(2)] assms(3) by simp
  have parent: "findParentBlock NewNode h = Some (GenesisBlock, 0)" using assms(2) by (simp add: findParentBlock_def GetBlock_def)
  have fork: "handleForkCreation verify executor h GenesisBlock 0 NewNode = Some (?m, Inr (Some (1, genesis_hash)))"
    by (simp add: handleForkCreation_def buildChainFromBlocks_def walk_back.simps[of NewNode genesis_hash] Let_def)
  have "fetch_extension net ?k (extended h 1 genesis_hash ?m) = Some []"
    using assms(4) False by (simp add: fetch_extension_def)
  then have "ProcessHeader verify executor net h NewNode = Some (extended h 1 genesis_hash ?m, None)"
    using assms(1) no parent fork False
    by (simp add: ProcessHeader_def NewNode_known handleChainExtension_eq handleCurrentChainExtension_def)
  then show ?thesis using False by (auto simp: node_GetHeader_def GetHeader_def AddHeader_def)
qed simp

theorem wrong_total_work_accepted_witness:
  "let h = easy_header 1 genesis_hash ''1000000'' in
   ValidateHeaderTotalWork h (hdr_TotalWork (blk_Header GenesisBlock)) = Some InvalidTotalWork \<and>
   (BlockHeader_GetHash h = genesis_hash \<or> (\<exists>n'. ProcessHeader accept None silent h NewNode = Some (n', None) \<and>
      node_GetHeader n' (BlockHeader_GetHash h) = Some h))"
proof -
  let ?h = "easy_header 1 genesis_hash ''1000000''"
  have "ValidateHeaderTotalWork (easy_header 1 genesis_hash ''1'') ''1'' = None" by (rule easy_work) simp
  then have "AddWork ''1'' (CalculateBlockWorkFromBits 0x2200ffff) = ''1''" by (simp add: ValidateHeaderTotalWork_def easy_header_structure split: if_splits)
  then have w: "ValidateHeaderTotalWork ?h (hdr_TotalWork (blk_Header GenesisBlock)) = Some InvalidTotalWork"
    by (simp add: ValidateHeaderTotalWork_def easy_header_structure) (simp add: GenesisBlock_def genesis_template_def)
  from wrong_total_work_accepted[of ?h silent accept None] w show ?thesis unfolding Let_def by (auto simp: easy_header_structure)
qed

end
