(* ===== verification/Peers.thy ===== *)
theory Peers
  imports Node_Chains
begin

text \<open>
  The network library, \<open>src/libnet\<close>: framed messages on a stream (\<open>proto_stream.go\<close>), the requests that wait
  for an answer and the choice of peers (\<open>utils.go\<close>), and the handlers of the protocol (\<open>rpc/\<close>). A stream is
  the list of the bytes that arrive before it is closed. The encoding of messages is the library
  \<open>google.golang.org/protobuf\<close>: \<open>marshal\<close> and \<open>unmarshal\<close> are arguments, and \<open>unmarshal\<close> gives the
  message it leaves behind and whether it reports an error. A channel is a number; \<open>channels\<close> says of each
  whether it is closed. \<open>None\<close> is a panic.
\<close>

section \<open>Messages on a stream\<close>

definition WriteProtoMsg :: "('m \<Rightarrow> byte list option) \<Rightarrow> 'm \<Rightarrow> byte list option" where
  "WriteProtoMsg marshal msg =
     (case marshal msg of
        None \<Rightarrow> None
      | Some data \<Rightarrow> Some (be_bytes 4 (uint (of_nat (length data) :: u32)) @ data))"

text \<open>The message read into the message \<open>blank\<close>, whether there was an error, and the rest of the stream.\<close>

definition ReadProtoMsg :: "(byte list \<Rightarrow> 'm \<times> bool) \<Rightarrow> 'm \<Rightarrow> byte list \<Rightarrow> 'm \<times> bool \<times> byte list" where
  "ReadProtoMsg unmarshal blank r =
     (if length r < 4 then (blank, False, [])
      else let len = nat (big_SetBytes (take 4 r)); r = drop 4 r in
           if length r < len then (blank, False, [])
           else case unmarshal (take len r) of (msg, ok) \<Rightarrow> (msg, ok, drop len r))"

section \<open>Requests that wait for an answer\<close>

datatype message = BlocksResponse "BlockData list" | HeadersResponse "HeaderData list"

record PeerService =
  PendingRequests :: "(string, message list) gomap"
  PendingRequestsWaiters :: "(string, nat list) gomap"
  channels :: "bool list"

definition NewPeerService :: PeerService where
  "NewPeerService = \<lparr>PendingRequests = [], PendingRequestsWaiters = [], channels = []\<rparr>"

text \<open>Closing a channel that is closed already panics.\<close>

fun close_all :: "nat list \<Rightarrow> bool list \<Rightarrow> bool list option" where
  "close_all [] cs = Some cs"
| "close_all (ch # chs) cs = (if cs ! ch then None else close_all chs (cs[ch := True]))"

definition NotifyMessageWaiters :: "string \<Rightarrow> PeerService \<Rightarrow> PeerService option" where
  "NotifyMessageWaiters messageID ps =
     (case map_of (PendingRequestsWaiters ps) messageID of
        None \<Rightarrow> Some ps
      | Some chs \<Rightarrow>
          map_option (\<lambda>cs. ps\<lparr>channels := cs, PendingRequestsWaiters := go_store messageID [] (PendingRequestsWaiters ps)\<rparr>)
            (close_all chs (channels ps)))"

definition GetDataFromMessage :: "string \<Rightarrow> PeerService \<Rightarrow> message list" where
  "GetDataFromMessage messageID ps = (case map_of (PendingRequests ps) messageID of None \<Rightarrow> [] | Some ms \<Rightarrow> ms)"

definition AddMessageToPending :: "string \<Rightarrow> PeerService \<Rightarrow> PeerService \<times> nat" where
  "AddMessageToPending messageID ps =
     (let ch = length (channels ps);
          ps = ps\<lparr>channels := channels ps @ [False]\<rparr>;
          ps = (if map_of (PendingRequests ps) messageID = None
                then ps\<lparr>PendingRequests := go_store messageID [] (PendingRequests ps)\<rparr> else ps);
          waiters = (case map_of (PendingRequestsWaiters ps) messageID of None \<Rightarrow> [] | Some chs \<Rightarrow> chs)
      in (ps\<lparr>PendingRequestsWaiters := go_store messageID (waiters @ [ch]) (PendingRequestsWaiters ps)\<rparr>, ch))"

section \<open>The choice of peers\<close>

text \<open>The loop runs while \<open>0 < maxSample\<close>; \<open>indices\<close> is the permutation that \<open>rand.Perm\<close> returns.\<close>

function sample_loop :: "nat list \<Rightarrow> 'p list \<Rightarrow> nat \<Rightarrow> nat \<Rightarrow> 'p list \<Rightarrow> 'p list option" where
  "sample_loop indices peers maxSample i subsample =
     (if 0 < maxSample then
        if i < maxSample \<and> i < length indices \<and> indices ! i < length peers
        then sample_loop indices peers maxSample (Suc i) (subsample @ [peers ! (indices ! i)])
        else None
      else Some subsample)"
  by pat_completeness auto
termination by (relation "measure (\<lambda>(_, _, maxSample, i, _). maxSample - i)") auto

declare sample_loop.simps [simp del]

text \<open>A negative length makes \<open>make\<close> panic.\<close>

definition SamplePeers :: "nat list \<Rightarrow> 'p list \<Rightarrow> int \<Rightarrow> 'p list option" where
  "SamplePeers indices peers maxSample =
     (if int (length peers) \<le> maxSample then Some peers
      else if maxSample < 0 then None
      else sample_loop indices peers (nat maxSample) 0 [])"

section \<open>The protocol\<close>

record MessageData =
  md_MessageID :: string
  md_SenderID :: string

record BlocksRequest =
  brq_MessageData :: "MessageData option"
  brq_Hashes :: "byte list list"

record HeadersRequest =
  hrq_MessageData :: "MessageData option"
  hrq_Hashes :: "byte list list"

definition MaxPeersForRequest :: nat where
  "MaxPeersForRequest = 20"

text \<open>The protocols, and the handlers that \<open>NewRPCProtocol\<close> registers for them.\<close>

definition RPCBlocksRequest :: string where
  "RPCBlocksRequest = ''/august/rpc/blocksreq/1.0.0''"

definition RPCBlocksResponse :: string where
  "RPCBlocksResponse = ''/august/rpc/blocksresp/1.0.0''"

definition RPCHeadersRequest :: string where
  "RPCHeadersRequest = ''/august/rpc/headersreq/1.0.0''"

definition RPCHeadersResponse :: string where
  "RPCHeadersResponse = ''/august/rpc/headersresp/1.0.0''"

definition RPCHeaderAnnouncement :: string where
  "RPCHeaderAnnouncement = ''/august/rpc/headerannounce/1.0.0''"

definition RPCTransactionAnnouncement :: string where
  "RPCTransactionAnnouncement = ''/august/rpc/transactionannounce/1.0.0''"

datatype handler = OnHeadersRequest | OnHeadersResponse | OnHeaderAnnouncement | OnBlocksRequest | OnBlocksResponse

definition NewRPCProtocol :: "(string, handler) gomap" where
  "NewRPCProtocol =
     [(RPCHeadersRequest, OnHeadersRequest), (RPCHeadersResponse, OnHeadersResponse), (RPCHeaderAnnouncement, OnHeaderAnnouncement),
      (RPCBlocksRequest, OnBlocksRequest), (RPCBlocksResponse, OnBlocksResponse)]"

text \<open>What is sent: the peer, the protocol and the message. A request has the hashes as byte slices.\<close>

definition rpc_RequestBlocks :: "MessageData \<Rightarrow> nat list \<Rightarrow> 'p list \<Rightarrow> Hash32 list \<Rightarrow> ('p \<times> string \<times> BlocksRequest) list option" where
  "rpc_RequestBlocks md indices peers hashes =
     map_option (map (\<lambda>p. (p, RPCBlocksRequest, \<lparr>brq_MessageData = Some md, brq_Hashes = hashes\<rparr>)))
       (SamplePeers indices peers (int MaxPeersForRequest))"

definition rpc_RequestHeaders :: "MessageData \<Rightarrow> nat list \<Rightarrow> 'p list \<Rightarrow> Hash32 list \<Rightarrow> ('p \<times> string \<times> HeadersRequest) list option" where
  "rpc_RequestHeaders md indices peers hashes =
     map_option (map (\<lambda>p. (p, RPCHeadersRequest, \<lparr>hrq_MessageData = Some md, hrq_Hashes = hashes\<rparr>)))
       (SamplePeers indices peers (int MaxPeersForRequest))"

text \<open>
  The answer to a request: the sender of the request, the identifier and the data. An unreadable request is
  only logged, and what was read so far is answered.
\<close>

definition onBlocksRequest ::
  "(byte list \<Rightarrow> BlocksRequest \<times> bool) \<Rightarrow> byte list \<Rightarrow> Node \<Rightarrow> (string \<times> string \<times> BlockData list) option" where
  "onBlocksRequest unmarshal s n =
     (let data = fst (ReadProtoMsg unmarshal \<lparr>brq_MessageData = None, brq_Hashes = []\<rparr> s);
          blocks = GetBlocks n (map (copy_array 32) (brq_Hashes data))
      in map_option (\<lambda>md. (md_SenderID md, md_MessageID md, map BlockToProtoBlock blocks)) (brq_MessageData data))"

definition onHeadersRequest ::
  "(byte list \<Rightarrow> HeadersRequest \<times> bool) \<Rightarrow> byte list \<Rightarrow> Node \<Rightarrow> (string \<times> string \<times> HeaderData list) option" where
  "onHeadersRequest unmarshal s n =
     (let data = fst (ReadProtoMsg unmarshal \<lparr>hrq_MessageData = None, hrq_Hashes = []\<rparr> s);
          headers = GetHeaders n (map (copy_array 32) (hrq_Hashes data))
      in map_option (\<lambda>md. (md_SenderID md, md_MessageID md, map BlockHeaderToProtoHeader headers)) (hrq_MessageData data))"

text \<open>
  An answer is stored under its identifier, and whoever waits for it is woken. The handlers of answers and of
  announcements are given the message that reading the stream has left, with or without an error.
\<close>

definition on_response :: "MessageData option \<Rightarrow> message \<Rightarrow> PeerService \<Rightarrow> PeerService option" where
  "on_response md data ps =
     (case md of
        None \<Rightarrow> None
      | Some md \<Rightarrow>
          let messageID = md_MessageID md
          in NotifyMessageWaiters messageID
               (ps\<lparr>PendingRequests := go_store messageID (GetDataFromMessage messageID ps @ [data]) (PendingRequests ps)\<rparr>))"

definition onBlocksResponse :: "MessageData option \<Rightarrow> BlockData list \<Rightarrow> PeerService \<Rightarrow> PeerService option" where
  "onBlocksResponse md blockData = on_response md (BlocksResponse blockData)"

definition onHeadersResponse :: "MessageData option \<Rightarrow> HeaderData list \<Rightarrow> PeerService \<Rightarrow> PeerService option" where
  "onHeadersResponse md headerData = on_response md (HeadersResponse headerData)"

text \<open>Announcements go to the callbacks that \<open>NewNode\<close> sets.\<close>

definition onHeaderAnnouncement ::
  "verifier \<Rightarrow> ContractExecutor option \<Rightarrow> network \<Rightarrow> HeaderData \<Rightarrow> Node \<Rightarrow> Node option" where
  "onHeaderAnnouncement verify executor net data n =
     map_option fst (ProcessHeader verify executor net (ProtoHeaderToBlockHeader data) n)"

definition onTransactionAnnouncement :: "verifier \<Rightarrow> int \<Rightarrow> TransactionData \<Rightarrow> Node \<Rightarrow> Node option" where
  "onTransactionAnnouncement verify now data n =
     map_option (\<lambda>tx. fst (ProcessTransaction verify now tx n)) (ProtoTransactionToTransaction data)"

definition AnnounceHeader :: "'p list \<Rightarrow> BlockHeader \<Rightarrow> ('p \<times> string \<times> HeaderData) list" where
  "AnnounceHeader peers header = map (\<lambda>p. (p, RPCHeaderAnnouncement, BlockHeaderToProtoHeader header)) peers"

definition AnnounceTransaction :: "'p list \<Rightarrow> Transaction \<Rightarrow> ('p \<times> string \<times> TransactionData) list" where
  "AnnounceTransaction peers tsx = map (\<lambda>p. (p, RPCTransactionAnnouncement, TransactionToProtoTransaction tsx)) peers"

section \<open>Framing\<close>

text \<open>A message that is written, and read by a decoder that accepts it, arrives; what follows stays in the stream.\<close>

lemma Read_Write:
  assumes "WriteProtoMsg marshal m = Some bytes" "marshal m = Some data" "unmarshal data = (m', True)" "length data < 2 ^ 32"
  shows "ReadProtoMsg unmarshal e (bytes @ rest) = (m', True, rest)"
proof -
  have l: "uint (of_nat (length data) :: u32) = int (length data)"
    using assms(4) by (simp add: unsigned_of_nat take_bit_nat_eq_self_iff)
  then have "nat (big_SetBytes (be_bytes 4 (uint (of_nat (length data) :: u32)))) = length data"
    using assms(4) by (simp add: big_SetBytes_be_bytes)
  moreover have "bytes = be_bytes 4 (uint (of_nat (length data) :: u32)) @ data" using assms(1,2) by (simp add: WriteProtoMsg_def)
  ultimately show ?thesis using assms(3) by (simp add: ReadProtoMsg_def Let_def)
qed

section \<open>Waiting\<close>

definition waiting :: "PeerService \<Rightarrow> string \<Rightarrow> nat list" where
  "waiting ps messageID = (case map_of (PendingRequestsWaiters ps) messageID of None \<Rightarrow> [] | Some chs \<Rightarrow> chs)"

text \<open>The channels of all waiters are open, and each is waited on once.\<close>

definition service_ok :: "PeerService \<Rightarrow> bool" where
  "service_ok ps \<longleftrightarrow> (\<forall>k. distinct (waiting ps k) \<and> (\<forall>ch\<in>set (waiting ps k). ch < length (channels ps) \<and> \<not> channels ps ! ch)) \<and>
     (\<forall>k k'. k \<noteq> k' \<longrightarrow> set (waiting ps k) \<inter> set (waiting ps k') = {})"

inductive service_step :: "PeerService \<Rightarrow> PeerService \<Rightarrow> bool" where
  request: "AddMessageToPending messageID ps = (ps', ch) \<Longrightarrow> service_step ps ps'"
| response: "on_response md data ps = Some ps' \<Longrightarrow> service_step ps ps'"

inductive reachable_service :: "PeerService \<Rightarrow> bool" where
  new: "reachable_service NewPeerService"
| step: "reachable_service ps \<Longrightarrow> service_step ps ps' \<Longrightarrow> reachable_service ps'"

lemma close_all_open:
  "distinct chs \<Longrightarrow> \<forall>ch\<in>set chs. ch < length cs \<and> \<not> cs ! ch \<Longrightarrow>
     \<exists>cs'. close_all chs cs = Some cs' \<and> length cs' = length cs \<and> (\<forall>ch<length cs. cs' ! ch \<longleftrightarrow> cs ! ch \<or> ch \<in> set chs)"
proof (induction chs arbitrary: cs)
  case (Cons ch chs)
  then have "\<forall>c\<in>set chs. c < length (cs[ch := True]) \<and> \<not> cs[ch := True] ! c" by (auto simp: nth_list_update)
  from Cons.IH[OF _ this] Cons.prems obtain cs' where "close_all chs (cs[ch := True]) = Some cs'" "length cs' = length cs"
    "\<forall>c<length cs. cs' ! c \<longleftrightarrow> cs[ch := True] ! c \<or> c \<in> set chs" by auto
  with Cons.prems show ?case by (auto simp: nth_list_update)
qed simp

lemma waiting_AddMessage:
  assumes "AddMessageToPending k ps = (ps', ch)"
  shows "waiting ps' k' = (if k' = k then waiting ps k @ [ch] else waiting ps k')" "ch = length (channels ps)" "channels ps' = channels ps @ [False]"
  using assms by (auto simp: AddMessageToPending_def waiting_def Let_def split: if_splits)

lemma AddMessage_ok:
  assumes "AddMessageToPending k ps = (ps', ch)" "service_ok ps"
  shows "service_ok ps'"
proof -
  note a = waiting_AddMessage[OF assms(1)]
  have "ch \<notin> set (waiting ps k')" for k' using assms(2) a(2) by (auto simp: service_ok_def)
  then show ?thesis using assms(2) unfolding service_ok_def a(1,3) by (auto simp: a(2) nth_append dest: less_SucI)
qed

lemma PendingRequests_waiting [simp]:
  "waiting (ps\<lparr>PendingRequests := x\<rparr>) k = waiting ps k" "service_ok (ps\<lparr>PendingRequests := x\<rparr>) = service_ok ps"
  by (simp_all add: waiting_def service_ok_def)

text \<open>An answer closes exactly the channels that wait for it, and no channel is closed twice.\<close>

lemma on_response_ok:
  assumes "service_ok ps"
  shows "\<exists>ps'. on_response (Some md) data ps = Some ps' \<and> service_ok ps' \<and> waiting ps' (md_MessageID md) = [] \<and>
    (\<forall>ch<length (channels ps). channels ps' ! ch \<longleftrightarrow> channels ps ! ch \<or> ch \<in> set (waiting ps (md_MessageID md))) \<and>
    GetDataFromMessage (md_MessageID md) ps' = GetDataFromMessage (md_MessageID md) ps @ [data]"
proof -
  let ?k = "md_MessageID md"
  let ?ps = "ps\<lparr>PendingRequests := go_store ?k (GetDataFromMessage ?k ps @ [data]) (PendingRequests ps)\<rparr>"
  obtain cs where cs: "close_all (waiting ps ?k) (channels ps) = Some cs" "length cs = length (channels ps)"
    "\<forall>ch<length (channels ps). cs ! ch \<longleftrightarrow> channels ps ! ch \<or> ch \<in> set (waiting ps ?k)"
    using close_all_open[of "waiting ps ?k" "channels ps"] assms by (auto simp: service_ok_def)
  show ?thesis
  proof (cases "map_of (PendingRequestsWaiters ps) ?k")
    case None
    then have r: "on_response (Some md) data ps = Some ?ps" "waiting ps ?k = []"
      by (simp_all add: on_response_def NotifyMessageWaiters_def waiting_def Let_def)
    show ?thesis using r assms by (auto simp: GetDataFromMessage_def)
  next
    case (Some chs)
    let ?qs = "?ps\<lparr>channels := cs, PendingRequestsWaiters := go_store ?k [] (PendingRequestsWaiters ps)\<rparr>"
    have chs: "waiting ps ?k = chs" using Some by (simp add: waiting_def)
    have r: "on_response (Some md) data ps = Some ?qs"
      using Some cs(1) chs by (simp add: on_response_def NotifyMessageWaiters_def Let_def)
    have w: "waiting ?qs k = (if k = ?k then [] else waiting ps k)" for k by (simp add: waiting_def)
    have "service_ok ?qs" using assms cs(2,3) unfolding service_ok_def w by (auto split: if_splits) blast
    moreover have "GetDataFromMessage ?k ?qs = GetDataFromMessage ?k ps @ [data]" by (simp add: GetDataFromMessage_def)
    ultimately show ?thesis using r cs(3) w[of ?k] by (intro exI[of _ ?qs]) simp
  qed
qed

lemma reachable_service_ok: "reachable_service ps \<Longrightarrow> service_ok ps"
proof (induction rule: reachable_service.induct)
  case new
  then show ?case by (simp add: service_ok_def waiting_def NewPeerService_def)
next
  case (step ps ps')
  from step.hyps(2) show ?case
  proof cases
    case (request messageID ch)
    then show ?thesis using AddMessage_ok step.IH by blast
  next
    case (response md data)
    then show ?thesis using on_response_ok[OF step.IH] by (cases md) (auto simp: on_response_def, metis option.inject)
  qed
qed

section \<open>Properties\<close>

text \<open>
  C20. A request is answered: whoever registers for the answer to a request is woken by the first answer
  with its identifier, finds that answer, and is not woken by answers to other requests; handling an answer
  never closes a channel twice, which would stop the node.
\<close>

theorem response_wakes_waiter:
  assumes "reachable_service ps" "AddMessageToPending (md_MessageID md) ps = (ps', ch)"
  shows "\<not> channels ps' ! ch \<and>
    (\<exists>ps''. on_response (Some md) data ps' = Some ps'' \<and> channels ps'' ! ch \<and>
       GetDataFromMessage (md_MessageID md) ps'' = GetDataFromMessage (md_MessageID md) ps @ [data]) \<and>
    (\<exists>ps''. on_response (Some other) data ps' = Some ps'' \<and> (channels ps'' ! ch \<longleftrightarrow> md_MessageID other = md_MessageID md))"
proof -
  note a = waiting_AddMessage[OF assms(2)]
  have ok: "service_ok ps'" using AddMessage_ok[OF assms(2) reachable_service_ok[OF assms(1)]] .
  have ch: "ch < length (channels ps')" "\<not> channels ps' ! ch" using a(2,3) by simp_all
  have data: "GetDataFromMessage (md_MessageID md) ps' = GetDataFromMessage (md_MessageID md) ps"
    using assms(2) by (auto simp: AddMessageToPending_def GetDataFromMessage_def Let_def split: option.splits if_splits)
  have member: "ch \<in> set (waiting ps' k) \<longleftrightarrow> k = md_MessageID md" for k
    using reachable_service_ok[OF assms(1)] by (auto simp: a(1) a(2) service_ok_def)
  then show ?thesis using on_response_ok[OF ok, of md data] on_response_ok[OF ok, of other data] ch data by auto
qed

theorem response_wakes_waiter_witness:
  "\<exists>ps. onHeadersResponse (Some \<lparr>md_MessageID = ''a'', md_SenderID = ''p''\<rparr>) [] (fst (AddMessageToPending ''a'' NewPeerService)) = Some ps \<and>
     channels ps ! snd (AddMessageToPending ''a'' NewPeerService) \<and> GetDataFromMessage ''a'' ps = [HeadersResponse []]"
proof -
  obtain ps' ch where a: "AddMessageToPending (md_MessageID \<lparr>md_MessageID = ''a'', md_SenderID = ''p''\<rparr>) NewPeerService = (ps', ch)" by fastforce
  have "GetDataFromMessage ''a'' NewPeerService = []" by (simp add: GetDataFromMessage_def NewPeerService_def)
  with response_wakes_waiter[OF reachable_service.new a, of "HeadersResponse []"] a show ?thesis by (auto simp: onHeadersResponse_def)
qed

lemma sample_loop_panics: "0 < maxSample \<Longrightarrow> sample_loop indices peers maxSample i subsample = None"
  by (induction indices peers maxSample i subsample rule: sample_loop.induct) (subst sample_loop.simps, simp)

text \<open>
  The choice of peers for a request stops the node as soon as there are more peers than the limit: the
  condition of the loop does not mention the loop variable, so the loop writes behind the end of the slice.
  Otherwise all peers are asked.
\<close>

theorem RequestBlocks_panics:
  "rpc_RequestBlocks md indices peers hashes =
     (if length peers \<le> MaxPeersForRequest
      then Some (map (\<lambda>p. (p, RPCBlocksRequest, \<lparr>brq_MessageData = Some md, brq_Hashes = hashes\<rparr>)) peers) else None)"
  by (simp add: rpc_RequestBlocks_def SamplePeers_def sample_loop_panics MaxPeersForRequest_def)

text \<open>A request that ends before its length is read has no message data, and answering it panics.\<close>

lemma short_request_panics:
  assumes "length s < 4"
  shows "onBlocksRequest unmarshal s n = None" "onHeadersRequest unmarshal' s n = None"
  using assms by (simp_all add: onBlocksRequest_def onHeadersRequest_def ReadProtoMsg_def)

text \<open>Headers are announced under a protocol that peers handle, transactions under one that none does.\<close>

lemma transaction_announcements_unhandled:
  "\<forall>(p, proto, h)\<in>set (AnnounceHeader peers header). map_of NewRPCProtocol proto = Some OnHeaderAnnouncement"
  "\<forall>(p, proto, tx)\<in>set (AnnounceTransaction peers tsx). map_of NewRPCProtocol proto = None"
  by (auto simp: AnnounceHeader_def AnnounceTransaction_def NewRPCProtocol_def RPCBlocksRequest_def RPCBlocksResponse_def RPCHeadersRequest_def
    RPCHeadersResponse_def RPCHeaderAnnouncement_def RPCTransactionAnnouncement_def)

end
