(* ===== verification/Api.thy ===== *)
theory Api
  imports Node_Properties Encoding
begin

text \<open>
  The HTTP interface of a node for miners, wallets and explorers, \<open>src/node/api.go\<close>: one definition per
  handler. A request has its method, its path and the parameter \<open>limit\<close>; the body of a submission is given
  as the decoded value, \<open>None\<close> if decoding failed. A response is an error status or the structure that is
  encoded as JSON. A handler that changes the node returns it; the result \<open>None\<close> of a search is the panic of
  reading a nil block, which leaves the request without a response.
\<close>

section \<open>Requests and responses\<close>

record Request =
  req_Method :: string
  req_Path :: string
  req_limit :: string

datatype 'a response = HttpError nat | Json 'a

record BalanceResponse =
  bal_Address :: string
  bal_Exists :: bool
  bal_Balance :: u64
  bal_Nonce :: u64

record SubmitTransactionResponse =
  sub_Status :: string
  sub_Hash :: string

record TransactionResponse =
  txr_Found :: bool
  txr_Transaction :: "Transaction option"
  txr_BlockHeight :: nat
  txr_BlockHash :: string
  txr_TxIndex :: nat
  txr_Status :: string
  txr_InMempool :: bool
  txr_Hash :: string

record BlockResponse =
  blr_Found :: bool
  blr_Block :: "Block option"
  blr_Height :: nat
  blr_Hash :: string
  blr_TxCount :: nat
  blr_Confirmations :: nat

record MempoolResponse =
  mpr_Count :: nat
  mpr_Transactions :: "Transaction list"

record ContractResponse =
  con_Found :: bool
  con_Address :: string
  con_Balance :: u64
  con_Nonce :: u64
  con_IsContract :: bool
  con_HasInstructions :: bool
  con_StorageEntries :: nat
  con_PersistentData :: "(string, string) gomap"
  con_CodeHash :: string
  con_StorageRoot :: string

record ChainStateResponse =
  cst_AccountStates :: "(string, AccountState) gomap"
  cst_AccountCount :: nat

text \<open>\<open>strings.TrimPrefix\<close>.\<close>

definition TrimPrefix :: "string \<Rightarrow> string \<Rightarrow> string" where
  "TrimPrefix s p = (if take (length p) s = p then drop (length p) s else s)"

text \<open>The address in a path, and the hash in a path, in hexadecimal or else in base64.\<close>

definition parse_address :: "string \<Rightarrow> PublicKey option" where
  "parse_address path =
     (if path = [] then None
      else case hex_DecodeString path of
          None \<Rightarrow> None
        | Some addressBytes \<Rightarrow> if length addressBytes \<noteq> 32 then None else Some addressBytes)"

definition parse_hash :: "string \<Rightarrow> Hash32 option" where
  "parse_hash path =
     (if path = [] then None
      else case (case hex_DecodeString path of Some hashBytes \<Rightarrow> Some hashBytes | None \<Rightarrow> base64_DecodeString path) of
          None \<Rightarrow> None
        | Some hashBytes \<Rightarrow> if length hashBytes \<noteq> 32 then None else Some hashBytes)"

section \<open>Handlers\<close>

definition handleChainInfo :: "Request \<Rightarrow> Node \<Rightarrow> ChainHead response" where
  "handleChainInfo r n = (if req_Method r \<noteq> ''GET'' then HttpError 405 else Json (GetChainHead n))"

definition handleChainState :: "Request \<Rightarrow> Node \<Rightarrow> ChainStateResponse response" where
  "handleChainState r n =
     (if req_Method r \<noteq> ''GET'' then HttpError 405
      else let states = chain_AccountStates (GetChain n) in
           Json \<lparr>cst_AccountStates = fold (\<lambda>(pubKey, state). go_store (hex_EncodeToString pubKey) state) states [],
                 cst_AccountCount = length states\<rparr>)"

definition handleSubmitBlock :: "Request \<Rightarrow> Block option \<Rightarrow> Node \<Rightarrow> Node \<times> string response" where
  "handleSubmitBlock r body n =
     (if req_Method r \<noteq> ''POST'' then (n, HttpError 405)
      else case body of
          None \<Rightarrow> (n, HttpError 400)
        | Some block \<Rightarrow> (n\<lparr>goroutines := goroutines n @ [SubmitBlock block]\<rparr>, Json ''submitted''))"

definition mempool_limit :: "string \<Rightarrow> int" where
  "mempool_limit limitStr =
     (if limitStr = [] then 100
      else case Atoi limitStr of
          None \<Rightarrow> 100
        | Some parsedLimit \<Rightarrow>
            let limit = (if parsedLimit > 1000 then 1000 else parsedLimit) in if limit < 1 then 1 else limit)"

definition handleGetMempool :: "int \<Rightarrow> Request \<Rightarrow> Node \<Rightarrow> Node \<times> MempoolResponse response" where
  "handleGetMempool now r n =
     (if req_Method r \<noteq> ''GET'' then (n, HttpError 405)
      else case GetTransactions now (mempool_limit (req_limit r)) (node_Mempool n) of
          (mp, transactions) \<Rightarrow>
            (n\<lparr>node_Mempool := mp\<rparr>, Json \<lparr>mpr_Count = length transactions, mpr_Transactions = transactions\<rparr>))"

definition handleBalance :: "Request \<Rightarrow> Node \<Rightarrow> BalanceResponse response" where
  "handleBalance r n =
     (if req_Method r \<noteq> ''GET'' then HttpError 405
      else let path = TrimPrefix (req_Path r) ''/balance/'' in
           case parse_address path of
             None \<Rightarrow> HttpError 400
           | Some publicKey \<Rightarrow>
               (case map_of (chain_AccountStates (GetChain n)) publicKey of
                  Some accountState \<Rightarrow>
                    Json \<lparr>bal_Address = path, bal_Exists = True, bal_Balance = acc_Balance accountState, bal_Nonce = acc_Nonce accountState\<rparr>
                | None \<Rightarrow> Json \<lparr>bal_Address = path, bal_Exists = False, bal_Balance = 0, bal_Nonce = 0\<rparr>))"

text \<open>The searches: position and transaction in a list, and the first block of which a test holds.\<close>

fun find_transaction :: "Hash32 \<Rightarrow> nat \<Rightarrow> Transaction list \<Rightarrow> (nat \<times> Transaction) option" where
  "find_transaction targetHash i [] = None"
| "find_transaction targetHash i (tx # txs) =
     (if Transaction_GetHash tx = targetHash then Some (i, tx) else find_transaction targetHash (Suc i) txs)"

fun search_blocks :: "(Block \<Rightarrow> 'a option) \<Rightarrow> nat \<Rightarrow> Block option list \<Rightarrow> (nat \<times> Block \<times> 'a) option option" where
  "search_blocks f height [] = Some None"
| "search_blocks f height (None # bs) = None"
| "search_blocks f height (Some block # bs) =
     (case f block of Some x \<Rightarrow> Some (Some (height, block, x)) | None \<Rightarrow> search_blocks f (Suc height) bs)"

definition handleTransaction :: "int \<Rightarrow> Request \<Rightarrow> Node \<Rightarrow> (Node \<times> TransactionResponse response) option" where
  "handleTransaction now r n =
     (if req_Method r \<noteq> ''GET'' then Some (n, HttpError 405)
      else let path = TrimPrefix (req_Path r) ''/transaction/'' in
           case parse_hash path of
             None \<Rightarrow> Some (n, HttpError 400)
           | Some targetHash \<Rightarrow>
               (case search_blocks (\<lambda>block. find_transaction targetHash 0 (blk_Transactions block)) 0 (Blocks (GetChain n)) of
                  None \<Rightarrow> None
                | Some (Some (blockHeight, block, txIndex, tx)) \<Rightarrow>
                    Some (n, Json \<lparr>txr_Found = True, txr_Transaction = Some tx, txr_BlockHeight = blockHeight,
                      txr_BlockHash = hex_EncodeToString (BlockHeader_GetHash (blk_Header block)), txr_TxIndex = txIndex,
                      txr_Status = [], txr_InMempool = False, txr_Hash = []\<rparr>)
                | Some None \<Rightarrow>
                    (case GetTransactions now 1000 (node_Mempool n) of
                       (mp, transactions) \<Rightarrow>
                         Some (n\<lparr>node_Mempool := mp\<rparr>, Json (case find_transaction targetHash 0 transactions of
                             Some (i, tx) \<Rightarrow> \<lparr>txr_Found = True, txr_Transaction = Some tx, txr_BlockHeight = 0, txr_BlockHash = [],
                               txr_TxIndex = 0, txr_Status = ''pending'', txr_InMempool = True, txr_Hash = []\<rparr>
                           | None \<Rightarrow> \<lparr>txr_Found = False, txr_Transaction = None, txr_BlockHeight = 0, txr_BlockHash = [],
                               txr_TxIndex = 0, txr_Status = [], txr_InMempool = False, txr_Hash = path\<rparr>)))))"

definition handleBlock :: "Request \<Rightarrow> Node \<Rightarrow> BlockResponse response option" where
  "handleBlock r n =
     (if req_Method r \<noteq> ''GET'' then Some (HttpError 405)
      else let path = TrimPrefix (req_Path r) ''/block/'' in
           case parse_hash path of
             None \<Rightarrow> Some (HttpError 400)
           | Some targetHash \<Rightarrow>
               let blocks = Blocks (GetChain n) in
               (case search_blocks (\<lambda>block. if BlockHeader_GetHash (blk_Header block) = targetHash then Some () else None) 0 blocks of
                  None \<Rightarrow> None
                | Some (Some (blockHeight, block, _)) \<Rightarrow>
                    Some (Json \<lparr>blr_Found = True, blr_Block = Some block, blr_Height = blockHeight,
                      blr_Hash = hex_EncodeToString (BlockHeader_GetHash (blk_Header block)),
                      blr_TxCount = length (blk_Transactions block), blr_Confirmations = length blocks - blockHeight\<rparr>)
                | Some None \<Rightarrow>
                    Some (Json \<lparr>blr_Found = False, blr_Block = None, blr_Height = 0, blr_Hash = path, blr_TxCount = 0, blr_Confirmations = 0\<rparr>)))"

definition handleSubmitTransaction ::
  "verifier \<Rightarrow> int \<Rightarrow> Request \<Rightarrow> Transaction option \<Rightarrow> Node \<Rightarrow> Node \<times> SubmitTransactionResponse response" where
  "handleSubmitTransaction verify now r body n =
     (if req_Method r \<noteq> ''POST'' then (n, HttpError 405)
      else case body of
          None \<Rightarrow> (n, HttpError 400)
        | Some tx \<Rightarrow>
            (case ProcessTransaction verify now tx n of
               (n', Some e) \<Rightarrow> (n', HttpError 400)
             | (n', None) \<Rightarrow>
                 (n', Json \<lparr>sub_Status = ''submitted'', sub_Hash = hex_EncodeToString (Transaction_GetHash tx)\<rparr>)))"

definition handleContract :: "Request \<Rightarrow> Node \<Rightarrow> ContractResponse response" where
  "handleContract r n =
     (if req_Method r \<noteq> ''GET'' then HttpError 405
      else let path = TrimPrefix (req_Path r) ''/contract/'' in
           case parse_address path of
             None \<Rightarrow> HttpError 400
           | Some publicKey \<Rightarrow>
               (case map_of (chain_AccountStates (GetChain n)) publicKey of
                  Some accountState \<Rightarrow>
                    Json \<lparr>con_Found = True, con_Address = path, con_Balance = acc_Balance accountState, con_Nonce = acc_Nonce accountState,
                      con_IsContract = length (acc_Instructions accountState) > 0,
                      con_HasInstructions = length (acc_Instructions accountState) > 0,
                      con_StorageEntries = length (acc_Persistent accountState),
                      con_PersistentData = (if length (acc_Persistent accountState) > 0
                        then fold (\<lambda>(k, v). go_store k v) (acc_Persistent accountState) [] else []),
                      con_CodeHash = hex_EncodeToString (acc_CodeHash accountState),
                      con_StorageRoot = hex_EncodeToString (acc_StorageRoot accountState)\<rparr>
                | None \<Rightarrow>
                    Json \<lparr>con_Found = False, con_Address = path, con_Balance = 0, con_Nonce = 0, con_IsContract = False,
                      con_HasInstructions = False, con_StorageEntries = 0, con_PersistentData = [], con_CodeHash = [], con_StorageRoot = []\<rparr>))"

section \<open>Texts and searches\<close>

lemma TrimPrefix_append [simp]: "TrimPrefix (p @ s) p = s"
  by (simp add: TrimPrefix_def)

lemma hex_text_nonempty: "hex_EncodeToString h = [] \<longleftrightarrow> h = []"
  by (cases h) (simp_all add: hex_EncodeToString_def)

lemma parse_address_text: "length k = 32 \<Longrightarrow> parse_address (hex_EncodeToString k) = Some k"
  by (auto simp: parse_address_def hex_decode_encode hex_text_nonempty)

lemma parse_hash_text:
  assumes "length h = 32" "text = hex_EncodeToString h \<or> text = base64_EncodeToString h"
  shows "parse_hash text = Some h"
proof -
  have "h \<noteq> []" using assms(1) by auto
  then have "base64_EncodeToString h \<noteq> []" using base64.encode_inject[of h "[]"] by (simp only: base64_EncodeToString.simps simp_thms)
  with \<open>h \<noteq> []\<close> have "text \<noteq> []" using assms(2) hex_text_nonempty by metis
  with assms show ?thesis using hex_decode_encode[of h] base64_not_hex[of h] base64_decode_encode[of h] unfolding parse_hash_def by fastforce
qed

lemma find_transaction_spec:
  "case find_transaction k i txs of
     None \<Rightarrow> \<forall>tx\<in>set txs. Transaction_GetHash tx \<noteq> k
   | Some (j, tx) \<Rightarrow> i \<le> j \<and> j < i + length txs \<and> txs ! (j - i) = tx \<and> Transaction_GetHash tx = k"
proof (induction txs arbitrary: i)
  case (Cons tx txs)
  show ?case using Cons[of "Suc i"] by (auto simp: nth_Cons' Suc_diff_Suc split: option.splits prod.splits)
qed simp

text \<open>A chain without nil blocks is searched to the end, or up to the first block that is accepted.\<close>

lemma search_blocks_spec:
  assumes "None \<notin> set bs"
  obtains (none) "search_blocks f k bs = Some None" "\<And>b. Some b \<in> set bs \<Longrightarrow> f b = None"
  | (found) i b x where "search_blocks f k bs = Some (Some (k + i, b, x))" "i < length bs" "bs ! i = Some b" "f b = Some x"
proof -
  have "(search_blocks f k bs = Some None \<and> (\<forall>b. Some b \<in> set bs \<longrightarrow> f b = None)) \<or>
    (\<exists>i b x. search_blocks f k bs = Some (Some (k + i, b, x)) \<and> i < length bs \<and> bs ! i = Some b \<and> f b = Some x)"
    using assms
  proof (induction f k bs rule: search_blocks.induct)
    case (3 f k b bs)
    show ?case
    proof (cases "f b")
      case None
      then consider "search_blocks f (Suc k) bs = Some None" "\<forall>b. Some b \<in> set bs \<longrightarrow> f b = None"
        | i b' x where "search_blocks f (Suc k) bs = Some (Some (Suc k + i, b', x))" "i < length bs" "bs ! i = Some b'" "f b' = Some x"
        using 3 by auto
      then show ?thesis
      proof cases
        case 2
        then have "search_blocks f k (Some b # bs) = Some (Some (k + Suc i, b', x))" "Suc i < length (Some b # bs)" "(Some b # bs) ! Suc i = Some b'"
          using None by simp_all
        then show ?thesis using 2(4) by blast
      qed (use None in auto)
    next
      case (Some x)
      then have "search_blocks f k (Some b # bs) = Some (Some (k + 0, b, x))" by simp
      with Some show ?thesis by fastforce
    qed
  qed auto
  then show thesis using that by blast
qed

lemma search_blocks_gap: "\<forall>b. Some b \<in> set bs \<longrightarrow> f b = None \<Longrightarrow> None \<notin> set bs \<Longrightarrow> search_blocks f k (bs @ None # cs) = None"
  by (induction f k bs rule: search_blocks.induct) auto

section \<open>Submissions\<close>

lemma AddTransaction_stores:
  "AddTransaction now tx mp = (mp', True) \<Longrightarrow>
     map_of (mp_transactions mp') (Transaction_GetHash tx) = Some \<lparr>ent_Transaction = tx, ent_AddedAt = now, ent_GasPrice = tx_GasPrice tx\<rparr>"
  by (auto simp: AddTransaction_def Let_def split: if_splits)

lemma handleSubmitTransaction_accepted:
  assumes "handleSubmitTransaction verify now r (Some tx) n = (n', Json resp)"
  shows "\<exists>mp. AddTransaction now tx (node_Mempool n) = (mp, True) \<and> n' = n\<lparr>node_Mempool := mp\<rparr> \<and>
    resp = \<lparr>sub_Status = ''submitted'', sub_Hash = hex_EncodeToString (Transaction_GetHash tx)\<rparr>"
  using assms by (auto simp: handleSubmitTransaction_def ProcessTransaction_def Let_def split: if_splits option.splits prod.splits)

lemma GetChain_mempool [simp]: "GetChain (n\<lparr>node_Mempool := mp\<rparr>) = GetChain n"
  by (simp add: GetChain_def current_chain_def)

lemma length_Transaction_GetHash [simp]: "length (Transaction_GetHash tx) = 32"
  by (simp add: Transaction_GetHash_def)

text \<open>In a sound pool the hash of a transaction that has not expired finds that transaction.\<close>

lemma find_pending:
  assumes "mempool_ok mp" "map_of (mp_transactions mp) k = Some e" "now - ent_AddedAt e \<le> MempoolMaxExpiry"
  shows "\<exists>i. find_transaction k 0 (snd (GetTransactions now 1000 mp)) = Some (i, ent_Transaction e)"
proof -
  let ?txs = "snd (GetTransactions now 1000 mp)"
  have all: "set ?txs = ent_Transaction ` {e \<in> snd ` set (mp_transactions mp). now - ent_AddedAt e \<le> MempoolMaxExpiry}"
    using GetTransactions_all[OF assms(1)] by (simp add: MempoolMaxSize_def)
  have keys: "\<And>k e. (k, e) \<in> set (mp_transactions mp) \<Longrightarrow> k = Transaction_GetHash (ent_Transaction e)" "distinct (map fst (mp_transactions mp))"
    using assms(1) by (auto simp: mempool_ok_def list_all_iff entry_ok_def)
  have e: "(k, e) \<in> set (mp_transactions mp)" using map_of_SomeD[OF assms(2)] .
  have only: "tx = ent_Transaction e" if tx: "tx \<in> set ?txs" "Transaction_GetHash tx = k" for tx
  proof -
    from tx(1) obtain k' e' where e': "(k', e') \<in> set (mp_transactions mp)" "tx = ent_Transaction e'" unfolding all by auto
    then have "k' = k" using keys(1) tx(2) by blast
    with e' e keys(2) have "e' = e" by (auto dest: eq_key_imp_eq_value)
    with e' show ?thesis by simp
  qed
  have "ent_Transaction e \<in> set ?txs" unfolding all using e assms(3) by force
  then show ?thesis
    using find_transaction_spec[of ?txs k 0] keys(1)[OF e] only nth_mem by (fastforce split: option.splits prod.splits)
qed

definition get :: "string \<Rightarrow> Request" where
  "get path = \<lparr>req_Method = ''GET'', req_Path = path, req_limit = []\<rparr>"

definition on_chain :: "Node \<Rightarrow> Hash32 \<Rightarrow> bool" where
  "on_chain n k \<longleftrightarrow> (\<exists>b tx. Some b \<in> set (Blocks (GetChain n)) \<and> tx \<in> set (blk_Transactions b) \<and> Transaction_GetHash tx = k)"

section \<open>Properties\<close>

text \<open>
  C18. A transaction that the node has accepted is found under the hash it returned: as long as it has not
  expired, the query for this hash is answered with a transaction of that hash, from a block of the
  current chain if there is one, and otherwise with the submitted transaction itself, as pending.
\<close>

theorem submitted_transaction_found:
  assumes "reachable_node verify executor n" "None \<notin> set (Blocks (GetChain n))"
    "handleSubmitTransaction verify now r (Some tx) n = (n', Json resp)" "now' - now \<le> MempoolMaxExpiry"
  shows "\<exists>n'' answer tx'. handleTransaction now' (get (''/transaction/'' @ sub_Hash resp)) n' = Some (n'', Json answer) \<and>
    txr_Found answer \<and> txr_Transaction answer = Some tx' \<and> Transaction_GetHash tx' = Transaction_GetHash tx \<and>
    (txr_InMempool answer \<longleftrightarrow> \<not> on_chain n (Transaction_GetHash tx)) \<and> (txr_InMempool answer \<longrightarrow> tx' = tx)"
proof -
  let ?k = "Transaction_GetHash tx"
  obtain mp where mp: "AddTransaction now tx (node_Mempool n) = (mp, True)" "n' = n\<lparr>node_Mempool := mp\<rparr>"
    and resp: "sub_Hash resp = hex_EncodeToString ?k"
    using handleSubmitTransaction_accepted[OF assms(3)] by auto
  have path: "parse_hash (sub_Hash resp) = Some ?k" using parse_hash_text[of ?k] by (simp add: resp)
  have ok: "mempool_ok mp"
    using AddTransaction_ok[of "node_Mempool n" now tx] reachable_node_ok[OF assms(1)] mp(1) by (simp add: node_ok_def)
  obtain i where pending: "find_transaction ?k 0 (snd (GetTransactions now' 1000 mp)) = Some (i, tx)"
    using find_pending[OF ok AddTransaction_stores[OF mp(1)]] assms(4) by auto
  let ?f = "\<lambda>block. find_transaction ?k 0 (blk_Transactions block)"
  show ?thesis
  proof (rule search_blocks_spec[OF assms(2), where f = ?f and k = 0])
    assume none: "search_blocks ?f 0 (Blocks (GetChain n)) = Some None" "\<And>b. Some b \<in> set (Blocks (GetChain n)) \<Longrightarrow> ?f b = None"
    have "\<not> on_chain n ?k"
    proof
      assume "on_chain n ?k"
      then obtain b t where b: "Some b \<in> set (Blocks (GetChain n))" "t \<in> set (blk_Transactions b)" "Transaction_GetHash t = ?k"
        unfolding on_chain_def by blast
      show False using find_transaction_spec[of "blk_Transactions b" ?k 0] none(2)[OF b(1)] b(2,3) by auto
    qed
    then show ?thesis using none(1) pending path mp(2) by (simp add: handleTransaction_def get_def TrimPrefix_def case_prod_beta)
  next
    fix i b x
    assume found: "search_blocks ?f 0 (Blocks (GetChain n)) = Some (Some (0 + i, b, x))" "i < length (Blocks (GetChain n))"
      "Blocks (GetChain n) ! i = Some b" "?f b = Some x"
    have t: "snd x \<in> set (blk_Transactions b)" "Transaction_GetHash (snd x) = ?k"
      using find_transaction_spec[of "blk_Transactions b" ?k 0] found(4) by (auto split: prod.splits)
    have "Some b \<in> set (Blocks (GetChain n))" using found(2,3) nth_mem by metis
    with t have "on_chain n ?k" unfolding on_chain_def by blast
    then show ?thesis using found(1) path mp(2) t(2) by (cases x) (simp add: handleTransaction_def get_def TrimPrefix_def)
  qed
qed

lemma NewNode_no_gap: "None \<notin> set (Blocks (GetChain NewNode))"
proof -
  have "Blocks (store_block (AddHeader NewChain (blk_Header GenesisBlock)) GenesisBlock) = [Some GenesisBlock]"
    by (simp add: store_block_def AddHeader_def NewChain_def GenesisBlock_def genesis_template_def Let_def)
  moreover have "Blocks NewChain = []" by (simp add: NewChain_def)
  ultimately show ?thesis by (auto simp: GetChain_def current_chain_def NewNode_def)
qed

theorem submitted_transaction_found_witness:
  "let tx = genesisCoinbase\<lparr>tx_Nonce := 7\<rparr>; post = (get ''/submit-transaction'')\<lparr>req_Method := ''POST''\<rparr> in
   \<exists>n' resp n'' answer. handleSubmitTransaction (\<lambda>_ _ _. True) 5 post (Some tx) NewNode = (n', Json resp) \<and>
     handleTransaction 6 (get (''/transaction/'' @ sub_Hash resp)) n' = Some (n'', Json answer) \<and> txr_Found answer"
proof -
  let ?tx = "genesisCoinbase\<lparr>tx_Nonce := 7\<rparr>" and ?post = "(get ''/submit-transaction'')\<lparr>req_Method := ''POST''\<rparr>"
  have "ValidateTransaction (\<lambda>_ _ _. True) ?tx st = None" for st by (simp add: ValidateTransaction_def genesisCoinbase_def)
  then obtain n' resp where s: "handleSubmitTransaction (\<lambda>_ _ _. True) 5 ?post (Some ?tx) NewNode = (n', Json resp)"
    by (simp add: handleSubmitTransaction_def ProcessTransaction_def AddTransaction_def NewNode_def NewMempool_def MempoolMaxSize_def Let_def get_def)
  have "(6 :: int) - 5 \<le> MempoolMaxExpiry" by (simp add: MempoolMaxExpiry_def)
  from submitted_transaction_found[OF reachable_node.new[where executor = None] NewNode_no_gap s this] s show ?thesis
    unfolding Let_def by blast
qed

text \<open>
  The query for a block by its hash, in hexadecimal or in base64, is answered on a chain without nil
  blocks: with a block of this hash, its height in the chain and the number of blocks from it to the tip,
  if the current chain has one, and with not found otherwise.
\<close>

theorem block_query:
  assumes "None \<notin> set (Blocks (GetChain n))" "length h = 32" "text = hex_EncodeToString h \<or> text = base64_EncodeToString h"
  shows "\<exists>answer. handleBlock (get (''/block/'' @ text)) n = Some (Json answer) \<and>
    (blr_Found answer \<longleftrightarrow> (\<exists>b. Some b \<in> set (Blocks (GetChain n)) \<and> Block_GetHash b = h)) \<and>
    (blr_Found answer \<longrightarrow> (\<exists>b. blr_Block answer = Some b \<and> Block_GetHash b = h \<and> Blocks (GetChain n) ! blr_Height answer = Some b \<and>
       StringToHash32 (blr_Hash answer) = Some h \<and>
       blr_Height answer + blr_Confirmations answer = length (Blocks (GetChain n)) \<and> blr_Confirmations answer > 0))"
proof -
  let ?f = "\<lambda>block. if BlockHeader_GetHash (blk_Header block) = h then Some () else None"
  have path: "parse_hash text = Some h" using parse_hash_text[OF assms(2,3)] .
  show ?thesis
  proof (rule search_blocks_spec[OF assms(1), where f = ?f and k = 0])
    assume none: "search_blocks ?f 0 (Blocks (GetChain n)) = Some None" "\<And>b. Some b \<in> set (Blocks (GetChain n)) \<Longrightarrow> ?f b = None"
    then have "Some b \<in> set (Blocks (GetChain n)) \<Longrightarrow> Block_GetHash b \<noteq> h" for b by (fastforce simp: Block_GetHash_def)
    with none(1) path show ?thesis by (auto simp: handleBlock_def get_def TrimPrefix_def)
  next
    fix i b x
    assume found: "search_blocks ?f 0 (Blocks (GetChain n)) = Some (Some (0 + i, b, x))" "i < length (Blocks (GetChain n))"
      "Blocks (GetChain n) ! i = Some b" "?f b = Some x"
    have b: "BlockHeader_GetHash (blk_Header b) = h" using found(4) by (simp split: if_splits)
    moreover have "Some b \<in> set (Blocks (GetChain n))" using found(2,3) nth_mem by metis
    ultimately show ?thesis using found(1-3) path assms(2)
      by (auto simp: handleBlock_def get_def TrimPrefix_def Block_GetHash_def StringToHash32_def hex_decode_encode)
  qed
qed

theorem block_query_witness:
  "\<exists>answer. handleBlock (get (''/block/'' @ Hash32ToString genesis_hash)) NewNode = Some (Json answer) \<and>
    (blr_Found answer \<longleftrightarrow> (\<exists>b. Some b \<in> set (Blocks (GetChain NewNode)) \<and> Block_GetHash b = genesis_hash))"
proof -
  have "length genesis_hash = 32" by (simp add: BlockHeader_GetHash_def)
  from block_query[OF NewNode_no_gap this, of "base64_EncodeToString genesis_hash"] show ?thesis by (auto simp: Hash32ToString_def)
qed

text \<open>A nil block before the block that is looked for makes the handler panic.\<close>

lemma block_query_gap:
  assumes "Blocks (GetChain n) = bs @ None # cs" "None \<notin> set bs" "\<And>b. Some b \<in> set bs \<Longrightarrow> Block_GetHash b \<noteq> h" "length h = 32"
  shows "handleBlock (get (''/block/'' @ hex_EncodeToString h)) n = None"
proof -
  let ?f = "\<lambda>block. if BlockHeader_GetHash (blk_Header block) = h then Some () else None"
  have "search_blocks ?f 0 (Blocks (GetChain n)) = None" unfolding assms(1)
    using assms(2,3) by (intro search_blocks_gap) (auto simp: Block_GetHash_def)
  then show ?thesis using parse_hash_text[OF assms(4)] by (simp add: handleBlock_def get_def TrimPrefix_def)
qed

end
