(* ===== verification/Mining.thy ===== *)
theory Mining
  imports Block_Properties
begin

text \<open>
  \<open>NewBlock\<close> of \<open>src/blockchain/mining.go\<close>: it executes the transactions of a template on a copy of
  the accounts, adds up gas and fees, and mines a nonce for the header. The clock is the argument
  \<open>now\<close>. The block it returns holds every transaction of the template, also those whose execution
  failed. The theorems relate what is mined to what \<open>ValidateAndApplyBlock\<close> accepts.
\<close>

record BlockCreationParams =
  par_Version :: u64
  par_PreviousHash :: Hash32
  par_Height :: u64
  par_PreviousWork :: string
  par_Coinbase :: Transaction
  par_Transactions :: "Transaction list"
  par_Timestamp :: u64
  par_TargetBits :: u32
  par_CurrentStates :: AccountStates

datatype mining_error =
    GasFeesOverflow
  | GasUsedOverflow
  | CoinbaseOverflow
  | CoinbaseAmountWrong
  | MinedGasLimitExceeded
  | NonceOverflow

text \<open>The loop over the transactions: the accounts, the gas and the fees; \<open>None\<close> is a panic.\<close>

fun mine_transactions ::
  "ContractExecutor option \<Rightarrow> Transaction list \<Rightarrow> AccountStates \<Rightarrow> u64 \<Rightarrow> u64 \<Rightarrow>
   (mining_error + AccountStates \<times> u64 \<times> u64) option" where
  "mine_transactions executor [] st totalGasUsed gasFeeSum = Some (Inr (st, totalGasUsed, gasFeeSum))"
| "mine_transactions executor (tx # txs) st totalGasUsed gasFeeSum =
     (if tx_From tx = zero32 then mine_transactions executor txs st totalGasUsed gasFeeSum
      else case ApplyTransaction executor tx st of
          None \<Rightarrow> None
        | Some (st', gasUsed, Some e) \<Rightarrow> mine_transactions executor txs st' totalGasUsed gasFeeSum
        | Some (st', gasUsed, None) \<Rightarrow>
            (case SafeAdd gasFeeSum (gasUsed * tx_GasPrice tx) of
               Inl e \<Rightarrow> Some (Inl GasFeesOverflow)
             | Inr newGasFeeSum \<Rightarrow>
                 (case SafeAdd totalGasUsed gasUsed of
                    Inl e \<Rightarrow> Some (Inl GasUsedOverflow)
                  | Inr newTotalGasUsed \<Rightarrow> mine_transactions executor txs st' newTotalGasUsed newGasFeeSum)))"

definition NewBlock ::
  "ContractExecutor option \<Rightarrow> u64 \<Rightarrow> BlockCreationParams \<Rightarrow> (mining_error + Block) option" where
  "NewBlock executor now params =
     (let ts = (if par_Timestamp params = 0 then now else par_Timestamp params);
          tsxs = par_Coinbase params # par_Transactions params
      in case mine_transactions executor (par_Transactions params) (copy_states (par_CurrentStates params)) 0 0 of
           None \<Rightarrow> None
         | Some (Inl e) \<Rightarrow> Some (Inl e)
         | Some (Inr (st, totalGasUsed, gasFeeSum)) \<Rightarrow>
             (case SafeAdd BlockReward gasFeeSum of
                Inl e \<Rightarrow> Some (Inl CoinbaseOverflow)
              | Inr expectedCoinbaseAmount \<Rightarrow>
                  if tx_Amount (par_Coinbase params) \<noteq> expectedCoinbaseAmount then Some (Inl CoinbaseAmountWrong)
                  else let totalWork = AddWork (par_PreviousWork params) (big_String (GetBlockWork (par_TargetBits params)));
                           blockGasLimit = 8000000
                       in if totalGasUsed > blockGasLimit then Some (Inl MinedGasLimitExceeded)
                          else let header =
                                 \<lparr>hdr_Version = par_Version params, hdr_PreviousHash = par_PreviousHash params,
                                  hdr_Height = par_Height params, hdr_Timestamp = ts, hdr_Nonce = 0,
                                  hdr_MerkleRoot = MerkleTransactions tsxs, hdr_StateRoot = zero32,
                                  hdr_ReceiptRoot = zero32, hdr_Bits = par_TargetBits params,
                                  hdr_TotalWork = totalWork, hdr_GasLimit = blockGasLimit,
                                  hdr_GasUsed = totalGasUsed, hdr_Beneficiary = tx_To (par_Coinbase params)\<rparr>
                               in case MineCorrectNonce header (par_TargetBits params) of
                                    None \<Rightarrow> Some (Inl NonceOverflow)
                                  | Some nonce \<Rightarrow>
                                      Some (Inr \<lparr>blk_Header = header\<lparr>hdr_Nonce := nonce\<rparr>, blk_Transactions = tsxs\<rparr>)))"

section \<open>What a mined block satisfies\<close>

lemma NewBlock_ok:
  assumes "NewBlock executor now p = Some (Inr b)"
  obtains st gas fees nonce where
    "mine_transactions executor (par_Transactions p) (copy_states (par_CurrentStates p)) 0 0 = Some (Inr (st, gas, fees))"
    and "unat BlockReward + unat fees < 2 ^ 64" and "tx_Amount (par_Coinbase p) = BlockReward + fees" and "gas \<le> 8000000"
    and "BlockHashMeetsDifficulty (BlockHeader_GetHash (blk_Header b)) (par_TargetBits p)"
    and "blk_Transactions b = par_Coinbase p # par_Transactions p"
    and "blk_Header b =
      \<lparr>hdr_Version = par_Version p, hdr_PreviousHash = par_PreviousHash p, hdr_Height = par_Height p,
       hdr_Timestamp = (if par_Timestamp p = 0 then now else par_Timestamp p), hdr_Nonce = nonce,
       hdr_MerkleRoot = MerkleTransactions (par_Coinbase p # par_Transactions p), hdr_StateRoot = zero32,
       hdr_ReceiptRoot = zero32, hdr_Bits = par_TargetBits p,
       hdr_TotalWork = AddWork (par_PreviousWork p) (big_String (GetBlockWork (par_TargetBits p))),
       hdr_GasLimit = 8000000, hdr_GasUsed = gas, hdr_Beneficiary = tx_To (par_Coinbase p)\<rparr>"
proof -
  from assms obtain st gas fees where
    m: "mine_transactions executor (par_Transactions p) (copy_states (par_CurrentStates p)) 0 0 = Some (Inr (st, gas, fees))"
    by (auto simp: NewBlock_def Let_def split: option.splits sum.splits)
  from assms m have c: "unat BlockReward + unat fees < 2 ^ 64" "tx_Amount (par_Coinbase p) = BlockReward + fees" "gas \<le> 8000000"
    by (auto simp: NewBlock_def Let_def SafeAdd_unat not_less split: if_splits)
  then have ng: "\<not> gas > 8000000" by simp
  let ?h = "\<lparr>hdr_Version = par_Version p, hdr_PreviousHash = par_PreviousHash p, hdr_Height = par_Height p,
       hdr_Timestamp = (if par_Timestamp p = 0 then now else par_Timestamp p), hdr_Nonce = 0,
       hdr_MerkleRoot = MerkleTransactions (par_Coinbase p # par_Transactions p), hdr_StateRoot = zero32,
       hdr_ReceiptRoot = zero32, hdr_Bits = par_TargetBits p,
       hdr_TotalWork = AddWork (par_PreviousWork p) (big_String (GetBlockWork (par_TargetBits p))),
       hdr_GasLimit = 8000000, hdr_GasUsed = gas, hdr_Beneficiary = tx_To (par_Coinbase p)\<rparr>"
  obtain nonce where n: "MineCorrectNonce ?h (par_TargetBits p) = Some nonce"
    and b: "b = \<lparr>blk_Header = ?h\<lparr>hdr_Nonce := nonce\<rparr>, blk_Transactions = par_Coinbase p # par_Transactions p\<rparr>"
  proof (cases "MineCorrectNonce ?h (par_TargetBits p)")
    case None
    with assms m c ng show ?thesis by (simp add: NewBlock_def Let_def SafeAdd_unat)
  next
    case (Some nonce)
    with assms m c ng show ?thesis by (intro that[of nonce]) (simp_all add: NewBlock_def Let_def SafeAdd_unat)
  qed
  from MineCorrectNonce_sound[OF n] m c b show thesis by (intro that[of st gas fees nonce]) simp_all
qed

section \<open>Mining and validation agree\<close>

text \<open>The two loops compute the same sums when no transaction fails.\<close>

lemma mine_agrees:
  "execute_transactions verify executor i txs st gas fees = Some (Inr r) \<Longrightarrow>
   mine_transactions executor txs st gas fees = Some (Inr r') \<Longrightarrow> \<forall>tx\<in>set txs. tx_From tx \<noteq> zero32 \<Longrightarrow> r' = r"
  by (induction txs arbitrary: i st gas fees) (auto simp: SafeAdd_unat split: option.splits sum.splits if_splits)

definition richer :: "AccountStates \<Rightarrow> AccountStates \<Rightarrow> bool" where
  "richer st st' \<longleftrightarrow> (\<forall>k. case (map_of st k, map_of st' k) of
       (None, None) \<Rightarrow> True
     | (None, Some s') \<Rightarrow> acc_Nonce s' = 0
     | (Some s, None) \<Rightarrow> False
     | (Some s, Some s') \<Rightarrow> acc_Nonce s' = acc_Nonce s \<and> unat (acc_Balance s) \<le> unat (acc_Balance s'))"

lemma richer_Some:
  "richer st st' \<Longrightarrow> map_of st k = Some s \<Longrightarrow>
     \<exists>s'. map_of st' k = Some s' \<and> acc_Nonce s' = acc_Nonce s \<and> unat (acc_Balance s) \<le> unat (acc_Balance s')"
  unfolding richer_def by (drule spec[of _ k]) (auto split: option.splits)

lemma richer_None: "richer st st' \<Longrightarrow> map_of st k = None \<Longrightarrow> map_of st' k = Some s' \<Longrightarrow> acc_Nonce s' = 0"
  unfolding richer_def by (drule spec[of _ k]) simp

lemma ValidateTransaction_richer:
  assumes v: "ValidateTransaction verify tx st = None" and r: "richer st st'"
  shows "ValidateTransaction verify tx st' = None"
proof (cases "tx_From tx = zero32")
  case True
  then show ?thesis by (simp add: ValidateTransaction_def ValidateAmount_def)
next
  case False
  with v obtain s where s: "map_of st (tx_From tx) = Some s" using ValidateTransaction_None by metis
  with r obtain s' where "map_of st' (tx_From tx) = Some s'" "acc_Nonce s' = acc_Nonce s" "unat (acc_Balance s) \<le> unat (acc_Balance s')"
    using richer_Some by blast
  with v s show ?thesis
    by (auto simp: ValidateTransaction_def Let_def word_less_nat_alt split: if_splits sum.splits)
qed

text \<open>The result of one ordinary transaction.\<close>

lemma ordinary_result:
  assumes o: "ordinary tx" and nc: "no_contracts st" and v: "ValidateTransaction verify tx st = None"
    and sup: "total_supply st < 2 ^ 63"
  obtains f where "map_of (credited tx st) (tx_From tx) = Some f"
    and "unat (tx_Amount tx) + max_gas_cost tx \<le> unat (acc_Balance f)"
    and "ApplyTransaction executor tx st = charge_sender tx (tx_Amount tx) (transfer_gas tx) f [] (credited tx st)"
proof -
  have from0: "tx_From tx \<noteq> zero32" "tx_To tx \<noteq> zero32" "\<not> is_deployment tx"
    using o by (auto simp: ordinary_def is_deployment_def)
  obtain s where s: "map_of st (tx_From tx) = Some s" and c: "unat (tx_Amount tx) + max_gas_cost tx \<le> unat (acc_Balance s)"
    using ValidateTransaction_None[OF v from0(1)] from0(3) by (metis add.right_neutral)
  note t = transfer_applies[OF ordinary_plain[OF o nc] s c sup]
  obtain f where f: "map_of (credited tx st) (tx_From tx) = Some f"
      "unat (acc_Balance f) = unat (acc_Balance s) + (if tx_From tx = tx_To tx then unat (tx_Amount tx) else 0)"
    using t(2) by blast
  have "ApplyTransaction executor tx st = charge_sender tx (tx_Amount tx) (transfer_gas tx) f [] (credited tx st)"
    using from0 s t(1) f(1) by (simp add: ApplyTransaction_def)
  with f c show thesis by (intro that) auto
qed

lemma richer_go_store:
  assumes "richer st st'" and "acc_Nonce s' = acc_Nonce s" "unat (acc_Balance s) \<le> unat (acc_Balance s')"
  shows "richer (go_store k s st) (go_store k s' st')"
  using assms by (simp add: richer_def)

lemma richer_credited:
  assumes r: "richer st st'"
    and room: "\<And>s'. map_of st' (tx_To tx) = Some s' \<Longrightarrow> unat (acc_Balance s') + unat (tx_Amount tx) < 2 ^ 64"
  shows "richer (credited tx st) (credited tx st')"
proof (cases "map_of st (tx_To tx)")
  case None
  then show ?thesis using r richer_None[OF r None] room
    by (auto simp: credited_def new_account_def unat_add_exact split: option.split intro!: richer_go_store)
next
  case (Some s)
  then obtain s' where s': "map_of st' (tx_To tx) = Some s'" "acc_Nonce s' = acc_Nonce s" "unat (acc_Balance s) \<le> unat (acc_Balance s')"
    using richer_Some[OF r] by blast
  then have "unat (acc_Balance s) + unat (tx_Amount tx) < 2 ^ 64" using room[OF s'(1)] by simp
  with Some s' room[OF s'(1)] r show ?thesis
    by (auto simp: credited_def unat_add_exact intro!: richer_go_store)
qed

lemma ordinary_richer:
  assumes o: "ordinary tx" and nc: "no_contracts st" "no_contracts st'" and v: "ValidateTransaction verify tx st = None"
    and sup: "total_supply st < 2 ^ 63" "total_supply st' < 2 ^ 63" and r: "richer st st'"
    and ap: "ApplyTransaction executor tx st = Some (st1, g, None)"
  shows "\<exists>st1'. ApplyTransaction executor tx st' = Some (st1', g, None) \<and> richer st1 st1'"
proof -
  note v' = ValidateTransaction_richer[OF v r]
  from ordinary_result[OF o nc(1) v sup(1)] obtain f where f: "map_of (credited tx st) (tx_From tx) = Some f"
    "unat (tx_Amount tx) + max_gas_cost tx \<le> unat (acc_Balance f)"
    "ApplyTransaction executor tx st = charge_sender tx (tx_Amount tx) (transfer_gas tx) f [] (credited tx st)" by metis
  from ordinary_result[OF o nc(2) v' sup(2)] obtain f' where f': "map_of (credited tx st') (tx_From tx) = Some f'"
    "unat (tx_Amount tx) + max_gas_cost tx \<le> unat (acc_Balance f')"
    "ApplyTransaction executor tx st' = charge_sender tx (tx_Amount tx) (transfer_gas tx) f' [] (credited tx st')" by metis
  have g: "g = transfer_gas tx" "transfer_gas tx \<le> tx_GasLimit tx"
    using charge_sender_gas ap f(3) by (metis)+
  note ok = charge_sender_ok[OF g(2) f(2)] and ok' = charge_sender_ok[OF g(2) f'(2)]
  obtain s' where s': "map_of st' (tx_From tx) = Some s'" "unat (tx_Amount tx) \<le> unat (acc_Balance s')"
    using ValidateTransaction_None[OF v'] o unfolding ordinary_def by (metis add_leD1)
  have "richer (credited tx st) (credited tx st')"
    by (rule richer_credited[OF r recipient_room[OF s'(1) _ s'(2) sup(2)]])
  moreover from this f(1) f'(1) have "acc_Nonce f' = acc_Nonce f" "unat (acc_Balance f) \<le> unat (acc_Balance f')"
    using richer_Some by fastforce+
  ultimately have "richer (go_store (tx_From tx) (debit f (tx_Amount tx + transfer_gas tx * tx_GasPrice tx)) (credited tx st))
      (go_store (tx_From tx) (debit f' (tx_Amount tx + transfer_gas tx * tx_GasPrice tx)) (credited tx st'))"
    using ok(4) ok'(4) by (intro richer_go_store) (auto simp: debit_def)
  then show ?thesis using ap f(3) f'(3) ok(1) ok'(1) g by auto
qed

lemma execute_richer:
  "execute_transactions verify executor i txs st gas fees = Some (Inr (st1, gas1, fees1)) \<Longrightarrow> richer st st' \<Longrightarrow>
   \<forall>tx\<in>set txs. ordinary tx \<Longrightarrow> no_contracts st \<Longrightarrow> no_contracts st' \<Longrightarrow>
   total_supply st < 2 ^ 63 \<Longrightarrow> total_supply st' < 2 ^ 63 \<Longrightarrow>
   \<exists>st1'. execute_transactions verify executor j txs st' gas fees = Some (Inr (st1', gas1, fees1))"
proof (induction txs arbitrary: i j st st' gas fees)
  case (Cons tx txs)
  from Cons.prems(1) obtain s g where v: "ValidateTransaction verify tx st = None"
    and ap: "ApplyTransaction executor tx st = Some (s, g, None)"
    by (auto split: option.splits)
  have o: "ordinary tx" and from0: "tx_From tx \<noteq> zero32" using Cons.prems(3) by (auto simp: ordinary_def)
  obtain s' where ap': "ApplyTransaction executor tx st' = Some (s', g, None)" and r: "richer s s'"
    using ordinary_richer[OF o Cons.prems(4,5) v Cons.prems(6,7,2) ap] by blast
  note v' = ValidateTransaction_richer[OF v Cons.prems(2)]
  note step = ordinary_step[OF o Cons.prems(4) v Cons.prems(6) ap] and step' = ordinary_step[OF o Cons.prems(5) v' Cons.prems(7) ap']
  have "execute_transactions verify executor (i + 1) txs s (gas + g) (fees + g * tx_GasPrice tx) = Some (Inr (st1, gas1, fees1))"
    using Cons.prems(1) v ap from0 by simp
  from Cons.IH[OF this r] Cons.prems(3,6,7) step step'
  have "\<exists>st1'. execute_transactions verify executor (j + 1) txs s' (gas + g) (fees + g * tx_GasPrice tx) = Some (Inr (st1', gas1, fees1))"
    by simp
  then show ?case using v' ap' from0 by simp
qed simp

section \<open>Properties\<close>

text \<open>
  A block that \<open>NewBlock\<close> returns holds the coinbase and all transactions of the template under
  their Merkle root, its hash meets the target, its total work is the previous work plus the work
  of that target, and its coinbase pays the block reward and the fees counted, without overflow.
\<close>

theorem NewBlock_sound:
  assumes "NewBlock executor now p = Some (Inr b)" and "par_PreviousWork p = big_String w"
  shows "blk_Transactions b = par_Coinbase p # par_Transactions p
    \<and> hdr_MerkleRoot (blk_Header b) = MerkleTransactions (blk_Transactions b)
    \<and> BlockHashMeetsDifficulty (BlockHeader_GetHash (blk_Header b)) (hdr_Bits (blk_Header b))
    \<and> hdr_TotalWork (blk_Header b) = big_String (w + GetBlockWork (hdr_Bits (blk_Header b)))
    \<and> hdr_GasUsed (blk_Header b) \<le> hdr_GasLimit (blk_Header b)
    \<and> (\<exists>st gas fees. mine_transactions executor (par_Transactions p) (copy_states (par_CurrentStates p)) 0 0
           = Some (Inr (st, gas, fees)) \<and> gas = hdr_GasUsed (blk_Header b)
         \<and> unat (tx_Amount (par_Coinbase p)) = unat BlockReward + unat fees)"
  using assms(1)
proof (rule NewBlock_ok)
  fix st gas fees nonce
  assume "mine_transactions executor (par_Transactions p) (copy_states (par_CurrentStates p)) 0 0 = Some (Inr (st, gas, fees))"
    "unat BlockReward + unat fees < 2 ^ 64" "tx_Amount (par_Coinbase p) = BlockReward + fees" "gas \<le> 8000000"
    "BlockHashMeetsDifficulty (BlockHeader_GetHash (blk_Header b)) (par_TargetBits p)"
    "blk_Transactions b = par_Coinbase p # par_Transactions p"
    "blk_Header b =
      \<lparr>hdr_Version = par_Version p, hdr_PreviousHash = par_PreviousHash p, hdr_Height = par_Height p,
       hdr_Timestamp = (if par_Timestamp p = 0 then now else par_Timestamp p), hdr_Nonce = nonce,
       hdr_MerkleRoot = MerkleTransactions (par_Coinbase p # par_Transactions p), hdr_StateRoot = zero32,
       hdr_ReceiptRoot = zero32, hdr_Bits = par_TargetBits p,
       hdr_TotalWork = AddWork (par_PreviousWork p) (big_String (GetBlockWork (par_TargetBits p))),
       hdr_GasLimit = 8000000, hdr_GasUsed = gas, hdr_Beneficiary = tx_To (par_Coinbase p)\<rparr>"
  then show ?thesis by (simp add: assms(2) AddWork_String unat_add_exact)
qed

text \<open>A template on a chain whose tip has a target that every hash meets.\<close>

definition mined_template :: BlockCreationParams where
  "mined_template = \<lparr>par_Version = 1, par_PreviousHash = BlockHeader_GetHash (easy_header 1 zero32 ''1''), par_Height = 2,
     par_PreviousWork = big_String 1,
     par_Coinbase = (pay 0 bob)\<lparr>tx_From := zero32, tx_Amount := 21000 + BlockReward\<rparr>,
     par_Transactions = [pay 30000 bob], par_Timestamp = 2, par_TargetBits = 0x2200ffff, par_CurrentStates = rich\<rparr>"

lemma mined_template_executes:
  "\<exists>st. execute_transactions accept None 1 [pay 30000 bob] (copy_states rich) 0 0 = Some (Inr (st, 21000, 21000))"
  "\<exists>st. mine_transactions None [pay 30000 bob] (copy_states rich) 0 0 = Some (Inr (st, 21000, 21000))"
  using FirstUser_not_zero
  by (simp_all add: ValidateTransaction_def ApplyTransaction_def apply_transfer_def is_deployment_def
      accept_def pay_def rich_def copy_states_def validation_copy_def new_account_def SafeAdd_unat SafeSubtract_unat
      charge_sender_def data_gas_def GasTransfer_def money_defs)

lemma mined_template_block: "\<exists>b. NewBlock None 0 mined_template = Some (Inr b)"
proof -
  have easy: "BlockHashMeetsDifficulty (BlockHeader_GetHash h) 0x2200ffff" for h
  proof -
    have "CompactToBig 0x2200ffff \<ge> 2 ^ 256" by code_simp
    then show ?thesis using big_SetBytes_bound[of "BlockHeader_GetHash h"]
      by (simp add: BlockHashMeetsDifficulty_def BlockHeader_GetHash_def)
  qed
  then have "MineCorrectNonce h 0x2200ffff = Some (hdr_Nonce h)" for h by (subst MineCorrectNonce.simps) simp
  with mined_template_executes(2) show ?thesis
    by (auto simp: NewBlock_def mined_template_def SafeAdd_unat money_defs Let_def)
qed

theorem NewBlock_sound_witness:
  "\<exists>b. NewBlock None 0 mined_template = Some (Inr b) \<and>
     hdr_TotalWork (blk_Header b) = big_String (1 + GetBlockWork (hdr_Bits (blk_Header b)))"
proof -
  obtain b where b: "NewBlock None 0 mined_template = Some (Inr b)" using mined_template_block by blast
  have "par_PreviousWork mined_template = big_String 1" by (simp add: mined_template_def)
  from NewBlock_sound[OF b this] b show ?thesis by blast
qed

lemma coinbase_richer:
  assumes sup: "total_supply st + unat (tx_Amount tx) < 2 ^ 64" and nc: "no_contracts st"
    and ap: "apply_coinbase tx st = Some (st', 0, None)"
  shows "richer st st'" "no_contracts st'"
proof -
  have room: "unat (acc_Balance s) + unat (tx_Amount tx) < 2 ^ 64" if "map_of st (tx_To tx) = Some s" for s
    using supply_member[OF that] sup by simp
  have st': "st' = credited tx st"
    using ap room by (auto simp: apply_coinbase_def credited_def SafeAdd_unat split: option.splits if_splits)
  show "richer st st'"
    using room unat_add_exact by (auto simp: st' richer_def credited_def new_account_def split: option.splits)
  show "no_contracts st'"
    using nc by (auto simp: st' no_contracts_def credited_def new_account_def split: option.splits if_splits)
qed

lemma mined_block_valid:
  assumes m: "mine_transactions executor (par_Transactions p) (copy_states (par_CurrentStates p)) 0 0 = Some (Inr (st, gas, fees))"
    and "unat BlockReward + unat fees < 2 ^ 64" and amount: "tx_Amount (par_Coinbase p) = BlockReward + fees" and gas: "gas \<le> 8000000"
    and pow: "BlockHashMeetsDifficulty (BlockHeader_GetHash (blk_Header b)) (par_TargetBits p)"
    and txs: "blk_Transactions b = par_Coinbase p # par_Transactions p"
    and h: "blk_Header b =
      \<lparr>hdr_Version = par_Version p, hdr_PreviousHash = par_PreviousHash p, hdr_Height = par_Height p,
       hdr_Timestamp = (if par_Timestamp p = 0 then now else par_Timestamp p), hdr_Nonce = nonce,
       hdr_MerkleRoot = MerkleTransactions (par_Coinbase p # par_Transactions p), hdr_StateRoot = zero32,
       hdr_ReceiptRoot = zero32, hdr_Bits = par_TargetBits p,
       hdr_TotalWork = AddWork (par_PreviousWork p) (big_String (GetBlockWork (par_TargetBits p))),
       hdr_GasLimit = 8000000, hdr_GasUsed = gas, hdr_Beneficiary = tx_To (par_Coinbase p)\<rparr>"
    and template: "par_CurrentStates p = chain_AccountStates c" "Tip c = Some t" "par_PreviousHash p = GetTipHash c"
      "GetBlock c (GetTipHash c) = Some t" "GetTargetBits (length (Blocks c)) (Blocks c) = Some (par_TargetBits p)"
      "hdr_Timestamp (blk_Header t) < (if par_Timestamp p = 0 then now else par_Timestamp p)"
      "tx_From (par_Coinbase p) = zero32"
    and valid: "execute_transactions verify executor 1 (par_Transactions p) (copy_states (chain_AccountStates c)) 0 0
                = Some (Inr r)"
    and ledger: "\<forall>tx\<in>set (par_Transactions p). ordinary tx" "no_contracts (chain_AccountStates c)"
      "total_supply (chain_AccountStates c) + unat (tx_Amount (par_Coinbase p)) < 2 ^ 63"
    and not_genesis: "BlockHeader_GetHash (blk_Header b) \<noteq> BlockHeader_GetHash (blk_Header GenesisBlock)"
  shows "\<exists>st'. ValidateBlock verify executor b c = Some (Inr st')"
proof -
  let ?st = "copy_states (chain_AccountStates c)" and ?cb = "par_Coinbase p"
  have "(st, gas, fees) = r"
    using mine_agrees[OF valid m[unfolded template(1)]] ledger(1) by (auto simp: ordinary_def)
  then have v: "execute_transactions verify executor 1 (par_Transactions p) ?st 0 0 = Some (Inr (st, gas, fees))"
    using valid by simp
  have sup: "total_supply ?st + unat (tx_Amount ?cb) < 2 ^ 63" and nc: "no_contracts ?st" using ledger(2,3) by simp_all
  obtain s1 where ap: "apply_coinbase ?cb ?st = Some (s1, 0, None)" and s1: "total_supply s1 = total_supply ?st + unat (tx_Amount ?cb)"
    using coinbase_supply[of ?st ?cb] sup by auto
  note r = coinbase_richer[OF _ nc ap]
  obtain st' where "execute_transactions verify executor 1 (par_Transactions p) s1 0 0 = Some (Inr (st', gas, fees))"
    using execute_richer[OF v r(1) ledger(1) nc r(2)] sup s1 by auto
  then have ex: "execute_transactions verify executor 0 (blk_Transactions b) ?st 0 0 = Some (Inr (st', gas, fees))"
    using ap template(7) by (simp add: txs ValidateTransaction_def ValidateAmount_def ApplyTransaction_def)
  have struct: "validateBlockStructure b c = Some None"
    using template not_genesis pow txs
    by (simp add: validateBlockStructure_def Let_def GetBlockByHash_def GetTipHash_def not_le h)
  show ?thesis
    using not_genesis gas unfolding ValidateBlock_def struct ex by (simp add: h txs amount add.commute)
qed

text \<open>
  C14. On a ledger without contracts, a block mined for the tip of the chain from transfers that are
  valid in their order, at the target the chain prescribes and after the time of the tip, is
  accepted by \<open>ValidateAndApplyBlock\<close> (unless its hash is the hash of the genesis block): executing
  the coinbase first, which mining does not do, changes neither the gas nor the fees. The height of the
  block is one that the list of blocks can reach.
\<close>

theorem mined_block_accepted:
  assumes mined: "NewBlock executor now p = Some (Inr b)"
    and template: "par_CurrentStates p = chain_AccountStates c" "Tip c = Some t" "par_PreviousHash p = GetTipHash c"
      "GetBlock c (GetTipHash c) = Some t" "GetTargetBits (length (Blocks c)) (Blocks c) = Some (par_TargetBits p)"
      "hdr_Timestamp (blk_Header t) < (if par_Timestamp p = 0 then now else par_Timestamp p)"
      "tx_From (par_Coinbase p) = zero32"
    and valid: "execute_transactions verify executor 1 (par_Transactions p) (copy_states (chain_AccountStates c)) 0 0
                = Some (Inr r)"
    and ledger: "\<forall>tx\<in>set (par_Transactions p). ordinary tx" "no_contracts (chain_AccountStates c)"
      "total_supply (chain_AccountStates c) + unat (tx_Amount (par_Coinbase p)) < 2 ^ 63"
    and height: "uint (par_Height p) < maxSlots"
  shows "(\<exists>c'. ValidateAndApplyBlock verify executor b c = Some (c', None) \<and> GetBlock c' (Block_GetHash b) = Some b)
    \<or> Block_GetHash b = Block_GetHash GenesisBlock"
  using mined
proof (rule NewBlock_ok, goal_cases)
  case (1 st gas fees nonce)
  then show ?case
    using mined_block_valid[OF 1 template valid ledger] height
    by (auto simp: Block_GetHash_def ValidateAndApplyBlock_def ApplyBlock_def AddBlock_def GetBlock_def)
qed

definition mined_chain :: Chain where
  "mined_chain =
     (let t = \<lparr>blk_Header = easy_header 1 zero32 ''1'', blk_Transactions = []\<rparr>
      in \<lparr>Blocks = [Some t], BlockIndex = [BlockHeader_GetHash (blk_Header t) \<mapsto> t],
          Headers = [BlockHeader_GetHash (blk_Header t) \<mapsto> blk_Header t], chain_AccountStates = rich, Tip = Some t\<rparr>)"

theorem mined_block_accepted_witness:
  "\<exists>b. NewBlock None 0 mined_template = Some (Inr b) \<and>
     ((\<exists>c'. ValidateAndApplyBlock accept None b mined_chain = Some (c', None) \<and> GetBlock c' (Block_GetHash b) = Some b)
      \<or> Block_GetHash b = Block_GetHash GenesisBlock)"
proof -
  obtain b where b: "NewBlock None 0 mined_template = Some (Inr b)" using mined_template_block by blast
  obtain st where v: "execute_transactions accept None 1 [pay 30000 bob] (copy_states rich) 0 0 = Some (Inr (st, 21000, 21000))"
    using mined_template_executes(1) by blast
  let ?t = "\<lparr>blk_Header = easy_header 1 zero32 ''1'', blk_Transactions = []\<rparr>"
  have nc: "no_contracts rich" by (simp add: no_contracts_def rich_def new_account_def)
  have p: "par_Transactions mined_template = [pay 30000 bob]" "ordinary (pay 30000 bob)"
    using FirstUser_not_zero by (simp_all add: mined_template_def ordinary_def pay_def)
  have c: "chain_AccountStates mined_chain = rich" "Tip mined_chain = Some ?t" "Blocks mined_chain = [Some ?t]"
      "GetTipHash mined_chain = BlockHeader_GetHash (easy_header 1 zero32 ''1'')" 
      "GetBlock mined_chain (BlockHeader_GetHash (easy_header 1 zero32 ''1'')) = Some ?t"
    by (simp_all add: mined_chain_def GetTipHash_def GetBlock_def Let_def)
  show ?thesis
    by (intro exI[of _ b] conjI b mined_block_accepted[OF b, where t = ?t and r = "(st, 21000, 21000)"])
      (simp_all add: c p v[unfolded One_nat_def] nc del: execute_transactions.simps, simp_all add: mined_template_def GetTargetBits_def RecalculationFrequency_def
        rich_supply money_defs maxSlots_eq)
qed

end
