(* ===== verification/Miner.thy ===== *)
theory Miner
  imports Api Mining
begin

text \<open>
  The miner of \<open>src/cmd/miner/main.go\<close>: it asks a node for the head of its chain, its accounts and its pending
  transactions, makes a block and submits it. What the node answers is given as the responses of the handlers of
  theory Api, and \<open>None\<close> where the connection or the decoding fails. The clock is an argument. Log output and
  the sleeps are left out; the identifier, the address of the node and the private key are used for nothing else.
\<close>

section \<open>Reading from a node\<close>

definition MainnetChainID :: u64 where
  "MainnetChainID = 1"

record SimpleMiner =
  MinerAddress :: PublicKey
  MaxBlocks :: int

fun reply :: "'a response option \<Rightarrow> 'a option" where
  "reply (Some (Json x)) = Some x"
| "reply _ = None"

definition getChainInfo :: "ChainHead response option \<Rightarrow> ChainHead option" where
  "getChainInfo resp = reply resp"

definition getMempoolTransactions :: "MempoolResponse response option \<Rightarrow> Transaction list option" where
  "getMempoolTransactions resp = map_option mpr_Transactions (reply resp)"

definition store_key :: "string \<times> AccountState \<Rightarrow> AccountStates \<Rightarrow> AccountStates" where
  "store_key p accountStates =
     (case hex_DecodeString (fst p) of
        None \<Rightarrow> accountStates
      | Some keyBytes \<Rightarrow> if length keyBytes \<noteq> 32 then accountStates else go_store keyBytes (snd p) accountStates)"

definition getChainState :: "ChainStateResponse response option \<Rightarrow> AccountStates option" where
  "getChainState resp = map_option (\<lambda>r. fold store_key (cst_AccountStates r) []) (reply resp)"

section \<open>Making a block\<close>

text \<open>The fees of the pending transactions, each executed on its own copy of the accounts; the sum wraps around.\<close>

fun simulate_fees :: "ContractExecutor option \<Rightarrow> AccountStates \<Rightarrow> Transaction list \<Rightarrow> u64 \<Rightarrow> u64 option" where
  "simulate_fees executor currentStates [] totalGasFees = Some totalGasFees"
| "simulate_fees executor currentStates (tx # txs) totalGasFees =
     (if tx_From tx = zero32 then simulate_fees executor currentStates txs totalGasFees
      else case ApplyTransaction executor tx (copy_states currentStates) of
          None \<Rightarrow> None
        | Some (st, gasUsed, Some e) \<Rightarrow> simulate_fees executor currentStates txs totalGasFees
        | Some (st, gasUsed, None) \<Rightarrow> simulate_fees executor currentStates txs (totalGasFees + gasUsed * tx_GasPrice tx))"

definition miner_coinbase :: "SimpleMiner \<Rightarrow> u64 \<Rightarrow> u64 \<Rightarrow> Transaction" where
  "miner_coinbase m now totalGasFees =
     \<lparr>tx_From = zero32, tx_To = MinerAddress m, tx_Amount = BlockReward + totalGasFees, tx_Signature = replicate 64 0,
      tx_Nonce = 0, tx_Timestamp = now, tx_ChainID = MainnetChainID, tx_Instructions = [], tx_GasLimit = 0, tx_GasPrice = 0, tx_Data = []\<rparr>"

definition miner_params :: "SimpleMiner \<Rightarrow> u64 \<Rightarrow> ChainHead \<Rightarrow> Transaction list \<Rightarrow> AccountStates \<Rightarrow> u64 \<Rightarrow> BlockCreationParams" where
  "miner_params m now chainInfo mempoolTxs currentStates totalGasFees =
     \<lparr>par_Version = 1, par_PreviousHash = head_Hash chainInfo, par_Height = head_Height chainInfo + 1,
      par_PreviousWork = head_TotalWork chainInfo, par_Coinbase = miner_coinbase m now totalGasFees,
      par_Transactions = mempoolTxs, par_Timestamp = now, par_TargetBits = TestTargetCompact, par_CurrentStates = currentStates\<rparr>"

definition createAndMineBlock ::
  "ContractExecutor option \<Rightarrow> SimpleMiner \<Rightarrow> u64 \<Rightarrow> ChainHead \<Rightarrow> Transaction list option \<Rightarrow> AccountStates option \<Rightarrow> (mining_error + Block) option" where
  "createAndMineBlock executor m now chainInfo mempool states =
     (let mempoolTxs = (case mempool of None \<Rightarrow> [] | Some txs \<Rightarrow> txs);
          currentStates = (case states of None \<Rightarrow> [] | Some st \<Rightarrow> st)
      in case simulate_fees executor currentStates mempoolTxs 0 of
           None \<Rightarrow> None
         | Some totalGasFees \<Rightarrow> NewBlock executor now (miner_params m now chainInfo mempoolTxs currentStates totalGasFees))"

section \<open>The loop\<close>

text \<open>Whether the node has answered a submission with a status.\<close>

definition submitBlock :: "string response option \<Rightarrow> bool" where
  "submitBlock resp = (reply resp \<noteq> None)"

text \<open>What the node answers in one round, to the requests and to the block.\<close>

record round =
  rnd_now :: u64
  rnd_info :: "ChainHead option"
  rnd_mempool :: "Transaction list option"
  rnd_states :: "AccountStates option"
  rnd_submit :: "Block \<Rightarrow> string response option"

text \<open>The blocks sent in a sequence of rounds, and whether their submission succeeded.\<close>

fun StartMining :: "ContractExecutor option \<Rightarrow> SimpleMiner \<Rightarrow> round list \<Rightarrow> int \<Rightarrow> (Block \<times> bool) list option" where
  "StartMining executor m [] blocksMinedCount = Some []"
| "StartMining executor m (r # rs) blocksMinedCount =
     (if MaxBlocks m > 0 \<and> blocksMinedCount \<ge> MaxBlocks m then Some []
      else case rnd_info r of
          None \<Rightarrow> StartMining executor m rs blocksMinedCount
        | Some chainInfo \<Rightarrow>
            (case createAndMineBlock executor m (rnd_now r) chainInfo (rnd_mempool r) (rnd_states r) of
               None \<Rightarrow> None
             | Some (Inl e) \<Rightarrow> StartMining executor m rs blocksMinedCount
             | Some (Inr block) \<Rightarrow>
                 if submitBlock (rnd_submit r block)
                 then map_option ((#) (block, True)) (StartMining executor m rs (blocksMinedCount + 1))
                 else map_option ((#) (block, False)) (StartMining executor m rs blocksMinedCount)))"

lemma StartMining_limit:
  assumes "StartMining executor m rs mined = Some bs" "MaxBlocks m > 0" "mined \<le> MaxBlocks m"
  shows "mined + int (length (filter snd bs)) \<le> MaxBlocks m"
  using assms by (induction executor m rs mined arbitrary: bs rule: StartMining.induct) (fastforce split: if_splits option.splits sum.splits)+

section \<open>The accounts on their way to the miner\<close>

lemma fold_store_new:
  assumes "distinct (map f xs)"
  shows "fold (\<lambda>x. go_store (f x) (g x)) xs [] = map (\<lambda>x. (f x, g x)) xs"
  using assms
proof (induction xs rule: rev_induct)
  case (snoc x xs)
  then have "f x \<notin> fst ` set (map (\<lambda>x. (f x, g x)) xs)" by auto
  from go_store_new[OF this] snoc show ?case by simp
qed simp

text \<open>The keys are written in hexadecimal and read back, so the miner works on the accounts of the node.\<close>

lemma getChainState_node:
  assumes "distinct (go_keys (chain_AccountStates (GetChain n)))" "\<forall>k\<in>set (go_keys (chain_AccountStates (GetChain n))). length k = 32"
  shows "getChainState (Some (handleChainState (get ''/chain-state'') n)) = Some (chain_AccountStates (GetChain n))"
proof -
  let ?st = "chain_AccountStates (GetChain n)"
  have "inj hex_EncodeToString" by (simp add: inj_def hex.encode_inject)
  then have "distinct (map (\<lambda>p. hex_EncodeToString (fst p)) ?st)"
    using assms(1) distinct_map[of hex_EncodeToString "go_keys ?st"] inj_on_subset[OF _ subset_UNIV] by (auto simp: comp_def)
  from fold_store_new[OF this, of snd]
  have sent: "fold (\<lambda>(k, s). go_store (hex_EncodeToString k) s) ?st [] = map (\<lambda>p. (hex_EncodeToString (fst p), snd p)) ?st"
    by (simp add: case_prod_beta')
  have "fold store_key (map (\<lambda>p. (hex_EncodeToString (fst p), snd p)) st) acc = fold (\<lambda>p. go_store (fst p) (snd p)) st acc"
    if "\<forall>k\<in>set (go_keys st). length k = 32" for st acc
    using that by (induction st arbitrary: acc) (auto simp: store_key_def hex_decode_encode)
  with assms(2) fold_store_new[of fst ?st snd] assms(1) sent show ?thesis
    by (simp add: getChainState_def handleChainState_def get_def Let_def)
qed

section \<open>Conflicting transactions\<close>

text \<open>A transfer that the sender cannot pay is not an error but a panic.\<close>

lemma unpaid_transfer_panics:
  assumes "ordinary tx" "no_contracts st" "map_of st (tx_From tx) = Some s" "tx_To tx \<noteq> tx_From tx"
    "transfer_gas tx \<le> tx_GasLimit tx" "unat (acc_Balance s) < unat (tx_Amount tx)"
  shows "ApplyTransaction executor tx st = None"
proof -
  have unpaid: "charge_sender tx (tx_Amount tx) (transfer_gas tx) s [] st' = None" for st'
  proof (cases "SafeAdd (tx_Amount tx) (transfer_gas tx * tx_GasPrice tx)")
    case (Inr c)
    then have "unat c = unat (tx_Amount tx) + unat (transfer_gas tx * tx_GasPrice tx)"
      by (auto simp: SafeAdd_unat unat_add_exact split: if_splits)
    then show ?thesis using Inr assms(5,6) by (simp add: charge_sender_def SafeSubtract_unat)
  qed (use assms(5) in \<open>simp add: charge_sender_def\<close>)
  have "acc_Instructions r = []" if "map_of st (tx_To tx) = Some r" for r using assms(2) that by (simp add: no_contracts_def)
  then have "apply_transfer executor tx s st = None"
    using unpaid assms(3,4) by (auto simp: apply_transfer_def transfer_gas_def Let_def split: option.splits sum.splits)
  then show ?thesis using assms(1,3) by (simp add: ApplyTransaction_def ordinary_def is_deployment_def)
qed

lemma richer_copy: "richer st (copy_states st)"
  by (auto simp: richer_def map_of_copy validation_copy_def split: option.splits)

lemma NewBlock_panics:
  "mine_transactions executor (par_Transactions p) (copy_states (par_CurrentStates p)) 0 0 = None \<Longrightarrow> NewBlock executor now p = None"
  by (simp add: NewBlock_def)

text \<open>
  C40. Two pending transfers of one sender stop the miner: each is valid, so the node takes both into its
  pool, but together they cost more than the sender has. The miner does not validate what it executes, and
  executing the second transfer after the first panics.
\<close>

theorem conflicting_transfers_crash_miner:
  assumes tx1: "ordinary tx1" "ValidateTransaction verify tx1 st = None" "tx_To tx1 \<noteq> tx_From tx1" "transfer_gas tx1 \<le> tx_GasLimit tx1"
    and tx2: "ordinary tx2" "ValidateTransaction verify tx2 st = None" "tx_To tx2 \<noteq> tx_From tx2" "transfer_gas tx2 \<le> tx_GasLimit tx2"
    and st: "no_contracts st" "total_supply st < 2 ^ 63" "map_of st (tx_From tx1) = Some s" "tx_From tx2 = tx_From tx1"
    and cost: "unat (acc_Balance s) < unat (tx_Amount tx1) + unat (transfer_gas tx1) * unat (tx_GasPrice tx1) + unat (tx_Amount tx2)"
  shows "createAndMineBlock executor m now chainInfo (Some [tx1, tx2]) (Some st) = None"
proof -
  let ?st = "copy_states st"
  have nc: "no_contracts ?st" and sup: "total_supply ?st < 2 ^ 63" and v: "ValidateTransaction verify tx1 ?st = None"
    using st(1,2) ValidateTransaction_richer[OF tx1(2) richer_copy] by simp_all
  from ordinary_result[OF tx1(1) nc v sup] obtain f where f: "map_of (credited tx1 ?st) (tx_From tx1) = Some f"
    "unat (tx_Amount tx1) + max_gas_cost tx1 \<le> unat (acc_Balance f)"
    "ApplyTransaction executor tx1 ?st = charge_sender tx1 (tx_Amount tx1) (transfer_gas tx1) f [] (credited tx1 ?st)" by metis
  note paid = charge_sender_ok[OF tx1(4) f(2)]
  let ?s = "debit f (tx_Amount tx1 + transfer_gas tx1 * tx_GasPrice tx1)" and ?st1 = "go_store (tx_From tx1)
    (debit f (tx_Amount tx1 + transfer_gas tx1 * tx_GasPrice tx1)) (credited tx1 ?st)"
  have ap: "ApplyTransaction executor tx1 ?st = Some (?st1, transfer_gas tx1, None)" using f(3) paid(1) by simp
  have "f = validation_copy s" using f(1) st(3) tx1(3) by (auto simp: credited_def map_of_copy split: option.splits)
  then have "acc_Balance f = acc_Balance s" by (simp add: validation_copy_def)
  then have "unat (acc_Balance ?s) < unat (tx_Amount tx2)" using paid(2-4) cost by simp
  moreover have "no_contracts ?st1" using ordinary_step(1)[OF tx1(1) nc v sup ap] .
  ultimately have "ApplyTransaction executor tx2 ?st1 = None"
    using tx2 st(4) by (intro unpaid_transfer_panics[where s = ?s]) simp_all
  then have "mine_transactions executor [tx1, tx2] ?st 0 0 = None"
    using ap tx1(1) tx2(1) unsigned_less[of "transfer_gas tx1", where ?'a = nat]
      unsigned_less[of "transfer_gas tx1 * tx_GasPrice tx1", where ?'a = nat] by (simp add: ordinary_def SafeAdd_unat)
  then have "NewBlock executor now (miner_params m now chainInfo [tx1, tx2] st fees) = None" for fees
    by (intro NewBlock_panics) (simp add: miner_params_def)
  then show ?thesis by (simp add: createAndMineBlock_def Let_def del: simulate_fees.simps split: option.split)
qed

theorem conflicting_transfers_crash_miner_witness:
  "let pay1 = (pay 30000 bob)\<lparr>tx_Amount := 600000\<rparr>; pay2 = (pay 30000 bob)\<lparr>tx_Amount := 700000\<rparr> in
   ValidateTransaction accept pay1 rich = None \<and> ValidateTransaction accept pay2 rich = None \<and>
   createAndMineBlock None \<lparr>MinerAddress = bob, MaxBlocks = 0\<rparr> 5 \<lparr>head_Height = 0, head_Hash = zero32, head_TotalWork = ''1''\<rparr>
      (Some [pay1, pay2]) (Some rich) = None"
proof -
  let ?p1 = "(pay 30000 bob)\<lparr>tx_Amount := 600000\<rparr>" and ?p2 = "(pay 30000 bob)\<lparr>tx_Amount := 700000\<rparr>"
  have v: "ValidateTransaction accept ?p1 rich = None" "ValidateTransaction accept ?p2 rich = None"
    using FirstUser_not_zero
    by (simp_all add: ValidateTransaction_def accept_def pay_def rich_def new_account_def is_deployment_def SafeAdd_unat)
  have o: "ordinary ?p1" "ordinary ?p2" "no_contracts rich" "total_supply rich < 2 ^ 63"
    using FirstUser_not_zero by (simp_all add: ordinary_def pay_def no_contracts_def rich_def new_account_def rich_supply[unfolded rich_def new_account_def])
  have "createAndMineBlock None \<lparr>MinerAddress = bob, MaxBlocks = 0\<rparr> 5 \<lparr>head_Height = 0, head_Hash = zero32, head_TotalWork = ''1''\<rparr>
      (Some [?p1, ?p2]) (Some rich) = None"
    by (rule conflicting_transfers_crash_miner[OF o(1) v(1) _ _ o(2) v(2) _ _ o(3,4), where s = "new_account FirstUser 1000000"])
      (simp_all add: pay_def rich_def new_account_def transfer_gas_def data_gas_def GasTransfer_def)
  with v show ?thesis by (simp add: Let_def)
qed

end
