(* ===== verification/Propagation.thy ===== *)
theory Propagation
  imports Peers Miner
begin

text \<open>
  The components together: a block that a miner makes from the answers of a node and submits to it becomes the
  tip of the node, and a block that a peer announces, and hands over on request, becomes the tip of the
  nodes that can extend their current chain with it.
\<close>

section \<open>Adopting a block\<close>

lemma AddHeader_simps:
  "Blocks (AddHeader c h) = Blocks c" "BlockIndex (AddHeader c h) = BlockIndex c" "Tip (AddHeader c h) = Tip c"
  "chain_AccountStates (AddHeader c h) = chain_AccountStates c"
  by (simp_all add: AddHeader_def)

lemma ValidateBlock_AddHeader [simp]: "ValidateBlock verify executor b (AddHeader c h) = ValidateBlock verify executor b c"
  unfolding ValidateBlock_def validateBlockStructure_def GetBlockByHash_def GetBlock_def AddHeader_simps ..

lemma findParentChain_structure: "findParentChain n h = Some (a, t) \<Longrightarrow> ValidateHeaderStructure h = None"
  by (auto simp: findParentChain_def ValidateHeaderTotalWork_def split: option.splits if_splits)

text \<open>A header on top of the current tip whose block can be had, and is valid, moves the tip.\<close>

lemma extension_adopted:
  assumes "node_ok n" "findParentChain n h = Some (a, currentChainTip n)" "\<not> checkHeaderExists n (BlockHeader_GetHash h)"
    "fetch_extension net (BlockHeader_GetHash h) (extended h a (currentChainTip n) n) = Some (b # bs)"
    "ValidateBlock verify executor b (chain_at n a) = Some (Inr st)" "uint (hdr_Height (blk_Header b)) < maxSlots"
  shows "\<exists>n'. ProcessHeader verify executor net h n = Some (n', None) \<and> currentChainTip n' = BlockHeader_GetHash h \<and>
    current_chain n' = Some (store_block (SetAccountStates (AddHeader (chain_at n a) h) st) b)"
proof -
  let ?t = "currentChainTip n" and ?k = "BlockHeader_GetHash h"
  let ?n = "extended h a ?t n"
  have a: "a < length (chain_heap n)" using findParentChain_ok[OF assms(2,1)] .
  let ?c = "store_block (SetAccountStates (AddHeader (chain_at n a) h) st) b"
  let ?m = "enter_extension b ?k a (update_chain a (\<lambda>_. ?c) ?n)"
  have "apply_extension b st ?k a ?n = Some ?m" using a assms(6) by (simp add: apply_extension_Some ApplyBlock_def AddBlock_Some)
  then have "ProcessHeader verify executor net h n = Some (?m, None)"
    using ProcessHeader_extension[OF findParentChain_structure[OF assms(2)] assms(3,2)] assms(4,5) a
    by (simp add: handleCurrentChainExtension_def)
  moreover have "currentChainTip ?m = ?k" "current_chain ?m = Some ?c"
    using a by (auto simp: enter_extension_def current_chain_def Let_def delete_conv' update_chain_def tryConnectOrphanChildren_def)
  ultimately show ?thesis by blast
qed

lemma store_block_holds:
  "GetBlock (store_block (SetAccountStates c st) b) (Block_GetHash b) = Some b"
  "GetAccountStates (store_block (SetAccountStates c st) b) = st"
  by (simp_all add: GetBlock_def Block_GetHash_def GetAccountStates_def)
    (simp add: SetAccountStates_def)

section \<open>Blocks from a peer\<close>

text \<open>The network of a node with one peer that answers in time.\<close>

definition answers_from :: "Node \<Rightarrow> network" where
  "answers_from p =
     \<lparr>RequestBlocks = (\<lambda>hashes. Some [map BlockToProtoBlock (GetBlocks p hashes)]),
      RequestHeaders = (\<lambda>hashes. Some [map BlockHeaderToProtoHeader (GetHeaders p hashes)])\<rparr>"

text \<open>This is what the handler of the peer sends back for a request it can read.\<close>

lemma answers_from_handler:
  assumes "WriteProtoMsg marshal req = Some s" "marshal req = Some bytes" "unmarshal bytes = (req, True)" "length bytes < 2 ^ 32"
    "req = \<lparr>brq_MessageData = Some md, brq_Hashes = hashes\<rparr>" "\<forall>h\<in>set hashes. length h = 32"
  shows "\<exists>data. onBlocksRequest unmarshal s p = Some (md_SenderID md, md_MessageID md, data) \<and> RequestBlocks (answers_from p) hashes = Some [data]"
proof -
  have "map (copy_array 32) hashes = hashes" using assms(6) by (simp add: map_idI)
  moreover note Read_Write[where unmarshal = unmarshal and rest = "[]", OF assms(1,2) _ assms(4)]
  ultimately show ?thesis using assms(3,5) by (simp add: onBlocksRequest_def answers_from_def)
qed

definition no_empty_literals :: "Block \<Rightarrow> bool" where
  "no_empty_literals b \<longleftrightarrow> (\<forall>tx\<in>set (blk_Transactions b). \<forall>i\<in>set (tx_Instructions tx). Value i \<noteq> Some [])"

lemma block_sent_same:
  assumes "sized_block b" "hdr_ReceiptRoot (blk_Header b) = zero32" "no_empty_literals b"
  shows "ProtoBlockToBlock (BlockToProtoBlock b) = Some b"
proof -
  have "map sent_transaction (blk_Transactions b) = blk_Transactions b"
    using assms(3) by (simp add: no_empty_literals_def sent_transaction_id map_idI)
  moreover have "(blk_Header b)\<lparr>hdr_ReceiptRoot := zero32\<rparr> = blk_Header b" using assms(2) by (cases "blk_Header b") simp
  ultimately show ?thesis using block_sent[OF assms(1)] by simp
qed

text \<open>
  C17. A valid block spreads: when a peer announces the header of a block it has, and the block is valid on top of
  the current chain of the node that hears of it, the node fetches the block from the peer and makes it
  its tip; its chain then holds this block and the accounts that executing it gives. The height of the
  block, which validation does not check, is one that the list of blocks can reach.
\<close>

theorem announced_block_adopted:
  assumes n: "node_ok n" "findParentChain n (blk_Header b) = Some (a, currentChainTip n)" "\<not> checkHeaderExists n (Block_GetHash b)"
      "node_GetBlock n (Block_GetHash b) = None"
    and p: "node_GetBlock p (Block_GetHash b) = Some b"
    and b: "sized_block b" "hdr_ReceiptRoot (blk_Header b) = zero32" "no_empty_literals b"
    and valid: "ValidateBlock verify executor b (chain_at n a) = Some (Inr st)" "uint (hdr_Height (blk_Header b)) < maxSlots"
  shows "\<exists>n' c. onHeaderAnnouncement verify executor (answers_from p) (BlockHeaderToProtoHeader (blk_Header b)) n = Some n' \<and>
    currentChainTip n' = Block_GetHash b \<and> current_chain n' = Some c \<and> GetBlock c (Block_GetHash b) = Some b \<and> GetAccountStates c = st"
proof -
  let ?h = "blk_Header b" and ?n = "extended (blk_Header b) a (currentChainTip n) n"
  have h: "ProtoHeaderToBlockHeader (BlockHeaderToProtoHeader ?h) = ?h"
    using header_sent[of ?h] b(1,2) by (cases ?h) (simp add: sized_block_def)
  have "GetBlocks p [Block_GetHash b] = [b]" using p by (simp add: GetBlocks_def List.map_filter_simps)
  moreover have "node_GetBlock ?n (Block_GetHash b) = None" using n(4) by (auto simp: node_GetBlock_def split: option.splits)
  ultimately have "fetch_extension (answers_from p) (BlockHeader_GetHash ?h) ?n = Some [b]"
    using block_sent_same[OF b] by (simp add: fetch_extension_def answers_from_def blocks_map_def Block_GetHash_def)
  from extension_adopted[OF n(1,2) _ this valid] n(3) show ?thesis
    using store_block_holds[of _ st b] by (fastforce simp: onHeaderAnnouncement_def h Block_GetHash_def)
qed

section \<open>Blocks from a miner\<close>

text \<open>The current chain and its tip agree with the current tip of the node.\<close>

definition tip_ready :: "Node \<Rightarrow> Chain \<Rightarrow> Block \<Rightarrow> bool" where
  "tip_ready n c t \<longleftrightarrow> current_chain n = Some c \<and> Tip c = Some t \<and> Block_GetHash t = currentChainTip n \<and>
     GetBlock c (currentChainTip n) = Some t \<and> GetHeader c (currentChainTip n) = Some (blk_Header t)"

lemma tip_ready_head:
  assumes "tip_ready n c t" "currentChainTip n \<noteq> zero32"
  shows "handleChainInfo (get ''/chain-info'') n =
      Json \<lparr>head_Height = hdr_Height (blk_Header t), head_Hash = currentChainTip n, head_TotalWork = hdr_TotalWork (blk_Header t)\<rparr>"
    and "GetChain n = c"
  using assms by (auto simp: tip_ready_def handleChainInfo_def get_def GetChainHead_def GetChain_def Block_GetHash_def)

lemma tip_ready_parent:
  assumes "tip_ready n c t" "hdr_PreviousHash h = currentChainTip n" "ValidateHeaderTotalWork h (hdr_TotalWork (blk_Header t)) = None"
  obtains a where "findParentChain n h = Some (a, currentChainTip n)" "chain_at n a = c"
  using assms by (auto simp: tip_ready_def current_chain_def findParentChain_def)

lemma store_block_tip:
  assumes "Tip c = Some t" "hdr_Height (blk_Header b) = hdr_Height (blk_Header t) + 1" "hdr_Height (blk_Header b) \<noteq> 0"
  shows "Tip (store_block (SetAccountStates c st) b) = Some b"
    and "GetHeader (store_block (SetAccountStates c st) b) (Block_GetHash b) = Some (blk_Header b)"
proof -
  have "hdr_Height (blk_Header b) > hdr_Height (blk_Header t)" 
    using assms(2,3) unatSuc[of "hdr_Height (blk_Header t)"] by (simp add: word_less_nat_alt add.commute)
  then show "Tip (store_block (SetAccountStates c st) b) = Some b" using assms(1) by (simp add: store_block_Tip SetAccountStates_def)
  show "GetHeader (store_block (SetAccountStates c st) b) (Block_GetHash b) = Some (blk_Header b)" by (simp add: GetHeader_def Block_GetHash_def)
qed

lemma StoreBlock_simps [simp]:
  "chains (StoreBlock b n) = chains n" "chain_heap (StoreBlock b n) = chain_heap n" "currentChainTip (StoreBlock b n) = currentChainTip n"
  "submittedBlocks (StoreBlock b n) (Block_GetHash b) = Some b"
  by (simp_all add: StoreBlock_def Block_GetHash_def)

lemma StoreBlock_parent [simp]:
  "findParentChain (StoreBlock b n) h = findParentChain n h" "checkHeaderExists (StoreBlock b n) k = checkHeaderExists n k"
  unfolding findParentChain_def checkHeaderExists_def StoreBlock_simps(1,2) by (rule refl)+

text \<open>A submitted block that is valid on top of the tip becomes the tip.\<close>

lemma submitted_block_adopted:
  assumes "node_ok n" "tip_ready n c t" "hdr_PreviousHash (blk_Header b) = currentChainTip n"
    "ValidateHeaderTotalWork (blk_Header b) (hdr_TotalWork (blk_Header t)) = None" "\<not> checkHeaderExists n (Block_GetHash b)"
    "hdr_Height (blk_Header b) = hdr_Height (blk_Header t) + 1" "hdr_Height (blk_Header b) \<noteq> 0"
    "ValidateBlock verify executor b c = Some (Inr st)" "uint (hdr_Height (blk_Header b)) < maxSlots"
  shows "\<exists>n' c'. run_task verify executor net (SubmitBlock b) n = Some n' \<and> currentChainTip n' = Block_GetHash b \<and>
    tip_ready n' c' b \<and> GetAccountStates c' = st"
proof -
  let ?m = "StoreBlock b n" and ?h = "blk_Header b"
  obtain a where a: "findParentChain n ?h = Some (a, currentChainTip n)" "chain_at n a = c" using tip_ready_parent[OF assms(2-4)] .
  have "fetch_extension net (BlockHeader_GetHash ?h) (extended ?h a (currentChainTip ?m) ?m) = Some [b]"
    using StoreBlock_simps(4)[of b n] by (simp add: fetch_extension_def node_GetBlock_def Block_GetHash_def del: StoreBlock_simps)
  from extension_adopted[where verify = verify and executor = executor and st = st, OF StoreBlock_ok[OF assms(1)] _ _ this] a assms(5,8,9)
  obtain n' where n': "ProcessHeader verify executor net ?h ?m = Some (n', None)" "currentChainTip n' = Block_GetHash b"
    "current_chain n' = Some (store_block (SetAccountStates (AddHeader c ?h) st) b)" by (auto simp: Block_GetHash_def)
  have "Tip (AddHeader c ?h) = Some t" using assms(2) by (simp add: tip_ready_def AddHeader_simps)
  from store_block_tip[OF this assms(6,7)] have "tip_ready n' (store_block (SetAccountStates (AddHeader c ?h) st) b) b"
    using n'(2,3) store_block_holds(1) by (simp add: tip_ready_def)
  then show ?thesis using n' store_block_holds(2) by auto
qed

text \<open>What a block mined on the head that a node reports satisfies there.\<close>

lemma mined_on_tip:
  assumes mined: "NewBlock executor now p = Some (Inr b)"
    and node: "tip_ready n c t" "hdr_Height (blk_Header t) + 1 \<noteq> 0"
    and head: "par_PreviousHash p = currentChainTip n" "par_Height p = hdr_Height (blk_Header t) + 1"
      "par_PreviousWork p = hdr_TotalWork (blk_Header t)"
    and template: "par_CurrentStates p = chain_AccountStates c"
      "GetTargetBits (length (Blocks c)) (Blocks c) = Some (par_TargetBits p)"
      "hdr_Timestamp (blk_Header t) < (if par_Timestamp p = 0 then now else par_Timestamp p)" "tx_From (par_Coinbase p) = zero32"
    and valid: "execute_transactions verify executor 1 (par_Transactions p) (copy_states (chain_AccountStates c)) 0 0 = Some (Inr r)"
    and ledger: "\<forall>tx\<in>set (par_Transactions p). ordinary tx" "no_contracts (chain_AccountStates c)"
      "total_supply (chain_AccountStates c) + unat (tx_Amount (par_Coinbase p)) < 2 ^ 63"
    and fresh: "Block_GetHash b \<noteq> genesis_hash"
  obtains st where "ValidateBlock verify executor b c = Some (Inr st)" "hdr_PreviousHash (blk_Header b) = currentChainTip n"
    "hdr_Height (blk_Header b) = hdr_Height (blk_Header t) + 1" "ValidateHeaderTotalWork (blk_Header b) (hdr_TotalWork (blk_Header t)) = None"
  using mined
proof (rule NewBlock_ok, goal_cases)
  case (1 st gas fees nonce)
  have tip: "Tip c = Some t" "GetTipHash c = currentChainTip n" "GetBlock c (currentChainTip n) = Some t"
    using node(1) by (simp_all add: tip_ready_def GetTipHash_def Block_GetHash_def)
  have "\<exists>st'. ValidateBlock verify executor b c = Some (Inr st')"
    by (rule mined_block_valid[OF 1(2-8), where t = t and r = r])
      (use template valid ledger fresh tip head in \<open>simp_all add: Block_GetHash_def del: execute_transactions.simps\<close>)
  moreover have "ValidateHeaderTotalWork (blk_Header b) (hdr_TotalWork (blk_Header t)) = None"
    using 1(6) node(2) unfolding ValidateHeaderTotalWork_def ValidateHeaderStructure_def 1(8)
    by (simp add: head CalculateBlockWorkFromBits_String 1(8))
  ultimately show ?case using 1(1) by (auto simp: 1(8) head)
qed

text \<open>
  C9. A mined block becomes the tip of the node it was mined for: a block that \<open>NewBlock\<close> makes on the head
  and the accounts that the node reports, from transfers that are valid in their order, is taken by
  \<open>handleSubmitBlock\<close>, and the goroutine that processes it makes it the tip, whatever the peers answer. The
  node is then ready for the next block. The height is one that the list of blocks can reach.
\<close>

theorem mined_block_becomes_tip:
  assumes mined: "NewBlock executor now p = Some (Inr b)"
    and node: "node_ok n" "tip_ready n c t" "currentChainTip n \<noteq> zero32" "hdr_Height (blk_Header t) + 1 \<noteq> 0"
      "uint (hdr_Height (blk_Header t) + 1) < maxSlots"
    and info: "handleChainInfo (get ''/chain-info'') n = Json info" "par_PreviousHash p = head_Hash info"
      "par_Height p = head_Height info + 1" "par_PreviousWork p = head_TotalWork info"
    and template: "par_CurrentStates p = chain_AccountStates (GetChain n)"
      "GetTargetBits (length (Blocks c)) (Blocks c) = Some (par_TargetBits p)"
      "hdr_Timestamp (blk_Header t) < (if par_Timestamp p = 0 then now else par_Timestamp p)" "tx_From (par_Coinbase p) = zero32"
    and valid: "execute_transactions verify executor 1 (par_Transactions p) (copy_states (chain_AccountStates c)) 0 0 = Some (Inr r)"
    and ledger: "\<forall>tx\<in>set (par_Transactions p). ordinary tx" "no_contracts (chain_AccountStates c)"
      "total_supply (chain_AccountStates c) + unat (tx_Amount (par_Coinbase p)) < 2 ^ 63"
    and fresh: "\<not> checkHeaderExists n (Block_GetHash b)" "Block_GetHash b \<noteq> genesis_hash"
  shows "\<exists>n1 n2 c'. handleSubmitBlock ((get ''/submit-block'')\<lparr>req_Method := ''POST''\<rparr>) (Some b) n = (n1, Json ''submitted'') \<and>
    goroutines n1 = goroutines n @ [SubmitBlock b] \<and>
    run_task verify executor net (SubmitBlock b) (n1\<lparr>goroutines := goroutines n\<rparr>) = Some n2 \<and>
    currentChainTip n2 = Block_GetHash b \<and> tip_ready n2 c' b"
proof -
  have head: "par_PreviousHash p = currentChainTip n" "par_Height p = hdr_Height (blk_Header t) + 1"
    "par_PreviousWork p = hdr_TotalWork (blk_Header t)" and c: "GetChain n = c"
    using info tip_ready_head[OF node(2,3)] by auto
  obtain st where b: "ValidateBlock verify executor b c = Some (Inr st)" "hdr_PreviousHash (blk_Header b) = currentChainTip n"
    "hdr_Height (blk_Header b) = hdr_Height (blk_Header t) + 1" "ValidateHeaderTotalWork (blk_Header b) (hdr_TotalWork (blk_Header t)) = None"
    using mined_on_tip[OF mined node(2,4) head template(1)[unfolded c] template(2-4) valid ledger fresh(2)] .
  from submitted_block_adopted[OF node(1,2) b(2,4) fresh(1) b(3) _ b(1), of net] node(4,5) b(3)
  show ?thesis by (auto simp: handleSubmitBlock_def get_def)
qed

section \<open>An example\<close>

text \<open>A node whose tip has a target that every hash meets, and a template on its head without transactions.\<close>

definition easy_tip :: Block where
  "easy_tip = \<lparr>blk_Header = easy_header 1 zero32 ''1'', blk_Transactions = []\<rparr>"

definition easy_node :: Node where
  "easy_node =
     (let k = Block_GetHash easy_tip in
      \<lparr>node_Mempool = NewMempool, chains = [(k, 0)], chain_heap = [mined_chain], currentChainTip = k,
       headersMap = [k \<mapsto> blk_Header easy_tip], blocksMap = [k \<mapsto> easy_tip], orphanHeaders = [], submittedBlocks = Map.empty, goroutines = []\<rparr>)"

definition easy_template :: BlockCreationParams where
  "easy_template = (miner_params \<lparr>MinerAddress = bob, MaxBlocks = 1\<rparr> 2
     \<lparr>head_Height = 1, head_Hash = Block_GetHash easy_tip, head_TotalWork = ''1''\<rparr> [] rich 0)\<lparr>par_TargetBits := 0x2200ffff\<rparr>"

lemma easy_header_fields:
  "hdr_Height (easy_header n k w) = n" "hdr_TotalWork (easy_header n k w) = w" "hdr_Bits (easy_header n k w) = 0x2200ffff"
  by (simp_all add: easy_header_def)

lemma easy_template_block: "\<exists>b. NewBlock None 0 easy_template = Some (Inr b)"
proof -
  have "BlockHashMeetsDifficulty (BlockHeader_GetHash h) 0x2200ffff" for h
  proof -
    have "CompactToBig 0x2200ffff \<ge> 2 ^ 256" by code_simp
    then show ?thesis using big_SetBytes_bound[of "BlockHeader_GetHash h"]
      by (simp add: BlockHashMeetsDifficulty_def BlockHeader_GetHash_def)
  qed
  then have "MineCorrectNonce h 0x2200ffff = Some (hdr_Nonce h)" for h by (subst MineCorrectNonce.simps) simp
  then show ?thesis
    by (simp add: NewBlock_def easy_template_def miner_params_def miner_coinbase_def SafeAdd_unat money_defs Let_def)
qed

lemma easy_node_ok: "node_ok easy_node"
  by (auto simp: node_ok_def table_ok_def index_ok_def orphans_ok_def easy_node_def mined_chain_def chain_keyed_def easy_tip_def
      Block_GetHash_def Let_def NewMempool_ok split: if_splits)

lemma easy_node_ready: "tip_ready easy_node mined_chain easy_tip"
  by (simp add: tip_ready_def current_chain_def easy_node_def mined_chain_def easy_tip_def Block_GetHash_def GetBlock_def GetHeader_def Let_def)

lemma easy_node_known: "checkHeaderExists easy_node k \<longleftrightarrow> k = Block_GetHash easy_tip"
  by (auto simp: checkHeaderExists_def easy_node_def mined_chain_def easy_tip_def Block_GetHash_def GetHeader_def Let_def)

lemma easy_template_facts:
  "par_PreviousHash easy_template = currentChainTip easy_node" "par_Height easy_template = hdr_Height (blk_Header easy_tip) + 1"
  "par_PreviousWork easy_template = hdr_TotalWork (blk_Header easy_tip)" "par_CurrentStates easy_template = chain_AccountStates mined_chain"
  "GetTargetBits (length (Blocks mined_chain)) (Blocks mined_chain) = Some (par_TargetBits easy_template)"
  "hdr_Timestamp (blk_Header easy_tip) < (if par_Timestamp easy_template = 0 then 0 else par_Timestamp easy_template)"
  "tx_From (par_Coinbase easy_template) = zero32" "par_Transactions easy_template = []" "no_contracts (chain_AccountStates mined_chain)"
  "total_supply (chain_AccountStates mined_chain) + unat (tx_Amount (par_Coinbase easy_template)) < 2 ^ 63"
proof -
  show "GetTargetBits (length (Blocks mined_chain)) (Blocks mined_chain) = Some (par_TargetBits easy_template)"
    by (simp add: mined_chain_def easy_template_def GetTargetBits_def RecalculationFrequency_def easy_header_fields Let_def)
  show "no_contracts (chain_AccountStates mined_chain)"
    by (simp add: mined_chain_def no_contracts_def rich_def new_account_def Let_def)
  show "total_supply (chain_AccountStates mined_chain) + unat (tx_Amount (par_Coinbase easy_template)) < 2 ^ 63"
    by (simp add: mined_chain_def easy_template_def miner_params_def miner_coinbase_def rich_supply money_defs Let_def)
  show "hdr_Timestamp (blk_Header easy_tip) < (if par_Timestamp easy_template = 0 then 0 else par_Timestamp easy_template)"
    by (simp add: easy_tip_def easy_template_def miner_params_def easy_header_def block_at_def)
qed (simp_all add: easy_template_def miner_params_def miner_coinbase_def easy_node_def easy_tip_def mined_chain_def easy_header_fields Let_def)

lemma easy_block_sized:
  assumes "NewBlock None 0 easy_template = Some (Inr b)"
  shows "sized_block b" "hdr_ReceiptRoot (blk_Header b) = zero32" "no_empty_literals b"
proof -
  have "length (MerkleTransactions [tx]) = 32" for tx
    by (simp add: MerkleTransactions_def merkle_loop.simps[of "[x]" for x] Transaction_GetHash_def)
  then show "sized_block b" "hdr_ReceiptRoot (blk_Header b) = zero32" "no_empty_literals b"
    using assms by (auto elim!: NewBlock_ok simp: sized_block_def sized_header_def sized_transaction_def no_empty_literals_def
      easy_template_def miner_params_def miner_coinbase_def Block_GetHash_def BlockHeader_GetHash_def)
qed

theorem announced_block_adopted_witness:
  "\<exists>b. NewBlock None 0 easy_template = Some (Inr b) \<and> (Block_GetHash b \<in> {Block_GetHash easy_tip, genesis_hash} \<or>
     (\<exists>n' c. onHeaderAnnouncement accept None (answers_from (StoreBlock b NewNode)) (BlockHeaderToProtoHeader (blk_Header b)) easy_node = Some n' \<and>
        currentChainTip n' = Block_GetHash b \<and> current_chain n' = Some c \<and> GetBlock c (Block_GetHash b) = Some b))"
proof -
  obtain b where b: "NewBlock None 0 easy_template = Some (Inr b)" using easy_template_block by blast
  have "\<exists>n' c. onHeaderAnnouncement accept None (answers_from (StoreBlock b NewNode)) (BlockHeaderToProtoHeader (blk_Header b)) easy_node = Some n' \<and>
        currentChainTip n' = Block_GetHash b \<and> current_chain n' = Some c \<and> GetBlock c (Block_GetHash b) = Some b"
    if new: "Block_GetHash b \<notin> {Block_GetHash easy_tip, genesis_hash}"
  proof -
    have ex: "execute_transactions accept None 1 (par_Transactions easy_template) (copy_states (chain_AccountStates mined_chain)) 0 0
        = Some (Inr (copy_states (chain_AccountStates mined_chain), 0, 0))" by (simp add: easy_template_facts)
    have height: "hdr_Height (blk_Header easy_tip) + 1 \<noteq> 0" "uint (hdr_Height (blk_Header easy_tip) + 1) < maxSlots"
      by (simp_all add: easy_tip_def easy_header_fields maxSlots_eq)
    obtain st where v: "ValidateBlock accept None b mined_chain = Some (Inr st)" "hdr_PreviousHash (blk_Header b) = currentChainTip easy_node"
      "ValidateHeaderTotalWork (blk_Header b) (hdr_TotalWork (blk_Header easy_tip)) = None" "hdr_Height (blk_Header b) = hdr_Height (blk_Header easy_tip) + 1"
      using mined_on_tip[OF b easy_node_ready height(1) easy_template_facts(1-7) ex _ easy_template_facts(9,10)] new easy_template_facts(8) by auto
    obtain a where a: "findParentChain easy_node (blk_Header b) = Some (a, currentChainTip easy_node)" "chain_at easy_node a = mined_chain"
      using tip_ready_parent[OF easy_node_ready v(2,3)] .
    have "node_GetBlock (StoreBlock b NewNode) (Block_GetHash b) = Some b" by (simp add: node_GetBlock_def)
    moreover have "node_GetBlock easy_node (Block_GetHash b) = None" "\<not> checkHeaderExists easy_node (Block_GetHash b)"
      using new by (auto simp: easy_node_known) (simp add: node_GetBlock_def easy_node_def Let_def)
    ultimately show ?thesis
      using announced_block_adopted[OF easy_node_ok a(1) _ _ _ easy_block_sized[OF b], of "StoreBlock b NewNode" accept None st] v(1,4) height(2) unfolding a(2) by auto
  qed
  with b show ?thesis by blast
qed

theorem mined_block_becomes_tip_witness:
  "\<exists>b. NewBlock None 0 easy_template = Some (Inr b) \<and>
     (Block_GetHash easy_tip = zero32 \<or> Block_GetHash b \<in> {Block_GetHash easy_tip, genesis_hash} \<or>
      (\<exists>n2 c. run_task accept None silent (SubmitBlock b) easy_node = Some n2 \<and> currentChainTip n2 = Block_GetHash b \<and> tip_ready n2 c b))"
proof -
  obtain b where b: "NewBlock None 0 easy_template = Some (Inr b)" using easy_template_block by blast
  have "\<exists>n2 c. run_task accept None silent (SubmitBlock b) easy_node = Some n2 \<and> currentChainTip n2 = Block_GetHash b \<and> tip_ready n2 c b"
    if new: "Block_GetHash easy_tip \<noteq> zero32" "Block_GetHash b \<notin> {Block_GetHash easy_tip, genesis_hash}"
  proof -
    have ex: "execute_transactions accept None 1 (par_Transactions easy_template) (copy_states (chain_AccountStates mined_chain)) 0 0
        = Some (Inr (copy_states (chain_AccountStates mined_chain), 0, 0))" by (simp add: easy_template_facts)
    have height: "hdr_Height (blk_Header easy_tip) + 1 \<noteq> 0" "uint (hdr_Height (blk_Header easy_tip) + 1) < maxSlots"
      by (simp_all add: easy_tip_def easy_header_fields maxSlots_eq)
    have tip: "currentChainTip easy_node \<noteq> zero32" using new(1) by (simp add: easy_node_def Let_def)
    note head = tip_ready_head[OF easy_node_ready tip]
    from mined_block_becomes_tip[OF b easy_node_ok easy_node_ready tip height head(1) _ _ _ _ easy_template_facts(5-7) ex _ easy_template_facts(9,10), of silent]
    show ?thesis using new(2) head(2) easy_template_facts(1-4,8) by (auto simp: easy_node_known handleSubmitBlock_def get_def)
  qed
  with b show ?thesis by blast
qed

end
