(* ===== verification/AVM_Parser.thy ===== *)
theory AVM_Parser
  imports Bytecode
begin

text \<open>
  \<open>src/avm/parser.go\<close>: the textual form of bytecode. A program is a sequence of opcode names, where
  \<open>PUSH\<close> is followed by a hexadecimal literal; what is parsed can be printed and parsed again.
\<close>

section \<open>Parsing\<close>

definition is_space :: "char \<Rightarrow> bool" where
  "is_space c \<longleftrightarrow> c \<in> {CHR 0x0A, CHR 0x09, CHR 0x0C, CHR 0x0D, CHR '' ''}"

text \<open>
  All matches of the expression \<open>[^,\n\s]+|,\<close>: the longest runs of other characters, and each comma.
  \<open>run\<close> is the run being read.
\<close>

fun find_all :: "string \<Rightarrow> string \<Rightarrow> string list" where
  "find_all run [] = (if run = [] then [] else [run])"
| "find_all run (c # cs) =
     (if c = CHR '','' then (if run = [] then [] else [run]) @ [[c]] @ find_all [] cs
      else if is_space c then (if run = [] then [] else [run]) @ find_all [] cs
      else find_all (run @ [c]) cs)"

datatype parse_error = InvalidEOF | BadHexValue string | HexTooLong string | UnknownOpcode string

text \<open>The literal of a \<open>PUSH\<close>; \<open>None\<close> is the panic of slicing a literal of one character.\<close>

definition parse_hex :: "string \<Rightarrow> (parse_error + string) option" where
  "parse_hex hexValue =
     (if length hexValue < 2 then None
      else if take 2 hexValue = ''0x'' then
        (case big_SetString (drop 2 hexValue) 16 of
           None \<Rightarrow> Some (Inl (BadHexValue hexValue))
         | Some testValue \<Rightarrow>
             Some (if \<bar>testValue\<bar> \<ge> 2 ^ 256 then Inl (HexTooLong hexValue) else Inr hexValue))
      else
        (case big_SetString hexValue 16 of
           None \<Rightarrow> Some (Inl (BadHexValue hexValue))
         | Some testValue \<Rightarrow>
             (let hexValue = ''0x'' @ hexValue in
              Some (if \<bar>testValue\<bar> \<ge> 2 ^ 256 then Inl (HexTooLong hexValue) else Inr hexValue))))"

fun parse_tokens :: "string list \<Rightarrow> Instruction list \<Rightarrow> (Instruction list \<times> parse_error option) option" where
  "parse_tokens [] insts = Some (insts, None)"
| "parse_tokens (t # ts) insts =
     (if t = ''PUSH'' then
        (case ts of
           [] \<Rightarrow> Some (insts, Some InvalidEOF)
         | v # ts' \<Rightarrow>
             (case parse_hex v of
                None \<Rightarrow> None
              | Some (Inl e) \<Rightarrow> Some (insts, Some e)
              | Some (Inr hexValue) \<Rightarrow> parse_tokens ts' (insts @ [MakePushInstruction hexValue])))
      else
        (case OpcodeMap t of
           None \<Rightarrow> Some (insts, Some (UnknownOpcode t))
         | Some opcode \<Rightarrow> parse_tokens ts (insts @ [MakeInstruction opcode])))"

definition ParseInstructionsFromString :: "string \<Rightarrow> (Instruction list \<times> parse_error option) option" where
  "ParseInstructionsFromString text = parse_tokens (find_all [] text) []"

section \<open>Printing\<close>

definition instruction_tokens :: "Instruction \<Rightarrow> string list" where
  "instruction_tokens inst =
     (if Opcode inst = PUSH \<and> Value inst \<noteq> None then [''PUSH'', the (Value inst)]
      else [OPCODE_String (Opcode inst)])"

definition strings_Join :: "string list \<Rightarrow> string \<Rightarrow> string" where
  "strings_Join parts sep = concat (case parts of [] \<Rightarrow> [] | p # ps \<Rightarrow> p # map (\<lambda>q. sep @ q) ps)"

definition ExportInstructionsAsString :: "Instruction list \<Rightarrow> string" where
  "ExportInstructionsAsString instructions = strings_Join (concat (map instruction_tokens instructions)) '' ''"

section \<open>Tokens\<close>

definition separator :: "char \<Rightarrow> bool" where
  "separator c \<longleftrightarrow> c = CHR '','' \<or> is_space c"

definition is_word :: "string \<Rightarrow> bool" where
  "is_word w \<longleftrightarrow> w \<noteq> [] \<and> list_all (\<lambda>c. \<not> separator c) w"

lemma find_all_word: "list_all (\<lambda>c. \<not> separator c) w \<Longrightarrow> find_all run (w @ cs) = find_all (run @ w) cs"
  by (induction w arbitrary: run) (auto simp: separator_def)

lemma find_all_Join:
  assumes "list_all is_word ws" shows "find_all [] (strings_Join ws '' '') = ws"
proof -
  have tail: "list_all is_word ws \<Longrightarrow> run \<noteq> [] \<Longrightarrow> find_all run (concat (map (\<lambda>q. '' '' @ q) ws)) = run # ws" for run ws
  proof (induction ws arbitrary: run)
    case (Cons w ws)
    then show ?case by (simp add: is_space_def find_all_word is_word_def)
  qed simp
  show ?thesis
  proof (cases ws)
    case (Cons w ws')
    then have w: "list_all (\<lambda>c. \<not> separator c) w" "w \<noteq> []" "list_all is_word ws'" using assms by (simp_all add: is_word_def)
    show ?thesis unfolding Cons strings_Join_def list.case concat.simps find_all_word[OF w(1)]
      using tail[OF w(3,2)] by (simp only: append_Nil)
  qed (simp add: strings_Join_def)
qed

section \<open>Programs in textual form\<close>

text \<open>A named opcode without a value, or a \<open>PUSH\<close> of a hexadecimal literal of at most 256 bits.\<close>

definition assembly_ok :: "Instruction \<Rightarrow> bool" where
  "assembly_ok inst = (case Value inst of
      None \<Rightarrow> Opcode inst \<noteq> PUSH \<and> opcodeName (Opcode inst) \<noteq> []
    | Some v \<Rightarrow> Opcode inst = PUSH \<and> take 2 v = ''0x'' \<and>
        (case big_SetString (drop 2 v) 16 of None \<Rightarrow> False | Some x \<Rightarrow> \<bar>x\<bar> < 2 ^ 256))"

lemma OpcodeMap_name: "opcodeName op \<noteq> [] \<Longrightarrow> OpcodeMap (opcodeName op) = Some op"
  by (cases op) (simp_all add: OpcodeMap_def opcode_table_def)

lemma OpcodeMap_Some: "OpcodeMap t = Some op \<Longrightarrow> opcodeName op = t \<and> t \<noteq> []"
proof -
  assume "OpcodeMap t = Some op"
  then have "(t, op) \<in> set opcode_table" unfolding OpcodeMap_def by (rule map_of_SomeD)
  moreover have "\<forall>(t, op)\<in>set opcode_table. opcodeName op = t \<and> t \<noteq> []" by code_simp
  ultimately show ?thesis by blast
qed

lemma opcodeName_word: "opcodeName op \<noteq> [] \<Longrightarrow> is_word (opcodeName op)"
  by (cases op) (simp_all add: is_word_def separator_def is_space_def)

lemma read_digits_chars: "read_digits b s = Some ds \<Longrightarrow> list_all (\<lambda>c. digit_val c \<noteq> None) s"
  by (induction s arbitrary: ds) (auto split: option.splits if_splits)

lemma digit_not_separator: "digit_val c \<noteq> None \<Longrightarrow> \<not> separator c"
  by (auto simp: separator_def is_space_def digit_val_def)

lemma SetString_no_separator:
  assumes "big_SetString s b = Some x" shows "list_all (\<lambda>c. \<not> separator c) s"
proof -
  have "read_nat b t = Some y \<Longrightarrow> list_all (\<lambda>c. \<not> separator c) t" for t y
    using read_digits_chars digit_not_separator by (fastforce simp: read_nat_def list_all_iff split: if_splits)
  moreover have "\<not> separator CHR ''-''" "\<not> separator CHR ''+''" by (simp_all add: separator_def is_space_def)
  ultimately show ?thesis using assms by (cases s) (fastforce split: if_splits)+
qed

lemma assembly_push:
  "assembly_ok \<lparr>Opcode = PUSH, Value = Some v\<rparr> \<Longrightarrow> parse_hex v = Some (Inr v) \<and> is_word v"
proof -
  assume a: "assembly_ok \<lparr>Opcode = PUSH, Value = Some v\<rparr>"
  then obtain x where x: "big_SetString (drop 2 v) 16 = Some x" "\<bar>x\<bar> < 2 ^ 256" and t: "take 2 v = ''0x''"
    by (auto simp: assembly_ok_def split: option.splits)
  have v: "v = ''0x'' @ drop 2 v" using t append_take_drop_id[of 2 v] by simp
  then have "length v \<ge> 2" by (metis le_add1 length_append list.size(3,4) numeral_2_eq_2 One_nat_def Suc_eq_plus1)
  moreover have "list_all (\<lambda>c. \<not> separator c) v"
    using SetString_no_separator[OF x(1)] by (subst v) (simp add: separator_def is_space_def)
  ultimately show ?thesis using x t v by (auto simp: parse_hex_def is_word_def)
qed

lemma assembly_cases:
  assumes "assembly_ok inst"
  obtains (push) v where "inst = MakePushInstruction v" "parse_hex v = Some (Inr v)" "is_word v"
  | (plain) op where "inst = MakeInstruction op" "op \<noteq> PUSH" "opcodeName op \<noteq> []"
proof (cases "Value inst")
  case None
  then show ?thesis using assms plain[of "Opcode inst"] by (simp add: assembly_ok_def MakeInstruction_def)
next
  case (Some v)
  then have "inst = \<lparr>Opcode = PUSH, Value = Some v\<rparr>" using assms by (simp add: assembly_ok_def)
  with assms assembly_push[of v] push[of v] show ?thesis by (simp add: MakePushInstruction_def)
qed

lemma assembly_words: "assembly_ok inst \<Longrightarrow> list_all is_word (instruction_tokens inst)"
proof (erule assembly_cases)
  fix v assume "inst = MakePushInstruction v" "is_word v"
  then show ?thesis by (simp add: instruction_tokens_def MakePushInstruction_def) (simp add: is_word_def separator_def is_space_def)
next
  fix op assume "inst = MakeInstruction op" "opcodeName op \<noteq> []"
  then show ?thesis using opcodeName_word by (simp add: instruction_tokens_def MakeInstruction_def OPCODE_String_def)
qed

lemma parse_printed:
  "list_all assembly_ok is \<Longrightarrow> parse_tokens (concat (map instruction_tokens is)) acc = Some (acc @ is, None)"
proof (induction "is" arbitrary: acc)
  case (Cons i "is")
  from Cons.prems have "assembly_ok i" and r: "list_all assembly_ok is" by simp_all
  then show ?case
  proof (cases rule: assembly_cases)
    case (push v)
    then show ?thesis using Cons.IH[OF r] by (simp add: instruction_tokens_def MakePushInstruction_def)
  next
    case (plain op)
    moreover have "opcodeName op \<noteq> ''PUSH''" using plain(2) by (cases op) simp_all
    ultimately show ?thesis using Cons.IH[OF r] by (simp add: instruction_tokens_def MakeInstruction_def OPCODE_String_def OpcodeMap_name)
  qed
qed simp

lemma parse_print: "list_all assembly_ok is \<Longrightarrow> ParseInstructionsFromString (ExportInstructionsAsString is) = Some (is, None)"
proof -
  assume a: "list_all assembly_ok is"
  then have "list_all is_word (concat (map instruction_tokens is))" using assembly_words by (auto simp: list_all_iff)
  from find_all_Join[OF this] parse_printed[OF a, of "[]"] show ?thesis
    by (simp add: ParseInstructionsFromString_def ExportInstructionsAsString_def)
qed

lemma parse_hex_ok: "parse_hex v = Some (Inr w) \<Longrightarrow> assembly_ok (MakePushInstruction w)"
  by (auto simp: parse_hex_def assembly_ok_def MakePushInstruction_def Let_def split: if_splits option.splits)

lemma parse_ok:
  "parse_tokens ts acc = Some (is, e) \<Longrightarrow> list_all assembly_ok acc \<Longrightarrow> list_all assembly_ok is"
proof (induction ts acc rule: parse_tokens.induct)
  case (2 t ts acc)
  have "OpcodeMap t = Some op \<Longrightarrow> t \<noteq> ''PUSH'' \<Longrightarrow> assembly_ok (MakeInstruction op)" for op
    using OpcodeMap_Some[of t op] by (auto simp: assembly_ok_def MakeInstruction_def)
  then show ?case using 2 parse_hex_ok by (auto split: if_splits option.splits sum.splits list.splits)
qed simp

lemma no_comma_param: "list_all (\<lambda>c. \<not> separator c) s \<Longrightarrow> \<not> str_contains s ('','' @ t)"
  by (induction s) (auto simp: separator_def)

lemma assembly_valid: "assembly_ok inst \<Longrightarrow> ValidateInstruction inst \<in> {None, Some ErrNegativeValue}"
proof (cases "Value inst")
  case None
  then show "assembly_ok inst \<Longrightarrow> ?thesis"
    by (cases "Opcode inst") (simp_all add: assembly_ok_def ValidateInstruction_def Valid_def LAST_def)
next
  case (Some v)
  assume a: "assembly_ok inst"
  with Some obtain x where x: "Opcode inst = PUSH" "take 2 v = ''0x''" "big_SetString (drop 2 v) 16 = Some x"
    by (auto simp: assembly_ok_def split: option.splits)
  have "inst = \<lparr>Opcode = PUSH, Value = Some v\<rparr>" using x(1) Some by simp
  with a have "list_all (\<lambda>c. \<not> separator c) v" using assembly_push[of v] by (simp add: is_word_def)
  then have "\<not> str_contains v '',param=''" using no_comma_param[of v "''param=''"] by simp
  moreover have "has_prefix v ''0x''" "v \<noteq> []"
    using x(2) by (cases v; cases "tl v"; simp)+
  then have "GetValueAsBigInt inst = Inr x" using x(3) Some by (simp add: GetValueAsBigInt_def)
  ultimately show ?thesis using Some x(1) by (simp add: ValidateInstruction_def Valid_def LAST_def)
qed

section \<open>Properties\<close>

text \<open>
  C37. What was parsed can be printed and parsed again with the same result, whatever spacing and
  spelling of literals the text had; the instructions are valid unless a literal is negative.
\<close>

theorem parse_export_parse:
  assumes "ParseInstructionsFromString text = Some (is, None)"
  shows "ParseInstructionsFromString (ExportInstructionsAsString is) = Some (is, None)
    \<and> (\<forall>i\<in>set is. ValidateInstruction i \<in> {None, Some ErrNegativeValue})"
proof -
  have "list_all assembly_ok is" using assms parse_ok[of "find_all [] text" "[]"] by (simp add: ParseInstructionsFromString_def)
  then show ?thesis using parse_print assembly_valid by (auto simp: list_all_iff)
qed

theorem parse_export_parse_witness:
  "ParseInstructionsFromString ''PUSH 2A  ADD'' = Some ([MakePushInstruction ''0x2A'', MakeInstruction ADD], None) \<and>
   ParseInstructionsFromString (ExportInstructionsAsString [MakePushInstruction ''0x2A'', MakeInstruction ADD])
     = Some ([MakePushInstruction ''0x2A'', MakeInstruction ADD], None)"
proof -
  have "ParseInstructionsFromString ''PUSH 2A  ADD'' = Some ([MakePushInstruction ''0x2A'', MakeInstruction ADD], None)"
    by code_simp
  with parse_export_parse[OF this] show ?thesis by blast
qed

end
