(* ===== verification/Wallet.thy ===== *)
theory Wallet
  imports Api AVM_Parser
begin

text \<open>
  The wallet of \<open>src/cmd/wallet/main.go\<close>: it asks a node for the balance and the nonce of its account, makes and
  signs a transaction and submits it. The answer of the node is given as the response of \<open>handleBalance\<close>,
  \<open>None\<close> where the connection or the decoding fails; \<open>sign\<close> is \<open>ed25519.Sign\<close> with the private key, and the
  clock is an argument. \<open>None\<close> as a result is a panic. The three commands that make a transaction give the
  transaction they post; \<open>submit_transaction\<close> is how each of them goes on, and \<open>wallet_command\<close> the choice of
  a subcommand with its flags. Parsing of the flags and output are left out.
\<close>

section \<open>Commands\<close>

datatype wallet_error =
    BalanceRequestFailed
  | AccountDoesNotExist
  | WalletInsufficientBalance u64 u64
  | BytecodeUnreadable
  | BytecodeInvalid
  | SubmissionFailed

definition convertHexStringToPubKey :: "string \<Rightarrow> byte list" where
  "convertHexStringToPubKey hexVal =
     (case hex_DecodeString hexVal of
        None \<Rightarrow> []
      | Some pubBytes \<Rightarrow> if length pubBytes \<noteq> 32 then [] else pubBytes)"

text \<open>The conversion of a slice to an array panics when the slice is too short.\<close>

definition to_PublicKey :: "byte list \<Rightarrow> PublicKey option" where
  "to_PublicKey s = (if length s < 32 then None else Some (take 32 s))"

definition GetSignature :: "(byte list \<Rightarrow> byte list) \<Rightarrow> Transaction \<Rightarrow> Signature" where
  "GetSignature sign t = copy_array 64 (sign (Transaction_GetHash t))"

definition sign_transaction :: "(byte list \<Rightarrow> byte list) \<Rightarrow> Transaction \<Rightarrow> Transaction" where
  "sign_transaction sign tsx = tsx\<lparr>tx_Signature := GetSignature sign tsx\<rparr>"

definition get_balance :: "BalanceResponse response option \<Rightarrow> wallet_error + BalanceResponse" where
  "get_balance resp =
     (case resp of
        Some (Json balanceResp) \<Rightarrow> if bal_Exists balanceResp then Inr balanceResp else Inl AccountDoesNotExist
      | _ \<Rightarrow> Inl BalanceRequestFailed)"

text \<open>What \<open>checkBalance\<close> prints: balance and nonce, or that there is no account.\<close>

definition checkBalance :: "BalanceResponse response option \<Rightarrow> wallet_error + (u64 \<times> u64) option" where
  "checkBalance resp =
     (case resp of
        Some (Json response) \<Rightarrow> Inr (if bal_Exists response then Some (bal_Balance response, bal_Nonce response) else None)
      | _ \<Rightarrow> Inl BalanceRequestFailed)"

definition unsigned_transaction :: "PublicKey \<Rightarrow> PublicKey \<Rightarrow> u64 \<Rightarrow> u64 \<Rightarrow> u64 \<Rightarrow> u64 \<Rightarrow> u64 \<Rightarrow> Instruction list \<Rightarrow> byte list \<Rightarrow> Transaction" where
  "unsigned_transaction pub recipient amount gasLimit gasPrice nextNonce now instructions data =
     \<lparr>tx_From = pub, tx_To = recipient, tx_Amount = amount, tx_Signature = replicate 64 0, tx_Nonce = nextNonce, tx_Timestamp = now,
      tx_ChainID = 0, tx_Instructions = instructions, tx_GasLimit = gasLimit, tx_GasPrice = gasPrice, tx_Data = data\<rparr>"

definition sendMoneyWithData ::
  "(byte list \<Rightarrow> byte list) \<Rightarrow> PublicKey \<Rightarrow> u64 \<Rightarrow> byte list \<Rightarrow> byte list \<Rightarrow> u64 \<Rightarrow> BalanceResponse response option \<Rightarrow> (wallet_error + Transaction) option" where
  "sendMoneyWithData sign pub amount recipient data now resp =
     (case get_balance resp of
        Inl e \<Rightarrow> Some (Inl e)
      | Inr balanceResp \<Rightarrow>
          if bal_Balance balanceResp < amount then Some (Inl (WalletInsufficientBalance (bal_Balance balanceResp) amount))
          else map_option (\<lambda>k. Inr (sign_transaction sign (unsigned_transaction pub k amount 25000 100 (bal_Nonce balanceResp + 1) now [] data)))
                 (to_PublicKey recipient))"

text \<open>The content of the bytecode file is \<open>None\<close> if it cannot be read.\<close>

definition deployContract ::
  "(byte list \<Rightarrow> byte list) \<Rightarrow> PublicKey \<Rightarrow> u64 \<Rightarrow> u64 \<Rightarrow> u64 \<Rightarrow> string option \<Rightarrow> u64 \<Rightarrow> BalanceResponse response option \<Rightarrow> (wallet_error + Transaction) option" where
  "deployContract sign pub amount gasLimit gasPrice file now resp =
     (case get_balance resp of
        Inl e \<Rightarrow> Some (Inl e)
      | Inr balanceResp \<Rightarrow>
          let maxGasCost = gasLimit * gasPrice; totalCost = amount + maxGasCost in
          if bal_Balance balanceResp < totalCost then Some (Inl (WalletInsufficientBalance (bal_Balance balanceResp) totalCost))
          else case file of
              None \<Rightarrow> Some (Inl BytecodeUnreadable)
            | Some text \<Rightarrow>
                (case ParseInstructionsFromString text of
                   None \<Rightarrow> None
                 | Some (instructions, Some e) \<Rightarrow> Some (Inl BytecodeInvalid)
                 | Some (instructions, None) \<Rightarrow>
                     Some (Inr (sign_transaction sign (unsigned_transaction pub zero32 amount gasLimit gasPrice (bal_Nonce balanceResp + 1) now instructions [])))))"

definition callContractWithData ::
  "(byte list \<Rightarrow> byte list) \<Rightarrow> PublicKey \<Rightarrow> u64 \<Rightarrow> byte list \<Rightarrow> u64 \<Rightarrow> u64 \<Rightarrow> byte list \<Rightarrow> u64 \<Rightarrow> BalanceResponse response option \<Rightarrow>
   (wallet_error + Transaction) option" where
  "callContractWithData sign pub amount contract gasLimit gasPrice data now resp =
     (case get_balance resp of
        Inl e \<Rightarrow> Some (Inl e)
      | Inr balanceResp \<Rightarrow>
          let maxGasCost = gasLimit * gasPrice; totalCost = amount + maxGasCost in
          if bal_Balance balanceResp < totalCost then Some (Inl (WalletInsufficientBalance (bal_Balance balanceResp) totalCost))
          else map_option (\<lambda>k. Inr (sign_transaction sign (unsigned_transaction pub k amount gasLimit gasPrice (bal_Nonce balanceResp + 1) now [] data)))
                 (to_PublicKey contract))"

text \<open>The transaction is posted, and the answer of the node is read.\<close>

definition submit_transaction ::
  "(Transaction \<Rightarrow> SubmitTransactionResponse response option) \<Rightarrow> (wallet_error + Transaction) option \<Rightarrow> (wallet_error + SubmitTransactionResponse) option" where
  "submit_transaction post made =
     (case made of
        None \<Rightarrow> None
      | Some (Inl e) \<Rightarrow> Some (Inl e)
      | Some (Inr tsx) \<Rightarrow> Some (case post tsx of Some (Json response) \<Rightarrow> Inr response | _ \<Rightarrow> Inl SubmissionFailed))"

text \<open>A subcommand with the values of its flags, and what becomes of it: an exit, a message, or an answer.\<close>

datatype wallet_args =
    BalanceArgs
  | SendArgs u64 string string
  | DeployArgs u64 u64 u64 string
  | CallArgs string u64 u64 u64 string
  | UnknownArgs

datatype wallet_outcome =
    ExitOne
  | PrintError wallet_error
  | PrintBalance "(u64 \<times> u64) option"
  | PrintSubmitted SubmitTransactionResponse

definition data_bytes :: "string \<Rightarrow> byte list option" where
  "data_bytes data = (if data \<noteq> [] then hex_DecodeString data else Some [])"

definition submitted :: "(wallet_error + SubmitTransactionResponse) option \<Rightarrow> wallet_outcome option" where
  "submitted r = map_option (\<lambda>r. case r of Inl e \<Rightarrow> PrintError e | Inr response \<Rightarrow> PrintSubmitted response) r"

fun wallet_command ::
  "(byte list \<Rightarrow> byte list) \<Rightarrow> PublicKey \<Rightarrow> (string \<Rightarrow> string option) \<Rightarrow> u64 \<Rightarrow> BalanceResponse response option \<Rightarrow>
   (Transaction \<Rightarrow> SubmitTransactionResponse response option) \<Rightarrow> wallet_args \<Rightarrow> wallet_outcome option" where
  "wallet_command sign pub files now resp post BalanceArgs =
     Some (case checkBalance resp of Inl e \<Rightarrow> PrintError e | Inr b \<Rightarrow> PrintBalance b)"
| "wallet_command sign pub files now resp post (SendArgs amount to data) =
     (if amount \<le> 0 \<or> to = [] then Some ExitOne
      else case data_bytes data of
          None \<Rightarrow> Some ExitOne
        | Some dataBytes \<Rightarrow>
            submitted (submit_transaction post (sendMoneyWithData sign pub amount (convertHexStringToPubKey to) dataBytes now resp)))"
| "wallet_command sign pub files now resp post (DeployArgs amount gasLimit gasPrice bytecodeFile) =
     (if bytecodeFile = [] then Some ExitOne
      else submitted (submit_transaction post (deployContract sign pub amount gasLimit gasPrice (files bytecodeFile) now resp)))"
| "wallet_command sign pub files now resp post (CallArgs contract amount gasLimit gasPrice data) =
     (if contract = [] then Some ExitOne
      else case data_bytes data of
          None \<Rightarrow> Some ExitOne
        | Some dataBytes \<Rightarrow>
            submitted (submit_transaction post
              (callContractWithData sign pub amount (convertHexStringToPubKey contract) gasLimit gasPrice dataBytes now resp)))"
| "wallet_command sign pub files now resp post UnknownArgs = Some ExitOne"

section \<open>What a node makes of it\<close>

lemma sign_transaction_hash [simp]: "Transaction_GetHash (sign_transaction sign tsx) = Transaction_GetHash tsx"
  by (simp add: Transaction_GetHash_def Transaction_bytes_def sign_transaction_def)

lemma sign_transaction_simps [simp]:
  "tx_From (sign_transaction sign t) = tx_From t" "tx_To (sign_transaction sign t) = tx_To t" "tx_Amount (sign_transaction sign t) = tx_Amount t"
  "tx_Nonce (sign_transaction sign t) = tx_Nonce t" "tx_GasLimit (sign_transaction sign t) = tx_GasLimit t" "tx_GasPrice (sign_transaction sign t) = tx_GasPrice t"
  "tx_Instructions (sign_transaction sign t) = tx_Instructions t" "tx_Signature (sign_transaction sign t) = GetSignature sign t"
  by (simp_all add: sign_transaction_def)

text \<open>The balance a node reports is that of the account.\<close>

lemma handleBalance_account:
  assumes "length pub = 32" "handleBalance (get (''/balance/'' @ hex_EncodeToString pub)) n = Json resp" "bal_Exists resp"
  obtains s where "map_of (chain_AccountStates (GetChain n)) pub = Some s" "bal_Balance resp = acc_Balance s" "bal_Nonce resp = acc_Nonce s"
  using assms by (auto simp: handleBalance_def get_def TrimPrefix_def parse_address_text Let_def split: option.splits)

text \<open>A signed transaction with the next nonce, whose cost the account can pay, is valid.\<close>

lemma wallet_transaction_valid:
  assumes "map_of st pub = Some s" "pub \<noteq> zero32" "\<forall>h. verify pub h (copy_array 64 (sign h))"
    "gasLimit \<noteq> 0" "gasPrice \<noteq> 0"
    "unat amount + unat gasLimit * unat gasPrice + (if k = zero32 \<and> instructions \<noteq> [] then unat ContractDeploymentFee else 0) \<le> unat (acc_Balance s)"
  shows "ValidateTransaction verify (sign_transaction sign (unsigned_transaction pub k amount gasLimit gasPrice (acc_Nonce s + 1) now instructions data)) st = None"
proof -
  let ?t = "unsigned_transaction pub k amount gasLimit gasPrice (acc_Nonce s + 1) now instructions data"
  have lt: "unat (acc_Balance s) < 2 ^ 64" using unsigned_less[of "acc_Balance s"] by simp
  then have g: "unat (gasLimit * gasPrice) = unat gasLimit * unat gasPrice" using assms(6) by (intro unat_mult_exact) simp
  then have "gasLimit * gasPrice div gasLimit = gasPrice" using assms(4) by (simp add: word_arith_nat_div unat_eq_0)
  moreover have "unat (amount + gasLimit * gasPrice) = unat amount + unat gasLimit * unat gasPrice"
    using g assms(6) lt by (simp add: unat_add_exact)
  moreover have "unat (amount + gasLimit * gasPrice + ContractDeploymentFee) = unat amount + unat gasLimit * unat gasPrice + unat ContractDeploymentFee"
    if "k = zero32 \<and> instructions \<noteq> []" using calculation(2) assms(6) lt that by (simp add: unat_add_exact)
  ultimately show ?thesis
    using assms g lt by (auto simp: ValidateTransaction_def ValidateAmount_def is_deployment_def unsigned_transaction_def GetSignature_def SafeAdd_unat
      word_less_nat_alt Let_def split: if_splits)
qed

lemma GetChain_accounts:
  "(if currentChainTip n = zero32 then [] else case current_chain n of None \<Rightarrow> [] | Some chain \<Rightarrow> GetAccountStates chain)
     = chain_AccountStates (GetChain n)"
  by (simp add: GetChain_def GetAccountStates_def NewChain_def split: option.split)

lemma handleSubmitTransaction_valid:
  assumes "ValidateTransaction verify tx (chain_AccountStates (GetChain n)) = None" "length (mp_transactions (node_Mempool n)) < MempoolMaxSize"
    "map_of (mp_transactions (node_Mempool n)) (Transaction_GetHash tx) = None"
  shows "\<exists>n'. handleSubmitTransaction verify now ((get ''/submit-transaction'')\<lparr>req_Method := ''POST''\<rparr>) (Some tx) n =
    (n', Json \<lparr>sub_Status = ''submitted'', sub_Hash = hex_EncodeToString (Transaction_GetHash tx)\<rparr>)"
proof -
  have "snd (AddTransaction now tx (node_Mempool n))" using assms(2,3) by (simp add: AddTransaction_def Let_def)
  then have "snd (ProcessTransaction verify now tx n) = None"
    using assms(1) unfolding ProcessTransaction_def GetChain_accounts by (auto simp: Let_def split: prod.splits)
  then show ?thesis by (cases "ProcessTransaction verify now tx n") (simp add: handleSubmitTransaction_def get_def)
qed

section \<open>Properties\<close>

text \<open>
  C19. What the wallet makes for a contract call is accepted: if the balance that the node reports lets the
  wallet make the transaction, its signature verifies, its gas is not zero and its cost does not wrap around,
  then the node takes the transaction, provided that its pool has room and does not hold it already.
\<close>

theorem wallet_call_accepted:
  assumes pub: "length pub = 32" "pub \<noteq> zero32" "\<forall>h. verify pub h (copy_array 64 (sign h))"
    and balance: "handleBalance (get (''/balance/'' @ hex_EncodeToString pub)) n = Json resp"
    and made: "callContractWithData sign pub amount contract gasLimit gasPrice data now (Some (Json resp)) = Some (Inr tx)"
    and gas: "gasLimit \<noteq> 0" "gasPrice \<noteq> 0" "unat amount + unat gasLimit * unat gasPrice < 2 ^ 64"
    and pool: "length (mp_transactions (node_Mempool n)) < MempoolMaxSize"
      "map_of (mp_transactions (node_Mempool n)) (Transaction_GetHash tx) = None"
  shows "\<exists>n'. handleSubmitTransaction verify now' ((get ''/submit-transaction'')\<lparr>req_Method := ''POST''\<rparr>) (Some tx) n =
    (n', Json \<lparr>sub_Status = ''submitted'', sub_Hash = hex_EncodeToString (Transaction_GetHash tx)\<rparr>)"
proof -
  from made obtain k where e: "bal_Exists resp" and b: "\<not> bal_Balance resp < amount + gasLimit * gasPrice"
    and tx: "tx = sign_transaction sign (unsigned_transaction pub k amount gasLimit gasPrice (bal_Nonce resp + 1) now [] data)"
    by (auto simp: callContractWithData_def get_balance_def Let_def split: if_splits)
  obtain s where s: "map_of (chain_AccountStates (GetChain n)) pub = Some s" "bal_Balance resp = acc_Balance s" "bal_Nonce resp = acc_Nonce s"
    using handleBalance_account[OF pub(1) balance e] .
  have "unat (gasLimit * gasPrice) = unat gasLimit * unat gasPrice" using gas(3) by (intro unat_mult_exact) simp
  then have "unat amount + unat gasLimit * unat gasPrice \<le> unat (acc_Balance s)"
    using b gas(3) by (simp add: s(2) word_less_nat_alt unat_add_exact)
  then have "ValidateTransaction verify tx (chain_AccountStates (GetChain n)) = None"
    unfolding tx s(3) using wallet_transaction_valid[where verify = verify and sign = sign and amount = amount and k = k and instructions = "[]", OF s(1) pub(2,3) gas(1,2)] by simp
  from handleSubmitTransaction_valid[OF this pool] show ?thesis .
qed

definition rich_node :: Node where
  "rich_node = NewNode\<lparr>chains := [(bob, 0)], chain_heap := [NewChain\<lparr>chain_AccountStates := rich\<rparr>], currentChainTip := bob\<rparr>"

theorem wallet_call_accepted_witness:
  "\<exists>tx n'. callContractWithData (\<lambda>_. []) FirstUser 5 bob 30000 1 [] 9
      (Some (handleBalance (get (''/balance/'' @ hex_EncodeToString FirstUser)) rich_node)) = Some (Inr tx) \<and>
    handleSubmitTransaction accept 7 ((get ''/submit-transaction'')\<lparr>req_Method := ''POST''\<rparr>) (Some tx) rich_node =
      (n', Json \<lparr>sub_Status = ''submitted'', sub_Hash = hex_EncodeToString (Transaction_GetHash tx)\<rparr>)"
proof -
  let ?r = "\<lparr>bal_Address = hex_EncodeToString FirstUser, bal_Exists = True, bal_Balance = 1000000, bal_Nonce = 0\<rparr>"
  have "chain_AccountStates (GetChain rich_node) = rich" by (simp add: rich_node_def GetChain_def current_chain_def)
  then have b: "handleBalance (get (''/balance/'' @ hex_EncodeToString FirstUser)) rich_node = Json ?r"
    by (simp add: handleBalance_def get_def TrimPrefix_def parse_address_text rich_def new_account_def length_FirstUser)
  obtain tx where tx: "callContractWithData (\<lambda>_. []) FirstUser 5 bob 30000 1 [] 9 (Some (Json ?r)) = Some (Inr tx)"
    by (simp add: callContractWithData_def get_balance_def to_PublicKey_def)
  have pool: "mp_transactions (node_Mempool rich_node) = []" by (simp add: rich_node_def NewNode_def NewMempool_def)
  have "\<exists>n'. handleSubmitTransaction accept 7 ((get ''/submit-transaction'')\<lparr>req_Method := ''POST''\<rparr>) (Some tx) rich_node =
      (n', Json \<lparr>sub_Status = ''submitted'', sub_Hash = hex_EncodeToString (Transaction_GetHash tx)\<rparr>)"
    by (rule wallet_call_accepted[OF length_FirstUser FirstUser_not_zero _ b tx]) (simp_all add: accept_def pool MempoolMaxSize_def)
  then show ?thesis using b tx by auto
qed

text \<open>
  A wallet that deploys a contract forgets the deployment fee: an account that can pay the amount and the gas,
  but not the fee as well, gets a transaction from the wallet that the node refuses.
\<close>

lemma wallet_deployment_refused:
  assumes "deployContract sign pub amount gasLimit gasPrice file now (Some (Json resp)) = Some (Inr tx)" "tx_Instructions tx \<noteq> []"
    "map_of st pub = Some s" "bal_Balance resp = acc_Balance s" "pub \<noteq> zero32"
    "unat (acc_Balance s) < unat amount + unat gasLimit * unat gasPrice + unat ContractDeploymentFee"
  shows "ValidateTransaction verify tx st \<noteq> None"
proof
  assume "ValidateTransaction verify tx st = None"
  moreover have "tx_From tx = pub" "is_deployment tx" "tx_Amount tx = amount" "tx_GasLimit tx = gasLimit" "tx_GasPrice tx = gasPrice"
    using assms(1,2) by (auto simp: deployContract_def get_balance_def Let_def is_deployment_def unsigned_transaction_def split: if_splits option.splits)
  ultimately show False
    using assms(3,5,6) by (elim ValidateTransaction_None[where verify = verify]) (auto simp: max_gas_cost_def)
qed

text \<open>
  A recipient that is not a key of 32 bytes in hexadecimal makes the wallet panic, if the account can pay: the
  empty key that \<open>convertHexStringToPubKey\<close> returns is converted to an array all the same.
\<close>

lemma wallet_send_panics:
  assumes "amount \<noteq> 0" "to \<noteq> []" "\<forall>k. hex_DecodeString to = Some k \<longrightarrow> length k \<noteq> 32" "data_bytes data \<noteq> None"
    "bal_Exists resp" "amount \<le> bal_Balance resp"
  shows "wallet_command sign pub files now (Some (Json resp)) post (SendArgs amount to data) = None"
  using assms by (auto simp: sendMoneyWithData_def get_balance_def convertHexStringToPubKey_def to_PublicKey_def submit_transaction_def submitted_def
    split: option.splits)

end
