(* ===== verification/Spec2Isabelle.thy ===== *)
theory Spec2Isabelle
  imports Marigold_Contracts Propagation Wallet
begin

text \<open>
  \<^bold>\<open>August\<close> is a proof-of-work blockchain in Go with a stack machine (the AVM) for contracts. This
  library models its core, \<open>src/config\<close>, \<open>src/utils\<close>, \<open>src/types\<close>, \<open>src/avm\<close>, \<open>src/execution\<close> and
  \<open>src/blockchain\<close>, the node of \<open>src/node\<close> with its HTTP interface and the network library of \<open>src/libnet\<close>, the
  Marigold compiler of \<open>src/marigold\<close>, and the miner and the wallet of \<open>src/cmd\<close>, as executable functions and
  proves the properties that make it correct, and those that show where it is not.

  \<^bold>\<open>How the parts interact.\<close> A node (\<open>node/node.go\<close>) keeps several candidate chains and receives headers
  from its peers; \<open>ProcessHeader\<close> finds the chain a header continues, or keeps it as an orphan, fetches the
  block, converted from a message by \<open>libnet/converters.go\<close>, and passes it to \<open>ValidateBlock\<close> and \<open>ApplyBlock\<close>
  (\<open>blockchain/validation.go\<close>). The block is checked against the chain (parent, target, Merkle root, time), then every transaction is validated and applied to a copy of the accounts
  (\<open>ValidateTransaction\<close>, \<open>ApplyTransaction\<close>); a deployment or a call of a contract goes through the
  interface \<open>ContractExecutor\<close> to \<open>execution/execution.go\<close>, which runs the code in the virtual machine of
  \<open>avm/runtime.go\<close> under the gas limit of the transaction. The new accounts and the block then enter
  the chain (\<open>chain.go\<close>). Wallets and miners talk to a node through the handlers of \<open>node/api.go\<close>: a wallet
  (\<open>cmd/wallet\<close>) asks for its balance, signs a transaction and submits it to the mempool; a miner (\<open>cmd/miner\<close>) asks
  for the head of the chain, the accounts and the transactions that \<open>GetTransactions\<close> of the mempool
  (\<open>node/mempool.go\<close>) hands out, makes a block with \<open>NewBlock\<close> (\<open>mining.go\<close>) and submits it. Nodes announce headers
  to each other and answer requests for blocks (\<open>libnet/rpc\<close>). Contracts are written in Marigold, whose source text
  goes through \<open>Lex\<close>, \<open>Parse\<close>, \<open>Typecheck\<close> and \<open>Codegen\<close>; the resulting text is read back into instructions by
  \<open>ParseInstructionsFromString\<close> (\<open>avm/parser.go\<close>).

  \<^bold>\<open>Conventions.\<close> \<open>uint64\<close>, \<open>uint32\<close> and \<open>byte\<close> are words of their width, so arithmetic wraps where the
  code does; \<open>big.Int\<close> is \<open>int\<close>; a Go map is an association list in the order in which Go walks it
  (type \<open>gomap\<close>), and what must not depend on that order is proved not to. Structs are records,
  errors are datatypes, and a function that may panic returns \<open>None\<close> for the panic. An allocation or a slice
  that no 64-bit machine can hold (\<open>maxAlloc\<close>, \<open>maxSlots\<close>) is a panic as well, in \<open>STRCONCAT\<close>, \<open>EMITSTR\<close>,
  \<open>LOAD_LOCAL\<close>, \<open>STORE_LOCAL\<close> and \<open>AddBlock\<close>, where input can ask for one. Pointers to
  accounts are the entries of the account table; where the code keeps a pointer across a call that
  replaces the entry, the model passes the object and the replaced keys explicitly. Signature
  verification (\<open>ed25519.Verify\<close>) is the argument \<open>verify\<close>, the clock the argument \<open>now\<close>, and what peers
  answer the argument \<open>net\<close>. Goroutines are tasks in a list that run in any order. SHA-256 is
  defined as the standard has it. Log output is left out.

  \<^bold>\<open>Theories.\<close>
  \<^item> \<open>Go_Prelude\<close>: Go maps, byte encodings, \<open>big.Int\<close> text and bytes, shared lemmas. \<open>Sha256\<close>: the
    hash function, with the locale of digests of a fixed length and collisions between lists of messages.
  \<^item> \<open>Config\<close>, \<open>Utils\<close>: constants of \<open>config/config.go\<close>; \<open>utils/safemath.go\<close> and \<open>utils/convert.go\<close>. \<open>Encoding\<close>:
    hexadecimal and base64, the texts of hashes and keys, with the locale \<open>text_code\<close> of encodings that are read back.
  \<^item> \<open>Bytecode\<close>: \<open>types/bytecode.go\<close>, the opcodes, prices, names and instructions.
  \<^item> \<open>AVM_Arith\<close>, \<open>AVM_State\<close>, \<open>AVM_Runtime\<close>: \<open>avm/runtime.go\<close>, the signed arithmetic, the stack, the
    memory and the strings in it, one definition per opcode, gas and \<open>ExecuteInstruction\<close>.
  \<^item> \<open>AVM_Execution\<close>: the loop of \<open>StartExecution\<close>, total because every completed instruction costs
    gas (no fuel is needed); the step relation \<open>avm_step\<close>, and the locales that lift invariants from
    one instruction to the loop. \<open>AVM_Safety\<close>: gas, termination, stack limit and absence of panics.
    \<open>AVM_Strings\<close>: strings stored in memory are read back; concatenation.
  \<^item> \<open>Ledger\<close>, \<open>Merkle\<close>: \<open>account.go\<close>, \<open>transaction.go\<close>, \<open>block.go\<close>, \<open>crypto.go\<close>; what the Merkle root
    binds, independence of the map order, and the places where a hash is ambiguous.
  \<^item> \<open>Execution\<close>: \<open>execution/execution.go\<close>, with the locale \<open>contract_executor\<close> of the laws that
    \<open>ApplyTransaction\<close> relies on, interpreted on the executor of the code.
  \<^item> \<open>Transactions\<close>, \<open>Tx_Properties\<close>: validation and application of transactions; no panics after
    validation, the effect of a transfer, the gas bound, and the cases that create coins.
  \<^item> \<open>Difficulty\<close>: \<open>difficulty.go\<close>, \<open>work.go\<close> and the nonce search; compact targets, adjustment, work.
  \<^item> \<open>Blocks\<close>, \<open>Block_Properties\<close>: \<open>genesis.go\<close>, \<open>chain.go\<close> and block and header validation; what
    acceptance establishes, the supply of a block, reachable chains, header chains and their work.
  \<^item> \<open>Mining\<close>: \<open>NewBlock\<close>; a mined block of valid transfers is accepted.
  \<^item> \<open>Go_Heap\<close>, \<open>Mempool\<close>: Go's \<open>container/heap\<close> with the locales \<open>priority\<close> (a strict weak order)
    and \<open>max_queue\<close> (what a priority queue promises), and \<open>node/mempool.go\<close>; the invariant that ties
    the heap to the map, the transactions handed out, and the refinement of a plain map.
  \<^item> \<open>Converters\<close>: \<open>libnet/converters.go\<close>, blocks as messages; what of a block survives the way to a peer.
  \<^item> \<open>Node\<close>: the state of a node with its chains on a heap, \<open>ProcessHeader\<close> and everything it calls,
    \<open>ProcessTransaction\<close>, the goroutines and the getters. \<open>Node_Properties\<close>: the step relation \<open>node_step\<close> and
    the invariant of the reachable states. \<open>Node_Chains\<close>: all the ways in which a header changes the current
    chain (\<open>chain_change\<close>), the undoing of refused blocks, and the cases in which the node loses its chain or
    takes a wrong total work.
  \<^item> \<open>Api\<close>: \<open>node/api.go\<close>, every handler; accepted transactions and stored blocks are found. \<open>Peers\<close>: framing
    (\<open>libnet/proto_stream.go\<close>), requests that wait for an answer and the choice of peers (\<open>libnet/utils.go\<close>), the
    handlers of \<open>libnet/rpc\<close>; answers wake whoever waits. \<open>Miner\<close>: \<open>cmd/miner\<close>. \<open>Wallet\<close>: \<open>cmd/wallet\<close>; what it makes
    is accepted. \<open>Propagation\<close>: a mined block becomes the tip of the node it is submitted to, and of the nodes
    that hear of it.
  \<^item> \<open>AVM_Parser\<close>: \<open>avm/parser.go\<close>, reading and printing assembly; the round trip.
  \<^item> \<open>Marigold_Syntax\<close>: \<open>tokens.go\<close>, \<open>types.go\<close>, \<open>ast.go\<close>, \<open>chainidents.go\<close>. \<open>Marigold_Lexer\<close>:
    \<open>lexer.go\<close>; printed tokens are read back.
  \<^item> \<open>Marigold_Parser\<close>: the whole of \<open>parser.go\<close>. \<open>Marigold_Parsing\<close>: it ends on every input (locale
    \<open>enclosed\<close>, progress of every function) and satisfies the recursion equations of the source (locale
    \<open>larger_bound\<close>). \<open>Marigold_Printer\<close>, \<open>Marigold_Roundtrip\<close>, \<open>Marigold_Source\<close>: printing of expressions with
    the fewest parentheses, of statements and of programs, and the round trip through lexer and parser.
  \<^item> \<open>Marigold_Typechecker\<close>: the whole of \<open>typechecker.go\<close>. \<open>Marigold_Typing\<close> gives the typing rules as an
    inductive relation of its own, which uses no function of the checker and which the checker decides; \<open>Marigold_Checked\<close> shows that checked programs compile.
  \<^item> \<open>Marigold_Codegen\<close>: the whole of \<open>codegen.go\<close>. \<open>Marigold_Semantics\<close> gives integer programs a
    meaning of their own on 256-bit words (\<open>eval\<close>, \<open>exec\<close>), with a scope for every block and only exact
    quotients; \<open>Marigold_Scopes\<close> shows that programs which hide no variable (\<open>unshadowed\<close>) mean the same with
    the one store per function that the code generator works with; \<open>AVM_Runs\<close> describes runs of the machine with
    their exact cost, \<open>Marigold_Structure\<close> the shape of the generated code, \<open>Marigold_Correct\<close> the
    simulation of statements, and \<open>Marigold_Programs\<close> the correctness of the compiled entry points.
  \<^item> \<open>Marigold_Compiler\<close>: the passes composed as in \<open>cmd/marigold\<close>, from the text of a contract to the value that the
    machine computes. \<open>Marigold_Contracts\<close>: the life of a compiled contract, from its text over its
    deployment to its call.

  \<^bold>\<open>Bounds.\<close> Supply theorems assume that the balances add up to less than \<open>2 ^ 63\<close> (or \<open>2 ^ 62\<close>), far
  above what can be mined; without a bound, adding to a balance may overflow and panic. The functions of
  the parser take one more than the number of tokens left as a bound on their depth, which is proved never
  to be reached. Local variables and heights of blocks are below \<open>2 ^ 45\<close>, the longest slice of pointers. The
  walks over the headers of a node are partial functions: on a cycle of headers they do
  not end.

  \<^bold>\<open>Not modelled.\<close> The HTTP server and the JSON encoding of whole structures: requests and responses are given
  decoded. The hosts, streams and discovery of libp2p and the generated encoding of messages, which the sources
  only call; starting and stopping a node with them. Command line flags, the commands that only print or
  generate keys, debugging output of the compiler, \<open>CalculateDifficulty\<close> (a floating-point value for log
  messages) and the fixtures of the tests. The mutexes guard single operations and are left out; a handler of the
  node is one step, so that what other goroutines do while it waits for its peers is not modelled. That memory may
  run out earlier than at the limits of a 64-bit machine is not modelled. The semantics of
  Marigold covers integers; strings and maps of compiled programs are covered by the safety of the machine only.
  Programs that declare a name while it is visible are outside the theorems on the compiler, since the code
  generator reuses the cell of the hidden variable; inexact quotients and remainders of negative numbers, on whose
  value the type checker, the comments and the machine disagree, have no meaning.
\<close>

end
